(* ===== verification/Hime_Prelude.thy ===== *)
theory Hime_Prelude
  imports Main "HOL-Library.Char_ord" "HOL-Library.List_Lexorder"
    "HOL-Library.Product_Lexorder" "HOL-Library.Sublist"
begin

section \<open>Shared types, automation and interfaces\<close>

text \<open>
  What every component of the model shares: the type of Go strings (byte strings), the
  collections of simplification rules, machines that read one byte at a time and stop at the first
  error, and the interfaces (locales) that several components provide: a machine with an invariant,
  a machine that simulates a simpler one, and a byte-wise escaping function with its decoder.
\<close>

type_synonym byte = char
type_synonym bytes = "char list"

text \<open>The numeric value of a byte. Go compares and tests bytes by this value.\<close>

abbreviation code :: "byte \<Rightarrow> nat" where
  "code b \<equiv> of_char b"

lemma code_less_256 [simp]: "code b < 256"
  by (metis of_char_of char_of_char mod_less_divisor zero_less_numeral)

lemma code_le_255 [simp]: "code b \<le> 255"
  using code_less_256 [of b] by linarith

lemma byte_eq_iff_code: "b = c \<longleftrightarrow> code b = code c"
  by simp

named_theorems byte_class \<open>unfolding rules of the byte classes\<close>
named_theorems go_eval \<open>unfolding rules that evaluate the model on closed inputs\<close>

declare Let_def [go_eval]

subsection \<open>Machines that read bytes and may stop with an error\<close>

fun run_machine :: "('s \<Rightarrow> 'b \<Rightarrow> 'e + 's) \<Rightarrow> 's \<Rightarrow> 'b list \<Rightarrow> 'e + 's" where
  "run_machine step s [] = Inr s"
| "run_machine step s (b # bs) =
     (case step s b of Inl e \<Rightarrow> Inl e | Inr s' \<Rightarrow> run_machine step s' bs)"

lemma run_machine_append:
  "run_machine step s (xs @ ys) =
     (case run_machine step s xs of Inl e \<Rightarrow> Inl e | Inr s' \<Rightarrow> run_machine step s' ys)"
  by (induction xs arbitrary: s) (auto split: sum.splits)

lemma run_machine_append_Inr:
  "run_machine step s xs = Inr s' \<Longrightarrow> run_machine step s (xs @ ys) = run_machine step s' ys"
  by (simp add: run_machine_append)

lemma run_machine_ConsE:
  assumes "run_machine step s (b # bs) = Inr t"
  obtains u where "step s b = Inr u" and "run_machine step u bs = Inr t"
  using assms by (auto split: sum.splits)

lemma run_machine_appendE:
  assumes "run_machine step s (xs @ ys) = Inr t"
  obtains u where "run_machine step s xs = Inr u" and "run_machine step u ys = Inr t"
  using assms by (auto simp: run_machine_append split: sum.splits)

text \<open>A machine one of whose steps keeps a property: every run keeps it.\<close>

locale machine_invariant =
  fixes step :: "'s \<Rightarrow> 'b \<Rightarrow> 'e + 's"
    and inv :: "'s \<Rightarrow> bool"
  assumes step_inv: "inv s \<Longrightarrow> step s b = Inr s' \<Longrightarrow> inv s'"
begin

lemma run_inv: "inv s \<Longrightarrow> run_machine step s bs = Inr s' \<Longrightarrow> inv s'"
  by (induction bs arbitrary: s) (auto split: sum.splits dest: step_inv)

end

text \<open>
  A machine whose successful steps are followed by a total machine on an abstraction of its
  state: the abstraction of a run is the run of the total machine.
\<close>

locale machine_simulation = machine_invariant step inv
  for step :: "'s \<Rightarrow> 'b \<Rightarrow> 'e + 's" and inv :: "'s \<Rightarrow> bool" +
  fixes astep :: "'b \<Rightarrow> 'a \<Rightarrow> 'a"
    and abs :: "'s \<Rightarrow> 'a"
  assumes step_sim: "inv s \<Longrightarrow> step s b = Inr s' \<Longrightarrow> astep b (abs s) = abs s'"
begin

lemma run_sim:
  "inv s \<Longrightarrow> run_machine step s bs = Inr s' \<Longrightarrow> fold astep bs (abs s) = abs s'"
proof (induction bs arbitrary: s)
  case Nil
  then show ?case by simp
next
  case (Cons b bs)
  from Cons.prems(2) obtain u where u: "step s b = Inr u" "run_machine step u bs = Inr s'"
    by (rule run_machine_ConsE)
  have "inv u"
    using Cons.prems(1) u(1) by (rule step_inv)
  then have "fold astep bs (abs u) = abs s'"
    using u(2) by (rule Cons.IH)
  then show ?case
    using step_sim [OF Cons.prems(1) u(1)] by simp
qed

end

subsection \<open>Systems driven by actions\<close>

text \<open>
  A server is a step function of actions that come in any order. A property that every action keeps
  holds in every history; a reflexive and transitive relation between the states before and after every
  action relates the two ends of every history.
\<close>

locale action_invariant =
  fixes step :: "'a \<Rightarrow> 's \<Rightarrow> 's"
    and inv :: "'s \<Rightarrow> bool"
  assumes step_keeps: "inv s \<Longrightarrow> inv (step a s)"
begin

lemma run_keeps: "inv s \<Longrightarrow> inv (foldl (\<lambda>s a. step a s) s actions)"
  by (induction actions arbitrary: s) (simp_all add: step_keeps)

end

locale action_relation =
  fixes step :: "'a \<Rightarrow> 's \<Rightarrow> 's"
    and rel :: "'s \<Rightarrow> 's \<Rightarrow> bool"
  assumes rel_refl: "rel s s"
    and rel_trans: "rel s t \<Longrightarrow> rel t u \<Longrightarrow> rel s u"
    and step_related: "rel s (step a s)"

sublocale action_relation \<subseteq> since: action_invariant step "rel start" for start
  by unfold_locales (rule rel_trans [OF _ step_related])

context action_relation
begin

lemma run_related: "rel s (foldl (\<lambda>s a. step a s) s actions)"
  by (rule since.run_keeps [OF rel_refl])

end

subsection \<open>Byte-wise escaping\<close>

text \<open>
  An escaping function replaces each byte on its own. Its contract is a set of bytes that never
  occur in its output.
\<close>

locale byte_escape =
  fixes enc :: "byte \<Rightarrow> bytes"
    and bad :: "byte \<Rightarrow> bool"
  assumes enc_safe: "c \<in> set (enc b) \<Longrightarrow> \<not> bad c"
begin

lemma escape_safe: "c \<in> set (concat (map enc s)) \<Longrightarrow> \<not> bad c"
  by (auto dest: enc_safe)

lemma escape_safe_list_all: "list_all (\<lambda>c. \<not> bad c) (concat (map enc s))"
  by (auto simp: list_all_iff dest: enc_safe)

end

text \<open>
  An escaping function that can be undone: a decoder reads one escaped byte off the front of a
  string, whatever follows. The whole string can then be read back, and escaping is injective.
\<close>

fun decode_all :: "(bytes \<Rightarrow> (byte \<times> bytes) option) \<Rightarrow> nat \<Rightarrow> bytes \<Rightarrow> bytes option" where
  "decode_all dec n [] = Some []"
| "decode_all dec 0 (b # s) = None"
| "decode_all dec (Suc n) (b # s) =
     (case dec (b # s) of
        None \<Rightarrow> None
      | Some (c, t) \<Rightarrow> map_option ((#) c) (decode_all dec n t))"

locale decodable_escape = byte_escape enc bad
  for enc :: "byte \<Rightarrow> bytes" and bad :: "byte \<Rightarrow> bool" +
  fixes dec :: "bytes \<Rightarrow> (byte \<times> bytes) option"
  assumes dec_enc: "dec (enc b @ t) = Some (b, t)"
    and enc_nonempty: "enc b \<noteq> []"
begin

lemma decode_escape:
  "length (concat (map enc s)) \<le> n \<Longrightarrow> decode_all dec n (concat (map enc s)) = Some s"
proof (induction s arbitrary: n)
  case Nil
  then show ?case by simp
next
  case (Cons b s)
  obtain c cs where cs: "enc b = c # cs"
    using enc_nonempty by (meson neq_Nil_conv)
  from Cons.prems cs obtain m where n: "n = Suc m"
    by (cases n) auto
  have "length (concat (map enc s)) \<le> m"
    using Cons.prems cs n by simp
  then have "decode_all dec m (concat (map enc s)) = Some s"
    by (rule Cons.IH)
  moreover have "dec (c # cs @ concat (map enc s)) = Some (b, concat (map enc s))"
    using dec_enc [of b "concat (map enc s)"] cs by simp
  ultimately show ?case
    by (simp add: cs n)
qed

lemma escape_inj: "concat (map enc s) = concat (map enc t) \<Longrightarrow> s = t"
  by (metis decode_escape order_refl option.inject)

end

subsection \<open>Fresh names\<close>

text \<open>A supply of names: a name that is not among the used ones.\<close>

locale name_supply =
  fixes fresh :: "bytes \<Rightarrow> bytes list \<Rightarrow> bytes"
  assumes fresh_unused: "fresh base used \<notin> set used"
begin

lemma fresh_distinct: "fresh b2 (fresh b1 used # used) \<noteq> fresh b1 used"
  using fresh_unused [of b2 "fresh b1 used # used"] by auto

lemma fresh_keeps_unused: "set used \<subseteq> set more \<Longrightarrow> fresh b more \<notin> set used"
  using fresh_unused [of b more] by auto

end

subsection \<open>Lists\<close>

lemma list_all_concat_map: "list_all P (concat (map f xs)) \<longleftrightarrow> list_all (\<lambda>x. list_all P (f x)) xs"
  by (induction xs) auto

lemma butlast_snoc_last: "xs \<noteq> [] \<Longrightarrow> butlast xs @ [last xs] = xs"
  by simp

end
