(* ===== verification/Go_Strings.thy ===== *)
theory Go_Strings
  imports Hime_Prelude
begin

section \<open>The parts of Go's strings, bytes, unicode and html packages the source uses\<close>

text \<open>
  Go strings and byte slices are lists of bytes. This theory holds the library functions the
  program calls on them: prefixes and searching, UTF-8 decoding and validity, trimming, ASCII and
  Unicode lower case, and \<open>html.EscapeString\<close>. The Unicode lower-case table and the HTML
  entity table are data of the Go distribution: they are parameters where they are used.
\<close>

subsection \<open>Prefixes, suffixes and searching\<close>

fun has_prefix :: "bytes \<Rightarrow> bytes \<Rightarrow> bool" where
  "has_prefix [] s = True"
| "has_prefix (p # ps) [] = False"
| "has_prefix (p # ps) (c # s) = (p = c \<and> has_prefix ps s)"

lemma has_prefix_iff: "has_prefix p s \<longleftrightarrow> (\<exists>t. s = p @ t)"
  by (induction p s rule: has_prefix.induct) auto

lemma has_prefix_append [simp]: "has_prefix p (p @ t)"
  by (auto simp: has_prefix_iff)

lemma has_prefix_take: "has_prefix p s \<longleftrightarrow> take (length p) s = p"
  by (induction p s rule: has_prefix.induct) auto

lemma has_prefix_append_right: "has_prefix p s \<Longrightarrow> has_prefix p (s @ t)"
  by (auto simp: has_prefix_iff)

definition has_suffix :: "bytes \<Rightarrow> bytes \<Rightarrow> bool" where
  "has_suffix p s = has_prefix (rev p) (rev s)"

lemma has_suffix_iff: "has_suffix p s \<longleftrightarrow> (\<exists>t. s = t @ p)"
  by (auto simp: has_suffix_def has_prefix_iff) (metis rev_append rev_rev_ident)

definition trim_prefix :: "bytes \<Rightarrow> bytes \<Rightarrow> bytes" where
  "trim_prefix p s = (if has_prefix p s then drop (length p) s else s)"

definition trim_suffix :: "bytes \<Rightarrow> bytes \<Rightarrow> bytes" where
  "trim_suffix p s = (if has_suffix p s then take (length s - length p) s else s)"

lemma trim_prefix_append [simp]: "trim_prefix p (p @ t) = t"
  by (simp add: trim_prefix_def)

lemma trim_suffix_append [simp]: "trim_suffix p (t @ p) = t"
  by (auto simp: trim_suffix_def has_suffix_iff)

text \<open>\<open>bytes.Index\<close> (\<open>None\<close> is Go's \<open>-1\<close>) and \<open>bytes.IndexByte\<close>.\<close>

fun index_of :: "bytes \<Rightarrow> bytes \<Rightarrow> nat option" where
  "index_of sep [] = (if sep = [] then Some 0 else None)"
| "index_of sep (c # s) =
     (if has_prefix sep (c # s) then Some 0 else map_option Suc (index_of sep s))"

fun index_byte :: "byte \<Rightarrow> bytes \<Rightarrow> nat option" where
  "index_byte b [] = None"
| "index_byte b (c # s) = (if c = b then Some 0 else map_option Suc (index_byte b s))"

lemma index_of_Some:
  "index_of sep s = Some i \<Longrightarrow> i \<le> length s \<and> has_prefix sep (drop i s)"
  by (induction s arbitrary: i) (auto split: if_splits)

lemma index_of_first:
  "index_of sep s = Some i \<Longrightarrow> j < i \<Longrightarrow> \<not> has_prefix sep (drop j s)"
proof (induction s arbitrary: i j)
  case Nil
  then show ?case by (auto split: if_splits)
next
  case (Cons c s)
  then show ?case by (cases j) (auto split: if_splits)
qed

lemma index_of_None: "index_of sep s = None \<Longrightarrow> j \<le> length s \<Longrightarrow> \<not> has_prefix sep (drop j s)"
proof (induction s arbitrary: j)
  case Nil
  then show ?case by (cases sep) (auto split: if_splits)
next
  case (Cons c s)
  then show ?case by (cases j) (auto split: if_splits)
qed

lemma index_byte_Some:
  "index_byte b s = Some i \<Longrightarrow> i < length s \<and> s ! i = b \<and> b \<notin> set (take i s)"
  by (induction s arbitrary: i) (auto split: if_splits)

lemma index_byte_None [simp]: "index_byte b s = None \<longleftrightarrow> b \<notin> set s"
  by (induction s) auto

lemma index_byte_append_notin:
  "b \<notin> set s \<Longrightarrow> index_byte b (s @ b # t) = Some (length s)"
  by (induction s) auto

lemma index_byte_split:
  "index_byte b s = Some i \<Longrightarrow> \<exists>t. s = take i s @ b # t \<and> t = drop (Suc i) s"
  using index_byte_Some [of b s i] id_take_nth_drop [of i s] by auto

text \<open>\<open>strings.ContainsAny\<close> for an ASCII set, and \<open>strings.IndexAny\<close>.\<close>

fun index_any :: "bytes \<Rightarrow> bytes \<Rightarrow> nat option" where
  "index_any chars [] = None"
| "index_any chars (c # s) =
     (if c \<in> set chars then Some 0 else map_option Suc (index_any chars s))"

definition contains_any :: "bytes \<Rightarrow> bytes \<Rightarrow> bool" where
  "contains_any s chars = list_ex (\<lambda>c. c \<in> set chars) s"

lemma index_any_Some:
  "index_any cs s = Some i \<Longrightarrow> i < length s \<and> s ! i \<in> set cs \<and> set (take i s) \<inter> set cs = {}"
  by (induction s arbitrary: i) (auto split: if_splits)

lemma index_any_None [simp]: "index_any cs s = None \<longleftrightarrow> set s \<inter> set cs = {}"
  by (induction s) auto

text \<open>\<open>bytes.LastIndex\<close>: the last position at which the separator starts.\<close>

fun last_index_of :: "bytes \<Rightarrow> bytes \<Rightarrow> nat option" where
  "last_index_of sep [] = (if sep = [] then Some 0 else None)"
| "last_index_of sep (c # s) =
     (case last_index_of sep s of
        Some i \<Rightarrow> Some (Suc i)
      | None \<Rightarrow> (if has_prefix sep (c # s) then Some 0 else None))"

lemma last_index_of_Some:
  "last_index_of sep s = Some i \<Longrightarrow> i \<le> length s \<and> has_prefix sep (drop i s)"
  by (induction s arbitrary: i) (auto split: if_splits option.splits)

lemma last_index_of_None:
  "last_index_of sep s = None \<Longrightarrow> j \<le> length s \<Longrightarrow> \<not> has_prefix sep (drop j s)"
proof (induction s arbitrary: j)
  case Nil
  then show ?case by (cases sep) (auto split: if_splits)
next
  case (Cons c s)
  then show ?case by (cases j) (auto split: if_splits option.splits)
qed

lemma last_index_of_last:
  "last_index_of sep s = Some i \<Longrightarrow> i < j \<Longrightarrow> j \<le> length s \<Longrightarrow> \<not> has_prefix sep (drop j s)"
proof (induction s arbitrary: i j)
  case Nil
  then show ?case by (auto split: if_splits)
next
  case (Cons c s)
  from Cons.prems obtain k where j: "j = Suc k" by (cases j) auto
  show ?case
  proof (cases "last_index_of sep s")
    case None
    with Cons.prems(3) j show ?thesis
      using last_index_of_None [of sep s k] by simp
  next
    case (Some m)
    with Cons.prems j Cons.IH [of m k] show ?thesis by simp
  qed
qed

text \<open>\<open>strings.Split\<close> on a one-byte separator, \<open>strings.Cut\<close>, \<open>strings.Join\<close>.\<close>

fun split_on :: "byte \<Rightarrow> bytes \<Rightarrow> bytes list" where
  "split_on sep [] = [[]]"
| "split_on sep (c # s) =
     (if c = sep then [] # split_on sep s
      else (case split_on sep s of [] \<Rightarrow> [[c]] | p # ps \<Rightarrow> (c # p) # ps))"

fun join_with :: "bytes \<Rightarrow> bytes list \<Rightarrow> bytes" where
  "join_with sep [] = []"
| "join_with sep [p] = p"
| "join_with sep (p # q # ps) = p @ sep @ join_with sep (q # ps)"

definition cut_at :: "byte \<Rightarrow> bytes \<Rightarrow> (bytes \<times> bytes) option" where
  "cut_at sep s = map_option (\<lambda>i. (take i s, drop (Suc i) s)) (index_byte sep s)"

lemma split_on_nonempty [simp]: "split_on sep s \<noteq> []"
  by (induction s) (auto split: list.splits)

lemma join_split_on [simp]: "join_with [sep] (split_on sep s) = s"
proof (induction s)
  case Nil
  then show ?case by simp
next
  case (Cons c s)
  obtain p ps where ps: "split_on sep s = p # ps"
    by (meson neq_Nil_conv split_on_nonempty)
  with Cons show ?case by (cases ps) auto
qed

lemma split_on_no_sep: "p \<in> set (split_on sep s) \<Longrightarrow> sep \<notin> set p"
  by (induction s arbitrary: p) (auto split: if_splits list.splits)

lemma split_on_single: "sep \<notin> set s \<Longrightarrow> split_on sep s = [s]"
  by (induction s) auto

lemma split_on_append: "sep \<notin> set s \<Longrightarrow> split_on sep (s @ sep # t) = s # split_on sep t"
  by (induction s) auto

subsection \<open>Byte classes of ASCII\<close>

definition is_ascii :: "byte \<Rightarrow> bool" where [byte_class]:
  "is_ascii b = (code b < 128)"

definition ascii_lower :: "byte \<Rightarrow> byte" where
  "ascii_lower b = (if 65 \<le> code b \<and> code b \<le> 90 then char_of (code b + 32) else b)"

lemma ascii_lower_id: "\<not> (65 \<le> code b \<and> code b \<le> 90) \<Longrightarrow> ascii_lower b = b"
  by (auto simp: ascii_lower_def)

lemma code_ascii_lower:
  "code (ascii_lower b) = (if 65 \<le> code b \<and> code b \<le> 90 then code b + 32 else code b)"
  by (simp add: ascii_lower_def)

lemma ascii_lower_idem [simp]: "ascii_lower (ascii_lower b) = ascii_lower b"
  by (simp add: ascii_lower_def)

subsection \<open>UTF-8\<close>

definition rune_error :: nat where "rune_error = 65533"

definition is_cont :: "byte \<Rightarrow> bool" where [byte_class]:
  "is_cont b = (128 \<le> code b \<and> code b \<le> 191)"

text \<open>
  \<open>utf8.DecodeRune\<close>: the first rune and its width. An invalid sequence decodes to
  \<open>(RuneError, 1)\<close>, the empty string to \<open>(RuneError, 0)\<close>. The bounds of the second
  byte are those of Go's \<open>acceptRanges\<close>.
\<close>

definition second_lo :: "nat \<Rightarrow> nat" where
  "second_lo c0 = (if c0 = 224 then 160 else if c0 = 240 then 144 else 128)"

definition second_hi :: "nat \<Rightarrow> nat" where
  "second_hi c0 = (if c0 = 237 then 159 else if c0 = 244 then 143 else 191)"

definition decode_rune :: "bytes \<Rightarrow> nat \<times> nat" where
  "decode_rune s = (case s of
     [] \<Rightarrow> (rune_error, 0)
   | b0 # t \<Rightarrow>
      (if code b0 < 128 then (code b0, 1)
       else if code b0 < 194 \<or> 244 < code b0 then (rune_error, 1)
       else (case t of
          [] \<Rightarrow> (rune_error, 1)
        | b1 # t1 \<Rightarrow>
           (if code b1 < second_lo (code b0) \<or> second_hi (code b0) < code b1 then (rune_error, 1)
            else if code b0 < 224 then ((code b0 - 192) * 64 + (code b1 - 128), 2)
            else (case t1 of
               [] \<Rightarrow> (rune_error, 1)
             | b2 # t2 \<Rightarrow>
                (if \<not> is_cont b2 then (rune_error, 1)
                 else if code b0 < 240
                   then ((code b0 - 224) * 4096 + (code b1 - 128) * 64 + (code b2 - 128), 3)
                 else (case t2 of
                    [] \<Rightarrow> (rune_error, 1)
                  | b3 # t3 \<Rightarrow>
                     (if \<not> is_cont b3 then (rune_error, 1)
                      else ((code b0 - 240) * 262144 + (code b1 - 128) * 4096
                            + (code b2 - 128) * 64 + (code b3 - 128), 4)))))))))"

lemma decode_rune_Nil [simp]: "decode_rune [] = (rune_error, 0)"
  by (simp add: decode_rune_def)

lemma decode_rune_ascii [simp]: "code b < 128 \<Longrightarrow> decode_rune (b # t) = (code b, 1)"
  by (simp add: decode_rune_def)

lemma decode_rune_size_pos: "s \<noteq> [] \<Longrightarrow> 0 < snd (decode_rune s)"
  by (auto simp: decode_rune_def split: list.splits)

lemma decode_rune_size_le: "snd (decode_rune s) \<le> length s"
  by (auto simp: decode_rune_def split: list.splits)

lemma decode_rune_size_le4: "snd (decode_rune s) \<le> 4"
  by (auto simp: decode_rune_def split: list.splits)

text \<open>
  The chunks of a string: the runes a \<open>range\<close> loop sees, each with the bytes it was
  decoded from.
\<close>

function utf8_chunks :: "bytes \<Rightarrow> (nat \<times> bytes) list" where
  "utf8_chunks [] = []"
| "utf8_chunks (b # s) =
     (let (r, n) = decode_rune (b # s) in (r, take n (b # s)) # utf8_chunks (drop n (b # s)))"
  by pat_completeness auto
termination
proof (relation "measure length")
  show "wf (measure (length :: bytes \<Rightarrow> nat))" by simp
next
  fix b :: byte and s x r n
  assume "x = decode_rune (b # s)" and "(r, n) = x"
  then have "0 < n"
    using decode_rune_size_pos [of "b # s"] by (metis list.distinct(1) snd_conv)
  then show "(drop n (b # s), b # s) \<in> measure length" by simp
qed

declare utf8_chunks.simps(2) [simp del]

lemma utf8_chunks_Cons:
  "decode_rune (b # s) = (r, n) \<Longrightarrow>
   utf8_chunks (b # s) = (r, take n (b # s)) # utf8_chunks (drop n (b # s))"
  by (simp add: utf8_chunks.simps(2))

lemma utf8_chunks_ascii [simp]:
  "code b < 128 \<Longrightarrow> utf8_chunks (b # s) = (code b, [b]) # utf8_chunks s"
  by (simp add: utf8_chunks.simps(2))

lemma concat_utf8_chunks [simp]: "concat (map snd (utf8_chunks s)) = s"
proof (induction s rule: utf8_chunks.induct)
  case 1
  then show ?case by simp
next
  case (2 b s)
  obtain r n where d: "decode_rune (b # s) = (r, n)" by fastforce
  then show ?case
    using "2.IH" [OF _ refl, of r n] by (simp only: utf8_chunks_Cons [OF d]) simp
qed

definition runes :: "bytes \<Rightarrow> nat list" where
  "runes s = map fst (utf8_chunks s)"

text \<open>A chunk that decoded to \<open>(RuneError, 1)\<close> is an invalid byte.\<close>

definition invalid_chunk :: "nat \<times> bytes \<Rightarrow> bool" where
  "invalid_chunk c = (fst c = rune_error \<and> length (snd c) = 1)"

definition valid_utf8 :: "bytes \<Rightarrow> bool" where
  "valid_utf8 s = list_all (\<lambda>c. \<not> invalid_chunk c) (utf8_chunks s)"

text \<open>
  A chunk that stands for itself wherever it is placed: decoding it, with anything behind it,
  reads exactly the chunk.
\<close>

definition good_chunk :: "nat \<times> bytes \<Rightarrow> bool" where
  "good_chunk c = (snd c \<noteq> [] \<and> decode_rune (snd c) = (fst c, length (snd c)) \<and> \<not> invalid_chunk c)"

lemma decode_rune_cases:
  assumes dec: "decode_rune s = (r, n)" and ne: "s \<noteq> []" and ok: "\<not> (r = rune_error \<and> n = 1)"
  obtains (one) b0 t where "s = b0 # t" "code b0 < 128" "r = code b0" "n = 1"
  | (two) b0 b1 t where "s = b0 # b1 # t" "194 \<le> code b0" "code b0 < 224"
      "second_lo (code b0) \<le> code b1" "code b1 \<le> second_hi (code b0)"
      "r = (code b0 - 192) * 64 + (code b1 - 128)" "n = 2"
  | (three) b0 b1 b2 t where "s = b0 # b1 # b2 # t" "224 \<le> code b0" "code b0 < 240"
      "second_lo (code b0) \<le> code b1" "code b1 \<le> second_hi (code b0)" "is_cont b2"
      "r = (code b0 - 224) * 4096 + (code b1 - 128) * 64 + (code b2 - 128)" "n = 3"
  | (four) b0 b1 b2 b3 t where "s = b0 # b1 # b2 # b3 # t" "240 \<le> code b0" "code b0 \<le> 244"
      "second_lo (code b0) \<le> code b1" "code b1 \<le> second_hi (code b0)" "is_cont b2" "is_cont b3"
      "r = (code b0 - 240) * 262144 + (code b1 - 128) * 4096 + (code b2 - 128) * 64 + (code b3 - 128)"
      "n = 4"
proof -
  obtain b0 t0 where s0: "s = b0 # t0" using ne by (cases s) auto
  show thesis
  proof (cases "code b0 < 128")
    case True
    then show ?thesis using dec s0 one by simp
  next
    case big: False
    from dec ok big s0 have lead: "\<not> (code b0 < 194 \<or> 244 < code b0)"
      by (auto simp: decode_rune_def split: if_splits)
    with dec ok big s0 obtain b1 t1 where s1: "t0 = b1 # t1"
      by (cases t0) (auto simp: decode_rune_def)
    with dec ok big s0 lead have snd: "\<not> (code b1 < second_lo (code b0) \<or> second_hi (code b0) < code b1)"
      by (auto simp: decode_rune_def split: if_splits)
    show ?thesis
    proof (cases "code b0 < 224")
      case True
      then show ?thesis using dec s0 s1 big lead snd two by (simp add: decode_rune_def)
    next
      case b3: False
      with dec ok big s0 s1 lead snd obtain b2 t2 where s2: "t1 = b2 # t2"
        by (cases t1) (auto simp: decode_rune_def)
      with dec ok big s0 s1 lead snd b3 have c2: "is_cont b2"
        by (auto simp: decode_rune_def split: if_splits)
      show ?thesis
      proof (cases "code b0 < 240")
        case True
        then show ?thesis using dec s0 s1 s2 big lead snd b3 c2 three by (simp add: decode_rune_def)
      next
        case b4: False
        with dec ok big s0 s1 s2 lead snd b3 c2 obtain b3' t3 where s3: "t2 = b3' # t3"
          by (cases t2) (auto simp: decode_rune_def)
        with dec ok big s0 s1 s2 lead snd b3 c2 b4 have c3: "is_cont b3'"
          by (auto simp: decode_rune_def split: if_splits)
        show ?thesis
          using dec s0 s1 s2 s3 big lead snd b3 b4 c2 c3 four by (simp add: decode_rune_def)
      qed
    qed
  qed
qed

lemma decode_rune_append:
  assumes "decode_rune s = (r, n)" and "s \<noteq> []" and "\<not> (r = rune_error \<and> n = 1)"
  shows "decode_rune (take n s @ t) = (r, n)"
  using assms by (cases rule: decode_rune_cases) (simp_all add: decode_rune_def)

lemma good_chunk_decode:
  "good_chunk (r, c) \<Longrightarrow> decode_rune (c @ t) = (r, length c)"
  using decode_rune_append [of c r "length c" t] by (auto simp: good_chunk_def invalid_chunk_def)

lemma good_chunkI:
  assumes "decode_rune s = (r, n)" and "s \<noteq> []" and "\<not> (r = rune_error \<and> n = 1)"
  shows "good_chunk (r, take n s)"
proof -
  have n: "length (take n s) = n"
    using decode_rune_size_le [of s] assms(1) by simp
  have "0 < n"
    using decode_rune_size_pos [OF assms(2)] assms(1) by simp
  then show ?thesis
    using decode_rune_append [OF assms, of "[]"] assms(2,3) n
    by (auto simp: good_chunk_def invalid_chunk_def)
qed

lemma good_chunk_chunks:
  assumes "good_chunk (r, c)"
  shows "utf8_chunks (c @ t) = (r, c) # utf8_chunks t"
proof -
  obtain b cs where c: "c = b # cs"
    using assms by (auto simp: good_chunk_def neq_Nil_conv)
  have d: "decode_rune (b # cs @ t) = (r, length c)"
    using good_chunk_decode [OF assms, of t] by (simp add: c)
  show ?thesis
    using utf8_chunks_Cons [OF d] by (simp add: c)
qed

lemma chunks_of_good_chunks:
  "list_all good_chunk cs \<Longrightarrow> utf8_chunks (concat (map snd cs) @ t) = cs @ utf8_chunks t"
  by (induction cs) (auto simp: good_chunk_chunks)

lemma utf8_chunks_cases:
  "c \<in> set (utf8_chunks s) \<Longrightarrow> invalid_chunk c \<or> good_chunk c"
proof (induction s rule: utf8_chunks.induct)
  case 1
  then show ?case by simp
next
  case (2 b s)
  obtain r n where d: "decode_rune (b # s) = (r, n)" by fastforce
  show ?case
  proof (cases "c = (r, take n (b # s))")
    case True
    have "length (take n (b # s)) = n"
      using decode_rune_size_le [of "b # s"] d by simp
    then show ?thesis
      using True good_chunkI [OF d] by (auto simp: invalid_chunk_def)
  next
    case False
    then show ?thesis
      using "2.IH" [OF _ refl, of r n] "2.prems" d by (simp add: utf8_chunks_Cons [OF d])
  qed
qed

lemma valid_utf8_good: "valid_utf8 s \<longleftrightarrow> list_all good_chunk (utf8_chunks s)"
  using utf8_chunks_cases by (auto simp: valid_utf8_def list_all_iff good_chunk_def)

lemma utf8_chunks_append: "valid_utf8 s \<Longrightarrow> utf8_chunks (s @ t) = utf8_chunks s @ utf8_chunks t"
  using chunks_of_good_chunks [of "utf8_chunks s" t] by (simp add: valid_utf8_good)

lemma valid_utf8_append: "valid_utf8 s \<Longrightarrow> valid_utf8 t \<Longrightarrow> valid_utf8 (s @ t)"
  by (simp add: utf8_chunks_append valid_utf8_def)

lemma valid_utf8_concat_good: "list_all good_chunk cs \<Longrightarrow> valid_utf8 (concat (map snd cs))"
  using chunks_of_good_chunks [of cs "[]"] by (simp add: valid_utf8_good)

lemma valid_utf8_Nil [simp]: "valid_utf8 []"
  by (simp add: valid_utf8_def)

lemma valid_utf8_ascii_Cons [simp]: "code b < 128 \<Longrightarrow> valid_utf8 (b # s) = valid_utf8 s"
  by (simp add: valid_utf8_def invalid_chunk_def rune_error_def)

lemma good_chunk_cases:
  assumes "good_chunk (r, c)"
  obtains (ascii) b where "c = [b]" "code b < 128" "r = code b"
  | (multi) "128 \<le> r" "\<forall>b\<in>set c. 128 \<le> code b" "1 < length c"
proof -
  have d: "decode_rune c = (r, length c)" and ne: "c \<noteq> []"
    and ok: "\<not> (r = rune_error \<and> length c = 1)"
    using assms by (auto simp: good_chunk_def invalid_chunk_def)
  from d ne ok show thesis
  proof (cases rule: decode_rune_cases)
    case (one b0 t)
    then show ?thesis using ascii by simp
  next
    case (two b0 b1 t)
    then show ?thesis using multi by (auto simp: second_lo_def split: if_splits)
  next
    case (three b0 b1 b2 t)
    then have "2048 \<le> r" by (auto simp: second_lo_def split: if_splits)
    with three show ?thesis using multi by (auto simp: second_lo_def is_cont_def split: if_splits)
  next
    case (four b0 b1 b2 b3 t)
    then have "65536 \<le> r" by (auto simp: second_lo_def split: if_splits)
    with four show ?thesis using multi by (auto simp: second_lo_def is_cont_def split: if_splits)
  qed
qed

text \<open>\<open>strings.ToValidUTF8\<close>: each maximal run of invalid bytes becomes one replacement.\<close>

fun to_valid_chunks :: "bytes \<Rightarrow> bool \<Rightarrow> (nat \<times> bytes) list \<Rightarrow> bytes" where
  "to_valid_chunks rep prev [] = []"
| "to_valid_chunks rep prev (c # cs) =
     (if invalid_chunk c
      then (if prev then [] else rep) @ to_valid_chunks rep True cs
      else snd c @ to_valid_chunks rep False cs)"

definition to_valid_utf8 :: "bytes \<Rightarrow> bytes \<Rightarrow> bytes" where
  "to_valid_utf8 s rep = to_valid_chunks rep False (utf8_chunks s)"

definition replacement_char :: bytes where
  "replacement_char = [CHR 0xEF, CHR 0xBF, CHR 0xBD]"

definition replace_byte :: "byte \<Rightarrow> bytes \<Rightarrow> bytes \<Rightarrow> bytes" where
  "replace_byte b rep s = concat (map (\<lambda>c. if c = b then rep else [c]) s)"

lemma good_chunk_replacement: "good_chunk (rune_error, replacement_char)"
  by (simp add: good_chunk_def decode_rune_def replacement_char_def invalid_chunk_def
      rune_error_def second_lo_def second_hi_def is_cont_def)

lemma valid_replacement_char [simp]: "valid_utf8 replacement_char"
  using good_chunk_chunks [OF good_chunk_replacement, of "[]"]
  by (simp add: valid_utf8_good good_chunk_replacement)

lemma valid_to_valid_chunks:
  assumes "valid_utf8 rep"
  shows "\<forall>c\<in>set cs. invalid_chunk c \<or> good_chunk c \<Longrightarrow> valid_utf8 (to_valid_chunks rep prev cs)"
proof (induction cs arbitrary: prev)
  case Nil
  then show ?case by simp
next
  case (Cons c cs)
  obtain r bs where c: "c = (r, bs)" by fastforce
  have "good_chunk c \<Longrightarrow> valid_utf8 (snd c)"
    using valid_utf8_concat_good [of "[c]"] by simp
  then show ?case
    using Cons assms by (auto intro: valid_utf8_append)
qed

lemma valid_to_valid_utf8: "valid_utf8 rep \<Longrightarrow> valid_utf8 (to_valid_utf8 s rep)"
  unfolding to_valid_utf8_def by (rule valid_to_valid_chunks) (auto dest: utf8_chunks_cases)

lemma to_valid_utf8_id: "valid_utf8 s \<Longrightarrow> to_valid_utf8 s rep = s"
proof -
  have "list_all (\<lambda>c. \<not> invalid_chunk c) cs \<Longrightarrow> to_valid_chunks rep prev cs = concat (map snd cs)"
    for cs prev by (induction cs arbitrary: prev) auto
  then show "valid_utf8 s \<Longrightarrow> to_valid_utf8 s rep = s"
    by (simp add: to_valid_utf8_def valid_utf8_def)
qed

lemma replace_byte_notin: "b \<notin> set rep \<Longrightarrow> b \<notin> set (replace_byte b rep s)"
  by (auto simp: replace_byte_def)

lemma replace_byte_id: "b \<notin> set s \<Longrightarrow> replace_byte b rep s = s"
  by (induction s) (auto simp: replace_byte_def)

lemma valid_replace_ascii:
  assumes "code b < 128" and "valid_utf8 rep" and "valid_utf8 s"
  shows "valid_utf8 (replace_byte b rep s)"
proof -
  have "list_all good_chunk cs \<Longrightarrow> valid_utf8 (replace_byte b rep (concat (map snd cs)))" for cs
  proof (induction cs)
    case Nil
    then show ?case by (simp add: replace_byte_def)
  next
    case (Cons c cs)
    obtain r bs where c: "c = (r, bs)" by fastforce
    have good: "good_chunk (r, bs)" using Cons.prems c by simp
    have app: "replace_byte b rep (xs @ ys) = replace_byte b rep xs @ replace_byte b rep ys"
      for xs ys by (simp add: replace_byte_def)
    have bs: "valid_utf8 bs"
      using valid_utf8_concat_good [of "[(r, bs)]"] good by simp
    have "valid_utf8 (replace_byte b rep bs)"
    proof (cases "b \<in> set bs")
      case False
      then show ?thesis using bs by (simp add: replace_byte_id)
    next
      case True
      from good True assms(1) have "bs = [b]"
        by (cases rule: good_chunk_cases) auto
      then show ?thesis using assms(2) by (simp add: replace_byte_def)
    qed
    then show ?case
      using Cons c by (simp add: app valid_utf8_append)
  qed
  then show ?thesis
    using assms(3) by (metis concat_utf8_chunks valid_utf8_good)
qed

text \<open>\<open>utf8.EncodeRune\<close>: surrogates and values past the last code point become U+FFFD.\<close>

definition encode_rune :: "nat \<Rightarrow> bytes" where
  "encode_rune r =
     (if r < 128 then [char_of r]
      else if r < 2048 then [char_of (192 + r div 64), char_of (128 + r mod 64)]
      else if 1114111 < r \<or> (55296 \<le> r \<and> r \<le> 57343) then replacement_char
      else if r < 65536
        then [char_of (224 + r div 4096), char_of (128 + r div 64 mod 64), char_of (128 + r mod 64)]
      else [char_of (240 + r div 262144), char_of (128 + r div 4096 mod 64),
            char_of (128 + r div 64 mod 64), char_of (128 + r mod 64)])"

lemma encode_rune_ascii [simp]: "code b < 128 \<Longrightarrow> encode_rune (code b) = [b]"
  by (simp add: encode_rune_def)

subsection \<open>White space and trimming\<close>

definition is_space_rune :: "nat \<Rightarrow> bool" where
  "is_space_rune r =
     (9 \<le> r \<and> r \<le> 13 \<or> r = 32 \<or> r = 133 \<or> r = 160 \<or> r = 5760 \<or> 8192 \<le> r \<and> r \<le> 8202
      \<or> r = 8232 \<or> r = 8233 \<or> r = 8239 \<or> r = 8287 \<or> r = 12288)"

definition trim_left_chunks :: "(nat \<Rightarrow> bool) \<Rightarrow> (nat \<times> bytes) list \<Rightarrow> (nat \<times> bytes) list" where
  "trim_left_chunks f cs = dropWhile (\<lambda>c. f (fst c)) cs"

definition trim_chunks :: "(nat \<Rightarrow> bool) \<Rightarrow> (nat \<times> bytes) list \<Rightarrow> (nat \<times> bytes) list" where
  "trim_chunks f cs = rev (trim_left_chunks f (rev (trim_left_chunks f cs)))"

text \<open>
  \<open>strings.TrimFunc\<close>. Decoding from the end sees the same runes as decoding from the front,
  because a multi-byte chunk holds one leading byte and continuation bytes only.
\<close>

definition trim_func :: "(nat \<Rightarrow> bool) \<Rightarrow> bytes \<Rightarrow> bytes" where
  "trim_func f s = concat (map snd (trim_chunks f (utf8_chunks s)))"

definition trim_space :: "bytes \<Rightarrow> bytes" where
  "trim_space = trim_func is_space_rune"

text \<open>\<open>bytes.TrimLeft\<close> and \<open>bytes.TrimRight\<close> with an ASCII cutset.\<close>

definition trim_left :: "bytes \<Rightarrow> bytes \<Rightarrow> bytes" where
  "trim_left cutset s = dropWhile (\<lambda>b. b \<in> set cutset) s"

definition trim_right :: "bytes \<Rightarrow> bytes \<Rightarrow> bytes" where
  "trim_right cutset s = rev (dropWhile (\<lambda>b. b \<in> set cutset) (rev s))"

lemma dropWhile_hd: "dropWhile P xs = y # ys \<Longrightarrow> \<not> P y"
  using hd_dropWhile [of P xs] by simp

lemma trim_chunks_subset: "set (trim_chunks f cs) \<subseteq> set cs"
  by (auto simp: trim_chunks_def trim_left_chunks_def dest!: set_dropWhileD)

lemma trim_chunks_ends:
  "trim_chunks f cs \<noteq> [] \<Longrightarrow> \<not> f (fst (hd (trim_chunks f cs))) \<and> \<not> f (fst (last (trim_chunks f cs)))"
proof -
  assume ne: "trim_chunks f cs \<noteq> []"
  let ?P = "\<lambda>c. f (fst c)"
  define ds where "ds = dropWhile ?P cs"
  define es where "es = dropWhile ?P (rev ds)"
  have t: "trim_chunks f cs = rev es"
    by (simp add: trim_chunks_def trim_left_chunks_def ds_def es_def)
  with ne have es: "es \<noteq> []" by simp
  have last: "\<not> ?P (hd es)" using es unfolding es_def by (rule hd_dropWhile)
  obtain ws where ws: "rev ds = ws @ es"
    using takeWhile_dropWhile_id [of ?P "rev ds"] unfolding es_def by metis
  then have ds: "ds = rev es @ rev ws"
    by (metis rev_append rev_rev_ident)
  then have "hd ds = hd (rev es)" "ds \<noteq> []"
    using es by simp_all
  then have "\<not> ?P (hd (rev es))"
    using hd_dropWhile [of ?P cs] unfolding ds_def by metis
  with last es t show ?thesis by (simp add: last_rev)
qed

lemma trim_chunks_idem: "trim_chunks f (trim_chunks f cs) = trim_chunks f cs"
proof (cases "trim_chunks f cs = []")
  case True
  have "trim_chunks f [] = []" by (simp add: trim_chunks_def trim_left_chunks_def)
  with True show ?thesis by (simp only:)
next
  case False
  note ends = trim_chunks_ends [OF False]
  have stay: "\<not> f (fst (hd xs)) \<Longrightarrow> dropWhile (\<lambda>c. f (fst c)) xs = xs" for xs :: "(nat \<times> bytes) list"
    by (cases xs) auto
  show ?thesis
  proof -
    have "dropWhile (\<lambda>c. f (fst c)) (trim_chunks f cs) = trim_chunks f cs"
      using ends by (intro stay) simp
    moreover have "dropWhile (\<lambda>c. f (fst c)) (rev (trim_chunks f cs)) = rev (trim_chunks f cs)"
      using ends False by (intro stay) (simp add: hd_rev)
    ultimately show ?thesis
      by (simp only: trim_chunks_def [of f "trim_chunks f cs"] trim_left_chunks_def rev_rev_ident)
  qed
qed

lemma trim_func_chunks:
  assumes "valid_utf8 s"
  shows "utf8_chunks (trim_func f s) = trim_chunks f (utf8_chunks s)"
proof -
  have "list_all good_chunk (trim_chunks f (utf8_chunks s))"
    using assms trim_chunks_subset [of f "utf8_chunks s"] by (auto simp: valid_utf8_good list_all_iff)
  then show ?thesis
    using chunks_of_good_chunks [of "trim_chunks f (utf8_chunks s)" "[]"] by (simp add: trim_func_def)
qed

lemma valid_trim_func: "valid_utf8 s \<Longrightarrow> valid_utf8 (trim_func f s)"
  using trim_chunks_subset [of f "utf8_chunks s"]
  by (auto simp: valid_utf8_good trim_func_chunks list_all_iff)

lemma trim_func_idem: "valid_utf8 s \<Longrightarrow> trim_func f (trim_func f s) = trim_func f s"
  by (simp add: trim_func_def [of f "trim_func f s"] trim_func_chunks trim_chunks_idem)
     (simp add: trim_func_def)

lemma set_trim_func: "set (trim_func f s) \<subseteq> set s"
proof
  fix b assume "b \<in> set (trim_func f s)"
  then have "b \<in> set (concat (map snd (utf8_chunks s)))"
    using trim_chunks_subset [of f "utf8_chunks s"]
    by (fastforce simp: trim_func_def simp del: concat_utf8_chunks)
  then show "b \<in> set s" by simp
qed

subsection \<open>Case mapping and comparison\<close>

text \<open>
  \<open>strings.ToLower\<close>: ASCII strings byte by byte, other strings rune by rune through the
  Unicode table \<open>ucl\<close> (invalid bytes become U+FFFD).
\<close>

definition to_lower :: "(nat \<Rightarrow> nat) \<Rightarrow> bytes \<Rightarrow> bytes" where
  "to_lower ucl s =
     (if list_all is_ascii s then map ascii_lower s
      else concat (map (\<lambda>r. encode_rune (ucl r)) (runes s)))"

lemma to_lower_ascii: "list_all is_ascii s \<Longrightarrow> to_lower ucl s = map ascii_lower s"
  by (simp add: to_lower_def)

text \<open>
  \<open>strings.EqualFold\<close> against an ASCII string: the only other runes that fold to ASCII letters
  are U+017F (to s) and U+212A (to k).
\<close>

definition fold_rune :: "nat \<Rightarrow> nat" where
  "fold_rune r =
     (if 65 \<le> r \<and> r \<le> 90 then r + 32 else if r = 383 then 115 else if r = 8490 then 107 else r)"

definition equal_fold_ascii :: "bytes \<Rightarrow> bytes \<Rightarrow> bool" where
  "equal_fold_ascii s t = (map fold_rune (runes s) = map (\<lambda>b. code (ascii_lower b)) t)"

subsection \<open>HTML escaping\<close>

text \<open>\<open>html.EscapeString\<close> replaces five bytes and keeps every other.\<close>

definition html_escape_byte :: "byte \<Rightarrow> bytes" where
  "html_escape_byte b =
     (if b = CHR ''&'' then ''&amp;''
      else if b = CHR 0x27 then ''&#39;''
      else if b = CHR ''<'' then ''&lt;''
      else if b = CHR ''>'' then ''&gt;''
      else if b = CHR 0x22 then ''&#34;''
      else [b])"

definition html_escape :: "bytes \<Rightarrow> bytes" where
  "html_escape s = concat (map html_escape_byte s)"

definition html_special :: "byte \<Rightarrow> bool" where
  "html_special b = (b = CHR ''<'' \<or> b = CHR ''>'' \<or> b = CHR 0x22 \<or> b = CHR 0x27)"

text \<open>A decoder of exactly the five references that escaping writes.\<close>

definition html_unescape_byte :: "bytes \<Rightarrow> (byte \<times> bytes) option" where
  "html_unescape_byte s =
     (if has_prefix ''&amp;'' s then Some (CHR ''&'', drop 5 s)
      else if has_prefix ''&#39;'' s then Some (CHR 0x27, drop 5 s)
      else if has_prefix ''&lt;'' s then Some (CHR ''<'', drop 4 s)
      else if has_prefix ''&gt;'' s then Some (CHR ''>'', drop 4 s)
      else if has_prefix ''&#34;'' s then Some (CHR 0x22, drop 5 s)
      else (case s of [] \<Rightarrow> None | c # t \<Rightarrow> if c = CHR ''&'' then None else Some (c, t)))"

lemma html_escape_byte_safe: "c \<in> set (html_escape_byte b) \<Longrightarrow> \<not> html_special c"
  by (auto simp: html_escape_byte_def html_special_def split: if_splits)

lemma html_escape_byte_dec: "html_unescape_byte (html_escape_byte b @ t) = Some (b, t)"
  by (auto simp: html_escape_byte_def html_unescape_byte_def)

lemma html_escape_byte_nonempty: "html_escape_byte b \<noteq> []"
  by (simp add: html_escape_byte_def)

interpretation html_esc: decodable_escape html_escape_byte html_special html_unescape_byte
  by unfold_locales
    (simp_all add: html_escape_byte_safe html_escape_byte_dec html_escape_byte_nonempty)

lemma html_escape_no_special: "c \<in> set (html_escape s) \<Longrightarrow> \<not> html_special c"
  unfolding html_escape_def by (rule html_esc.escape_safe)

lemma html_escape_append [simp]: "html_escape (s @ t) = html_escape s @ html_escape t"
  by (simp add: html_escape_def)

lemma html_escape_inj: "html_escape s = html_escape t \<Longrightarrow> s = t"
  unfolding html_escape_def by (rule html_esc.escape_inj)

subsection \<open>Decimal and hexadecimal numbers\<close>

fun show_nat :: "nat \<Rightarrow> bytes" where
  "show_nat n = (if n < 10 then [char_of (48 + n)] else show_nat (n div 10) @ [char_of (48 + n mod 10)])"

declare show_nat.simps [simp del]

definition read_nat :: "bytes \<Rightarrow> nat" where
  "read_nat s = foldl (\<lambda>n b. 10 * n + (code b - 48)) 0 s"

lemma read_show_nat [simp]: "read_nat (show_nat n) = n"
proof (induction n rule: show_nat.induct)
  case (1 n)
  show ?case
  proof (cases "n < 10")
    case True
    then show ?thesis by (simp add: show_nat.simps read_nat_def)
  next
    case False
    then have "read_nat (show_nat (n div 10)) = n div 10" using "1.IH" by simp
    with False show ?thesis
      by (subst show_nat.simps) (simp add: read_nat_def)
  qed
qed

lemma show_nat_inj: "show_nat m = show_nat n \<Longrightarrow> m = n"
  by (metis read_show_nat)

definition show_int :: "int \<Rightarrow> bytes" where
  "show_int i = (if i < 0 then CHR ''-'' # show_nat (nat (- i)) else show_nat (nat i))"

definition hex_value :: "byte \<Rightarrow> nat option" where
  "hex_value b =
     (if 48 \<le> code b \<and> code b \<le> 57 then Some (code b - 48)
      else if 97 \<le> code b \<and> code b \<le> 102 then Some (code b - 87)
      else if 65 \<le> code b \<and> code b \<le> 70 then Some (code b - 55)
      else None)"

definition hex_upper :: "nat \<Rightarrow> byte" where
  "hex_upper n = (if n < 10 then char_of (48 + n) else char_of (55 + n))"

declare has_suffix_def [go_eval] trim_prefix_def [go_eval] trim_suffix_def [go_eval]
  contains_any_def [go_eval] cut_at_def [go_eval] is_ascii_def [go_eval] ascii_lower_def [go_eval]
  rune_error_def [go_eval] is_cont_def [go_eval] runes_def [go_eval] invalid_chunk_def [go_eval]
  valid_utf8_def [go_eval] to_valid_utf8_def [go_eval] replacement_char_def [go_eval]
  replace_byte_def [go_eval] is_space_rune_def [go_eval] trim_left_chunks_def [go_eval]
  trim_chunks_def [go_eval] trim_func_def [go_eval] trim_space_def [go_eval]
  trim_left_def [go_eval] trim_right_def [go_eval] to_lower_def [go_eval] fold_rune_def [go_eval]
  equal_fold_ascii_def [go_eval] html_escape_byte_def [go_eval] html_escape_def [go_eval]
  html_special_def [go_eval] html_unescape_byte_def [go_eval] show_nat.simps [go_eval]
  show_int_def [go_eval] hex_upper_def [go_eval] hex_value_def [go_eval]

end
