(* ===== verification/Go_Paths.thy ===== *)
theory Go_Paths
  imports Go_Strings
begin

section \<open>Paths: Go's path/filepath on Unix\<close>

text \<open>
  The functions of \<open>path/filepath\<close> the compiler uses, for the separator \<open>/\<close>: \<open>Clean\<close>,
  \<open>Base\<close>, \<open>Dir\<close>, \<open>Join\<close>, \<open>Ext\<close>, \<open>Abs\<close> and \<open>Rel\<close>. \<open>ToSlash\<close> is the identity there.
\<close>

abbreviation separator :: byte where "separator \<equiv> CHR ''/''"

fun clean_parts :: "bool \<Rightarrow> bytes list \<Rightarrow> bytes list \<Rightarrow> bytes list" where
  \<comment> \<open>the elements kept so far, the last one first\<close>
  "clean_parts rooted kept [] = rev kept"
| "clean_parts rooted kept (p # ps) =
     (if p = [] \<or> p = ''.'' then clean_parts rooted kept ps
      else if p = ''..'' then
        (case kept of
           [] \<Rightarrow> clean_parts rooted (if rooted then [] else [''..'']) ps
         | q # rest \<Rightarrow> clean_parts rooted (if q = ''..'' then ''..'' # kept else rest) ps)
      else clean_parts rooted (p # kept) ps)"

definition is_rooted :: "bytes \<Rightarrow> bool" where
  "is_rooted p = has_prefix ''/'' p"

definition path_clean :: "bytes \<Rightarrow> bytes" where
  "path_clean p =
     (let parts = clean_parts (is_rooted p) [] (split_on separator p)
      in if is_rooted p then separator # join_with ''/'' parts
         else if parts = [] then ''.'' else join_with ''/'' parts)"

definition path_dir :: "bytes \<Rightarrow> bytes" where
  "path_dir p = path_clean (rev (dropWhile (\<lambda>b. b \<noteq> separator) (rev p)))"

definition path_join :: "bytes \<Rightarrow> bytes \<Rightarrow> bytes" where
  "path_join a b =
     (if a = [] \<and> b = [] then []
      else path_clean (if a = [] then b else if b = [] then a else a @ ''/'' @ b))"

definition path_ext :: "bytes \<Rightarrow> bytes" where
  "path_ext p =
     (let base = rev (takeWhile (\<lambda>b. b \<noteq> separator) (rev p))
      in case last_index_of ''.'' base of None \<Rightarrow> [] | Some i \<Rightarrow> drop i base)"

definition path_abs :: "bytes \<Rightarrow> bytes \<Rightarrow> bytes" where
  "path_abs cwd p = (if is_rooted p then path_clean p else path_join cwd p)"

text \<open>
  \<open>Rel\<close>: what is left of both cleaned paths after their common elements, and whether the loop
  stopped at elements that differ.
\<close>

function rel_strip :: "bytes \<Rightarrow> bytes \<Rightarrow> bytes \<times> bytes \<times> bool" where
  "rel_strip base targ =
     (if base = [] \<or> targ = [] then (base, targ, False)
      else
        (let b = takeWhile (\<lambda>c. c \<noteq> separator) base; t = takeWhile (\<lambda>c. c \<noteq> separator) targ
         in if b = t then rel_strip (drop (Suc (length b)) base) (drop (Suc (length t)) targ)
            else (base, targ, True)))"
  by pat_completeness auto
termination
  by (relation "measure (\<lambda>(b, t). length b)") auto

declare rel_strip.simps [simp del]

definition path_rel :: "bytes \<Rightarrow> bytes \<Rightarrow> bytes option" where
  "path_rel basepath targpath =
     (let base = path_clean basepath; targ = path_clean targpath in
      if targ = base then Some ''.''
      else
        (let base = (if base = ''.'' then [] else base) in
         if is_rooted base \<noteq> is_rooted targ then None
         else (case rel_strip base targ of (b, t, differ) \<Rightarrow>
           if differ \<and> takeWhile (\<lambda>c. c \<noteq> separator) b = ''..'' then None
           else if b = [] then Some t
           else Some (concat (replicate (length (filter (\<lambda>c. c = separator) b)) ''../'') @ ''..''
                      @ (if t = [] then [] else separator # t)))))"

text \<open>\<open>filepath.Base\<close> for the separator \<open>/\<close>; \<open>filepath.ToSlash\<close> is the identity there.\<close>

definition path_base :: "bytes \<Rightarrow> bytes" where
  "path_base p =
     (if p = [] then ''.''
      else (let trimmed = rev (dropWhile (\<lambda>b. b = CHR ''/'') (rev p));
                base = rev (takeWhile (\<lambda>b. b \<noteq> CHR ''/'') (rev trimmed))
            in if base = [] then ''/'' else base))"

declare is_rooted_def [go_eval] path_clean_def [go_eval] path_dir_def [go_eval] path_join_def [go_eval]
  path_ext_def [go_eval] path_abs_def [go_eval] rel_strip.simps [go_eval] path_rel_def [go_eval]
  path_base_def [go_eval]

subsection \<open>Cleaning a clean path changes nothing\<close>

text \<open>
  Elements of a cleaned path: no separator, none empty or a dot; parent references only in front,
  and none in a rooted path.
\<close>

definition plain_part :: "bytes \<Rightarrow> bool" where
  "plain_part p = (separator \<notin> set p \<and> p \<noteq> [] \<and> p \<noteq> ''.'')"

fun parents_first :: "bool \<Rightarrow> bytes list \<Rightarrow> bool" where
  "parents_first rooted [] = True"
| "parents_first rooted (p # ps) =
     (if p = ''..'' then \<not> rooted \<and> parents_first rooted ps else ''..'' \<notin> set ps)"

lemma parents_first_no_parents: "''..'' \<notin> set ps \<Longrightarrow> parents_first rooted ps"
  by (cases ps) auto

lemma parents_first_snoc:
  "parents_first rooted (ps @ [p]) \<longleftrightarrow> parents_first rooted ps
     \<and> (p = ''..'' \<longrightarrow> \<not> rooted \<and> set ps \<subseteq> {''..''})"
  by (induction ps) (auto dest: parents_first_no_parents)

lemma parents_first_prefix: "parents_first rooted (ps @ qs) \<Longrightarrow> parents_first rooted ps"
  by (induction ps) (auto dest: parents_first_no_parents split: if_splits)

lemma parents_first_all: "parents_first rooted ps \<Longrightarrow> last ps = ''..'' \<Longrightarrow> set ps \<subseteq> {''..''}"
proof (induction ps rule: rev_induct)
  case (snoc p ps)
  then show ?case using parents_first_snoc [of rooted ps p] by auto
qed simp

lemma clean_parts_ok:
  "list_all (\<lambda>p. separator \<notin> set p) ps \<Longrightarrow> list_all plain_part kept \<Longrightarrow> parents_first rooted (rev kept) \<Longrightarrow>
   list_all plain_part (clean_parts rooted kept ps) \<and> parents_first rooted (clean_parts rooted kept ps)"
proof (induction rooted kept ps rule: clean_parts.induct)
  case (1 rooted kept)
  then show ?case by simp
next
  case (2 rooted kept p ps)
  show ?case
  proof (cases "p = [] \<or> p = ''.''")
    case True
    then show ?thesis using 2(1) [OF True] 2(5-) by simp
  next
    case plain: False
    show ?thesis
    proof (cases "p = ''..''")
      case False
      then show ?thesis
        using 2(4) [OF plain False] 2(5-) plain by (simp add: plain_part_def parents_first_snoc)
    next
      case True
      have dots: "plain_part ''..''" by (simp add: plain_part_def)
      show ?thesis
      proof (cases kept)
        case Nil
        then show ?thesis using 2(2) [OF plain True Nil] 2(5-) True dots by auto
      next
        case (Cons q rest)
        have "q = ''..'' \<Longrightarrow> set (rev kept) \<subseteq> {''..''} \<and> \<not> rooted"
          using 2(7) parents_first_all [of rooted "rev kept"] Cons by (auto simp: parents_first_snoc)
        then have "q = ''..'' \<Longrightarrow> parents_first rooted (rev (''..'' # kept))"
          using parents_first_snoc [of rooted "rev kept" "''..''"] 2(7) by simp
        moreover have "parents_first rooted (rev rest)"
          using parents_first_prefix [of rooted "rev rest" "[q]"] 2(7) Cons by simp
        ultimately show ?thesis
          using 2(3) [OF plain True Cons] 2(5-) True dots Cons by (auto simp: parents_first_snoc simp del: rev.simps(2))
      qed
    qed
  qed
qed

lemma clean_parts_id:
  "list_all plain_part (rev kept @ ps) \<Longrightarrow> parents_first rooted (rev kept @ ps) \<Longrightarrow>
   clean_parts rooted kept ps = rev kept @ ps"
proof (induction ps arbitrary: kept)
  case Nil
  then show ?case by simp
next
  case (Cons p ps)
  have step: "clean_parts rooted (p # kept) ps = rev kept @ p # ps"
    using Cons.IH [of "p # kept"] Cons.prems by simp
  have "p = ''..'' \<Longrightarrow> \<not> rooted \<and> set kept \<subseteq> {''..''}"
  proof -
    assume p: "p = ''..''"
    have "parents_first rooted ((rev kept @ [p]) @ ps)" using Cons.prems(2) by simp
    then have "parents_first rooted (rev kept @ [p])" by (rule parents_first_prefix)
    then show ?thesis using p by (simp add: parents_first_snoc)
  qed
  then show ?case
    using step Cons.prems(1) by (cases kept) (auto simp: plain_part_def)
qed

lemma split_join: "ps \<noteq> [] \<Longrightarrow> list_all (\<lambda>p. sep \<notin> set p) ps \<Longrightarrow> split_on sep (join_with [sep] ps) = ps"
proof (induction ps)
  case (Cons p ps)
  then show ?case by (cases ps) (simp_all add: split_on_single split_on_append)
qed simp

lemma join_nonempty: "list_all plain_part (p # ps) \<Longrightarrow> \<exists>b s. join_with ''/'' (p # ps) = b # s \<and> b \<noteq> separator"
  by (cases ps; cases p) (auto simp: plain_part_def)

lemma path_clean_idem [simp]: "path_clean (path_clean p) = path_clean p"
proof -
  define parts where "parts = clean_parts (is_rooted p) [] (split_on separator p)"
  have ok: "list_all plain_part parts" "parents_first (is_rooted p) parts"
    using clean_parts_ok [of "split_on separator p" "[]" "is_rooted p"] split_on_no_sep [of _ separator p]
    by (auto simp: parts_def list_all_iff)
  then have nosep: "list_all (\<lambda>q. separator \<notin> set q) parts"
    by (auto simp: list_all_iff plain_part_def)
  have same: "clean_parts (is_rooted p) [] parts = parts"
    using clean_parts_id [of "[]" parts "is_rooted p"] ok by simp
  show ?thesis
  proof (cases parts)
    case Nil
    then have "path_clean p = (if is_rooted p then ''/'' else ''.'')"
      by (simp add: path_clean_def parts_def [symmetric] Let_def)
    then show ?thesis by (simp add: path_clean_def is_rooted_def Let_def)
  next
    case (Cons q qs)
    obtain b s where b: "join_with ''/'' parts = b # s" "b \<noteq> separator"
      using join_nonempty [of q qs] ok Cons by auto
    have split: "split_on separator (join_with ''/'' parts) = parts"
      using split_join [OF _ nosep] Cons by simp
    show ?thesis
    proof (cases "is_rooted p")
      case True
      then have "path_clean p = separator # join_with ''/'' parts" by (simp add: path_clean_def parts_def)
      then show ?thesis using split same True by (simp add: path_clean_def is_rooted_def)
    next
      case False
      then have c: "path_clean p = join_with ''/'' parts" using Cons by (simp add: path_clean_def parts_def Let_def)
      moreover have "\<not> is_rooted (join_with ''/'' parts)" using b by (simp add: is_rooted_def)
      ultimately show ?thesis using split same False Cons by (simp add: path_clean_def Let_def)
    qed
  qed
qed
lemma path_clean_nonempty [simp]: "path_clean p \<noteq> []"
proof -
  let ?parts = "clean_parts (is_rooted p) [] (split_on separator p)"
  have "list_all plain_part ?parts"
    using clean_parts_ok [of "split_on separator p" "[]" "is_rooted p"] split_on_no_sep [of _ separator p]
    by (auto simp: list_all_iff)
  then have "join_with ''/'' ?parts \<noteq> []" if "?parts \<noteq> []"
    using that join_nonempty by (metis list.distinct(1) neq_Nil_conv)
  then show ?thesis by (auto simp: path_clean_def Let_def)
qed

lemma path_join_nonempty: "c \<noteq> [] \<Longrightarrow> path_join a c \<noteq> []"
  by (simp add: path_join_def)

subsection \<open>Parents are shorter\<close>

text \<open>Cleaning never makes a rooted path longer, so the parent of a directory is shorter until the root.\<close>

definition parts_size :: "bytes list \<Rightarrow> nat" where
  "parts_size ps = sum_list (map (\<lambda>p. length p + 1) ps)"

lemma parts_size_simps [simp]: "parts_size [] = 0" "parts_size (p # ps) = length p + 1 + parts_size ps"
    "parts_size (ps @ qs) = parts_size ps + parts_size qs" "parts_size (rev ps) = parts_size ps"
  by (simp_all add: parts_size_def rev_map [symmetric])

lemma clean_parts_size: "parts_size (clean_parts rooted kept ps) \<le> parts_size kept + parts_size ps"
  by (induction rooted kept ps rule: clean_parts.induct) (auto split: list.splits)

lemma split_on_size: "parts_size (split_on sep s) = length s + 1"
  by (induction s) (auto split: list.splits)

lemma join_size: "ps \<noteq> [] \<Longrightarrow> length (join_with [c] ps) + 1 = parts_size ps"
proof (induction ps)
  case (Cons p ps)
  then show ?case by (cases ps) auto
qed simp

lemma is_rooted_Cons: "is_rooted p \<longleftrightarrow> (\<exists>q. p = separator # q)"
  by (cases p) (auto simp: is_rooted_def)

lemma path_clean_rooted: "is_rooted p \<Longrightarrow> is_rooted (path_clean p)"
  by (simp add: path_clean_def is_rooted_def)

lemma path_clean_length:
  assumes "is_rooted p" shows "length (path_clean p) \<le> length p"
proof -
  obtain q where q: "p = separator # q" using assms by (auto simp: is_rooted_Cons)
  let ?parts = "clean_parts True [] (split_on separator q)"
  have "parts_size ?parts \<le> length q + 1"
    using clean_parts_size [of True "[]" "split_on separator q"] by (simp add: split_on_size)
  then have "length (join_with ''/'' ?parts) \<le> length q"
    using join_size [of ?parts separator] by (cases ?parts) auto
  then show ?thesis using q assms by (simp add: path_clean_def)
qed

definition dir_prefix :: "bytes \<Rightarrow> bytes" where
  "dir_prefix p = rev (dropWhile (\<lambda>b. b \<noteq> separator) (rev p))"

lemma dir_prefix_rooted: "is_rooted p \<Longrightarrow> is_rooted (dir_prefix p) \<and> length (dir_prefix p) \<le> length p"
proof -
  assume "is_rooted p"
  then obtain q where "p = separator # q" by (auto simp: is_rooted_Cons)
  then have "rev p = rev q @ [separator]" by simp
  then have "\<exists>r. dropWhile (\<lambda>b. b \<noteq> separator) (rev p) = r @ [separator]"
    by (simp add: dropWhile_append)
  then show ?thesis
    using length_dropWhile_le [of "\<lambda>b. b \<noteq> separator" "rev p"] by (auto simp: dir_prefix_def is_rooted_def)
qed

lemma path_dir_shorter:
  assumes "is_rooted d" and clean: "path_clean d = d"
  shows "path_dir d = d \<or> length (path_dir d) < length d"
proof (cases "dir_prefix d = d")
  case True
  then show ?thesis using clean by (simp add: path_dir_def dir_prefix_def)
next
  case False
  have "d = dir_prefix d @ rev (takeWhile (\<lambda>b. b \<noteq> separator) (rev d))"
    unfolding dir_prefix_def by (metis rev_append rev_rev_ident takeWhile_dropWhile_id)
  then have "length (dir_prefix d) < length d" using False by (metis append_Nil2 length_append length_greater_0_conv less_add_same_cancel1)
  then show ?thesis
    using path_clean_length [of "dir_prefix d"] dir_prefix_rooted [OF assms(1)]
    by (auto simp: path_dir_def dir_prefix_def [symmetric])
qed

subsection \<open>The last element of a path\<close>

lemma clean_parts_snoc:
  "plain_part c \<Longrightarrow> c \<noteq> ''..'' \<Longrightarrow> clean_parts rooted kept (ps @ [c]) = clean_parts rooted kept ps @ [c]"
  by (induction rooted kept ps rule: clean_parts.induct) (auto simp: plain_part_def split: list.splits)

lemma split_on_snoc: "sep \<notin> set c \<Longrightarrow> split_on sep (a @ sep # c) = split_on sep a @ [c]"
  by (induction a) (auto simp: split_on_single split: list.splits)

lemma join_with_snoc: "join_with s (ps @ [c]) = (if ps = [] then c else join_with s ps @ s @ c)"
proof (induction ps)
  case (Cons p ps)
  then show ?case by (cases ps) auto
qed simp

text \<open>Cleaning keeps the elements after the cleaned part; \<open>base_end\<close> is what a path ends in.\<close>

definition base_end :: "bytes \<Rightarrow> bytes \<Rightarrow> bool" where
  "base_end c p = (plain_part c \<and> c \<noteq> ''..'' \<and> (p = c \<or> (\<exists>a. p = a @ separator # c)))"

lemma base_end_parts:
  "base_end c p \<Longrightarrow> \<exists>ps. split_on separator p = ps @ [c]
     \<and> clean_parts (is_rooted p) [] (split_on separator p) = clean_parts (is_rooted p) [] ps @ [c]"
  by (auto simp: base_end_def split_on_snoc split_on_single plain_part_def clean_parts_snoc)

lemma base_end_joined:
  "plain_part c \<Longrightarrow> c \<noteq> ''..'' \<Longrightarrow> base_end c (join_with ''/'' (ps @ [c]))
     \<and> base_end c (separator # join_with ''/'' (ps @ [c]))"
  by (auto simp: base_end_def join_with_snoc)

lemma base_end_clean:
  assumes "base_end c p"
  shows "base_end c (path_clean p)"
proof -
  obtain ps where "clean_parts (is_rooted p) [] (split_on separator p) = clean_parts (is_rooted p) [] ps @ [c]"
    using base_end_parts [OF assms] by blast
  then show ?thesis
    using assms base_end_joined [of c] by (simp add: path_clean_def Let_def) (simp add: base_end_def)
qed

lemma base_end_join:
  assumes "base_end c p"
  shows "base_end c (path_join a p)"
proof -
  have "p \<noteq> []" "base_end c (a @ ''/'' @ p)"
    using assms by (auto simp: base_end_def plain_part_def)
  then show ?thesis using assms by (simp add: path_join_def base_end_clean)
qed

lemma base_end_last: "base_end c p \<Longrightarrow> last p = last c"
  by (auto simp: base_end_def plain_part_def)

text \<open>Appending to the last element of a clean path.\<close>

lemma base_end_append:
  "base_end c p \<Longrightarrow> separator \<notin> set e \<Longrightarrow> e \<noteq> [] \<Longrightarrow> c @ e \<noteq> ''..'' \<Longrightarrow> base_end (c @ e) (p @ e)"
  by (auto simp: base_end_def plain_part_def append_eq_Cons_conv)

lemma path_clean_append:
  assumes "base_end c p" and "separator \<notin> set e" "e \<noteq> []" "c @ e \<noteq> ''..''"
  shows "path_clean (p @ e) = path_clean p @ e"
proof -
  obtain ps where ps: "split_on separator p = ps @ [c]"
      "clean_parts (is_rooted p) [] (split_on separator p) = clean_parts (is_rooted p) [] ps @ [c]"
    using base_end_parts [OF assms(1)] by blast
  have c: "plain_part (c @ e)" using assms by (auto simp: base_end_def plain_part_def append_eq_Cons_conv)
  have "split_on separator (p @ e) = ps @ [c @ e]"
    using assms(1,2) ps(1) by (auto simp: base_end_def split_on_snoc split_on_single plain_part_def)
  then have "clean_parts (is_rooted p) [] (split_on separator (p @ e)) = clean_parts (is_rooted p) [] ps @ [c @ e]"
    using clean_parts_snoc [OF c assms(4)] by simp
  moreover have "is_rooted (p @ e) = is_rooted p"
    using assms(1) by (cases p) (auto simp: base_end_def is_rooted_def plain_part_def)
  ultimately show ?thesis
    using ps(2) by (simp add: path_clean_def Let_def join_with_snoc)
qed

text \<open>Cleaning a relative path before or after joining it to a directory is the same.\<close>

lemma clean_parts_skip:
  "p = [] \<or> p = ''.'' \<Longrightarrow> clean_parts r kept (xs @ p # ys) = clean_parts r kept (xs @ ys)"
  by (induction r kept xs rule: clean_parts.induct) (auto split: list.splits)

lemma clean_parts_cancel:
  "plain_part q \<Longrightarrow> q \<noteq> ''..'' \<Longrightarrow> clean_parts r kept (xs @ q # ''..'' # ys) = clean_parts r kept (xs @ ys)"
  by (induction r kept xs rule: clean_parts.induct) (auto simp: plain_part_def split: list.splits)

lemma clean_parts_clean:
  "list_all plain_part kept \<Longrightarrow> list_all (\<lambda>p. separator \<notin> set p) ps \<Longrightarrow>
   clean_parts r out (clean_parts False kept ps) = clean_parts r out (rev kept @ ps)"
proof (induction ps arbitrary: kept)
  case Nil
  then show ?case by simp
next
  case (Cons p ps)
  consider "p = [] \<or> p = ''.''" | "p = ''..''" "kept = [] \<or> hd kept = ''..''"
    | q rest where "p = ''..''" "kept = q # rest" "q \<noteq> ''..''"
    | "p \<noteq> []" "p \<noteq> ''.''" "p \<noteq> ''..''"
    by (cases kept) auto
  then show ?case
  proof cases
    case 1
    then show ?thesis using Cons by (auto simp: clean_parts_skip)
  next
    case 2
    then show ?thesis using Cons.IH [of "''..'' # kept"] Cons.prems by (cases kept) (auto simp: plain_part_def)
  next
    case 3
    then show ?thesis using Cons.IH [of rest] Cons.prems clean_parts_cancel [of q r out "rev rest" ps] by simp
  next
    case 4
    then show ?thesis using Cons.IH [of "p # kept"] Cons.prems by (simp add: plain_part_def)
  qed
qed

lemma path_ext_base_end:
  assumes "path_ext p = e" and "length e > 2"
  shows "\<exists>c. base_end c p"
proof -
  define base where "base = rev (takeWhile (\<lambda>b. b \<noteq> separator) (rev p))"
  define before where "before = rev (dropWhile (\<lambda>b. b \<noteq> separator) (rev p))"
  have p: "p = before @ base"
    unfolding before_def base_def rev_append [symmetric] by simp
  have "length e \<le> length base"
    using assms(1) by (auto simp: path_ext_def base_def [symmetric] Let_def split: option.splits)
  then have "base \<noteq> []" "base \<noteq> ''.''" "base \<noteq> ''..''" using assms(2) by auto
  moreover have "separator \<notin> set base" by (auto simp: base_def dest: set_takeWhileD)
  moreover have "before = [] \<or> (\<exists>a. before = a @ [separator])"
  proof (cases "dropWhile (\<lambda>b. b \<noteq> separator) (rev p)")
    case (Cons b bs)
    then have "b = separator" using hd_dropWhile [of "\<lambda>b. b \<noteq> separator" "rev p"] by auto
    then show ?thesis using Cons by (auto simp: before_def)
  qed (simp add: before_def)
  ultimately have "base_end base p" using p by (auto simp: base_end_def plain_part_def)
  then show ?thesis by blast
qed

subsection \<open>Rooted paths by their elements\<close>

definition rooted_path :: "bytes list \<Rightarrow> bytes" where
  "rooted_path ps = separator # join_with ''/'' ps"

definition plain_parts :: "bytes list \<Rightarrow> bool" where
  "plain_parts ps = (list_all plain_part ps \<and> ''..'' \<notin> set ps)"

lemma plain_parts_append [simp]: "plain_parts (ps @ qs) = (plain_parts ps \<and> plain_parts qs)"
  by (auto simp: plain_parts_def)

lemma split_rooted:
  "list_all plain_part ps \<Longrightarrow> split_on separator (rooted_path ps) = [] # (if ps = [] then [[]] else ps)"
  using split_join [of ps separator]
  by (auto simp: rooted_path_def list_all_iff plain_part_def)

lemma is_rooted_path [simp]: "is_rooted (rooted_path ps)"
  by (simp add: is_rooted_Cons rooted_path_def)

lemma clean_plain_parts: "plain_parts ps \<Longrightarrow> clean_parts True [] ps = ps"
  using clean_parts_id [of "[]" ps True] by (simp add: plain_parts_def parents_first_no_parents)

lemma clean_rooted: "plain_parts ps \<Longrightarrow> path_clean (rooted_path ps) = rooted_path ps"
  using clean_plain_parts [of ps]
  by (simp add: path_clean_def Let_def split_rooted plain_parts_def) (auto simp: rooted_path_def)

lemma path_dir_rooted:
  assumes plain: "plain_parts (ps @ [p])"
  shows "path_dir (rooted_path (ps @ [p])) = rooted_path ps"
proof -
  have p: "separator \<notin> set p" and ps: "list_all plain_part ps" using plain by (auto simp: plain_parts_def plain_part_def)
  define front where "front = separator # (if ps = [] then [] else join_with ''/'' ps @ ''/'')"
  have path: "rooted_path (ps @ [p]) = front @ p" by (simp add: rooted_path_def join_with_snoc front_def)
  have "dropWhile (\<lambda>b. b \<noteq> separator) (rev p @ rev front) = dropWhile (\<lambda>b. b \<noteq> separator) (rev front)"
    using p by (subst dropWhile_append2) auto
  moreover have "dropWhile (\<lambda>b. b \<noteq> separator) (rev front) = rev front" by (simp add: front_def)
  ultimately have "path_dir (rooted_path (ps @ [p])) = path_clean front" by (simp add: path_dir_def path)
  moreover have "path_clean front = rooted_path ps"
  proof (cases "ps = []")
    case True
    then show ?thesis by (simp add: front_def rooted_path_def go_eval)
  next
    case False
    then have "split_on separator front = [] # ps @ [[]]"
      using split_on_snoc [of separator "[]" "rooted_path ps"] split_rooted [OF ps] by (simp add: front_def rooted_path_def)
    moreover have "is_rooted front" by (simp add: front_def is_rooted_Cons)
    moreover have "clean_parts True [] (ps @ [[]]) = ps"
      using clean_parts_skip [of "[]" True "[]" ps "[]"] clean_plain_parts [of ps] plain by simp
    ultimately show ?thesis by (simp add: path_clean_def rooted_path_def)
  qed
  ultimately show ?thesis by simp
qed

lemma path_dir_root: "path_dir (rooted_path []) = rooted_path []"
  by (simp add: rooted_path_def go_eval)

lemma takeWhile_join:
  "separator \<notin> set p \<Longrightarrow> takeWhile (\<lambda>c. c \<noteq> separator) (join_with ''/'' (p # ps)) = p"
proof -
  assume "separator \<notin> set p"
  then have all: "\<And>c. c \<in> set p \<Longrightarrow> c \<noteq> separator" by auto
  have "takeWhile (\<lambda>c. c \<noteq> separator) (p @ x) = p @ takeWhile (\<lambda>c. c \<noteq> separator) x" for x
    by (rule takeWhile_append2) (rule all)
  from this [of "[]"] this show ?thesis by (cases ps) simp_all
qed

lemma drop_join: "drop (Suc (length p)) (join_with ''/'' (p # ps)) = join_with ''/'' ps"
  by (cases ps) simp_all

lemma join_plain_nonempty: "list_all plain_part ps \<Longrightarrow> ps \<noteq> [] \<Longrightarrow> join_with ''/'' ps \<noteq> []"
  using join_nonempty by (cases ps) force+

lemma rel_strip_join:
  "list_all plain_part (ps @ qs) \<Longrightarrow> rel_strip (join_with ''/'' ps) (join_with ''/'' (ps @ qs)) = ([], join_with ''/'' qs, False)"
proof (induction ps)
  case Nil
  then show ?case by (subst rel_strip.simps) simp
next
  case (Cons p ps)
  have p: "separator \<notin> set p" using Cons.prems by (simp add: plain_part_def)
  have ne: "join_with ''/'' (p # ps) \<noteq> []" "join_with ''/'' (p # ps @ qs) \<noteq> []"
    using Cons.prems join_plain_nonempty [of "p # ps"] join_plain_nonempty [of "p # ps @ qs"] by simp_all
  have "rel_strip (join_with ''/'' (p # ps)) (join_with ''/'' (p # ps @ qs))
      = rel_strip (join_with ''/'' ps) (join_with ''/'' (ps @ qs))"
    using ne takeWhile_join [OF p, of ps] takeWhile_join [OF p, of "ps @ qs"] drop_join [of p ps] drop_join [of p "ps @ qs"]
    by (subst rel_strip.simps) (simp add: Let_def del: join_with.simps)
  then show ?case using Cons by simp
qed

lemma path_rel_rooted:
  assumes plain: "plain_parts (ps @ qs)" and "qs \<noteq> []"
  shows "path_rel (rooted_path ps) (rooted_path (ps @ qs)) = Some (join_with ''/'' qs)"
proof -
  have all: "list_all plain_part (ps @ qs)" using plain by (simp add: plain_parts_def)
  have strip: "rel_strip (rooted_path ps) (rooted_path (ps @ qs)) = ([], join_with ''/'' qs, False)"
    using rel_strip_join [OF all] by (subst rel_strip.simps) (simp add: rooted_path_def Let_def)
  have "rooted_path (ps @ qs) \<noteq> rooted_path ps"
  proof
    assume "rooted_path (ps @ qs) = rooted_path ps"
    then have "split_on separator (rooted_path (ps @ qs)) = split_on separator (rooted_path ps)" by simp
    then show False using split_rooted [of ps] split_rooted [OF all] all assms(2) by (auto simp: plain_part_def split: if_splits)
  qed
  moreover have "rooted_path ps \<noteq> ''.''" by (simp add: rooted_path_def)
  ultimately show ?thesis
    using strip plain by (simp add: path_rel_def Let_def clean_rooted)
qed

lemma parts_size_length: "length ps \<le> parts_size ps"
  by (induction ps) simp_all

end
