(* ===== verification/Host_Files.thy ===== *)
theory Host_Files
  imports Go_Paths
begin

section \<open>The operating system as the compiler sees it\<close>

text \<open>
  A file system is a map from paths to entries; every system call takes one tick of the clock, and
  the host decides at each tick whether the call fails, so every failure at every moment is covered.
  Cancellation (\<open>ctx.Err()\<close>) is asked at ticks as well. A path names the entry at its
  absolute, cleaned form; symbolic links are followed by the absolute path of their target. Modelled are the calls of \<open>os\<close> the compiler
  makes: \<open>Lstat\<close>, \<open>Stat\<close>, \<open>ReadFile\<close>, \<open>ReadDir\<close>, and for writing \<open>CreateTemp\<close>,
  \<open>Write\<close>, \<open>Chmod\<close>, \<open>Sync\<close>, \<open>Close\<close>, \<open>Rename\<close> and \<open>Remove\<close>.
\<close>

datatype fs_entry =
    RegularFile nat bytes
  | SymbolicLink bytes
  | Directory nat "bytes list"
  | SpecialFile nat

type_synonym files = "bytes \<rightharpoonup> fs_entry"

datatype os_error = NotExist bytes | OsFailure bytes

fun os_error_text :: "os_error \<Rightarrow> bytes" where
  "os_error_text (NotExist t) = t"
| "os_error_text (OsFailure t) = t"

fun is_not_exist :: "os_error \<Rightarrow> bool" where
  "is_not_exist (NotExist t) = True"
| "is_not_exist (OsFailure t) = False"

fun is_symlink :: "fs_entry \<Rightarrow> bool" where
  "is_symlink (SymbolicLink t) = True"
| "is_symlink _ = False"

fun is_regular :: "fs_entry \<Rightarrow> bool" where
  "is_regular (RegularFile perm content) = True"
| "is_regular _ = False"

fun is_directory :: "fs_entry \<Rightarrow> bool" where
  "is_directory (Directory perm names) = True"
| "is_directory _ = False"

fun entry_permissions :: "fs_entry \<Rightarrow> nat" where
  "entry_permissions (RegularFile perm content) = perm"
| "entry_permissions (Directory perm names) = perm"
| "entry_permissions (SpecialFile perm) = perm"
| "entry_permissions (SymbolicLink t) = 511"

record world =
  w_files :: files
  w_clock :: nat

text \<open>
  The host: faults and cancellation by tick, the working directory and the error of \<open>Getwd\<close> if it
  fails, the random part of temporary names, how much of a failing write reaches the file,
  and the device of a path.
\<close>

record 'd host =
  host_fault :: "nat \<Rightarrow> bytes option"
  host_ctx :: "nat \<Rightarrow> bytes option"
  host_dir :: bytes
  host_getwd_error :: "bytes option"
  host_random :: "nat \<Rightarrow> nat"
  host_short :: "nat \<Rightarrow> nat"
  host_system :: "bytes \<Rightarrow> 'd"

text \<open>The key of a path: the absolute path it stands for.\<close>

definition resolve :: "'d host \<Rightarrow> bytes \<Rightarrow> bytes" where
  "resolve h path = (if is_rooted path then path_clean path else path_join (host_dir h) path)"

abbreviation entry_of :: "'d host \<Rightarrow> files \<Rightarrow> bytes \<Rightarrow> fs_entry option" where
  "entry_of h fs path \<equiv> fs (resolve h path)"

definition tick :: "world \<Rightarrow> world" where
  "tick w = w\<lparr>w_clock := w_clock w + 1\<rparr>"

definition ctx_err :: "'d host \<Rightarrow> world \<Rightarrow> bytes option \<times> world" where
  "ctx_err h w = (host_ctx h (w_clock w), tick w)"

definition no_such_file :: "bytes \<Rightarrow> bytes \<Rightarrow> os_error" where
  "no_such_file call path = NotExist (call @ '' '' @ path @ '': no such file or directory'')"

definition lstat :: "'d host \<Rightarrow> bytes \<Rightarrow> world \<Rightarrow> (os_error + fs_entry) \<times> world" where
  "lstat h path w =
     (case host_fault h (w_clock w) of
        Some t \<Rightarrow> (Inl (OsFailure t), tick w)
      | None \<Rightarrow>
          (case entry_of h (w_files w) path of
             None \<Rightarrow> (Inl (no_such_file ''lstat'' path), tick w)
           | Some entry \<Rightarrow> (Inr entry, tick w)))"

text \<open>Following symbolic links, at most forty of them, as Linux does.\<close>

fun follow :: "nat \<Rightarrow> files \<Rightarrow> bytes \<Rightarrow> fs_entry option" where
  "follow 0 fs path = None"
| "follow (Suc n) fs path =
     (case fs path of
        Some (SymbolicLink target) \<Rightarrow> follow n fs target
      | entry \<Rightarrow> entry)"

definition stat :: "'d host \<Rightarrow> bytes \<Rightarrow> world \<Rightarrow> (os_error + fs_entry) \<times> world" where
  "stat h path w =
     (case host_fault h (w_clock w) of
        Some t \<Rightarrow> (Inl (OsFailure t), tick w)
      | None \<Rightarrow>
          (case follow 40 (w_files w) (resolve h path) of
             None \<Rightarrow> (Inl (no_such_file ''stat'' path), tick w)
           | Some entry \<Rightarrow> (Inr entry, tick w)))"

definition read_file :: "'d host \<Rightarrow> bytes \<Rightarrow> world \<Rightarrow> (os_error + bytes) \<times> world" where
  "read_file h path w =
     (case host_fault h (w_clock w) of
        Some t \<Rightarrow> (Inl (OsFailure t), tick w)
      | None \<Rightarrow>
          (case follow 40 (w_files w) (resolve h path) of
             None \<Rightarrow> (Inl (no_such_file ''open'' path), tick w)
           | Some (RegularFile perm content) \<Rightarrow> (Inr content, tick w)
           | Some _ \<Rightarrow> (Inl (OsFailure (''read '' @ path @ '': invalid file'')), tick w)))"

text \<open>The names of a directory, in the order \<open>ReadDir\<close> sorts them, as far as they exist.\<close>

definition read_dir :: "'d host \<Rightarrow> bytes \<Rightarrow> world \<Rightarrow> (os_error + bytes list) \<times> world" where
  "read_dir h path w =
     (case host_fault h (w_clock w) of
        Some t \<Rightarrow> (Inl (OsFailure t), tick w)
      | None \<Rightarrow>
          (case entry_of h (w_files w) path of
             None \<Rightarrow> (Inl (no_such_file ''open'' path), tick w)
           | Some (Directory perm names) \<Rightarrow>
               (Inr (sort (filter (\<lambda>n. entry_of h (w_files w) (path_join path n) \<noteq> None) names)), tick w)
           | Some _ \<Rightarrow> (Inl (OsFailure (''readdirent '' @ path @ '': not a directory'')), tick w)))"

definition absolute_path :: "'d host \<Rightarrow> bytes \<Rightarrow> bytes + bytes" where
  "absolute_path h path =
     (case host_getwd_error h of
        Some e \<Rightarrow> (if is_rooted path then Inr (resolve h path) else Inl e)
      | None \<Rightarrow> Inr (resolve h path))"

subsection \<open>Writing\<close>

text \<open>A call without a result that changes one entry unless it fails.\<close>

definition change_file :: "'d host \<Rightarrow> bytes \<Rightarrow> fs_entry option \<Rightarrow> world \<Rightarrow> os_error option \<times> world" where
  "change_file h path entry w =
     (case host_fault h (w_clock w) of
        Some t \<Rightarrow> (Some (OsFailure t), tick w)
      | None \<Rightarrow> (None, tick (w\<lparr>w_files := (w_files w)(resolve h path := entry)\<rparr>)))"

text \<open>A call that changes nothing the model sees, such as \<open>Sync\<close> or \<open>Close\<close>.\<close>

definition plain_call :: "'d host \<Rightarrow> world \<Rightarrow> os_error option \<times> world" where
  "plain_call h w =
     (case host_fault h (w_clock w) of
        Some t \<Rightarrow> (Some (OsFailure t), tick w)
      | None \<Rightarrow> (None, tick w))"

definition temporary_name :: "bytes \<Rightarrow> nat \<Rightarrow> bytes" where
  \<comment> \<open>\<open>joinPath(dir, ".himesan-" + random + ".tmp")\<close>\<close>
  "temporary_name dir random =
     (if has_suffix ''/'' dir then dir else dir @ ''/'') @ ''.himesan-'' @ show_nat random @ ''.tmp''"

text \<open>\<open>CreateTemp\<close> gives the name of a file that did not exist; a name that does is retried until
  the call fails.\<close>

definition create_temp :: "'d host \<Rightarrow> bytes \<Rightarrow> world \<Rightarrow> (os_error + bytes) \<times> world" where
  "create_temp h dir w =
     (let name = temporary_name dir (host_random h (w_clock w)) in
      case host_fault h (w_clock w) of
        Some t \<Rightarrow> (Inl (OsFailure t), tick w)
      | None \<Rightarrow>
          (if entry_of h (w_files w) name \<noteq> None then (Inl (OsFailure (''createtemp '' @ name @ '': file exists'')), tick w)
           else (Inr name, tick (w\<lparr>w_files := (w_files w)(resolve h name \<mapsto> RegularFile 384 [])\<rparr>))))"

text \<open>The bytes of a failing write that reach the file are the host's choice.\<close>

definition write_temp :: "'d host \<Rightarrow> bytes \<Rightarrow> bytes \<Rightarrow> world \<Rightarrow> os_error option \<times> world" where
  "write_temp h name content w =
     (case host_fault h (w_clock w) of
        Some t \<Rightarrow> (Some (OsFailure t), tick (w\<lparr>w_files := (w_files w)
                    (resolve h name \<mapsto> RegularFile 384 (take (host_short h (w_clock w)) content))\<rparr>))
      | None \<Rightarrow> (None, tick (w\<lparr>w_files := (w_files w)(resolve h name \<mapsto> RegularFile 384 content)\<rparr>)))"

text \<open>\<open>Rename\<close> replaces whatever is at the destination except a directory.\<close>

definition rename_file :: "'d host \<Rightarrow> bytes \<Rightarrow> bytes \<Rightarrow> world \<Rightarrow> os_error option \<times> world" where
  "rename_file h old new w =
     (case host_fault h (w_clock w) of
        Some t \<Rightarrow> (Some (OsFailure t), tick w)
      | None \<Rightarrow>
          (case entry_of h (w_files w) new of
             Some (Directory perm names) \<Rightarrow> (Some (OsFailure (''rename '' @ old @ '' '' @ new @ '': file exists'')), tick w)
           | _ \<Rightarrow> (None, tick (w\<lparr>w_files := (w_files w)(resolve h new := entry_of h (w_files w) old, resolve h old := None)\<rparr>))))"

definition remove_file :: "'d host \<Rightarrow> bytes \<Rightarrow> world \<Rightarrow> os_error option \<times> world" where
  "remove_file h path w =
     (case host_fault h (w_clock w) of
        Some t \<Rightarrow> (Some (OsFailure t), tick w)
      | None \<Rightarrow>
          (if entry_of h (w_files w) path = None then (Some (no_such_file ''remove'' path), tick w)
           else (None, tick (w\<lparr>w_files := (w_files w)(resolve h path := None)\<rparr>))))"

declare resolve_def [go_eval] tick_def [go_eval] ctx_err_def [go_eval] no_such_file_def [go_eval] lstat_def [go_eval]
  stat_def [go_eval] read_file_def [go_eval] read_dir_def [go_eval] absolute_path_def [go_eval]
  change_file_def [go_eval] plain_call_def [go_eval] temporary_name_def [go_eval] create_temp_def [go_eval]
  write_temp_def [go_eval] rename_file_def [go_eval] remove_file_def [go_eval]

subsection \<open>Reading changes nothing\<close>

named_theorems fs_read \<open>calls that leave the files alone\<close>

lemma tick_files [simp]: "w_files (tick w) = w_files w"
  by (simp add: tick_def)

lemma ctx_err_files [fs_read]: "w_files (snd (ctx_err h w)) = w_files w"
  by (simp add: ctx_err_def)

lemma lstat_files [fs_read]: "w_files (snd (lstat h path w)) = w_files w"
  by (simp add: lstat_def split: option.split)

lemma stat_files [fs_read]: "w_files (snd (stat h path w)) = w_files w"
  by (simp add: stat_def split: option.split)

lemma read_file_files [fs_read]: "w_files (snd (read_file h path w)) = w_files w"
  by (simp add: read_file_def split: option.split fs_entry.split)

lemma read_dir_files [fs_read]: "w_files (snd (read_dir h path w)) = w_files w"
  by (simp add: read_dir_def split: option.split fs_entry.split)

lemma plain_call_files [fs_read]: "w_files (snd (plain_call h w)) = w_files w"
  by (simp add: plain_call_def split: option.split)

text \<open>The same for a result taken apart.\<close>

lemma lstat_same [dest]: "lstat h path w = (r, w') \<Longrightarrow> w_files w' = w_files w"
  using lstat_files [of h path w] by simp

lemma read_file_same [dest]: "read_file h path w = (r, w') \<Longrightarrow> w_files w' = w_files w"
  using read_file_files [of h path w] by simp

lemma lstat_Inr: "lstat h path w = (Inr entry, w') \<Longrightarrow> entry_of h (w_files w) path = Some entry"
  by (auto simp: lstat_def split: option.splits)

lemma lstat_not_exist: "lstat h path w = (Inl e, w') \<Longrightarrow> is_not_exist e \<Longrightarrow> entry_of h (w_files w) path = None"
  by (auto simp: lstat_def split: option.splits)

lemma follow_regular [simp]: "fs path = Some (RegularFile perm content) \<Longrightarrow> follow (Suc n) fs path = Some (RegularFile perm content)"
  by simp

lemma read_file_Inr:
  "read_file h path w = (Inr content, w') \<Longrightarrow> entry_of h (w_files w) path = Some entry \<Longrightarrow> is_regular entry \<Longrightarrow>
   entry = RegularFile (entry_permissions entry) content"
  by (cases entry) (auto simp: read_file_def numeral_eq_Suc split: option.splits)

lemma read_file_not_exist:
  "read_file h path w = (Inl e, w') \<Longrightarrow> is_not_exist e \<Longrightarrow> entry_of h (w_files w) path = Some entry \<Longrightarrow> is_regular entry \<Longrightarrow> False"
  by (cases entry) (auto simp: read_file_def numeral_eq_Suc split: option.splits)

subsection \<open>The keys of paths that end in a name\<close>

lemma base_end_resolve: "base_end c p \<Longrightarrow> base_end c (resolve h p)"
  by (simp add: resolve_def base_end_clean base_end_join)

lemma resolve_append:
  assumes b: "base_end c p" and e: "separator \<notin> set e" "e \<noteq> []" "c @ e \<noteq> ''..''"
  shows "resolve h (p @ e) = resolve h p @ e"
proof -
  have ne: "p \<noteq> []" and r: "is_rooted (p @ e) = is_rooted p"
    using b by (cases p; auto simp: base_end_def plain_part_def is_rooted_def)+
  have "path_clean ((a @ ''/'' @ p) @ e) = path_clean (a @ ''/'' @ p) @ e" for a
    by (rule path_clean_append [OF _ e]) (use b in \<open>auto simp: base_end_def plain_part_def\<close>)
  then show ?thesis
    using path_clean_append [OF b e] ne r by (simp add: resolve_def path_join_def)
qed

lemma show_nat_no_separator: "separator \<notin> set (show_nat n)"
proof (induction n rule: show_nat.induct)
  case (1 n)
  have digit: "char_of (48 + m) \<noteq> separator" if "m < (10 :: nat)" for m
  proof
    assume "char_of (48 + m) = separator"
    then have "of_char (char_of (48 + m) :: char) = (of_char separator :: nat)" by simp
    then show False using that by simp
  qed
  then show ?case
    using "1.IH" by (subst show_nat.simps) (auto dest: sym)
qed

lemma temporary_base_end:
  "base_end (''.himesan-'' @ show_nat n @ ''.tmp'') (temporary_name dir n)"
  by (auto simp: base_end_def plain_part_def temporary_name_def show_nat_no_separator has_suffix_iff)

lemma temporary_last: "last (resolve h (temporary_name dir n)) = CHR ''p''"
  using base_end_last [OF base_end_resolve [OF temporary_base_end, where h = h]] by simp

lemma read_file_content:
  "read_file h path w = (Inr x, w') \<Longrightarrow> entry_of h (w_files w) path = Some (RegularFile perm content) \<Longrightarrow> x = content"
  by (auto simp: read_file_def numeral_eq_Suc split: option.splits)

end
