(* ===== verification/Source_Positions.thy ===== *)
theory Source_Positions
  imports Go_Strings
begin

section \<open>Source positions: the position table of internal/compiler/parse.go\<close>

text \<open>
  A \<open>positionTable\<close> holds the offset at which every line of a source starts; \<open>at\<close> finds
  the line of an offset by binary search (\<open>sort.Search\<close>) and gives one-based line and byte
  column. The theorems say that this is the number of line feeds before the offset and the distance
  to the last of them. Go's \<open>int\<close> offsets are \<open>int\<close>; the fields of a position are never
  negative and are \<open>nat\<close>.
\<close>

abbreviation LF :: byte where "LF \<equiv> CHR 0x0A"

record source_position =
  pos_offset :: nat
  pos_line :: nat
  pos_column :: nat

definition position_one :: source_position where
  \<comment> \<open>the literal \<open>sourcePosition{Line: 1, Column: 1}\<close>\<close>
  "position_one = \<lparr>pos_offset = 0, pos_line = 1, pos_column = 1\<rparr>"

record position_table =
  line_starts :: "nat list"
  table_size :: nat

fun newline_starts :: "nat \<Rightarrow> bytes \<Rightarrow> nat list" where
  "newline_starts i [] = []"
| "newline_starts i (b # bs) =
     (if b = LF then Suc i # newline_starts (Suc i) bs else newline_starts (Suc i) bs)"

definition new_position_table :: "bytes \<Rightarrow> position_table" where
  "new_position_table source =
     \<lparr>line_starts = 0 # newline_starts 0 source, table_size = length source\<rparr>"

text \<open>The loop of \<open>sort.Search\<close>.\<close>

function search_loop :: "(nat \<Rightarrow> bool) \<Rightarrow> nat \<Rightarrow> nat \<Rightarrow> nat" where
  "search_loop f i j =
     (if i < j then
        (let h = (i + j) div 2 in if \<not> f h then search_loop f (Suc h) j else search_loop f i h)
      else i)"
  by pat_completeness auto
termination
  by (relation "measure (\<lambda>(f, i, j). j - i)") auto

declare search_loop.simps [simp del]

definition sort_search :: "nat \<Rightarrow> (nat \<Rightarrow> bool) \<Rightarrow> nat" where
  "sort_search n f = search_loop f 0 n"

definition position_at :: "position_table \<Rightarrow> int \<Rightarrow> source_position" where
  "position_at t offset =
     (let offset = (if offset < 0 then 0 else offset);
          offset = nat (if int (table_size t) < offset then int (table_size t) else offset);
          line_index = sort_search (length (line_starts t)) (\<lambda>i. offset < line_starts t ! i) - 1
            \<comment> \<open>subtraction on \<open>nat\<close> stops at 0, where the code sets a negative index to 0\<close>
      in \<lparr>pos_offset = offset, pos_line = Suc line_index,
          pos_column = Suc (offset - line_starts t ! line_index)\<rparr>)"

subsection \<open>Binary search finds the least index\<close>

definition search_mono :: "(nat \<Rightarrow> bool) \<Rightarrow> nat \<Rightarrow> bool" where
  "search_mono f n = (\<forall>k l. k \<le> l \<longrightarrow> l < n \<longrightarrow> f k \<longrightarrow> f l)"

lemma search_loop_least:
  "search_mono f n \<Longrightarrow> i \<le> j \<Longrightarrow> j \<le> n \<Longrightarrow> (\<forall>k<i. \<not> f k) \<Longrightarrow>
   (\<forall>k. j \<le> k \<longrightarrow> k < n \<longrightarrow> f k) \<Longrightarrow>
   search_loop f i j \<le> j
    \<and> (\<forall>k<search_loop f i j. \<not> f k) \<and> (\<forall>k. search_loop f i j \<le> k \<longrightarrow> k < n \<longrightarrow> f k)"
proof (induction f i j rule: search_loop.induct)
  case (1 f i j)
  let ?h = "(i + j) div 2"
  show ?case
  proof (cases "i < j")
    case False
    then have "search_loop f i j = i" by (subst search_loop.simps) simp
    with False "1.prems" show ?thesis by auto
  next
    case True
    then have h: "i \<le> ?h" "?h < j" by auto
    show ?thesis
    proof (cases "f ?h")
      case fh: True
      then have "\<forall>k. ?h \<le> k \<longrightarrow> k < n \<longrightarrow> f k"
        using "1.prems"(1) unfolding search_mono_def by blast
      with "1.IH"(2) [OF True refl] fh h "1.prems" have
        "search_loop f i ?h \<le> ?h \<and> (\<forall>k<search_loop f i ?h. \<not> f k)
          \<and> (\<forall>k. search_loop f i ?h \<le> k \<longrightarrow> k < n \<longrightarrow> f k)" by simp
      with True fh h show ?thesis by (auto simp: search_loop.simps [of f i j] Let_def)
    next
      case fh: False
      have "\<forall>k<Suc ?h. \<not> f k"
        using fh h "1.prems"(1,3) unfolding search_mono_def
        by (metis less_Suc_eq_le order.strict_trans2)
      with "1.IH"(1) [OF True refl fh] h "1.prems" have
        "search_loop f (Suc ?h) j \<le> j \<and> (\<forall>k<search_loop f (Suc ?h) j. \<not> f k)
          \<and> (\<forall>k. search_loop f (Suc ?h) j \<le> k \<longrightarrow> k < n \<longrightarrow> f k)" by simp
      with True fh show ?thesis by (auto simp: search_loop.simps [of f i j] Let_def)
    qed
  qed
qed

lemma sort_search_unique:
  assumes "search_mono f n" and "r \<le> n" and "\<forall>k<r. \<not> f k" and "r < n \<Longrightarrow> f r"
  shows "sort_search n f = r"
proof -
  have "sort_search n f \<le> n \<and> (\<forall>k<sort_search n f. \<not> f k)
      \<and> (\<forall>k. sort_search n f \<le> k \<longrightarrow> k < n \<longrightarrow> f k)"
    unfolding sort_search_def using assms(1) by (intro search_loop_least) auto
  then show ?thesis
    using assms(2-4) by (metis le_less_linear less_le order.strict_trans2)
qed

subsection \<open>Line starts\<close>

lemma newline_starts_ge: "k \<in> set (newline_starts i s) \<Longrightarrow> i < k \<and> k \<le> i + length s"
  by (induction i s rule: newline_starts.induct) (auto split: if_splits)

lemma newline_starts_sorted: "sorted (newline_starts i s)"
  by (induction i s rule: newline_starts.induct) (auto dest: newline_starts_ge)

lemma newline_starts_append:
  "newline_starts i (s @ t) = newline_starts i s @ newline_starts (i + length s) t"
  by (induction i s rule: newline_starts.induct) auto

lemma length_newline_starts: "length (newline_starts i s) = count_list s LF"
  by (induction i s rule: newline_starts.induct) auto

text \<open>The offset at which the line of the end of a prefix starts.\<close>

definition line_start :: "bytes \<Rightarrow> nat" where
  "line_start pre = length pre - length (takeWhile (\<lambda>b. b \<noteq> LF) (rev pre))"

lemma line_start_last:
  "last (0 # newline_starts 0 pre) = line_start pre"
proof (induction pre rule: rev_induct)
  case Nil
  then show ?case by (simp add: line_start_def)
next
  case (snoc b pre)
  have "length (takeWhile (\<lambda>b. b \<noteq> LF) (rev pre)) \<le> length pre"
    by (metis length_rev length_takeWhile_le)
  with snoc show ?case
    by (auto simp: newline_starts_append line_start_def Suc_diff_le)
qed

lemma line_start_le: "line_start pre \<le> length pre"
  by (simp add: line_start_def)

definition byte_line :: "bytes \<Rightarrow> nat" where
  "byte_line pre = Suc (count_list pre LF)"

definition byte_column :: "bytes \<Rightarrow> nat" where
  "byte_column pre = Suc (length (takeWhile (\<lambda>b. b \<noteq> LF) (rev pre)))"

lemma position_at_inside:
  assumes "i \<le> length s"
  shows "position_at (new_position_table s) (int i) =
    \<lparr>pos_offset = i, pos_line = byte_line (take i s), pos_column = byte_column (take i s)\<rparr>"
proof -
  let ?pre = "take i s"
  let ?starts = "0 # newline_starts 0 s"
  let ?low = "0 # newline_starts 0 ?pre"
  have split: "?starts = ?low @ newline_starts i (drop i s)"
    using newline_starts_append [of 0 ?pre "drop i s"] assms by simp
  have low: "k \<le> i" if "k \<in> set ?low" for k
    using that newline_starts_ge [of k 0 ?pre] by auto
  have high: "i < k" if "k \<in> set (newline_starts i (drop i s))" for k
    using that newline_starts_ge [of k i "drop i s"] by auto
  have sorted: "sorted ?starts"
    using newline_starts_sorted [of 0 s] by simp
  have search: "sort_search (length ?starts) (\<lambda>k. i < ?starts ! k) = length ?low"
  proof (rule sort_search_unique)
    show "search_mono (\<lambda>k. i < ?starts ! k) (length ?starts)"
      using sorted unfolding search_mono_def by (meson order.strict_trans2 sorted_nth_mono)
    show "length ?low \<le> length ?starts" by (simp only: split) simp
    show "\<forall>k<length ?low. \<not> i < ?starts ! k"
    proof (intro allI impI)
      fix k assume k: "k < length ?low"
      then have "?starts ! k = ?low ! k" by (simp only: split nth_append) simp
      then show "\<not> i < ?starts ! k" using low [OF nth_mem [OF k]] by simp
    qed
    assume lt: "length ?low < length ?starts"
    then have "?starts ! length ?low = newline_starts i (drop i s) ! 0"
      by (simp only: split nth_append) simp
    moreover have "newline_starts i (drop i s) \<noteq> []"
      using lt by (simp only: split) auto
    ultimately show "i < ?starts ! length ?low"
      using high by (metis length_greater_0_conv nth_mem)
  qed
  have idx: "?starts ! (length ?low - 1) = line_start ?pre"
  proof -
    have "?starts ! (length ?low - 1) = last ?low"
      by (simp only: split nth_append) (simp add: last_conv_nth)
    then show ?thesis by (simp only: line_start_last)
  qed
  have "i - line_start ?pre = length (takeWhile (\<lambda>b. b \<noteq> LF) (rev ?pre))"
    using assms length_takeWhile_le [of "\<lambda>b. b \<noteq> LF" "rev ?pre"] by (simp add: line_start_def)
  then show ?thesis
    using search idx assms
    by (simp add: position_at_def new_position_table_def Let_def byte_line_def byte_column_def
        length_newline_starts)
qed

lemma position_at_clamp:
  "position_at (new_position_table s) i =
   position_at (new_position_table s) (max 0 (min (int (length s)) i))"
  by (auto simp: position_at_def new_position_table_def Let_def)

text \<open>
  The position of any offset, negative and past the end included: the offset is clamped to
  the source, the line is one more than the line feeds before it, the column one more than the bytes
  since the last of them. The binary search over the line starts finds exactly this line.
\<close>
theorem position_at_correct:
  "let i = nat (max 0 (min (int (length s)) offset)); pre = take i s in
   position_at (new_position_table s) offset =
     \<lparr>pos_offset = i, pos_line = byte_line pre, pos_column = byte_column pre\<rparr>"
proof -
  define i where "i = nat (max 0 (min (int (length s)) offset))"
  have "i \<le> length s" and "int i = max 0 (min (int (length s)) offset)"
    by (auto simp: i_def)
  then show ?thesis
    using position_at_inside [of i s] position_at_clamp [of s offset]
    by (simp add: i_def [symmetric] Let_def)
qed

end
