(* ===== verification/Diagnostics.thy ===== *)
theory Diagnostics
  imports Source_Positions "HOL-Library.Multiset"
begin

section \<open>Diagnostics: internal/compiler/diagnostic.go\<close>

text \<open>
  The compiler's messages: their constructor, the error test, the stable sort by path, line,
  column, code and message, and the error value made of a list of diagnostics. Go orders strings by
  their bytes, which is the lexicographic order of byte lists; \<open>sort.SliceStable\<close> under a
  lexicographic comparison is the library's \<open>sort_key\<close> on the tuple of the compared fields.
\<close>

definition severity_error :: bytes where "severity_error = ''error''"
definition severity_warning :: bytes where "severity_warning = ''warning''"

record diagnostic =
  diag_path :: bytes
  diag_line :: nat
  diag_column :: nat
  diag_code :: bytes
  diag_severity :: bytes
  diag_message :: bytes

definition new_diagnostic :: "bytes \<Rightarrow> source_position \<Rightarrow> bytes \<Rightarrow> bytes \<Rightarrow> diagnostic" where
  "new_diagnostic path pos dcode message =
     \<lparr>diag_path = path, diag_line = pos_line pos, diag_column = pos_column pos, diag_code = dcode,
      diag_severity = severity_error, diag_message = trim_space message\<rparr>"

definition is_error :: "diagnostic \<Rightarrow> bool" where
  "is_error d = (diag_severity d = severity_error \<or> diag_severity d = [])"

definition has_errors :: "diagnostic list \<Rightarrow> bool" where
  "has_errors ds = list_ex is_error ds"

type_synonym diagnostic_key = "bytes \<times> nat \<times> nat \<times> bytes \<times> bytes"

definition diag_key :: "diagnostic \<Rightarrow> diagnostic_key" where
  "diag_key d = (diag_path d, diag_line d, diag_column d, diag_code d, diag_message d)"

definition sort_diagnostics :: "diagnostic list \<Rightarrow> diagnostic list" where
  "sort_diagnostics ds = sort_key diag_key ds"

text \<open>\<open>errorFromDiagnostics\<close>: \<open>None\<close> is Go's nil error.\<close>

definition error_from_diagnostics :: "diagnostic list \<Rightarrow> diagnostic list option" where
  "error_from_diagnostics ds = (if \<not> has_errors ds then None else Some (sort_diagnostics ds))"

definition diagnostic_text :: "diagnostic \<Rightarrow> bytes" where
  "diagnostic_text d =
     (let line = (if diag_line d < 1 then 1 else diag_line d);
          column = (if diag_column d < 1 then 1 else diag_column d)
      in diag_path d @ '':'' @ show_nat line @ '':'' @ show_nat column @ '': ''
         @ diag_code d @ '': '' @ diag_message d)"

text \<open>\<open>DiagnosticsError.Error\<close>: \<open>None\<close> is a nil receiver.\<close>

definition diagnostics_error_text :: "diagnostic list option \<Rightarrow> bytes" where
  "diagnostics_error_text e =
     (case e of
        None \<Rightarrow> ''himesan: compilation failed''
      | Some [] \<Rightarrow> ''himesan: compilation failed''
      | Some [d] \<Rightarrow> diagnostic_text d
      | Some (d # ds) \<Rightarrow>
          diagnostic_text d @ '' (and '' @ show_nat (length (d # ds) - 1) @ '' more diagnostics)'')"

declare severity_error_def [go_eval] severity_warning_def [go_eval] new_diagnostic_def [go_eval]
  is_error_def [go_eval] has_errors_def [go_eval] diag_key_def [go_eval]
  sort_diagnostics_def [go_eval] error_from_diagnostics_def [go_eval] position_one_def [go_eval]

subsection \<open>Sorting keeps the diagnostics\<close>

lemma set_sort_diagnostics [simp]: "set (sort_diagnostics ds) = set ds"
  by (simp add: sort_diagnostics_def)

lemma mset_sort_diagnostics [simp]: "mset (sort_diagnostics ds) = mset ds"
  by (simp add: sort_diagnostics_def)

lemma has_errors_sort [simp]: "has_errors (sort_diagnostics ds) = has_errors ds"
  by (simp add: has_errors_def list_ex_iff)

lemma has_errors_append [simp]: "has_errors (ds @ es) \<longleftrightarrow> has_errors ds \<or> has_errors es"
  by (simp add: has_errors_def)

lemma has_errors_Nil [simp]: "\<not> has_errors []"
  by (simp add: has_errors_def)

lemma is_error_new [simp]: "is_error (new_diagnostic path pos c m)"
  by (simp add: is_error_def new_diagnostic_def severity_error_def)

lemma has_errors_Cons [simp]: "has_errors (d # ds) \<longleftrightarrow> is_error d \<or> has_errors ds"
  by (simp add: has_errors_def)

text \<open>
  An error value is made exactly when some diagnostic is an error. It then holds the same
  diagnostics, in the order of path, line, column, code and message, those that agree on all five
  in the order they were reported.
\<close>
theorem error_from_diagnostics_sorted:
  "(error_from_diagnostics ds = None) = (\<forall>d\<in>set ds. \<not> is_error d)
   \<and> (\<forall>es. error_from_diagnostics ds = Some es \<longrightarrow>
        mset es = mset ds \<and> sorted (map diag_key es)
        \<and> (\<forall>k. filter (\<lambda>d. diag_key d = k) es = filter (\<lambda>d. diag_key d = k) ds))"
  by (auto simp: error_from_diagnostics_def has_errors_def list_ex_iff sort_diagnostics_def
      sort_key_stable)

theorem error_from_diagnostics_sorted_witness:
  "error_from_diagnostics [new_diagnostic ''b'' position_one ''X'' ''m'', new_diagnostic ''a'' position_one ''X'' ''m'']
   = Some [new_diagnostic ''a'' position_one ''X'' ''m'', new_diagnostic ''b'' position_one ''X'' ''m'']
   \<and> sorted (map diag_key [new_diagnostic ''a'' position_one ''X'' ''m'', new_diagnostic ''b'' position_one ''X'' ''m''])"
proof -
  let ?ds = "[new_diagnostic ''b'' position_one ''X'' ''m'', new_diagnostic ''a'' position_one ''X'' ''m'']"
  have "error_from_diagnostics ?ds = Some (rev ?ds)"
    by (simp add: go_eval)
  with error_from_diagnostics_sorted [of ?ds] show ?thesis by simp
qed

end
