(* ===== verification/Renderer_IR.thy ===== *)
theory Renderer_IR
  imports Diagnostics
begin

section \<open>The renderer IR: internal/compiler/model.go\<close>

text \<open>
  The data the compiler's phases share: the escaping contexts, the nodes of a template with
  their context annotation, a parsed source file, and the results of a compilation. The Go
  syntax tree a source file also carries is used by the header parser only.
\<close>

text \<open>
  \<open>Context\<close> is a Go string with seven named values; \<open>ContextUnset\<close> is its zero value, the
  context of a node no phase has annotated.
\<close>

datatype output_context =
    ContextUnset
  | ContextHTMLText
  | ContextRCDATA
  | ContextAttr
  | ContextURL
  | ContextJS
  | ContextCSS
  | ContextNone

fun context_string :: "output_context \<Rightarrow> bytes" where
  "context_string ContextUnset = []"
| "context_string ContextHTMLText = ''html-text''"
| "context_string ContextRCDATA = ''rcdata''"
| "context_string ContextAttr = ''quoted-attribute''"
| "context_string ContextURL = ''url-attribute''"
| "context_string ContextJS = ''script''"
| "context_string ContextCSS = ''style''"
| "context_string ContextNone = ''none''"

datatype node_kind =
  NodeText | NodeStatement | NodeExpression | NodeComponent | NodeComment

record renderer_node =
  node_kind :: node_kind
  node_text :: bytes
  node_context :: output_context
  node_pos :: source_position

record source_import =
  import_alias :: bytes
  import_path :: bytes

record source_file =
  file_path :: bytes
  file_mapping :: bytes
  file_package :: bytes
  file_name :: bytes
  file_type_params :: bytes
  file_params :: bytes
  file_imports :: "source_import list"
  file_nodes :: "renderer_node list"
  file_source :: bytes
  file_header_end :: nat
  file_function_pos :: source_position

record compiled_file =
  compiled_source_path :: bytes
  compiled_output_path :: bytes
  compiled_package :: bytes
  compiled_component :: bytes
  compiled_digest :: bytes
  compiled_code :: bytes
  compiled_source :: "source_file option"
  compiled_source_mode :: nat

record file_result =
  result_source_path :: bytes
  result_output_path :: bytes
  result_changed :: bool
  result_stale :: bool
  result_missing :: bool

record operation_result =
  op_files :: "file_result list"
  op_diagnostics :: "diagnostic list"
  op_discovered :: nat
  op_changed :: nat
  op_unchanged :: nat
  op_stale :: nat
  op_missing :: nat

definition generated_prefix :: bytes where
  "generated_prefix = ''// Code generated by himesan; DO NOT EDIT.''"

definition runtime_import_path :: bytes where
  "runtime_import_path = ''gamertan.com/sandwich-hime/sando''"

definition runtime_abi :: bytes where
  "runtime_abi = ''sando.v1''"

end
