(* ===== verification/Discovery.thy ===== *)
theory Discovery
  imports Host_Files Diagnostics Renderer_IR "HOL-Library.AList"
begin

section \<open>Finding the sources: internal/compiler/discover.go\<close>

text \<open>
  \<open>discoverWithOptions\<close>: explicit files, and the walk of directories with its boundaries (version
  control, vendored code, nested modules, other file systems, symbolic links). The walk is
  \<open>filepath.WalkDir\<close>, with its callback and the values the callback returns; its recursion has one
  unit of fuel per level of directories, 4096 of them, the length Linux allows a path.
\<close>

subsection \<open>Devices\<close>

text \<open>What reflection finds behind \<open>FileInfo.Sys()\<close>: nothing, no struct, no field, or a number.\<close>

datatype system_info = SystemNil | SystemNoStruct | SystemNoField | DeviceUnsigned nat | DeviceSigned int | DeviceOther

fun device_number :: "system_info \<Rightarrow> nat option" where
  "device_number SystemNil = None"
| "device_number SystemNoStruct = None"
| "device_number SystemNoField = None"
| "device_number (DeviceUnsigned n) = Some n"
| "device_number (DeviceSigned i) = (if i < 0 then None else Some (nat i))"
| "device_number DeviceOther = None"

definition same_filesystem :: "system_info \<Rightarrow> system_info \<Rightarrow> bool" where
  "same_filesystem root candidate =
     (device_number root = None \<or> device_number candidate = None \<or> device_number root = device_number candidate)"

type_synonym fs_host = "system_info host"

subsection \<open>Paths through symbolic links\<close>

text \<open>\<open>firstSymlinkComponent\<close>: the loop over the elements of the absolute path.\<close>

fun symlink_loop :: "fs_host \<Rightarrow> bytes \<Rightarrow> bytes list \<Rightarrow> world \<Rightarrow> (bytes + bytes) \<times> world" where
  "symlink_loop h current [] w = (Inr [], w)"
| "symlink_loop h current (c # cs) w =
     (if c = [] then symlink_loop h current cs w
      else
        (let current = path_join current c in
         case lstat h current w of
           (Inl e, w) \<Rightarrow> (Inl (os_error_text e), w)
         | (Inr entry, w) \<Rightarrow>
             (if is_symlink entry then (Inr current, w) else symlink_loop h current cs w)))"

definition first_symlink_component :: "fs_host \<Rightarrow> bytes \<Rightarrow> world \<Rightarrow> (bytes + bytes) \<times> world" where
  "first_symlink_component h path w =
     (case absolute_path h path of
        Inl e \<Rightarrow> (Inl e, w)
      | Inr absolute \<Rightarrow> symlink_loop h ''/'' (split_on separator (trim_prefix ''/'' absolute)) w)"

subsection \<open>Generated files without a source\<close>

text \<open>\<open>hasGeneratedMarker\<close>: the first bytes of the file; a short file is not an error.\<close>

definition has_generated_marker :: "fs_host \<Rightarrow> bytes \<Rightarrow> world \<Rightarrow> (os_error + bool) \<times> world" where
  "has_generated_marker h path w =
     (case read_file h path w of
        (Inl e, w) \<Rightarrow> (Inl e, w)
      | (Inr content, w) \<Rightarrow>
          (let marker = generated_prefix @ [LF]
           in if length content < length marker then (Inr False, w)
              else (Inr (take (length marker) content = marker), w)))"

definition file_problem :: "bytes \<Rightarrow> bytes \<Rightarrow> bytes \<Rightarrow> diagnostic" where
  "file_problem path dcode message = new_diagnostic path position_one dcode message"

definition inspect_owned_generated_output :: "fs_host \<Rightarrow> bytes \<Rightarrow> world \<Rightarrow> diagnostic option \<times> world" where
  "inspect_owned_generated_output h path w =
     (case has_generated_marker h path w of
        (Inl e, w) \<Rightarrow>
          (Some (file_problem path ''HIM2013'' (''cannot inspect possible generated output: '' @ os_error_text e)), w)
      | (Inr False, w) \<Rightarrow> (None, w)
      | (Inr True, w) \<Rightarrow>
          (case lstat h (trim_suffix ''.go'' path) w of
             (Inr entry, w) \<Rightarrow>
               (if is_regular entry \<and> \<not> is_symlink entry then (None, w)
                else (Some (file_problem path ''HIM2014'' ''owned generated output is orphaned because its adjacent .sando source is not a regular file; review and remove the output explicitly''), w))
           | (Inl e, w) \<Rightarrow>
               (Some (file_problem path ''HIM2014''
                  (if is_not_exist e
                   then ''owned generated output is orphaned because its adjacent .sando source is missing; review and remove the output explicitly''
                   else ''cannot inspect the adjacent .sando source for an owned generated output: '' @ os_error_text e)), w)))"

subsection \<open>The walk\<close>

definition excluded_directories :: "bytes list" where
  "excluded_directories = [''.git'', ''.hg'', ''.svn'', ''vendor'']"

datatype walk_signal = WalkOn | SkipDir | WalkStop

text \<open>What the walk collects: the sources by absolute path (a later one wins) and the diagnostics.\<close>

record walk_state =
  wk_world :: world
  wk_found :: "(bytes \<times> bytes) list"
  wk_diagnostics :: "diagnostic list"

definition add_diagnostic :: "diagnostic \<Rightarrow> walk_state \<Rightarrow> walk_state" where
  "add_diagnostic d st = st\<lparr>wk_diagnostics := wk_diagnostics st @ [d]\<rparr>"

definition add_source :: "fs_host \<Rightarrow> bytes \<Rightarrow> walk_state \<Rightarrow> walk_state" where
  "add_source h path st =
     (case absolute_path h path of
        Inl e \<Rightarrow> add_diagnostic (file_problem path ''HIM2005'' (''cannot resolve source path: '' @ e)) st
      | Inr absolute \<Rightarrow> st\<lparr>wk_found := AList.update absolute path (wk_found st)\<rparr>)"

fun check_markers :: "fs_host \<Rightarrow> bytes \<Rightarrow> bytes list \<Rightarrow> walk_state \<Rightarrow> walk_signal \<times> walk_state" where
  "check_markers h path [] st = (WalkOn, st)"
| "check_markers h path (marker # rest) st =
     (case lstat h (path_join path marker) (wk_world st) of
        (Inr entry, w) \<Rightarrow> (SkipDir, st\<lparr>wk_world := w\<rparr>)
      | (Inl e, w) \<Rightarrow>
          (if is_not_exist e then check_markers h path rest (st\<lparr>wk_world := w\<rparr>)
           else (SkipDir, add_diagnostic (file_problem (path_join path marker) ''HIM2011''
                   (''cannot inspect nested VCS boundary: '' @ os_error_text e)) (st\<lparr>wk_world := w\<rparr>))))"

definition check_module :: "fs_host \<Rightarrow> bytes \<Rightarrow> walk_state \<Rightarrow> walk_signal \<times> walk_state" where
  "check_module h path st =
     (let module_path = path_join path ''go.mod'' in
      case lstat h module_path (wk_world st) of
        (Inr entry, w) \<Rightarrow>
          (SkipDir, (if is_regular entry then id
             else add_diagnostic (file_problem module_path ''HIM2008'' ''nested go.mod boundary is not a regular file; directory was skipped''))
            (st\<lparr>wk_world := w\<rparr>))
      | (Inl e, w) \<Rightarrow>
          (if is_not_exist e then (WalkOn, st\<lparr>wk_world := w\<rparr>)
           else (SkipDir, add_diagnostic (file_problem module_path ''HIM2008''
                   (''cannot inspect nested module boundary: '' @ os_error_text e)) (st\<lparr>wk_world := w\<rparr>))))"

definition mounted_warning :: "bytes \<Rightarrow> diagnostic" where
  "mounted_warning path =
     \<lparr>diag_path = path, diag_line = 1, diag_column = 1, diag_code = ''HIM2901'',
      diag_severity = severity_warning, diag_message = ''skipped mounted filesystem boundary''\<rparr>"

text \<open>The boundaries of a directory below the root.\<close>

definition check_directory :: "fs_host \<Rightarrow> bytes \<Rightarrow> bytes \<Rightarrow> walk_state \<Rightarrow> walk_signal \<times> walk_state" where
  "check_directory h root path st =
     (case lstat h path (wk_world st) of
        (Inl e, w) \<Rightarrow>
          (SkipDir, add_diagnostic (file_problem path ''HIM2007'' (''cannot inspect directory: '' @ os_error_text e))
             (st\<lparr>wk_world := w\<rparr>))
      | (Inr entry, w) \<Rightarrow>
          (let st = st\<lparr>wk_world := w\<rparr> in
           if \<not> same_filesystem (host_system h root) (host_system h path)
           then (SkipDir, add_diagnostic (mounted_warning path) st)
           else (case check_markers h path [''.git'', ''.hg'', ''.svn''] st of
                   (WalkOn, st) \<Rightarrow> check_module h path st
                 | stop \<Rightarrow> stop)))"

definition visit_generated :: "fs_host \<Rightarrow> bytes \<Rightarrow> walk_state \<Rightarrow> walk_state" where
  \<comment> \<open>a file named like a generated output\<close>
  "visit_generated h path st =
     (case lstat h path (wk_world st) of
        (Inl e, w) \<Rightarrow>
          add_diagnostic (file_problem path ''HIM2013'' (''cannot inspect possible generated output: '' @ os_error_text e))
            (st\<lparr>wk_world := w\<rparr>)
      | (Inr entry, w) \<Rightarrow>
          (if \<not> is_regular entry then st\<lparr>wk_world := w\<rparr>
           else (case inspect_owned_generated_output h path w of
                   (None, w) \<Rightarrow> st\<lparr>wk_world := w\<rparr>
                 | (Some d, w) \<Rightarrow> add_diagnostic d (st\<lparr>wk_world := w\<rparr>))))"

definition visit_source :: "fs_host \<Rightarrow> bytes \<Rightarrow> walk_state \<Rightarrow> walk_state" where
  "visit_source h path st =
     (case lstat h path (wk_world st) of
        (Inl e, w) \<Rightarrow>
          add_diagnostic (file_problem path ''HIM2009'' (''cannot inspect source: '' @ os_error_text e)) (st\<lparr>wk_world := w\<rparr>)
      | (Inr entry, w) \<Rightarrow>
          (if \<not> is_regular entry then st\<lparr>wk_world := w\<rparr> else add_source h path (st\<lparr>wk_world := w\<rparr>)))"

text \<open>
  The callback: the path, the entry's name and type, and the error the walk passes to it. The
  signal \<open>WalkStop\<close> is the error of a canceled context.
\<close>

definition visit_entry ::
  "fs_host \<Rightarrow> bool \<Rightarrow> bytes \<Rightarrow> bytes \<Rightarrow> bytes \<Rightarrow> fs_entry \<Rightarrow> os_error option \<Rightarrow> walk_state \<Rightarrow> walk_signal \<times> walk_state" where
  "visit_entry h inspect root path name entry err st =
     (case ctx_err h (wk_world st) of
        (Some e, w) \<Rightarrow> (WalkStop, st\<lparr>wk_world := w\<rparr>)
      | (None, w) \<Rightarrow>
         (let st = st\<lparr>wk_world := w\<rparr> in
          case err of
            Some e \<Rightarrow>
              (if is_directory entry then SkipDir else WalkOn,
               add_diagnostic (file_problem path ''HIM2006'' (''cannot inspect path during discovery: '' @ os_error_text e)) st)
          | None \<Rightarrow>
             (if path \<noteq> root \<and> is_directory entry \<and> name \<in> set excluded_directories then (SkipDir, st)
              else if is_symlink entry then (WalkOn, st)
              else if is_directory entry
              then (if path \<noteq> root then check_directory h root path st else (WalkOn, st))
              else if has_suffix ''.sando.go'' name
              then (WalkOn, if inspect then visit_generated h path st else st)
              else if path_ext name \<noteq> ''.sando'' then (WalkOn, st)
              else (WalkOn, visit_source h path st))))"

text \<open>
  \<open>filepath.WalkDir\<close>: \<open>walk_dir\<close> visits an entry and, for a directory, its names in order;
  a skip ends the directory, a stop the walk. Out of fuel, \<open>ReadDir\<close> refuses the path.
\<close>

function walk_dir :: "fs_host \<Rightarrow> bool \<Rightarrow> bytes \<Rightarrow> nat \<Rightarrow> bytes \<Rightarrow> bytes \<Rightarrow> fs_entry \<Rightarrow> walk_state \<Rightarrow> walk_signal \<times> walk_state"
  and walk_names :: "fs_host \<Rightarrow> bool \<Rightarrow> bytes \<Rightarrow> nat \<Rightarrow> bytes \<Rightarrow> bytes list \<Rightarrow> walk_state \<Rightarrow> walk_signal \<times> walk_state" where
  "walk_dir h inspect root fuel path name entry st =
     (case visit_entry h inspect root path name entry None st of
        (WalkOn, st) \<Rightarrow>
          (if \<not> is_directory entry then (WalkOn, st)
           else (case fuel of
               0 \<Rightarrow> (let (sig, st) = visit_entry h inspect root path name entry (Some (OsFailure ''file name too long'')) st
                     in (if sig = SkipDir then WalkOn else sig, st))
             | Suc fuel \<Rightarrow>
                 (case read_dir h path (wk_world st) of
                    (Inl e, w) \<Rightarrow>
                      (let (sig, st) = visit_entry h inspect root path name entry (Some e) (st\<lparr>wk_world := w\<rparr>)
                       in (if sig = SkipDir then WalkOn else sig, st))
                  | (Inr names, w) \<Rightarrow> walk_names h inspect root fuel path names (st\<lparr>wk_world := w\<rparr>))))
      | (SkipDir, st) \<Rightarrow> (if is_directory entry then WalkOn else SkipDir, st)
      | (WalkStop, st) \<Rightarrow> (WalkStop, st))"
| "walk_names h inspect root fuel path [] st = (WalkOn, st)"
| "walk_names h inspect root fuel path (n # ns) st =
     (case entry_of h (w_files (wk_world st)) (path_join path n) of
        None \<Rightarrow> walk_names h inspect root fuel path ns st
      | Some entry \<Rightarrow>
          (case walk_dir h inspect root fuel (path_join path n) n entry st of
             (WalkOn, st) \<Rightarrow> walk_names h inspect root fuel path ns st
           | (SkipDir, st) \<Rightarrow> (WalkOn, st)
           | (WalkStop, st) \<Rightarrow> (WalkStop, st)))"
  by pat_completeness auto
termination
  by (relation "inv_image (less_than <*lex*> less_than)
      (case_sum (\<lambda>(h, i, r, fuel, p, n, e, st). (fuel, 1 :: nat)) (\<lambda>(h, i, r, fuel, p, ns, st). (fuel, length ns + 2)))")
    auto

declare walk_dir.simps [simp del]

text \<open>\<open>WalkDir\<close> itself looks at the root again.\<close>

definition walk_tree :: "fs_host \<Rightarrow> bool \<Rightarrow> bytes \<Rightarrow> walk_state \<Rightarrow> walk_signal \<times> walk_state" where
  "walk_tree h inspect root st =
     (case lstat h root (wk_world st) of
        (Inl e, w) \<Rightarrow>
          (let (sig, st) = visit_entry h inspect root root (path_base root) (SpecialFile 0) (Some e) (st\<lparr>wk_world := w\<rparr>)
           in (if sig = SkipDir then WalkOn else sig, st))
      | (Inr entry, w) \<Rightarrow>
          (let (sig, st) = walk_dir h inspect root 4096 root (path_base root) entry (st\<lparr>wk_world := w\<rparr>)
           in (if sig = SkipDir then WalkOn else sig, st)))"

subsection \<open>discoverWithOptions\<close>

definition discover_path :: "fs_host \<Rightarrow> bool \<Rightarrow> bytes \<Rightarrow> walk_state \<Rightarrow> walk_state" where
  \<comment> \<open>one requested path, after the cancellation check\<close>
  "discover_path h inspect requested st =
     (let clean = path_clean requested in
      case first_symlink_component h clean (wk_world st) of
        (Inl e, w) \<Rightarrow> add_diagnostic (file_problem clean ''HIM2002'' (''cannot inspect path ancestry: '' @ e)) (st\<lparr>wk_world := w\<rparr>)
      | (Inr parent, w) \<Rightarrow>
         (if parent \<noteq> []
          then add_diagnostic (file_problem clean ''HIM2003'' (''symlink paths are not followed (through '' @ parent @ '')'')) (st\<lparr>wk_world := w\<rparr>)
          else (case lstat h clean w of
              (Inl e, w) \<Rightarrow> add_diagnostic (file_problem clean ''HIM2002'' (''cannot inspect path: '' @ os_error_text e)) (st\<lparr>wk_world := w\<rparr>)
            | (Inr entry, w) \<Rightarrow>
                (let st = st\<lparr>wk_world := w\<rparr> in
                 if is_symlink entry then add_diagnostic (file_problem clean ''HIM2003'' ''symlink paths are not followed'') st
                 else if \<not> is_directory entry
                 then (if path_ext clean \<noteq> ''.sando''
                       then add_diagnostic (file_problem clean ''HIM2004'' ''explicit source file must use the .sando extension'') st
                       else add_source h clean st)
                 else (case walk_tree h inspect clean st of
                     (sig, st) \<Rightarrow>
                       (if sig \<noteq> WalkStop then st
                        else (case ctx_err h (wk_world st) of
                            (None, w) \<Rightarrow> st\<lparr>wk_world := w\<rparr>
                          | (Some e, w) \<Rightarrow>
                              (case ctx_err h w of (e', w) \<Rightarrow>
                                 add_diagnostic (file_problem clean ''HIM2001'' (''operation canceled: ''
                                   @ (case e' of Some t \<Rightarrow> t | None \<Rightarrow> []))) (st\<lparr>wk_world := w\<rparr>)))))))))"

fun discover_paths :: "fs_host \<Rightarrow> bool \<Rightarrow> bytes list \<Rightarrow> walk_state \<Rightarrow> walk_state" where
  "discover_paths h inspect [] st = st"
| "discover_paths h inspect (p # ps) st =
     (case ctx_err h (wk_world st) of
        (Some e, w) \<Rightarrow> add_diagnostic (file_problem p ''HIM2001'' (''operation canceled: '' @ e)) (st\<lparr>wk_world := w\<rparr>)
      | (None, w) \<Rightarrow> discover_paths h inspect ps (discover_path h inspect p (st\<lparr>wk_world := w\<rparr>)))"

definition absolute_or_empty :: "fs_host \<Rightarrow> bytes \<Rightarrow> bytes" where
  "absolute_or_empty h p = (case absolute_path h p of Inr a \<Rightarrow> a | Inl e \<Rightarrow> [])"

definition discover_with_options :: "fs_host \<Rightarrow> bool \<Rightarrow> bytes list \<Rightarrow> world \<Rightarrow> (bytes list \<times> diagnostic list) \<times> world" where
  "discover_with_options h inspect paths w =
     (let st = discover_paths h inspect (if paths = [] then [''.''] else paths)
                 \<lparr>wk_world = w, wk_found = [], wk_diagnostics = []\<rparr>;
          absolutes = sort (map fst (wk_found st));
          found = map (\<lambda>a. the (map_of (wk_found st) a)) absolutes
      in ((sort_key (absolute_or_empty h) found, sort_diagnostics (wk_diagnostics st)), wk_world st))"

definition discover :: "fs_host \<Rightarrow> bytes list \<Rightarrow> world \<Rightarrow> (bytes list \<times> diagnostic list) \<times> world" where
  "discover h paths w = discover_with_options h True paths w"

definition discover_sources :: "fs_host \<Rightarrow> bytes list \<Rightarrow> world \<Rightarrow> (bytes list \<times> diagnostic list) \<times> world" where
  "discover_sources h paths w = discover_with_options h False paths w"

subsection \<open>What may be found\<close>

text \<open>
  The directories the walk enters: the root, and below an entered directory those that are not
  excluded, on the same file system, and neither a repository nor a module of their own.
\<close>

definition open_directory :: "fs_host \<Rightarrow> files \<Rightarrow> bytes \<Rightarrow> bytes \<Rightarrow> bytes \<Rightarrow> bool" where
  "open_directory h fs root name path =
     (path = root
      \<or> name \<notin> set excluded_directories \<and> same_filesystem (host_system h root) (host_system h path)
        \<and> (\<forall>m\<in>{''.git'', ''.hg'', ''.svn'', ''go.mod''}. entry_of h fs (path_join path m) = None))"

inductive entered :: "fs_host \<Rightarrow> files \<Rightarrow> bytes \<Rightarrow> bytes \<Rightarrow> bool" for h fs root where
  entered_root: "entered h fs root root"
| entered_below: "entered h fs root dir \<Longrightarrow> entry_of h fs dir = Some (Directory perm names) \<Longrightarrow> name \<in> set names \<Longrightarrow>
    entry_of h fs (path_join dir name) = Some (Directory perm' names') \<Longrightarrow>
    open_directory h fs root name (path_join dir name) \<Longrightarrow> entered h fs root (path_join dir name)"

definition listed :: "fs_host \<Rightarrow> files \<Rightarrow> bytes \<Rightarrow> bytes \<Rightarrow> bytes \<Rightarrow> bool" where
  \<comment> \<open>the path is in an entered directory under this name\<close>
  "listed h fs root path name =
     (\<exists>dir perm names. entered h fs root dir \<and> entry_of h fs dir = Some (Directory perm names) \<and> name \<in> set names
        \<and> path = path_join dir name)"

definition walk_source :: "fs_host \<Rightarrow> files \<Rightarrow> bytes \<Rightarrow> bytes \<Rightarrow> bool" where
  "walk_source h fs root path =
     (\<exists>name entry. listed h fs root path name \<and> entry_of h fs path = Some entry \<and> is_regular entry
        \<and> path_ext name = ''.sando'')"

text \<open>A state of the walk: the files as they were, and every source found with its absolute path.\<close>

definition walk_ok :: "fs_host \<Rightarrow> files \<Rightarrow> (bytes \<Rightarrow> bool) \<Rightarrow> walk_state \<Rightarrow> bool" where
  "walk_ok h fs good st =
     (w_files (wk_world st) = fs \<and> distinct (map fst (wk_found st))
      \<and> list_all (\<lambda>(a, p). absolute_path h p = Inr a \<and> good p) (wk_found st))"

lemma walk_ok_add [simp]: "walk_ok h fs good (add_diagnostic d st) = walk_ok h fs good st"
  by (simp add: walk_ok_def add_diagnostic_def)

lemma walk_ok_world: "walk_ok h fs good st \<Longrightarrow> w_files w = w_files (wk_world st) \<Longrightarrow> walk_ok h fs good (st\<lparr>wk_world := w\<rparr>)"
  by (simp add: walk_ok_def)

lemma walk_ok_files: "walk_ok h fs good st \<Longrightarrow> w_files (wk_world st) = fs"
  by (simp add: walk_ok_def)

lemma set_update_subset: "set (AList.update k v al) \<subseteq> insert (k, v) (set al)"
  by (induction al) auto

lemma walk_ok_source:
  "walk_ok h fs good st \<Longrightarrow> good path \<Longrightarrow> walk_ok h fs good (add_source h path st)"
  using set_update_subset
  by (fastforce simp: walk_ok_def add_source_def list_all_iff distinct_update add_diagnostic_def split: sum.split)

lemma call_ok:
  "lstat h path (wk_world st) = (r, w) \<Longrightarrow> walk_ok h fs good st \<Longrightarrow> walk_ok h fs good (st\<lparr>wk_world := w\<rparr>)"
  "read_file h path (wk_world st) = (r', w) \<Longrightarrow> walk_ok h fs good st \<Longrightarrow> walk_ok h fs good (st\<lparr>wk_world := w\<rparr>)"
  "ctx_err h (wk_world st) = (r'', w) \<Longrightarrow> walk_ok h fs good st \<Longrightarrow> walk_ok h fs good (st\<lparr>wk_world := w\<rparr>)"
  "read_dir h path (wk_world st) = (r3, w) \<Longrightarrow> walk_ok h fs good st \<Longrightarrow> walk_ok h fs good (st\<lparr>wk_world := w\<rparr>)"
  using lstat_files [of h path "wk_world st"] read_file_files [of h path "wk_world st"]
    ctx_err_files [of h "wk_world st"] read_dir_files [of h path "wk_world st"]
  by (auto simp: walk_ok_def)

lemma check_markers_ok:
  "check_markers h path ms st = (sig, st') \<Longrightarrow> walk_ok h fs good st \<Longrightarrow>
   walk_ok h fs good st' \<and> sig \<noteq> WalkStop \<and> (sig = WalkOn \<longrightarrow> (\<forall>m\<in>set ms. entry_of h fs (path_join path m) = None))"
proof (induction h path ms st rule: check_markers.induct)
  case (1 h path st)
  then show ?case by simp
next
  case (2 h path m rest st)
  obtain r w where l: "lstat h (path_join path m) (wk_world st) = (r, w)" by fastforce
  note ok = call_ok(1) [OF l "2.prems"(2)]
  show ?case
  proof (cases r)
    case (Inr entry)
    then show ?thesis using 2 l ok by auto
  next
    case (Inl e)
    show ?thesis
    proof (cases "is_not_exist e")
      case True
      then have "check_markers h path rest (st\<lparr>wk_world := w\<rparr>) = (sig, st')"
        using "2.prems"(1) l Inl by simp
      then have "walk_ok h fs good st' \<and> sig \<noteq> WalkStop \<and> (sig = WalkOn \<longrightarrow> (\<forall>m\<in>set rest. entry_of h fs (path_join path m) = None))"
        using "2.IH" [OF l [symmetric] Inl True] ok by simp
      then show ?thesis
        using lstat_not_exist [of h "path_join path m" "wk_world st" e w] l Inl True walk_ok_files [OF "2.prems"(2)]
        by simp
    next
      case False
      then show ?thesis using "2.prems" l Inl ok by auto
    qed
  qed
qed

lemma check_module_ok:
  "check_module h path st = (sig, st') \<Longrightarrow> walk_ok h fs good st \<Longrightarrow>
   walk_ok h fs good st' \<and> sig \<noteq> WalkStop \<and> (sig = WalkOn \<longrightarrow> entry_of h fs (path_join path ''go.mod'') = None)"
  using call_ok(1) [of h "path_join path ''go.mod''" st] lstat_not_exist [of h "path_join path ''go.mod''" "wk_world st"]
    walk_ok_files [of h fs good st]
  by (auto simp: check_module_def Let_def split: prod.splits sum.splits if_splits)

lemma check_directory_ok:
  assumes "check_directory h root path st = (sig, st')" and "walk_ok h fs good st"
    and "name \<notin> set excluded_directories"
  shows "walk_ok h fs good st' \<and> sig \<noteq> WalkStop \<and> (sig = WalkOn \<longrightarrow> open_directory h fs root name path)"
proof -
  obtain r w where l: "lstat h path (wk_world st) = (r, w)" by fastforce
  note ok = call_ok(1) [OF l assms(2)]
  obtain s1 st1 where m: "check_markers h path [''.git'', ''.hg'', ''.svn''] (st\<lparr>wk_world := w\<rparr>) = (s1, st1)" by fastforce
  note markers = check_markers_ok [OF m ok]
  show ?thesis
    using assms l ok m markers check_module_ok [of h path st1 sig st' fs good]
    by (cases r; cases s1) (auto simp: check_directory_def open_directory_def Let_def split: if_splits)
qed

lemma read_file_ok:
  "read_file h path w = (r, w') \<Longrightarrow> w_files w' = w_files w"
  using read_file_files [of h path w] by simp

lemma marker_files: "has_generated_marker h path w = (r, w') \<Longrightarrow> w_files w' = w_files w"
  by (auto simp: has_generated_marker_def Let_def dest!: read_file_ok split: prod.splits sum.splits if_splits)

lemma inspect_files: "inspect_owned_generated_output h path w = (r, w') \<Longrightarrow> w_files w' = w_files w"
  by (auto simp: inspect_owned_generated_output_def dest!: marker_files lstat_same
      split: prod.splits sum.splits bool.splits if_splits)

lemma visit_generated_ok: "walk_ok h fs good st \<Longrightarrow> walk_ok h fs good (visit_generated h path st)"
proof -
  assume ok: "walk_ok h fs good st"
  obtain r w where l: "lstat h path (wk_world st) = (r, w)" by fastforce
  obtain d w' where i: "inspect_owned_generated_output h path w = (d, w')" by fastforce
  have "w_files w' = w_files (wk_world st)" using inspect_files [OF i] lstat_same [OF l] by simp
  then show ?thesis
    using call_ok(1) [OF l ok] walk_ok_world [OF ok] l i
    by (cases r; cases d) (simp_all add: visit_generated_def)
qed

lemma visit_source_ok:
  assumes ok: "walk_ok h fs good st" and good: "\<And>entry. entry_of h fs path = Some entry \<Longrightarrow> is_regular entry \<Longrightarrow> good path"
  shows "walk_ok h fs good (visit_source h path st)"
proof -
  obtain r w where l: "lstat h path (wk_world st) = (r, w)" by fastforce
  have "\<And>entry. r = Inr entry \<Longrightarrow> entry_of h fs path = Some entry"
    using l lstat_Inr walk_ok_files [OF ok] by blast
  then show ?thesis
    using call_ok(1) [OF l ok] l good walk_ok_source [OF call_ok(1) [OF l ok]]
    by (cases r) (auto simp: visit_source_def)
qed

lemma visit_entry_ok:
  assumes visit: "visit_entry h inspect root path name entry err st = (sig, st')" and ok: "walk_ok h fs good st"
    and good: "\<And>e. err = None \<Longrightarrow> entry_of h fs path = Some e \<Longrightarrow> is_regular e \<Longrightarrow> path_ext name = ''.sando'' \<Longrightarrow> good path"
  shows "walk_ok h fs good st' \<and> (sig = WalkOn \<longrightarrow> err = None \<longrightarrow> is_directory entry \<longrightarrow> open_directory h fs root name path)
    \<and> (err \<noteq> None \<longrightarrow> is_directory entry \<longrightarrow> sig \<noteq> WalkOn) \<and> (\<not> is_directory entry \<longrightarrow> sig \<noteq> SkipDir)"
proof -
  obtain c w where c: "ctx_err h (wk_world st) = (c, w)" by fastforce
  note ok' = call_ok(3) [OF c ok]
  show ?thesis
  proof (cases c)
    case (Some e)
    then show ?thesis using visit c ok' by (auto simp: visit_entry_def)
  next
    case None
    show ?thesis
    proof (cases err)
      case (Some e)
      then show ?thesis using visit c None ok' by (auto simp: visit_entry_def Let_def)
    next
      case err: None
      have dir: "is_directory entry \<Longrightarrow> path \<noteq> root \<Longrightarrow> name \<notin> set excluded_directories \<Longrightarrow>
          check_directory h root path (st\<lparr>wk_world := w\<rparr>) = (sig, st') \<Longrightarrow> ?thesis"
        using check_directory_ok [OF _ ok'] err by auto
      show ?thesis
        using visit c None err ok' dir visit_generated_ok [OF ok'] visit_source_ok [OF ok', of path] good
        by (cases entry) (auto simp: visit_entry_def Let_def open_directory_def split: if_splits)
    qed
  qed
qed

text \<open>The walk of an entered directory: \<open>good\<close> is any set that holds the sources it may find.\<close>

lemma walk_dir_ok:
  shows "walk_dir h inspect root fuel path name entry st = (sig, st') \<Longrightarrow> walk_ok h fs (\<lambda>p. walk_source h fs root p \<or> other p) st \<Longrightarrow>
      entry_of h fs path = Some entry \<Longrightarrow> path = root \<and> is_directory entry \<or> listed h fs root path name \<Longrightarrow>
      walk_ok h fs (\<lambda>p. walk_source h fs root p \<or> other p) st'"
    and "walk_names h inspect root fuel path names st = (sig, st') \<Longrightarrow> walk_ok h fs (\<lambda>p. walk_source h fs root p \<or> other p) st \<Longrightarrow>
      entered h fs root path \<Longrightarrow> entry_of h fs path = Some (Directory perm all_names) \<Longrightarrow> set names \<subseteq> set all_names \<Longrightarrow>
      walk_ok h fs (\<lambda>p. walk_source h fs root p \<or> other p) st'"
proof (induction h inspect root fuel path name entry st and h inspect root fuel path names st
    arbitrary: sig st' and sig st' perm all_names rule: walk_dir_walk_names.induct)
  case (1 h inspect root fuel path name entry st)
  let ?good = "\<lambda>p. walk_source h fs root p \<or> other p"
  obtain s1 st1 where v: "visit_entry h inspect root path name entry None st = (s1, st1)" by fastforce
  have good: "?good path" if "entry_of h fs path = Some e" "is_regular e" "path_ext name = ''.sando''" for e
    using "1.prems"(3,4) that by (cases entry) (auto simp: walk_source_def)
  note one = visit_entry_ok [OF v "1.prems"(2)]
  have ok: "walk_ok h fs ?good st1" using one good by blast
  have enter: "entered h fs root path" if "s1 = WalkOn" "is_directory entry"
  proof (cases "path = root")
    case True
    then show ?thesis by (simp add: entered_root)
  next
    case False
    then have "listed h fs root path name" using "1.prems"(4) by blast
    moreover have "open_directory h fs root name path" using one good that by blast
    ultimately show ?thesis
      using that(2) "1.prems"(3) by (cases entry) (auto simp: listed_def intro: entered_below)
  qed
  show ?case
  proof (cases "s1 = WalkOn \<and> is_directory entry")
    case False
    then show ?thesis using "1.prems"(1) v ok by (cases s1) (auto simp: walk_dir.simps split: if_splits)
  next
    case True
    have again: "walk_ok h fs ?good st2" if "visit_entry h inspect root path name entry (Some e) st' = (s2, st2)" "walk_ok h fs ?good st'" for e s2 st2 st'
      using visit_entry_ok [OF that] by blast
    show ?thesis
    proof (cases fuel)
      case 0
      then show ?thesis
        using "1.prems"(1) v True again [OF _ ok] by (auto simp: walk_dir.simps Let_def split: prod.splits if_splits)
    next
      case (Suc n)
      obtain r w where r: "read_dir h path (wk_world st1) = (r, w)" by fastforce
      note ok' = call_ok(4) [OF r ok]
      show ?thesis
      proof (cases r)
        case (Inl e)
        then show ?thesis
          using "1.prems"(1) v True Suc r again [OF _ ok'] by (auto simp: walk_dir.simps Let_def split: prod.splits if_splits)
      next
        case (Inr ns)
        obtain perm all_names where d: "entry_of h fs path = Some (Directory perm all_names)"
          using True "1.prems"(3) by (cases entry) auto
        have "set ns \<subseteq> set all_names"
          using r Inr d walk_ok_files [OF ok] by (auto simp: read_dir_def split: option.splits)
        moreover have "walk_names h inspect root n path ns (st1\<lparr>wk_world := w\<rparr>) = (sig, st')"
          using "1.prems"(1) v True Suc r Inr by (simp add: walk_dir.simps)
        ultimately show ?thesis
          using "1.IH" [OF v [symmetric] _ _ Suc r [symmetric] Inr] True enter ok' d by blast
      qed
    qed
  qed
next
  case (2 h inspect root fuel path st)
  then show ?case by simp
next
  case (3 h inspect root fuel path n ns st)
  let ?good = "\<lambda>p. walk_source h fs root p \<or> other p"
  show ?case
  proof (cases "entry_of h (w_files (wk_world st)) (path_join path n)")
    case None
    then show ?thesis using 3 by simp
  next
    case (Some entry)
    obtain s1 st1 where w: "walk_dir h inspect root fuel (path_join path n) n entry st = (s1, st1)" by fastforce
    have "listed h fs root (path_join path n) n"
      using "3.prems"(3-5) by (auto simp: listed_def)
    then have ok: "walk_ok h fs ?good st1"
      using "3.IH"(2) [OF Some w "3.prems"(2)] Some walk_ok_files [OF "3.prems"(2)] by simp
    show ?thesis
    proof (cases s1)
      case WalkOn
      then show ?thesis
        using "3.IH"(3) [OF Some w [symmetric] WalkOn _ ok] "3.prems" Some w by simp
    qed (use "3.prems" Some w ok in auto)
  qed
qed

lemma walk_tree_ok:
  assumes "walk_tree h inspect root st = (sig, st')"
    and ok: "walk_ok h fs (\<lambda>p. walk_source h fs root p \<or> other p) st"
    and dir: "entry_of h fs root = Some entry" "is_directory entry"
  shows "walk_ok h fs (\<lambda>p. walk_source h fs root p \<or> other p) st'"
proof -
  let ?good = "\<lambda>p. walk_source h fs root p \<or> other p"
  obtain r w where l: "lstat h root (wk_world st) = (r, w)" by fastforce
  note ok' = call_ok(1) [OF l ok]
  show ?thesis
  proof (cases r)
    case (Inl e)
    obtain s1 st1 where v: "visit_entry h inspect root root (path_base root) (SpecialFile 0) (Some e) (st\<lparr>wk_world := w\<rparr>) = (s1, st1)"
      by fastforce
    then have "walk_ok h fs ?good st1" using visit_entry_ok [OF v ok'] by blast
    then show ?thesis using assms(1) l Inl v by (auto simp: walk_tree_def)
  next
    case (Inr e)
    then have e: "e = entry" using l lstat_Inr [of h root "wk_world st" e w] walk_ok_files [OF ok] dir by simp
    obtain s1 st1 where v: "walk_dir h inspect root 4096 root (path_base root) e (st\<lparr>wk_world := w\<rparr>) = (s1, st1)"
      by fastforce
    then have "walk_ok h fs ?good st1" using walk_dir_ok(1) [OF v ok'] dir e by simp
    then show ?thesis using assms(1) l Inr v by (auto simp: walk_tree_def)
  qed
qed

text \<open>The elements of a path that must not be symbolic links.\<close>

fun ancestry :: "bytes \<Rightarrow> bytes list \<Rightarrow> bytes list" where
  "ancestry current [] = []"
| "ancestry current (c # cs) =
     (if c = [] then ancestry current cs else path_join current c # ancestry (path_join current c) cs)"

definition symlink_free :: "fs_host \<Rightarrow> files \<Rightarrow> bytes \<Rightarrow> bool" where
  "symlink_free h fs path =
     (\<exists>a. absolute_path h path = Inr a
        \<and> (\<forall>q\<in>set (ancestry ''/'' (split_on separator (trim_prefix ''/'' a))).
             \<exists>entry. entry_of h fs q = Some entry \<and> \<not> is_symlink entry))"

lemma symlink_loop_ok:
  "symlink_loop h current cs w = (r, w') \<Longrightarrow>
   w_files w' = w_files w
   \<and> (r = Inr [] \<longrightarrow> (\<forall>q\<in>set (ancestry current cs). \<exists>entry. entry_of h (w_files w) q = Some entry \<and> \<not> is_symlink entry))"
proof (induction h current cs w rule: symlink_loop.induct)
  case (1 h current w)
  then show ?case by simp
next
  case (2 h current c cs w)
  show ?case
  proof (cases "c = []")
    case True
    then show ?thesis using 2 by simp
  next
    case False
    obtain l w1 where l: "lstat h (path_join current c) w = (l, w1)" by fastforce
    show ?thesis
    proof (cases l)
      case (Inl e)
      then show ?thesis using "2.prems" l False lstat_same [OF l] by auto
    next
      case (Inr entry)
      show ?thesis
        using "2.IH"(2) [OF False refl l [symmetric] Inr] "2.prems" l False Inr lstat_same [OF l] path_join_nonempty [OF False, of current]
          lstat_Inr [of h "path_join current c" w entry w1]
        by (cases "is_symlink entry") auto
    qed
  qed
qed

lemma first_symlink_ok:
  "first_symlink_component h path w = (r, w') \<Longrightarrow>
   w_files w' = w_files w \<and> (r = Inr [] \<longrightarrow> symlink_free h (w_files w) path)"
  by (auto simp: first_symlink_component_def symlink_free_def split: sum.splits dest: symlink_loop_ok)

text \<open>What a requested path may give: itself, or the sources of the walk of its directory.\<close>

definition requested_source :: "fs_host \<Rightarrow> files \<Rightarrow> bytes \<Rightarrow> bytes \<Rightarrow> bool" where
  "requested_source h fs requested p =
     (symlink_free h fs (path_clean requested)
      \<and> (\<exists>entry. entry_of h fs (path_clean requested) = Some entry \<and> \<not> is_symlink entry
           \<and> (if is_directory entry then walk_source h fs (path_clean requested) p
              else p = path_clean requested \<and> path_ext p = ''.sando'')))"

lemma walk_ok_mono: "walk_ok h fs good st \<Longrightarrow> (\<And>p. good p \<Longrightarrow> good' p) \<Longrightarrow> walk_ok h fs good' st"
  by (auto simp: walk_ok_def list_all_iff)

lemma discover_path_ok:
  assumes ok: "walk_ok h fs good st" and good: "\<And>p. requested_source h fs requested p \<Longrightarrow> good p"
  shows "walk_ok h fs good (discover_path h inspect requested st)"
proof -
  let ?clean = "path_clean requested"
  obtain r w where f: "first_symlink_component h ?clean (wk_world st) = (r, w)" by fastforce
  have ok1: "walk_ok h fs good (st\<lparr>wk_world := w\<rparr>)" and free: "r = Inr [] \<Longrightarrow> symlink_free h fs ?clean"
    using first_symlink_ok [OF f] walk_ok_world [OF ok] walk_ok_files [OF ok] by auto
  obtain l w2 where l: "lstat h ?clean w = (l, w2)" by fastforce
  have ok2: "walk_ok h fs good (st\<lparr>wk_world := w2\<rparr>)"
    using call_ok(1) [of h ?clean "st\<lparr>wk_world := w\<rparr>" l w2 fs good] l ok1 by simp
  have entry: "entry_of h fs ?clean = Some e" if "l = Inr e" for e
    using lstat_Inr [of h ?clean w e w2] l that walk_ok_files [OF ok1] by simp
  show ?thesis
  proof (cases "r = Inr [] \<and> (\<exists>e. l = Inr e \<and> is_directory e)")
    case False
    have "walk_ok h fs good (add_source h ?clean (st\<lparr>wk_world := w2\<rparr>))"
      if "r = Inr []" "l = Inr e" "\<not> is_symlink e" "\<not> is_directory e" "path_ext ?clean = ''.sando''" for e
      using walk_ok_source [OF ok2] good [of ?clean] entry free that by (auto simp: requested_source_def)
    then show ?thesis
      using False f l ok1 ok2 by (auto simp: discover_path_def Let_def split: sum.split)
  next
    case True
    then obtain e where e: "l = Inr e" "is_directory e" "r = Inr []" by blast
    have e': "\<not> is_symlink e" using e(2) by (cases e) auto
    obtain sig st3 where t: "walk_tree h inspect ?clean (st\<lparr>wk_world := w2\<rparr>) = (sig, st3)" by fastforce
    have "walk_ok h fs (\<lambda>p. walk_source h fs ?clean p \<or> good p) st3"
      using walk_tree_ok [OF t walk_ok_mono [OF ok2] entry [OF e(1)] e(2)] by blast
    then have ok3: "walk_ok h fs good st3"
      by (rule walk_ok_mono) (use good free e e' entry in \<open>auto simp: requested_source_def\<close>)
    obtain c w4 where c: "ctx_err h (wk_world st3) = (c, w4)" by fastforce
    obtain c' w5 where c': "ctx_err h w4 = (c', w5)" by fastforce
    have "walk_ok h fs good (st3\<lparr>wk_world := w4\<rparr>)" "walk_ok h fs good (st3\<lparr>wk_world := w5\<rparr>)"
      using call_ok(3) [OF c ok3] ctx_err_files [of h w4] c' walk_ok_world [OF ok3] ctx_err_files [of h "wk_world st3"] c by auto
    then show ?thesis
      using e e' f l t c c' ok3 by (cases c) (simp_all add: discover_path_def Let_def)
  qed
qed

lemma discover_paths_ok:
  "walk_ok h fs good st \<Longrightarrow> (\<And>q p. q \<in> set paths \<Longrightarrow> requested_source h fs q p \<Longrightarrow> good p) \<Longrightarrow>
   walk_ok h fs good (discover_paths h inspect paths st)"
proof (induction h inspect paths st rule: discover_paths.induct)
  case (1 h inspect st)
  then show ?case by simp
next
  case (2 h inspect q ps st)
  obtain c w where c: "ctx_err h (wk_world st) = (c, w)" by fastforce
  note ok = call_ok(3) [OF c "2.prems"(1)]
  have "walk_ok h fs good (discover_path h inspect q (st\<lparr>wk_world := w\<rparr>))"
    by (rule discover_path_ok [OF ok]) (rule "2.prems"(2) [of q], simp_all)
  then show ?case
    using "2.IH" [OF c [symmetric]] "2.prems"(2) c ok by (cases c) auto
qed

lemma discover_result:
  assumes "discover_with_options h inspect paths w = ((found, ds), w')"
  shows "w_files w' = w_files w
    \<and> (\<forall>p\<in>set found. \<exists>q\<in>set (if paths = [] then [''.''] else paths). requested_source h (w_files w) q p)
    \<and> sorted (map (resolve h) found) \<and> distinct (map (resolve h) found) \<and> sorted (map diag_key ds)"
proof -
  let ?paths = "if paths = [] then [''.''] else paths"
  let ?good = "\<lambda>p. \<exists>q\<in>set ?paths. requested_source h (w_files w) q p"
  define st where "st = discover_paths h inspect ?paths \<lparr>wk_world = w, wk_found = [], wk_diagnostics = []\<rparr>"
  have ok: "walk_ok h (w_files w) ?good st"
    unfolding st_def by (rule discover_paths_ok) (auto simp: walk_ok_def)
  define absolutes where "absolutes = sort (map fst (wk_found st))"
  define chosen where "chosen = map (\<lambda>a. the (map_of (wk_found st) a)) absolutes"
  have r: "found = sort_key (absolute_or_empty h) chosen" "ds = sort_diagnostics (wk_diagnostics st)" "w' = wk_world st"
    using assms by (auto simp: discover_with_options_def Let_def st_def chosen_def absolutes_def)
  have pick: "absolute_path h (the (map_of (wk_found st) a)) = Inr a \<and> ?good (the (map_of (wk_found st) a))"
    if a: "a \<in> set absolutes" for a
  proof -
    obtain p where p: "map_of (wk_found st) a = Some p"
      using a by (cases "map_of (wk_found st) a") (auto simp: absolutes_def map_of_eq_None_iff)
    then have "(a, p) \<in> set (wk_found st)" by (rule map_of_SomeD)
    then show ?thesis using ok p by (auto simp: walk_ok_def list_all_iff)
  qed
  have abs: "map (absolute_or_empty h) chosen = absolutes"
    using pick by (simp add: chosen_def absolute_or_empty_def map_idI)
  have eq: "found = chosen"
    unfolding r(1) by (rule sort_key_id_if_sorted) (simp add: abs absolutes_def)
  have loc: "map (resolve h) chosen = absolutes"
  proof -
    have "absolute_path h p = Inr a \<Longrightarrow> resolve h p = a" for p a
      by (auto simp: absolute_path_def split: option.splits if_splits)
    then show ?thesis using pick by (simp add: chosen_def map_idI)
  qed
  have "distinct absolutes" using ok by (simp add: absolutes_def walk_ok_def)
  then show ?thesis
    using ok pick loc eq r by (auto simp: walk_ok_def absolutes_def chosen_def sort_diagnostics_def)
qed

text \<open>
  C27: Discovery finds only what it may, whatever fails on the way. The files are left as they are.
  Every source found is a requested path of its own (a \<open>.sando\<close> file with no symbolic link in its
  ancestry) or a regular \<open>.sando\<close> file in a directory the walk of a requested directory may enter:
  below it through directories that are neither excluded, nor on another file system, nor a
  repository, nor a module of their own, nor links. The sources come in the order of their absolute
  paths, no file twice, and the diagnostics are sorted.
\<close>
theorem discover_sound:
  assumes "discover_with_options h inspect paths w = ((found, ds), w')"
  shows "w_files w' = w_files w
    \<and> (\<forall>p\<in>set found. \<exists>q\<in>set (if paths = [] then [''.''] else paths). requested_source h (w_files w) q p)
    \<and> sorted (map (resolve h) found) \<and> distinct (map (resolve h) found) \<and> sorted (map diag_key ds)"
  by (rule discover_result [OF assms])

subsection \<open>An example\<close>

definition sample_host :: fs_host where
  "sample_host = \<lparr>host_fault = \<lambda>_. None, host_ctx = \<lambda>_. None, host_dir = ''/d'', host_getwd_error = None,
     host_random = \<lambda>t. t, host_short = \<lambda>_. 0, host_system = \<lambda>_. DeviceUnsigned 1\<rparr>"

definition sample_world :: world where
  "sample_world = \<lparr>w_files = [''/d'' \<mapsto> Directory 493 [''v'', ''a.sando'', ''vendor''],
     ''/d/a.sando'' \<mapsto> RegularFile 420 ''x'', ''/d/v'' \<mapsto> Directory 493 [''go.mod'', ''b.sando''],
     ''/d/v/go.mod'' \<mapsto> RegularFile 420 [], ''/d/v/b.sando'' \<mapsto> RegularFile 420 [],
     ''/d/vendor'' \<mapsto> Directory 493 [''c.sando''], ''/d/vendor/c.sando'' \<mapsto> RegularFile 420 []],
     w_clock = 0\<rparr>"

declare first_symlink_component_def [go_eval] has_generated_marker_def [go_eval] file_problem_def [go_eval]
  inspect_owned_generated_output_def [go_eval] excluded_directories_def [go_eval] add_diagnostic_def [go_eval]
  add_source_def [go_eval] check_module_def [go_eval] check_directory_def [go_eval] visit_generated_def [go_eval]
  visit_source_def [go_eval] visit_entry_def [go_eval] walk_dir.simps [go_eval] walk_tree_def [go_eval]
  discover_path_def [go_eval] absolute_or_empty_def [go_eval] discover_with_options_def [go_eval]
  discover_def [go_eval] discover_sources_def [go_eval] same_filesystem_def [go_eval]

lemma sample_discovery:
  "fst (discover_with_options sample_host True [] sample_world) = ([''a.sando''], [])"
  by (simp add: sample_host_def sample_world_def go_eval)

theorem discover_sound_witness:
  "\<exists>w'. discover_with_options sample_host True [] sample_world = (([''a.sando''], []), w')
     \<and> w_files w' = w_files sample_world
     \<and> requested_source sample_host (w_files sample_world) ''.'' ''a.sando''"
proof -
  obtain w' where r: "discover_with_options sample_host True [] sample_world = (([''a.sando''], []), w')"
    using sample_discovery by (metis prod.collapse)
  then show ?thesis using discover_sound [OF r] by simp
qed

subsection \<open>Nothing is missed\<close>

text \<open>A host on which no call fails, nothing is canceled and the working directory is known.\<close>

definition quiet_host :: "'d host \<Rightarrow> bool" where
  "quiet_host h = ((\<forall>t. host_fault h t = None \<and> host_ctx h t = None) \<and> host_getwd_error h = None)"

text \<open>The sources within a number of levels below an entered directory.\<close>

inductive source_below :: "fs_host \<Rightarrow> files \<Rightarrow> bytes \<Rightarrow> nat \<Rightarrow> bytes \<Rightarrow> bytes \<Rightarrow> bool" for h fs root where
  below_file: "entry_of h fs dir = Some (Directory perm names) \<Longrightarrow> name \<in> set names \<Longrightarrow>
    entry_of h fs (path_join dir name) = Some (RegularFile perm' content) \<Longrightarrow> path_ext name = ''.sando'' \<Longrightarrow>
    source_below h fs root (Suc n) dir (path_join dir name)"
| below_directory: "entry_of h fs dir = Some (Directory perm names) \<Longrightarrow> name \<in> set names \<Longrightarrow>
    entry_of h fs (path_join dir name) = Some (Directory perm' names') \<Longrightarrow>
    open_directory h fs root name (path_join dir name) \<Longrightarrow>
    source_below h fs root n (path_join dir name) p \<Longrightarrow> source_below h fs root (Suc n) dir p"

definition found_key :: "walk_state \<Rightarrow> bytes \<Rightarrow> bool" where
  "found_key st a = (a \<in> fst ` set (wk_found st))"

lemma quiet_calls:
  assumes "quiet_host h"
  shows "lstat h path w = (case entry_of h (w_files w) path of None \<Rightarrow> Inl (no_such_file ''lstat'' path) | Some e \<Rightarrow> Inr e, tick w)"
    and "ctx_err h w = (None, tick w)" and "absolute_path h path = Inr (resolve h path)"
    and "read_dir h path w = (case entry_of h (w_files w) path of
        None \<Rightarrow> Inl (no_such_file ''open'' path)
      | Some (Directory perm names) \<Rightarrow> Inr (sort (filter (\<lambda>n. entry_of h (w_files w) (path_join path n) \<noteq> None) names))
      | Some _ \<Rightarrow> Inl (OsFailure (''readdirent '' @ path @ '': not a directory'')), tick w)"
  using assms
  by (auto simp: quiet_host_def lstat_def ctx_err_def absolute_path_def read_dir_def split: option.split fs_entry.split)

lemma fst_update: "fst ` set (AList.update k v al) = insert k (fst ` set al)"
  by (simp add: dom_map_of_conv_image_fst [symmetric] update_conv')

lemma found_key_add [simp]: "found_key (add_diagnostic d st) a = found_key st a"
  by (simp add: found_key_def add_diagnostic_def)

lemma found_key_world [simp]: "found_key (st\<lparr>wk_world := w\<rparr>) a = found_key st a"
  by (simp add: found_key_def)

lemma found_key_source: "found_key st a \<Longrightarrow> found_key (add_source h path st) a"
  by (auto simp: found_key_def add_source_def add_diagnostic_def fst_update split: sum.split)

lemma check_markers_keys: "check_markers h path ms st = (sig, st') \<Longrightarrow> wk_found st' = wk_found st"
  by (induction h path ms st arbitrary: sig st' rule: check_markers.induct)
    (auto simp: add_diagnostic_def split: prod.splits sum.splits if_splits)

lemma check_module_keys: "check_module h path st = (sig, st') \<Longrightarrow> wk_found st' = wk_found st"
  by (auto simp: check_module_def add_diagnostic_def Let_def split: prod.splits sum.splits if_splits)

lemma check_directory_keys: "check_directory h root path st = (sig, st') \<Longrightarrow> wk_found st' = wk_found st"
  by (auto simp: check_directory_def add_diagnostic_def Let_def split: prod.splits sum.splits if_splits walk_signal.splits
      dest!: check_markers_keys check_module_keys)

lemma visit_entry_keys:
  "visit_entry h inspect root path name entry err st = (sig, st') \<Longrightarrow> found_key st a \<Longrightarrow> found_key st' a"
  by (auto simp: visit_entry_def visit_generated_def visit_source_def Let_def found_key_source
      split: prod.splits option.splits if_splits sum.splits dest!: check_directory_keys)
    (auto simp: found_key_def)

lemma walk_dir_keys:
  shows "walk_dir h inspect root fuel path name entry st = (sig, st') \<Longrightarrow> found_key st a \<Longrightarrow> found_key st' a"
    and "walk_names h inspect root fuel path names st = (sig, st') \<Longrightarrow> found_key st a \<Longrightarrow> found_key st' a"
proof (induction h inspect root fuel path name entry st and h inspect root fuel path names st
    arbitrary: sig st' and sig st' rule: walk_dir_walk_names.induct)
  case (1 h inspect root fuel path name entry st)
  then show ?case
    by (simp add: walk_dir.simps Let_def split: prod.splits walk_signal.splits if_splits nat.splits sum.splits)
      (auto dest: visit_entry_keys intro: visit_entry_keys [OF _ found_key_world [THEN iffD2]])
next
  case (2 h inspect root fuel path st)
  then show ?case by simp
next
  case (3 h inspect root fuel path n ns st)
  then show ?case by (auto split: prod.splits walk_signal.splits option.splits)
qed


lemma quiet_markers:
  "quiet_host h \<Longrightarrow> w_files (wk_world st) = fs \<Longrightarrow> \<forall>m\<in>set ms. entry_of h fs (path_join path m) = None \<Longrightarrow>
   \<exists>w. check_markers h path ms st = (WalkOn, st\<lparr>wk_world := w\<rparr>) \<and> w_files w = fs"
proof (induction ms arbitrary: st)
  case Nil
  show ?case using Nil by (intro exI [of _ "wk_world st"]) simp
next
  case (Cons m ms)
  have "\<exists>w. check_markers h path ms (st\<lparr>wk_world := tick (wk_world st)\<rparr>)
      = (WalkOn, (st\<lparr>wk_world := tick (wk_world st)\<rparr>)\<lparr>wk_world := w\<rparr>) \<and> w_files w = fs"
    by (rule Cons.IH) (use Cons.prems in auto)
  then show ?case using Cons.prems by (simp add: quiet_calls no_such_file_def)
qed

lemma quiet_check_directory:
  assumes quiet: "quiet_host h" and fs: "w_files (wk_world st) = fs" and "entry_of h fs path = Some entry"
    and "open_directory h fs root name path" "path \<noteq> root"
  shows "\<exists>w. check_directory h root path st = (WalkOn, st\<lparr>wk_world := w\<rparr>) \<and> w_files w = fs"
proof -
  obtain w where w: "check_markers h path [''.git'', ''.hg'', ''.svn''] (st\<lparr>wk_world := tick (wk_world st)\<rparr>)
      = (WalkOn, (st\<lparr>wk_world := tick (wk_world st)\<rparr>)\<lparr>wk_world := w\<rparr>)" "w_files w = fs"
    using quiet_markers [OF quiet, of "st\<lparr>wk_world := tick (wk_world st)\<rparr>" fs "[''.git'', ''.hg'', ''.svn'']" path] assms
    by (auto simp: open_directory_def)
  then show ?thesis
    using assms by (auto simp: check_directory_def check_module_def open_directory_def quiet_calls no_such_file_def Let_def)
qed

lemma quiet_visit_directory:
  assumes quiet: "quiet_host h" and fs: "w_files (wk_world st) = fs" and "entry_of h fs path = Some entry" "is_directory entry"
    and "open_directory h fs root name path"
  shows "\<exists>w. visit_entry h inspect root path name entry None st = (WalkOn, st\<lparr>wk_world := w\<rparr>) \<and> w_files w = fs"
proof (cases "path = root")
  case True
  then show ?thesis
    using assms by (cases entry) (auto simp: visit_entry_def quiet_calls Let_def intro: exI [of _ "tick (wk_world st)"])
next
  case False
  then have "name \<notin> set excluded_directories" using assms(5) by (simp add: open_directory_def)
  then show ?thesis
    using quiet_check_directory [OF quiet, of "st\<lparr>wk_world := tick (wk_world st)\<rparr>" fs path entry root name] assms False
    by (cases entry) (auto simp: visit_entry_def quiet_calls Let_def)
qed

lemma last_index_of_absent: "c \<notin> set e \<Longrightarrow> last_index_of [c] e = None"
  by (induction e) auto

lemma last_index_of_final: "c \<notin> set e \<Longrightarrow> last_index_of [c] (b @ c # e) = Some (length b)"
  by (induction b) (auto simp: last_index_of_absent)

lemma path_ext_append:
  assumes "separator \<notin> set e" and "CHR ''.'' \<notin> set e"
  shows "path_ext (p @ CHR ''.'' # e) = CHR ''.'' # e"
proof -
  let ?b = "rev (takeWhile (\<lambda>b. b \<noteq> separator) (rev p))"
  have "takeWhile (\<lambda>b. b \<noteq> separator) ((rev e @ [CHR ''.'']) @ rev p)
      = (rev e @ [CHR ''.'']) @ takeWhile (\<lambda>b. b \<noteq> separator) (rev p)"
    by (rule takeWhile_append2) (use assms(1) in auto)
  then have "rev (takeWhile (\<lambda>b. b \<noteq> separator) (rev (p @ CHR ''.'' # e))) = ?b @ CHR ''.'' # e"
    by simp
  then show ?thesis
    using last_index_of_final [OF assms(2), of ?b] by (simp add: path_ext_def)
qed

lemma quiet_visit_source:
  assumes quiet: "quiet_host h" and fs: "w_files (wk_world st) = fs" and "entry_of h fs path = Some (RegularFile perm content)"
    and ext: "path_ext name = ''.sando''" and v: "visit_entry h inspect root path name (RegularFile perm content) None st = (sig, st')"
  shows "found_key st' (resolve h path)"
proof -
  have "\<not> has_suffix ''.sando.go'' name"
  proof
    assume "has_suffix ''.sando.go'' name"
    then obtain pre where n: "name = pre @ ''.sando'' @ ''.go''" by (auto simp: has_suffix_iff)
    then show False using ext path_ext_append [of "''go''" "pre @ ''.sando''"] by simp
  qed
  then show ?thesis
    using v assms by (auto simp: visit_entry_def visit_source_def quiet_calls Let_def add_source_def found_key_def fst_update)
qed

lemma quiet_visit_signal:
  assumes "quiet_host h" and v: "visit_entry h inspect root path name entry err st = (sig, st')" and ok: "walk_ok h fs good st"
  shows "sig \<noteq> WalkStop"
proof (cases "err = None \<and> path \<noteq> root \<and> is_directory entry \<and> name \<notin> set excluded_directories")
  case True
  then have "check_directory h root path (st\<lparr>wk_world := tick (wk_world st)\<rparr>) = (sig, st')"
    using v assms(1) by (cases entry) (auto simp: visit_entry_def quiet_calls Let_def)
  then show ?thesis
    using check_directory_ok [of h root path _ sig st' fs good name] True walk_ok_world [OF ok] by auto
next
  case False
  then show ?thesis
    using v assms(1) by (cases entry) (auto simp: visit_entry_def quiet_calls Let_def split: option.splits if_splits)
qed

lemma quiet_walk:
  assumes quiet: "quiet_host h"
  shows "walk_dir h inspect root fuel path name entry st = (sig, st') \<Longrightarrow> walk_ok h fs (\<lambda>p. True) st \<Longrightarrow>
      entry_of h fs path = Some entry \<Longrightarrow>
      sig = WalkOn \<and> walk_ok h fs (\<lambda>p. True) st'
      \<and> (is_directory entry \<longrightarrow> open_directory h fs root name path \<longrightarrow>
          (\<forall>p. source_below h fs root fuel path p \<longrightarrow> found_key st' (resolve h p)))
      \<and> (\<forall>perm content. entry = RegularFile perm content \<longrightarrow> path_ext name = ''.sando'' \<longrightarrow> found_key st' (resolve h path))"
    and "walk_names h inspect root fuel path names st = (sig, st') \<Longrightarrow> walk_ok h fs (\<lambda>p. True) st \<Longrightarrow>
      sig = WalkOn \<and> walk_ok h fs (\<lambda>p. True) st'
      \<and> (\<forall>name\<in>set names. (\<forall>perm content. entry_of h fs (path_join path name) = Some (RegularFile perm content) \<longrightarrow>
              path_ext name = ''.sando'' \<longrightarrow> found_key st' (resolve h (path_join path name)))
           \<and> (\<forall>perm ns p. entry_of h fs (path_join path name) = Some (Directory perm ns) \<longrightarrow>
              open_directory h fs root name (path_join path name) \<longrightarrow>
              source_below h fs root fuel (path_join path name) p \<longrightarrow> found_key st' (resolve h p)))"
  using quiet
proof (induction h inspect root fuel path name entry st and h inspect root fuel path names st
    arbitrary: sig st' and sig st' rule: walk_dir_walk_names.induct)
  case (1 h inspect root fuel path name entry st)
  obtain s1 st1 where v: "visit_entry h inspect root path name entry None st = (s1, st1)" by fastforce
  have ok: "walk_ok h fs (\<lambda>p. True) st1" and dirs: "\<not> is_directory entry \<longrightarrow> s1 \<noteq> SkipDir"
    using visit_entry_ok [OF v "1.prems"(2)] by auto
  note go = quiet_visit_signal [OF "1.prems"(4) v "1.prems"(2)]
  note fs = walk_ok_files [OF "1.prems"(2)]
  show ?case
  proof (cases "is_directory entry")
    case False
    then have "s1 = WalkOn" using dirs go by (cases s1) auto
    then show ?thesis
      using False "1.prems"(1) v ok quiet_visit_source [OF "1.prems"(4) fs]
        "1.prems"(3) by (auto simp: walk_dir.simps)
  next
    case True
    then obtain perm ns where d: "entry = Directory perm ns" by (cases entry) auto
    have opened: "open_directory h fs root name path \<Longrightarrow> s1 = WalkOn"
      using quiet_visit_directory [OF "1.prems"(4) fs "1.prems"(3) True, of root name inspect] v by auto
    show ?thesis
    proof (cases s1)
      case SkipDir
      then show ?thesis using "1.prems"(1) v d opened ok by (auto simp: walk_dir.simps)
    next
      case WalkStop
      then show ?thesis using go by simp
    next
      case WalkOn
      show ?thesis
      proof (cases fuel)
        case 0
        obtain s2 st2 where v2: "visit_entry h inspect root path name entry (Some (OsFailure ''file name too long'')) st1 = (s2, st2)"
          by fastforce
        have "\<not> source_below h fs root 0 path p" for p by (auto elim: source_below.cases)
        then show ?thesis
          using "1.prems"(1) v WalkOn 0 d v2 visit_entry_ok [OF v2 ok] quiet_visit_signal [OF "1.prems"(4) v2 ok]
          by (cases s2) (auto simp: walk_dir.simps)
      next
        case (Suc n)
        let ?names = "sort (filter (\<lambda>n. entry_of h fs (path_join path n) \<noteq> None) ns)"
        have r: "read_dir h path (wk_world st1) = (Inr ?names, tick (wk_world st1))"
          using "1.prems"(3) d walk_ok_files [OF ok] by (simp add: quiet_calls [OF "1.prems"(4)])
        have w: "walk_names h inspect root n path ?names (st1\<lparr>wk_world := tick (wk_world st1)\<rparr>) = (sig, st')"
          using "1.prems"(1) v WalkOn Suc d r by (simp add: walk_dir.simps)
        have ok': "walk_ok h fs (\<lambda>p. True) (st1\<lparr>wk_world := tick (wk_world st1)\<rparr>)"
          by (rule walk_ok_world [OF ok]) simp
        note below = "1.IH" [OF v [symmetric] WalkOn _ Suc r [symmetric] refl w ok' "1.prems"(4), simplified d]
        have "found_key st' (resolve h p)" if "source_below h fs root (Suc n) path p" for p
          using that
        proof cases
          case (below_file perm' names name' perm'' content)
          then show ?thesis using below "1.prems"(3) d by auto
        next
          case (below_directory perm' names name' perm'' names')
          then show ?thesis using below "1.prems"(3) d by auto
        qed
        then show ?thesis using below Suc d by auto
      qed
    qed
  qed
next
  case (2 h inspect root fuel path st)
  then show ?case by (simp add: walk_ok_def)
next
  case (3 h inspect root fuel path n ns st)
  show ?case
  proof (cases "entry_of h (w_files (wk_world st)) (path_join path n)")
    case None
    then have w: "walk_names h inspect root fuel path ns st = (sig, st')" using "3.prems"(1) by simp
    show ?thesis
      using "3.IH"(1) [OF None w "3.prems"(2,3)] None walk_ok_files [OF "3.prems"(2)] by simp
  next
    case (Some entry)
    then have at: "entry_of h fs (path_join path n) = Some entry" using walk_ok_files [OF "3.prems"(2)] by simp
    obtain s1 st1 where w: "walk_dir h inspect root fuel (path_join path n) n entry st = (s1, st1)" by fastforce
    note one = "3.IH"(2) [OF Some w "3.prems"(2) at "3.prems"(3)]
    then have w': "walk_names h inspect root fuel path ns st1 = (sig, st')"
      using "3.prems"(1) Some w by simp
    note more = "3.IH"(3) [OF Some w [symmetric] _ w' _ "3.prems"(3)]
    have keys: "found_key st1 a \<Longrightarrow> found_key st' a" for a
      using walk_dir_keys(2) [OF w'] by blast
    show ?thesis
      using one more keys at by (cases entry) auto
  qed
qed

lemma quiet_symlink_loop:
  "quiet_host h \<Longrightarrow> \<forall>q\<in>set (ancestry current cs). \<exists>entry. entry_of h (w_files w) q = Some entry \<and> \<not> is_symlink entry \<Longrightarrow>
   fst (symlink_loop h current cs w) = Inr []"
proof (induction h current cs w rule: symlink_loop.induct)
  case (2 h current c cs w)
  then show ?case by (cases "c = []") (auto simp: quiet_calls)
qed simp

lemma quiet_first_symlink:
  assumes "quiet_host h" and "symlink_free h (w_files w) path"
  shows "fst (first_symlink_component h path w) = Inr []"
  using assms quiet_symlink_loop by (auto simp: first_symlink_component_def symlink_free_def)

lemma walk_tree_keys: "walk_tree h inspect root st = (sig, st') \<Longrightarrow> found_key st a \<Longrightarrow> found_key st' a"
  by (auto simp: walk_tree_def Let_def split: prod.splits sum.splits if_splits
      intro: visit_entry_keys [OF _ found_key_world [THEN iffD2]] walk_dir_keys(1) [OF _ found_key_world [THEN iffD2]])

lemma discover_path_keys: "found_key st a \<Longrightarrow> found_key (discover_path h inspect q st) a"
  by (auto simp: discover_path_def Let_def found_key_source split: prod.splits sum.splits option.splits
      dest: walk_tree_keys [OF _ found_key_world [THEN iffD2]])

lemma discover_paths_keys: "found_key st a \<Longrightarrow> found_key (discover_paths h inspect qs st) a"
  by (induction h inspect qs st rule: discover_paths.induct) (auto simp: discover_path_keys split: prod.splits option.splits)

text \<open>What a requested path must give.\<close>

definition due_source :: "fs_host \<Rightarrow> files \<Rightarrow> bytes \<Rightarrow> bytes \<Rightarrow> bool" where
  "due_source h fs requested p =
     (let clean = path_clean requested in
      symlink_free h fs clean
      \<and> (\<exists>entry. entry_of h fs clean = Some entry \<and> \<not> is_symlink entry
           \<and> (if is_directory entry then source_below h fs clean 4096 clean p
              else p = clean \<and> path_ext p = ''.sando'')))"

lemma quiet_discover_path:
  assumes quiet: "quiet_host h" and ok: "walk_ok h fs (\<lambda>p. True) st" and due: "due_source h fs q p"
  shows "found_key (discover_path h inspect q st) (resolve h p)"
proof -
  let ?clean = "path_clean q"
  obtain entry where entry: "entry_of h fs ?clean = Some entry" "\<not> is_symlink entry" "symlink_free h fs ?clean"
    and what: "if is_directory entry then source_below h fs ?clean 4096 ?clean p else p = ?clean \<and> path_ext p = ''.sando''"
    using due by (auto simp: due_source_def Let_def)
  obtain r w where f: "first_symlink_component h ?clean (wk_world st) = (r, w)" by fastforce
  have r: "r = Inr []" and files: "w_files w = fs"
    using quiet_first_symlink [OF quiet, of "wk_world st" ?clean] f entry(3) walk_ok_files [OF ok] first_symlink_ok [OF f] by auto
  have l: "lstat h ?clean w = (Inr entry, tick w)" using entry(1) files by (simp add: quiet_calls [OF quiet])
  show ?thesis
  proof (cases "is_directory entry")
    case False
    then have "p = ?clean" "path_ext ?clean = ''.sando''" using what by auto
    then show ?thesis
      using f r l entry(2) False
      by (simp add: discover_path_def Let_def add_source_def quiet_calls [OF quiet] found_key_def fst_update)
  next
    case True
    let ?st = "st\<lparr>wk_world := tick (tick w)\<rparr>"
    have ok': "walk_ok h fs (\<lambda>p. True) ?st" using walk_ok_world [OF ok] files walk_ok_files [OF ok] by simp
    obtain sig st2 where w: "walk_dir h inspect ?clean 4096 ?clean (path_base ?clean) entry ?st = (sig, st2)" by fastforce
    have "open_directory h fs ?clean (path_base ?clean) ?clean" by (simp add: open_directory_def)
    then have walked: "sig = WalkOn" "found_key st2 (resolve h p)"
      using quiet_walk(1) [OF quiet w ok' entry(1)] True what by auto
    have "walk_tree h inspect ?clean (st\<lparr>wk_world := tick w\<rparr>) = (WalkOn, st2)"
      using w walked(1) entry(1) files by (simp add: walk_tree_def quiet_calls [OF quiet])
    then show ?thesis
      using f r l entry(2) True walked by (simp add: discover_path_def Let_def)
  qed
qed

lemma quiet_discover_paths:
  assumes quiet: "quiet_host h"
  shows "walk_ok h fs (\<lambda>p. True) st \<Longrightarrow> q \<in> set qs \<Longrightarrow> due_source h fs q p \<Longrightarrow>
   found_key (discover_paths h inspect qs st) (resolve h p)"
proof (induction qs arbitrary: st)
  case (Cons q' qs)
  let ?st = "discover_path h inspect q' (st\<lparr>wk_world := tick (wk_world st)\<rparr>)"
  have ok: "walk_ok h fs (\<lambda>p. True) (st\<lparr>wk_world := tick (wk_world st)\<rparr>)"
    by (rule walk_ok_world [OF Cons.prems(1)]) simp
  have "walk_ok h fs (\<lambda>p. True) ?st" by (rule discover_path_ok [OF ok]) simp
  then show ?case
    using Cons quiet_discover_path [OF quiet ok, of q' p] discover_paths_keys [of ?st]
    by (auto simp: quiet_calls [OF quiet])
qed simp

text \<open>
  C28: Discovery misses nothing. On a host where no call fails and nothing is canceled, every requested
  \<open>.sando\<close> file, and every regular \<open>.sando\<close> file at most 4096 levels below a requested directory
  through directories the walk may enter, is among the sources found (as itself, or as another path
  of the same file).
\<close>
theorem discover_complete:
  assumes "quiet_host h" and "discover_with_options h inspect paths w = ((found, ds), w')"
    and "q \<in> set (if paths = [] then [''.''] else paths)" and "due_source h (w_files w) q p"
  shows "\<exists>p'\<in>set found. resolve h p' = resolve h p"
proof -
  let ?paths = "if paths = [] then [''.''] else paths"
  let ?start = "\<lparr>wk_world = w, wk_found = [], wk_diagnostics = []\<rparr>"
  define st where "st = discover_paths h inspect ?paths ?start"
  have start: "walk_ok h (w_files w) (\<lambda>p. True) ?start" by (simp add: walk_ok_def)
  have ok: "walk_ok h (w_files w) (\<lambda>p. True) st"
    unfolding st_def by (rule discover_paths_ok [OF start]) simp
  have "found_key st (resolve h p)"
    unfolding st_def by (rule quiet_discover_paths [OF assms(1) start assms(3,4)])
  then have key: "resolve h p \<in> fst ` set (wk_found st)" by (simp add: found_key_def)
  then obtain p' where p': "map_of (wk_found st) (resolve h p) = Some p'"
    by (metis map_of_eq_None_iff option.exhaust)
  then have "absolute_path h p' = Inr (resolve h p)"
    using ok map_of_SomeD [OF p'] by (auto simp: walk_ok_def list_all_iff)
  moreover have "p' \<in> set found"
    using assms(2) key p' by (force simp: discover_with_options_def Let_def st_def [symmetric])
  ultimately show ?thesis using quiet_calls(3) [OF assms(1), of p'] by auto
qed

theorem discover_complete_witness:
  "due_source sample_host (w_files sample_world) ''.'' ''a.sando''
   \<and> (\<exists>p'\<in>set (fst (fst (discover_with_options sample_host True [] sample_world))).
        resolve sample_host p' = ''/d/a.sando'')"
proof -
  have quiet: "quiet_host sample_host" by (simp add: quiet_host_def sample_host_def)
  have "source_below sample_host (w_files sample_world) ''.'' (Suc 4095) ''.'' (path_join ''.'' ''a.sando'')"
    by (rule below_file [where perm = 493 and names = "[''v'', ''a.sando'', ''vendor'']" and perm' = 420 and content = "''x''"])
      (simp_all add: sample_host_def sample_world_def go_eval)
  then have due: "due_source sample_host (w_files sample_world) ''.'' ''a.sando''"
    by (simp add: due_source_def symlink_free_def sample_host_def sample_world_def go_eval)
  obtain found ds w' where r: "discover_with_options sample_host True [] sample_world = ((found, ds), w')"
    by (metis prod.collapse)
  have "\<exists>p'\<in>set found. resolve sample_host p' = resolve sample_host ''a.sando''"
    by (rule discover_complete [OF quiet r _ due]) simp
  moreover have "resolve sample_host ''a.sando'' = ''/d/a.sando''" by (simp add: sample_host_def go_eval)
  ultimately show ?thesis using due r by simp
qed
end
