(* ===== verification/Template_Lexer.thy ===== *)
theory Template_Lexer
  imports Renderer_IR
begin

section \<open>Template tags: findGoDelimiter and tokenizeTemplate of internal/compiler/parse.go\<close>

text \<open>
  How a template is cut into text and tags. A tag ends at the first delimiter outside Go string
  literals, rune literals, raw strings and comments; \<open>go_code\<close> is the grammar of what may stand
  before it, and the theorems show that the scanner finds exactly the end of such a text. Go's
  expression parser is the parameter \<open>parse_expr\<close>: it gives the error of an expression, if any.
\<close>

subsection \<open>findGoDelimiter\<close>

datatype go_lexical =
  LexNormal | LexString | LexRune | LexRawString | LexLineComment | LexBlockComment

definition next_byte :: "bytes \<Rightarrow> byte" where
  "next_byte s = (case s of [] \<Rightarrow> CHR 0x00 | n # _ \<Rightarrow> n)"

function find_loop :: "go_lexical \<Rightarrow> bool \<Rightarrow> nat \<Rightarrow> bytes \<Rightarrow> nat option" where
  "find_loop state escaped index [] = None"
| "find_loop state escaped index (b # s) =
     (case state of
        LexNormal \<Rightarrow>
          (if b = CHR ''?'' \<and> next_byte s = CHR ''>'' then Some index
           else if b = CHR 0x22 then find_loop LexString False (Suc index) s
           else if b = CHR 0x27 then find_loop LexRune False (Suc index) s
           else if b = CHR 0x60 then find_loop LexRawString escaped (Suc index) s
           else if b = CHR ''/'' \<and> next_byte s = CHR ''/''
             then find_loop LexLineComment escaped (index + 2) (tl s)
           else if b = CHR ''/'' \<and> next_byte s = CHR ''*''
             then find_loop LexBlockComment escaped (index + 2) (tl s)
           else find_loop LexNormal escaped (Suc index) s)
      | LexRawString \<Rightarrow>
          find_loop (if b = CHR 0x60 then LexNormal else LexRawString) escaped (Suc index) s
      | LexLineComment \<Rightarrow>
          find_loop (if b = LF then LexNormal else LexLineComment) escaped (Suc index) s
      | LexBlockComment \<Rightarrow>
          (if b = CHR ''*'' \<and> next_byte s = CHR ''/''
           then find_loop LexNormal escaped (index + 2) (tl s)
           else find_loop LexBlockComment escaped (Suc index) s)
      | _ \<Rightarrow>
          (if escaped then find_loop state False (Suc index) s
           else if b = CHR 0x5C then find_loop state True (Suc index) s
           else if state = LexString \<and> b = CHR 0x22 \<or> state = LexRune \<and> b = CHR 0x27
             then find_loop LexNormal escaped (Suc index) s
           else find_loop state escaped (Suc index) s))"
  by pat_completeness auto
termination
  by (relation "measure (\<lambda>(st, e, i, s). length s)") auto

declare find_loop.simps(2) [simp del]

definition find_go_delimiter :: "bytes \<Rightarrow> nat \<Rightarrow> nat option" where
  "find_go_delimiter source start = find_loop LexNormal False start (drop start source)"

subsection \<open>tokenizeTemplate\<close>

datatype go_error = ErrorList "(nat \<times> bytes) list" | OtherError bytes

definition expression_diagnostics ::
  "bytes \<Rightarrow> go_error \<Rightarrow> source_position \<Rightarrow> position_table \<Rightarrow> nat \<Rightarrow> diagnostic list" where
  "expression_diagnostics path err fallback table offset =
     (case err of
        ErrorList errors \<Rightarrow>
          map (\<lambda>(at, message). new_diagnostic path (position_at table (int (offset + at))) ''HIM1210''
                 (''invalid Go expression: '' @ message)) errors
      | OtherError message \<Rightarrow>
          [new_diagnostic path fallback ''HIM1210'' (''invalid Go expression: '' @ trim_space message)])"

definition text_node :: "position_table \<Rightarrow> nat \<Rightarrow> bytes \<Rightarrow> renderer_node" where
  "text_node table offset content =
     \<lparr>node_kind = NodeText, node_text = content, node_context = ContextUnset,
      node_pos = position_at table (int offset)\<rparr>"

text \<open>The kind of a tag and the length of its marker, from the bytes between the delimiters.\<close>

fun tag_kind :: "bytes \<Rightarrow> node_kind \<times> nat" where
  "tag_kind [] = (NodeStatement, 0)"
| "tag_kind (b # s) =
     (if b = CHR ''='' then (NodeExpression, 1)
      else if b = CHR ''~'' then (NodeComponent, 1)
      else if b = CHR ''#'' then (NodeComment, 1)
      else (NodeStatement, 0))"

definition ascii_blank :: bytes where
  "ascii_blank = [CHR '' '', CHR 0x09, CHR 0x0D, CHR 0x0A]"

text \<open>
  One tag: \<open>offset\<close> is where its opening delimiter stands in the source, \<open>inner\<close> the bytes
  between the delimiters.
\<close>

definition template_tag ::
  "(bytes \<Rightarrow> go_error option) \<Rightarrow> bytes \<Rightarrow> position_table \<Rightarrow> nat \<Rightarrow> bytes
   \<Rightarrow> renderer_node list \<times> diagnostic list" where
  "template_tag parse_expr path table offset inner =
     (let kind = fst (tag_kind inner);
          content = drop (snd (tag_kind inner)) inner;
          trimmed = trim_space content;
          leading = length content - length (trim_left ascii_blank content);
          at = offset + 2 + snd (tag_kind inner) + leading;
          position = position_at table (int at);
          node = \<lparr>node_kind = kind, node_text = trimmed, node_context = ContextNone, node_pos = position\<rparr>
      in if has_prefix ''sando'' (trim_space inner)
         then ([], [new_diagnostic path (position_at table (int offset)) ''HIM1202'' ''<?sando is only valid as the file header''])
         else if kind \<noteq> NodeComment \<and> trimmed = []
         then ([], [new_diagnostic path (position_at table (int offset)) ''HIM1203'' ''empty template tag''])
         else if kind = NodeExpression \<or> kind = NodeComponent
         then (case parse_expr trimmed of
                 Some err \<Rightarrow> ([], expression_diagnostics path err position table at)
               | None \<Rightarrow> ([node], []))
         else ([node], []))"

text \<open>Where a tag ends, relative to the byte after its opening delimiter.\<close>

definition tag_close :: "bytes \<Rightarrow> nat option" where
  "tag_close body =
     (if has_prefix ''#'' body then index_of ''?>'' body else find_go_delimiter body 0)"

function tokenize_template ::
  "(bytes \<Rightarrow> go_error option) \<Rightarrow> bytes \<Rightarrow> position_table \<Rightarrow> nat \<Rightarrow> bytes
   \<Rightarrow> renderer_node list \<times> diagnostic list" where
  "tokenize_template parse_expr path table offset t =
     (if t = [] then ([], [])
      else (case index_of ''<?'' t of
          None \<Rightarrow> ([text_node table offset t], [])
        | Some start \<Rightarrow>
           (let before = (if 0 < start then [text_node table offset (take start t)] else []);
                body = drop (start + 2) t
            in case tag_close body of
                 None \<Rightarrow> (before, [new_diagnostic path (position_at table (int (offset + start)))
                                ''HIM1201'' ''unterminated template tag''])
               | Some close \<Rightarrow>
                  (let one = template_tag parse_expr path table (offset + start) (take close body);
                       rest = tokenize_template parse_expr path table (offset + start + 2 + close + 2)
                                (drop (close + 2) body)
                   in (before @ fst one @ fst rest, snd one @ snd rest)))))"
  by pat_completeness auto
termination
  by (relation "measure (\<lambda>(p, f, tb, n, t). length t)") auto

declare tokenize_template.simps [simp del]

declare next_byte_def [go_eval] find_loop.simps(2) [go_eval] find_go_delimiter_def [go_eval]
  expression_diagnostics_def [go_eval] text_node_def [go_eval] ascii_blank_def [go_eval]
  template_tag_def [go_eval] tag_close_def [go_eval]

subsection \<open>The grammar of Go text up to a delimiter\<close>

text \<open>The bytes of a string or rune literal after its opening quote, without the closing one.\<close>

fun quoted_body :: "byte \<Rightarrow> bytes \<Rightarrow> bool" where
  "quoted_body q [] = True"
| "quoted_body q (b # s) =
     (if b = CHR 0x5C then (case s of [] \<Rightarrow> False | _ # t \<Rightarrow> quoted_body q t)
      else b \<noteq> q \<and> quoted_body q s)"

definition plain_byte :: "byte \<Rightarrow> bytes \<Rightarrow> bool" where
  "plain_byte b s =
     (b \<notin> {CHR 0x22, CHR 0x27, CHR 0x60} \<and> \<not> (b = CHR ''?'' \<and> next_byte s = CHR ''>'')
      \<and> \<not> (b = CHR ''/'' \<and> next_byte s \<in> {CHR ''/'', CHR ''*''}))"

inductive go_code :: "bytes \<Rightarrow> bytes \<Rightarrow> bool" where
  code_end: "go_code [] rest"
| code_plain: "plain_byte b (body @ rest) \<Longrightarrow> go_code body rest \<Longrightarrow> go_code (b # body) rest"
| code_quoted: "q \<in> {CHR 0x22, CHR 0x27} \<Longrightarrow> quoted_body q s \<Longrightarrow> go_code body rest
    \<Longrightarrow> go_code (q # s @ q # body) rest"
| code_raw: "CHR 0x60 \<notin> set s \<Longrightarrow> go_code body rest \<Longrightarrow> go_code (CHR 0x60 # s @ CHR 0x60 # body) rest"
| code_line: "LF \<notin> set s \<Longrightarrow> go_code body rest \<Longrightarrow> go_code (''//'' @ s @ LF # body) rest"
| code_block: "index_of ''*/'' (s @ ''*/'') = Some (length s) \<Longrightarrow> go_code body rest
    \<Longrightarrow> go_code (''/*'' @ s @ ''*/'' @ body) rest"

subsection \<open>The scanner stops at the first delimiter outside literals and comments\<close>

lemma find_escaped_irrelevant:
  "state \<noteq> LexString \<Longrightarrow> state \<noteq> LexRune \<Longrightarrow> find_loop state e i s = find_loop state False i s"
proof (induction state e i s rule: find_loop.induct)
  case (1 state e i)
  then show ?case by simp
next
  case (2 state e i b s)
  then show ?case
    by (cases state) (simp_all add: find_loop.simps(2) split: if_split)
qed

lemma find_normal: "find_loop LexNormal e i s = find_loop LexNormal False i s"
  by (rule find_escaped_irrelevant) simp_all

definition literal_state :: "byte \<Rightarrow> go_lexical \<Rightarrow> bool" where
  "literal_state q st = (q = CHR 0x22 \<and> st = LexString \<or> q = CHR 0x27 \<and> st = LexRune)"

lemma find_quoted_plain:
  "literal_state q st \<Longrightarrow> b \<noteq> CHR 0x5C \<Longrightarrow> b \<noteq> q \<Longrightarrow>
   find_loop st False i (b # s) = find_loop st False (Suc i) s"
  by (elim literal_state_def [THEN iffD1, elim_format] disjE conjE) (simp_all add: find_loop.simps(2))

lemma find_quoted_close:
  "literal_state q st \<Longrightarrow> find_loop st False i (q # s) = find_loop LexNormal False (Suc i) s"
  by (elim literal_state_def [THEN iffD1, elim_format] disjE conjE) (simp_all add: find_loop.simps(2))

lemma find_quoted_backslash:
  "literal_state q st \<Longrightarrow> find_loop st False i (CHR 0x5C # s) = find_loop st True (Suc i) s"
  by (elim literal_state_def [THEN iffD1, elim_format] disjE conjE) (simp_all add: find_loop.simps(2))

lemma find_quoted_escaped:
  "literal_state q st \<Longrightarrow> find_loop st True i (b # s) = find_loop st False (Suc i) s"
  by (elim literal_state_def [THEN iffD1, elim_format] disjE conjE) (simp_all add: find_loop.simps(2))

lemma scan_quoted:
  assumes "quoted_body q s" and "literal_state q st"
  shows "find_loop st False i (s @ q # t) = find_loop LexNormal False (i + length s + 1) t"
  using assms
proof (induction q s arbitrary: i rule: quoted_body.induct)
  case (1 q)
  then show ?case by (simp add: find_quoted_close)
next
  case (2 q b s)
  show ?case
  proof (cases "b = CHR 0x5C")
    case True
    then obtain c u where s: "s = c # u" "quoted_body q u"
      using "2.prems"(1) by (auto split: list.splits)
    then show ?thesis
      using "2.IH"(1) [OF True s(1) s(2) "2.prems"(2), of "i + 2"] True
      by (simp add: find_quoted_backslash [OF "2.prems"(2)] find_quoted_escaped [OF "2.prems"(2)])
  next
    case False
    then show ?thesis
      using "2.IH"(2) [OF False, of "Suc i"] "2.prems"
      by (simp add: find_quoted_plain [OF "2.prems"(2)])
  qed
qed

lemma scan_raw:
  "CHR 0x60 \<notin> set s \<Longrightarrow>
   find_loop LexRawString e i (s @ CHR 0x60 # t) = find_loop LexNormal e (i + length s + 1) t"
  by (induction s arbitrary: i) (auto simp: find_loop.simps(2))

lemma scan_line:
  "LF \<notin> set s \<Longrightarrow>
   find_loop LexLineComment e i (s @ LF # t) = find_loop LexNormal e (i + length s + 1) t"
  by (induction s arbitrary: i) (auto simp: find_loop.simps(2))

lemma scan_block:
  "index_of ''*/'' (s @ ''*/'') = Some (length s) \<Longrightarrow>
   find_loop LexBlockComment e i (s @ ''*/'' @ t) = find_loop LexNormal e (i + length s + 2) t"
proof (induction s arbitrary: i)
  case Nil
  then show ?case by (simp add: find_loop.simps(2) next_byte_def)
next
  case (Cons b s)
  then have not: "\<not> has_prefix ''*/'' (b # s @ ''*/'')" and s: "index_of ''*/'' (s @ ''*/'') = Some (length s)"
    by (auto split: if_splits)
  then have "\<not> (b = CHR ''*'' \<and> next_byte (s @ ''*/'' @ t) = CHR ''/'')"
    by (cases s) (auto simp: next_byte_def)
  then have "find_loop LexBlockComment e i (b # s @ ''*/'' @ t) = find_loop LexBlockComment e (Suc i) (s @ ''*/'' @ t)"
    by (subst find_loop.simps(2)) (simp only: if_False go_lexical.case)
  then show ?case
    using Cons.IH [OF s, of "Suc i"] by simp
qed

lemma find_complete:
  "go_code body rest \<Longrightarrow> rest = ''?>'' @ t \<Longrightarrow>
   find_loop LexNormal False i (body @ rest) = Some (i + length body)"
proof (induction body rest arbitrary: i rule: go_code.induct)
  case (code_end rest)
  then show ?case by (simp add: find_loop.simps(2) next_byte_def)
next
  case (code_plain b body rest)
  then show ?case
    using code_plain.IH [of "Suc i"]
    by (auto simp: find_loop.simps(2) plain_byte_def)
next
  case (code_quoted q s body rest)
  then show ?case
    using code_quoted.IH [of "Suc i + length s + 1"]
      scan_quoted [OF code_quoted(2), of LexString "Suc i" "body @ rest"]
      scan_quoted [OF code_quoted(2), of LexRune "Suc i" "body @ rest"]
    by (auto simp: find_loop.simps(2) [of LexNormal] literal_state_def)
next
  case (code_raw s body rest)
  then show ?case
    using code_raw.IH [of "Suc i + length s + 1"] scan_raw [OF code_raw(1), of False "Suc i" "body @ rest"]
    by (simp add: find_loop.simps(2) [of LexNormal])
next
  case (code_line s body rest)
  then show ?case
    using code_line.IH [of "i + 2 + length s + 1"] scan_line [OF code_line(1), of False "i + 2" "body @ rest"]
    by (simp add: find_loop.simps(2) [of LexNormal] next_byte_def)
next
  case (code_block s body rest)
  then show ?case
    using code_block.IH [of "i + 2 + length s + 2"] scan_block [OF code_block(1), of False "i + 2" "body @ rest"]
    by (simp add: find_loop.simps(2) [of LexNormal] next_byte_def)
qed

text \<open>
  The converse: what the scanner has passed when it returns. From normal state it is Go text; from
  inside a literal or a comment it is the rest of it, and then Go text.
\<close>

definition passed :: "go_lexical \<Rightarrow> bool \<Rightarrow> bytes \<Rightarrow> bytes \<Rightarrow> bool" where
  "passed state escaped body rest =
     (case state of
        LexNormal \<Rightarrow> go_code body rest
      | LexString \<Rightarrow> (\<exists>s t. body = s @ CHR 0x22 # t
          \<and> quoted_body (CHR 0x22) (if escaped then CHR 0x5C # s else s) \<and> go_code t rest)
      | LexRune \<Rightarrow> (\<exists>s t. body = s @ CHR 0x27 # t
          \<and> quoted_body (CHR 0x27) (if escaped then CHR 0x5C # s else s) \<and> go_code t rest)
      | LexRawString \<Rightarrow> (\<exists>s t. body = s @ CHR 0x60 # t \<and> CHR 0x60 \<notin> set s \<and> go_code t rest)
      | LexLineComment \<Rightarrow> (\<exists>s t. body = s @ LF # t \<and> LF \<notin> set s \<and> go_code t rest)
      | LexBlockComment \<Rightarrow> (\<exists>s t. body = s @ ''*/'' @ t
          \<and> index_of ''*/'' (s @ ''*/'') = Some (length s) \<and> go_code t rest))"

lemma passed_quoted:
  assumes "literal_state q st"
  shows "passed st escaped body rest = (\<exists>s t. body = s @ q # t
    \<and> quoted_body q (if escaped then CHR 0x5C # s else s) \<and> go_code t rest)"
  using assms by (elim literal_state_def [THEN iffD1, elim_format] disjE conjE) (simp_all add: passed_def)

definition stops :: "go_lexical \<Rightarrow> bool \<Rightarrow> nat \<Rightarrow> bytes \<Rightarrow> nat \<Rightarrow> bool" where
  "stops st e i s j = (\<exists>body tail. s = body @ ''?>'' @ tail \<and> j = i + length body \<and> passed st e body (''?>'' @ tail))"

lemma stopsE:
  assumes "stops st e i s j"
  obtains body tail where "s = body @ ''?>'' @ tail" "j = i + length body" "passed st e body (''?>'' @ tail)"
  using assms unfolding stops_def by blast

lemma stops_end: "s = CHR ''>'' # tail \<Longrightarrow> stops LexNormal e i (CHR ''?'' # s) i"
  unfolding stops_def passed_def by (intro exI [of _ "[]"] exI [of _ tail]) (simp add: code_end)

lemma stops_plain:
  assumes "plain_byte b s" and "stops LexNormal e' (Suc i) s j"
  shows "stops LexNormal e i (b # s) j"
proof -
  obtain body tail where s: "s = body @ ''?>'' @ tail" "j = Suc i + length body" "go_code body (''?>'' @ tail)"
    using assms(2) by (auto simp: stops_def passed_def)
  have "go_code (b # body) (''?>'' @ tail)"
    using assms(1) s by (intro code_plain) simp_all
  then show ?thesis
    unfolding stops_def passed_def using s by (intro exI [of _ "b # body"] exI [of _ tail]) simp
qed

lemma stops_open_quoted:
  assumes q: "literal_state q st" and "stops st False (Suc i) s j"
  shows "stops LexNormal e i (q # s) j"
proof -
  obtain body tail where s: "s = body @ ''?>'' @ tail" "j = Suc i + length body" "passed st False body (''?>'' @ tail)"
    using assms(2) by (rule stopsE)
  then obtain u t where u: "body = u @ q # t" "quoted_body q u" "go_code t (''?>'' @ tail)"
    unfolding passed_quoted [OF q] by auto
  have "go_code (q # body) (''?>'' @ tail)"
    unfolding u(1) using q u by (intro code_quoted) (auto simp: literal_state_def)
  then show ?thesis
    unfolding stops_def passed_def using s by (intro exI [of _ "q # body"] exI [of _ tail]) simp
qed

lemma stops_open_raw:
  assumes "stops LexRawString e' (Suc i) s j"
  shows "stops LexNormal e i (CHR 0x60 # s) j"
proof -
  obtain u t tail where s: "s = (u @ CHR 0x60 # t) @ ''?>'' @ tail" "j = Suc i + length (u @ CHR 0x60 # t)"
    "CHR 0x60 \<notin> set u" "go_code t (''?>'' @ tail)"
    using assms by (auto simp: stops_def passed_def)
  then show ?thesis
    unfolding stops_def passed_def
    by (intro exI [of _ "CHR 0x60 # u @ CHR 0x60 # t"] exI [of _ tail]) (simp add: code_raw)
qed

lemma stops_open_line:
  assumes "stops LexLineComment e' (i + 2) s j"
  shows "stops LexNormal e i (CHR ''/'' # CHR ''/'' # s) j"
proof -
  obtain u t tail where s: "s = (u @ LF # t) @ ''?>'' @ tail" "j = i + 2 + length (u @ LF # t)"
    "LF \<notin> set u" "go_code t (''?>'' @ tail)"
    using assms by (auto simp: stops_def passed_def)
  then show ?thesis
    unfolding stops_def passed_def using code_line [OF s(3,4)]
    by (intro exI [of _ "''//'' @ u @ LF # t"] exI [of _ tail]) simp
qed

lemma stops_open_block:
  assumes "stops LexBlockComment e' (i + 2) s j"
  shows "stops LexNormal e i (CHR ''/'' # CHR ''*'' # s) j"
proof -
  obtain u t tail where s: "s = (u @ ''*/'' @ t) @ ''?>'' @ tail" "j = i + 2 + length (u @ ''*/'' @ t)"
    "index_of ''*/'' (u @ ''*/'') = Some (length u)" "go_code t (''?>'' @ tail)"
    using assms by (auto simp: stops_def passed_def)
  then show ?thesis
    unfolding stops_def passed_def using code_block [OF s(3,4)]
    by (intro exI [of _ "''/*'' @ u @ ''*/'' @ t"] exI [of _ tail]) simp
qed

lemma stops_in_quoted:
  assumes q: "literal_state q st"
  shows "stops st False (Suc i) s j \<Longrightarrow> stops st True i (b # s) j"
    and "stops st True (Suc i) s j \<Longrightarrow> stops st False i (CHR 0x5C # s) j"
    and "stops LexNormal False (Suc i) s j \<Longrightarrow> stops st False i (q # s) j"
    and "stops st False (Suc i) s j \<Longrightarrow> b \<noteq> CHR 0x5C \<Longrightarrow> b \<noteq> q \<Longrightarrow> stops st False i (b # s) j"
proof -
  have q5: "q \<noteq> CHR 0x5C" using q by (auto simp: literal_state_def)
  have step: "stops st e i (b # s) j"
    if run: "stops st e' (Suc i) s j" and lit: "\<And>u. quoted_body q (if e' then CHR 0x5C # u else u)
        \<Longrightarrow> quoted_body q (if e then CHR 0x5C # b # u else b # u)" for e e' b
  proof -
    obtain body tail where s: "s = body @ ''?>'' @ tail" "j = Suc i + length body" "passed st e' body (''?>'' @ tail)"
      using run by (rule stopsE)
    then obtain u t where u: "body = u @ q # t" "quoted_body q (if e' then CHR 0x5C # u else u)"
      "go_code t (''?>'' @ tail)"
      unfolding passed_quoted [OF q] by blast
    have "passed st e (b # body) (''?>'' @ tail)"
      unfolding passed_quoted [OF q] using u lit [OF u(2)]
      by (intro exI [of _ "b # u"] exI [of _ t]) simp
    then show ?thesis
      unfolding stops_def using s by (intro exI [of _ "b # body"] exI [of _ tail]) simp
  qed
  show "stops st False (Suc i) s j \<Longrightarrow> stops st True i (b # s) j"
    by (rule step [of False True]) auto
  show "stops st True (Suc i) s j \<Longrightarrow> stops st False i (CHR 0x5C # s) j"
    by (rule step [of True False]) auto
  show "stops st False (Suc i) s j \<Longrightarrow> b \<noteq> CHR 0x5C \<Longrightarrow> b \<noteq> q \<Longrightarrow> stops st False i (b # s) j"
    by (rule step [of False False]) auto
  show "stops LexNormal False (Suc i) s j \<Longrightarrow> stops st False i (q # s) j"
  proof -
    assume "stops LexNormal False (Suc i) s j"
    then obtain body tail where s: "s = body @ ''?>'' @ tail" "j = Suc i + length body" "go_code body (''?>'' @ tail)"
      by (auto simp: stops_def passed_def)
    have "passed st False (q # body) (''?>'' @ tail)"
      unfolding passed_quoted [OF q] using s by (intro exI [of _ "[]"] exI [of _ body]) simp
    then show ?thesis
      unfolding stops_def using s by (intro exI [of _ "q # body"] exI [of _ tail]) simp
  qed
qed

lemma stops_in_raw:
  "stops LexNormal e (Suc i) s j \<Longrightarrow> stops LexRawString e i (CHR 0x60 # s) j"
  "stops LexRawString e (Suc i) s j \<Longrightarrow> b \<noteq> CHR 0x60 \<Longrightarrow> stops LexRawString e i (b # s) j"
proof -
  assume "stops LexNormal e (Suc i) s j"
  then obtain body tail where s: "s = body @ ''?>'' @ tail" "j = Suc i + length body" "go_code body (''?>'' @ tail)"
    by (auto simp: stops_def passed_def)
  have "passed LexRawString e (CHR 0x60 # body) (''?>'' @ tail)"
    unfolding passed_def go_lexical.case using s by (intro exI [of _ "[]"] exI [of _ body]) simp
  then show "stops LexRawString e i (CHR 0x60 # s) j"
    unfolding stops_def using s by (intro exI [of _ "CHR 0x60 # body"] exI [of _ tail]) simp
next
  assume b: "b \<noteq> CHR 0x60" and "stops LexRawString e (Suc i) s j"
  then obtain u t tail where s: "s = (u @ CHR 0x60 # t) @ ''?>'' @ tail" "j = Suc i + length (u @ CHR 0x60 # t)"
    "CHR 0x60 \<notin> set u" "go_code t (''?>'' @ tail)"
    by (auto simp: stops_def passed_def)
  have "passed LexRawString e (b # u @ CHR 0x60 # t) (''?>'' @ tail)"
    unfolding passed_def go_lexical.case using s b by (intro exI [of _ "b # u"] exI [of _ t]) simp
  then show "stops LexRawString e i (b # s) j"
    unfolding stops_def using s by (intro exI [of _ "b # u @ CHR 0x60 # t"] exI [of _ tail]) simp
qed

lemma stops_in_line:
  "stops LexNormal e (Suc i) s j \<Longrightarrow> stops LexLineComment e i (LF # s) j"
  "stops LexLineComment e (Suc i) s j \<Longrightarrow> b \<noteq> LF \<Longrightarrow> stops LexLineComment e i (b # s) j"
proof -
  assume "stops LexNormal e (Suc i) s j"
  then obtain body tail where s: "s = body @ ''?>'' @ tail" "j = Suc i + length body" "go_code body (''?>'' @ tail)"
    by (auto simp: stops_def passed_def)
  have "passed LexLineComment e (LF # body) (''?>'' @ tail)"
    unfolding passed_def go_lexical.case using s by (intro exI [of _ "[]"] exI [of _ body]) simp
  then show "stops LexLineComment e i (LF # s) j"
    unfolding stops_def using s by (intro exI [of _ "LF # body"] exI [of _ tail]) simp
next
  assume b: "b \<noteq> LF" and "stops LexLineComment e (Suc i) s j"
  then obtain u t tail where s: "s = (u @ LF # t) @ ''?>'' @ tail" "j = Suc i + length (u @ LF # t)"
    "LF \<notin> set u" "go_code t (''?>'' @ tail)"
    by (auto simp: stops_def passed_def)
  have "passed LexLineComment e (b # u @ LF # t) (''?>'' @ tail)"
    unfolding passed_def go_lexical.case using s b by (intro exI [of _ "b # u"] exI [of _ t]) simp
  then show "stops LexLineComment e i (b # s) j"
    unfolding stops_def using s by (intro exI [of _ "b # u @ LF # t"] exI [of _ tail]) simp
qed

lemma stops_in_block:
  "stops LexNormal e (i + 2) s j \<Longrightarrow> stops LexBlockComment e i (CHR ''*'' # CHR ''/'' # s) j"
  "stops LexBlockComment e (Suc i) s j \<Longrightarrow> \<not> (b = CHR ''*'' \<and> next_byte s = CHR ''/'')
    \<Longrightarrow> stops LexBlockComment e i (b # s) j"
proof -
  assume "stops LexNormal e (i + 2) s j"
  then obtain body tail where s: "s = body @ ''?>'' @ tail" "j = i + 2 + length body" "go_code body (''?>'' @ tail)"
    by (auto simp: stops_def passed_def)
  have "passed LexBlockComment e (''*/'' @ body) (''?>'' @ tail)"
    unfolding passed_def go_lexical.case using s by (intro exI [of _ "[]"] exI [of _ body]) simp
  then show "stops LexBlockComment e i (CHR ''*'' # CHR ''/'' # s) j"
    unfolding stops_def using s by (intro exI [of _ "''*/'' @ body"] exI [of _ tail]) simp
next
  assume b: "\<not> (b = CHR ''*'' \<and> next_byte s = CHR ''/'')" and "stops LexBlockComment e (Suc i) s j"
  then obtain u t tail where s: "s = (u @ ''*/'' @ t) @ ''?>'' @ tail" "j = Suc i + length (u @ ''*/'' @ t)"
    "index_of ''*/'' (u @ ''*/'') = Some (length u)" "go_code t (''?>'' @ tail)"
    by (auto simp: stops_def passed_def)
  have "index_of ''*/'' ((b # u) @ ''*/'') = Some (length (b # u))"
    using b s(1,3) by (cases u) (auto simp: next_byte_def)
  then have "passed LexBlockComment e (b # u @ ''*/'' @ t) (''?>'' @ tail)"
    unfolding passed_def go_lexical.case using s(4) by (intro exI [of _ "b # u"] exI [of _ t]) simp
  then show "stops LexBlockComment e i (b # s) j"
    unfolding stops_def using s by (intro exI [of _ "b # u @ ''*/'' @ t"] exI [of _ tail]) simp
qed

lemma next_byte_Cons: "next_byte s = b \<Longrightarrow> b \<noteq> CHR 0x00 \<Longrightarrow> s = b # tl s"
  by (cases s) (auto simp: next_byte_def)

lemma find_sound: "find_loop st e i s = Some j \<Longrightarrow> stops st e i s j"
proof (induction st e i s rule: find_loop.induct)
  case (1 st e i)
  then show ?case by simp
next
  case (2 st e i b s)
  note step = "2.prems" [unfolded find_loop.simps(2)]
  show ?case
  proof (cases st)
    case LexNormal
    consider (close) "b = CHR ''?''" "next_byte s = CHR ''>''"
      | (dq) "b = CHR 0x22" | (sq) "b = CHR 0x27" | (raw) "b = CHR 0x60"
      | (line) "b = CHR ''/''" "next_byte s = CHR ''/''"
      | (block) "b = CHR ''/''" "next_byte s = CHR ''*''"
      | (plain) "plain_byte b s"
      by (auto simp: plain_byte_def)
    then show ?thesis
    proof cases
      case close
      then show ?thesis
        using step LexNormal next_byte_Cons [OF close(2)] by (auto intro: stops_end)
    next
      case dq
      then show ?thesis
        using step LexNormal "2.IH" stops_open_quoted [of "CHR 0x22" LexString i s j e]
        by (simp add: literal_state_def)
    next
      case sq
      then show ?thesis
        using step LexNormal "2.IH" stops_open_quoted [of "CHR 0x27" LexRune i s j e]
        by (simp add: literal_state_def)
    next
      case raw
      then show ?thesis
        using step LexNormal "2.IH" stops_open_raw [of e i s j e] by simp
    next
      case line
      then have "s = CHR ''/'' # tl s" by (simp add: next_byte_Cons)
      then show ?thesis
        using step LexNormal "2.IH" line stops_open_line [of e i "tl s" j e] by simp
    next
      case block
      then have "s = CHR ''*'' # tl s" by (simp add: next_byte_Cons)
      then show ?thesis
        using step LexNormal "2.IH" block stops_open_block [of e i "tl s" j e] by simp
    next
      case plain
      then show ?thesis
        using step LexNormal "2.IH" stops_plain [OF plain, of e i j e]
        by (auto simp: plain_byte_def split: if_splits)
    qed
  next
    case LexString
    then have q: "literal_state (CHR 0x22) st" by (simp add: literal_state_def)
    show ?thesis
      using step "2.IH" LexString stops_in_quoted [OF q, of i s j] by (auto split: if_splits)
  next
    case LexRune
    then have q: "literal_state (CHR 0x27) st" by (simp add: literal_state_def)
    show ?thesis
      using step "2.IH" LexRune stops_in_quoted [OF q, of i s j] by (auto split: if_splits)
  next
    case LexRawString
    then show ?thesis
      using step "2.IH" stops_in_raw [of e i s j] by (auto split: if_splits)
  next
    case LexLineComment
    then show ?thesis
      using step "2.IH" stops_in_line [of e i s j] by (auto split: if_splits)
  next
    case LexBlockComment
    show ?thesis
    proof (cases "b = CHR ''*'' \<and> next_byte s = CHR ''/''")
      case True
      then have "s = CHR ''/'' # tl s" by (simp add: next_byte_Cons)
      then show ?thesis
        using step LexBlockComment "2.IH" True stops_in_block(1) [of e i "tl s" j] by simp
    next
      case False
      then show ?thesis
        using step LexBlockComment "2.IH" stops_in_block(2) [of e i s j b] by auto
    qed
  qed
qed

lemma find_delimiter_iff:
  "(find_go_delimiter source start = Some j) =
     (\<exists>body tail. drop start source = body @ ''?>'' @ tail \<and> j = start + length body
        \<and> go_code body (''?>'' @ tail))"
proof
  assume "find_go_delimiter source start = Some j"
  then show "\<exists>body tail. drop start source = body @ ''?>'' @ tail \<and> j = start + length body
        \<and> go_code body (''?>'' @ tail)"
    using find_sound [of LexNormal False start "drop start source" j]
    by (auto simp: find_go_delimiter_def stops_def passed_def)
next
  assume "\<exists>body tail. drop start source = body @ ''?>'' @ tail \<and> j = start + length body
        \<and> go_code body (''?>'' @ tail)"
  then show "find_go_delimiter source start = Some j"
    using find_complete by (auto simp: find_go_delimiter_def)
qed

text \<open>
  C13: A Go tag ends at the first \<open>?>\<close> outside string, rune and raw string literals and line
  and block comments: \<open>findGoDelimiter\<close> returns a position exactly when the text up to it is a
  sequence of plain bytes, complete literals and complete comments, and the delimiter follows; and
  that position is unique.
\<close>
theorem find_go_delimiter_correct:
  "(find_go_delimiter source start = Some j) =
     (\<exists>body tail. drop start source = body @ ''?>'' @ tail \<and> j = start + length body
        \<and> go_code body (''?>'' @ tail))"
  by (rule find_delimiter_iff)

subsection \<open>Templates as sequences of text and tags\<close>

datatype template_piece = PText bytes | PTag bytes

fun piece_bytes :: "template_piece \<Rightarrow> bytes" where
  "piece_bytes (PText s) = s"
| "piece_bytes (PTag inner) = ''<?'' @ inner @ ''?>''"

definition template_bytes :: "template_piece list \<Rightarrow> bytes" where
  "template_bytes ps = concat (map piece_bytes ps)"

definition tag_inner :: "bytes \<Rightarrow> bool" where
  "tag_inner inner =
     (if has_prefix ''#'' inner then index_of ''?>'' (inner @ ''?>'') = Some (length inner)
      else go_code inner ''?>'')"

fun starts_with_text :: "template_piece list \<Rightarrow> bool" where
  "starts_with_text (PText s # ps) = True"
| "starts_with_text _ = False"

fun pieces_ok :: "template_piece list \<Rightarrow> bool" where
  "pieces_ok [] = True"
| "pieces_ok (PText s # ps) = (s \<noteq> [] \<and> index_of ''<?'' s = None \<and> \<not> starts_with_text ps \<and> pieces_ok ps)"
| "pieces_ok (PTag inner # ps) = (tag_inner inner \<and> pieces_ok ps)"

fun pieces_result ::
  "(bytes \<Rightarrow> go_error option) \<Rightarrow> bytes \<Rightarrow> position_table \<Rightarrow> nat \<Rightarrow> template_piece list
   \<Rightarrow> renderer_node list \<times> diagnostic list" where
  "pieces_result parse_expr path table offset [] = ([], [])"
| "pieces_result parse_expr path table offset (PText s # ps) =
     (let rest = pieces_result parse_expr path table (offset + length s) ps
      in (text_node table offset s # fst rest, snd rest))"
| "pieces_result parse_expr path table offset (PTag inner # ps) =
     (let one = template_tag parse_expr path table offset inner;
          rest = pieces_result parse_expr path table (offset + length inner + 4) ps
      in (fst one @ fst rest, snd one @ snd rest))"

lemma index_of_open_after:
  "index_of ''<?'' s = None \<Longrightarrow> index_of ''<?'' (s @ ''<?'' @ t) = Some (length s)"
proof (induction s)
  case Nil
  then show ?case by simp
next
  case (Cons c s)
  then have "\<not> has_prefix ''<?'' (c # s)" "index_of ''<?'' s = None"
    by (auto split: if_splits)
  moreover from this(1) have "\<not> has_prefix ''<?'' (c # s @ ''<?'' @ t)"
    by (cases s) auto
  ultimately show ?case using Cons.IH by simp
qed

lemma index_of_take: "index_of sep s = Some i \<Longrightarrow> index_of sep (take i s @ sep) = Some i"
proof (induction s arbitrary: i)
  case Nil
  then show ?case by (cases sep) (auto split: if_splits)
next
  case (Cons c s)
  show ?case
  proof (cases "has_prefix sep (c # s)")
    case True
    then show ?thesis using Cons.prems has_prefix_append [of sep "[]"] by (cases sep) auto
  next
    case False
    then obtain k where k: "index_of sep s = Some k" "i = Suc k"
      using Cons.prems by auto
    have "has_prefix sep (drop k s)" using index_of_Some [OF k(1)] by simp
    then obtain rest where "drop k s = sep @ rest" by (auto simp: has_prefix_iff)
    then have s: "s = take k s @ sep @ rest" by (metis append_take_drop_id)
    have "\<not> has_prefix sep (c # take k s @ sep)"
      using False s has_prefix_append_right [of sep "c # take k s @ sep" rest] by auto
    then show ?thesis using Cons.IH [OF k(1)] k by simp
  qed
qed

lemma index_of_extend: "index_of sep s = Some i \<Longrightarrow> index_of sep (s @ t) = Some i"
proof (induction s arbitrary: i)
  case Nil
  then show ?case by (cases t) (auto split: if_splits)
next
  case (Cons c s)
  show ?case
  proof (cases "has_prefix sep (c # s)")
    case True
    then show ?thesis using Cons.prems has_prefix_append_right [OF True, of t] by simp
  next
    case False
    then obtain k where k: "index_of sep s = Some k" "i = Suc k"
      using Cons.prems by auto
    then obtain rest where rest: "s = take k s @ sep @ rest"
      using index_of_Some [OF k(1)] by (metis append_take_drop_id has_prefix_iff)
    have "\<not> has_prefix sep (c # s @ t)"
    proof
      assume "has_prefix sep (c # s @ t)"
      then have "take (length sep) (c # s @ t) = sep" by (simp add: has_prefix_take)
      moreover have "length sep \<le> length (c # s)" using arg_cong [OF rest, of length] by simp
      ultimately have "take (length sep) (c # s) = sep" by (cases sep) auto
      then show False using False by (simp add: has_prefix_take)
    qed
    then show ?thesis using Cons.IH [OF k(1)] k by simp
  qed
qed

lemma next_byte_append: "s \<noteq> [] \<Longrightarrow> next_byte (s @ t) = next_byte s"
  by (cases s) (simp_all add: next_byte_def)

lemma go_code_rest:
  "go_code body rest \<Longrightarrow> rest \<noteq> [] \<Longrightarrow> rest' \<noteq> [] \<Longrightarrow> next_byte rest' = next_byte rest \<Longrightarrow> go_code body rest'"
proof (induction body rest rule: go_code.induct)
  case (code_plain b body rest)
  then have "next_byte (body @ rest') = next_byte (body @ rest)"
    by (cases body) (simp_all add: next_byte_def)
  then show ?case
    using code_plain by (intro go_code.code_plain) (auto simp: plain_byte_def)
qed (auto intro: go_code.intros simp del: append_Cons)

lemma tag_close_inner:
  assumes "tag_inner inner"
  shows "tag_close (inner @ ''?>'' @ rest) = Some (length inner)"
proof (cases "has_prefix ''#'' inner")
  case True
  then show ?thesis
    using assms index_of_extend [of "''?>''" "inner @ ''?>''" "length inner" rest]
      has_prefix_append_right [OF True, of "''?>'' @ rest"]
    by (simp add: tag_inner_def tag_close_def)
next
  case False
  then have "go_code inner (''?>'' @ rest)"
    using assms go_code_rest [of inner "''?>''" "''?>'' @ rest"] by (simp add: tag_inner_def next_byte_def)
  then have "find_go_delimiter (inner @ ''?>'' @ rest) 0 = Some (length inner)"
    by (simp only: find_delimiter_iff) auto
  moreover have "\<not> has_prefix ''#'' (inner @ ''?>'' @ rest)"
    using False by (cases inner) auto
  ultimately show ?thesis by (simp add: tag_close_def)
qed

lemma tag_close_Some:
  assumes "tag_close body = Some close"
  obtains rest where "body = take close body @ ''?>'' @ rest" "length (take close body) = close"
    "tag_inner (take close body)"
proof (cases "has_prefix ''#'' body")
  case True
  then have i: "index_of ''?>'' body = Some close" using assms by (simp add: tag_close_def)
  then obtain rest where rest: "drop close body = ''?>'' @ rest"
    using index_of_Some [OF i] by (auto simp: has_prefix_iff)
  have len: "length (take close body) = close" using index_of_Some [OF i] by simp
  have "0 < close"
    using True i by (cases body) (auto split: if_splits)
  then have "has_prefix ''#'' (take close body)"
    using True by (cases body; cases close) auto
  then have "tag_inner (take close body)"
    using index_of_take [OF i] len by (simp add: tag_inner_def)
  then show thesis using that rest len by (metis append_take_drop_id)
next
  case False
  then have "find_go_delimiter body 0 = Some close" using assms by (simp add: tag_close_def)
  then obtain b tail where b: "body = b @ ''?>'' @ tail" "close = length b" "go_code b (''?>'' @ tail)"
    unfolding find_delimiter_iff by auto
  have "go_code b ''?>''"
    using go_code_rest [OF b(3), of "''?>''"] by (simp add: next_byte_def)
  moreover have "\<not> has_prefix ''#'' b" using False b(1) by (cases b) auto
  ultimately show thesis using that [of tail] b by (simp add: tag_inner_def)
qed

lemma tokenize_Nil [simp]: "tokenize_template parse_expr path table off [] = ([], [])"
  by (simp add: tokenize_template.simps)

lemma tokenize_tag:
  assumes "tag_inner inner" and "pre = [] \<or> index_of ''<?'' pre = None"
  shows "tokenize_template parse_expr path table off (pre @ ''<?'' @ inner @ ''?>'' @ rest) =
    (let one = template_tag parse_expr path table (off + length pre) inner;
         more = tokenize_template parse_expr path table (off + length pre + length inner + 4) rest
     in ((if pre = [] then [] else [text_node table off pre]) @ fst one @ fst more, snd one @ snd more))"
proof -
  have i: "index_of ''<?'' (pre @ ''<?'' @ inner @ ''?>'' @ rest) = Some (length pre)"
    using assms(2) index_of_open_after [of pre "inner @ ''?>'' @ rest"] by auto
  have "drop (length pre + 2) (pre @ ''<?'' @ inner @ ''?>'' @ rest) = inner @ ''?>'' @ rest"
    by simp
  then show ?thesis
    using i tag_close_inner [OF assms(1), of rest]
    by (subst tokenize_template.simps) (simp add: Let_def numeral_eq_Suc)
qed

lemma tokenize_pieces:
  "pieces_ok ps \<Longrightarrow>
   tokenize_template parse_expr path table off (template_bytes ps) = pieces_result parse_expr path table off ps"
proof (induction ps arbitrary: off rule: pieces_ok.induct)
  case 1
  then show ?case by (simp add: template_bytes_def)
next
  case (2 s ps)
  then have s: "s \<noteq> []" "index_of ''<?'' s = None" and ps: "pieces_ok ps" "\<not> starts_with_text ps" by auto
  show ?case
  proof (cases ps)
    case Nil
    then show ?thesis
      using s by (simp add: template_bytes_def tokenize_template.simps [of _ _ _ _ s])
  next
    case (Cons p qs)
    then obtain inner where p: "p = PTag inner" "tag_inner inner"
      using ps by (cases p) auto
    note IH = "2.IH" [OF ps(1), of "off + length s"]
    have b: "template_bytes (PText s # ps) = s @ ''<?'' @ inner @ ''?>'' @ template_bytes qs"
      by (simp add: template_bytes_def Cons p)
    have "template_bytes ps = [] @ ''<?'' @ inner @ ''?>'' @ template_bytes qs"
      by (simp add: template_bytes_def Cons p)
    then show ?thesis
      unfolding b using IH tokenize_tag [OF p(2), of s parse_expr path table off "template_bytes qs"]
        tokenize_tag [OF p(2), of "[]" parse_expr path table "off + length s" "template_bytes qs"] s
      by (simp add: Let_def Cons p)
  qed
next
  case (3 inner ps)
  then have "template_bytes (PTag inner # ps) = [] @ ''<?'' @ inner @ ''?>'' @ template_bytes ps"
    by (simp add: template_bytes_def)
  then show ?case
    using 3 tokenize_tag [of inner "[]" parse_expr path table off "template_bytes ps"]
    by (simp add: Let_def)
qed

text \<open>
  C30: Reading back a printed template. If text pieces are not empty, hold no opening delimiter
  and do not follow each other, and every tag's inside is Go text (or, for a comment tag, holds no
  closing delimiter), then tokenizing the printed pieces gives, piece by piece and in order, exactly
  their text nodes at their offsets and the nodes and diagnostics of their tags.
\<close>
theorem tokenize_printed:
  assumes "pieces_ok ps"
  shows "tokenize_template parse_expr path table off (template_bytes ps)
    = pieces_result parse_expr path table off ps"
  by (rule tokenize_pieces [OF assms])

theorem tokenize_printed_witness:
  "pieces_ok [PText ''<p>'', PTag (CHR ''='' # CHR 0x22 # ''?>'' @ [CHR 0x22]), PText ''</p>'']
   \<and> tokenize_template (\<lambda>_. None) ''f'' (new_position_table []) 0
       (''<p><?='' @ [CHR 0x22] @ ''?>'' @ [CHR 0x22] @ ''?></p>'')
     = pieces_result (\<lambda>_. None) ''f'' (new_position_table []) 0
         [PText ''<p>'', PTag (CHR ''='' # CHR 0x22 # ''?>'' @ [CHR 0x22]), PText ''</p>'']"
proof -
  let ?inner = "CHR ''='' # CHR 0x22 # ''?>'' @ [CHR 0x22]"
  have "go_code (CHR 0x22 # ''?>'' @ CHR 0x22 # []) ''?>''"
    by (rule code_quoted) (simp_all add: code_end)
  then have "go_code ?inner ''?>''"
    by (rule code_plain [rotated]) (simp add: plain_byte_def)
  then have ok: "pieces_ok [PText ''<p>'', PTag ?inner, PText ''</p>'']"
    by (simp add: tag_inner_def)
  show ?thesis
    using ok tokenize_printed [OF ok, of "\<lambda>_. None" "''f''" "new_position_table []" 0] by (simp add: template_bytes_def)
qed

lemma tokenize_shape:
  "\<exists>ps tail. t = template_bytes ps @ tail \<and> pieces_ok ps
     \<and> (tail = [] \<or> has_prefix ''<?'' tail \<and> tag_close (drop 2 tail) = None)
     \<and> tokenize_template parse_expr path table off t =
         (fst (pieces_result parse_expr path table off ps),
          snd (pieces_result parse_expr path table off ps)
          @ (if tail = [] then []
             else [new_diagnostic path (position_at table (int (off + length (template_bytes ps))))
                     ''HIM1201'' ''unterminated template tag'']))"
proof (induction "length t" arbitrary: t off rule: less_induct)
  case less
  show ?case
  proof (cases "t = []")
    case True
    then show ?thesis by (intro exI [of _ "[]"]) (simp add: template_bytes_def)
  next
    case nonempty: False
    show ?thesis
    proof (cases "index_of ''<?'' t")
      case None
      then show ?thesis
        using nonempty by (intro exI [of _ "[PText t]"] exI [of _ "[]"])
          (simp add: template_bytes_def tokenize_template.simps [of _ _ _ _ t])
    next
      case (Some start)
      define pre where "pre = take start t"
      define body where "body = drop (start + 2) t"
      have len: "length pre = start" using index_of_Some [OF Some] by (simp add: pre_def)
      obtain r where "drop start t = ''<?'' @ r"
        using index_of_Some [OF Some] by (auto simp: has_prefix_iff)
      then have "body = r" unfolding body_def by (metis add.commute append_Cons append_Nil drop_Suc_Cons drop_drop drop0 numeral_2_eq_2)
      then have t: "t = pre @ ''<?'' @ body"
        using \<open>drop start t = ''<?'' @ r\<close> unfolding pre_def by (metis append_take_drop_id)
      have pre_none: "index_of ''<?'' pre = None"
      proof (rule ccontr)
        assume "index_of ''<?'' pre \<noteq> None"
        then obtain i where i: "index_of ''<?'' pre = Some i" by auto
        then have "index_of ''<?'' t = Some i"
          using index_of_extend [OF i, of "''<?'' @ body"] t by simp
        then have "i = length pre" using Some len by simp
        then show False using index_of_Some [OF i] by simp
      qed
      have ok_pre: "pieces_ok ps \<Longrightarrow> \<not> starts_with_text ps \<Longrightarrow>
          pieces_ok ((if pre = [] then [] else [PText pre]) @ ps)" for ps
        using pre_none by simp
      show ?thesis
      proof (cases "tag_close body")
        case None
        have i: "index_of ''<?'' (pre @ ''<?'' @ body) = Some start" using Some t by simp
        have "tokenize_template parse_expr path table off t =
            ((if pre = [] then [] else [text_node table off pre]),
             [new_diagnostic path (position_at table (int (off + start))) ''HIM1201'' ''unterminated template tag''])"
        proof -
          have d: "drop (Suc (Suc start)) t = body" "take start t = pre" by (simp_all add: body_def pre_def)
          have "(pre = []) = (start = 0)" using len by auto
          with d show ?thesis
            using None nonempty Some by (cases start) (simp_all add: tokenize_template.simps [of _ _ _ _ t])
        qed
        then show ?thesis
          using None ok_pre [of "[]"] len
          by (intro exI [of _ "if pre = [] then [] else [PText pre]"] exI [of _ "''<?'' @ body"])
            (auto simp: t template_bytes_def)
      next
        case (Some close)
        then obtain rest where rest: "body = take close body @ ''?>'' @ rest"
          "length (take close body) = close" "tag_inner (take close body)"
          by (rule tag_close_Some)
        define inner where "inner = take close body"
        have b: "body = inner @ ''?>'' @ rest" using rest(1) unfolding inner_def .
        have t': "t = pre @ ''<?'' @ inner @ ''?>'' @ rest" using t b by simp
        have "length rest < length t" unfolding t' by simp
        from less.hyps [OF this, of "off + length pre + length inner + 4"]
        obtain ps tail where ps: "rest = template_bytes ps @ tail" "pieces_ok ps"
          "tail = [] \<or> has_prefix ''<?'' tail \<and> tag_close (drop 2 tail) = None"
          "tokenize_template parse_expr path table (off + length pre + length inner + 4) rest =
           (fst (pieces_result parse_expr path table (off + length pre + length inner + 4) ps),
            snd (pieces_result parse_expr path table (off + length pre + length inner + 4) ps)
            @ (if tail = [] then []
               else [new_diagnostic path (position_at table
                       (int (off + length pre + length inner + 4 + length (template_bytes ps))))
                       ''HIM1201'' ''unterminated template tag'']))"
          by blast
        let ?ps = "(if pre = [] then [] else [PText pre]) @ PTag inner # ps"
        have tag: "tag_inner inner" using rest(3) unfolding inner_def .
        have ok: "pieces_ok ?ps"
          using ps(2) tag by (intro ok_pre) simp_all
        have bytes: "template_bytes ?ps = pre @ ''<?'' @ inner @ ''?>'' @ template_bytes ps"
          by (simp add: template_bytes_def)
        have "tokenize_template parse_expr path table off t =
           (fst (pieces_result parse_expr path table off ?ps),
            snd (pieces_result parse_expr path table off ?ps)
            @ (if tail = [] then []
               else [new_diagnostic path (position_at table (int (off + length (template_bytes ?ps))))
                       ''HIM1201'' ''unterminated template tag'']))"
          unfolding t' tokenize_tag [OF tag disjI2 [OF pre_none]] Let_def ps(4) bytes
          by (simp add: algebra_simps Let_def)
        then show ?thesis
          using ok ps(3) bytes t' ps(1) by (intro exI [of _ ?ps] exI [of _ tail]) simp
      qed
    qed
  qed
qed

text \<open>
  No byte of a template is lost. Every template is a sequence of such pieces, followed by
  nothing or by an opening delimiter whose tag never ends; the nodes and diagnostics are those of the
  pieces, and an unterminated tag is one diagnostic at its opening delimiter.
\<close>
theorem tokenize_total:
  "\<exists>ps tail. t = template_bytes ps @ tail \<and> pieces_ok ps
     \<and> (tail = [] \<or> has_prefix ''<?'' tail \<and> tag_close (drop 2 tail) = None)
     \<and> tokenize_template parse_expr path table off t =
         (fst (pieces_result parse_expr path table off ps),
          snd (pieces_result parse_expr path table off ps)
          @ (if tail = [] then []
             else [new_diagnostic path (position_at table (int (off + length (template_bytes ps))))
                     ''HIM1201'' ''unterminated template tag'']))"
  by (rule tokenize_shape)

end
