(* ===== verification/Header_Parser.thy ===== *)
theory Header_Parser
  imports Template_Lexer Go_Paths
begin

section \<open>The header and whole files: the rest of internal/compiler/parse.go\<close>

text \<open>
  A file is a header, read by Go's own scanner and parser, and a template. What the Go standard
  library's \<open>go/scanner\<close>, \<open>go/parser\<close>, \<open>go/printer\<close> and \<open>strconv.Unquote\<close> give is data of
  the record \<open>go_tools\<close>: the token list of a text, the declarations of a parsed file (with the
  offsets the code reads off them), and the error of an expression.
\<close>

datatype go_token =
  TokFunc | TokLParen | TokRParen | TokLBrack | TokRBrack | TokLBrace | TokRBrace | TokOther

text \<open>An import: its name, its path after unquoting (\<open>None\<close>: \<open>Unquote\<close> fails), offsets.\<close>

record import_spec =
  spec_name :: "bytes option"
  spec_path :: "bytes option"
  spec_pos :: nat
  spec_path_pos :: nat

text \<open>
  A function: receiver, number of results, the offset of its body's brace, and its printed type
  (\<open>formatNode\<close>: the text or the printer's error).
\<close>

record func_decl =
  fd_name :: bytes
  fd_pos :: nat
  fd_receiver :: bool
  fd_results :: nat
  fd_body :: "nat option"
  fd_type :: "bytes + bytes"

datatype header_decl =
    ImportDecl "import_spec list"
  | GenDecl nat
  | FuncDecl func_decl
  | OtherDecl nat

record header_ast =
  ha_package :: bytes
  ha_decls :: "header_decl list"

record go_tools =
  go_scan :: "bytes \<Rightarrow> (go_token \<times> nat) list"
  go_parse_file :: "bytes \<Rightarrow> go_error + header_ast"
  go_parse_expr :: "bytes \<Rightarrow> go_error option"

definition header_open :: bytes where "header_open = ''<?sando''"

definition is_space :: "byte \<Rightarrow> bool" where [byte_class]:
  "is_space b = (b = CHR '' '' \<or> b = CHR 0x09 \<or> b = CHR 0x0D \<or> b = CHR 0x0A)"

subsection \<open>insertSyntheticFunctionBody\<close>

text \<open>The three phases of the scan: before \<open>func\<close>, before the parameter list, inside it.\<close>

fun scan_parameters :: "int \<Rightarrow> (go_token \<times> nat) list \<Rightarrow> nat option" where
  "scan_parameters depth [] = None"
| "scan_parameters depth ((tok, pos) # ts) =
     (case tok of
        TokLParen \<Rightarrow> scan_parameters (depth + 1) ts
      | TokRParen \<Rightarrow> (if depth - 1 = 0 then Some (pos + 1) else scan_parameters (depth - 1) ts)
      | _ \<Rightarrow> scan_parameters depth ts)"

fun scan_signature :: "nat \<Rightarrow> nat \<Rightarrow> (go_token \<times> nat) list \<Rightarrow> nat option" where
  "scan_signature square curly [] = None"
| "scan_signature square curly ((tok, pos) # ts) =
     (case tok of
        TokLBrack \<Rightarrow> scan_signature (square + 1) curly ts
      | TokRBrack \<Rightarrow> scan_signature (if 0 < square then square - 1 else square) curly ts
      | TokLBrace \<Rightarrow> scan_signature square (curly + 1) ts
      | TokRBrace \<Rightarrow> scan_signature square (if 0 < curly then curly - 1 else curly) ts
      | TokLParen \<Rightarrow>
          (if square = 0 \<and> curly = 0 then scan_parameters 1 ts else scan_signature square curly ts)
      | _ \<Rightarrow> scan_signature square curly ts)"

fun scan_function :: "(go_token \<times> nat) list \<Rightarrow> nat option" where
  "scan_function [] = None"
| "scan_function ((tok, pos) # ts) = (if tok = TokFunc then scan_signature 0 0 ts else scan_function ts)"

definition insert_synthetic_function_body :: "go_tools \<Rightarrow> bytes \<Rightarrow> bytes \<times> nat" where
  "insert_synthetic_function_body tools declarations =
     (let trimmed = trim_right ascii_blank declarations;
          insertion = (case scan_function (go_scan tools trimmed) of
              None \<Rightarrow> length trimmed
            | Some i \<Rightarrow> (if length trimmed < i then length trimmed else i))
      in (take insertion trimmed @ '' {}'' @ drop insertion trimmed, insertion + 1))"

subsection \<open>splitFormattedFuncType\<close>

text \<open>
  The loop: \<open>None\<close> for the quote is the code's zero byte; the result is the index of the
  parameter list.
\<close>

fun split_loop :: "nat \<Rightarrow> byte option \<Rightarrow> bool \<Rightarrow> nat \<Rightarrow> bytes \<Rightarrow> nat option" where
  "split_loop depth quote escaped index [] = None"
| "split_loop depth quote escaped index (b # s) =
     (case quote of
        Some q \<Rightarrow>
          (if q \<noteq> CHR 0x60 \<and> escaped then split_loop depth quote False (Suc index) s
           else if q \<noteq> CHR 0x60 \<and> b = CHR 0x5C then split_loop depth quote True (Suc index) s
           else if b = q then split_loop depth None escaped (Suc index) s
           else split_loop depth quote escaped (Suc index) s)
      | None \<Rightarrow>
          (if b = CHR 0x22 \<or> b = CHR 0x27 \<or> b = CHR 0x60
           then split_loop depth (Some b) escaped (Suc index) s
           else if b = CHR ''['' then split_loop (depth + 1) None escaped (Suc index) s
           else if b = CHR '']''
             then split_loop (if 0 < depth then depth - 1 else depth) None escaped (Suc index) s
           else if b = CHR ''('' \<and> depth = 0 then Some index
           else split_loop depth None escaped (Suc index) s))"

definition split_formatted_func_type :: "bytes \<Rightarrow> bytes + (bytes \<times> bytes)" where
  "split_formatted_func_type formatted =
     (let remainder = trim_space (trim_prefix ''func'' formatted)
      in case split_loop 0 None False 0 remainder of
           None \<Rightarrow> Inl ''formatted function type has no parameter list''
         | Some i \<Rightarrow> Inr (trim_space (take i remainder), trim_space (drop i remainder)))"

subsection \<open>parseHeader\<close>

definition parser_diagnostics ::
  "bytes \<Rightarrow> go_error \<Rightarrow> nat \<Rightarrow> position_table \<Rightarrow> bytes \<Rightarrow> bytes \<Rightarrow> diagnostic list" where
  "parser_diagnostics path err offset table dcode prefix_text =
     (case err of
        ErrorList errors \<Rightarrow>
          map (\<lambda>(at, message). new_diagnostic path (position_at table (int (offset + at))) dcode
                 (prefix_text @ '': '' @ message)) errors
      | OtherError message \<Rightarrow>
          [new_diagnostic path (position_at table (int offset)) dcode (prefix_text @ '': '' @ message)])"

record parsed_header =
  ph_package :: bytes
  ph_name :: bytes
  ph_type_params :: bytes
  ph_params :: bytes
  ph_imports :: "source_import list"
  ph_function_pos :: source_position

text \<open>A diagnostic at an offset of the header.\<close>

definition header_problem ::
  "bytes \<Rightarrow> position_table \<Rightarrow> nat \<Rightarrow> bytes \<Rightarrow> bytes \<Rightarrow> diagnostic" where
  "header_problem path table offset dcode message =
     new_diagnostic path (position_at table (int offset)) dcode message"

fun read_imports ::
  "bytes \<Rightarrow> position_table \<Rightarrow> nat \<Rightarrow> import_spec list \<Rightarrow> source_import list \<times> diagnostic list" where
  "read_imports path table offset [] = ([], [])"
| "read_imports path table offset (spec # specs) =
     (let rest = read_imports path table offset specs
      in if spec_path spec = None \<or> spec_path spec = Some []
         then (fst rest, header_problem path table (offset + spec_path_pos spec) ''HIM1112'' ''invalid import path'' # snd rest)
         else
           (let alias = (case spec_name spec of None \<Rightarrow> [] | Some n \<Rightarrow> n) in
            if alias = ''.''
            then (fst rest, header_problem path table (offset + spec_pos spec) ''HIM1113'' ''dot imports are not supported in .sando headers'' # snd rest)
            else (\<lparr>import_alias = alias, import_path = the (spec_path spec)\<rparr> # fst rest, snd rest)))"

text \<open>The loop over the declarations: the first function, the imports and the diagnostics.\<close>

fun read_decls ::
  "bytes \<Rightarrow> position_table \<Rightarrow> nat \<Rightarrow> func_decl option \<Rightarrow> header_decl list
   \<Rightarrow> func_decl option \<times> source_import list \<times> diagnostic list" where
  "read_decls path table offset function [] = (function, [], [])"
| "read_decls path table offset function (GenDecl pos # ds) =
     (case read_decls path table offset function ds of (f, imports, diags) \<Rightarrow>
        (f, imports, header_problem path table (offset + pos) ''HIM1111'' ''header may contain only imports and one component function signature'' # diags))"
| "read_decls path table offset function (ImportDecl specs # ds) =
     (case read_decls path table offset function ds of (f, imports, diags) \<Rightarrow>
        (f, fst (read_imports path table offset specs) @ imports,
            snd (read_imports path table offset specs) @ diags))"
| "read_decls path table offset function (FuncDecl g # ds) =
     (case function of
        Some _ \<Rightarrow>
          (case read_decls path table offset function ds of (f, imports, diags) \<Rightarrow>
             (f, imports, header_problem path table (offset + fd_pos g) ''HIM1114'' ''a .sando file declares exactly one component'' # diags))
      | None \<Rightarrow> read_decls path table offset (Some g) ds)"
| "read_decls path table offset function (OtherDecl pos # ds) =
     (case read_decls path table offset function ds of (f, imports, diags) \<Rightarrow>
        (f, imports, header_problem path table (offset + pos) ''HIM1111'' ''unsupported declaration in header'' # diags))"

text \<open>The checks of the function signature.\<close>

definition check_function ::
  "bytes \<Rightarrow> position_table \<Rightarrow> nat \<Rightarrow> bytes \<Rightarrow> nat \<Rightarrow> func_decl \<Rightarrow> diagnostic list" where
  "check_function path table offset package brace f =
     (let at = offset + fd_pos f in
      (if fd_name f = ''init'' \<or> package = ''main'' \<and> fd_name f = ''main''
       then [header_problem path table at ''HIM1123''
               (package @ ''.'' @ fd_name f @ '' is reserved by Go and cannot be a component API'')] else [])
      @ (if fd_receiver f then [header_problem path table at ''HIM1116'' ''component functions cannot have receivers''] else [])
      @ (if fd_results f \<noteq> 0 then [header_problem path table at ''HIM1117'' ''component signatures do not declare results; Hime-san generates sando.Component''] else [])
      @ (case fd_body f of
           None \<Rightarrow> [header_problem path table at ''HIM1118'' ''component signature could not be parsed'']
         | Some body \<Rightarrow>
             (if body \<noteq> brace then [header_problem path table (offset + body) ''HIM1119'' ''component signature must be bodyless; ?> begins the template body''] else [])))"

definition sort_imports :: "source_import list \<Rightarrow> source_import list" where
  "sort_imports imports = sort_key (\<lambda>i. (import_path i, import_alias i)) imports"

text \<open>The paths that occur twice, once per neighbouring pair; \<open>%q\<close> is the parameter \<open>quote\<close>.\<close>

fun duplicate_imports ::
  "(bytes \<Rightarrow> bytes) \<Rightarrow> bytes \<Rightarrow> position_table \<Rightarrow> nat \<Rightarrow> source_import list \<Rightarrow> diagnostic list" where
  "duplicate_imports quote path table offset (i # j # rest) =
     (if import_path i = import_path j
      then [header_problem path table offset ''HIM1122'' (''import path '' @ quote (import_path j) @ '' is declared more than once'')]
      else []) @ duplicate_imports quote path table offset (j # rest)"
| "duplicate_imports quote path table offset _ = []"

definition finish_header ::
  "(bytes \<Rightarrow> bytes) \<Rightarrow> bytes \<Rightarrow> position_table \<Rightarrow> nat \<Rightarrow> bytes \<Rightarrow> func_decl \<Rightarrow> source_import list
   \<Rightarrow> diagnostic list \<Rightarrow> parsed_header option \<times> diagnostic list" where
  \<comment> \<open>\<open>parseHeader\<close> from \<open>formatNode\<close> on\<close>
  "finish_header quote path table offset package f imports diags =
     (let at = offset + fd_pos f in
      case fd_type f of
        Inl err \<Rightarrow> (None, diags @ [header_problem path table at ''HIM1120'' (''could not format component parameters: '' @ err)])
      | Inr formatted \<Rightarrow>
         (case split_formatted_func_type formatted of
            Inl err \<Rightarrow> (None, diags @ [header_problem path table at ''HIM1121'' (''could not recover formatted component signature: '' @ err)])
          | Inr (type_params, params) \<Rightarrow>
             (let imports = sort_imports imports;
                  diags = diags @ duplicate_imports quote path table offset imports
              in if has_errors diags then (None, diags)
                 else (Some \<lparr>ph_package = package, ph_name = fd_name f, ph_type_params = type_params,
                             ph_params = params, ph_imports = imports,
                             ph_function_pos = position_at table (int at)\<rparr>, diags))))"

definition parse_header ::
  "go_tools \<Rightarrow> (bytes \<Rightarrow> bytes) \<Rightarrow> bytes \<Rightarrow> bytes \<Rightarrow> nat \<Rightarrow> position_table
   \<Rightarrow> parsed_header option \<times> diagnostic list" where
  "parse_header tools quote path declarations offset table =
     (let (input, brace) = insert_synthetic_function_body tools declarations in
      case go_parse_file tools input of
        Inl err \<Rightarrow> (None, parser_diagnostics path err offset table ''HIM1110'' ''invalid Go header'')
      | Inr ast \<Rightarrow>
         (case read_decls path table offset None (ha_decls ast) of (function, imports, diags) \<Rightarrow>
            (case function of
               None \<Rightarrow> (None, diags @ [header_problem path table offset ''HIM1115'' ''header must contain one bodyless component function signature''])
             | Some f \<Rightarrow>
                (let diags = diags @ check_function path table offset (ha_package ast) brace f in
                 if has_errors diags then (None, diags)
                 else finish_header quote path table offset (ha_package ast) f imports diags))))"

subsection \<open>parseSource\<close>

definition byte_order_mark :: bytes where
  "byte_order_mark = [CHR 0xEF, CHR 0xBB, CHR 0xBF]"

definition header_start :: "bytes \<Rightarrow> nat" where
  "header_start source =
     (let start = (if has_prefix byte_order_mark source then 3 else 0)
      in start + length (takeWhile is_space (drop start source)))"

text \<open>
  The offsets the file is cut at: the header marker, the header's body up to the closing
  delimiter, and the declarations after the target name; or the diagnostic of the first check that
  fails.
\<close>

definition split_target ::
  "bytes \<Rightarrow> position_table \<Rightarrow> bytes \<Rightarrow> nat \<Rightarrow> diagnostic + (bytes \<times> nat)" where
  \<comment> \<open>from \<open>directiveBody\<close> to the declarations and their offset\<close>
  "split_target path table body start =
     (let directive = trim_left ascii_blank body;
          at = start + (length body - length directive)
      in if length directive < 2 \<or> take 2 directive \<noteq> ''go'' \<or> 2 < length directive \<and> \<not> is_space (directive ! 2)
         then Inl (header_problem path table at ''HIM1103'' ''unsupported or missing header target; v1 requires <?sando go'')
         else
           (let after = drop 2 directive;
                declarations = trim_left ascii_blank after;
                offset = at + 2 + (length after - length declarations)
            in if declarations = []
               then Inl (header_problem path table offset ''HIM1104'' ''header must declare a package and one component function'')
               else Inr (declarations, offset)))"

definition locate_header ::
  "bytes \<Rightarrow> position_table \<Rightarrow> bytes \<Rightarrow> diagnostic + (bytes \<times> nat \<times> nat)" where
  "locate_header path table source =
     (if \<not> valid_utf8 source
      then Inl (header_problem path table 0 ''HIM1001'' ''source is not valid UTF-8'')
      else (case index_byte (CHR 0x00) source of
         Some offset \<Rightarrow> Inl (header_problem path table offset ''HIM1002'' ''NUL bytes are not permitted in .sando sources'')
       | None \<Rightarrow>
          (let start = header_start source; after = start + length header_open in
           if \<not> has_prefix header_open (drop start source)
           then Inl (header_problem path table start ''HIM1101'' ''file must begin (after optional UTF-8 BOM and whitespace) with a <?sando go header'')
           else if length source \<le> after \<or> \<not> is_space (source ! after)
           then Inl (header_problem path table after ''HIM1105'' ''whitespace is required between <?sando and the target name'')
           else (case find_go_delimiter source after of
               None \<Rightarrow> Inl (header_problem path table start ''HIM1102'' ''unterminated <?sando header'')
             | Some close \<Rightarrow>
                 (case split_target path table (drop after (take close source)) after of
                    Inl d \<Rightarrow> Inl d
                  | Inr (declarations, offset) \<Rightarrow> Inr (declarations, offset, close))))))"

definition parse_source ::
  "go_tools \<Rightarrow> (bytes \<Rightarrow> bytes) \<Rightarrow> bytes \<Rightarrow> bytes \<Rightarrow> source_file option \<times> diagnostic list" where
  "parse_source tools quote path source =
     (let table = new_position_table source in
      case locate_header path table source of
        Inl d \<Rightarrow> (None, [d])
      | Inr (declarations, offset, close) \<Rightarrow>
         (case parse_header tools quote path declarations offset table of
            (None, diags) \<Rightarrow> (None, diags)
          | (Some h, diags) \<Rightarrow>
             (let (nodes, template_diags) = tokenize_template (go_parse_expr tools) path table (close + 2)
                    (drop (close + 2) source);
                  diags = diags @ template_diags;
                  file = \<lparr>file_path = path, file_mapping = path_base path, file_package = ph_package h,
                          file_name = ph_name h, file_type_params = ph_type_params h,
                          file_params = ph_params h, file_imports = ph_imports h, file_nodes = nodes,
                          file_source = source, file_header_end = close + 2,
                          file_function_pos = ph_function_pos h\<rparr>
              in if has_errors diags then (None, diags) else (Some file, diags))))"

declare header_open_def [go_eval] is_space_def [go_eval] insert_synthetic_function_body_def [go_eval]
  split_formatted_func_type_def [go_eval] parser_diagnostics_def [go_eval] header_problem_def [go_eval]
  check_function_def [go_eval] sort_imports_def [go_eval] finish_header_def [go_eval]
  parse_header_def [go_eval] byte_order_mark_def [go_eval]
  header_start_def [go_eval] split_target_def [go_eval] locate_header_def [go_eval]
  parse_source_def [go_eval]

subsection \<open>Where the synthetic body goes\<close>

definition token_kinds :: "(go_token \<times> nat) list \<Rightarrow> go_token set" where
  "token_kinds ts = fst ` set ts"

text \<open>
  The tokens of a signature: inside brackets and braces anything nests; outside them there is no
  parenthesis before the parameter list; inside the list parentheses balance.
\<close>

inductive enclosed :: "(go_token \<times> nat) list \<Rightarrow> bool" where
  enclosed_end: "enclosed []"
| enclosed_tok: "fst t \<notin> {TokLBrack, TokRBrack, TokLBrace, TokRBrace} \<Longrightarrow> enclosed ts \<Longrightarrow> enclosed (t # ts)"
| enclosed_square: "enclosed inner \<Longrightarrow> enclosed ts \<Longrightarrow> enclosed ((TokLBrack, p) # inner @ (TokRBrack, q) # ts)"
| enclosed_curly: "enclosed inner \<Longrightarrow> enclosed ts \<Longrightarrow> enclosed ((TokLBrace, p) # inner @ (TokRBrace, q) # ts)"

inductive signature_tokens :: "(go_token \<times> nat) list \<Rightarrow> bool" where
  signature_end: "signature_tokens []"
| signature_tok: "fst t \<notin> {TokLParen, TokLBrack, TokRBrack, TokLBrace, TokRBrace} \<Longrightarrow>
    signature_tokens ts \<Longrightarrow> signature_tokens (t # ts)"
| signature_square: "enclosed inner \<Longrightarrow> signature_tokens ts \<Longrightarrow>
    signature_tokens ((TokLBrack, p) # inner @ (TokRBrack, q) # ts)"
| signature_curly: "enclosed inner \<Longrightarrow> signature_tokens ts \<Longrightarrow>
    signature_tokens ((TokLBrace, p) # inner @ (TokRBrace, q) # ts)"

inductive parameter_tokens :: "(go_token \<times> nat) list \<Rightarrow> bool" where
  parameter_end: "parameter_tokens []"
| parameter_tok: "fst t \<notin> {TokLParen, TokRParen} \<Longrightarrow> parameter_tokens ts \<Longrightarrow> parameter_tokens (t # ts)"
| parameter_nest: "parameter_tokens inner \<Longrightarrow> parameter_tokens ts \<Longrightarrow>
    parameter_tokens ((TokLParen, p) # inner @ (TokRParen, q) # ts)"

lemma scan_enclosed:
  "enclosed ts \<Longrightarrow> 0 < square + curly \<Longrightarrow>
   scan_signature square curly (ts @ rest) = scan_signature square curly rest"
proof (induction ts arbitrary: square curly rest rule: enclosed.induct)
  case (enclosed_tok t ts)
  then show ?case by (cases t; cases "fst t") auto
qed simp_all

lemma scan_signature_tokens:
  "signature_tokens ts \<Longrightarrow> scan_signature 0 0 (ts @ rest) = scan_signature 0 0 rest"
proof (induction ts arbitrary: rest rule: signature_tokens.induct)
  case (signature_tok t ts)
  then show ?case by (cases t; cases "fst t") auto
qed (simp_all add: scan_enclosed)

lemma scan_parameter_tokens:
  "parameter_tokens ts \<Longrightarrow> 0 < depth \<Longrightarrow> scan_parameters depth (ts @ rest) = scan_parameters depth rest"
proof (induction ts arbitrary: depth rest rule: parameter_tokens.induct)
  case (parameter_tok t ts)
  then show ?case by (cases t; cases "fst t") auto
qed simp_all

lemma scan_function_skip:
  "TokFunc \<notin> token_kinds pre \<Longrightarrow> scan_function (pre @ (TokFunc, p) # ts) = scan_signature 0 0 ts"
  by (induction pre) (auto simp: token_kinds_def)

text \<open>
  The body the compiler adds to the bodyless header function goes right behind the parameter
  list. Let Go's scanner read the header as anything before the first \<open>func\<close>, the name and type
  parameters (brackets and braces nest), and a balanced parameter list that ends at offset \<open>q\<close>.
  Then the parsed text is the header with a blank and an empty body inserted after that parenthesis,
  nothing removed, and the offset returned is that of the inserted brace.
\<close>
theorem synthetic_body_after_parameters:
  assumes tokens: "go_scan tools (trim_right ascii_blank declarations)
      = pre @ (TokFunc, f) # name @ (TokLParen, p) # params @ (TokRParen, q) # rest"
    and grammar: "TokFunc \<notin> token_kinds pre" "signature_tokens name" "parameter_tokens params"
    and inside: "q < length (trim_right ascii_blank declarations)"
  shows "insert_synthetic_function_body tools declarations =
      (take (q + 1) (trim_right ascii_blank declarations) @ '' {}''
         @ drop (q + 1) (trim_right ascii_blank declarations), q + 2)
    \<and> fst (insert_synthetic_function_body tools declarations)
        ! snd (insert_synthetic_function_body tools declarations) = CHR ''{''"
proof -
  have "scan_function (go_scan tools (trim_right ascii_blank declarations)) = Some (q + 1)"
    unfolding tokens scan_function_skip [OF grammar(1)] scan_signature_tokens [OF grammar(2)]
    using scan_parameter_tokens [OF grammar(3), of 1 "(TokRParen, q) # rest"] by simp
  then show ?thesis
    using inside by (simp add: insert_synthetic_function_body_def Let_def nth_append)
qed

definition sample_tools :: go_tools where
  "sample_tools = \<lparr>go_scan = (\<lambda>_. [(TokFunc, 0), (TokOther, 5), (TokLParen, 6), (TokRParen, 7)]),
     go_parse_file = (\<lambda>_. Inr \<lparr>ha_package = ''p'', ha_decls = [FuncDecl \<lparr>fd_name = ''A'', fd_pos = 0,
       fd_receiver = False, fd_results = 0, fd_body = Some 9, fd_type = Inr ''func()''\<rparr>]\<rparr>),
     go_parse_expr = (\<lambda>_. None)\<rparr>"

theorem synthetic_body_after_parameters_witness:
  "insert_synthetic_function_body sample_tools ''func A()'' = (''func A() {}'', 9)
   \<and> ''func A() {}'' ! 9 = CHR ''{''"
proof -
  have trim: "trim_right ascii_blank ''func A()'' = ''func A()''"
    by (simp add: go_eval)
  have name: "signature_tokens [(TokOther, 5)]"
    by (intro signature_tok signature_end) simp_all
  show ?thesis
    using synthetic_body_after_parameters [of sample_tools "''func A()''" "[]" 0 "[(TokOther, 5)]" 6 "[]" 7 "[]"]
      name parameter_end
    by (simp add: trim sample_tools_def token_kinds_def)
qed

subsection \<open>Errors are reported, and only errors\<close>

lemma all_errors_imports: "list_all is_error (snd (read_imports path table offset specs))"
  by (induction specs) (simp_all add: Let_def header_problem_def)

lemma all_errors_decls: "read_decls path table offset f ds = (g, imps, diags) \<Longrightarrow> list_all is_error diags"
  by (induction path table offset f ds arbitrary: g imps diags rule: read_decls.induct)
    (auto simp: header_problem_def all_errors_imports split: prod.splits option.splits)

lemma all_errors_check: "list_all is_error (check_function path table offset package brace f)"
  by (simp add: check_function_def Let_def header_problem_def split: option.split)

lemma all_errors_duplicates: "list_all is_error (duplicate_imports quote path table offset imps)"
  by (induction quote path table offset imps rule: duplicate_imports.induct)
    (simp_all add: header_problem_def)

lemma all_errors_parser: "list_all is_error (parser_diagnostics path err offset table c p)"
  by (auto simp: parser_diagnostics_def list_all_iff split: go_error.split)

lemma all_errors_expression: "list_all is_error (expression_diagnostics path err fallback table offset)"
  by (auto simp: expression_diagnostics_def list_all_iff split: go_error.split)

lemma all_errors_tag: "list_all is_error (snd (template_tag parse_expr path table offset inner))"
  by (auto simp: template_tag_def Let_def all_errors_expression split: option.split)

lemma all_errors_tokenize: "list_all is_error (snd (tokenize_template parse_expr path table offset t))"
proof -
  have pieces: "list_all is_error (snd (pieces_result parse_expr path table off ps))" for off ps
    by (induction parse_expr path table off ps rule: pieces_result.induct)
      (simp_all add: Let_def all_errors_tag)
  show ?thesis
    using tokenize_shape [where t = t and parse_expr = parse_expr and path = path and table = table and off = offset]
  proof (elim exE conjE)
    fix ps tail
    assume "tokenize_template parse_expr path table offset t =
      (fst (pieces_result parse_expr path table offset ps),
       snd (pieces_result parse_expr path table offset ps)
       @ (if tail = [] then []
          else [new_diagnostic path (position_at table (int (offset + length (template_bytes ps))))
                  ''HIM1201'' ''unterminated template tag'']))"
    then show ?thesis using pieces by simp
  qed
qed

lemma all_errors_has: "list_all is_error ds \<Longrightarrow> has_errors ds \<longleftrightarrow> ds \<noteq> []"
  by (cases ds) (auto simp: has_errors_def)

definition tools_report :: "go_tools \<Rightarrow> bool" where
  \<comment> \<open>the Go parser does not fail with an empty error list (\<open>scanner.ErrorList.Err\<close> is nil then)\<close>
  "tools_report tools =
     ((\<forall>s. go_parse_file tools s \<noteq> Inl (ErrorList [])) \<and> (\<forall>s. go_parse_expr tools s \<noteq> Some (ErrorList [])))"

definition good_imports :: "source_import list \<Rightarrow> bool" where
  "good_imports imps =
     (sorted (map import_path imps) \<and> distinct (map import_path imps)
      \<and> list_all (\<lambda>i. import_alias i \<noteq> ''.'' \<and> import_path i \<noteq> []) imps)"

lemma read_imports_ok:
  "list_all (\<lambda>i. import_alias i \<noteq> ''.'' \<and> import_path i \<noteq> []) (fst (read_imports path table offset specs))"
  by (induction specs) (auto simp: Let_def)

lemma read_decls_ok:
  "read_decls path table offset f ds = (g, imps, diags) \<Longrightarrow>
   list_all (\<lambda>i. import_alias i \<noteq> ''.'' \<and> import_path i \<noteq> []) imps"
  by (induction path table offset f ds arbitrary: g imps diags rule: read_decls.induct)
    (use read_imports_ok in \<open>auto split: prod.splits option.splits\<close>)

lemma no_duplicates:
  "duplicate_imports quote path table offset imps = [] \<Longrightarrow> sorted (map import_path imps) \<Longrightarrow>
   distinct (map import_path imps)"
proof (induction quote path table offset imps rule: duplicate_imports.induct)
  case (1 quote path table offset i j rest)
  have "import_path i \<noteq> import_path j" using "1.prems"(1) by (auto split: if_splits)
  moreover have "distinct (map import_path (j # rest))" using 1 by simp
  ultimately show ?case using "1.prems"(2) by force
qed simp_all

lemma sort_imports_sorted: "sorted (map import_path (sort_imports imps))"
proof -
  have "sorted (map (\<lambda>i. (import_path i, import_alias i)) (sort_imports imps))"
    by (simp add: sort_imports_def)
  then show ?thesis
    unfolding sorted_wrt_map sorted_map
    by (rule sorted_wrt_mono_rel [rotated]) (auto simp: less_eq_prod_def)
qed

lemma set_sort_imports [simp]: "set (sort_imports imps) = set imps"
  by (simp add: sort_imports_def)

lemma finish_header_result:
  assumes "list_all (\<lambda>i. import_alias i \<noteq> ''.'' \<and> import_path i \<noteq> []) imps"
    and "finish_header quote path table offset package f imps [] = (r, ds)"
  shows "list_all is_error ds \<and> (case r of None \<Rightarrow> ds \<noteq> [] | Some h \<Rightarrow> ds = [] \<and> good_imports (ph_imports h))"
proof -
  let ?dup = "duplicate_imports quote path table offset (sort_imports imps)"
  have "?dup = [] \<Longrightarrow> good_imports (sort_imports imps)"
    using no_duplicates [OF _ sort_imports_sorted] sort_imports_sorted assms(1)
    by (auto simp: good_imports_def list_all_iff)
  then show ?thesis
    using assms(2) all_errors_has [OF all_errors_duplicates, of quote path table offset "sort_imports imps"]
      all_errors_duplicates [of quote path table offset "sort_imports imps"]
    by (auto simp: finish_header_def Let_def header_problem_def split: sum.splits prod.splits if_splits)
qed

lemma parse_header_result:
  assumes tools: "tools_report tools" and r: "parse_header tools quote path declarations offset table = (r, ds)"
  shows "list_all is_error ds \<and> (case r of None \<Rightarrow> ds \<noteq> [] | Some h \<Rightarrow> ds = [] \<and> good_imports (ph_imports h))"
proof -
  obtain input brace where ib: "insert_synthetic_function_body tools declarations = (input, brace)" by fastforce
  show ?thesis
  proof (cases "go_parse_file tools input")
    case (Inl err)
    have "err \<noteq> ErrorList []" using tools Inl by (metis tools_report_def)
    then have "parser_diagnostics path err offset table c p \<noteq> []" for c p
      by (cases err) (auto simp: parser_diagnostics_def)
    then show ?thesis
      using r Inl ib all_errors_parser [of path err offset table]
      by (auto simp: parse_header_def)
  next
    case (Inr ast)
    obtain f imps diags where d: "read_decls path table offset None (ha_decls ast) = (f, imps, diags)"
      by (cases "read_decls path table offset None (ha_decls ast)") auto
    note errors = all_errors_decls [OF d] and imps = read_decls_ok [OF d]
    show ?thesis
    proof (cases f)
      case None
      then show ?thesis
        using r Inr ib d errors by (auto simp: parse_header_def header_problem_def)
    next
      case (Some g)
      let ?diags = "diags @ check_function path table offset (ha_package ast) brace g"
      have all: "list_all is_error ?diags" using errors all_errors_check by simp
      show ?thesis
      proof (cases "?diags = []")
        case True
        then have "(r, ds) = finish_header quote path table offset (ha_package ast) g imps []"
          using r Inr ib d Some by (simp add: parse_header_def)
        then show ?thesis using finish_header_result [OF imps] by metis
      next
        case False
        then have "has_errors ?diags" using all_errors_has [OF all] by blast
        then have "r = None" "ds = ?diags"
          using r Inr ib d Some by (auto simp: parse_header_def Let_def)
        then show ?thesis using all False by simp
      qed
    qed
  qed
qed

subsection \<open>The header's place\<close>

lemma header_start_split:
  assumes "has_prefix header_open (drop (header_start source) source)"
  obtains lead where "source = lead @ header_open @ drop (header_start source + length header_open) source"
    "length lead = header_start source" "list_all is_space (trim_prefix byte_order_mark lead)"
proof -
  define k where "k = (if has_prefix byte_order_mark source then 3 else (0::nat))"
  define sp where "sp = takeWhile is_space (drop k source)"
  have start: "header_start source = k + length sp"
    by (simp add: header_start_def k_def sp_def)
  obtain rest where rest: "drop (header_start source) source = header_open @ rest"
    using assms by (auto simp: has_prefix_iff)
  have sp: "drop k source = sp @ drop (header_start source) source"
    unfolding sp_def start by (metis add.commute drop_drop dropWhile_eq_drop takeWhile_dropWhile_id)
  have src: "source = (take k source @ sp) @ header_open @ rest"
    using sp rest by (metis append.assoc append_take_drop_id)
  have len: "length (take k source @ sp) = header_start source"
    unfolding start k_def by (auto simp: has_prefix_iff byte_order_mark_def)
  have "drop (header_start source + length header_open) source = rest"
    by (subst src) (simp add: len [symmetric])
  moreover have "list_all is_space sp" unfolding sp_def by (auto simp: list_all_iff dest: set_takeWhileD)
  moreover have "trim_prefix byte_order_mark (take k source @ sp) = sp"
  proof (cases "has_prefix byte_order_mark source")
    case True
    then have "take k source = byte_order_mark" by (simp add: k_def has_prefix_take byte_order_mark_def numeral_eq_Suc)
    then show ?thesis by simp
  next
    case False
    then have "source = sp @ header_open @ rest" using src by (simp add: k_def)
    then have "\<not> has_prefix byte_order_mark sp"
      using False has_prefix_append_right [of byte_order_mark sp "header_open @ rest"] by blast
    then show ?thesis using False by (simp add: k_def trim_prefix_def)
  qed
  ultimately show thesis using that [of "take k source @ sp"] src len by simp
qed

definition header_found :: "bytes \<Rightarrow> nat \<Rightarrow> bool" where
  \<comment> \<open>the header's closing delimiter stands at this offset\<close>
  "header_found source close =
     (valid_utf8 source \<and> CHR 0x00 \<notin> set source
      \<and> (\<exists>lead body template. source = lead @ header_open @ body @ ''?>'' @ template
           \<and> close = length (lead @ header_open @ body)
           \<and> list_all is_space (trim_prefix byte_order_mark lead) \<and> go_code body (''?>'' @ template)))"

lemma locate_header_result:
  "(case locate_header path table source of
      Inl d \<Rightarrow> is_error d
    | Inr (declarations, offset, close) \<Rightarrow> header_found source close)"
proof (cases "locate_header path table source")
  case (Inl d)
  then show ?thesis
    by (auto simp: locate_header_def split_target_def header_problem_def Let_def
        split: if_splits option.splits sum.splits)
next
  case (Inr r)
  obtain declarations offset close where r: "r = (declarations, offset, close)"
    by (cases r) auto
  let ?after = "header_start source + length header_open"
  have facts: "valid_utf8 source" "CHR 0x00 \<notin> set source"
    "has_prefix header_open (drop (header_start source) source)"
    "find_go_delimiter source ?after = Some close"
    using Inr r by (auto simp: locate_header_def Let_def split: if_splits option.splits sum.splits)
  obtain lead where lead: "source = lead @ header_open @ drop ?after source"
    "length lead = header_start source" "list_all is_space (trim_prefix byte_order_mark lead)"
    using header_start_split [OF facts(3)] by blast
  obtain body tail where body: "drop ?after source = body @ ''?>'' @ tail" "close = ?after + length body"
    "go_code body (''?>'' @ tail)"
    using facts(4) unfolding find_delimiter_iff by blast
  have "header_found source close"
    unfolding header_found_def using facts lead body
    by (intro conjI exI [of _ lead] exI [of _ body] exI [of _ tail]) simp_all
  then show ?thesis using Inr r by simp
qed

lemma parse_source_shape:
  assumes "tools_report tools"
  shows "case parse_source tools quote path source of
      (None, ds) \<Rightarrow> ds \<noteq> [] \<and> list_all is_error ds
    | (Some file, ds) \<Rightarrow> ds = [] \<and> file_source file = source \<and> good_imports (file_imports file)
        \<and> header_found source (file_header_end file - 2)
        \<and> tokenize_template (go_parse_expr tools) path (new_position_table source)
             (file_header_end file) (drop (file_header_end file) source) = (file_nodes file, [])"
proof (cases "locate_header path (new_position_table source) source")
  case (Inl d)
  then show ?thesis
    using locate_header_result [where path = path and table = "new_position_table source" and source = source]
    by (simp add: parse_source_def)
next
  case (Inr r)
  let ?table = "new_position_table source"
  obtain declarations offset close where r: "r = (declarations, offset, close)"
    by (cases r) auto
  have found: "header_found source close"
    using locate_header_result [where path = path and table = ?table and source = source] Inr r by simp
  obtain h ds where h: "parse_header tools quote path declarations offset ?table = (h, ds)" by fastforce
  note header = parse_header_result [OF assms h]
  obtain nodes tds where t: "tokenize_template (go_parse_expr tools) path ?table (close + 2)
      (drop (close + 2) source) = (nodes, tds)" by fastforce
  have "list_all is_error tds"
    using all_errors_tokenize [of "go_parse_expr tools" path ?table "close + 2" "drop (close + 2) source"] t by simp
  then have tds: "has_errors tds = (tds \<noteq> [])" "list_all is_error tds"
    using all_errors_has by blast+
  show ?thesis
  proof (cases h)
    case None
    then show ?thesis using Inr r h header by (simp add: parse_source_def)
  next
    case (Some ph)
    then show ?thesis
      using Inr r h header t tds found by (simp add: parse_source_def Let_def)
  qed
qed

text \<open>
  C40: Parsing a source file returns a file or reports errors, never both and never neither. A
  returned file is valid UTF-8 without NUL, begins (after an optional byte-order mark and white space)
  with a header that ends at the first delimiter outside literals and comments, has exactly the nodes
  of the template behind it, and imports each path once, in order, none as a dot import.
\<close>
theorem parse_source_reports:
  assumes "tools_report tools"
  shows "case parse_source tools quote path source of
      (None, ds) \<Rightarrow> ds \<noteq> [] \<and> list_all is_error ds
    | (Some file, ds) \<Rightarrow> ds = [] \<and> file_source file = source \<and> good_imports (file_imports file)
        \<and> header_found source (file_header_end file - 2)
        \<and> tokenize_template (go_parse_expr tools) path (new_position_table source)
             (file_header_end file) (drop (file_header_end file) source) = (file_nodes file, [])"
  by (rule parse_source_shape [OF assms])

definition sample_source :: bytes where
  "sample_source = ''<?sando go func A()?><p>''"

lemma sample_tools_report: "tools_report sample_tools"
  by (simp add: tools_report_def sample_tools_def)

theorem parse_source_reports_witness:
  "tools_report sample_tools
   \<and> (case parse_source sample_tools id ''a.san'' sample_source of
      (None, ds) \<Rightarrow> ds \<noteq> [] \<and> list_all is_error ds
    | (Some file, ds) \<Rightarrow> ds = [] \<and> file_source file = sample_source \<and> good_imports (file_imports file)
        \<and> header_found sample_source (file_header_end file - 2)
        \<and> tokenize_template (go_parse_expr sample_tools) ''a.san'' (new_position_table sample_source)
             (file_header_end file) (drop (file_header_end file) sample_source) = (file_nodes file, []))"
  by (rule conjI [OF sample_tools_report parse_source_reports [OF sample_tools_report]])

end
