(* ===== verification/Html_Entities.thy ===== *)
theory Html_Entities
  imports Go_Strings
begin

section \<open>html.UnescapeString\<close>

text \<open>
  Go's \<open>html.UnescapeString\<close>, which the context analysis applies to static attribute values.
  The table of named references is data of the Go distribution and is a parameter: \<open>entity\<close>
  gives the one or two runes of a name (with its semicolon, where the table has one), and the empty
  list for a name that is not in the table.
\<close>

record go_env =
  env_lower :: "nat \<Rightarrow> nat"
  env_entity :: "bytes \<Rightarrow> nat list"

text \<open>A concrete instance: ASCII lower case and no named references.\<close>

definition ascii_env :: go_env where
  "ascii_env = \<lparr>env_lower = (\<lambda>r. if 65 \<le> r \<and> r \<le> 90 then r + 32 else r), env_entity = (\<lambda>_. [])\<rparr>"

definition entity_replacement :: "nat list" where
  "entity_replacement =
     [8364, 129, 8218, 402, 8222, 8230, 8224, 8225, 710, 8240, 352, 8249, 338, 141, 381, 143,
      144, 8216, 8217, 8220, 8221, 8226, 8211, 8212, 732, 8482, 353, 8250, 339, 157, 382, 376]"

definition dec_value :: "byte \<Rightarrow> nat option" where
  "dec_value b = (if 48 \<le> code b \<and> code b \<le> 57 then Some (code b - 48) else None)"

text \<open>
  The digits of a numeric reference: the value (Go's \<open>rune\<close> is 32 bits wide) and the number
  of bytes read, a closing semicolon included.
\<close>

fun numeric_digits :: "(byte \<Rightarrow> nat option) \<Rightarrow> nat \<Rightarrow> nat \<Rightarrow> bytes \<Rightarrow> nat \<times> nat" where
  "numeric_digits digit base x [] = (x, 0)"
| "numeric_digits digit base x (c # s) =
     (case digit c of
        Some d \<Rightarrow> (case numeric_digits digit base ((base * x + d) mod 2 ^ 32) s of (y, n) \<Rightarrow> (y, Suc n))
      | None \<Rightarrow> (x, if c = CHR '';'' then 1 else 0))"

definition reference_rune :: "nat \<Rightarrow> nat" where
  "reference_rune x =
     (if 128 \<le> x \<and> x \<le> 159 then entity_replacement ! (x - 128)
      else if x = 0 \<or> 55296 \<le> x \<and> x \<le> 57343 \<or> 1114111 < x then 65533 else x)"

definition is_alnum :: "byte \<Rightarrow> bool" where [byte_class]:
  "is_alnum b = (97 \<le> code b \<and> code b \<le> 122 \<or> 65 \<le> code b \<and> code b \<le> 90 \<or> 48 \<le> code b \<and> code b \<le> 57)"

text \<open>The longest proper prefix of a name that is itself in the table, of at most 6 bytes.\<close>

fun longest_entity :: "(bytes \<Rightarrow> nat list) \<Rightarrow> bytes \<Rightarrow> nat \<Rightarrow> nat option" where
  "longest_entity ent name 0 = None"
| "longest_entity ent name (Suc j) =
     (if Suc j \<le> 1 then None
      else if length (ent (take (Suc j) name)) = 1 then Some (Suc j)
      else longest_entity ent name j)"

text \<open>
  One reference: what it is replaced by and how many bytes it takes. The argument is the string
  after the ampersand.
\<close>

definition unescape_numeric :: "bytes \<Rightarrow> bytes \<times> nat" where
  \<comment> \<open>the string after the ampersand and the number sign\<close>
  "unescape_numeric t =
     (let hex = (hd t = CHR ''x'' \<or> hd t = CHR ''X'');
          start = (if hex then 3 else 2);
          xn = (if hex then numeric_digits hex_value 16 0 (tl t) else numeric_digits dec_value 10 0 t)
      in if start + snd xn \<le> 3 then ([CHR ''&''], 1)
         else (encode_rune (reference_rune (fst xn)), start + snd xn))"

definition unescape_named :: "(bytes \<Rightarrow> nat list) \<Rightarrow> bytes \<Rightarrow> bytes \<times> nat" where
  "unescape_named ent s =
     (let base = takeWhile is_alnum s;
          name = base @ (if has_prefix '';'' (drop (length base) s) then '';'' else [])
      in if name \<noteq> [] \<and> ent name \<noteq> []
         then (concat (map encode_rune (ent name)), Suc (length name))
         else (case longest_entity ent name (min 6 (length name - 1)) of
             Some j \<Rightarrow> (concat (map encode_rune (ent (take j name))), Suc j)
           | None \<Rightarrow> (CHR ''&'' # name, Suc (length name))))"

definition unescape_reference :: "(bytes \<Rightarrow> nat list) \<Rightarrow> bytes \<Rightarrow> bytes \<times> nat" where
  "unescape_reference ent s =
     (if s = [] then ([CHR ''&''], 1)
      else if hd s = CHR ''#''
      then (if length s \<le> 2 then ([CHR ''&''], 1) else unescape_numeric (tl s))
      else unescape_named ent s)"

lemma unescape_numeric_pos: "0 < snd (unescape_numeric t)"
  by (simp add: unescape_numeric_def Let_def)

lemma unescape_named_pos: "0 < snd (unescape_named ent t)"
  by (simp add: unescape_named_def Let_def split: option.split)

lemma unescape_reference_pos: "0 < snd (unescape_reference ent s)"
  by (simp add: unescape_reference_def unescape_numeric_pos unescape_named_pos)

function html_unescape :: "(bytes \<Rightarrow> nat list) \<Rightarrow> bytes \<Rightarrow> bytes" where
  "html_unescape ent [] = []"
| "html_unescape ent (b # s) =
     (if b = CHR ''&''
      then fst (unescape_reference ent s) @ html_unescape ent (drop (snd (unescape_reference ent s)) (b # s))
      else b # html_unescape ent s)"
  by pat_completeness auto
termination
  by (relation "measure (length \<circ> snd)") (simp_all add: unescape_reference_pos)

declare html_unescape.simps(2) [simp del]

lemma html_unescape_no_amp: "CHR ''&'' \<notin> set s \<Longrightarrow> html_unescape ent s = s"
  by (induction s) (auto simp: html_unescape.simps(2))

declare ascii_env_def [go_eval] entity_replacement_def [go_eval] dec_value_def [go_eval]
  reference_rune_def [go_eval] is_alnum_def [go_eval] unescape_numeric_def [go_eval]
  unescape_named_def [go_eval] unescape_reference_def [go_eval]
  encode_rune_def [go_eval] html_unescape.simps(2) [go_eval]

end
