(* ===== verification/Html_Context.thy ===== *)
theory Html_Context
  imports Renderer_IR Html_Entities
begin

section \<open>The HTML context analyzer: internal/compiler/context.go\<close>

text \<open>
  A machine that reads the static text of a template byte by byte, one definition per case of the
  code's switch, and gives every node that produces output the escaping context of the place it
  stands at. A problem stops the analysis with one diagnostic. Writing to a nil map is Go's panic:
  it is the value \<open>Panic\<close>, which the theorems show is never reached. The stack of open
  elements has its innermost element first (the code appends at the end).
\<close>

subsection \<open>Byte classes and element tables\<close>

definition is_ascii_letter :: "byte \<Rightarrow> bool" where [byte_class]:
  "is_ascii_letter b = (97 \<le> code b \<and> code b \<le> 122 \<or> 65 \<le> code b \<and> code b \<le> 90)"

definition is_tag_name_start :: "byte \<Rightarrow> bool" where [byte_class]:
  "is_tag_name_start b = is_ascii_letter b"

definition is_tag_name_char :: "byte \<Rightarrow> bool" where [byte_class]:
  "is_tag_name_char b =
     (is_ascii_letter b \<or> 48 \<le> code b \<and> code b \<le> 57 \<or> b = CHR '':'' \<or> b = CHR ''-'')"

definition is_attribute_name_start :: "byte \<Rightarrow> bool" where [byte_class]:
  "is_attribute_name_start b = (is_ascii_letter b \<or> b = CHR ''_'' \<or> b = CHR '':'')"

definition is_attribute_name_char :: "byte \<Rightarrow> bool" where [byte_class]:
  "is_attribute_name_char b =
     (is_attribute_name_start b \<or> 48 \<le> code b \<and> code b \<le> 57 \<or> b = CHR ''-'' \<or> b = CHR ''.'')"

definition is_html_space :: "byte \<Rightarrow> bool" where [byte_class]:
  "is_html_space b = (b = CHR '' '' \<or> b = CHR 0x09 \<or> b = CHR 0x0D \<or> b = CHR 0x0A \<or> b = CHR 0x0C)"

definition void_elements :: "bytes list" where
  "void_elements =
     [''area'', ''base'', ''br'', ''col'', ''embed'', ''hr'', ''img'', ''input'', ''link'', ''meta'',
      ''param'', ''source'', ''track'', ''wbr'']"

definition url_attributes :: "bytes list" where
  "url_attributes =
     [''action'', ''background'', ''cite'', ''classid'', ''code'', ''codebase'', ''data'', ''dynsrc'',
      ''formaction'', ''href'', ''icon'', ''itemid'', ''longdesc'', ''lowsrc'', ''manifest'', ''poster'',
      ''profile'', ''src'', ''usemap'', ''xlink:href'', ''xmlns'']"

definition unsupported_dynamic_attributes :: "(bytes \<times> bytes) list" where
  "unsupported_dynamic_attributes =
     [(''archive'', ''URL-list''), (''imagesrcset'', ''responsive-image URL-list''),
      (''itemtype'', ''URL-list''), (''ping'', ''URL-list''), (''srcdoc'', ''nested HTML''),
      (''srcset'', ''responsive-image URL-list'')]"

definition raw_elements :: "bytes list" where
  \<comment> \<open>the elements whose content \<open>finishOpenTag\<close> reads as raw text\<close>
  "raw_elements =
     [''script'', ''style'', ''textarea'', ''title'', ''iframe'', ''noembed'', ''noframes'', ''xmp'']"

subsection \<open>The analyzer's state\<close>

datatype html_state =
    HtmlData
  | HtmlAfterLT
  | HtmlDeclarationStart
  | HtmlDeclarationDash
  | HtmlDeclaration
  | HtmlComment
  | HtmlTagName
  | HtmlBeforeAttribute
  | HtmlAttributeName
  | HtmlAfterAttributeName
  | HtmlBeforeAttributeValue
  | HtmlAttributeDoubleQuoted
  | HtmlAttributeSingleQuoted
  | HtmlSelfClosing
  | HtmlEndTagName
  | HtmlAfterEndTagName
  | HtmlRawText
  | HtmlRawAfterLT
  | HtmlRawEndTagName
  | HtmlRawAfterEndTagName

text \<open>
  \<open>an_attributes\<close> and \<open>an_seen\<close> are \<open>None\<close> while the code's maps are nil. The
  code only ever stores \<open>true\<close> in the second, which is a set.
\<close>

record analyzer =
  an_state :: html_state
  an_tag :: bytes
  an_attr :: bytes
  an_stack :: "bytes list"
  an_self_closing :: bool
  an_dash :: nat
  an_raw_tag :: bytes
  an_raw_end :: bytes
  an_script_tail :: bytes
  an_attributes :: "(bytes \<rightharpoonup> bytes) option"
  an_seen :: "bytes set option"
  an_literal :: bytes
  an_dynamic :: "nat list"
  an_first_dynamic :: int
  an_prefix :: bytes

datatype html_stop = Problem bytes bytes | Panic

type_synonym html_result = "html_stop + analyzer"

definition initial_analyzer :: analyzer where
  "initial_analyzer =
     \<lparr>an_state = HtmlData, an_tag = [], an_attr = [], an_stack = [], an_self_closing = False,
      an_dash = 0, an_raw_tag = [], an_raw_end = [], an_script_tail = [], an_attributes = None,
      an_seen = None, an_literal = [], an_dynamic = [], an_first_dynamic = -1, an_prefix = []\<rparr>"

definition problem :: "bytes \<Rightarrow> bytes \<Rightarrow> html_result" where
  "problem c message = Inl (Problem c message)"

definition in_attribute :: "analyzer \<Rightarrow> bool" where
  "in_attribute a =
     (an_state a = HtmlAttributeDoubleQuoted \<or> an_state a = HtmlAttributeSingleQuoted)"

text \<open>Names are made of ASCII bytes: \<open>%q\<close> puts them between double quotes unchanged.\<close>

definition quoted_name :: "bytes \<Rightarrow> bytes" where
  "quoted_name name = [CHR 0x22] @ name @ [CHR 0x22]"

subsection \<open>Static URLs\<close>

definition starts_relative :: "bytes \<Rightarrow> bool" where
  "starts_relative s =
     (has_prefix ''/'' s \<or> has_prefix ''./'' s \<or> has_prefix ''../'' s \<or> has_prefix ''#'' s \<or> has_prefix ''?'' s)"

definition url_boundary :: "bytes \<Rightarrow> nat" where
  "url_boundary s = foldl (\<lambda>boundary sep. case index_byte sep s of
        Some i \<Rightarrow> (if i < boundary then i else boundary) | None \<Rightarrow> boundary) (length s) ''/?#''"

definition safe_static_url :: "go_env \<Rightarrow> bytes \<Rightarrow> bool" where
  "safe_static_url env v =
     (let decoded = trim_space (html_unescape (env_entity env) v) in
      if decoded = [] then True
      else if list_ex (\<lambda>r. r < 32 \<or> r = 127) (runes decoded) then False
      else
        (let lower = to_lower (env_lower env) decoded in
         if starts_relative lower then True
         else (case index_byte (CHR '':'') lower of
             None \<Rightarrow> True
           | Some colon \<Rightarrow>
              (if url_boundary lower < colon then True
               else
                 (let scheme = take (colon + 1) lower
                  in scheme = ''http:'' \<or> scheme = ''https:'' \<or> scheme = ''mailto:'' \<or> scheme = ''tel:'')))))"

definition safe_url_prefix :: "go_env \<Rightarrow> bytes \<Rightarrow> bool" where
  "safe_url_prefix env v =
     (let trimmed = trim_space (to_lower (env_lower env) v) in
      if trimmed = [] then False
      else if starts_relative trimmed then True
      else list_ex (\<lambda>scheme. has_prefix scheme trimmed) [''http:'', ''https:'', ''mailto:'', ''tel:''])"

subsection \<open>Attributes\<close>

definition reset_attribute_value :: "analyzer \<Rightarrow> analyzer" where
  "reset_attribute_value a =
     a\<lparr>an_literal := [], an_dynamic := [], an_first_dynamic := -1, an_prefix := []\<rparr>"

definition begin_attribute :: "byte \<Rightarrow> analyzer \<Rightarrow> analyzer" where
  "begin_attribute b a = reset_attribute_value (a\<lparr>an_attr := [ascii_lower b]\<rparr>)"

definition validate_attribute_name :: "analyzer \<Rightarrow> html_result" where
  "validate_attribute_name a =
     (if (case an_seen a of None \<Rightarrow> False | Some seen \<Rightarrow> an_attr a \<in> seen)
      then problem ''HIM1347''
             (''duplicate attribute '' @ quoted_name (an_attr a) @ '' creates ambiguous browser parsing'')
      else
        (case an_seen a of
           None \<Rightarrow> Inl Panic
         | Some seen \<Rightarrow>
            (let a = a\<lparr>an_seen := Some (insert (an_attr a) seen)\<rparr> in
             if has_prefix ''on'' (an_attr a)
             then problem ''HIM1340''
                    (''event-handler attribute '' @ quoted_name (an_attr a) @ '' is not supported'')
             else Inr a)))"

definition finish_attribute_url :: "go_env \<Rightarrow> analyzer \<Rightarrow> html_result" where
  \<comment> \<open>\<open>finishAttributeValue\<close> from the test of \<open>urlAttributes\<close> on\<close>
  "finish_attribute_url env a =
     (if an_attr a \<notin> set url_attributes then Inr a
      else if an_dynamic a = [] then
        (if \<not> safe_static_url env (an_literal a)
         then problem ''HIM1344'' ''static URL uses a dangerous or ambiguous scheme; use a safe URL or an explicit full TrustURL value''
         else Inr a)
      else
        (let pre = an_prefix a; suffix = trim_prefix pre (an_literal a) in
         if pre = [] \<and> (length (an_dynamic a) \<noteq> 1 \<or> suffix \<noteq> [])
         then problem ''HIM1341'' ''a dynamic URL without a static safe prefix must occupy the entire quoted attribute''
         else if pre \<noteq> [] \<and> \<not> safe_url_prefix env pre
         then problem ''HIM1342'' ''mixed static/dynamic URL attributes require a relative or explicit safe-scheme static prefix''
         else Inr a))"

definition finish_attribute_value :: "go_env \<Rightarrow> analyzer \<Rightarrow> html_result" where
  "finish_attribute_value env a =
     (if an_dynamic a = [] then
        (case an_attributes a of
           None \<Rightarrow> Inl Panic
         | Some m \<Rightarrow>
            finish_attribute_url env
              (a\<lparr>an_attributes := Some (m(an_attr a \<mapsto> html_unescape (env_entity env) (an_literal a)))\<rparr>))
      else finish_attribute_url env a)"

subsection \<open>Tags\<close>

definition static_attribute :: "analyzer \<Rightarrow> bytes \<Rightarrow> bytes" where
  \<comment> \<open>reading \<open>a.attributes[name]\<close>: a missing entry, or a nil map, reads as the empty string\<close>
  "static_attribute a name =
     (case an_attributes a of
        None \<Rightarrow> []
      | Some m \<Rightarrow> (case m name of None \<Rightarrow> [] | Some v \<Rightarrow> v))"

definition open_tag_check :: "analyzer \<Rightarrow> (bytes \<times> bytes) option" where
  \<comment> \<open>the checks \<open>finishOpenTag\<close> begins with: code and message of the first that fails\<close>
  "open_tag_check a =
     (let tag = an_tag a in
      if tag = [] then Some (''HIM1350'', ''empty HTML tag name'')
      else if tag = ''svg'' \<or> tag = ''math''
      then Some (''HIM1355'', ''foreign-content element <'' @ tag @ ''> is not supported by the v1 HTML context analyzer'')
      else if tag = ''plaintext'' \<or> tag = ''noscript''
      then Some (''HIM1356'', ''HTML element <'' @ tag @ ''> has environment-dependent or non-terminating parsing and is not supported in v1'')
      else if tag = ''meta'' \<and> equal_fold_ascii (trim_space (static_attribute a ''http-equiv'')) ''refresh''
      then Some (''HIM1346'', ''meta refresh is an unsupported navigation context in v1'')
      else if an_self_closing a \<and> tag \<notin> set void_elements
      then Some (''HIM1354'', ''self-closing syntax is not valid for non-void HTML element <'' @ tag @ ''>; use an explicit closing tag'')
      else None)"

definition open_element :: "analyzer \<Rightarrow> analyzer" where
  \<comment> \<open>the assignments \<open>finishOpenTag\<close> ends with\<close>
  "open_element a =
     (let tag = an_tag a;
          a = (if \<not> an_self_closing a \<and> tag \<notin> set void_elements
               then a\<lparr>an_stack := tag # an_stack a\<rparr> else a);
          a = (if \<not> an_self_closing a \<and> tag \<in> set raw_elements
               then a\<lparr>an_raw_tag := tag, an_script_tail := [], an_state := HtmlRawText\<rparr>
               else a\<lparr>an_state := HtmlData\<rparr>)
      in a\<lparr>an_attr := []\<rparr>)"

definition finish_open_tag :: "analyzer \<Rightarrow> html_result" where
  "finish_open_tag a =
     (case open_tag_check a of
        Some (c, message) \<Rightarrow> problem c message
      | None \<Rightarrow> Inr (open_element a))"

definition finish_close_tag :: "analyzer \<Rightarrow> html_result" where
  "finish_close_tag a =
     (let tag = an_tag a in
      if tag \<in> set void_elements
      then problem ''HIM1351'' (''void element <'' @ tag @ ''> cannot have a closing tag'')
      else (case an_stack a of
          [] \<Rightarrow> problem ''HIM1352'' (''unbalanced closing tag </'' @ tag @ ''>; expected no closing tag'')
        | innermost # rest \<Rightarrow>
           (if innermost \<noteq> tag
            then problem ''HIM1352'' (''unbalanced closing tag </'' @ tag @ ''>; expected </'' @ innermost @ ''>'')
            else Inr (a\<lparr>an_stack := rest, an_state := HtmlData, an_tag := []\<rparr>))))"

definition finish_raw_close :: "analyzer \<Rightarrow> html_result" where
  "finish_raw_close a =
     (case an_stack a of
        [] \<Rightarrow> problem ''HIM1353'' (''unbalanced </'' @ an_raw_tag a @ ''>'')
      | innermost # rest \<Rightarrow>
         (if innermost \<noteq> an_raw_tag a then problem ''HIM1353'' (''unbalanced </'' @ an_raw_tag a @ ''>'')
          else Inr (a\<lparr>an_stack := rest, an_state := HtmlData, an_tag := [], an_raw_tag := [],
                      an_raw_end := [], an_script_tail := []\<rparr>)))"

definition dynamic_context :: "analyzer \<Rightarrow> output_context option" where
  "dynamic_context a =
     (case an_state a of
        HtmlData \<Rightarrow> Some ContextHTMLText
      | HtmlAttributeDoubleQuoted \<Rightarrow>
          Some (if an_attr a \<in> set url_attributes then ContextURL else ContextAttr)
      | HtmlAttributeSingleQuoted \<Rightarrow>
          Some (if an_attr a \<in> set url_attributes then ContextURL else ContextAttr)
      | HtmlRawText \<Rightarrow>
          (if an_raw_tag a = ''script'' then Some ContextJS
           else if an_raw_tag a = ''style'' then Some ContextCSS
           else if an_raw_tag a = ''textarea'' \<or> an_raw_tag a = ''title'' then Some ContextRCDATA
           else None)
      | _ \<Rightarrow> None)"

subsection \<open>The cases of consumeText\<close>

definition script_check :: "byte \<Rightarrow> analyzer \<Rightarrow> html_result" where
  "script_check b a =
     (if an_raw_tag a = ''script'' then
        (let tail = an_script_tail a @ encode_rune (code b);
             tail = (if 4 < length tail then drop (length tail - 4) tail else tail)
         in if tail = ''<!--''
            then problem ''HIM1357'' ''HTML comment syntax inside <script> is not supported because it enters ambiguous escaped script parser states; remove the <!-- sequence''
            else Inr (a\<lparr>an_script_tail := tail\<rparr>))
      else Inr a)"

definition on_data :: "byte \<Rightarrow> analyzer \<Rightarrow> html_result" where
  "on_data b a = Inr (if b = CHR ''<'' then a\<lparr>an_state := HtmlAfterLT\<rparr> else a)"

definition on_after_lt :: "byte \<Rightarrow> analyzer \<Rightarrow> html_result" where
  "on_after_lt b a =
     (if b = CHR ''!'' then Inr (a\<lparr>an_state := HtmlDeclarationStart\<rparr>)
      else if b = CHR ''/'' then Inr (a\<lparr>an_tag := [], an_state := HtmlEndTagName\<rparr>)
      else if is_tag_name_start b
      then Inr (a\<lparr>an_tag := [ascii_lower b], an_attributes := Some Map.empty, an_seen := Some {},
                  an_self_closing := False, an_state := HtmlTagName\<rparr>)
      else problem ''HIM1320'' ''malformed HTML after '<'; dynamic tag construction is not supported'')"

definition on_declaration_start :: "byte \<Rightarrow> analyzer \<Rightarrow> html_result" where
  "on_declaration_start b a =
     (if b = CHR ''-'' then Inr (a\<lparr>an_state := HtmlDeclarationDash\<rparr>)
      else if is_ascii_letter b then Inr (a\<lparr>an_state := HtmlDeclaration\<rparr>)
      else problem ''HIM1321'' ''unsupported HTML declaration'')"

definition on_declaration_dash :: "byte \<Rightarrow> analyzer \<Rightarrow> html_result" where
  "on_declaration_dash b a =
     (if b \<noteq> CHR ''-'' then problem ''HIM1322'' ''malformed HTML comment opening''
      else Inr (a\<lparr>an_dash := 0, an_state := HtmlComment\<rparr>))"

definition on_declaration :: "byte \<Rightarrow> analyzer \<Rightarrow> html_result" where
  "on_declaration b a =
     (if b = CHR ''>'' then Inr (a\<lparr>an_state := HtmlData\<rparr>)
      else if b = CHR ''<'' then problem ''HIM1323'' ''malformed HTML declaration''
      else Inr a)"

definition on_comment :: "byte \<Rightarrow> analyzer \<Rightarrow> html_result" where
  "on_comment b a =
     Inr (if b = CHR ''-'' then a\<lparr>an_dash := Suc (an_dash a)\<rparr>
          else if b = CHR ''>'' \<and> 2 \<le> an_dash a then a\<lparr>an_dash := 0, an_state := HtmlData\<rparr>
          else a\<lparr>an_dash := 0\<rparr>)"

definition begin_self_closing :: "analyzer \<Rightarrow> html_result" where
  \<comment> \<open>the two assignments every tag state makes on a slash\<close>
  "begin_self_closing a = Inr (a\<lparr>an_self_closing := True, an_state := HtmlSelfClosing\<rparr>)"

definition on_tag_name :: "byte \<Rightarrow> analyzer \<Rightarrow> html_result" where
  "on_tag_name b a =
     (if is_tag_name_char b then Inr (a\<lparr>an_tag := an_tag a @ [ascii_lower b]\<rparr>)
      else if is_html_space b then Inr (a\<lparr>an_state := HtmlBeforeAttribute\<rparr>)
      else if b = CHR ''>'' then finish_open_tag a
      else if b = CHR ''/'' then begin_self_closing a
      else problem ''HIM1324'' ''unsupported character in HTML tag name'')"

definition on_before_attribute :: "byte \<Rightarrow> analyzer \<Rightarrow> html_result" where
  "on_before_attribute b a =
     (if is_html_space b then Inr a
      else if is_attribute_name_start b then Inr ((begin_attribute b a)\<lparr>an_state := HtmlAttributeName\<rparr>)
      else if b = CHR ''>'' then finish_open_tag a
      else if b = CHR ''/'' then begin_self_closing a
      else problem ''HIM1325'' ''dynamic or malformed attribute names are not supported'')"

definition and_then :: "html_result \<Rightarrow> (analyzer \<Rightarrow> html_result) \<Rightarrow> html_result" where
  \<comment> \<open>\<open>if d := ...; d != nil { return d }\<close> and what follows\<close>
  "and_then r f = (case r of Inl e \<Rightarrow> Inl e | Inr a \<Rightarrow> f a)"

definition on_attribute_name :: "byte \<Rightarrow> analyzer \<Rightarrow> html_result" where
  "on_attribute_name b a =
     (if is_attribute_name_char b then Inr (a\<lparr>an_attr := an_attr a @ [ascii_lower b]\<rparr>)
      else if is_html_space b
      then and_then (validate_attribute_name a) (\<lambda>a. Inr (a\<lparr>an_state := HtmlAfterAttributeName\<rparr>))
      else if b = CHR ''=''
      then and_then (validate_attribute_name a) (\<lambda>a. Inr (a\<lparr>an_state := HtmlBeforeAttributeValue\<rparr>))
      else if b = CHR ''>'' then and_then (validate_attribute_name a) finish_open_tag
      else if b = CHR ''/'' then and_then (validate_attribute_name a) begin_self_closing
      else problem ''HIM1326'' ''unsupported character in attribute name'')"

definition on_after_attribute_name :: "byte \<Rightarrow> analyzer \<Rightarrow> html_result" where
  "on_after_attribute_name b a =
     (if is_html_space b then Inr a
      else if b = CHR ''='' then Inr (a\<lparr>an_state := HtmlBeforeAttributeValue\<rparr>)
      else if is_attribute_name_start b then Inr ((begin_attribute b a)\<lparr>an_state := HtmlAttributeName\<rparr>)
      else if b = CHR ''>'' then finish_open_tag a
      else if b = CHR ''/'' then begin_self_closing a
      else problem ''HIM1327'' ''expected '=' or another attribute'')"

definition on_before_attribute_value :: "byte \<Rightarrow> analyzer \<Rightarrow> html_result" where
  "on_before_attribute_value b a =
     (if is_html_space b then Inr a
      else if b = CHR 0x22
      then Inr ((reset_attribute_value a)\<lparr>an_state := HtmlAttributeDoubleQuoted\<rparr>)
      else if b = CHR 0x27
      then Inr ((reset_attribute_value a)\<lparr>an_state := HtmlAttributeSingleQuoted\<rparr>)
      else problem ''HIM1328'' ''attribute values must be quoted'')"

definition on_quoted :: "go_env \<Rightarrow> byte \<Rightarrow> byte \<Rightarrow> analyzer \<Rightarrow> html_result" where
  \<comment> \<open>the two quoted-value cases, which differ in the quote only\<close>
  "on_quoted env quote b a =
     (if b = quote
      then and_then (finish_attribute_value env a) (\<lambda>a. Inr (a\<lparr>an_state := HtmlBeforeAttribute\<rparr>))
      else if b = CHR ''<'' then problem ''HIM1329'' '''<' is not supported inside attribute values''
      else Inr (a\<lparr>an_literal := an_literal a @ [b]\<rparr>))"

definition on_self_closing :: "byte \<Rightarrow> analyzer \<Rightarrow> html_result" where
  "on_self_closing b a =
     (if is_html_space b then Inr a
      else if b \<noteq> CHR ''>'' then problem ''HIM1330'' ''expected '>' after '/' in a tag''
      else finish_open_tag a)"

definition on_end_tag_name :: "byte \<Rightarrow> analyzer \<Rightarrow> html_result" where
  "on_end_tag_name b a =
     (if is_tag_name_char b then Inr (a\<lparr>an_tag := an_tag a @ [ascii_lower b]\<rparr>)
      else if is_html_space b \<and> an_tag a \<noteq> [] then Inr (a\<lparr>an_state := HtmlAfterEndTagName\<rparr>)
      else if b = CHR ''>'' \<and> an_tag a \<noteq> [] then finish_close_tag a
      else problem ''HIM1331'' ''malformed closing tag'')"

definition on_after_end_tag_name :: "byte \<Rightarrow> analyzer \<Rightarrow> html_result" where
  "on_after_end_tag_name b a =
     (if is_html_space b then Inr a
      else if b \<noteq> CHR ''>'' then problem ''HIM1332'' ''unexpected content in closing tag''
      else finish_close_tag a)"

definition on_raw_text :: "byte \<Rightarrow> analyzer \<Rightarrow> html_result" where
  "on_raw_text b a = Inr (if b = CHR ''<'' then a\<lparr>an_state := HtmlRawAfterLT\<rparr> else a)"

definition on_raw_after_lt :: "byte \<Rightarrow> analyzer \<Rightarrow> html_result" where
  "on_raw_after_lt b a =
     Inr (if b = CHR ''/'' then a\<lparr>an_raw_end := [], an_state := HtmlRawEndTagName\<rparr>
          else if b \<noteq> CHR ''<'' then a\<lparr>an_state := HtmlRawText\<rparr>
          else a)"

definition on_raw_end_tag_name :: "byte \<Rightarrow> analyzer \<Rightarrow> html_result" where
  "on_raw_end_tag_name b a =
     (if is_tag_name_char b then Inr (a\<lparr>an_raw_end := an_raw_end a @ [ascii_lower b]\<rparr>)
      else if an_raw_end a \<noteq> an_raw_tag a
      then Inr (a\<lparr>an_state := (if b = CHR ''<'' then HtmlRawAfterLT else HtmlRawText)\<rparr>)
      else if b = CHR ''>'' then finish_raw_close a
      else if is_html_space b then Inr (a\<lparr>an_state := HtmlRawAfterEndTagName\<rparr>)
      else Inr (a\<lparr>an_state := HtmlRawText\<rparr>))"

definition on_raw_after_end_tag_name :: "byte \<Rightarrow> analyzer \<Rightarrow> html_result" where
  "on_raw_after_end_tag_name b a =
     (if is_html_space b then Inr a
      else if b \<noteq> CHR ''>'' then problem ''HIM1333'' ''malformed script/style closing tag''
      else finish_raw_close a)"

definition state_step :: "go_env \<Rightarrow> byte \<Rightarrow> analyzer \<Rightarrow> html_result" where
  "state_step env b a =
     (case an_state a of
        HtmlData \<Rightarrow> on_data b a
      | HtmlAfterLT \<Rightarrow> on_after_lt b a
      | HtmlDeclarationStart \<Rightarrow> on_declaration_start b a
      | HtmlDeclarationDash \<Rightarrow> on_declaration_dash b a
      | HtmlDeclaration \<Rightarrow> on_declaration b a
      | HtmlComment \<Rightarrow> on_comment b a
      | HtmlTagName \<Rightarrow> on_tag_name b a
      | HtmlBeforeAttribute \<Rightarrow> on_before_attribute b a
      | HtmlAttributeName \<Rightarrow> on_attribute_name b a
      | HtmlAfterAttributeName \<Rightarrow> on_after_attribute_name b a
      | HtmlBeforeAttributeValue \<Rightarrow> on_before_attribute_value b a
      | HtmlAttributeDoubleQuoted \<Rightarrow> on_quoted env (CHR 0x22) b a
      | HtmlAttributeSingleQuoted \<Rightarrow> on_quoted env (CHR 0x27) b a
      | HtmlSelfClosing \<Rightarrow> on_self_closing b a
      | HtmlEndTagName \<Rightarrow> on_end_tag_name b a
      | HtmlAfterEndTagName \<Rightarrow> on_after_end_tag_name b a
      | HtmlRawText \<Rightarrow> on_raw_text b a
      | HtmlRawAfterLT \<Rightarrow> on_raw_after_lt b a
      | HtmlRawEndTagName \<Rightarrow> on_raw_end_tag_name b a
      | HtmlRawAfterEndTagName \<Rightarrow> on_raw_after_end_tag_name b a)"

text \<open>One byte of text: one turn of the loop of \<open>consumeText\<close>.\<close>

definition html_step :: "go_env \<Rightarrow> analyzer \<Rightarrow> byte \<Rightarrow> html_result" where
  "html_step env a b = and_then (script_check b a) (state_step env b)"

subsection \<open>consumeText and analyzeContexts\<close>

datatype analysis_stop = Rejected diagnostic | Crashed

fun locate :: "bytes \<Rightarrow> position_table \<Rightarrow> nat \<Rightarrow> html_stop \<Rightarrow> analysis_stop" where
  "locate path table offset (Problem c message) =
     Rejected (new_diagnostic path (position_at table (int offset)) c message)"
| "locate path table offset Panic = Crashed"

fun consume_text ::
  "go_env \<Rightarrow> bytes \<Rightarrow> position_table \<Rightarrow> nat \<Rightarrow> bytes \<Rightarrow> analyzer \<Rightarrow> analysis_stop + analyzer" where
  "consume_text env path table offset [] a = Inr a"
| "consume_text env path table offset (b # text) a =
     (case html_step env a b of
        Inl e \<Rightarrow> Inl (locate path table offset e)
      | Inr a' \<Rightarrow> consume_text env path table (Suc offset) text a')"

definition reject_at ::
  "bytes \<Rightarrow> source_position \<Rightarrow> bytes \<Rightarrow> bytes \<Rightarrow> analysis_stop + (renderer_node \<times> analyzer)" where
  "reject_at path pos c message = Inl (Rejected (new_diagnostic path pos c message))"

definition record_dynamic :: "nat \<Rightarrow> analyzer \<Rightarrow> analyzer" where
  "record_dynamic i a =
     (if in_attribute a then
        (let a = (if an_first_dynamic a < 0
                  then a\<lparr>an_first_dynamic := int i, an_prefix := an_literal a\<rparr> else a)
         in a\<lparr>an_dynamic := an_dynamic a @ [i]\<rparr>)
      else a)"

definition analyze_expression ::
  "bytes \<Rightarrow> nat \<Rightarrow> renderer_node \<Rightarrow> analyzer \<Rightarrow> analysis_stop + (renderer_node \<times> analyzer)" where
  "analyze_expression path i node a =
     (let pos = node_pos node in
      if an_state a = HtmlBeforeAttributeValue
      then reject_at path pos ''HIM1328'' ''attribute values must be quoted''
      else if in_attribute a \<and> map_of unsupported_dynamic_attributes (an_attr a) \<noteq> None
      then reject_at path pos ''HIM1345''
             (''dynamic '' @ an_attr a @ '' attributes require an unsupported ''
              @ the (map_of unsupported_dynamic_attributes (an_attr a)) @ '' context in v1'')
      else if in_attribute a \<and> an_tag a = ''meta'' \<and> an_attr a = ''http-equiv''
      then reject_at path pos ''HIM1346'' ''dynamic meta http-equiv values are not supported in v1''
      else if in_attribute a \<and> an_attr a = ''style''
      then reject_at path pos ''HIM1343'' ''dynamic style attributes are not supported in v1; use a static style attribute or a class''
      else (case dynamic_context a of
          None \<Rightarrow> reject_at path pos ''HIM1303'' ''dynamic output is not allowed while constructing markup; use HTML text or a quoted attribute value''
        | Some ctx \<Rightarrow> Inr (node\<lparr>node_context := ctx\<rparr>, record_dynamic i a)))"

definition analyze_node ::
  "go_env \<Rightarrow> bytes \<Rightarrow> position_table \<Rightarrow> nat \<Rightarrow> renderer_node \<Rightarrow> analyzer
   \<Rightarrow> analysis_stop + (renderer_node \<times> analyzer)" where
  "analyze_node env path table i node a =
     (case node_kind node of
        NodeText \<Rightarrow>
          (case consume_text env path table (pos_offset (node_pos node)) (node_text node) a of
             Inl e \<Rightarrow> Inl e | Inr a' \<Rightarrow> Inr (node, a'))
      | NodeComment \<Rightarrow> Inr (node, a)
      | NodeStatement \<Rightarrow>
          (if an_state a \<noteq> HtmlData
           then reject_at path (node_pos node) ''HIM1301'' ''Go statements are only allowed at HTML content boundaries''
           else Inr (node\<lparr>node_context := ContextNone\<rparr>, a))
      | NodeComponent \<Rightarrow>
          (if an_state a \<noteq> HtmlData
           then reject_at path (node_pos node) ''HIM1302'' ''component rendering (<?~) is only allowed at HTML content boundaries''
           else Inr (node\<lparr>node_context := ContextHTMLText\<rparr>, a))
      | NodeExpression \<Rightarrow> analyze_expression path i node a)"

text \<open>
  The loop over the nodes: the code annotates the nodes in place, so the nodes before a problem
  keep the contexts they were given.
\<close>

fun analyze_nodes ::
  "go_env \<Rightarrow> bytes \<Rightarrow> position_table \<Rightarrow> nat \<Rightarrow> renderer_node list \<Rightarrow> analyzer
   \<Rightarrow> renderer_node list \<times> (analysis_stop + analyzer)" where
  "analyze_nodes env path table i [] a = ([], Inr a)"
| "analyze_nodes env path table i (node # nodes) a =
     (case analyze_node env path table i node a of
        Inl e \<Rightarrow> (node # nodes, Inl e)
      | Inr (node', a') \<Rightarrow>
          (case analyze_nodes env path table (Suc i) nodes a' of (nodes', r) \<Rightarrow> (node' # nodes', r)))"

definition end_diagnostics :: "bytes \<Rightarrow> source_position \<Rightarrow> analyzer \<Rightarrow> diagnostic list" where
  "end_diagnostics path pos a =
     (if an_state a \<noteq> HtmlData
      then [new_diagnostic path pos ''HIM1310'' ''template ends in an incomplete or ambiguous HTML parser context'']
      else [])
     @ (case an_stack a of
          [] \<Rightarrow> []
        | innermost # _ \<Rightarrow>
           [new_diagnostic path pos ''HIM1311''
              (''component must finish in its starting HTML context; unclosed <'' @ innermost @ ''>'')])"

text \<open>\<open>analyzeContexts\<close>: \<open>None\<close> is a panic.\<close>

definition analyze_contexts :: "go_env \<Rightarrow> source_file \<Rightarrow> (source_file \<times> diagnostic list) option" where
  "analyze_contexts env file =
     (let table = new_position_table (file_source file) in
      case analyze_nodes env (file_path file) table 0 (file_nodes file) initial_analyzer of
        (nodes, Inl Crashed) \<Rightarrow> None
      | (nodes, Inl (Rejected d)) \<Rightarrow> Some (file\<lparr>file_nodes := nodes\<rparr>, [d])
      | (nodes, Inr a) \<Rightarrow>
          Some (file\<lparr>file_nodes := nodes\<rparr>,
                end_diagnostics (file_path file)
                  (position_at table (int (length (file_source file)))) a))"

lemmas on_defs = on_data_def on_after_lt_def on_declaration_start_def on_declaration_dash_def
  on_declaration_def on_comment_def on_tag_name_def on_before_attribute_def on_attribute_name_def
  on_after_attribute_name_def on_before_attribute_value_def on_quoted_def on_self_closing_def
  on_end_tag_name_def on_after_end_tag_name_def on_raw_text_def on_raw_after_lt_def
  on_raw_end_tag_name_def on_raw_after_end_tag_name_def

declare is_ascii_letter_def [go_eval] is_tag_name_start_def [go_eval] is_tag_name_char_def
  [go_eval] is_attribute_name_start_def [go_eval] is_attribute_name_char_def [go_eval]
  is_html_space_def [go_eval] void_elements_def [go_eval] url_attributes_def [go_eval]
  unsupported_dynamic_attributes_def [go_eval] raw_elements_def [go_eval] initial_analyzer_def
  [go_eval] problem_def [go_eval] in_attribute_def [go_eval] quoted_name_def [go_eval]
  starts_relative_def [go_eval] url_boundary_def [go_eval] safe_static_url_def [go_eval]
  safe_url_prefix_def [go_eval] reset_attribute_value_def [go_eval] begin_attribute_def
  [go_eval] validate_attribute_name_def [go_eval] finish_attribute_url_def [go_eval]
  finish_attribute_value_def [go_eval] static_attribute_def [go_eval] finish_open_tag_def
  [go_eval] finish_close_tag_def [go_eval] finish_raw_close_def [go_eval] dynamic_context_def
  [go_eval] script_check_def [go_eval] on_data_def [go_eval] on_after_lt_def [go_eval]
  on_declaration_start_def [go_eval] on_declaration_dash_def [go_eval] on_declaration_def
  [go_eval] on_comment_def [go_eval] begin_self_closing_def [go_eval] on_tag_name_def [go_eval]
  on_before_attribute_def [go_eval] and_then_def [go_eval] on_attribute_name_def [go_eval]
  on_after_attribute_name_def [go_eval] on_before_attribute_value_def [go_eval] on_quoted_def
  [go_eval] on_self_closing_def [go_eval] on_end_tag_name_def [go_eval]
  on_after_end_tag_name_def [go_eval] on_raw_text_def [go_eval] on_raw_after_lt_def [go_eval]
  on_raw_end_tag_name_def [go_eval] on_raw_after_end_tag_name_def [go_eval] state_step_def
  [go_eval] html_step_def [go_eval] reject_at_def [go_eval] record_dynamic_def [go_eval]
  analyze_expression_def [go_eval] analyze_node_def [go_eval] end_diagnostics_def [go_eval]
  analyze_contexts_def [go_eval]
  open_tag_check_def [go_eval] open_element_def [go_eval]

end
