(* ===== verification/Html_Tokenizer.thy ===== *)
theory Html_Tokenizer
  imports Html_Context
begin

section \<open>The analyzer as a tokenizer, and its invariant\<close>

text \<open>
  The lexical specification of the analyzer: a total machine over the live data of each state only
  (no stack, no attribute maps, no checks). Every successful step of the analyzer is a step of this
  machine. The invariant of the analyzer shows that no map is written while nil and that the
  branches for impossible situations are never taken.
\<close>

subsection \<open>The lexical machine\<close>

datatype lexical =
    LData
  | LAfterLT
  | LDeclStart
  | LDeclDash
  | LDecl
  | LComment nat
  | LTagName bytes
  | LBeforeAttr bytes
  | LAttrName bytes bytes
  | LAfterAttrName bytes bytes
  | LBeforeValue bytes bytes
  | LQuoted byte bytes bytes
  | LSelfClosing bytes
  | LEndName bytes
  | LAfterEndName
  | LRaw bytes
  | LRawLT bytes
  | LRawEnd bytes bytes
  | LRawAfterEnd bytes
  | LStuck

definition lex_open :: "bytes \<Rightarrow> lexical" where
  "lex_open tag = (if tag \<in> set raw_elements then LRaw tag else LData)"

fun lex_step :: "byte \<Rightarrow> lexical \<Rightarrow> lexical" where
  "lex_step b LData = (if b = CHR ''<'' then LAfterLT else LData)"
| "lex_step b LAfterLT =
     (if b = CHR ''!'' then LDeclStart
      else if b = CHR ''/'' then LEndName []
      else if is_tag_name_start b then LTagName [ascii_lower b]
      else LStuck)"
| "lex_step b LDeclStart =
     (if b = CHR ''-'' then LDeclDash else if is_ascii_letter b then LDecl else LStuck)"
| "lex_step b LDeclDash = (if b = CHR ''-'' then LComment 0 else LStuck)"
| "lex_step b LDecl = (if b = CHR ''>'' then LData else if b = CHR ''<'' then LStuck else LDecl)"
| "lex_step b (LComment n) =
     (if b = CHR ''-'' then LComment (Suc n)
      else if b = CHR ''>'' \<and> 2 \<le> n then LData else LComment 0)"
| "lex_step b (LTagName t) =
     (if is_tag_name_char b then LTagName (t @ [ascii_lower b])
      else if is_html_space b then LBeforeAttr t
      else if b = CHR ''>'' then lex_open t
      else if b = CHR ''/'' then LSelfClosing t
      else LStuck)"
| "lex_step b (LBeforeAttr t) =
     (if is_html_space b then LBeforeAttr t
      else if is_attribute_name_start b then LAttrName t [ascii_lower b]
      else if b = CHR ''>'' then lex_open t
      else if b = CHR ''/'' then LSelfClosing t
      else LStuck)"
| "lex_step b (LAttrName t n) =
     (if is_attribute_name_char b then LAttrName t (n @ [ascii_lower b])
      else if is_html_space b then LAfterAttrName t n
      else if b = CHR ''='' then LBeforeValue t n
      else if b = CHR ''>'' then lex_open t
      else if b = CHR ''/'' then LSelfClosing t
      else LStuck)"
| "lex_step b (LAfterAttrName t n) =
     (if is_html_space b then LAfterAttrName t n
      else if b = CHR ''='' then LBeforeValue t n
      else if is_attribute_name_start b then LAttrName t [ascii_lower b]
      else if b = CHR ''>'' then lex_open t
      else if b = CHR ''/'' then LSelfClosing t
      else LStuck)"
| "lex_step b (LBeforeValue t n) =
     (if is_html_space b then LBeforeValue t n
      else if b = CHR 0x22 \<or> b = CHR 0x27 then LQuoted b t n
      else LStuck)"
| "lex_step b (LQuoted q t n) = (if b = q then LBeforeAttr t else LQuoted q t n)"
| "lex_step b (LSelfClosing t) =
     (if is_html_space b then LSelfClosing t else if b = CHR ''>'' then LData else LStuck)"
| "lex_step b (LEndName t) =
     (if is_tag_name_char b then LEndName (t @ [ascii_lower b])
      else if is_html_space b \<and> t \<noteq> [] then LAfterEndName
      else if b = CHR ''>'' \<and> t \<noteq> [] then LData
      else LStuck)"
| "lex_step b LAfterEndName =
     (if is_html_space b then LAfterEndName else if b = CHR ''>'' then LData else LStuck)"
| "lex_step b (LRaw t) = (if b = CHR ''<'' then LRawLT t else LRaw t)"
| "lex_step b (LRawLT t) =
     (if b = CHR ''/'' then LRawEnd t [] else if b = CHR ''<'' then LRawLT t else LRaw t)"
| "lex_step b (LRawEnd t n) =
     (if is_tag_name_char b then LRawEnd t (n @ [ascii_lower b])
      else if n \<noteq> t then (if b = CHR ''<'' then LRawLT t else LRaw t)
      else if b = CHR ''>'' then LData
      else if is_html_space b then LRawAfterEnd t
      else LRaw t)"
| "lex_step b (LRawAfterEnd t) =
     (if is_html_space b then LRawAfterEnd t else if b = CHR ''>'' then LData else LStuck)"
| "lex_step b LStuck = LStuck"

definition lex_run :: "bytes \<Rightarrow> lexical \<Rightarrow> lexical" where
  "lex_run s l = fold lex_step s l"

lemma lex_run_Nil [simp]: "lex_run [] l = l"
  by (simp add: lex_run_def)

lemma lex_run_Cons: "lex_run (b # s) l = lex_run s (lex_step b l)"
  by (simp add: lex_run_def)

lemma lex_run_append [simp]: "lex_run (s @ t) l = lex_run t (lex_run s l)"
  by (simp add: lex_run_def)

fun lex_context :: "lexical \<Rightarrow> output_context option" where
  "lex_context LData = Some ContextHTMLText"
| "lex_context (LQuoted q t n) =
     Some (if n \<in> set url_attributes then ContextURL else ContextAttr)"
| "lex_context (LRaw t) =
     (if t = ''script'' then Some ContextJS
      else if t = ''style'' then Some ContextCSS
      else if t = ''textarea'' \<or> t = ''title'' then Some ContextRCDATA
      else None)"
| "lex_context _ = None"

subsection \<open>The abstraction and the invariant\<close>

definition lexical_of :: "analyzer \<Rightarrow> lexical" where
  "lexical_of a =
     (case an_state a of
        HtmlData \<Rightarrow> LData
      | HtmlAfterLT \<Rightarrow> LAfterLT
      | HtmlDeclarationStart \<Rightarrow> LDeclStart
      | HtmlDeclarationDash \<Rightarrow> LDeclDash
      | HtmlDeclaration \<Rightarrow> LDecl
      | HtmlComment \<Rightarrow> LComment (an_dash a)
      | HtmlTagName \<Rightarrow> LTagName (an_tag a)
      | HtmlBeforeAttribute \<Rightarrow> LBeforeAttr (an_tag a)
      | HtmlAttributeName \<Rightarrow> LAttrName (an_tag a) (an_attr a)
      | HtmlAfterAttributeName \<Rightarrow> LAfterAttrName (an_tag a) (an_attr a)
      | HtmlBeforeAttributeValue \<Rightarrow> LBeforeValue (an_tag a) (an_attr a)
      | HtmlAttributeDoubleQuoted \<Rightarrow> LQuoted (CHR 0x22) (an_tag a) (an_attr a)
      | HtmlAttributeSingleQuoted \<Rightarrow> LQuoted (CHR 0x27) (an_tag a) (an_attr a)
      | HtmlSelfClosing \<Rightarrow> LSelfClosing (an_tag a)
      | HtmlEndTagName \<Rightarrow> LEndName (an_tag a)
      | HtmlAfterEndTagName \<Rightarrow> LAfterEndName
      | HtmlRawText \<Rightarrow> LRaw (an_raw_tag a)
      | HtmlRawAfterLT \<Rightarrow> LRawLT (an_raw_tag a)
      | HtmlRawEndTagName \<Rightarrow> LRawEnd (an_raw_tag a) (an_raw_end a)
      | HtmlRawAfterEndTagName \<Rightarrow> LRawAfterEnd (an_raw_tag a))"

definition in_open_tag :: "html_state \<Rightarrow> bool" where
  "in_open_tag s = (s \<in> {HtmlTagName, HtmlBeforeAttribute, HtmlAttributeName, HtmlAfterAttributeName,
     HtmlBeforeAttributeValue, HtmlAttributeDoubleQuoted, HtmlAttributeSingleQuoted, HtmlSelfClosing})"

definition after_attribute_name :: "html_state \<Rightarrow> bool" where
  "after_attribute_name s = (s \<in> {HtmlAfterAttributeName, HtmlBeforeAttributeValue,
     HtmlAttributeDoubleQuoted, HtmlAttributeSingleQuoted})"

definition in_raw :: "html_state \<Rightarrow> bool" where
  "in_raw s = (s \<in> {HtmlRawText, HtmlRawAfterLT, HtmlRawEndTagName, HtmlRawAfterEndTagName})"

definition stackable_tag :: "bytes \<Rightarrow> bool" where
  "stackable_tag t = (t \<noteq> [] \<and> t \<notin> set void_elements
     \<and> t \<notin> {''svg'', ''math'', ''plaintext'', ''noscript''})"

text \<open>
  Inside an opening tag the maps exist, the tag has a name and the self-closing flag is set
  exactly after a slash; the current attribute has been checked once its name is complete; no
  event handler was seen; raw text belongs to the innermost open element.
\<close>

definition tag_ok :: "analyzer \<Rightarrow> bool" where
  "tag_ok a = (in_open_tag (an_state a) \<longrightarrow>
     an_attributes a \<noteq> None \<and> an_seen a \<noteq> None \<and> an_tag a \<noteq> []
     \<and> an_self_closing a = (an_state a = HtmlSelfClosing))"

definition attr_ok :: "analyzer \<Rightarrow> bool" where
  "attr_ok a = ((after_attribute_name (an_state a) \<longrightarrow> (\<exists>seen. an_seen a = Some seen \<and> an_attr a \<in> seen))
     \<and> (\<forall>seen. an_seen a = Some seen \<longrightarrow> (\<forall>n\<in>seen. \<not> has_prefix ''on'' n)))"

definition raw_ok :: "analyzer \<Rightarrow> bool" where
  "raw_ok a =
     (if in_raw (an_state a)
      then an_raw_tag a \<in> set raw_elements \<and> (\<exists>rest. an_stack a = an_raw_tag a # rest)
      else an_raw_tag a = [])"

definition stack_ok :: "analyzer \<Rightarrow> bool" where
  "stack_ok a = list_all stackable_tag (an_stack a)"

definition analyzer_ok :: "analyzer \<Rightarrow> bool" where
  "analyzer_ok a = (tag_ok a \<and> attr_ok a \<and> raw_ok a \<and> stack_ok a)"

lemma raw_elements_not_empty [simp]: "[] \<notin> set raw_elements"
  by (simp add: raw_elements_def)

lemma raw_not_void: "t \<in> set raw_elements \<Longrightarrow> t \<notin> set void_elements"
  by (auto simp: raw_elements_def void_elements_def)

lemma initial_ok: "analyzer_ok initial_analyzer"
  by (simp add: analyzer_ok_def tag_ok_def attr_ok_def raw_ok_def stack_ok_def in_open_tag_def
      after_attribute_name_def in_raw_def initial_analyzer_def)

lemma lexical_initial [simp]: "lexical_of initial_analyzer = LData"
  by (simp add: initial_analyzer_def lexical_of_def)

subsection \<open>One step\<close>

text \<open>
  A good result of a step from \<open>a\<close> on \<open>b\<close>: not a panic, and when it is a state, the
  invariant holds there and the lexical machine makes the same step.
\<close>

definition good_step :: "lexical \<Rightarrow> html_result \<Rightarrow> bool" where
  "good_step l r = (case r of
      Inl e \<Rightarrow> e \<noteq> Panic
    | Inr a' \<Rightarrow> analyzer_ok a' \<and> lexical_of a' = l)"

lemma good_problem [simp]: "good_step l (problem c m)"
  by (simp add: good_step_def problem_def)

lemma good_Inr: "good_step l (Inr a') \<longleftrightarrow> analyzer_ok a' \<and> lexical_of a' = l"
  by (simp add: good_step_def)

text \<open>The parts of the invariant, as they are used.\<close>

lemma ok_not_raw: "analyzer_ok a \<Longrightarrow> \<not> in_raw (an_state a) \<Longrightarrow> an_raw_tag a = []"
  by (simp add: analyzer_ok_def raw_ok_def)

lemma ok_raw:
  "analyzer_ok a \<Longrightarrow> in_raw (an_state a) \<Longrightarrow>
   an_raw_tag a \<in> set raw_elements \<and> (\<exists>rest. an_stack a = an_raw_tag a # rest)"
  by (simp add: analyzer_ok_def raw_ok_def)

lemma ok_stack: "analyzer_ok a \<Longrightarrow> list_all stackable_tag (an_stack a)"
  by (simp add: analyzer_ok_def stack_ok_def)

lemma ok_seen: "analyzer_ok a \<Longrightarrow> an_seen a = Some seen \<Longrightarrow> n \<in> seen \<Longrightarrow> \<not> has_prefix ''on'' n"
  by (simp add: analyzer_ok_def attr_ok_def)

lemma ok_tag:
  "analyzer_ok a \<Longrightarrow> in_open_tag (an_state a) \<Longrightarrow>
   an_attributes a \<noteq> None \<and> an_seen a \<noteq> None \<and> an_tag a \<noteq> []
   \<and> an_self_closing a = (an_state a = HtmlSelfClosing)"
  by (simp add: analyzer_ok_def tag_ok_def)

lemma ok_attr:
  "analyzer_ok a \<Longrightarrow> after_attribute_name (an_state a) \<Longrightarrow>
   \<exists>seen. an_seen a = Some seen \<and> an_attr a \<in> seen"
  by (simp add: analyzer_ok_def attr_ok_def)

text \<open>The states in which nothing is remembered but the stack and the maps.\<close>

lemma ok_plain:
  assumes "analyzer_ok a" and "an_raw_tag a' = []" and "\<not> in_raw (an_state a')"
    and "\<not> in_open_tag (an_state a')" and "an_seen a' = an_seen a"
    and "list_all stackable_tag (an_stack a')"
  shows "analyzer_ok a'"
proof -
  have "\<not> after_attribute_name (an_state a')"
    using assms(4) by (auto simp: in_open_tag_def after_attribute_name_def)
  then show ?thesis
    using assms unfolding analyzer_ok_def tag_ok_def attr_ok_def raw_ok_def stack_ok_def by simp
qed

lemma ok_in_raw:
  assumes "analyzer_ok a" and "in_raw (an_state a')" and "an_raw_tag a' \<in> set raw_elements"
    and "an_stack a' = an_raw_tag a' # rest" and "an_seen a' = an_seen a"
    and "list_all stackable_tag (an_stack a')"
  shows "analyzer_ok a'"
proof -
  have "\<not> after_attribute_name (an_state a')" "\<not> in_open_tag (an_state a')"
    using assms(2) by (auto simp: in_open_tag_def after_attribute_name_def in_raw_def)
  then show ?thesis
    using assms unfolding analyzer_ok_def tag_ok_def attr_ok_def raw_ok_def stack_ok_def by simp
qed

lemma ok_in_tag:
  assumes "analyzer_ok a" and "in_open_tag (an_state a')" and "an_attributes a' \<noteq> None"
    and "an_seen a' = Some seen" and "\<forall>n\<in>seen. \<not> has_prefix ''on'' n" and "an_tag a' \<noteq> []"
    and "an_self_closing a' = (an_state a' = HtmlSelfClosing)"
    and "after_attribute_name (an_state a') \<longrightarrow> an_attr a' \<in> seen"
    and "an_raw_tag a' = []" and "an_stack a' = an_stack a"
  shows "analyzer_ok a'"
proof -
  have "\<not> in_raw (an_state a')"
    using assms(2) by (auto simp: in_open_tag_def in_raw_def)
  then show ?thesis
    using assms unfolding analyzer_ok_def tag_ok_def attr_ok_def raw_ok_def stack_ok_def by simp
qed

lemmas state_classes = in_open_tag_def after_attribute_name_def in_raw_def

subsection \<open>Finishing tags\<close>

lemma if_Some_None: "((if P then Some x else e) = None) = (\<not> P \<and> e = None)"
  by simp

lemma open_tag_check_None:
  assumes "open_tag_check a = None"
  shows "stackable_tag (an_tag a) \<or> an_tag a \<in> set void_elements"
    and "an_self_closing a \<Longrightarrow> an_tag a \<in> set void_elements"
proof -
  define t where "t = an_tag a"
  have "t \<noteq> [] \<and> \<not> (t = ''svg'' \<or> t = ''math'') \<and> \<not> (t = ''plaintext'' \<or> t = ''noscript'')
     \<and> \<not> (an_self_closing a \<and> t \<notin> set void_elements)"
    using assms unfolding open_tag_check_def Let_def t_def [symmetric] if_Some_None by blast
  then show "stackable_tag (an_tag a) \<or> an_tag a \<in> set void_elements"
    and "an_self_closing a \<Longrightarrow> an_tag a \<in> set void_elements"
    unfolding stackable_tag_def t_def by auto
qed

lemma open_element_void:
  "an_tag a \<in> set void_elements \<Longrightarrow> open_element a = a\<lparr>an_state := HtmlData, an_attr := []\<rparr>"
  using raw_not_void [of "an_tag a"] by (auto simp: open_element_def Let_def)

lemma open_element_raw:
  "\<not> an_self_closing a \<Longrightarrow> an_tag a \<in> set raw_elements \<Longrightarrow>
   open_element a = a\<lparr>an_stack := an_tag a # an_stack a, an_raw_tag := an_tag a,
      an_script_tail := [], an_state := HtmlRawText, an_attr := []\<rparr>"
  using raw_not_void [of "an_tag a"] by (simp add: open_element_def Let_def)

lemma open_element_normal:
  "\<not> an_self_closing a \<Longrightarrow> an_tag a \<notin> set raw_elements \<Longrightarrow> an_tag a \<notin> set void_elements \<Longrightarrow>
   open_element a = a\<lparr>an_stack := an_tag a # an_stack a, an_state := HtmlData, an_attr := []\<rparr>"
  by (simp add: open_element_def Let_def)

lemma open_element_good:
  assumes ok: "analyzer_ok a" and state: "in_open_tag (an_state a)"
    and check: "open_tag_check a = None"
  shows "analyzer_ok (open_element a)
    \<and> lexical_of (open_element a) = (if an_self_closing a then LData else lex_open (an_tag a))"
proof -
  have raw: "an_raw_tag a = []"
    using ok_not_raw [OF ok] state by (auto simp: state_classes)
  note tag = open_tag_check_None [OF check]
  note stack = ok_stack [OF ok]
  consider "an_tag a \<in> set void_elements"
    | "\<not> an_self_closing a" "an_tag a \<in> set raw_elements" "an_tag a \<notin> set void_elements"
    | "\<not> an_self_closing a" "an_tag a \<notin> set raw_elements" "an_tag a \<notin> set void_elements"
    using tag raw_not_void by blast
  then show ?thesis
  proof cases
    case 1
    have "analyzer_ok (open_element a)"
      by (rule ok_plain [OF ok]) (simp_all add: open_element_void [OF 1] raw stack state_classes)
    then show ?thesis
      using 1 raw_not_void by (auto simp: open_element_void lexical_of_def lex_open_def)
  next
    case 2
    have "analyzer_ok (open_element a)"
      using 2 tag by (intro ok_in_raw [OF ok, of _ "an_stack a"])
        (simp_all add: open_element_raw stack state_classes)
    then show ?thesis
      using 2 by (simp add: open_element_raw lexical_of_def lex_open_def)
  next
    case 3
    have "analyzer_ok (open_element a)"
      using 3 tag by (intro ok_plain [OF ok])
        (simp_all add: open_element_normal stack raw state_classes)
    then show ?thesis
      using 3 by (simp add: open_element_normal lexical_of_def lex_open_def)
  qed
qed

lemma finish_open_good:
  assumes "analyzer_ok a" and "in_open_tag (an_state a)"
    and "l = (if an_self_closing a then LData else lex_open (an_tag a))"
  shows "good_step l (finish_open_tag a)"
  using open_element_good [OF assms(1,2)] assms(3)
  by (cases "open_tag_check a") (auto simp: finish_open_tag_def good_Inr)

lemma finish_close_good:
  assumes ok: "analyzer_ok a" and "an_state a \<in> {HtmlEndTagName, HtmlAfterEndTagName}"
  shows "good_step LData (finish_close_tag a)"
proof (cases "an_stack a")
  case Nil
  then show ?thesis by (simp add: finish_close_tag_def Let_def)
next
  case (Cons t rest)
  have "an_raw_tag a = []"
    using ok_not_raw [OF ok] assms(2) by (auto simp: state_classes)
  then have "analyzer_ok (a\<lparr>an_stack := rest, an_state := HtmlData, an_tag := []\<rparr>)"
    using ok_stack [OF ok] Cons by (intro ok_plain [OF ok]) (simp_all add: state_classes)
  then show ?thesis
    using Cons by (simp add: finish_close_tag_def Let_def good_Inr lexical_of_def)
qed

lemma finish_raw_good:
  assumes ok: "analyzer_ok a" and "in_raw (an_state a)"
  shows "good_step LData (finish_raw_close a)"
proof -
  obtain rest where rest: "an_stack a = an_raw_tag a # rest"
    using ok_raw [OF assms] by blast
  have "analyzer_ok (a\<lparr>an_stack := rest, an_state := HtmlData, an_tag := [], an_raw_tag := [],
      an_raw_end := [], an_script_tail := []\<rparr>)"
    using ok_stack [OF ok] rest by (intro ok_plain [OF ok]) (simp_all add: state_classes)
  then show ?thesis
    using rest by (simp add: finish_raw_close_def good_Inr lexical_of_def)
qed

lemma and_then_good:
  "(\<And>e. r = Inl e \<Longrightarrow> e \<noteq> Panic) \<Longrightarrow> (\<And>a'. r = Inr a' \<Longrightarrow> good_step l (f a')) \<Longrightarrow>
   good_step l (and_then r f)"
  by (cases r) (auto simp: and_then_def good_step_def)

text \<open>A checked attribute name: recorded as seen, and no event handler.\<close>

lemma validate_no_panic: "an_seen a \<noteq> None \<Longrightarrow> validate_attribute_name a \<noteq> Inl Panic"
  by (auto simp: validate_attribute_name_def problem_def Let_def split: if_splits)

lemma validate_Inr:
  "validate_attribute_name a = Inr a' \<Longrightarrow>
   \<exists>seen. an_seen a = Some seen \<and> an_attr a \<notin> seen \<and> \<not> has_prefix ''on'' (an_attr a)
     \<and> a' = a\<lparr>an_seen := Some (insert (an_attr a) seen)\<rparr>"
  by (auto simp: validate_attribute_name_def problem_def Let_def split: option.splits if_splits)

lemma finish_url_cases:
  "finish_attribute_url env a = Inr a \<or> (\<exists>c m. finish_attribute_url env a = Inl (Problem c m))"
  by (auto simp: finish_attribute_url_def problem_def Let_def)

lemma finish_value_no_panic:
  "an_attributes a \<noteq> None \<Longrightarrow> finish_attribute_value env a \<noteq> Inl Panic"
  using finish_url_cases [of env]
  by (auto simp: finish_attribute_value_def) (metis html_stop.distinct(1) sum.distinct(1) sum.inject(1))+

lemma finish_value_Inr:
  assumes "finish_attribute_value env a = Inr a'"
  shows "a' = a \<or> (\<exists>m. a' = a\<lparr>an_attributes := Some m\<rparr>)"
proof -
  have url: "finish_attribute_url env x = Inr y \<Longrightarrow> y = x" for x y
    using finish_url_cases [of env x] by auto
  show ?thesis
    using assms by (auto simp: finish_attribute_value_def split: if_splits option.splits dest!: url)
qed

subsection \<open>Every case makes a good step\<close>

lemma plain_good:
  assumes "analyzer_ok a" and "\<not> in_raw (an_state a)"
    and "an_raw_tag a' = an_raw_tag a" and "\<not> in_raw (an_state a')"
    and "\<not> in_open_tag (an_state a')" and "an_seen a' = an_seen a" and "an_stack a' = an_stack a"
    and "lexical_of a' = l"
  shows "good_step l (Inr a')"
  unfolding good_Inr
  using ok_plain [of a a'] ok_not_raw [OF assms(1,2)] ok_stack [OF assms(1)] assms by simp

lemma raw_good:
  assumes "analyzer_ok a" and "in_raw (an_state a)" and "in_raw (an_state a')"
    and "an_raw_tag a' = an_raw_tag a" and "an_seen a' = an_seen a" and "an_stack a' = an_stack a"
    and "lexical_of a' = l"
  shows "good_step l (Inr a')"
proof -
  obtain rest where "an_stack a = an_raw_tag a # rest" "an_raw_tag a \<in> set raw_elements"
    using ok_raw [OF assms(1,2)] by blast
  then show ?thesis
    unfolding good_Inr using ok_in_raw [of a a' rest] ok_stack [OF assms(1)] assms by simp
qed

lemma tag_good:
  assumes "analyzer_ok a" and "in_open_tag (an_state a)" and "in_open_tag (an_state a')"
    and "an_attributes a' \<noteq> None" and "an_seen a' = an_seen a" and "an_tag a' \<noteq> []"
    and "an_self_closing a' = (an_state a' = HtmlSelfClosing)"
    and "\<And>seen. an_seen a = Some seen \<Longrightarrow> after_attribute_name (an_state a') \<Longrightarrow> an_attr a' \<in> seen"
    and "an_raw_tag a' = an_raw_tag a" and "an_stack a' = an_stack a" and "lexical_of a' = l"
  shows "good_step l (Inr a')"
proof -
  have raw: "an_raw_tag a = []"
    using ok_not_raw [OF assms(1)] assms(2) by (auto simp: state_classes)
  obtain seen where seen: "an_seen a = Some seen"
    using ok_tag [OF assms(1,2)] by blast
  have "analyzer_ok a'"
    using assms raw seen ok_seen [OF assms(1) seen] by (intro ok_in_tag [OF assms(1), of a' seen]) simp_all
  with assms(11) show ?thesis by (simp add: good_Inr)
qed

lemma on_data_good:
  assumes "analyzer_ok a" "an_state a = HtmlData"
  shows "good_step (lex_step b (lexical_of a)) (on_data b a)"
  unfolding on_data_def using assms
  by (intro plain_good [OF assms(1)]) (simp_all add: state_classes lexical_of_def)

lemma on_after_lt_good:
  assumes ok: "analyzer_ok a" and st: "an_state a = HtmlAfterLT"
  shows "good_step (lex_step b (lexical_of a)) (on_after_lt b a)"
proof -
  let ?a = "a\<lparr>an_tag := [ascii_lower b], an_attributes := Some Map.empty, an_seen := Some {},
    an_self_closing := False, an_state := HtmlTagName\<rparr>"
  have raw: "an_raw_tag a = []"
    using ok_not_raw [OF ok] st by (simp add: state_classes)
  have "analyzer_ok ?a"
    using raw by (intro ok_in_tag [OF ok, of ?a "{}"]) (simp_all add: state_classes)
  moreover have "good_step LDeclStart (Inr (a\<lparr>an_state := HtmlDeclarationStart\<rparr>))"
    "good_step (LEndName []) (Inr (a\<lparr>an_tag := [], an_state := HtmlEndTagName\<rparr>))"
    using st by (intro plain_good [OF ok]; simp add: state_classes lexical_of_def)+
  ultimately show ?thesis
    using st by (simp add: on_after_lt_def lexical_of_def good_Inr)
qed

lemma on_declaration_start_good:
  assumes ok: "analyzer_ok a" and st: "an_state a = HtmlDeclarationStart"
  shows "good_step (lex_step b (lexical_of a)) (on_declaration_start b a)"
proof -
  have "good_step LDeclDash (Inr (a\<lparr>an_state := HtmlDeclarationDash\<rparr>))"
    "good_step LDecl (Inr (a\<lparr>an_state := HtmlDeclaration\<rparr>))"
    using st by (intro plain_good [OF ok]; simp add: state_classes lexical_of_def)+
  then show ?thesis
    using st by (simp add: on_declaration_start_def lexical_of_def)
qed

lemma on_declaration_dash_good:
  assumes ok: "analyzer_ok a" and st: "an_state a = HtmlDeclarationDash"
  shows "good_step (lex_step b (lexical_of a)) (on_declaration_dash b a)"
proof -
  have "good_step (LComment 0) (Inr (a\<lparr>an_dash := 0, an_state := HtmlComment\<rparr>))"
    using st by (intro plain_good [OF ok]; simp add: state_classes lexical_of_def)
  then show ?thesis
    using st by (simp add: on_declaration_dash_def lexical_of_def)
qed

lemma on_declaration_good:
  assumes ok: "analyzer_ok a" and st: "an_state a = HtmlDeclaration"
  shows "good_step (lex_step b (lexical_of a)) (on_declaration b a)"
proof -
  have "good_step LData (Inr (a\<lparr>an_state := HtmlData\<rparr>))"
    using st by (intro plain_good [OF ok]; simp add: state_classes lexical_of_def)
  then show ?thesis
    using ok st by (simp add: on_declaration_def lexical_of_def good_Inr)
qed

lemma on_comment_good:
  assumes ok: "analyzer_ok a" and st: "an_state a = HtmlComment"
  shows "good_step (lex_step b (lexical_of a)) (on_comment b a)"
  unfolding on_comment_def using st
  by (intro plain_good [OF ok]) (simp_all add: state_classes lexical_of_def)

lemma begin_self_closing_good:
  assumes ok: "analyzer_ok a" and st: "in_open_tag (an_state a)"
  shows "good_step (LSelfClosing (an_tag a)) (begin_self_closing a)"
  unfolding begin_self_closing_def using st ok_tag [OF ok st]
  by (intro tag_good [OF ok st]) (simp_all add: state_classes lexical_of_def)

lemma on_tag_name_good:
  assumes ok: "analyzer_ok a" and st: "an_state a = HtmlTagName"
  shows "good_step (lex_step b (lexical_of a)) (on_tag_name b a)"
proof -
  have tag: "in_open_tag (an_state a)" using st by (simp add: state_classes)
  note facts = ok_tag [OF ok tag]
  have "good_step (LTagName (an_tag a @ [ascii_lower b])) (Inr (a\<lparr>an_tag := an_tag a @ [ascii_lower b]\<rparr>))"
    "good_step (LBeforeAttr (an_tag a)) (Inr (a\<lparr>an_state := HtmlBeforeAttribute\<rparr>))"
    using st facts by (intro tag_good [OF ok tag]; simp add: state_classes lexical_of_def)+
  moreover have "good_step (lex_open (an_tag a)) (finish_open_tag a)"
    using facts st by (intro finish_open_good [OF ok tag]) simp
  ultimately show ?thesis
    using st begin_self_closing_good [OF ok tag] by (simp add: on_tag_name_def lexical_of_def)
qed

lemma begin_attribute_good:
  assumes ok: "analyzer_ok a" and tag: "in_open_tag (an_state a)" and "an_state a \<noteq> HtmlSelfClosing"
  shows "good_step (LAttrName (an_tag a) [ascii_lower b])
           (Inr ((begin_attribute b a)\<lparr>an_state := HtmlAttributeName\<rparr>))"
  using assms ok_tag [OF ok tag]
  by (intro tag_good [OF ok tag])
     (simp_all add: state_classes lexical_of_def begin_attribute_def reset_attribute_value_def)

lemma on_before_attribute_good:
  assumes ok: "analyzer_ok a" and st: "an_state a = HtmlBeforeAttribute"
  shows "good_step (lex_step b (lexical_of a)) (on_before_attribute b a)"
proof -
  have tag: "in_open_tag (an_state a)" using st by (simp add: state_classes)
  note facts = ok_tag [OF ok tag]
  have "good_step (lex_open (an_tag a)) (finish_open_tag a)"
    using facts st by (intro finish_open_good [OF ok tag]) simp
  then show ?thesis
    using ok st begin_self_closing_good [OF ok tag] begin_attribute_good [OF ok tag]
    by (simp add: on_before_attribute_def lexical_of_def good_Inr)
qed

lemma validated_good:
  assumes ok: "analyzer_ok a" and st: "an_state a = HtmlAttributeName"
    and v: "validate_attribute_name a = Inr a'"
  shows "analyzer_ok a' \<and> an_state a' = HtmlAttributeName \<and> an_tag a' = an_tag a
    \<and> an_attr a' = an_attr a \<and> (\<exists>seen. an_seen a' = Some seen \<and> an_attr a' \<in> seen)"
proof -
  obtain seen where seen: "an_seen a = Some seen" and on: "\<not> has_prefix ''on'' (an_attr a)"
    and a': "a' = a\<lparr>an_seen := Some (insert (an_attr a) seen)\<rparr>"
    using validate_Inr [OF v] by blast
  have tag: "in_open_tag (an_state a)" using st by (simp add: state_classes)
  have raw: "an_raw_tag a = []"
    using ok_not_raw [OF ok] st by (auto simp: state_classes)
  have "analyzer_ok a'"
    using ok_tag [OF ok tag] ok_seen [OF ok seen] on st raw unfolding a'
    by (intro ok_in_tag [OF ok, of _ "insert (an_attr a) seen"]) (simp_all add: state_classes)
  then show ?thesis by (simp add: a' st)
qed

lemma on_attribute_name_good:
  assumes ok: "analyzer_ok a" and st: "an_state a = HtmlAttributeName"
  shows "good_step (lex_step b (lexical_of a)) (on_attribute_name b a)"
proof -
  have tag: "in_open_tag (an_state a)" using st by (simp add: state_classes)
  have no_panic: "validate_attribute_name a = Inl e \<Longrightarrow> e \<noteq> Panic" for e
    using validate_no_panic [of a] ok_tag [OF ok tag] by auto
  have after: "good_step l (and_then (validate_attribute_name a) f)"
    if "\<And>a'. \<lbrakk>analyzer_ok a'; an_state a' = HtmlAttributeName; an_tag a' = an_tag a;
          an_attr a' = an_attr a; \<exists>seen. an_seen a' = Some seen \<and> an_attr a' \<in> seen\<rbrakk>
          \<Longrightarrow> good_step l (f a')" for l f
    using validated_good [OF ok st] by (intro and_then_good no_panic that) blast+
  have name: "good_step (LAttrName (an_tag a) (an_attr a @ [ascii_lower b]))
      (Inr (a\<lparr>an_attr := an_attr a @ [ascii_lower b]\<rparr>))"
    using ok_tag [OF ok tag] st by (intro tag_good [OF ok tag]) (simp_all add: state_classes lexical_of_def)
  have space: "good_step (LAfterAttrName (an_tag a) (an_attr a))
      (and_then (validate_attribute_name a) (\<lambda>a. Inr (a\<lparr>an_state := HtmlAfterAttributeName\<rparr>)))"
  proof (rule after)
    fix a' assume a': "analyzer_ok a'" "an_state a' = HtmlAttributeName" "an_tag a' = an_tag a"
      "an_attr a' = an_attr a" "\<exists>seen. an_seen a' = Some seen \<and> an_attr a' \<in> seen"
    have t': "in_open_tag (an_state a')" using a' by (simp add: state_classes)
    show "good_step (LAfterAttrName (an_tag a) (an_attr a)) (Inr (a'\<lparr>an_state := HtmlAfterAttributeName\<rparr>))"
      using a' ok_tag [OF a'(1) t'] by (intro tag_good [OF a'(1) t']) (auto simp: state_classes lexical_of_def)
  qed
  have equals: "good_step (LBeforeValue (an_tag a) (an_attr a))
      (and_then (validate_attribute_name a) (\<lambda>a. Inr (a\<lparr>an_state := HtmlBeforeAttributeValue\<rparr>)))"
  proof (rule after)
    fix a' assume a': "analyzer_ok a'" "an_state a' = HtmlAttributeName" "an_tag a' = an_tag a"
      "an_attr a' = an_attr a" "\<exists>seen. an_seen a' = Some seen \<and> an_attr a' \<in> seen"
    have t': "in_open_tag (an_state a')" using a' by (simp add: state_classes)
    show "good_step (LBeforeValue (an_tag a) (an_attr a)) (Inr (a'\<lparr>an_state := HtmlBeforeAttributeValue\<rparr>))"
      using a' ok_tag [OF a'(1) t'] by (intro tag_good [OF a'(1) t']) (auto simp: state_classes lexical_of_def)
  qed
  have gt: "good_step (lex_open (an_tag a)) (and_then (validate_attribute_name a) finish_open_tag)"
  proof (rule after)
    fix a' assume a': "analyzer_ok a'" "an_state a' = HtmlAttributeName" "an_tag a' = an_tag a"
    have t': "in_open_tag (an_state a')" using a' by (simp add: state_classes)
    show "good_step (lex_open (an_tag a)) (finish_open_tag a')"
      using a' ok_tag [OF a'(1) t'] by (intro finish_open_good [OF a'(1) t']) simp
  qed
  have slash: "good_step (LSelfClosing (an_tag a)) (and_then (validate_attribute_name a) begin_self_closing)"
  proof (rule after)
    fix a' assume a': "analyzer_ok a'" "an_state a' = HtmlAttributeName" "an_tag a' = an_tag a"
    then show "good_step (LSelfClosing (an_tag a)) (begin_self_closing a')"
      using begin_self_closing_good [OF a'(1)] by (simp add: state_classes)
  qed
  show ?thesis
    using st name space equals gt slash by (simp add: on_attribute_name_def lexical_of_def)
qed

lemma on_after_attribute_name_good:
  assumes ok: "analyzer_ok a" and st: "an_state a = HtmlAfterAttributeName"
  shows "good_step (lex_step b (lexical_of a)) (on_after_attribute_name b a)"
proof -
  have tag: "in_open_tag (an_state a)" and after: "after_attribute_name (an_state a)"
    using st by (simp_all add: state_classes)
  note facts = ok_tag [OF ok tag] ok_attr [OF ok after]
  have "good_step (LBeforeValue (an_tag a) (an_attr a)) (Inr (a\<lparr>an_state := HtmlBeforeAttributeValue\<rparr>))"
    using st facts by (intro tag_good [OF ok tag]) (auto simp: state_classes lexical_of_def)
  moreover have "good_step (lex_open (an_tag a)) (finish_open_tag a)"
    using facts st by (intro finish_open_good [OF ok tag]) simp
  ultimately show ?thesis
    using ok st begin_self_closing_good [OF ok tag] begin_attribute_good [OF ok tag]
    by (simp add: on_after_attribute_name_def lexical_of_def good_Inr)
qed

lemma on_before_attribute_value_good:
  assumes ok: "analyzer_ok a" and st: "an_state a = HtmlBeforeAttributeValue"
  shows "good_step (lex_step b (lexical_of a)) (on_before_attribute_value b a)"
proof -
  have tag: "in_open_tag (an_state a)" and after: "after_attribute_name (an_state a)"
    using st by (simp_all add: state_classes)
  note facts = ok_tag [OF ok tag] ok_attr [OF ok after]
  have "good_step (LQuoted (CHR 0x22) (an_tag a) (an_attr a))
      (Inr ((reset_attribute_value a)\<lparr>an_state := HtmlAttributeDoubleQuoted\<rparr>))"
    "good_step (LQuoted (CHR 0x27) (an_tag a) (an_attr a))
      (Inr ((reset_attribute_value a)\<lparr>an_state := HtmlAttributeSingleQuoted\<rparr>))"
    using st facts
    by (intro tag_good [OF ok tag]; auto simp: state_classes lexical_of_def reset_attribute_value_def)+
  then show ?thesis
    using ok st by (simp add: on_before_attribute_value_def lexical_of_def good_Inr)
qed

lemma on_quoted_good:
  assumes ok: "analyzer_ok a" and after: "after_attribute_name (an_state a)"
    and lex: "lexical_of a = LQuoted q (an_tag a) (an_attr a)"
  shows "good_step (lex_step b (lexical_of a)) (on_quoted env q b a)"
proof -
  have tag: "in_open_tag (an_state a)" and noself: "an_state a \<noteq> HtmlSelfClosing"
    using after by (auto simp: state_classes)
  note facts = ok_tag [OF ok tag] ok_attr [OF ok after]
  have lit: "good_step (LQuoted q (an_tag a) (an_attr a)) (Inr (a\<lparr>an_literal := an_literal a @ [b]\<rparr>))"
    using facts lex after tag
    by (intro tag_good [OF ok tag]) (auto simp: lexical_of_def cong: html_state.case_cong)
  have "good_step (LBeforeAttr (an_tag a))
      (and_then (finish_attribute_value env a) (\<lambda>a. Inr (a\<lparr>an_state := HtmlBeforeAttribute\<rparr>)))"
  proof (rule and_then_good)
    fix e assume "finish_attribute_value env a = Inl e"
    then show "e \<noteq> Panic" using finish_value_no_panic [of a env] facts by auto
  next
    fix a' assume "finish_attribute_value env a = Inr a'"
    then have "a' = a \<or> (\<exists>m. a' = a\<lparr>an_attributes := Some m\<rparr>)" by (rule finish_value_Inr)
    then show "good_step (LBeforeAttr (an_tag a)) (Inr (a'\<lparr>an_state := HtmlBeforeAttribute\<rparr>))"
      using facts noself by (intro tag_good [OF ok tag]) (auto simp: state_classes lexical_of_def)
  qed
  with lit show ?thesis by (simp add: on_quoted_def lex)
qed

lemma on_self_closing_good:
  assumes ok: "analyzer_ok a" and st: "an_state a = HtmlSelfClosing"
  shows "good_step (lex_step b (lexical_of a)) (on_self_closing b a)"
proof -
  have tag: "in_open_tag (an_state a)" using st by (simp add: state_classes)
  have "good_step LData (finish_open_tag a)"
    using ok_tag [OF ok tag] st by (intro finish_open_good [OF ok tag]) simp
  then show ?thesis
    using ok st by (simp add: on_self_closing_def lexical_of_def good_Inr)
qed

lemma on_end_tag_name_good:
  assumes ok: "analyzer_ok a" and st: "an_state a = HtmlEndTagName"
  shows "good_step (lex_step b (lexical_of a)) (on_end_tag_name b a)"
proof -
  have "good_step (LEndName (an_tag a @ [ascii_lower b])) (Inr (a\<lparr>an_tag := an_tag a @ [ascii_lower b]\<rparr>))"
    "good_step LAfterEndName (Inr (a\<lparr>an_state := HtmlAfterEndTagName\<rparr>))"
    using st by (intro plain_good [OF ok]; simp add: state_classes lexical_of_def)+
  then show ?thesis
    using st finish_close_good [OF ok] by (simp add: on_end_tag_name_def lexical_of_def)
qed

lemma on_after_end_tag_name_good:
  assumes ok: "analyzer_ok a" and st: "an_state a = HtmlAfterEndTagName"
  shows "good_step (lex_step b (lexical_of a)) (on_after_end_tag_name b a)"
  using ok st finish_close_good [OF ok]
  by (simp add: on_after_end_tag_name_def lexical_of_def good_Inr)

lemma on_raw_text_good:
  assumes ok: "analyzer_ok a" and st: "an_state a = HtmlRawText"
  shows "good_step (lex_step b (lexical_of a)) (on_raw_text b a)"
  unfolding on_raw_text_def using st
  by (intro raw_good [OF ok]) (simp_all add: state_classes lexical_of_def)

lemma on_raw_after_lt_good:
  assumes ok: "analyzer_ok a" and st: "an_state a = HtmlRawAfterLT"
  shows "good_step (lex_step b (lexical_of a)) (on_raw_after_lt b a)"
  unfolding on_raw_after_lt_def using st
  by (intro raw_good [OF ok]) (simp_all add: state_classes lexical_of_def)

lemma on_raw_end_tag_name_good:
  assumes ok: "analyzer_ok a" and st: "an_state a = HtmlRawEndTagName"
  shows "good_step (lex_step b (lexical_of a)) (on_raw_end_tag_name b a)"
proof -
  have raw: "in_raw (an_state a)" using st by (simp add: state_classes)
  have "good_step (LRawEnd (an_raw_tag a) (an_raw_end a @ [ascii_lower b]))
      (Inr (a\<lparr>an_raw_end := an_raw_end a @ [ascii_lower b]\<rparr>))"
    "good_step (LRawLT (an_raw_tag a)) (Inr (a\<lparr>an_state := HtmlRawAfterLT\<rparr>))"
    "good_step (LRaw (an_raw_tag a)) (Inr (a\<lparr>an_state := HtmlRawText\<rparr>))"
    "good_step (LRawAfterEnd (an_raw_tag a)) (Inr (a\<lparr>an_state := HtmlRawAfterEndTagName\<rparr>))"
    using st by (intro raw_good [OF ok raw]; simp add: state_classes lexical_of_def)+
  then show ?thesis
    using st finish_raw_good [OF ok raw] by (simp add: on_raw_end_tag_name_def lexical_of_def)
qed

lemma on_raw_after_end_tag_name_good:
  assumes ok: "analyzer_ok a" and st: "an_state a = HtmlRawAfterEndTagName"
  shows "good_step (lex_step b (lexical_of a)) (on_raw_after_end_tag_name b a)"
proof -
  have raw: "in_raw (an_state a)" using st by (simp add: state_classes)
  then show ?thesis
    using ok st finish_raw_good [OF ok raw]
    by (simp add: on_raw_after_end_tag_name_def lexical_of_def good_Inr)
qed

lemma state_step_good:
  assumes "analyzer_ok a"
  shows "good_step (lex_step b (lexical_of a)) (state_step env b a)"
proof (cases "an_state a")
  case HtmlAttributeDoubleQuoted
  then show ?thesis
    using on_quoted_good [OF assms, of "CHR 0x22"]
    by (simp add: state_step_def state_classes lexical_of_def)
next
  case HtmlAttributeSingleQuoted
  then show ?thesis
    using on_quoted_good [OF assms, of "CHR 0x27"]
    by (simp add: state_step_def state_classes lexical_of_def)
qed (simp_all add: state_step_def on_data_good on_after_lt_good on_declaration_start_good
    on_declaration_dash_good on_declaration_good on_comment_good on_tag_name_good
    on_before_attribute_good on_attribute_name_good on_after_attribute_name_good
    on_before_attribute_value_good on_self_closing_good on_end_tag_name_good
    on_after_end_tag_name_good on_raw_text_good on_raw_after_lt_good on_raw_end_tag_name_good
    on_raw_after_end_tag_name_good assms)

lemma script_check_cases:
  "script_check b a = problem ''HIM1357'' ''HTML comment syntax inside <script> is not supported because it enters ambiguous escaped script parser states; remove the <!-- sequence''
   \<or> (\<exists>t. script_check b a = Inr (a\<lparr>an_script_tail := t\<rparr>))"
proof -
  have "a = a\<lparr>an_script_tail := an_script_tail a\<rparr>" by simp
  then show ?thesis unfolding script_check_def Let_def by metis
qed

lemma ok_script_tail [simp]: "analyzer_ok (a\<lparr>an_script_tail := t\<rparr>) = analyzer_ok a"
  by (simp add: analyzer_ok_def tag_ok_def attr_ok_def raw_ok_def stack_ok_def)

lemma lexical_script_tail [simp]: "lexical_of (a\<lparr>an_script_tail := t\<rparr>) = lexical_of a"
  by (simp add: lexical_of_def cong: html_state.case_cong)

lemma html_step_good:
  assumes "analyzer_ok a"
  shows "good_step (lex_step b (lexical_of a)) (html_step env a b)"
  using script_check_cases [of b a]
proof
  assume "\<exists>t. script_check b a = Inr (a\<lparr>an_script_tail := t\<rparr>)"
  then obtain t where t: "script_check b a = Inr (a\<lparr>an_script_tail := t\<rparr>)" ..
  show ?thesis
    using state_step_good [of "a\<lparr>an_script_tail := t\<rparr>" b env] assms
    by (simp add: html_step_def and_then_def t)
next
  assume p: "script_check b a = problem ''HIM1357'' ''HTML comment syntax inside <script> is not supported because it enters ambiguous escaped script parser states; remove the <!-- sequence''"
  show ?thesis
    unfolding html_step_def p by (simp add: and_then_def good_step_def problem_def)
qed

interpretation html: machine_simulation "html_step env" analyzer_ok lex_step lexical_of
proof unfold_locales
  fix a b a'
  assume "analyzer_ok a" and "html_step env a b = Inr a'"
  then show "analyzer_ok a'" and "lex_step b (lexical_of a) = lexical_of a'"
    using html_step_good [of a b env] by (simp_all add: good_step_def)
qed

lemma html_step_no_panic: "analyzer_ok a \<Longrightarrow> html_step env a b \<noteq> Inl Panic"
  using html_step_good [of a b env] by (auto simp: good_step_def)

end
