(* ===== verification/Sando_Runtime.thy ===== *)
theory Sando_Runtime
  imports Go_Strings
begin

section \<open>The production runtime: sando/component.go, sando/write.go, sando/trust.go\<close>

text \<open>
  The runtime that generated components call. Values handed to the output helpers are the four
  opaque trusted types or any application value, whose \<open>fmt.Sprint\<close> is the parameter
  \<open>sprint\<close>. A writer is what the application supplies: its reflected value (for the nil test)
  and the effect of one \<open>Write\<close> on its own state, with the count and error it reports. Errors
  are values of \<open>render_error\<close>; every operation returns the error, if any, and the new state
  of the writer.
\<close>

subsection \<open>Reflection, writers, values\<close>

datatype reflect_kind =
  KChan | KFunc | KInterface | KMap | KPointer | KSlice | KOther

datatype reflect_value = NilInterface | Reflected reflect_kind bool

fun is_nil :: "reflect_value \<Rightarrow> bool" where
  "is_nil NilInterface = True"
| "is_nil (Reflected KOther n) = False"
| "is_nil (Reflected k n) = n"

datatype 'e render_error =
    ErrNilComponent
  | ErrNilContext
  | ErrNilWriter
  | ErrShortWrite
  | URLSafetyError bytes bytes
  | WriterError 'e

record ('w, 'e) writer =
  writer_value :: reflect_value
  writer_write :: "'w \<Rightarrow> bytes \<Rightarrow> int \<times> 'e option \<times> 'w"

datatype 'v go_value =
    is_trusted_html: TrustedHTML bytes
  | is_trusted_url: TrustedURL bytes
  | TrustedJS bytes
  | TrustedCSS bytes
  | Ordinary 'v

definition trust_html :: "bytes \<Rightarrow> 'v go_value" where "trust_html v = TrustedHTML v"
definition trust_url :: "bytes \<Rightarrow> 'v go_value" where "trust_url v = TrustedURL v"
definition trust_js :: "bytes \<Rightarrow> 'v go_value" where "trust_js v = TrustedJS v"
definition trust_css :: "bytes \<Rightarrow> 'v go_value" where "trust_css v = TrustedCSS v"

definition err_unsafe_url :: bytes where
  "err_unsafe_url = ''sando: unsafe URL''"

text \<open>
  \<open>URLSafetyError.Error\<close>. A rejected scheme passed the scheme syntax, so Go's quoted form
  of it is the scheme between double quotes.
\<close>

fun url_safety_message :: "bytes \<Rightarrow> bytes \<Rightarrow> bytes" where
  "url_safety_message scheme reason =
     (if scheme \<noteq> [] then err_unsafe_url @ '': scheme '' @ [CHR 0x22] @ scheme @ [CHR 0x22] @ '' is not allowed''
      else if reason \<noteq> [] then err_unsafe_url @ '': '' @ reason
      else err_unsafe_url)"

subsection \<open>Normalisation and URL canonicalisation\<close>

fun string_value :: "('v \<Rightarrow> bytes) \<Rightarrow> 'v go_value \<Rightarrow> bytes" where
  "string_value sprint (TrustedHTML v) = v"
| "string_value sprint (TrustedURL v) = v"
| "string_value sprint (TrustedJS v) = v"
| "string_value sprint (TrustedCSS v) = v"
| "string_value sprint (Ordinary v) = sprint v"

definition normalize_text :: "bytes \<Rightarrow> bytes" where
  "normalize_text value =
     (let value = (if \<not> valid_utf8 value then to_valid_utf8 value replacement_char else value)
      in replace_byte (CHR 0x00) replacement_char value)"

definition is_ascii_alpha :: "byte \<Rightarrow> bool" where [byte_class]:
  "is_ascii_alpha c = (65 \<le> code c \<and> code c \<le> 90 \<or> 97 \<le> code c \<and> code c \<le> 122)"

definition is_scheme_char :: "byte \<Rightarrow> bool" where [byte_class]:
  "is_scheme_char c =
     (is_ascii_alpha c \<or> 48 \<le> code c \<and> code c \<le> 57
      \<or> c = CHR ''+'' \<or> c = CHR ''-'' \<or> c = CHR ''.'')"

fun valid_scheme :: "bytes \<Rightarrow> bool" where
  "valid_scheme [] = False"
| "valid_scheme (c # cs) = (is_ascii_alpha c \<and> list_all is_scheme_char cs)"

definition url_trim_rune :: "nat \<Rightarrow> bool" where
  "url_trim_rune r = (is_space_rune r \<or> r = 65279)"

definition canonical_url :: "bytes \<Rightarrow> (bytes \<times> bytes) + bytes" where
  "canonical_url value =
     (let value = trim_func url_trim_rune (normalize_text value) in
      if list_ex (\<lambda>r. r < 32 \<or> r = 127) (runes value)
      then Inl ([], ''control characters are not allowed'')
      else (case index_byte (CHR '':'') value of
          None \<Rightarrow> Inr value
        | Some colon \<Rightarrow>
           (if (case index_any ''/?#'' value of None \<Rightarrow> False | Some boundary \<Rightarrow> boundary < colon)
            then Inr value
            else
              (let scheme = take colon value in
               if \<not> valid_scheme scheme then Inl ([], ''ambiguous scheme syntax'')
               else
                 (let scheme = map ascii_lower scheme \<comment> \<open>a valid scheme is ASCII\<close> in
                  if scheme \<in> {''http'', ''https'', ''mailto'', ''tel''} then Inr value
                  else Inl (scheme, []))))))"

subsection \<open>Writing\<close>

definition write_raw :: "('w, 'e) writer \<Rightarrow> 'w \<Rightarrow> bytes \<Rightarrow> 'e render_error option \<times> 'w" where
  "write_raw w st value =
     (if is_nil (writer_value w) then (Some ErrNilWriter, st)
      else (case writer_write w st value of
          (n, Some e, st') \<Rightarrow> (Some (WriterError e), st')
        | (n, None, st') \<Rightarrow>
            (if n \<noteq> int (length value) then (Some ErrShortWrite, st') else (None, st'))))"

definition write_string :: "('w, 'e) writer \<Rightarrow> 'w \<Rightarrow> bytes \<Rightarrow> 'e render_error option \<times> 'w" where
  "write_string w st value = write_raw w st value"

definition write_text ::
  "('v \<Rightarrow> bytes) \<Rightarrow> ('w, 'e) writer \<Rightarrow> 'w \<Rightarrow> 'v go_value \<Rightarrow> 'e render_error option \<times> 'w" where
  "write_text sprint w st value =
     (case value of
        TrustedHTML v \<Rightarrow> write_raw w st v
      | _ \<Rightarrow> write_raw w st (html_escape (normalize_text (string_value sprint value))))"

definition write_rcdata ::
  "('v \<Rightarrow> bytes) \<Rightarrow> ('w, 'e) writer \<Rightarrow> 'w \<Rightarrow> 'v go_value \<Rightarrow> 'e render_error option \<times> 'w" where
  "write_rcdata sprint w st value =
     write_raw w st (html_escape (normalize_text (string_value sprint value)))"

definition write_attr ::
  "('v \<Rightarrow> bytes) \<Rightarrow> ('w, 'e) writer \<Rightarrow> 'w \<Rightarrow> 'v go_value \<Rightarrow> 'e render_error option \<times> 'w" where
  "write_attr sprint w st value =
     write_raw w st (html_escape (normalize_text (string_value sprint value)))"

definition write_url ::
  "('v \<Rightarrow> bytes) \<Rightarrow> ('w, 'e) writer \<Rightarrow> 'w \<Rightarrow> 'v go_value \<Rightarrow> 'e render_error option \<times> 'w" where
  "write_url sprint w st value =
     (case value of
        TrustedURL v \<Rightarrow> write_raw w st (html_escape (normalize_text v))
      | _ \<Rightarrow>
         (case canonical_url (string_value sprint value) of
            Inl (scheme, reason) \<Rightarrow> (Some (URLSafetyError scheme reason), st)
          | Inr canonical \<Rightarrow> write_raw w st (html_escape canonical)))"

text \<open>
  \<open>WriteHTML\<close>, \<open>WriteJS\<close> and \<open>WriteCSS\<close> take the trusted type itself: the Go type
  checker rejects any other argument, so their model takes the wrapped string.
\<close>

definition write_html :: "('w, 'e) writer \<Rightarrow> 'w \<Rightarrow> bytes \<Rightarrow> 'e render_error option \<times> 'w" where
  "write_html w st v = write_raw w st v"

definition write_js :: "('w, 'e) writer \<Rightarrow> 'w \<Rightarrow> bytes \<Rightarrow> 'e render_error option \<times> 'w" where
  "write_js w st v = write_raw w st v"

definition write_css :: "('w, 'e) writer \<Rightarrow> 'w \<Rightarrow> bytes \<Rightarrow> 'e render_error option \<times> 'w" where
  "write_css w st v = write_raw w st v"

subsection \<open>Components\<close>

record ('c, 'w, 'e) component =
  component_value :: reflect_value
  component_render :: "'c option \<Rightarrow> ('w, 'e) writer \<Rightarrow> 'w \<Rightarrow> 'e render_error option \<times> 'w"

text \<open>\<open>ComponentFunc.Render\<close>: \<open>None\<close> is a nil function, and a nil context.\<close>

definition component_func_render ::
  "('c option \<Rightarrow> ('w, 'e) writer \<Rightarrow> 'w \<Rightarrow> 'e render_error option \<times> 'w) option
   \<Rightarrow> 'c option \<Rightarrow> ('w, 'e) writer \<Rightarrow> 'w \<Rightarrow> 'e render_error option \<times> 'w" where
  "component_func_render f ctx w st =
     (case f of
        None \<Rightarrow> (Some ErrNilComponent, st)
      | Some body \<Rightarrow>
         (if ctx = None then (Some ErrNilContext, st)
          else if is_nil (writer_value w) then (Some ErrNilWriter, st)
          else body ctx w st))"

text \<open>The \<open>Component\<close> a generated constructor returns: a function value.\<close>

definition component_func ::
  "('c option \<Rightarrow> ('w, 'e) writer \<Rightarrow> 'w \<Rightarrow> 'e render_error option \<times> 'w) option
   \<Rightarrow> ('c, 'w, 'e) component" where
  "component_func f =
     \<lparr>component_value = Reflected KFunc (f = None), component_render = component_func_render f\<rparr>"

definition render ::
  "'c option \<Rightarrow> ('w, 'e) writer \<Rightarrow> ('c, 'w, 'e) component \<Rightarrow> 'w \<Rightarrow> 'e render_error option \<times> 'w" where
  "render ctx w child st =
     (if ctx = None then (Some ErrNilContext, st)
      else if is_nil (writer_value w) then (Some ErrNilWriter, st)
      else if is_nil (component_value child) then (Some ErrNilComponent, st)
      else component_render child ctx w st)"

lemmas write_defs = write_string_def write_text_def write_rcdata_def write_attr_def write_url_def
  write_html_def write_js_def write_css_def

declare url_trim_rune_def [go_eval] normalize_text_def [go_eval] is_ascii_alpha_def [go_eval]
  is_scheme_char_def [go_eval] canonical_url_def [go_eval]

subsection \<open>Normalised text\<close>

lemma normalize_text_valid [simp]: "valid_utf8 (normalize_text v)"
  by (auto simp: normalize_text_def Let_def intro!: valid_replace_ascii valid_to_valid_utf8)

lemma normalize_text_no_NUL [simp]: "CHR 0x00 \<notin> set (normalize_text v)"
  unfolding normalize_text_def Let_def
  by (rule replace_byte_notin) (simp add: replacement_char_def)

lemma normalize_text_id: "valid_utf8 v \<Longrightarrow> CHR 0x00 \<notin> set v \<Longrightarrow> normalize_text v = v"
  by (simp add: normalize_text_def replace_byte_id)

lemma normalize_text_idem [simp]: "normalize_text (normalize_text v) = normalize_text v"
  by (simp add: normalize_text_id)

subsection \<open>What the canonical URL is\<close>

lemma canonical_url_Inr:
  "canonical_url v = Inr u \<Longrightarrow> u = trim_func url_trim_rune (normalize_text v)"
  by (auto simp: canonical_url_def Let_def split: if_splits option.splits)

lemma canonical_url_valid: "canonical_url v = Inr u \<Longrightarrow> valid_utf8 u"
  by (auto dest!: canonical_url_Inr intro: valid_trim_func)

text \<open>In valid UTF-8 a byte below 128 is a rune of its own.\<close>

lemma ascii_byte_rune:
  assumes "valid_utf8 s" and "b \<in> set s" and "code b < 128"
  shows "code b \<in> set (runes s)"
proof -
  have "b \<in> set (concat (map snd (utf8_chunks s)))" using assms(2) by simp
  then obtain r c where rc: "(r, c) \<in> set (utf8_chunks s)" "b \<in> set c"
    by (auto simp del: concat_utf8_chunks)
  then have good: "good_chunk (r, c)"
    using assms(1) by (auto simp: valid_utf8_good list_all_iff)
  then have "r = code b"
    using rc(2) assms(3) by (cases rule: good_chunk_cases) auto
  with rc(1) show ?thesis by (force simp: runes_def)
qed

lemma canonical_url_no_control:
  assumes "canonical_url v = Inr u" and "b \<in> set u"
  shows "32 \<le> code b \<and> code b \<noteq> 127"
proof (rule ccontr)
  assume "\<not> ?thesis"
  then have c: "code b < 32 \<or> code b = 127" by auto
  then have "code b \<in> set (runes u)"
    using ascii_byte_rune [OF canonical_url_valid [OF assms(1)] assms(2)] by auto
  then have "list_ex (\<lambda>r. r < 32 \<or> r = 127) (runes u)"
    using c by (auto simp: list_ex_iff)
  then show False
    using assms(1) canonical_url_Inr [OF assms(1)] by (simp add: canonical_url_def Let_def)
qed

text \<open>
  The scheme a browser reads off a URL reference (the WHATWG scheme states): leading C0 controls
  and spaces are dropped, tabs and line breaks are removed, and a letter followed by scheme
  characters up to a colon is the scheme, in lower case.
\<close>

definition browser_scheme :: "bytes \<Rightarrow> bytes option" where
  "browser_scheme u =
     (let s = filter (\<lambda>b. code b \<notin> {9, 10, 13}) (dropWhile (\<lambda>b. code b \<le> 32) u);
          scheme = takeWhile is_scheme_char s
      in if scheme \<noteq> [] \<and> is_ascii_alpha (hd scheme) \<and> has_prefix [CHR '':''] (drop (length scheme) s)
         then Some (map ascii_lower scheme) else None)"

definition allowed_schemes :: "bytes set" where
  "allowed_schemes = {''http'', ''https'', ''mailto'', ''tel''}"

lemma scheme_char_not_special:
  "is_scheme_char b \<Longrightarrow> b \<noteq> CHR '':'' \<and> b \<notin> set ''/?#''"
  by (auto simp: byte_class)

lemma canonical_url_not_space:
  assumes "canonical_url v = Inr (b # u)"
  shows "32 < code b"
proof -
  let ?n = "normalize_text v"
  have u: "b # u = trim_func url_trim_rune ?n"
    by (rule canonical_url_Inr [OF assms])
  then have chunks: "utf8_chunks (b # u) = trim_chunks url_trim_rune (utf8_chunks ?n)"
    by (simp add: trim_func_chunks)
  have "code b \<noteq> 32"
  proof
    assume b: "code b = 32"
    then have eq: "trim_chunks url_trim_rune (utf8_chunks ?n) = (32, [b]) # utf8_chunks u"
      using chunks by simp
    have "\<not> url_trim_rune (fst (hd (trim_chunks url_trim_rune (utf8_chunks ?n))))"
      by (rule trim_chunks_ends [THEN conjunct1]) (simp add: eq)
    then show False
      unfolding eq by (simp add: url_trim_rune_def is_space_rune_def)
  qed
  moreover have "32 \<le> code b"
    using canonical_url_no_control [OF assms, of b] by simp
  ultimately show ?thesis by simp
qed

lemma canonical_url_scheme:
  assumes ok: "canonical_url v = Inr u" and scheme: "browser_scheme u = Some s"
  shows "s \<in> allowed_schemes"
proof -
  have ctrl: "\<forall>b\<in>set u. 32 \<le> code b"
    using canonical_url_no_control [OF ok] by blast
  then have filt: "filter (\<lambda>b. code b \<notin> {9, 10, 13}) u = u"
    by (auto intro!: filter_True)
  have drop: "dropWhile (\<lambda>b. code b \<le> 32) u = u"
    using canonical_url_not_space [of v] ok by (cases u) fastforce+
  define pre where "pre = takeWhile is_scheme_char u"
  from scheme have s: "s = map ascii_lower pre" and pre: "pre \<noteq> []" "is_ascii_alpha (hd pre)"
    and colon: "has_prefix [CHR '':''] (drop (length pre) u)"
    unfolding browser_scheme_def drop filt Let_def pre_def by (auto split: if_splits)
  have chars: "\<forall>b\<in>set pre. is_scheme_char b"
    unfolding pre_def by (auto dest: set_takeWhileD)
  have "u = pre @ dropWhile is_scheme_char u" unfolding pre_def by simp
  moreover have "drop (length pre) u = dropWhile is_scheme_char u"
    unfolding pre_def by (simp add: dropWhile_eq_drop)
  ultimately obtain rest where u: "u = pre @ CHR '':'' # rest"
    using colon by (auto simp: has_prefix_iff)
  have notin: "CHR '':'' \<notin> set pre" "set pre \<inter> set ''/?#'' = {}"
    using chars scheme_char_not_special by blast+
  have ib: "index_byte (CHR '':'') u = Some (length pre)"
    unfolding u by (rule index_byte_append_notin [OF notin(1)])
  have bnd: "\<not> boundary < length pre" if "index_any ''/?#'' u = Some boundary" for boundary
    using index_any_Some [OF that] notin(2) u by (auto simp: nth_append disjoint_iff)
  have "valid_scheme pre"
    using pre chars by (cases pre) (auto simp: list_all_iff)
  moreover have "take (length pre) u = pre" by (simp add: u)
  ultimately show ?thesis
    using ok bnd canonical_url_Inr [OF ok] ib
    by (auto simp: canonical_url_def Let_def s allowed_schemes_def split: if_splits option.splits)
qed

lemma canonical_url_idem:
  assumes "canonical_url v = Inr u"
  shows "canonical_url u = Inr u"
proof -
  have u: "u = trim_func url_trim_rune (normalize_text v)"
    by (rule canonical_url_Inr [OF assms])
  have "CHR 0x00 \<notin> set u"
    using set_trim_func [of url_trim_rune "normalize_text v"] normalize_text_no_NUL u by blast
  then have "normalize_text u = u"
    using canonical_url_valid [OF assms] by (simp add: normalize_text_id)
  moreover have "trim_func url_trim_rune u = u"
    unfolding u by (rule trim_func_idem) simp
  ultimately show ?thesis
    using assms u by (simp add: canonical_url_def)
qed

subsection \<open>What the helpers write\<close>

text \<open>
  The bytes a helper hands to the writer, when it hands any: the helpers are one write of these.
\<close>

definition emits ::
  "(('w, 'e) writer \<Rightarrow> 'w \<Rightarrow> 'e render_error option \<times> 'w) \<Rightarrow> bytes \<Rightarrow> bool" where
  "emits helper out = (\<forall>w st. helper w st = write_raw w st out)"

definition escaped_output :: "bytes \<Rightarrow> bytes \<Rightarrow> bool" where
  "escaped_output value out =
     (list_all (\<lambda>c. \<not> html_special c) out
      \<and> decode_all html_unescape_byte (length out) out = Some (normalize_text value))"

lemma escaped_output_html_escape: "escaped_output v (html_escape (normalize_text v))"
  using html_esc.escape_safe_list_all [of "normalize_text v"]
    html_esc.decode_escape [OF order_refl, of "normalize_text v"]
  by (simp add: escaped_output_def html_escape_def)

lemma write_text_escapes:
  "\<not> is_trusted_html x \<Longrightarrow>
   write_text sprint w st x = write_raw w st (html_escape (normalize_text (string_value sprint x)))"
  by (cases x) (simp_all add: write_text_def)

text \<open>
  C34: \<open>WriteText\<close> of any value but a \<open>TrustedHTML\<close>, and \<open>WriteRCDATA\<close> and
  \<open>WriteAttr\<close> of every value (trusted wrappers included), hand the writer one string that
  holds no angle bracket and no quote, and that decodes, through the five references escaping uses,
  to exactly the normalised text of the value.
\<close>
theorem write_helpers_escape:
  "(\<not> is_trusted_html x \<longrightarrow>
      (\<exists>out. emits (\<lambda>(w :: ('w, 'e) writer) st. write_text sprint w st x) out
            \<and> escaped_output (string_value sprint x) out))
   \<and> (\<exists>out. emits (\<lambda>(w :: ('w, 'e) writer) st. write_rcdata sprint w st x) out
            \<and> escaped_output (string_value sprint x) out)
   \<and> (\<exists>out. emits (\<lambda>(w :: ('w, 'e) writer) st. write_attr sprint w st x) out
            \<and> escaped_output (string_value sprint x) out)"
  using escaped_output_html_escape [of "string_value sprint x"]
  by (auto simp: emits_def write_text_escapes write_rcdata_def write_attr_def)

theorem write_helpers_escape_witness:
  "\<not> is_trusted_html (Ordinary ''<b>'')
   \<and> (\<exists>out. emits (\<lambda>(w :: (nat, nat) writer) st. write_text id w st (Ordinary ''<b>'')) out
          \<and> escaped_output (string_value id (Ordinary ''<b>'')) out)"
  by (intro conjI write_helpers_escape [THEN conjunct1, THEN mp]) simp_all

text \<open>
  C8: \<open>WriteURL\<close> of a value that is not a \<open>TrustedURL\<close> either reports a safety error
  and leaves the writer untouched, or writes the escaped canonical URL: in it a browser reads no
  scheme but http, https, mailto or tel, it holds no control byte, and canonicalising it again
  changes nothing.
\<close>
theorem write_url_safe:
  assumes "\<not> is_trusted_url x"
  shows "(\<exists>scheme reason. \<forall>w st. write_url sprint w st x = (Some (URLSafetyError scheme reason), st))
    \<or> (\<exists>u. emits (\<lambda>w st. write_url sprint w st x) (html_escape u)
          \<and> canonical_url u = Inr u
          \<and> list_all (\<lambda>b. 32 \<le> code b \<and> code b \<noteq> 127) u
          \<and> browser_scheme u \<in> insert None (Some ` allowed_schemes))"
proof (cases "canonical_url (string_value sprint x)")
  case (Inl e)
  then show ?thesis
    using assms by (cases x; cases e) (auto simp: write_url_def)
next
  case (Inr u)
  have "emits (\<lambda>w st. write_url sprint w st x) (html_escape u)"
    using assms Inr by (cases x) (auto simp: write_url_def emits_def)
  moreover have "browser_scheme u \<in> insert None (Some ` allowed_schemes)"
    using canonical_url_scheme [OF Inr] by (cases "browser_scheme u") auto
  ultimately show ?thesis
    using canonical_url_idem [OF Inr] canonical_url_no_control [OF Inr]
    by (auto simp: list_all_iff)
qed

theorem write_url_safe_witness:
  "\<not> is_trusted_url (Ordinary ''/a'')
   \<and> canonical_url ''/a'' = Inr ''/a''
   \<and> ((\<exists>scheme reason. \<forall>(w :: (nat, nat) writer) st.
          write_url id w st (Ordinary ''/a'') = (Some (URLSafetyError scheme reason), st))
     \<or> (\<exists>u. emits (\<lambda>(w :: (nat, nat) writer) st. write_url id w st (Ordinary ''/a'')) (html_escape u)
          \<and> canonical_url u = Inr u
          \<and> list_all (\<lambda>b. 32 \<le> code b \<and> code b \<noteq> 127) u
          \<and> browser_scheme u \<in> insert None (Some ` allowed_schemes)))"
  by (intro conjI write_url_safe) (simp_all add: go_eval)

text \<open>
  Rendering reports nil inputs as errors, in the order context, writer, component, without
  running the component; and a generated component's function runs only when none of them is nil.
  A write succeeds exactly when the writer is not nil, reports no error and reports the full length.
\<close>
theorem render_nil_matrix:
  "render ctx w (component_func f) st =
     (if ctx = None then (Some ErrNilContext, st)
      else if is_nil (writer_value w) then (Some ErrNilWriter, st)
      else (case f of None \<Rightarrow> (Some ErrNilComponent, st) | Some body \<Rightarrow> body ctx w st))
   \<and> (fst (write_raw w st out) = None) =
       (\<not> is_nil (writer_value w) \<and> (\<exists>st'. writer_write w st out = (int (length out), None, st')))"
  by (auto simp: render_def component_func_def component_func_render_def write_raw_def
      split: option.splits prod.splits)

end
