(* ===== verification/Html_Analysis.thy ===== *)
theory Html_Analysis
  imports Html_Tokenizer Sando_Runtime
begin

section \<open>What an accepted template guarantees\<close>

text \<open>
  The analysis of a whole file, on top of the invariant and the simulation of one byte: it never
  panics, it changes nothing but the contexts of nodes, and the contexts it gives are those in which
  a tokenizer finds the rendered document, whatever path the Go statements of the template take and
  whatever the escaped values are.
\<close>

subsection \<open>Text nodes\<close>

lemma consume_text_Inr:
  "consume_text env path table off s a = Inr a' \<longleftrightarrow> run_machine (html_step env) a s = Inr a'"
  by (induction s arbitrary: a off) (auto split: sum.splits)

lemma consume_text_no_crash:
  "analyzer_ok a \<Longrightarrow> consume_text env path table off s a \<noteq> Inl Crashed"
proof (induction s arbitrary: a off)
  case Nil
  then show ?case by simp
next
  case (Cons b s)
  show ?case
  proof (cases "html_step env a b")
    case (Inl e)
    then show ?thesis
      using html_step_no_panic [OF Cons.prems, of env b] by (cases e) auto
  next
    case (Inr a')
    then show ?thesis
      using Cons.IH [of a'] html.step_inv [OF Cons.prems Inr] by simp
  qed
qed

lemma consume_text_sim:
  assumes "analyzer_ok a" and "consume_text env path table off s a = Inr a'"
  shows "analyzer_ok a' \<and> lex_run s (lexical_of a) = lexical_of a'"
  using html.run_inv [OF assms(1)] html.run_sim [OF assms(1)] assms(2)
  unfolding consume_text_Inr lex_run_def by blast

subsection \<open>Other nodes\<close>

lemma record_dynamic_ok [simp]: "analyzer_ok (record_dynamic i a) = analyzer_ok a"
  by (simp add: record_dynamic_def Let_def analyzer_ok_def tag_ok_def attr_ok_def raw_ok_def stack_ok_def)

lemma record_dynamic_lexical [simp]: "lexical_of (record_dynamic i a) = lexical_of a"
  by (simp add: record_dynamic_def Let_def lexical_of_def cong: html_state.case_cong)

lemma lexical_data: "lexical_of a = LData \<longleftrightarrow> an_state a = HtmlData"
  by (cases "an_state a") (simp_all add: lexical_of_def)

lemma dynamic_context_lexical: "dynamic_context a = lex_context (lexical_of a)"
  by (cases "an_state a") (simp_all add: dynamic_context_def lexical_of_def)

lemma analyze_expression_Inr:
  "analyze_expression path i node a = Inr (node', a') \<Longrightarrow>
   \<exists>ctx. dynamic_context a = Some ctx \<and> node' = node\<lparr>node_context := ctx\<rparr> \<and> a' = record_dynamic i a"
  unfolding analyze_expression_def Let_def reject_at_def
  by (auto split: if_split_asm option.split_asm)

lemma analyze_expression_no_crash: "analyze_expression path i node a \<noteq> Inl Crashed"
  unfolding analyze_expression_def Let_def reject_at_def by (auto split: option.split)

definition annotated :: "renderer_node \<Rightarrow> output_context \<Rightarrow> bool" where
  \<comment> \<open>the contexts each kind of node may be given\<close>
  "annotated node ctx =
     (case node_kind node of
        NodeText \<Rightarrow> ctx = node_context node
      | NodeComment \<Rightarrow> ctx = node_context node
      | NodeStatement \<Rightarrow> ctx = ContextNone
      | NodeComponent \<Rightarrow> ctx = ContextHTMLText
      | NodeExpression \<Rightarrow>
          ctx \<in> {ContextHTMLText, ContextRCDATA, ContextAttr, ContextURL, ContextJS, ContextCSS})"

lemma lex_context_range:
  "lex_context l = Some ctx \<Longrightarrow>
   ctx \<in> {ContextHTMLText, ContextRCDATA, ContextAttr, ContextURL, ContextJS, ContextCSS}"
  by (cases l) (auto split: if_splits)

text \<open>
  One node: the invariant is kept, only the context changes, and the lexical machine reads the
  node's own text.
\<close>

definition static_text :: "renderer_node \<Rightarrow> bytes" where
  "static_text node = (if node_kind node = NodeText then node_text node else [])"

lemma analyze_node_Inr:
  assumes ok: "analyzer_ok a" and r: "analyze_node env path table i node a = Inr (node', a')"
  shows "analyzer_ok a'
    \<and> lexical_of a' = lex_run (static_text node) (lexical_of a)
    \<and> node_kind node' = node_kind node \<and> node_text node' = node_text node
    \<and> annotated node (node_context node')
    \<and> (node_kind node = NodeExpression \<longrightarrow> lex_context (lexical_of a) = Some (node_context node'))
    \<and> (node_kind node \<in> {NodeComponent, NodeStatement} \<longrightarrow> lexical_of a = LData)"
proof (cases "node_kind node")
  case NodeText
  then obtain "node' = node" "consume_text env path table (pos_offset (node_pos node)) (node_text node) a = Inr a'"
    using r by (auto simp: analyze_node_def split: sum.splits)
  then show ?thesis
    using consume_text_sim [OF ok] NodeText by (simp add: static_text_def annotated_def)
next
  case NodeStatement
  then show ?thesis
    using r ok by (auto simp: analyze_node_def reject_at_def static_text_def annotated_def lexical_data
        split: if_splits)
next
  case NodeComponent
  then show ?thesis
    using r ok by (auto simp: analyze_node_def reject_at_def static_text_def annotated_def lexical_data
        split: if_splits)
next
  case NodeComment
  then show ?thesis
    using r ok by (simp add: analyze_node_def static_text_def annotated_def)
next
  case NodeExpression
  then obtain ctx where "dynamic_context a = Some ctx" "node' = node\<lparr>node_context := ctx\<rparr>"
    "a' = record_dynamic i a"
    using r analyze_expression_Inr [of path i node a node' a'] by (auto simp: analyze_node_def)
  then show ?thesis
    using ok NodeExpression lex_context_range [of "lexical_of a" ctx]
    by (simp add: static_text_def annotated_def dynamic_context_lexical)
qed

lemma analyze_node_no_crash:
  "analyzer_ok a \<Longrightarrow> analyze_node env path table i node a \<noteq> Inl Crashed"
  using consume_text_no_crash [of a env path table "pos_offset (node_pos node)" "node_text node"]
    analyze_expression_no_crash [of path i node a]
  by (auto simp: analyze_node_def reject_at_def split: node_kind.splits sum.splits)

lemma analyze_nodes_no_crash:
  "analyzer_ok a \<Longrightarrow> snd (analyze_nodes env path table i nodes a) \<noteq> Inl Crashed"
proof (induction nodes arbitrary: a i)
  case Nil
  then show ?case by simp
next
  case (Cons node nodes)
  show ?case
  proof (cases "analyze_node env path table i node a")
    case (Inl e)
    then show ?thesis
      using analyze_node_no_crash [OF Cons.prems, of env path table i node] by auto
  next
    case (Inr p)
    then obtain node' a' where p: "analyze_node env path table i node a = Inr (node', a')"
      by (cases p) auto
    then show ?thesis
      using Cons.IH [of a' "Suc i"] analyze_node_Inr [OF Cons.prems p] by (auto split: prod.splits)
  qed
qed

lemma analyze_node_keep:
  assumes "analyze_node env path table i n a = Inr (n', a')"
  shows "node_kind n' = node_kind n \<and> node_text n' = node_text n \<and> node_pos n' = node_pos n"
  using assms
  by (cases "node_kind n")
    (auto simp: analyze_node_def reject_at_def split: sum.splits if_splits dest!: analyze_expression_Inr)

lemma analyze_nodes_keep:
  "map (\<lambda>n. (node_kind n, node_text n, node_pos n)) (fst (analyze_nodes env path table i ns a))
   = map (\<lambda>n. (node_kind n, node_text n, node_pos n)) ns"
proof (induction ns arbitrary: a i)
  case Nil
  then show ?case by simp
next
  case (Cons n ns)
  show ?case
  proof (cases "analyze_node env path table i n a")
    case (Inl e)
    then show ?thesis by simp
  next
    case (Inr p)
    obtain n' a' where p: "p = (n', a')" by fastforce
    obtain ns' r where rest: "analyze_nodes env path table (Suc i) ns a' = (ns', r)" by fastforce
    show ?thesis
      using Cons.IH [of "Suc i" a'] analyze_node_keep [of env path table i n a n' a'] Inr
      by (simp add: p rest)
  qed
qed

text \<open>
  C37: The context analysis never panics, on any file: no attribute map is written before an
  opening tag has made it. It returns the file with its nodes in the same number, kind, order, text
  and position, and everything but the nodes' contexts unchanged.
\<close>
theorem analyze_contexts_total:
  "\<exists>nodes ds. analyze_contexts env file = Some (file\<lparr>file_nodes := nodes\<rparr>, ds)
     \<and> map (\<lambda>n. (node_kind n, node_text n, node_pos n)) nodes
       = map (\<lambda>n. (node_kind n, node_text n, node_pos n)) (file_nodes file)"
proof -
  let ?r = "analyze_nodes env (file_path file) (new_position_table (file_source file)) 0
    (file_nodes file) initial_analyzer"
  have "snd ?r \<noteq> Inl Crashed"
    by (rule analyze_nodes_no_crash [OF initial_ok])
  then show ?thesis
    using analyze_nodes_keep [of env "file_path file" "new_position_table (file_source file)" 0 "file_nodes file" initial_analyzer]
    by (cases ?r) (auto simp: analyze_contexts_def Let_def split: sum.splits analysis_stop.splits)
qed

subsection \<open>Accepted files\<close>

lemma analyze_nodes_Inr:
  assumes "analyzer_ok a" and "analyze_nodes env path table i nodes a = (nodes', Inr a')"
  shows "analyzer_ok a' \<and> lexical_of a' = lex_run (concat (map static_text nodes)) (lexical_of a)
     \<and> list_all2 (\<lambda>n n'. annotated n (node_context n')) nodes nodes'"
  using assms
proof (induction nodes arbitrary: a i nodes')
  case Nil
  then show ?case by simp
next
  case (Cons n nodes)
  obtain n' a1 ns' where n: "analyze_node env path table i n a = Inr (n', a1)"
    and rest: "analyze_nodes env path table (Suc i) nodes a1 = (ns', Inr a')" and eq: "nodes' = n' # ns'"
    using Cons.prems(2) by (auto split: sum.splits prod.splits)
  note one = analyze_node_Inr [OF Cons.prems(1) n]
  then show ?case
    using Cons.IH [OF _ rest] eq by simp
qed

lemma accepted_run:
  assumes "analyze_contexts env file = Some (file', [])"
  obtains nodes a where
    "analyze_nodes env (file_path file) (new_position_table (file_source file)) 0 (file_nodes file)
       initial_analyzer = (nodes, Inr a)"
    "file' = file\<lparr>file_nodes := nodes\<rparr>" "an_state a = HtmlData" "an_stack a = []"
  using assms unfolding analyze_contexts_def Let_def end_diagnostics_def
  by (auto split: prod.splits sum.splits analysis_stop.splits if_splits list.splits)

subsection \<open>Rendered documents\<close>

text \<open>The bytes a node contributes to the document, given what its expression or component writes.\<close>

definition node_output :: "renderer_node \<Rightarrow> bytes \<Rightarrow> bytes" where
  "node_output node out =
     (case node_kind node of
        NodeText \<Rightarrow> node_text node
      | NodeExpression \<Rightarrow> out
      | NodeComponent \<Rightarrow> out
      | _ \<Rightarrow> [])"

text \<open>
  What may be written at a node: a component or a value in HTML text writes a fragment that ends
  in the state it began in (every escaped value is one); JavaScript and CSS stay inside their
  element; attribute, URL and RCDATA values hold no angle bracket and no quote.
\<close>

definition confined :: "renderer_node \<Rightarrow> bytes \<Rightarrow> bool" where
  "confined node out =
     (if node_kind node = NodeComponent then lex_run out LData = LData
      else if node_kind node = NodeExpression then
        (case node_context node of
           ContextHTMLText \<Rightarrow> lex_run out LData = LData
         | ContextJS \<Rightarrow> lex_run out (LRaw ''script'') = LRaw ''script''
         | ContextCSS \<Rightarrow> lex_run out (LRaw ''style'') = LRaw ''style''
         | _ \<Rightarrow> list_all (\<lambda>c. \<not> html_special c) out)
      else True)"

definition confined_run :: "(renderer_node \<times> bytes) list \<Rightarrow> bool" where
  "confined_run run = list_all (\<lambda>p. confined (fst p) (snd p)) run"

text \<open>
  A document, as the nodes that wrote it: at every expression the tokenizer is in the context the
  node is annotated with, at every component in HTML text, and at the end in HTML text.
\<close>

fun contexts_hold :: "(renderer_node \<times> bytes) list \<Rightarrow> lexical \<Rightarrow> bool" where
  "contexts_hold [] l = (l = LData)"
| "contexts_hold ((node, out) # rest) l =
     ((node_kind node = NodeExpression \<longrightarrow> lex_context l = Some (node_context node))
      \<and> (node_kind node = NodeComponent \<longrightarrow> l = LData)
      \<and> contexts_hold rest (lex_run (node_output node out) l))"

text \<open>
  The straight-line pieces of a template: generated code can leave the order of the nodes (a
  branch, a loop, a return) only at a Go statement.
\<close>

fun segments :: "renderer_node list \<Rightarrow> renderer_node list list" where
  "segments [] = [[]]"
| "segments (n # ns) =
     (if node_kind n = NodeStatement then [] # segments ns
      else (case segments ns of [] \<Rightarrow> [[n]] | s # ss \<Rightarrow> (n # s) # ss))"

lemma segments_nonempty [simp]: "segments ns \<noteq> []"
  by (induction ns) (auto split: list.splits)

lemma lex_run_stays: "(\<And>b. b \<in> set s \<Longrightarrow> lex_step b l = l) \<Longrightarrow> lex_run s l = l"
  by (induction s) (simp_all add: lex_run_Cons)

lemma escaped_stays_data: "list_all (\<lambda>c. \<not> html_special c) s \<Longrightarrow> lex_run s LData = LData"
  by (rule lex_run_stays) (auto simp: list_all_iff html_special_def)

lemma escaped_stays_raw: "list_all (\<lambda>c. \<not> html_special c) s \<Longrightarrow> lex_run s (LRaw t) = LRaw t"
  by (rule lex_run_stays) (auto simp: list_all_iff html_special_def)

lemma escaped_stays_quoted:
  "list_all (\<lambda>c. \<not> html_special c) s \<Longrightarrow> q \<in> {CHR 0x22, CHR 0x27} \<Longrightarrow>
   lex_run s (LQuoted q t n) = LQuoted q t n"
  by (rule lex_run_stays) (auto simp: list_all_iff html_special_def)

lemma lexical_quote: "lexical_of a = LQuoted q t n \<Longrightarrow> q \<in> {CHR 0x22, CHR 0x27}"
  by (cases "an_state a") (simp_all add: lexical_of_def)

lemma confined_stays:
  assumes ctx: "lex_context (lexical_of a) = Some (node_context n)"
    and kind: "node_kind n = NodeExpression" and out: "confined n out"
  shows "lex_run out (lexical_of a) = lexical_of a"
proof (cases "lexical_of a")
  case LData
  then show ?thesis using assms by (simp add: confined_def split: output_context.splits)
next
  case (LQuoted q t k)
  then show ?thesis
    using assms escaped_stays_quoted [of out q t k] lexical_quote [OF LQuoted]
    by (simp add: confined_def split: output_context.splits if_splits)
next
  case (LRaw t)
  then show ?thesis
    using assms escaped_stays_raw [of out t] by (auto simp: confined_def split: if_splits)
qed (use ctx in simp_all)

text \<open>The first piece starts where the analyzer stands, every other in HTML text.\<close>

lemma analyze_nodes_segments:
  assumes "analyzer_ok a" and "analyze_nodes env path table i nodes a = (nodes', Inr a')"
    and "lexical_of a' = LData" and "segments nodes' = s # ss"
  shows "(\<forall>run. map fst run = s \<longrightarrow> confined_run run \<longrightarrow> contexts_hold run (lexical_of a))
     \<and> (\<forall>run. map fst run \<in> set ss \<longrightarrow> confined_run run \<longrightarrow> contexts_hold run LData)"
  using assms
proof (induction nodes arbitrary: a i nodes' s ss)
  case Nil
  then show ?case by simp
next
  case (Cons n nodes)
  obtain n' a1 ns' where n: "analyze_node env path table i n a = Inr (n', a1)"
    and rest: "analyze_nodes env path table (Suc i) nodes a1 = (ns', Inr a')" and eq: "nodes' = n' # ns'"
    using Cons.prems(2) by (auto split: sum.splits prod.splits)
  note one = analyze_node_Inr [OF Cons.prems(1) n]
  then have kind: "node_kind n' = node_kind n" "node_text n' = node_text n"
    by simp_all
  obtain t ts where ts: "segments ns' = t # ts"
    by (meson neq_Nil_conv segments_nonempty)
  have first: "map fst run = t \<Longrightarrow> confined_run run \<Longrightarrow> contexts_hold run (lexical_of a1)"
    and later: "map fst run \<in> set ts \<Longrightarrow> confined_run run \<Longrightarrow> contexts_hold run LData" for run
    using Cons.IH [OF _ rest Cons.prems(3) ts] one by blast+
  show ?case
  proof (cases "node_kind n = NodeStatement")
    case True
    then have "s = []" "ss = t # ts" "lexical_of a = LData" "lexical_of a1 = LData"
      using Cons.prems(4) eq kind ts one by (auto simp: static_text_def)
    then show ?thesis using first later by auto
  next
    case False
    then have s: "s = n' # t" "ss = ts"
      using Cons.prems(4) eq kind ts by auto
    have "contexts_hold run (lexical_of a)" if run: "map fst run = n' # t" "confined_run run" for run
    proof -
      obtain out run' where r: "run = (n', out) # run'" "map fst run' = t"
        using run by (cases run) auto
      then have conf: "confined n' out" "confined_run run'"
        using run by (simp_all add: confined_run_def)
      have "lexical_of a1 = lex_run (node_output n' out) (lexical_of a)"
        using one confined_stays [of a n' out] conf(1) kind False
        by (cases "node_kind n") (auto simp: node_output_def static_text_def confined_def)
      then show ?thesis
        using first [OF r(2) conf(2)] one kind unfolding r(1) by simp
    qed
    then show ?thesis using later s by simp
  qed
qed

lemma accepted_execution:
  assumes "analyze_contexts env file = Some (file', [])"
    and "\<forall>run\<in>set execution. map fst run \<in> set (segments (file_nodes file'))"
    and "\<forall>run\<in>set execution. confined_run run"
  shows "contexts_hold (concat execution) LData"
proof -
  obtain nodes a where run: "analyze_nodes env (file_path file) (new_position_table (file_source file)) 0
      (file_nodes file) initial_analyzer = (nodes, Inr a)"
    and f: "file' = file\<lparr>file_nodes := nodes\<rparr>" and a: "an_state a = HtmlData"
    using assms(1) by (rule accepted_run)
  obtain s ss where s: "segments nodes = s # ss"
    by (meson neq_Nil_conv segments_nonempty)
  have piece: "contexts_hold run LData" if "run \<in> set execution" for run
    using analyze_nodes_segments [OF initial_ok run _ s] a assms(2,3) that f s
    by (auto simp: lexical_data)
  have app: "contexts_hold xs l \<Longrightarrow> contexts_hold ys LData \<Longrightarrow> contexts_hold (xs @ ys) l" for xs ys l
    by (induction xs l rule: contexts_hold.induct) auto
  show ?thesis
    using piece by (induction execution) (auto intro: app)
qed

text \<open>
  C3: In an accepted template, every expression is escaped for the place it is written to. Take
  any execution of the generated code, that is, any sequence of the pieces between Go statements,
  with any confined output at each expression and component: reading the document from the start, a
  tokenizer is in exactly the annotated context at every expression, in HTML text at every component
  and at the end. In particular no value escapes its context, whatever branches and loops are taken.
\<close>
theorem accepted_contexts_hold:
  assumes "analyze_contexts env file = Some (file', [])"
    and "\<forall>run\<in>set execution. map fst run \<in> set (segments (file_nodes file'))"
    and "\<forall>run\<in>set execution. confined_run run"
  shows "contexts_hold (concat execution) LData"
  by (rule accepted_execution [OF assms])

text \<open>A template with an attribute value, a branch and a value in text.\<close>

definition sample_node :: "node_kind \<Rightarrow> bytes \<Rightarrow> output_context \<Rightarrow> renderer_node" where
  "sample_node kind body ctx =
     \<lparr>node_kind = kind, node_text = body, node_context = ctx, node_pos = position_one\<rparr>"

definition sample_file :: "renderer_node list \<Rightarrow> source_file" where
  "sample_file nodes =
     \<lparr>file_path = ''a.san'', file_mapping = ''a.san'', file_package = ''p'', file_name = ''A'',
      file_type_params = [], file_params = [], file_imports = [], file_nodes = nodes,
      file_source = [], file_header_end = 0, file_function_pos = position_one\<rparr>"

definition sample_nodes :: "output_context \<Rightarrow> output_context \<Rightarrow> output_context \<Rightarrow> renderer_node list" where
  "sample_nodes ctx1 ctx2 ctx3 =
     [sample_node NodeText (''<p id='' @ [CHR 0x22]) ContextUnset, sample_node NodeExpression ''v'' ctx1,
      sample_node NodeText (CHR 0x22 # ''>'') ContextUnset, sample_node NodeStatement ''if x {'' ctx2,
      sample_node NodeExpression ''w'' ctx3, sample_node NodeStatement ''}'' ctx2,
      sample_node NodeText ''</p>'' ContextUnset]"

lemmas sample_defs = sample_node_def sample_file_def sample_nodes_def

lemma sample_accepted:
  "analyze_contexts ascii_env (sample_file (sample_nodes ContextUnset ContextUnset ContextUnset))
   = Some (sample_file (sample_nodes ContextAttr ContextNone ContextHTMLText), [])"
  by (simp add: sample_defs go_eval)

theorem accepted_contexts_hold_witness:
  "analyze_contexts ascii_env (sample_file (sample_nodes ContextUnset ContextUnset ContextUnset))
     = Some (sample_file (sample_nodes ContextAttr ContextNone ContextHTMLText), [])
   \<and> contexts_hold (concat
       [[(sample_node NodeText (''<p id='' @ [CHR 0x22]) ContextUnset, []),
         (sample_node NodeExpression ''v'' ContextAttr, ''x''),
         (sample_node NodeText (CHR 0x22 # ''>'') ContextUnset, [])],
        [(sample_node NodeExpression ''w'' ContextHTMLText, ''&lt;'')],
        [(sample_node NodeText ''</p>'' ContextUnset, [])]]) LData"
proof (intro conjI sample_accepted accepted_contexts_hold [OF sample_accepted])
qed (simp_all add: sample_defs confined_run_def confined_def lex_run_def html_special_def)

text \<open>
  C15: The analyzer refines the HTML tokenizer, byte by byte. In every state it can be in, a byte of
  static text is rejected with a diagnostic (never a panic: no nil map, empty stack or index out of
  range), or leads to a state that satisfies the invariant and whose tokenizer state is the one the
  tokenizer goes to on that byte.
\<close>
theorem analyzer_refines_tokenizer:
  assumes "analyzer_ok a"
  shows "case html_step env a b of
      Inl stop \<Rightarrow> stop \<noteq> Panic
    | Inr a' \<Rightarrow> analyzer_ok a' \<and> lexical_of a' = lex_step b (lexical_of a)"
  using html_step_good [OF assms, of b env] by (simp add: good_step_def)

theorem analyzer_refines_tokenizer_witness:
  "\<exists>a'. html_step ascii_env initial_analyzer (CHR ''<'') = Inr a' \<and> analyzer_ok a' \<and> lexical_of a' = LAfterLT"
proof -
  obtain a' where a': "html_step ascii_env initial_analyzer (CHR ''<'') = Inr a'"
    by (simp add: go_eval)
  have "lex_step (CHR ''<'') LData = LAfterLT" by (simp add: go_eval)
  then show ?thesis
    using analyzer_refines_tokenizer [OF initial_ok, where env = ascii_env and b = "CHR ''<''"] a' by simp
qed

end
