(* ===== verification/Html_Urls.thy ===== *)
theory Html_Urls
  imports Html_Tokenizer Sando_Runtime
begin

section \<open>URL attributes of accepted templates\<close>

text \<open>
  The compile-time half of the URL policy: what \<open>finishAttributeValue\<close> accepts for a URL
  attribute, seen as a browser reads the decoded value. The run-time half is
  \<open>canonical_url\<close> of the runtime theory.
\<close>

subsection \<open>ASCII bytes in chunks\<close>

lemma ascii_chunk:
  "(r, c) \<in> set (utf8_chunks s) \<Longrightarrow> b \<in> set c \<Longrightarrow> code b < 128 \<Longrightarrow> c = [b] \<and> r = code b"
proof (induction s rule: utf8_chunks.induct)
  case 1
  then show ?case by simp
next
  case (2 x s)
  obtain r' n where d: "decode_rune (x # s) = (r', n)" by fastforce
  show ?case
  proof (cases "(r, c) = (r', take n (x # s))")
    case False
    then show ?thesis
      using "2.IH" [OF _ refl, of r' n] "2.prems" d by (auto simp: utf8_chunks_Cons [OF d])
  next
    case True
    show ?thesis
    proof (cases "r' = rune_error \<and> n = 1")
      case False
      have "good_chunk (r, c)" using good_chunkI [OF d _ False] True by simp
      then show ?thesis using "2.prems" by (cases rule: good_chunk_cases) auto
    next
      case bad: True
      then have "c = [x]" using True by simp
      then show ?thesis using "2.prems" d bad by (simp add: rune_error_def)
    qed
  qed
qed

lemma ascii_chunks: "list_all is_ascii s \<Longrightarrow> utf8_chunks (s @ t) = map (\<lambda>b. (code b, [b])) s @ utf8_chunks t"
  by (induction s) (simp_all add: is_ascii_def)

lemma ascii_rune_mem: "b \<in> set s \<Longrightarrow> code b < 128 \<Longrightarrow> code b \<in> set (runes s)"
proof -
  assume b: "b \<in> set s" "code b < 128"
  then have "b \<in> set (concat (map snd (utf8_chunks s)))" by simp
  then obtain r c where "(r, c) \<in> set (utf8_chunks s)" "b \<in> set c"
    by (auto simp del: concat_utf8_chunks)
  then show ?thesis
    using ascii_chunk [of r c s b] b(2) by (force simp: runes_def)
qed

subsection \<open>Trimming a string whose first visible byte is ASCII\<close>

lemma rev_dropWhile_split: "\<exists>ys. xs = rev (dropWhile P (rev xs)) @ ys \<and> (\<forall>y\<in>set ys. P y)"
proof -
  have "rev xs = takeWhile P (rev xs) @ dropWhile P (rev xs)" by simp
  then have "xs = rev (dropWhile P (rev xs)) @ rev (takeWhile P (rev xs))"
    by (metis rev_append rev_rev_ident)
  then show ?thesis by (metis set_rev set_takeWhileD)
qed

text \<open>What is trimmed at the end holds no ASCII byte but white space.\<close>

lemma trim_func_split:
  obtains trail where
    "concat (map snd (dropWhile (\<lambda>c. f (fst c)) (utf8_chunks s))) = trim_func f s @ trail"
    "\<forall>b\<in>set trail. code b < 128 \<longrightarrow> f (code b)"
proof -
  define mid where "mid = dropWhile (\<lambda>c. f (fst c)) (utf8_chunks s)"
  obtain cs where cs: "mid = rev (dropWhile (\<lambda>c. f (fst c)) (rev mid)) @ cs" "\<forall>c\<in>set cs. f (fst c)"
    using rev_dropWhile_split [of mid "\<lambda>c. f (fst c)"] by (elim exE conjE) (rule that)
  have t: "trim_func f s = concat (map snd (rev (dropWhile (\<lambda>c. f (fst c)) (rev mid))))"
    by (simp add: trim_func_def trim_chunks_def trim_left_chunks_def mid_def)
  have sub: "set cs \<subseteq> set (utf8_chunks s)"
    using cs(1) set_dropWhileD unfolding mid_def by (metis Un_iff set_append subsetI)
  have "\<forall>b\<in>set (concat (map snd cs)). code b < 128 \<longrightarrow> f (code b)"
  proof (intro ballI impI)
    fix b assume b: "b \<in> set (concat (map snd cs))" "code b < 128"
    then obtain r c where rc: "(r, c) \<in> set cs" "b \<in> set c" by auto
    then have "r = code b"
      using ascii_chunk [of r c s b] sub b(2) by blast
    then show "f (code b)" using cs(2) rc(1) by force
  qed
  moreover have "concat (map snd mid) = trim_func f s @ concat (map snd cs)"
    unfolding t by (subst cs(1)) simp
  ultimately show thesis using that unfolding mid_def by blast
qed

lemma is_space_ascii: "code b < 128 \<Longrightarrow> is_space_rune (code b) \<longleftrightarrow> 9 \<le> code b \<and> code b \<le> 13 \<or> code b = 32"
  by (auto simp: is_space_rune_def)

text \<open>
  The chunks after leading white space, of a string of low bytes and a visible ASCII byte: either
  all low bytes were white space, or a control byte comes first.
\<close>

lemma drop_spaces:
  fixes sp q :: bytes
  assumes low: "\<forall>b\<in>set sp. code b \<le> 32" and c: "32 < code c" "code c < 128"
  defines "rest \<equiv> concat (map snd (dropWhile (\<lambda>c. is_space_rune (fst c)) (utf8_chunks (sp @ c # q))))"
  obtains "rest = c # q" | b t where "rest = b # t" "code b < 32" "c \<in> set t"
proof -
  have chunks: "utf8_chunks (sp @ c # q) = map (\<lambda>b. (code b, [b])) sp @ (code c, [c]) # utf8_chunks q"
    using ascii_chunks [of sp "c # q"] low c by (force simp: list_all_iff is_ascii_def)
  have "\<not> is_space_rune (code c)" using c by (simp add: is_space_ascii)
  then have "(rest = c # q) \<or> (\<exists>b t. rest = b # t \<and> code b < 32 \<and> c \<in> set t)"
    using low unfolding rest_def chunks
  proof (induction sp)
    case Nil
    then show ?case by simp
  next
    case (Cons b sp)
    have "concat (map (snd \<circ> (\<lambda>b. (code b, [b]))) sp) = sp" by (induction sp) simp_all
    then show ?case
      using Cons by (auto simp: is_space_ascii)
  qed
  then show thesis using that by blast
qed

subsection \<open>Reading the scheme\<close>

lemma browser_scheme_visible:
  assumes "\<forall>b\<in>set sp. code b \<le> 32" and "32 < code c"
  shows "browser_scheme (sp @ c # q) =
    (let s = filter (\<lambda>b. code b \<notin> {9, 10, 13}) (c # q); scheme = takeWhile is_scheme_char s
     in if scheme \<noteq> [] \<and> is_ascii_alpha (hd scheme) \<and> has_prefix [CHR '':''] (drop (length scheme) s)
        then Some (map ascii_lower scheme) else None)"
proof -
  have "dropWhile (\<lambda>b. code b \<le> 32) (sp @ c # q) = c # q"
    using assms by (simp add: dropWhile_append2)
  then show ?thesis unfolding browser_scheme_def by (simp only:)
qed

lemma browser_scheme_Some:
  assumes "browser_scheme u = Some s"
  obtains sp c q pre rest where
    "u = sp @ c # q" "\<forall>b\<in>set sp. code b \<le> 32" "32 < code c" "code c < 128" "is_ascii_alpha c"
    "filter (\<lambda>b. code b \<notin> {9, 10, 13}) (c # q) = pre @ CHR '':'' # rest"
    "pre \<noteq> []" "hd pre = c" "\<forall>b\<in>set pre. is_scheme_char b" "s = map ascii_lower pre"
proof -
  define sp where "sp = takeWhile (\<lambda>b. code b \<le> 32) u"
  define t where "t = dropWhile (\<lambda>b. code b \<le> 32) u"
  have u: "u = sp @ t" unfolding sp_def t_def by simp
  have low: "\<forall>b\<in>set sp. code b \<le> 32" unfolding sp_def by (auto dest: set_takeWhileD)
  have "t \<noteq> []"
  proof
    assume "t = []"
    then have "dropWhile (\<lambda>b. code b \<le> 32) u = []" unfolding t_def .
    then show False using assms unfolding browser_scheme_def Let_def by (simp only:) simp
  qed
  then obtain c q where t: "t = c # q" by (cases t) auto
  have c: "32 < code c" using dropWhile_hd [of "\<lambda>b. code b \<le> 32" u] t unfolding t_def by fastforce
  define f where "f = filter (\<lambda>b. code b \<notin> {9, 10, 13}) (c # q)"
  define pre where "pre = takeWhile is_scheme_char f"
  have f: "f = pre @ dropWhile is_scheme_char f" unfolding pre_def by simp
  have vis: "browser_scheme u = (if pre \<noteq> [] \<and> is_ascii_alpha (hd pre)
      \<and> has_prefix [CHR '':''] (drop (length pre) f) then Some (map ascii_lower pre) else None)"
    using browser_scheme_visible [OF low c, of q] unfolding u t Let_def f_def pre_def by simp
  with assms have p: "pre \<noteq> []" "is_ascii_alpha (hd pre)" "s = map ascii_lower pre"
    and colon: "has_prefix [CHR '':''] (drop (length pre) f)" by (auto split: if_splits)
  have "drop (length pre) f = dropWhile is_scheme_char f"
    unfolding pre_def by (simp add: dropWhile_eq_drop)
  then obtain rest where rest: "f = pre @ CHR '':'' # rest"
    using colon f by (auto simp: has_prefix_iff)
  have "f = c # filter (\<lambda>b. code b \<notin> {9, 10, 13}) q" using c by (auto simp: f_def)
  then have hd: "hd pre = c" using rest p(1) by (cases pre) auto
  show thesis
  proof (rule that [OF _ low c _ _ _ p(1) hd _ p(3)])
    show "u = sp @ c # q" by (simp add: u t)
    show "code c < 128" "is_ascii_alpha c" using p(2) hd by (auto simp: byte_class)
    show "filter (\<lambda>b. code b \<notin> {9, 10, 13}) (c # q) = pre @ CHR '':'' # rest"
      using rest by (simp add: f_def)
    show "\<forall>b\<in>set pre. is_scheme_char b" unfolding pre_def by (auto dest: set_takeWhileD)
  qed
qed

subsection \<open>Lower case\<close>

definition ascii_table :: "(nat \<Rightarrow> nat) \<Rightarrow> bool" where
  \<comment> \<open>the Unicode lower-case table agrees with ASCII lower case on ASCII\<close>
  "ascii_table ucl = (\<forall>b. code b < 128 \<longrightarrow> ucl (code b) = code (ascii_lower b))"

definition rune_lower :: "(nat \<Rightarrow> nat) \<Rightarrow> bytes \<Rightarrow> bytes" where
  "rune_lower ucl s = concat (map (\<lambda>r. encode_rune (ucl r)) (runes s))"

lemma rune_lower_Nil [simp]: "rune_lower ucl [] = []"
  by (simp add: rune_lower_def runes_def)

lemma rune_lower_ascii_Cons:
  "ascii_table ucl \<Longrightarrow> code b < 128 \<Longrightarrow> rune_lower ucl (b # s) = ascii_lower b # rune_lower ucl s"
proof -
  assume t: "ascii_table ucl" and b: "code b < 128"
  have "code (ascii_lower b) < 128" using b by (simp add: code_ascii_lower)
  then have "encode_rune (ucl (code b)) = [ascii_lower b]"
    using t b by (simp add: ascii_table_def)
  then show ?thesis using b by (simp add: rune_lower_def runes_def)
qed

lemma to_lower_rune_lower: "ascii_table ucl \<Longrightarrow> to_lower ucl s = rune_lower ucl s"
proof (cases "list_all is_ascii s")
  case True
  assume t: "ascii_table ucl"
  have "list_all is_ascii s \<Longrightarrow> rune_lower ucl s = map ascii_lower s"
    by (induction s) (simp_all add: rune_lower_ascii_Cons [OF t] is_ascii_def)
  then show ?thesis using True by (simp add: to_lower_def)
qed (simp add: to_lower_def rune_lower_def)

lemma rune_lower_ascii_append:
  "ascii_table ucl \<Longrightarrow> list_all is_ascii s \<Longrightarrow> rune_lower ucl (s @ t) = map ascii_lower s @ rune_lower ucl t"
  by (induction s) (simp_all add: rune_lower_ascii_Cons is_ascii_def)

lemma scheme_char_ascii: "is_scheme_char b \<Longrightarrow> code b < 128"
  by (auto simp: byte_class)

lemma lower_alpha: "is_ascii_alpha c \<Longrightarrow> 97 \<le> code (ascii_lower c)"
  by (auto simp: byte_class code_ascii_lower)

lemma lower_not_relative: "is_ascii_alpha c \<Longrightarrow> \<not> starts_relative (ascii_lower c # s)"
proof -
  assume "is_ascii_alpha c"
  then have "ascii_lower c \<notin> {CHR ''/'', CHR ''.'', CHR ''#'', CHR ''?''}"
    by (auto simp: byte_eq_iff_code simp del: of_char_eq_iff dest!: lower_alpha)
  then show ?thesis by (auto simp: starts_relative_def)
qed

lemma lower_eq_nonletter:
  assumes "code x < 65 \<or> 90 < code x \<and> code x < 97"
  shows "ascii_lower c = x \<longleftrightarrow> c = x"
  using assms by (auto simp: byte_eq_iff_code code_ascii_lower simp del: of_char_eq_iff split: if_splits)

lemma alpha_of_lower: "is_ascii_alpha (ascii_lower b) \<Longrightarrow> is_ascii_alpha b"
  by (auto simp: byte_class code_ascii_lower split: if_splits)

lemma lower_scheme_char: "is_scheme_char b \<Longrightarrow> ascii_lower b \<noteq> CHR '':'' \<and> ascii_lower b \<notin> set ''/?#''"
  by (auto simp: byte_class byte_eq_iff_code code_ascii_lower split: if_splits)

subsection \<open>Static values\<close>

lemma url_boundary_ge:
  assumes "\<And>b i. b \<in> set ''/?#'' \<Longrightarrow> index_byte b s = Some i \<Longrightarrow> n \<le> i" and "n \<le> length s"
  shows "n \<le> url_boundary s"
proof -
  have "\<forall>b\<in>set bs. \<forall>i. index_byte b s = Some i \<longrightarrow> n \<le> i \<Longrightarrow> n \<le> m \<Longrightarrow>
    n \<le> foldl (\<lambda>boundary sep. case index_byte sep s of
        Some i \<Rightarrow> (if i < boundary then i else boundary) | None \<Rightarrow> boundary) m bs" for bs m
    by (induction bs arbitrary: m) (auto split: option.split)
  then show ?thesis unfolding url_boundary_def using assms by blast
qed

lemma before_append:
  assumes eq: "xs @ ys = zs @ x # ws" and x: "x \<notin> set ys"
  shows "\<exists>d. xs = zs @ x # d"
proof -
  obtain us where "xs = zs @ us \<and> us @ ys = x # ws \<or> xs @ us = zs \<and> ys = us @ x # ws"
    using eq by (auto simp: append_eq_append_conv2)
  with x show ?thesis by (cases us) auto
qed

lemma safe_static_scheme:
  assumes table: "ascii_table (env_lower env)" and safe: "safe_static_url env v"
    and scheme: "browser_scheme (html_unescape (env_entity env) v) = Some s"
  shows "s \<in> allowed_schemes"
proof -
  define u where "u = html_unescape (env_entity env) v"
  define decoded where "decoded = trim_space u"
  obtain sp c q pre rest where u: "u = sp @ c # q" and low: "\<forall>b\<in>set sp. code b \<le> 32"
    and c: "32 < code c" "code c < 128" "is_ascii_alpha c"
    and filt: "filter (\<lambda>b. code b \<notin> {9, 10, 13}) (c # q) = pre @ CHR '':'' # rest"
    and pre: "pre \<noteq> []" "hd pre = c" "\<forall>b\<in>set pre. is_scheme_char b" and s: "s = map ascii_lower pre"
    using browser_scheme_Some [OF scheme [folded u_def]] by metis
  obtain trail where trail:
    "concat (map snd (dropWhile (\<lambda>c. is_space_rune (fst c)) (utf8_chunks (sp @ c # q)))) = decoded @ trail"
    "\<forall>b\<in>set trail. code b < 128 \<longrightarrow> is_space_rune (code b)"
    using trim_func_split [of is_space_rune u] unfolding decoded_def trim_space_def u by blast
  have visible: "b \<notin> set trail" if "32 < code b" "code b < 128" for b
    using trail(2) that by (auto simp: is_space_ascii)
  have control: "\<not> list_ex (\<lambda>r. r < 32 \<or> r = 127) (runes decoded)" if "decoded \<noteq> []"
    using safe that unfolding safe_static_url_def Let_def u_def [symmetric] decoded_def [symmetric]
    by (simp split: if_splits)
  have no_control: "32 \<le> code b" if "b \<in> set decoded" for b
    using control ascii_rune_mem [of b decoded] that by (force simp: list_ex_iff)
  have cq: "decoded @ trail = c # q"
    using low c(1,2)
  proof (rule drop_spaces [of sp c q])
    fix b t
    assume bt: "concat (map snd (dropWhile (\<lambda>c. is_space_rune (fst c)) (utf8_chunks (sp @ c # q)))) = b # t"
      and b: "code b < 32" "c \<in> set t"
    have "decoded \<noteq> []" using bt b(2) trail(1) visible [OF c(1,2)] by auto
    then have "b \<in> set decoded" using bt trail(1) by (cases decoded) auto
    then show ?thesis using no_control [of b] b(1) by simp
  qed (use trail in simp)
  have dec: "decoded \<noteq> []" using cq visible [OF c(1,2)] by auto
  have "filter (\<lambda>b. code b \<notin> {9, 10, 13}) decoded = decoded"
    using no_control by (force intro!: filter_True)
  then have "decoded @ filter (\<lambda>b. code b \<notin> {9, 10, 13}) trail = pre @ CHR '':'' # rest"
    using filt unfolding cq [symmetric] filter_append by (simp only:)
  moreover have "CHR '':'' \<notin> set (filter (\<lambda>b. code b \<notin> {9, 10, 13}) trail)"
    using visible [of "CHR '':''"] by simp
  ultimately obtain d where d: "decoded = pre @ CHR '':'' # d"
    using before_append [of decoded] by blast
  have ascii: "list_all is_ascii pre"
    using pre(3) scheme_char_ascii by (auto simp: list_all_iff is_ascii_def)
  define name where "name = map ascii_lower pre"
  define low_d where "low_d = rune_lower (env_lower env) d"
  have lower: "to_lower (env_lower env) decoded = name @ CHR '':'' # low_d"
    unfolding to_lower_rune_lower [OF table] d name_def low_d_def
    using rune_lower_ascii_append [OF table ascii] rune_lower_ascii_Cons [OF table, of "CHR '':''"]
    by (simp add: ascii_lower_def)
  obtain n ns where n: "name = n # ns" "n = ascii_lower c"
    using pre(1,2) unfolding name_def by (cases pre) auto
  have rel: "\<not> starts_relative (name @ CHR '':'' # low_d)"
    unfolding n using lower_not_relative [OF c(3)] by simp
  have name_chars: "CHR '':'' \<notin> set name" "set name \<inter> set ''/?#'' = {}"
    using pre(3) lower_scheme_char unfolding name_def set_map by (fastforce simp del: set_simps)+
  have colon: "index_byte (CHR '':'') (name @ CHR '':'' # low_d) = Some (length name)"
    by (rule index_byte_append_notin [OF name_chars(1)])
  have bound: "\<not> url_boundary (name @ CHR '':'' # low_d) < length name"
  proof -
    have "i \<ge> length name" if "b \<in> set ''/?#''" "index_byte b (name @ CHR '':'' # low_d) = Some i" for i b
    proof (rule ccontr)
      assume "\<not> length name \<le> i"
      then have "b \<in> set name" using index_byte_Some [OF that(2)] by (auto simp: nth_append)
      then show False using name_chars(2) that(1) by blast
    qed
    then have "length name \<le> url_boundary (name @ CHR '':'' # low_d)"
      by (intro url_boundary_ge) simp_all
    then show ?thesis by simp
  qed
  have "name @ '':'' \<in> {''http:'', ''https:'', ''mailto:'', ''tel:''}"
    using safe dec rel colon bound control
    unfolding safe_static_url_def Let_def u_def [symmetric] decoded_def [symmetric] lower by simp
  then have "name \<in> {''http'', ''https'', ''mailto'', ''tel''}"
    by (auto simp: append_eq_Cons_conv)
  then show ?thesis unfolding s name_def [symmetric] allowed_schemes_def by simp
qed

subsection \<open>Static prefixes of dynamic values\<close>

lemma unescape_prefix:
  "CHR ''&'' \<notin> set w \<Longrightarrow> html_unescape ent (w @ t) = w @ html_unescape ent t"
  by (induction w) (auto simp: html_unescape.simps(2))

text \<open>The scheme is read off the scheme characters in front of the first other byte.\<close>

lemma browser_scheme_word:
  assumes low: "\<forall>b\<in>set sp. code b \<le> 32" and w: "\<forall>b\<in>set w. is_scheme_char b"
    and x: "\<not> is_scheme_char x" "32 < code x"
  shows "browser_scheme (sp @ w @ x # t) =
    (if w \<noteq> [] \<and> is_ascii_alpha (hd w) \<and> x = CHR '':'' then Some (map ascii_lower w) else None)"
proof -
  obtain c q where cq: "w @ x # t = c # q" "32 < code c"
    using w x by (cases w) (auto simp: byte_class)
  have "filter (\<lambda>b. code b \<notin> {9, 10, 13}) (w @ x # t)
      = w @ x # filter (\<lambda>b. code b \<notin> {9, 10, 13}) t"
    using w x by (auto intro!: filter_True simp: byte_class)
  moreover have "takeWhile is_scheme_char (w @ x # y) = w" for y
    using w x by simp
  ultimately show ?thesis
    using browser_scheme_visible [OF low cq(2), of q] unfolding cq(1) [symmetric] Let_def
    by (auto simp: has_prefix_iff)
qed

lemma lower_prefix:
  assumes table: "ascii_table ucl"
  shows "has_prefix p (rune_lower ucl q) \<Longrightarrow>
    \<exists>w r. q = w @ r \<and> list_all is_ascii w \<and> map ascii_lower w = take (length w) p
      \<and> (length w = length p \<or> length w < length p \<and> r \<noteq> [] \<and> \<not> is_ascii (hd r))"
proof (induction q arbitrary: p)
  case Nil
  then show ?case by (cases p) auto
next
  case (Cons c q)
  show ?case
  proof (cases "p = [] \<or> \<not> is_ascii c")
    case True
    then show ?thesis by (intro exI [of _ "[]"] exI [of _ "c # q"]) auto
  next
    case False
    then obtain x xs where p: "p = x # xs" by (cases p) auto
    have "rune_lower ucl (c # q) = ascii_lower c # rune_lower ucl q"
      using False rune_lower_ascii_Cons [OF table, of c q] by (simp add: is_ascii_def)
    then obtain w r where "q = w @ r" "list_all is_ascii w" "map ascii_lower w = take (length w) xs"
      "length w = length xs \<or> length w < length xs \<and> r \<noteq> [] \<and> \<not> is_ascii (hd r)" "x = ascii_lower c"
      using Cons.prems Cons.IH [of xs] p by auto
    then show ?thesis
      using False p by (intro exI [of _ "c # w"] exI [of _ r]) auto
  qed
qed

lemma safe_prefix_scheme:
  assumes table: "ascii_table (env_lower env)" and safe: "safe_url_prefix env p"
    and scheme: "browser_scheme (html_unescape (env_entity env) (p @ tail)) = Some s"
  shows "s \<in> allowed_schemes"
proof -
  let ?lower = "rune_lower (env_lower env)"
  define sp where "sp = takeWhile (\<lambda>b. code b \<le> 32) p"
  define t where "t = dropWhile (\<lambda>b. code b \<le> 32) p"
  define trimmed where "trimmed = trim_space (?lower p)"
  have p: "p = sp @ t" unfolding sp_def t_def by simp
  have low: "\<forall>b\<in>set sp. code b \<le> 32" unfolding sp_def by (auto dest: set_takeWhileD)
  have "map ascii_lower sp = sp"
    using low by (auto intro!: map_idI ascii_lower_id)
  then have lower_p: "?lower p = sp @ ?lower t"
    using low rune_lower_ascii_append [OF table, of sp t] unfolding p
    by (fastforce simp: list_all_iff is_ascii_def)
  have amp: "CHR ''&'' \<notin> set sp" using low by auto
  obtain x y where xy: "trimmed = x # y"
    and start: "starts_relative trimmed \<or> (\<exists>k\<in>{''http:'', ''https:'', ''mailto:'', ''tel:''}. has_prefix k trimmed)"
    using safe unfolding safe_url_prefix_def Let_def to_lower_rune_lower [OF table] trimmed_def
    by (cases "trim_space (?lower p)") (auto split: if_splits)
  have x: "33 \<le> code x"
    using start unfolding xy starts_relative_def by auto
  obtain trail where trail:
    "concat (map snd (dropWhile (\<lambda>c. is_space_rune (fst c)) (utf8_chunks (?lower p)))) = trimmed @ trail"
    using trim_func_split [of is_space_rune "?lower p"] unfolding trimmed_def trim_space_def by blast
  have "t \<noteq> []"
  proof
    assume "t = []"
    then have "x \<in> set sp"
      using set_trim_func [of is_space_rune "?lower p"] xy lower_p unfolding trimmed_def trim_space_def by auto
    then show False using low x by auto
  qed
  then obtain c q where t: "t = c # q" by (cases t) auto
  have c: "32 < code c"
    using dropWhile_hd [of "\<lambda>b. code b \<le> 32" p] t unfolding t_def by fastforce
  show ?thesis
  proof (cases "code c < 128")
    case False
    then have "\<not> is_scheme_char c" "c \<noteq> CHR ''&''" using scheme_char_ascii by auto
    then have "html_unescape (env_entity env) (p @ tail) = sp @ [] @ c # html_unescape (env_entity env) (q @ tail)"
      using unescape_prefix [of "sp @ [c]"] amp unfolding p t by simp
    then show ?thesis
      using scheme browser_scheme_word [OF low _ \<open>\<not> is_scheme_char c\<close> c, of "[]"] by simp
  next
    case ascii: True
    have lc: "32 < code (ascii_lower c)" "code (ascii_lower c) < 128"
      using c ascii by (simp_all add: code_ascii_lower)
    have lower_t: "?lower t = ascii_lower c # ?lower q"
      unfolding t by (rule rune_lower_ascii_Cons [OF table ascii])
    have eq: "trimmed @ trail = ?lower t"
      using low lc
    proof (rule drop_spaces [of sp "ascii_lower c" "?lower q"])
      fix b y'
      assume "concat (map snd (dropWhile (\<lambda>c. is_space_rune (fst c)) (utf8_chunks (sp @ ascii_lower c # ?lower q)))) = b # y'"
        and "code b < 32"
      then show ?thesis using trail x xy unfolding lower_p lower_t by simp
    qed (use trail lower_p lower_t in simp)
    then have hd: "x = ascii_lower c" unfolding xy lower_t by simp
    show ?thesis
    proof (cases "starts_relative trimmed")
      case True
      then have cx: "c \<in> {CHR ''/'', CHR ''.'', CHR ''#'', CHR ''?''}"
        unfolding xy hd starts_relative_def
        by (auto simp: lower_eq_nonletter eq_commute [of _ "ascii_lower c"])
      then have "html_unescape (env_entity env) (p @ tail) = sp @ c # html_unescape (env_entity env) (q @ tail)"
        using unescape_prefix [of "sp @ [c]"] amp unfolding p t by auto
      moreover have "browser_scheme (sp @ c # q') = None" for q'
      proof (cases "browser_scheme (sp @ c # q')")
        case (Some s')
        have "dropWhile (\<lambda>b. code b \<le> 32) (sp @ c # q') = c # q'"
          using low c by (simp add: dropWhile_append2)
        moreover from Some obtain sp' c' r where "sp @ c # q' = sp' @ c' # r"
          "\<forall>b\<in>set sp'. code b \<le> 32" "32 < code c'" "is_ascii_alpha c'"
          by (rule browser_scheme_Some)
        ultimately have "c # q' = c' # r" by (simp add: dropWhile_append2)
        then show ?thesis using cx \<open>is_ascii_alpha c'\<close> by (auto simp: byte_class)
      qed simp
      ultimately show ?thesis using scheme by simp
    next
      case False
      then obtain k where k: "k \<in> {''http:'', ''https:'', ''mailto:'', ''tel:''}" "has_prefix k (?lower t)"
        using start eq by (metis has_prefix_append_right)
      obtain w r where wr: "t = w @ r" "list_all is_ascii w" "map ascii_lower w = take (length w) k"
        and len: "length w = length k \<or> length w < length k \<and> r \<noteq> [] \<and> \<not> is_ascii (hd r)"
        using lower_prefix [OF table k(2)] by blast
      obtain kn where kn: "k = kn @ '':''" "kn \<in> allowed_schemes" "\<forall>b\<in>set kn. is_ascii_alpha b" "kn \<noteq> []"
        using k(1) that [of "butlast k"] by (auto simp: allowed_schemes_def byte_class)
      have alpha: "\<forall>b\<in>set v. is_ascii_alpha b" if "map ascii_lower v = take (length v) kn" for v
      proof
        fix b assume "b \<in> set v"
        then have "ascii_lower b \<in> set kn"
          using that by (metis in_set_takeD list.set_map rev_image_eqI)
        then show "is_ascii_alpha b" using kn(3) alpha_of_lower by blast
      qed
      have word: "browser_scheme (html_unescape (env_entity env) (p @ tail))
          = (if v \<noteq> [] \<and> is_ascii_alpha (hd v) \<and> z = CHR '':'' then Some (map ascii_lower v) else None)"
        if "t = v @ z # r'" "map ascii_lower v = take (length v) kn" "\<not> is_scheme_char z" "32 < code z"
          "z \<noteq> CHR ''&''" for v z r'
      proof -
        have v: "\<forall>b\<in>set v. is_scheme_char b" "CHR ''&'' \<notin> set v"
          using alpha [OF that(2)] by (auto simp: byte_class)
        have "html_unescape (env_entity env) (p @ tail) = sp @ v @ z # html_unescape (env_entity env) (r' @ tail)"
          using unescape_prefix [of "sp @ v @ [z]"] amp v(2) that(5) unfolding p that(1) by simp
        then show ?thesis using browser_scheme_word [OF low v(1) that(3,4)] by simp
      qed
      show ?thesis
      proof (cases "length w = length k")
        case True
        then have lw: "map ascii_lower w = kn @ '':''" using wr(3) kn(1) by simp
        then obtain v z where v: "w = v @ [z]" "map ascii_lower v = kn" "ascii_lower z = CHR '':''"
          by (cases w rule: rev_cases) auto
        then have z: "z = CHR '':''" by (simp add: lower_eq_nonletter)
        have "length v = length kn" using v(2) by auto
        then have "browser_scheme (html_unescape (env_entity env) (p @ tail)) = Some kn \<or>
            browser_scheme (html_unescape (env_entity env) (p @ tail)) = None"
          using word [of v z r] v z wr(1) by (simp add: byte_class)
        then show ?thesis using scheme kn(2) by auto
      next
        case False
        then obtain z r' where r: "r = z # r'" "\<not> is_ascii z" and short: "length w < length k"
          using len by (cases r) auto
        have z: "z \<noteq> CHR ''&''" "z \<noteq> CHR '':''" "\<not> is_scheme_char z" "32 < code z"
          using r(2) scheme_char_ascii by (auto simp: is_ascii_def)
        have "map ascii_lower w = take (length w) kn" using wr(3) short kn(1) by simp
        then have "browser_scheme (html_unescape (env_entity env) (p @ tail)) = None"
          using word [of w z r'] wr(1) r(1) z by simp
        then show ?thesis using scheme by simp
      qed
    qed
  qed
qed

subsection \<open>Accepted attributes\<close>

text \<open>
  C9: What the compiler accepts as the value of a URL attribute. A static value, decoded as HTML,
  has no scheme but http, https, mailto or tel. A value with dynamic parts is either one expression
  that is the whole value, or begins with a static prefix after which nothing can give the decoded
  value another scheme, whatever the dynamic parts are. (The hypothesis on the Unicode table is that
  it lower-cases ASCII as ASCII.)
\<close>
theorem accepted_url_attribute:
  assumes table: "ascii_table (env_lower env)"
    and url: "an_attr a \<in> set url_attributes"
    and accepted: "finish_attribute_value env a = Inr a'"
  shows "(an_dynamic a = [] \<longrightarrow>
        browser_scheme (html_unescape (env_entity env) (an_literal a)) \<in> insert None (Some ` allowed_schemes))
    \<and> (an_dynamic a \<noteq> [] \<longrightarrow> an_prefix a = [] \<longrightarrow> length (an_dynamic a) = 1 \<and> an_literal a = [])
    \<and> (an_dynamic a \<noteq> [] \<longrightarrow> an_prefix a \<noteq> [] \<longrightarrow>
        (\<forall>tail. browser_scheme (html_unescape (env_entity env) (an_prefix a @ tail))
           \<in> insert None (Some ` allowed_schemes)))"
proof -
  have url': "an_attr (a\<lparr>an_attributes := m\<rparr>) \<in> set url_attributes" for m using url by simp
  have static: "safe_static_url env (an_literal a)" if "an_dynamic a = []"
    using accepted that url
    by (auto simp: finish_attribute_value_def finish_attribute_url_def problem_def split: option.splits if_splits)
  have dynamic: "finish_attribute_url env a = Inr a'" if "an_dynamic a \<noteq> []"
    using accepted that by (simp add: finish_attribute_value_def)
  have whole: "length (an_dynamic a) = 1 \<and> an_literal a = []" if "an_dynamic a \<noteq> []" "an_prefix a = []"
    using dynamic [OF that(1)] that url
    by (auto simp: finish_attribute_url_def problem_def trim_prefix_def split: if_splits)
  have mixed: "safe_url_prefix env (an_prefix a)" if "an_dynamic a \<noteq> []" "an_prefix a \<noteq> []"
    using dynamic [OF that(1)] that url
    by (auto simp: finish_attribute_url_def problem_def Let_def split: if_splits)
  have range: "browser_scheme v \<in> insert None (Some ` allowed_schemes)"
    if "\<And>s. browser_scheme v = Some s \<Longrightarrow> s \<in> allowed_schemes" for v
    using that by (cases "browser_scheme v") auto
  show ?thesis
    using safe_static_scheme [OF table static] whole safe_prefix_scheme [OF table mixed]
    by (intro conjI impI allI range) blast+
qed

definition sample_attribute :: analyzer where
  "sample_attribute =
     initial_analyzer\<lparr>an_state := HtmlAttributeDoubleQuoted, an_tag := ''a'', an_attr := ''href'',
       an_attributes := Some Map.empty, an_literal := ''/a''\<rparr>"

lemma ascii_table_env: "ascii_table (env_lower ascii_env)"
  by (simp add: ascii_table_def ascii_env_def code_ascii_lower)

theorem accepted_url_attribute_witness:
  "finish_attribute_value ascii_env sample_attribute
     = Inr (sample_attribute\<lparr>an_attributes := Some [''href'' \<mapsto> ''/a'']\<rparr>)
   \<and> browser_scheme (html_unescape (env_entity ascii_env) (an_literal sample_attribute))
     \<in> insert None (Some ` allowed_schemes)"
proof
  show r: "finish_attribute_value ascii_env sample_attribute
     = Inr (sample_attribute\<lparr>an_attributes := Some [''href'' \<mapsto> ''/a'']\<rparr>)"
    by (simp add: sample_attribute_def go_eval)
  show "browser_scheme (html_unescape (env_entity ascii_env) (an_literal sample_attribute))
     \<in> insert None (Some ` allowed_schemes)"
    by (rule accepted_url_attribute [OF ascii_table_env _ r, THEN conjunct1, THEN mp])
      (simp_all add: sample_attribute_def initial_analyzer_def url_attributes_def)
qed

end
