(* ===== verification/Go_Literals.thy ===== *)
theory Go_Literals
  imports Go_Strings
begin

section \<open>Go string literals and line directives\<close>

text \<open>
  \<open>strconv.Quote\<close>, which the backend prints template text with, a decoder of Go's interpreted
  string literals as the language specification defines them, and \<open>sanitizeDirectivePath\<close> of
  internal/compiler/backend.go. Which runes are printable is data of the Go distribution: the
  parameter \<open>is_print\<close>.
\<close>

subsection \<open>strconv.Quote\<close>

definition hex_lower :: "nat \<Rightarrow> byte" where
  "hex_lower n = (if n < 10 then char_of (48 + n) else char_of (87 + n))"

fun hex_digits :: "nat \<Rightarrow> nat \<Rightarrow> bytes" where
  "hex_digits 0 n = []"
| "hex_digits (Suc w) n = hex_digits w (n div 16) @ [hex_lower (n mod 16)]"

definition escape_control :: "nat \<Rightarrow> bytes" where
  "escape_control r =
     (if r = 7 then [CHR 0x5C, CHR ''a'']
      else if r = 8 then [CHR 0x5C, CHR ''b'']
      else if r = 12 then [CHR 0x5C, CHR ''f'']
      else if r = 10 then [CHR 0x5C, CHR ''n'']
      else if r = 13 then [CHR 0x5C, CHR ''r'']
      else if r = 9 then [CHR 0x5C, CHR ''t'']
      else if r = 11 then [CHR 0x5C, CHR ''v'']
      else if r < 32 \<or> r = 127 then CHR 0x5C # CHR ''x'' # hex_digits 2 r
      else if r < 65536 then CHR 0x5C # CHR ''u'' # hex_digits 4 r
      else CHR 0x5C # CHR ''U'' # hex_digits 8 r)"

definition quote_chunk :: "(nat \<Rightarrow> bool) \<Rightarrow> nat \<times> bytes \<Rightarrow> bytes" where
  "quote_chunk is_print c =
     (if invalid_chunk c then CHR 0x5C # CHR ''x'' # hex_digits 2 (code (hd (snd c)))
      else if fst c = 34 \<or> fst c = 92 then CHR 0x5C # snd c
      else if is_print (fst c) then snd c
      else escape_control (fst c))"

definition go_quote :: "(nat \<Rightarrow> bool) \<Rightarrow> bytes \<Rightarrow> bytes" where
  "go_quote is_print s =
     [CHR 0x22] @ concat (map (quote_chunk is_print) (utf8_chunks s)) @ [CHR 0x22]"

subsection \<open>The value of an interpreted string literal\<close>

fun read_hex :: "nat \<Rightarrow> nat \<Rightarrow> bytes \<Rightarrow> (nat \<times> bytes) option" where
  "read_hex acc 0 s = Some (acc, s)"
| "read_hex acc (Suc w) [] = None"
| "read_hex acc (Suc w) (b # s) =
     (case hex_value b of None \<Rightarrow> None | Some d \<Rightarrow> read_hex (16 * acc + d) w s)"

definition simple_escape :: "byte \<Rightarrow> byte option" where
  "simple_escape b = map_of [(CHR ''a'', CHR 0x07), (CHR ''b'', CHR 0x08), (CHR ''f'', CHR 0x0C),
     (CHR ''n'', CHR 0x0A), (CHR ''r'', CHR 0x0D), (CHR ''t'', CHR 0x09), (CHR ''v'', CHR 0x0B),
     (CHR 0x5C, CHR 0x5C), (CHR 0x22, CHR 0x22)] b"

definition literal_step :: "bytes \<Rightarrow> (bytes \<times> bytes) option" where
  \<comment> \<open>the bytes the first byte or escape sequence of a literal's body stands for\<close>
  "literal_step s =
     (case s of
        [] \<Rightarrow> None
      | b # t \<Rightarrow>
         (if b = CHR 0x22 \<or> b = CHR 0x0A then None
          else if b \<noteq> CHR 0x5C then Some ([b], t)
          else (case t of
              [] \<Rightarrow> None
            | e # u \<Rightarrow>
               (case simple_escape e of
                  Some v \<Rightarrow> Some ([v], u)
                | None \<Rightarrow>
                   (if e = CHR ''x'' then map_option (\<lambda>(v, rest). ([char_of v], rest)) (read_hex 0 2 u)
                    else if e = CHR ''u'' then map_option (\<lambda>(v, rest). (encode_rune v, rest)) (read_hex 0 4 u)
                    else if e = CHR ''U'' then map_option (\<lambda>(v, rest). (encode_rune v, rest)) (read_hex 0 8 u)
                    else None)))))"

lemma read_hex_shorter: "read_hex acc w s = Some (v, rest) \<Longrightarrow> length rest \<le> length s"
  by (induction acc w s rule: read_hex.induct) (auto split: option.splits)

lemma literal_step_shorter: "literal_step s = Some (v, rest) \<Longrightarrow> length rest < length s"
  by (auto simp: literal_step_def split: list.splits if_splits option.splits dest!: read_hex_shorter)

function literal_value :: "bytes \<Rightarrow> bytes option" where
  "literal_value s =
     (if s = [] then Some []
      else (case literal_step s of
          None \<Rightarrow> None
        | Some (v, rest) \<Rightarrow> map_option ((@) v) (literal_value rest)))"
  by pat_completeness auto
termination
  by (relation "measure length") (auto dest: literal_step_shorter)

declare literal_value.simps [simp del]

definition go_unquote :: "bytes \<Rightarrow> bytes option" where
  "go_unquote s =
     (if 2 \<le> length s \<and> hd s = CHR 0x22 \<and> last s = CHR 0x22 then literal_value (butlast (tl s)) else None)"

subsection \<open>Quoting and reading back\<close>

lemma hex_value_lower: "d < 16 \<Longrightarrow> hex_value (hex_lower d) = Some d"
  by (simp add: hex_value_def hex_lower_def)

lemma length_hex_digits [simp]: "length (hex_digits w n) = w"
  by (induction w arbitrary: n) simp_all

lemma read_hex_snoc:
  "read_hex acc (length xs) (xs @ []) = Some (v, []) \<Longrightarrow> hex_value b = Some d \<Longrightarrow>
   read_hex acc (Suc (length xs)) (xs @ b # t) = Some (16 * v + d, t)"
  by (induction xs arbitrary: acc) (auto split: option.splits)

lemma read_hex_digits: "read_hex acc w (hex_digits w n @ t) = Some (acc * 16 ^ w + n mod 16 ^ w, t)"
proof (induction w arbitrary: acc n t)
  case 0
  then show ?case by simp
next
  case (Suc w)
  have "read_hex acc (length (hex_digits w (n div 16))) (hex_digits w (n div 16) @ [])
      = Some (acc * 16 ^ w + n div 16 mod 16 ^ w, [])"
    using Suc.IH [of acc "n div 16" "[]"] by simp
  then have "read_hex acc (Suc w) (hex_digits w (n div 16) @ hex_lower (n mod 16) # t)
      = Some (16 * (acc * 16 ^ w + n div 16 mod 16 ^ w) + n mod 16, t)"
    using read_hex_snoc [of acc "hex_digits w (n div 16)" _ "hex_lower (n mod 16)" "n mod 16" t]
    by (simp add: hex_value_lower)
  moreover have "16 * (n div 16 mod 16 ^ w) + n mod 16 = n mod (16 * 16 ^ w)"
    by (simp add: mod_mult2_eq)
  ultimately show ?case by (simp add: algebra_simps)
qed

lemma encode_good_chunk:
  assumes "good_chunk (r, c)"
  shows "encode_rune r = c"
proof -
  have d: "decode_rune c = (r, length c)" and ne: "c \<noteq> []"
    and ok: "\<not> (r = rune_error \<and> length c = 1)"
    using assms by (auto simp: good_chunk_def invalid_chunk_def)
  from d ne ok show ?thesis
  proof (cases rule: decode_rune_cases)
    case (one b0 t)
    then show ?thesis by (simp add: encode_rune_def)
  next
    case (two b0 b1 t)
    define x y where "x = code b0 - 192" and "y = code b1 - 128"
    have xy: "code b0 = 192 + x" "code b1 = 128 + y" "2 \<le> x" "x < 32" "y < 64"
      using two by (auto simp: x_def y_def second_lo_def second_hi_def split: if_splits)
    have r: "r = x * 64 + y" using two xy by simp
    have "char_of (192 + x) = b0" "char_of (128 + y) = b1"
      using xy by (metis char_of_char)+
    then show ?thesis
      using two xy r by (simp add: encode_rune_def)
  next
    case (three b0 b1 b2 t)
    define x y z where "x = code b0 - 224" and "y = code b1 - 128" and "z = code b2 - 128"
    have xy: "code b0 = 224 + x" "code b1 = 128 + y" "code b2 = 128 + z" "x < 16" "y < 64" "z < 64"
      "x = 0 \<longrightarrow> 32 \<le> y" "x = 13 \<longrightarrow> y < 32"
      using three by (auto simp: x_def y_def z_def second_lo_def second_hi_def is_cont_def split: if_splits)
    have r: "r = x * 4096 + y * 64 + z" using three xy by simp
    have chars: "char_of (224 + x) = b0" "char_of (128 + y) = b1" "char_of (128 + z) = b2"
      using xy by (metis char_of_char)+
    have "r div 4096 = x" using xy r by auto
    moreover have "r mod 64 = z"
    proof -
      have "r = (x * 64 + y) * 64 + z" using xy r by auto
      then have "r mod 64 = z mod 64" by (simp only: mod_mult_self3)
      then show ?thesis using xy by simp
    qed
    moreover have "r div 64 mod 64 = y"
    proof -
      have "r div 64 = x * 64 + y" using xy r by auto
      then show ?thesis using xy by simp
    qed
    moreover have "2048 \<le> r" using xy(7) r by (cases "x = 0") simp_all
    moreover have "r < 65536" using xy(4-6) r by simp
    moreover have "\<not> (55296 \<le> r \<and> r \<le> 57343)"
    proof -
      consider "x \<le> 12" | "x = 13" | "14 \<le> x" by linarith
      then show ?thesis
      proof cases
        case 2
        then have "y < 32" using xy(8) by simp
        then show ?thesis using 2 xy(6) r by simp
      qed (use xy(5,6) r in simp_all)
    qed
    ultimately have "encode_rune r = [b0, b1, b2]"
      using chars by (auto simp: encode_rune_def)
    moreover have "c = [b0, b1, b2]" using three(1,8) by simp
    ultimately show ?thesis by simp
  next
    case (four b0 b1 b2 b3 t)
    define x y z v where "x = code b0 - 240" and "y = code b1 - 128" and "z = code b2 - 128"
      and "v = code b3 - 128"
    have xy: "code b0 = 240 + x" "code b1 = 128 + y" "code b2 = 128 + z" "code b3 = 128 + v"
      "x < 5" "y < 64" "z < 64" "v < 64" "x = 0 \<longrightarrow> 16 \<le> y" "x = 4 \<longrightarrow> y < 16"
    proof -
      have lo: "128 \<le> second_lo (code b0)" "second_hi (code b0) \<le> 191"
        by (simp_all add: second_lo_def second_hi_def)
      have b: "240 \<le> code b0" "code b0 \<le> 244" "128 \<le> code b1" "code b1 \<le> 191"
        "128 \<le> code b2" "code b2 \<le> 191" "128 \<le> code b3" "code b3 \<le> 191"
        using four lo by (simp_all add: is_cont_def)
      then show "code b0 = 240 + x" "code b1 = 128 + y" "code b2 = 128 + z" "code b3 = 128 + v"
        "x < 5" "y < 64" "z < 64" "v < 64"
        unfolding x_def y_def z_def v_def by simp_all
      show "x = 0 \<longrightarrow> 16 \<le> y"
      proof
        assume "x = 0"
        then have "code b0 = 240" using b(1) by (simp add: x_def)
        then show "16 \<le> y" using four(4) by (simp add: second_lo_def y_def)
      qed
      show "x = 4 \<longrightarrow> y < 16"
      proof
        assume "x = 4"
        then have "code b0 = 244" using b(1) by (simp add: x_def)
        then show "y < 16" using four(5) b(3) by (simp add: second_hi_def y_def)
      qed
    qed
    have r: "r = x * 262144 + y * 4096 + z * 64 + v" using four xy by simp
    have chars: "char_of (240 + x) = b0" "char_of (128 + y) = b1" "char_of (128 + z) = b2" "char_of (128 + v) = b3"
      using xy by (metis char_of_char)+
    define p where "p = (x * 64 + y) * 64 + z"
    have rp: "r = p * 64 + v" using r by (simp add: p_def)
    have "r mod 64 = v mod 64" unfolding rp by (simp only: mod_mult_self3)
    then have "r mod 64 = v" using xy by simp
    moreover have r64: "r div 64 = p" using xy unfolding rp by simp
    then have "r div 64 mod 64 = z mod 64" unfolding p_def by (simp only: mod_mult_self3)
    then have "r div 64 mod 64 = z" using xy by simp
    moreover have p64: "p div 64 = x * 64 + y" using xy unfolding p_def by simp
    then have r4096: "r div 4096 = x * 64 + y"
      using r64 div_mult2_eq [of r 64 64] by simp
    then have "r div 4096 mod 64 = y mod 64" by (simp only: mod_mult_self3)
    then have "r div 4096 mod 64 = y" using xy by simp
    moreover have "r div 262144 = x"
      using r4096 div_mult2_eq [of r 4096 64] xy by simp
    moreover have "65536 \<le> r" using xy(9) r by (cases "x = 0") simp_all
    moreover have "r \<le> 1114111"
    proof (cases "x = 4")
      case True
      then have "y < 16" using xy(10) by simp
      then show ?thesis using True xy(7,8) r by simp
    next
      case False
      then have "x \<le> 3" using xy(5) by simp
      then show ?thesis using xy(6-8) r by simp
    qed
    ultimately have "encode_rune r = [b0, b1, b2, b3]"
      using chars by (auto simp: encode_rune_def)
    moreover have "c = [b0, b1, b2, b3]" using four(1,9) by simp
    ultimately show ?thesis by simp
  qed
qed

text \<open>The first byte of an escape or plain byte decides how it is read.\<close>

lemma literal_value_Nil [simp]: "literal_value [] = Some []"
  by (simp add: literal_value.simps)

lemma literal_value_step:
  "literal_step s = Some (v, rest) \<Longrightarrow> literal_value s = map_option ((@) v) (literal_value rest)"
  by (cases "s = []") (simp_all add: literal_value.simps [of s] literal_step_def)

lemma literal_step_plain:
  "b \<notin> {CHR 0x22, CHR 0x0A, CHR 0x5C} \<Longrightarrow> literal_step (b # s) = Some ([b], s)"
  by (simp add: literal_step_def)

lemma literal_value_plain:
  "set c \<inter> {CHR 0x22, CHR 0x0A, CHR 0x5C} = {} \<Longrightarrow>
   literal_value (c @ s) = map_option ((@) c) (literal_value s)"
proof (induction c)
  case Nil
  then show ?case by (simp add: option.map_ident)
next
  case (Cons b c)
  then have "b \<notin> {CHR 0x22, CHR 0x0A, CHR 0x5C}" by auto
  note literal_value_step [OF literal_step_plain [OF this, of "c @ s"]]
  then show ?case using Cons by (cases "literal_value s") simp_all
qed

lemma literal_step_hex:
  "literal_step (CHR 0x5C # CHR ''x'' # hex_digits 2 n @ s) = Some ([char_of (n mod 256)], s)"
  using read_hex_digits [of 0 2 n s] by (simp add: literal_step_def simple_escape_def)

lemma literal_step_u:
  "n < 65536 \<Longrightarrow> literal_step (CHR 0x5C # CHR ''u'' # hex_digits 4 n @ s) = Some (encode_rune n, s)"
  using read_hex_digits [of 0 4 n s] by (simp add: literal_step_def simple_escape_def)

lemma literal_step_U:
  "n < 4294967296 \<Longrightarrow> literal_step (CHR 0x5C # CHR ''U'' # hex_digits 8 n @ s) = Some (encode_rune n, s)"
  using read_hex_digits [of 0 8 n s] by (simp add: literal_step_def simple_escape_def)

lemma decode_rune_bound: "fst (decode_rune s) < 4294967296"
proof (cases "s = []")
  case False
  obtain r n where d: "decode_rune s = (r, n)" by fastforce
  show ?thesis
  proof (cases "r = rune_error \<and> n = 1")
    case ok: False
    have "r < 4294967296"
      using d False ok
    proof (cases rule: decode_rune_cases)
      case (one b0 t)
      then show ?thesis by simp
    next
      case (two b0 b1 t)
      have "code b0 < 256" "code b1 < 256" by simp_all
      then show ?thesis using two by linarith
    next
      case (three b0 b1 b2 t)
      have "code b0 < 256" "code b1 < 256" "code b2 < 256" by simp_all
      then show ?thesis using three by linarith
    next
      case (four b0 b1 b2 b3 t)
      have "code b0 < 256" "code b1 < 256" "code b2 < 256" "code b3 < 256" by simp_all
      then show ?thesis using four by linarith
    qed
    with d show ?thesis by simp
  qed (simp add: d rune_error_def)
qed (simp add: rune_error_def)

lemma literal_step_escape_control:
  assumes "good_chunk (r, c)"
  shows "literal_step (escape_control r @ s) = Some (c, s)"
proof -
  have enc: "encode_rune r = c" by (rule encode_good_chunk [OF assms])
  have bound: "r < 4294967296"
    using assms decode_rune_bound [of c] by (simp add: good_chunk_def)
  consider "r \<in> {7, 8, 12, 10, 13, 9, 11}" | "r \<notin> {7, 8, 12, 10, 13, 9, 11}" "r < 32 \<or> r = 127"
    | "r \<notin> {7, 8, 12, 10, 13, 9, 11}" "\<not> (r < 32 \<or> r = 127)" "r < 65536"
    | "\<not> r < 65536"
    by blast
  then show ?thesis
  proof cases
    case 1
    from assms 1 obtain b where b: "c = [b]" "r = code b"
      by (cases rule: good_chunk_cases) auto
    have "b \<in> {CHR 0x07, CHR 0x08, CHR 0x0C, CHR 0x0A, CHR 0x0D, CHR 0x09, CHR 0x0B}"
      using 1 b(2) by (auto simp: byte_eq_iff_code simp del: of_char_eq_iff)
    then show ?thesis
      unfolding b by (elim insertE emptyE) (simp_all add: escape_control_def literal_step_def simple_escape_def)
  next
    case 2
    then have "escape_control r = CHR 0x5C # CHR ''x'' # hex_digits 2 r" "r mod 256 = r" "[char_of r] = c"
      using enc by (auto simp: escape_control_def encode_rune_def)
    then show ?thesis using literal_step_hex [of r s] by simp
  next
    case 3
    then have "escape_control r = CHR 0x5C # CHR ''u'' # hex_digits 4 r"
      by (auto simp: escape_control_def)
    then show ?thesis using literal_step_u [OF 3(3), of s] enc by simp
  next
    case 4
    then have "escape_control r = CHR 0x5C # CHR ''U'' # hex_digits 8 r"
      by (auto simp: escape_control_def)
    then show ?thesis using literal_step_U [OF bound, of s] enc by simp
  qed
qed

definition printable_ok :: "(nat \<Rightarrow> bool) \<Rightarrow> bool" where
  \<comment> \<open>\<open>unicode.IsPrint\<close> rejects the line feed\<close>
  "printable_ok is_print = (\<not> is_print 10)"

lemma literal_value_chunk:
  assumes print: "printable_ok is_print" and c: "invalid_chunk c \<or> good_chunk c"
  shows "literal_value (quote_chunk is_print c @ s) = map_option ((@) (snd c)) (literal_value s)"
proof -
  obtain r bs where rb: "c = (r, bs)" by fastforce
  consider "invalid_chunk c" | "\<not> invalid_chunk c" "r = 34 \<or> r = 92"
    | "\<not> invalid_chunk c" "r \<noteq> 34" "r \<noteq> 92" "is_print r"
    | "\<not> invalid_chunk c" "r \<noteq> 34" "r \<noteq> 92" "\<not> is_print r"
    by blast
  then show ?thesis
  proof cases
    case 1
    then obtain b where bs: "bs = [b]" by (auto simp: rb invalid_chunk_def length_Suc_conv)
    have "literal_step (quote_chunk is_print c @ s) = Some ([char_of (code b mod 256)], s)"
      using 1 literal_step_hex [of "code b" s] by (simp add: quote_chunk_def rb bs)
    then show ?thesis by (simp add: literal_value_step rb bs)
  next
    case 2
    then have good: "good_chunk (r, bs)" using c rb by simp
    from good 2(2) obtain b where bs: "bs = [b]" "r = code b"
      by (cases rule: good_chunk_cases) auto
    then have b: "b = CHR 0x22 \<or> b = CHR 0x5C"
      using 2(2) by (simp add: byte_eq_iff_code del: of_char_eq_iff)
    have "quote_chunk is_print c = [CHR 0x5C, b]"
      using 2 bs by (simp add: quote_chunk_def rb)
    moreover have "literal_step (CHR 0x5C # b # s) = Some ([b], s)"
      using b by (elim disjE) (simp_all add: literal_step_def simple_escape_def)
    ultimately have "literal_step (quote_chunk is_print c @ s) = Some ([b], s)" by simp
    then show ?thesis by (simp add: literal_value_step rb bs)
  next
    case 3
    then have good: "good_chunk (r, bs)" using c rb by simp
    have lf: "r \<noteq> 10" using print 3 by (auto simp: printable_ok_def)
    have "set bs \<inter> {CHR 0x22, CHR 0x0A, CHR 0x5C} = {}"
      using good
    proof (cases rule: good_chunk_cases)
      case (ascii b)
      then show ?thesis using 3(2,3) lf by auto
    next
      case multi
      then show ?thesis by auto
    qed
    then show ?thesis
      using 3 literal_value_plain [of bs s] by (simp add: quote_chunk_def rb)
  next
    case 4
    then have good: "good_chunk (r, bs)" using c rb by simp
    then show ?thesis
      using 4 literal_value_step [OF literal_step_escape_control [OF good, of s]]
      by (simp add: quote_chunk_def rb)
  qed
qed

lemma unquote_quote:
  assumes "printable_ok is_print"
  shows "go_unquote (go_quote is_print s) = Some s"
proof -
  have "\<forall>c\<in>set cs. invalid_chunk c \<or> good_chunk c \<Longrightarrow>
      literal_value (concat (map (quote_chunk is_print) cs)) = Some (concat (map snd cs))" for cs
    by (induction cs) (simp_all add: literal_value_chunk [OF assms])
  then have "literal_value (concat (map (quote_chunk is_print) (utf8_chunks s))) = Some s"
    using utf8_chunks_cases by fastforce
  then show ?thesis by (simp add: go_unquote_def go_quote_def butlast_append)
qed

subsection \<open>Line directives\<close>

definition sanitize_byte :: "byte \<Rightarrow> bytes" where
  "sanitize_byte b =
     (if code b < 32 \<or> code b = 127 \<or> b = CHR 0x25
      then [CHR 0x25, hex_upper (code b div 16), hex_upper (code b mod 16)] else [b])"

definition sanitize_directive_path :: "bytes \<Rightarrow> bytes" where
  \<comment> \<open>\<open>filepath.ToSlash\<close> is the identity where the separator is the slash\<close>
  "sanitize_directive_path path =
     (let sanitized = concat (map sanitize_byte path) in if sanitized = [] then ''source.sando'' else sanitized)"

definition control_byte :: "byte \<Rightarrow> bool" where
  "control_byte b = (code b < 32 \<or> code b = 127)"

definition unsanitize_byte :: "bytes \<Rightarrow> (byte \<times> bytes) option" where
  "unsanitize_byte s =
     (case s of
        [] \<Rightarrow> None
      | b # t \<Rightarrow>
         (if b \<noteq> CHR 0x25 then Some (b, t)
          else (case t of
              h # l # u \<Rightarrow>
                (case (hex_value h, hex_value l) of
                   (Some x, Some y) \<Rightarrow> Some (char_of (16 * x + y), u)
                 | _ \<Rightarrow> None)
            | _ \<Rightarrow> None)))"

lemma code_hex_upper: "n < 16 \<Longrightarrow> code (hex_upper n) = (if n < 10 then 48 + n else 55 + n)"
  by (simp add: hex_upper_def)

lemma hex_value_upper: "n < 16 \<Longrightarrow> hex_value (hex_upper n) = Some n"
  by (simp add: hex_value_def code_hex_upper)

lemma code_div_16: "code b div 16 < 16"
  using code_less_256 [of b] by (simp add: less_mult_imp_div_less)

interpretation directive: decodable_escape sanitize_byte control_byte unsanitize_byte
proof unfold_locales
  fix b c t
  show "c \<in> set (sanitize_byte b) \<Longrightarrow> \<not> control_byte c"
    using code_hex_upper [OF code_div_16 [of b]] code_hex_upper [of "code b mod 16"]
    by (auto simp: sanitize_byte_def control_byte_def split: if_splits)
  show "unsanitize_byte (sanitize_byte b @ t) = Some (b, t)"
    using hex_value_upper [OF code_div_16 [of b]] hex_value_upper [of "code b mod 16"]
    by (auto simp: sanitize_byte_def unsanitize_byte_def)
  show "sanitize_byte b \<noteq> []"
    by (simp add: sanitize_byte_def)
qed

text \<open>
  A line directive stays one line and names its file: the sanitized path holds no control
  byte, so it cannot end the comment, and different paths (other than the empty one) give different
  names.
\<close>
theorem directive_path_safe:
  "list_all (\<lambda>b. \<not> control_byte b) (sanitize_directive_path p)
   \<and> (p \<noteq> [] \<and> q \<noteq> [] \<longrightarrow> sanitize_directive_path p = sanitize_directive_path q \<longrightarrow> p = q)"
proof -
  have ne: "p \<noteq> [] \<Longrightarrow> concat (map sanitize_byte p) \<noteq> []" for p
    by (cases p) (simp_all add: sanitize_byte_def)
  have fallback: "list_all (\<lambda>b. \<not> control_byte b) ''source.sando''"
    by (simp add: control_byte_def)
  show ?thesis
    using directive.escape_safe_list_all [of p] directive.escape_inj [of p q] ne [of p] ne [of q] fallback
    by (simp add: sanitize_directive_path_def Let_def del: concat_eq_Nil_conv)
qed

theorem directive_path_safe_witness:
  "list_all (\<lambda>b. \<not> control_byte b) (sanitize_directive_path [CHR 0x0A])
   \<and> sanitize_directive_path [CHR 0x0A] \<noteq> sanitize_directive_path [CHR 0x0D]"
  using directive_path_safe [of "[CHR 0x0A]" "[CHR 0x0D]"] by auto

declare hex_lower_def [go_eval] escape_control_def [go_eval] quote_chunk_def [go_eval]
  go_quote_def [go_eval] simple_escape_def [go_eval] sanitize_byte_def [go_eval]
  sanitize_directive_path_def [go_eval] control_byte_def [go_eval]

end
