(* ===== verification/Go_Backend.thy ===== *)
theory Go_Backend
  imports Header_Parser Html_Analysis Html_Urls Go_Literals
begin

section \<open>Code generation: internal/compiler/backend.go\<close>

text \<open>
  From an annotated file to Go source: the imports the generated code needs and their names, the
  code of every node, the trusted-value audit, the comparison of generated files, and the compilation
  of one source. What the code takes from the Go toolchain at this stage is data of
  \<open>backend_env\<close>: the identifiers Go's scanner finds in a text, the digest, the formatter, the
  printable runes and the release's version string.
\<close>

datatype format_error = FormatError bytes "(nat \<times> nat \<times> bytes) list"

record backend_env =
  be_go :: go_env
  be_tools :: go_tools
  be_is_print :: "nat \<Rightarrow> bool"
  be_identifiers :: "bytes \<Rightarrow> bytes list"
  be_sha256_hex :: "bytes \<Rightarrow> bytes"
  be_format :: "bytes \<Rightarrow> format_error + bytes"
  be_version :: bytes

subsection \<open>Names\<close>

text \<open>
  \<open>uniqueIdentifier\<close>: the loop over the suffixes, with one turn of fuel for every used name and
  one more; that this is enough is proved below.
\<close>

fun unique_loop :: "nat \<Rightarrow> bytes \<Rightarrow> nat \<Rightarrow> bytes \<Rightarrow> bytes list \<Rightarrow> bytes option" where
  "unique_loop 0 base k name used = None"
| "unique_loop (Suc fuel) base k name used =
     (if name \<in> set used then unique_loop fuel base (k + 1) (base @ ''_'' @ show_nat k) used
      else Some name)"

definition unique_name :: "bytes \<Rightarrow> bytes list \<Rightarrow> bytes" where
  "unique_name base used =
     (case unique_loop (length used + 1) base 2 base used of Some name \<Rightarrow> name | None \<Rightarrow> base)"

definition unique_identifier :: "bytes \<Rightarrow> bytes list \<Rightarrow> bytes \<times> bytes list" where
  \<comment> \<open>the name, and the used names afterwards\<close>
  "unique_identifier base used = (let name = unique_name base used in (name, name # used))"

definition default_import_name :: "bytes \<Rightarrow> bytes" where
  "default_import_name path =
     (let base = path_base path;
          base = (case index_byte (CHR ''.'') base of Some i \<Rightarrow> take i base | None \<Rightarrow> base)
      in replace_byte (CHR ''-'') ''_'' base)"

subsection \<open>prepareImports\<close>

record backend_imports =
  bi_context :: bytes
  bi_io :: bytes
  bi_sando :: bytes
  bi_all :: "source_import list"

fun import_identifiers :: "source_import list \<Rightarrow> bytes list \<Rightarrow> bytes list" where
  "import_identifiers [] used = used"
| "import_identifiers (i # rest) used =
     import_identifiers rest
       (if import_alias i \<noteq> [] \<and> import_alias i \<noteq> ''_'' then import_alias i # used
        else if import_alias i = [] then default_import_name (import_path i) # used
        else used)"

text \<open>The state of the closure \<open>ensure\<close>: the imports, the used names and the diagnostics.\<close>

type_synonym ensure_state = "source_import list \<times> bytes list \<times> diagnostic list"

definition find_import :: "bytes \<Rightarrow> source_import list \<Rightarrow> source_import option" where
  "find_import path imps = find (\<lambda>i. import_path i = path) imps"

definition ensure_import ::
  "(bytes \<Rightarrow> bytes) \<Rightarrow> bytes \<Rightarrow> bytes \<Rightarrow> bytes \<Rightarrow> ensure_state \<Rightarrow> bytes \<times> ensure_state" where
  "ensure_import quote file path base st =
     (case st of (imps, used, diags) \<Rightarrow>
        (case find_import path imps of
           Some i \<Rightarrow>
             (if import_alias i = ''_''
              then ([], imps, used, diags @ [new_diagnostic file position_one ''HIM1410''
                       (''internal dependency '' @ quote path @ '' cannot be imported for side effects'')])
              else if import_alias i \<noteq> [] then (import_alias i, imps, used, diags)
              else (default_import_name path, imps, used, diags))
         | None \<Rightarrow>
             (case unique_identifier base used of (alias, used) \<Rightarrow>
                (alias, imps @ [\<lparr>import_alias = alias, import_path = path\<rparr>], used, diags))))"

definition prepare_imports :: "backend_env \<Rightarrow> source_file \<Rightarrow> backend_imports \<times> diagnostic list" where
  "prepare_imports env file =
     (let quote = go_quote (be_is_print env);
          used = import_identifiers (file_imports file) (be_identifiers env (file_source file));
          (context, st) = ensure_import quote (file_path file) ''context'' ''__himesan_context''
                            (file_imports file, used, []);
          (io, st) = ensure_import quote (file_path file) ''io'' ''__himesan_io'' st;
          (sando, st) = ensure_import quote (file_path file) runtime_import_path ''__himesan_sando'' st
      in (\<lparr>bi_context = context, bi_io = io, bi_sando = sando, bi_all = sort_imports (fst st)\<rparr>,
          snd (snd st)))"

subsection \<open>generateGo\<close>

record generated_names =
  gn_context :: bytes
  gn_writer :: bytes
  gn_error :: bytes

definition generated_names :: "bytes list \<Rightarrow> generated_names" where
  "generated_names used =
     (let (context, used) = unique_identifier ''__himesan_render_context'' used;
          (writer, used) = unique_identifier ''__himesan_writer'' used;
          (err, used) = unique_identifier ''__himesan_error'' used
      in \<lparr>gn_context = context, gn_writer = writer, gn_error = err\<rparr>)"

definition helper_name :: "output_context \<Rightarrow> bytes" where
  "helper_name ctx =
     (case ctx of
        ContextAttr \<Rightarrow> ''WriteAttr''
      | ContextRCDATA \<Rightarrow> ''WriteRCDATA''
      | ContextURL \<Rightarrow> ''WriteURL''
      | ContextJS \<Rightarrow> ''WriteJS''
      | ContextCSS \<Rightarrow> ''WriteCSS''
      | _ \<Rightarrow> ''WriteText'')"

definition checked_call :: "generated_names \<Rightarrow> bytes \<Rightarrow> bytes" where
  \<comment> \<open>the frame every call of the runtime is printed in\<close>
  "checked_call names call =
     ''if '' @ gn_error names @ '' := '' @ call @ ''; '' @ gn_error names @ '' != nil { return ''
     @ gn_error names @ '' }'' @ [LF]"

definition node_code ::
  "(bytes \<Rightarrow> bytes) \<Rightarrow> backend_imports \<Rightarrow> generated_names \<Rightarrow> renderer_node \<Rightarrow> bytes" where
  "node_code quote imps names node =
     (case node_kind node of
        NodeText \<Rightarrow>
          (if node_text node = [] then []
           else checked_call names (bi_sando imps @ ''.WriteString('' @ gn_writer names @ '', '' @ quote (node_text node) @ '')''))
      | NodeStatement \<Rightarrow> node_text node @ [LF]
      | NodeExpression \<Rightarrow>
          checked_call names (bi_sando imps @ ''.'' @ helper_name (node_context node) @ ''('' @ gn_writer names
            @ '', ('' @ node_text node @ ''))'')
      | NodeComponent \<Rightarrow>
          checked_call names (bi_sando imps @ ''.Render('' @ gn_context names @ '', '' @ gn_writer names
            @ '', ('' @ node_text node @ ''))'')
      | NodeComment \<Rightarrow> [])"

definition line_directive :: "bytes \<Rightarrow> source_position \<Rightarrow> bytes" where
  "line_directive name pos =
     ''//line '' @ name @ '':'' @ show_nat (pos_line pos) @ '':'' @ show_nat (pos_column pos) @ [LF]"

definition body_code ::
  "(bytes \<Rightarrow> bytes) \<Rightarrow> backend_imports \<Rightarrow> generated_names \<Rightarrow> bytes \<Rightarrow> renderer_node list \<Rightarrow> bytes" where
  "body_code quote imps names directive nodes =
     concat (map (\<lambda>node. if node_kind node = NodeComment then []
                         else line_directive directive (node_pos node) @ node_code quote imps names node) nodes)"

definition import_code :: "(bytes \<Rightarrow> bytes) \<Rightarrow> source_import \<Rightarrow> bytes" where
  "import_code quote i =
     CHR 0x09 # (if import_alias i \<noteq> [] then import_alias i @ '' '' else []) @ quote (import_path i) @ [LF]"

definition preamble :: "backend_env \<Rightarrow> source_file \<Rightarrow> bytes" where
  "preamble env file =
     generated_prefix @ [LF]
     @ ''// himesan:compiler '' @ be_version env @ [LF]
     @ ''// himesan:runtime-abi '' @ runtime_abi @ [LF]
     @ ''// himesan:source-sha256 '' @ be_sha256_hex env (file_source file) @ [LF, LF]
     @ ''package '' @ file_package file @ [LF, LF]"

definition function_code :: "source_file \<Rightarrow> backend_imports \<Rightarrow> generated_names \<Rightarrow> bytes" where
  "function_code file imps names =
     ''var _ = '' @ bi_sando imps @ ''.ABISandoV1'' @ [LF, LF]
     @ ''func '' @ file_name file @ file_type_params file @ file_params file @ '' '' @ bi_sando imps @ ''.Component {'' @ [LF]
     @ [CHR 0x09] @ ''return '' @ bi_sando imps @ ''.ComponentFunc(func('' @ gn_context names @ '' '' @ bi_context imps
     @ ''.Context, '' @ gn_writer names @ '' '' @ bi_io imps @ ''.Writer) error {'' @ [LF]
     @ [CHR 0x09, CHR 0x09] @ ''_ = '' @ gn_context names @ [LF]"

definition raw_code :: "backend_env \<Rightarrow> source_file \<Rightarrow> backend_imports \<Rightarrow> bytes" where
  "raw_code env file imps =
     (let quote = go_quote (be_is_print env);
          names = generated_names (be_identifiers env (file_source file))
      in preamble env file
         @ ''import ('' @ [LF] @ concat (map (import_code quote) (bi_all imps)) @ '')'' @ [LF, LF]
         @ function_code file imps names
         @ body_code quote imps names (sanitize_directive_path (file_mapping file)) (file_nodes file)
         @ ''return nil'' @ [LF] @ ''})'' @ [LF] @ ''}'' @ [LF])"

definition format_problem :: "bytes \<Rightarrow> format_error \<Rightarrow> diagnostic" where
  "format_problem path e =
     (case e of
        FormatError message [] \<Rightarrow>
          new_diagnostic path position_one ''HIM1401'' (''generated Go is invalid: '' @ message)
      | FormatError message ((line, column, first) # _) \<Rightarrow>
          new_diagnostic path \<lparr>pos_offset = 0, pos_line = line, pos_column = column\<rparr> ''HIM1401''
            (''generated Go is invalid: '' @ first))"

definition generate_go :: "backend_env \<Rightarrow> source_file \<Rightarrow> bytes option \<times> diagnostic list" where
  "generate_go env file =
     (let (imps, diags) = prepare_imports env file in
      if has_errors diags then (None, diags)
      else (case be_format env (raw_code env file imps) of
          Inl e \<Rightarrow> (None, [format_problem (file_path file) e])
        | Inr formatted \<Rightarrow> (Some formatted, diags)))"

subsection \<open>auditTrustCalls\<close>

definition warning :: "bytes \<Rightarrow> nat \<Rightarrow> nat \<Rightarrow> bytes \<Rightarrow> bytes \<Rightarrow> diagnostic" where
  "warning path line column dcode message =
     \<lparr>diag_path = path, diag_line = line, diag_column = column, diag_code = dcode,
      diag_severity = severity_warning, diag_message = message\<rparr>"

definition trusted_types :: "bytes list" where
  "trusted_types = [''TrustedHTML'', ''TrustedURL'', ''TrustedJS'', ''TrustedCSS'']"

definition trust_constructors :: "bytes list" where
  "trust_constructors = [''TrustHTML'', ''TrustURL'', ''TrustJS'', ''TrustCSS'']"

fun audit_header :: "bytes \<Rightarrow> bytes list \<Rightarrow> bytes list \<Rightarrow> diagnostic list" where
  \<comment> \<open>the identifiers of the header, with the trusted types already seen\<close>
  "audit_header path seen [] = []"
| "audit_header path seen (ident # rest) =
     (if ident \<in> set trusted_types \<and> ident \<notin> set seen
      then warning path 1 1 ''HIM1903'' (''component signature names '' @ ident @ ''; audit every value supplied through this trust boundary'')
           # audit_header path (ident # seen) rest
      else audit_header path seen rest)"

definition audit_node :: "backend_env \<Rightarrow> bytes \<Rightarrow> renderer_node \<Rightarrow> diagnostic list" where
  "audit_node env path node =
     (if node_kind node \<notin> {NodeExpression, NodeComponent, NodeStatement} then []
      else
        (let line = pos_line (node_pos node); column = pos_column (node_pos node) in
         (if node_kind node = NodeExpression \<and> node_context node \<in> {ContextJS, ContextCSS}
          then [warning path line column ''HIM1902'' (''dynamic '' @ context_string (node_context node)
                  @ '' output requires an explicitly trusted runtime value; audit its provenance'')] else [])
         @ map (\<lambda>ident. warning path line column ''HIM1901''
                   (''conspicuous trusted-value constructor '' @ ident @ '' is used; audit its provenance''))
             (filter (\<lambda>ident. ident \<in> set trust_constructors) (be_identifiers env (node_text node)))))"

definition audit_trust_calls :: "backend_env \<Rightarrow> source_file \<Rightarrow> diagnostic list" where
  "audit_trust_calls env file =
     audit_header (file_path file) [] (be_identifiers env (take (file_header_end file) (file_source file)))
     @ concat (map (audit_node env (file_path file)) (file_nodes file))"

subsection \<open>Comparing generated files\<close>

definition version_prefix :: bytes where
  "version_prefix = generated_prefix @ [LF] @ ''// himesan:compiler ''"

definition without_compiler_version :: "bytes \<Rightarrow> bytes option" where
  "without_compiler_version c =
     (if \<not> has_prefix version_prefix c then None
      else (case index_byte LF (drop (length version_prefix) c) of
          None \<Rightarrow> None
        | Some 0 \<Rightarrow> None
        | Some i \<Rightarrow> Some (drop i (drop (length version_prefix) c))))"

definition generated_code_equal :: "bytes \<Rightarrow> bytes \<Rightarrow> bool" where
  "generated_code_equal a b =
     (a = b \<or> without_compiler_version a \<noteq> None \<and> without_compiler_version a = without_compiler_version b)"

subsection \<open>Compiling one source\<close>

text \<open>\<open>None\<close> is the empty \<open>CompiledFile\<close>, whose code is nil, and a panic of the analyzer.\<close>

definition compile_file ::
  "backend_env \<Rightarrow> bytes \<Rightarrow> bytes \<Rightarrow> source_file \<Rightarrow> diagnostic list
   \<Rightarrow> compiled_file option \<times> diagnostic list" where
  \<comment> \<open>\<open>compileWithMapping\<close> after \<open>analyzeContexts\<close>\<close>
  "compile_file env clean_path source file diags =
     (let diags = diags @ audit_trust_calls env file in
      if has_errors diags then (None, sort_diagnostics diags)
      else
        (let (generated, backend_diags) = generate_go env file; diags = diags @ backend_diags in
         if has_errors diags then (None, sort_diagnostics diags)
         else (case generated of
             None \<Rightarrow> (None, sort_diagnostics diags)
           | Some c \<Rightarrow>
              (Some \<lparr>compiled_source_path = clean_path, compiled_output_path = clean_path @ ''.go'',
                     compiled_package = file_package file, compiled_component = file_name file,
                     compiled_digest = be_sha256_hex env source, compiled_code = c,
                     compiled_source = Some file, compiled_source_mode = 0\<rparr>, sort_diagnostics diags))))"

definition compile_with_mapping ::
  "backend_env \<Rightarrow> bytes \<Rightarrow> bytes \<Rightarrow> bytes \<Rightarrow> compiled_file option \<times> diagnostic list" where
  \<comment> \<open>the path is already cleaned; a nil pointer or a panic cannot occur (see the theorems)\<close>
  "compile_with_mapping env clean_path source mapping =
     (case parse_source (be_tools env) (go_quote (be_is_print env)) clean_path source of
        (None, diags) \<Rightarrow> (None, sort_diagnostics diags)
      | (Some file, diags) \<Rightarrow>
          (case analyze_contexts (be_go env) (file\<lparr>file_mapping := mapping\<rparr>) of
             None \<Rightarrow> (None, sort_diagnostics diags)
           | Some (file, context_diags) \<Rightarrow> compile_file env clean_path source file (diags @ context_diags)))"

declare unique_name_def [go_eval] unique_identifier_def [go_eval] default_import_name_def [go_eval]
  find_import_def [go_eval] ensure_import_def [go_eval] prepare_imports_def [go_eval]
  generated_names_def [go_eval] helper_name_def [go_eval] checked_call_def [go_eval]
  node_code_def [go_eval] line_directive_def [go_eval] body_code_def [go_eval] import_code_def [go_eval]
  preamble_def [go_eval] function_code_def [go_eval] raw_code_def [go_eval] generate_go_def [go_eval]
  warning_def [go_eval] trusted_types_def [go_eval] trust_constructors_def [go_eval]
  audit_node_def [go_eval] audit_trust_calls_def [go_eval] compile_file_def [go_eval]
  compile_with_mapping_def [go_eval] generated_prefix_def [go_eval] runtime_import_path_def [go_eval]
  runtime_abi_def [go_eval] version_prefix_def [go_eval] without_compiler_version_def [go_eval]
  generated_code_equal_def [go_eval]

subsection \<open>Fresh names\<close>

definition suffixed :: "bytes \<Rightarrow> nat \<Rightarrow> bytes" where
  "suffixed base k = (if k \<le> 1 then base else base @ ''_'' @ show_nat k)"

lemma show_nat_nonempty: "show_nat n \<noteq> []"
  by (subst show_nat.simps) simp

lemma suffixed_inj: "1 \<le> j \<Longrightarrow> 1 \<le> k \<Longrightarrow> suffixed base j = suffixed base k \<Longrightarrow> j = k"
  by (auto simp: suffixed_def dest: show_nat_inj split: if_splits)

lemma unique_loop_used:
  "unique_loop fuel base (k + 1) (suffixed base k) used = None \<Longrightarrow> 1 \<le> k \<Longrightarrow>
   suffixed base ` {k..<k + fuel} \<subseteq> set used"
proof (induction fuel arbitrary: k)
  case 0
  then show ?case by simp
next
  case (Suc fuel)
  then have mem: "suffixed base k \<in> set used" by (auto split: if_splits)
  have "suffixed base (k + 1) = base @ ''_'' @ show_nat (k + 1)"
    using Suc.prems(2) by (simp add: suffixed_def)
  then have "unique_loop fuel base (k + 1 + 1) (suffixed base (k + 1)) used = None"
    using Suc.prems(1) mem by simp
  then have "suffixed base ` {k + 1..<k + 1 + fuel} \<subseteq> set used"
    using Suc.IH [of "k + 1"] by simp
  moreover have "{k..<k + Suc fuel} = insert k {k + 1..<k + 1 + fuel}" by auto
  ultimately show ?case using mem by auto
qed

lemma unique_loop_enough: "unique_loop (length used + 1) base 2 base used \<noteq> None"
proof
  assume none: "unique_loop (length used + 1) base 2 base used = None"
  have one: "suffixed base 1 = base" by (simp add: suffixed_def)
  have "suffixed base ` {1..<1 + (length used + 1)} \<subseteq> set used"
    by (rule unique_loop_used [of "length used + 1" base 1 used, unfolded one_add_one one, OF none]) simp
  then have "card (suffixed base ` {1..<1 + (length used + 1)}) \<le> card (set used)"
    by (rule card_mono [OF finite_set])
  moreover have "inj_on (suffixed base) {1..<1 + (length used + 1)}"
  proof (rule inj_onI)
    fix x y
    assume "x \<in> {1..<1 + (length used + 1)}" "y \<in> {1..<1 + (length used + 1)}"
      "suffixed base x = suffixed base y"
    then show "x = y" by (intro suffixed_inj [of x y base]) simp_all
  qed
  ultimately have "length used + 1 \<le> card (set used)"
    by (simp add: card_image)
  then show False using card_length [of used] by simp
qed

lemma unique_loop_fresh: "unique_loop fuel base k name used = Some n \<Longrightarrow> n \<notin> set used"
  by (induction fuel base k name used rule: unique_loop.induct) (auto split: if_splits)

interpretation go_names: name_supply unique_name
proof unfold_locales
  fix base used
  show "unique_name base used \<notin> set used"
    using unique_loop_enough [of used base] unique_loop_fresh
    by (auto simp: unique_name_def split: option.split)
qed

lemma unique_identifier_fst: "fst (unique_identifier base used) = unique_name base used"
  by (simp add: unique_identifier_def Let_def)

text \<open>
  C39: Choosing a generated identifier always ends, after at most one turn more than there are used
  names, with a name that is not used; and the three names of a generated function differ from every
  identifier of the source and from each other.
\<close>
theorem generated_names_fresh:
  "unique_loop (length used + 1) base 2 base used = Some (fst (unique_identifier base used))
   \<and> fst (unique_identifier base used) \<notin> set used
   \<and> (let names = generated_names idents in
        distinct [gn_context names, gn_writer names, gn_error names]
        \<and> {gn_context names, gn_writer names, gn_error names} \<inter> set idents = {})"
proof -
  have "unique_loop (length used + 1) base 2 base used = Some (unique_name base used)"
    using unique_loop_enough [of used base] by (auto simp: unique_name_def simp del: unique_loop.simps)
  moreover have "let names = generated_names idents in
        distinct [gn_context names, gn_writer names, gn_error names]
        \<and> {gn_context names, gn_writer names, gn_error names} \<inter> set idents = {}"
    using go_names.fresh_unused [of "''__himesan_render_context''" idents]
      go_names.fresh_unused [of "''__himesan_writer''" "unique_name ''__himesan_render_context'' idents # idents"]
      go_names.fresh_unused [of "''__himesan_error''"
        "unique_name ''__himesan_writer'' (unique_name ''__himesan_render_context'' idents # idents)
         # unique_name ''__himesan_render_context'' idents # idents"]
    by (simp add: generated_names_def unique_identifier_def Let_def) auto
  ultimately show ?thesis
    using go_names.fresh_unused [of base used] by (simp only: unique_identifier_fst simp_thms)
qed

subsection \<open>Imports of the generated code\<close>

text \<open>A name by which the generated file can refer to a package.\<close>

definition binds :: "source_import list \<Rightarrow> bytes \<Rightarrow> bytes \<Rightarrow> bool" where
  "binds imps name path =
     list_ex (\<lambda>i. import_path i = path \<and> import_alias i \<noteq> ''_''
        \<and> name = (if import_alias i = [] then default_import_name path else import_alias i)) imps"

definition ensured :: "bytes \<Rightarrow> bytes \<Rightarrow> ensure_state \<Rightarrow> ensure_state \<Rightarrow> bool" where
  \<comment> \<open>what one call of \<open>ensure\<close> guarantees\<close>
  "ensured name path st st' =
     (case (st, st') of ((imps, used, diags), (imps', used', diags')) \<Rightarrow>
        set imps \<subseteq> set imps' \<and> set used \<subseteq> set used'
        \<and> (distinct (map import_path imps) \<longrightarrow> distinct (map import_path imps'))
        \<and> (\<forall>i\<in>set imps' - set imps. import_path i = path \<and> import_alias i \<notin> set used)
        \<and> (\<not> has_errors diags' \<longrightarrow> \<not> has_errors diags \<and> binds imps' name path))"

lemma find_import_Some: "find_import path imps = Some i \<Longrightarrow> i \<in> set imps \<and> import_path i = path"
  by (auto simp: find_import_def find_Some_iff)

lemma find_import_None: "find_import path imps = None \<Longrightarrow> path \<notin> set (map import_path imps)"
  by (auto simp: find_import_def find_None_iff)

lemma unique_loop_candidate:
  "unique_loop fuel base (k + 1) (suffixed base k) used = Some n \<Longrightarrow> 1 \<le> k \<Longrightarrow> \<exists>j. n = suffixed base j"
proof (induction fuel arbitrary: k)
  case 0
  then show ?case by simp
next
  case (Suc fuel)
  show ?case
  proof (cases "suffixed base k \<in> set used")
    case True
    have "suffixed base (k + 1) = base @ ''_'' @ show_nat (k + 1)"
      using Suc.prems(2) by (simp add: suffixed_def)
    then show ?thesis using Suc.IH [of "k + 1"] Suc.prems True by simp
  next
    case False
    then show ?thesis using Suc.prems by auto
  qed
qed

lemma unique_name_long: "length base \<le> length (unique_name base used)"
proof -
  have one: "suffixed base 1 = base" by (simp add: suffixed_def)
  obtain n where n: "unique_loop (length used + 1) base 2 base used = Some n"
    using unique_loop_enough by blast
  have "\<exists>j. n = suffixed base j"
    by (rule unique_loop_candidate [of "length used + 1" base 1 used, unfolded one_add_one one, OF n]) simp
  then show ?thesis using n by (auto simp: unique_name_def suffixed_def simp del: unique_loop.simps)
qed

lemma ensure_import_ensures:
  assumes r: "ensure_import quote file path base st = (name, st')" and base: "2 \<le> length base"
  shows "ensured name path st st'"
proof -
  obtain imps used diags where st: "st = (imps, used, diags)" by (cases st) auto
  show ?thesis
  proof (cases "find_import path imps")
    case (Some i)
    note i = find_import_Some [OF Some]
    show ?thesis
      using r i unfolding st ensured_def ensure_import_def
      by (auto simp: Some binds_def list_ex_iff intro!: bexI [of _ i] split: if_splits)
  next
    case None
    define fresh where "fresh = unique_name base used"
    have st': "name = fresh" "st' = (imps @ [\<lparr>import_alias = fresh, import_path = path\<rparr>], fresh # used, diags)"
      using r by (auto simp: st ensure_import_def None unique_identifier_def Let_def fresh_def)
    have "2 \<le> length fresh"
      using unique_name_long [of base used] base by (simp add: fresh_def)
    then have "fresh \<noteq> []" "fresh \<noteq> ''_''" by auto
    moreover have "fresh \<notin> set used"
      unfolding fresh_def by (rule go_names.fresh_unused)
    ultimately show ?thesis
      using find_import_None [OF None] by (auto simp: st st' ensured_def binds_def)
  qed
qed

lemma binds_mono: "binds imps name path \<Longrightarrow> set imps \<subseteq> set imps' \<Longrightarrow> binds imps' name path"
  by (auto simp: binds_def list_ex_iff)

lemma set_import_identifiers: "set used \<subseteq> set (import_identifiers imps used)"
  by (induction imps used rule: import_identifiers.induct) (auto split: if_splits)

text \<open>
  C38: The imports of the generated file. Unless an error is reported, the three names the
  generated code uses are bound, in its import list, to the packages context, io and the runtime; the
  imports of the source are all kept and sorted; a path the source imports once is imported once; and
  a name the compiler adds is no identifier of the source.
\<close>
theorem prepare_imports_bind:
  assumes "prepare_imports env file = (imps, diags)" and "\<not> has_errors diags"
  shows "binds (bi_all imps) (bi_context imps) ''context'' \<and> binds (bi_all imps) (bi_io imps) ''io''
    \<and> binds (bi_all imps) (bi_sando imps) runtime_import_path
    \<and> set (file_imports file) \<subseteq> set (bi_all imps) \<and> sorted (map import_path (bi_all imps))
    \<and> (distinct (map import_path (file_imports file)) \<longrightarrow> distinct (map import_path (bi_all imps)))
    \<and> (\<forall>i\<in>set (bi_all imps) - set (file_imports file).
         import_alias i \<notin> set (be_identifiers env (file_source file))
         \<and> import_path i \<in> {''context'', ''io'', runtime_import_path})"
proof -
  define quote where "quote = go_quote (be_is_print env)"
  define used where "used = import_identifiers (file_imports file) (be_identifiers env (file_source file))"
  define st0 where "st0 = (file_imports file, used, [] :: diagnostic list)"
  obtain c st1 where c: "ensure_import quote (file_path file) ''context'' ''__himesan_context'' st0 = (c, st1)"
    by (meson surj_pair)
  obtain w st2 where w: "ensure_import quote (file_path file) ''io'' ''__himesan_io'' st1 = (w, st2)"
    by (meson surj_pair)
  obtain r st3 where r: "ensure_import quote (file_path file) runtime_import_path ''__himesan_sando'' st2 = (r, st3)"
    by (meson surj_pair)
  obtain i1 u1 d1 i2 u2 d2 i3 u3 d3 where st: "st1 = (i1, u1, d1)" "st2 = (i2, u2, d2)" "st3 = (i3, u3, d3)"
    by (cases st1; cases st2; cases st3) auto
  have imps: "imps = \<lparr>bi_context = c, bi_io = w, bi_sando = r, bi_all = sort_imports i3\<rparr>" "diags = d3"
    using assms(1) c w r st unfolding prepare_imports_def quote_def [symmetric] used_def [symmetric] Let_def
      st0_def by auto
  have e1: "ensured c ''context'' (file_imports file, used, []) (i1, u1, d1)"
    using ensure_import_ensures [OF c] by (simp add: st0_def st)
  have e2: "ensured w ''io'' (i1, u1, d1) (i2, u2, d2)"
    using ensure_import_ensures [OF w] by (simp add: st)
  have e3: "ensured r runtime_import_path (i2, u2, d2) (i3, u3, d3)"
    using ensure_import_ensures [OF r] by (simp add: st)
  note e = e1 [unfolded ensured_def prod.case] e2 [unfolded ensured_def prod.case] e3 [unfolded ensured_def prod.case]
  have ids: "set (be_identifiers env (file_source file)) \<subseteq> set used"
    unfolding used_def by (rule set_import_identifiers)
  have dist: "distinct (map import_path (sort_imports i3)) = distinct (map import_path i3)"
    by (rule mset_eq_imp_distinct_iff) (simp add: sort_imports_def)
  have b: "binds i1 c ''context''" "binds i2 w ''io''" "binds i3 r runtime_import_path"
    and sub: "set i1 \<subseteq> set i3" "set i2 \<subseteq> set i3"
    using e assms(2) imps(2) by auto
  have "binds (sort_imports i3) c ''context''" "binds (sort_imports i3) w ''io''"
    "binds (sort_imports i3) r runtime_import_path"
    using binds_mono [OF b(1)] binds_mono [OF b(2)] binds_mono [OF b(3)] sub by simp_all
  moreover have "set (file_imports file) \<subseteq> set i3" using e by blast
  moreover have "import_alias i \<notin> set (be_identifiers env (file_source file))
         \<and> import_path i \<in> {''context'', ''io'', runtime_import_path}"
    if i: "i \<in> set i3 - set (file_imports file)" for i
  proof -
    have new: "i \<in> set i1 - set (file_imports file) \<Longrightarrow> import_path i = ''context'' \<and> import_alias i \<notin> set used"
      "i \<in> set i2 - set i1 \<Longrightarrow> import_path i = ''io'' \<and> import_alias i \<notin> set u1"
      "i \<in> set i3 - set i2 \<Longrightarrow> import_path i = runtime_import_path \<and> import_alias i \<notin> set u2"
      and grow: "set used \<subseteq> set u1" "set u1 \<subseteq> set u2"
      using e by simp_all
    consider "i \<in> set i1 - set (file_imports file)" | "i \<in> set i2 - set i1" | "i \<in> set i3 - set i2"
      using i by blast
    then show ?thesis
      by cases (use new grow ids in blast)+
  qed
  ultimately show ?thesis
    using e dist by (simp add: imps sort_imports_sorted)
qed

definition sample_backend :: backend_env where
  "sample_backend =
     \<lparr>be_go = ascii_env, be_tools = sample_tools, be_is_print = (\<lambda>r. 32 \<le> r \<and> r < 127),
      be_identifiers = (\<lambda>_. [''__himesan_io'']), be_sha256_hex = (\<lambda>_. ''0''),
      be_format = Inr, be_version = ''dev''\<rparr>"

theorem prepare_imports_bind_witness:
  "\<not> has_errors (snd (prepare_imports sample_backend (sample_file [])))
   \<and> binds (bi_all (fst (prepare_imports sample_backend (sample_file []))))
       (bi_io (fst (prepare_imports sample_backend (sample_file [])))) ''io''"
proof -
  let ?p = "prepare_imports sample_backend (sample_file [])"
  have ok: "\<not> has_errors (snd ?p)"
    by (simp add: sample_backend_def sample_file_def go_eval)
  have eq: "?p = (fst ?p, snd ?p)" by simp
  show ?thesis using ok prepare_imports_bind [OF eq ok] by blast
qed

subsection \<open>Static text\<close>

text \<open>
  Static text reaches the generated program unchanged. The code of a nonempty text node passes
  \<open>WriteString\<close> a Go string literal whose value is exactly the text of the template, for every byte
  string, valid UTF-8 or not; and an import line holds a literal whose value is the imported path.
  (\<open>unicode.IsPrint\<close> only has to reject the line feed.)
\<close>
theorem static_text_literal:
  assumes "printable_ok is_print"
  shows "(node_kind node = NodeText \<and> node_text node \<noteq> [] \<longrightarrow>
      (\<exists>lit. node_code (go_quote is_print) imps names node
           = checked_call names (bi_sando imps @ ''.WriteString('' @ gn_writer names @ '', '' @ lit @ '')'')
         \<and> go_unquote lit = Some (node_text node)))
    \<and> (\<exists>lit. import_code (go_quote is_print) i
           = CHR 0x09 # (if import_alias i = [] then [] else import_alias i @ '' '') @ lit @ [LF]
         \<and> go_unquote lit = Some (import_path i))"
  using unquote_quote [OF assms] by (auto simp: node_code_def import_code_def)

theorem static_text_literal_witness:
  "\<forall>imps names. \<exists>lit. node_code (go_quote (\<lambda>r. 32 \<le> r \<and> r < 127)) imps names
       (sample_node NodeText [CHR 0x0A, CHR 0xFF, CHR 0x22] ContextUnset)
     = checked_call names (bi_sando imps @ ''.WriteString('' @ gn_writer names @ '', '' @ lit @ '')'')
   \<and> go_unquote lit = Some [CHR 0x0A, CHR 0xFF, CHR 0x22]"
  using static_text_literal [of "\<lambda>r. 32 \<le> r \<and> r < 127" "sample_node NodeText [CHR 0x0A, CHR 0xFF, CHR 0x22] ContextUnset"]
  by (simp add: printable_ok_def sample_node_def)

subsection \<open>Comparing generated files\<close>

lemma without_compiler_version_Some:
  "without_compiler_version c = Some body \<longleftrightarrow>
   (\<exists>v rest. c = version_prefix @ v @ LF # rest \<and> v \<noteq> [] \<and> LF \<notin> set v \<and> body = LF # rest)"
proof
  assume "without_compiler_version c = Some body"
  then obtain i where pre: "has_prefix version_prefix c"
    and i: "index_byte LF (drop (length version_prefix) c) = Some i" "0 < i"
    and body: "body = drop i (drop (length version_prefix) c)"
    by (auto simp: without_compiler_version_def split: if_splits option.splits nat.splits)
  obtain t where t: "c = version_prefix @ t" using pre by (auto simp: has_prefix_iff)
  have it: "index_byte LF t = Some i" using i(1) t by simp
  obtain rest where rest: "t = take i t @ LF # rest"
    using index_byte_split [OF it] by blast
  have "take i t \<noteq> []" "LF \<notin> set (take i t)"
    using index_byte_Some [OF it] i(2) by auto
  moreover have "body = LF # rest"
    using body t rest index_byte_Some [OF it] by (metis append_eq_conv_conj append_take_drop_id same_append_eq)
  ultimately show "\<exists>v rest. c = version_prefix @ v @ LF # rest \<and> v \<noteq> [] \<and> LF \<notin> set v \<and> body = LF # rest"
    using t rest by metis
next
  assume "\<exists>v rest. c = version_prefix @ v @ LF # rest \<and> v \<noteq> [] \<and> LF \<notin> set v \<and> body = LF # rest"
  then obtain v rest where v: "c = version_prefix @ v @ LF # rest" "v \<noteq> []" "LF \<notin> set v" "body = LF # rest"
    by blast
  then obtain n where n: "length v = Suc n" by (cases v) auto
  have "index_byte LF (v @ LF # rest) = Some (Suc n)"
    using index_byte_append_notin [OF v(3), of rest] n by simp
  moreover have "drop (Suc n) (v @ LF # rest) = LF # rest"
    using n by (metis append_eq_conv_conj)
  ultimately show "without_compiler_version c = Some body"
    using v by (simp add: without_compiler_version_def)
qed

lemma generated_code_equal_iff:
  "generated_code_equal a b \<longleftrightarrow> a = b \<or> (\<exists>v w rest. a = version_prefix @ v @ LF # rest
      \<and> b = version_prefix @ w @ LF # rest \<and> v \<noteq> [] \<and> w \<noteq> [] \<and> LF \<notin> set v \<and> LF \<notin> set w)"
proof -
  have "without_compiler_version a \<noteq> None \<and> without_compiler_version a = without_compiler_version b \<longleftrightarrow>
      (\<exists>body. without_compiler_version a = Some body \<and> without_compiler_version b = Some body)"
    by auto
  then show ?thesis
    unfolding generated_code_equal_def without_compiler_version_Some by (simp only:) blast
qed

text \<open>
  Freshness ignores the compiler version and nothing else. Two generated files count as equal
  exactly when they are the same bytes, or both carry the generated prefix and a nonempty compiler
  version line and agree on every other byte; and this is an equivalence.
\<close>
theorem generated_code_equal_version_only:
  "generated_code_equal a b = (a = b \<or> (\<exists>v w rest. a = version_prefix @ v @ LF # rest
      \<and> b = version_prefix @ w @ LF # rest \<and> v \<noteq> [] \<and> w \<noteq> [] \<and> LF \<notin> set v \<and> LF \<notin> set w))
   \<and> equivp generated_code_equal"
proof
  show "generated_code_equal a b = (a = b \<or> (\<exists>v w rest. a = version_prefix @ v @ LF # rest
      \<and> b = version_prefix @ w @ LF # rest \<and> v \<noteq> [] \<and> w \<noteq> [] \<and> LF \<notin> set v \<and> LF \<notin> set w))"
    by (rule generated_code_equal_iff)
  show "equivp generated_code_equal"
    by (rule equivpI) (auto simp: reflp_def symp_def transp_def generated_code_equal_def)
qed

end
