(* ===== verification/Compiled_Components.thy ===== *)
theory Compiled_Components
  imports Go_Backend
begin

section \<open>From source to escaped output\<close>

text \<open>
  What ties the compiler to the runtime: a compilation returns code or reports errors; the helper the
  backend prints for a context writes only output that stays in that context; so a rendering of a
  compiled component has every value in the context it is escaped for.
\<close>

subsection \<open>A compilation returns code or errors\<close>

lemma audit_warnings: "list_all (\<lambda>d. \<not> is_error d) (audit_trust_calls env file)"
proof -
  have "list_all (\<lambda>d. \<not> is_error d) (audit_header path seen ids)" for path seen ids
    by (induction path seen ids rule: audit_header.induct)
      (simp_all add: warning_def is_error_def severity_error_def severity_warning_def)
  moreover have "list_all (\<lambda>d. \<not> is_error d) (audit_node env path node)" for path node
    by (auto simp: audit_node_def Let_def list_all_iff warning_def is_error_def severity_error_def
        severity_warning_def)
  ultimately show ?thesis
    by (auto simp: audit_trust_calls_def list_all_concat_map list_all_iff)
qed

lemma no_errors_audit [simp]: "\<not> has_errors (audit_trust_calls env file)"
  using audit_warnings [of env "file"] by (auto simp: has_errors_def list_all_iff list_ex_iff)

lemma end_diagnostics_errors: "list_all is_error (end_diagnostics path pos a)"
  by (simp add: end_diagnostics_def split: list.split)

lemma analyze_nodes_rejected:
  "analyze_nodes env path table i nodes a = (nodes', Inl (Rejected d)) \<Longrightarrow> is_error d"
proof (induction nodes arbitrary: a i nodes')
  case Nil
  then show ?case by simp
next
  case (Cons n nodes)
  have static: "consume_text env path table off s a = Inl (Rejected d) \<Longrightarrow> is_error d" for off s a
    by (induction s arbitrary: off a)
      (auto split: sum.splits elim!: locate.elims)
  have node: "analyze_node env path table i n a = Inl (Rejected d) \<Longrightarrow> is_error d"
    by (cases "node_kind n")
      (auto simp: analyze_node_def analyze_expression_def reject_at_def Let_def
        split: sum.splits if_splits option.splits intro: static)
  show ?case
    using Cons node by (auto split: sum.splits prod.splits)
qed

lemma analyze_contexts_errors:
  "analyze_contexts env file = Some (file', ds) \<Longrightarrow> list_all is_error ds"
  using analyze_nodes_rejected
  by (fastforce simp: analyze_contexts_def Let_def end_diagnostics_errors
      split: prod.splits sum.splits analysis_stop.splits)

lemma analyze_contexts_Some: "\<exists>file' ds. analyze_contexts env file = Some (file', ds)"
proof -
  have "snd (analyze_nodes env (file_path file) (new_position_table (file_source file)) 0
      (file_nodes file) initial_analyzer) \<noteq> Inl Crashed"
    by (rule analyze_nodes_no_crash [OF initial_ok])
  then show ?thesis
    by (auto simp: analyze_contexts_def Let_def split: prod.splits sum.splits analysis_stop.splits)
qed

lemma generate_go_result:
  "generate_go env file = (r, ds) \<Longrightarrow> (r = None) = has_errors ds"
  by (auto simp: generate_go_def format_problem_def split: prod.splits sum.splits if_splits
      format_error.splits list.splits)

lemma compile_file_result:
  assumes "compile_file env path source file diags = (r, ds)"
  shows "(r = None) = has_errors ds
    \<and> (\<forall>c. r = Some c \<longrightarrow> compiled_source c = Some file \<and> \<not> has_errors diags
        \<and> fst (generate_go env file) = Some (compiled_code c) \<and> compiled_output_path c = path @ ''.go'')"
proof -
  obtain g gd where g: "generate_go env file = (g, gd)" by fastforce
  show ?thesis
    using assms generate_go_result [OF g] by (auto simp: compile_file_def Let_def g split: if_splits option.splits)
qed

lemma parse_source_errors:
  assumes "tools_report (be_tools env)"
    and "parse_source (be_tools env) quote path source = (r, ds)"
  shows "(r = None \<longrightarrow> has_errors ds) \<and> (\<forall>file. r = Some file \<longrightarrow> ds = [])"
  using parse_source_shape [OF assms(1), where quote = quote and path = path and source = source] assms(2) all_errors_has [of ds]
  by (cases r) auto

lemma compile_result:
  assumes tools: "tools_report (be_tools env)"
    and r: "compile_with_mapping env path source mapping = (r, ds)"
  shows "(r = None) = has_errors ds
    \<and> (\<forall>c. r = Some c \<longrightarrow> (\<exists>file file'. compiled_source c = Some file'
         \<and> fst (parse_source (be_tools env) (go_quote (be_is_print env)) path source) = Some file
         \<and> analyze_contexts (be_go env) (file\<lparr>file_mapping := mapping\<rparr>) = Some (file', [])
         \<and> fst (generate_go env file') = Some (compiled_code c)
         \<and> compiled_output_path c = path @ ''.go''))"
proof -
  obtain p pd where p: "parse_source (be_tools env) (go_quote (be_is_print env)) path source = (p, pd)"
    by fastforce
  note parsed = parse_source_errors [OF tools p]
  show ?thesis
  proof (cases p)
    case None
    then show ?thesis using r p parsed by (auto simp: compile_with_mapping_def)
  next
    case (Some f)
    then have pd: "pd = []" using parsed by simp
    obtain f' cd where a: "analyze_contexts (be_go env) (f\<lparr>file_mapping := mapping\<rparr>) = Some (f', cd)"
      using analyze_contexts_Some by blast
    have "compile_file env path source f' cd = (r, ds)"
      using r p Some pd a by (simp add: compile_with_mapping_def)
    note compiled = compile_file_result [OF this]
    have "\<not> has_errors cd \<Longrightarrow> cd = []"
      using all_errors_has [OF analyze_contexts_errors [OF a]] by blast
    then show ?thesis using compiled p Some a by (auto simp: a)
  qed
qed

text \<open>
  C10: Compiling a source yields code exactly when no error is reported (trusted-value findings are
  warnings and never prevent it). Code is only ever generated from a file that parsed without
  diagnostics and that the context analysis accepted, and its output is the source path with \<open>.go\<close>.
\<close>
theorem compile_reports:
  assumes "tools_report (be_tools env)"
    and "compile_with_mapping env path source mapping = (r, ds)"
  shows "(r = None) = has_errors ds
    \<and> (\<forall>c. r = Some c \<longrightarrow> (\<exists>file file'. compiled_source c = Some file'
         \<and> fst (parse_source (be_tools env) (go_quote (be_is_print env)) path source) = Some file
         \<and> analyze_contexts (be_go env) (file\<lparr>file_mapping := mapping\<rparr>) = Some (file', [])
         \<and> fst (generate_go env file') = Some (compiled_code c)
         \<and> compiled_output_path c = path @ ''.go''))"
  by (rule compile_result [OF assms])

lemma sample_backend_report: "tools_report (be_tools sample_backend)"
  using sample_tools_report by (simp add: sample_backend_def)

theorem compile_reports_witness:
  "tools_report (be_tools sample_backend)
   \<and> has_errors (snd (compile_with_mapping sample_backend ''a.sando'' ''<p>'' ''a.sando''))"
proof -
  let ?r = "compile_with_mapping sample_backend ''a.sando'' ''<p>'' ''a.sando''"
  have "fst ?r = None"
    by (simp add: compile_with_mapping_def sample_backend_def parse_source_def locate_header_def go_eval)
  moreover have "?r = (fst ?r, snd ?r)" by simp
  ultimately show ?thesis
    using compile_reports [OF sample_backend_report, of "''a.sando''" "''<p>''" "''a.sando''" "fst ?r" "snd ?r"]
      sample_backend_report by simp
qed

subsection \<open>The helper of a context\<close>

text \<open>
  The runtime function a generated expression calls, by its name. \<open>None\<close> is a call the Go type
  checker rejects: \<open>WriteJS\<close> and \<open>WriteCSS\<close> take their trusted type only.
\<close>

definition runtime_helper ::
  "('v \<Rightarrow> bytes) \<Rightarrow> bytes \<Rightarrow> 'v go_value \<Rightarrow> (('w, 'e) writer \<Rightarrow> 'w \<Rightarrow> 'e render_error option \<times> 'w) option" where
  "runtime_helper sprint name x =
     (if name = ''WriteText'' then Some (\<lambda>w st. write_text sprint w st x)
      else if name = ''WriteAttr'' then Some (\<lambda>w st. write_attr sprint w st x)
      else if name = ''WriteRCDATA'' then Some (\<lambda>w st. write_rcdata sprint w st x)
      else if name = ''WriteURL'' then Some (\<lambda>w st. write_url sprint w st x)
      else if name = ''WriteJS'' then (case x of TrustedJS v \<Rightarrow> Some (\<lambda>w st. write_js w st v) | _ \<Rightarrow> None)
      else if name = ''WriteCSS'' then (case x of TrustedCSS v \<Rightarrow> Some (\<lambda>w st. write_css w st v) | _ \<Rightarrow> None)
      else None)"

text \<open>
  The obligation of an explicitly trusted value: trusted HTML is a fragment that ends in text,
  trusted JavaScript and CSS do not end their element. Every other value has none.
\<close>

definition trusted_ok :: "output_context \<Rightarrow> 'v go_value \<Rightarrow> bool" where
  "trusted_ok ctx x =
     (case (ctx, x) of
        (ContextHTMLText, TrustedHTML v) \<Rightarrow> lex_run v LData = LData
      | (ContextJS, TrustedJS v) \<Rightarrow> lex_run v (LRaw ''script'') = LRaw ''script''
      | (ContextCSS, TrustedCSS v) \<Rightarrow> lex_run v (LRaw ''style'') = LRaw ''style''
      | _ \<Rightarrow> True)"

type_synonym collector = "(bytes, unit) writer"

definition writes :: "('v \<Rightarrow> bytes) \<Rightarrow> output_context \<Rightarrow> 'v go_value \<Rightarrow> bytes \<Rightarrow> bool" where
  \<comment> \<open>the helper of the context, called on the value, hands the writer exactly these bytes\<close>
  "writes sprint ctx x out =
     (\<exists>h. runtime_helper sprint (helper_name ctx) x = Some (h :: collector \<Rightarrow> bytes \<Rightarrow> unit render_error option \<times> bytes)
        \<and> emits h out)"

text \<open>A writer that appends what it is given and never fails: it sees every byte.\<close>

definition collecting_writer :: "(bytes, unit) writer" where
  "collecting_writer = \<lparr>writer_value = Reflected KPointer False,
     writer_write = (\<lambda>st v. (int (length v), None, st @ v))\<rparr>"

lemma emits_unique:
  fixes h :: "collector \<Rightarrow> bytes \<Rightarrow> unit render_error option \<times> bytes"
  assumes "emits h out" and "emits h (out' :: bytes)"
  shows "out = out'"
proof -
  have "write_raw collecting_writer [] out = write_raw collecting_writer [] out'"
    using assms by (metis emits_def)
  then show ?thesis by (simp add: write_raw_def collecting_writer_def)
qed

lemma emits_collects:
  fixes h :: "collector \<Rightarrow> bytes \<Rightarrow> unit render_error option \<times> bytes"
  shows "emits h out \<Longrightarrow> h collecting_writer st = (None, st @ out)"
  by (simp add: emits_def write_raw_def collecting_writer_def)

lemma no_emission:
  fixes h :: "collector \<Rightarrow> bytes \<Rightarrow> unit render_error option \<times> bytes"
  assumes "\<forall>w st. h w st = (Some e, st)" shows "\<not> emits h out"
proof
  assume "emits h out"
  from emits_collects [OF this, of "[]"] assms show False by simp
qed

lemma emitted_escape:
  assumes "emits (\<lambda>(w :: collector) st. write_raw w st (html_escape s)) out"
  shows "list_all (\<lambda>c. \<not> html_special c) out"
proof -
  have "emits (\<lambda>(w :: collector) st. write_raw w st (html_escape s)) (html_escape s)" by (simp add: emits_def)
  then have "out = html_escape s" using emits_unique [OF assms] by simp
  then show ?thesis by (auto simp: list_all_iff html_escape_no_special)
qed

lemma emitted_raw: "emits (\<lambda>(w :: collector) st. write_raw w st v) out \<Longrightarrow> out = v"
proof -
  assume e: "emits (\<lambda>(w :: collector) st. write_raw w st v) out"
  have "emits (\<lambda>(w :: collector) st. write_raw w st v) v" by (simp add: emits_def)
  with e show ?thesis by (rule emits_unique)
qed

lemma helper_confined:
  assumes kind: "node_kind n = NodeExpression" and ctx: "node_context n = ctx"
    and six: "ctx \<in> {ContextHTMLText, ContextRCDATA, ContextAttr, ContextURL, ContextJS, ContextCSS}"
    and trusted: "trusted_ok ctx x" and w: "writes sprint ctx x out"
  shows "confined n out"
proof -
  obtain h :: "collector \<Rightarrow> bytes \<Rightarrow> unit render_error option \<times> bytes"
    where h: "runtime_helper sprint (helper_name ctx) x = Some h" "emits h out"
    using w unfolding writes_def by blast
  have attr: "confined n out" if "ctx \<notin> {ContextHTMLText, ContextJS, ContextCSS}" "list_all (\<lambda>c. \<not> html_special c) out"
    using that kind ctx by (simp add: confined_def split: output_context.split)
  consider "ctx = ContextHTMLText" | "ctx = ContextRCDATA" | "ctx = ContextAttr" | "ctx = ContextURL"
    | "ctx = ContextJS" | "ctx = ContextCSS"
    using six by blast
  then show ?thesis
  proof cases
    case 1
    then have e: "emits (\<lambda>(w :: collector) st. write_text sprint w st x) out"
      using h by (simp add: helper_name_def runtime_helper_def)
    show ?thesis
    proof (cases "is_trusted_html x")
      case True
      then obtain v where x: "x = TrustedHTML v" by (cases x) auto
      then have "out = v" using e emitted_raw [of v out] by (simp add: write_text_def)
      then show ?thesis using trusted 1 x kind ctx by (simp add: trusted_ok_def confined_def)
    next
      case False
      then have "list_all (\<lambda>c. \<not> html_special c) out"
        using e emitted_escape by (simp add: write_text_escapes)
      then show ?thesis using 1 kind ctx escaped_stays_data [of out] by (simp add: confined_def)
    qed
  next
    case 2
    then have "emits (\<lambda>(w :: collector) st. write_rcdata sprint w st x) out"
      using h by (simp add: helper_name_def runtime_helper_def)
    then show ?thesis using attr 2 emitted_escape by (simp add: write_rcdata_def)
  next
    case 3
    then have "emits (\<lambda>(w :: collector) st. write_attr sprint w st x) out"
      using h by (simp add: helper_name_def runtime_helper_def)
    then show ?thesis using attr 3 emitted_escape by (simp add: write_attr_def)
  next
    case 4
    then have e: "emits (\<lambda>(w :: collector) st. write_url sprint w st x) out"
      using h by (simp add: helper_name_def runtime_helper_def)
    show ?thesis
    proof (cases "is_trusted_url x")
      case True
      then obtain v where "x = TrustedURL v" by (cases x) auto
      then show ?thesis using e attr 4 emitted_escape by (simp add: write_url_def)
    next
      case False
      show ?thesis
      proof (cases "canonical_url (string_value sprint x)")
        case (Inl p)
        obtain s r where p: "p = (s, r)" by fastforce
        have "write_url sprint w st x = (Some (URLSafetyError s r), st)" for w :: collector and st
          using False Inl p by (cases x) (simp_all add: write_url_def)
        then show ?thesis
          using no_emission [of "\<lambda>(w :: collector) st. write_url sprint w st x"] e by blast
      next
        case (Inr u)
        have "write_url sprint w st x = write_raw w st (html_escape u)" for w :: collector and st
          using False Inr by (cases x) (simp_all add: write_url_def)
        then show ?thesis using e attr 4 emitted_escape by simp
      qed
    qed
  next
    case 5
    then obtain v where x: "x = TrustedJS v" "emits (\<lambda>(w :: collector) st. write_js w st v) out"
      using h by (cases x) (auto simp: helper_name_def runtime_helper_def)
    then have "out = v" using emitted_raw [of v out] by (simp add: write_js_def)
    then show ?thesis using trusted 5 x kind ctx by (simp add: trusted_ok_def confined_def)
  next
    case 6
    then obtain v where x: "x = TrustedCSS v" "emits (\<lambda>(w :: collector) st. write_css w st v) out"
      using h by (cases x) (auto simp: helper_name_def runtime_helper_def)
    then have "out = v" using emitted_raw [of v out] by (simp add: write_css_def)
    then show ?thesis using trusted 6 x kind ctx by (simp add: trusted_ok_def confined_def)
  qed
qed

text \<open>
  C29: The helper the backend prints for a context keeps its output in that context. Let a
  tokenizer be at a place the analyzer annotates with a context (an attribute value, text, RCDATA, a
  script or style element). Whatever value the expression yields, as long as an explicitly trusted
  value keeps its promise, the bytes the context's helper writes leave the tokenizer exactly where it
  was. This ties \<open>dynamicContext\<close>, the helper table of \<open>generateGo\<close> and the escaping of
  \<open>sando/write.go\<close> together.
\<close>
theorem context_helper_stays:
  assumes "dynamic_context a = Some ctx"
    and "trusted_ok ctx x" and "writes sprint ctx x out"
  shows "lex_run out (lexical_of a) = lexical_of a"
proof -
  let ?n = "sample_node NodeExpression [] ctx"
  have n: "node_kind ?n = NodeExpression" "node_context ?n = ctx" by (simp_all add: sample_node_def)
  have ctx: "lex_context (lexical_of a) = Some ctx"
    using assms(1) by (simp add: dynamic_context_lexical)
  show ?thesis
    using confined_stays [of a ?n out] helper_confined [OF n lex_context_range [OF ctx] assms(2,3)]
      n ctx
    by simp
qed

lemma sample_writes_text:
  "writes id ContextHTMLText (Ordinary v) (html_escape (normalize_text v))"
  by (simp add: writes_def helper_name_def runtime_helper_def emits_def write_text_def)

theorem context_helper_stays_witness:
  "lex_run (html_escape (normalize_text ''a<b'')) (lexical_of initial_analyzer) = lexical_of initial_analyzer"
  by (rule context_helper_stays [where ctx = ContextHTMLText and x = "Ordinary ''a<b''" and sprint = id])
    (simp_all add: sample_writes_text trusted_ok_def, simp add: go_eval)

subsection \<open>What a printed statement does\<close>

text \<open>
  The statements of a generated component are executed as their text says. The compiler prints them in
  one frame, a call of the runtime whose error is returned; \<open>read_call\<close> reads the function and the
  arguments of such a statement, and \<open>performs\<close> says what the statement hands the writer when it completes:
  \<open>WriteString\<close> the value of its Go string literal, \<open>Render\<close> a fragment that ends in text (what compiled
  components write, by the theorem below), a helper what it writes for some value of its expression. An
  explicitly trusted value keeps its promise.
\<close>

definition read_call :: "bytes \<Rightarrow> generated_names \<Rightarrow> bytes \<Rightarrow> (bytes \<times> bytes) option" where
  "read_call sando names text =
     (let first = ''if '' @ gn_error names @ '' := '' @ sando @ ''.'';
          final = '')'' @ ''; '' @ gn_error names @ '' != nil { return '' @ gn_error names @ '' }'' @ [LF];
          call = trim_suffix final (trim_prefix first text)
      in if \<not> has_prefix first text \<or> \<not> has_suffix final (trim_prefix first text) then None
         else (case index_byte (CHR ''('') call of None \<Rightarrow> None | Some i \<Rightarrow> Some (take i call, drop (i + 1) call)))"

definition promise_kept :: "bytes \<Rightarrow> 'v go_value \<Rightarrow> bool" where
  "promise_kept helper x =
     (case x of
        TrustedHTML v \<Rightarrow> helper = ''WriteText'' \<longrightarrow> lex_run v LData = LData
      | TrustedJS v \<Rightarrow> helper = ''WriteJS'' \<longrightarrow> lex_run v (LRaw ''script'') = LRaw ''script''
      | TrustedCSS v \<Rightarrow> helper = ''WriteCSS'' \<longrightarrow> lex_run v (LRaw ''style'') = LRaw ''style''
      | _ \<Rightarrow> True)"

definition helper_writes :: "('v \<Rightarrow> bytes) \<Rightarrow> bytes \<Rightarrow> bytes \<Rightarrow> bool" where
  \<comment> \<open>what the runtime function of this name hands the writer for some value\<close>
  "helper_writes sprint helper out =
     (\<exists>x h. runtime_helper sprint helper x = Some (h :: collector \<Rightarrow> bytes \<Rightarrow> unit render_error option \<times> bytes)
        \<and> emits h out \<and> promise_kept helper x)"

definition performs :: "('v \<Rightarrow> bytes) \<Rightarrow> backend_imports \<Rightarrow> generated_names \<Rightarrow> bytes \<Rightarrow> bytes \<Rightarrow> bool" where
  "performs sprint imps names text out =
     (if text = [] then out = []
      else (case read_call (bi_sando imps) names text of
          None \<Rightarrow> False
        | Some (function, arguments) \<Rightarrow>
            (if function = ''WriteString''
             then has_prefix (gn_writer names @ '', '') arguments
               \<and> go_unquote (trim_prefix (gn_writer names @ '', '') arguments) = Some out
             else if function = ''Render''
             then has_prefix (gn_context names @ '', '' @ gn_writer names @ '', '') arguments \<and> lex_run out LData = LData
             else has_prefix (gn_writer names @ '', '') arguments \<and> helper_writes sprint function out)))"

lemma read_checked_call:
  assumes "CHR ''('' \<notin> set function"
  shows "read_call sando names (checked_call names (sando @ ''.'' @ function @ ''('' @ arguments @ '')'')) = Some (function, arguments)"
proof -
  let ?first = "''if '' @ gn_error names @ '' := '' @ sando @ ''.''"
  let ?final = "'')'' @ ''; '' @ gn_error names @ '' != nil { return '' @ gn_error names @ '' }'' @ [LF]"
  have printed: "checked_call names (sando @ ''.'' @ function @ ''('' @ arguments @ '')'')
      = ?first @ (function @ ''('' @ arguments) @ ?final"
    by (simp add: checked_call_def)
  have open_at: "index_byte (CHR ''('') (function @ ''('' @ arguments) = Some (length function)"
    using index_byte_append_notin [OF assms, of arguments] by simp
  have "has_suffix ?final ((function @ ''('' @ arguments) @ ?final)" unfolding has_suffix_iff by blast
  then show ?thesis
    unfolding read_call_def printed Let_def trim_prefix_append trim_suffix_append
    using open_at has_prefix_append [of ?first "(function @ ''('' @ arguments) @ ?final"] by (simp only: simp_thms if_False option.case) simp
qed

lemma helper_promise:
  "ctx \<in> {ContextHTMLText, ContextRCDATA, ContextAttr, ContextURL, ContextJS, ContextCSS} \<Longrightarrow>
   promise_kept (helper_name ctx) x = trusted_ok ctx x"
  by (cases x) (auto simp: promise_kept_def trusted_ok_def helper_name_def)

text \<open>The statement printed for a node does what the node stands for.\<close>

lemma performs_call:
  assumes "CHR ''('' \<notin> set function"
  shows "performs sprint imps names (checked_call names (bi_sando imps @ ''.'' @ function @ ''('' @ arguments @ '')'')) out =
        (if function = ''WriteString'' then has_prefix (gn_writer names @ '', '') arguments
               \<and> go_unquote (trim_prefix (gn_writer names @ '', '') arguments) = Some out
         else if function = ''Render'' then has_prefix (gn_context names @ '', '' @ gn_writer names @ '', '') arguments \<and> lex_run out LData = LData
         else has_prefix (gn_writer names @ '', '') arguments \<and> helper_writes sprint function out)"
proof -
  have "checked_call names c \<noteq> []" for c by (simp add: checked_call_def)
  then show ?thesis unfolding performs_def read_checked_call [OF assms] by (simp only: if_False option.case prod.case)
qed

lemma performs_node:
  assumes print: "printable_ok is_print" and kind: "node_kind n \<noteq> NodeStatement"
    and ctx: "node_kind n = NodeExpression \<Longrightarrow>
      node_context n \<in> {ContextHTMLText, ContextRCDATA, ContextAttr, ContextURL, ContextJS, ContextCSS}"
  shows "performs sprint imps names (node_code (go_quote is_print) imps names n) out =
    (case node_kind n of
       NodeText \<Rightarrow> out = node_text n
     | NodeExpression \<Rightarrow> (\<exists>x. trusted_ok (node_context n) x \<and> writes sprint (node_context n) x out)
     | NodeComponent \<Rightarrow> lex_run out LData = LData
     | _ \<Rightarrow> out = [])"
proof (cases "node_kind n")
  case NodeText
  show ?thesis
  proof (cases "node_text n = []")
    case True
    then show ?thesis using NodeText by (simp add: node_code_def performs_def)
  next
    case False
    let ?w = "gn_writer names @ '', ''" and ?lit = "go_quote is_print (node_text n)"
    have code: "node_code (go_quote is_print) imps names n
        = checked_call names (bi_sando imps @ ''.'' @ ''WriteString'' @ ''('' @ (?w @ ?lit) @ '')'')"
      using NodeText False by (simp add: node_code_def)
    have plain: "CHR ''('' \<notin> set ''WriteString''" by simp
    show ?thesis
      unfolding code performs_call [OF plain] trim_prefix_append unquote_quote [OF print]
      using NodeText has_prefix_append [of ?w ?lit] by (simp only: if_True) auto
  qed
next
  case NodeExpression
  let ?w = "gn_writer names @ '', ''" and ?e = "''('' @ node_text n @ '')''" and ?f = "helper_name (node_context n)"
  have code: "node_code (go_quote is_print) imps names n
      = checked_call names (bi_sando imps @ ''.'' @ ?f @ ''('' @ (?w @ ?e) @ '')'')"
    using NodeExpression by (simp add: node_code_def)
  have plain: "CHR ''('' \<notin> set ?f" "?f \<noteq> ''WriteString''" "?f \<noteq> ''Render''"
    by (cases "node_context n"; simp add: helper_name_def)+
  have "performs sprint imps names (node_code (go_quote is_print) imps names n) out = helper_writes sprint ?f out"
    unfolding code performs_call [OF plain(1)] if_not_P [OF plain(2)] if_not_P [OF plain(3)]
    using has_prefix_append [of ?w ?e] by blast
  then show ?thesis
    using NodeExpression helper_promise [OF ctx [OF NodeExpression]] by (auto simp: helper_writes_def writes_def)
next
  case NodeComponent
  let ?w = "gn_context names @ '', '' @ gn_writer names @ '', ''" and ?e = "''('' @ node_text n @ '')''"
  have code: "node_code (go_quote is_print) imps names n
      = checked_call names (bi_sando imps @ ''.'' @ ''Render'' @ ''('' @ (?w @ ?e) @ '')'')"
    using NodeComponent by (simp add: node_code_def)
  have plain: "CHR ''('' \<notin> set ''Render''" "''Render'' \<noteq> ''WriteString''" by simp_all
  have "performs sprint imps names (node_code (go_quote is_print) imps names n) out = (lex_run out LData = LData)"
    unfolding code performs_call [OF plain(1)] if_not_P [OF plain(2)] if_P [OF refl]
    using has_prefix_append [of ?w ?e] by blast
  then show ?thesis using NodeComponent by simp
next
  case NodeComment
  then show ?thesis by (simp add: node_code_def performs_def)
next
  case NodeStatement
  then show ?thesis using kind by simp
qed

subsection \<open>Executions of a compiled component\<close>

text \<open>
  The text printed for a node of a file, and the executions of the generated function: sequences of the
  pieces between its Go statements, in each of which every printed statement does what its text says.
\<close>

definition statement_text :: "backend_env \<Rightarrow> source_file \<Rightarrow> renderer_node \<Rightarrow> bytes" where
  "statement_text env file n =
     node_code (go_quote (be_is_print env)) (fst (prepare_imports env file))
       (generated_names (be_identifiers env (file_source file))) n"

definition component_runs ::
  "('v \<Rightarrow> bytes) \<Rightarrow> backend_env \<Rightarrow> source_file \<Rightarrow> (renderer_node \<times> bytes) list list \<Rightarrow> bool" where
  "component_runs sprint env file execution =
     (\<forall>run\<in>set execution. map fst run \<in> set (segments (file_nodes file))
        \<and> (\<forall>(n, out)\<in>set run. performs sprint (fst (prepare_imports env file))
              (generated_names (be_identifiers env (file_source file))) (statement_text env file n) out))"

definition generated_body :: "backend_env \<Rightarrow> source_file \<Rightarrow> bytes" where
  \<comment> \<open>the statements in order, each under its line directive\<close>
  "generated_body env file =
     concat (map (\<lambda>n. if node_kind n = NodeComment then []
         else line_directive (sanitize_directive_path (file_mapping file)) (node_pos n) @ statement_text env file n) (file_nodes file))"

definition generated_program :: "backend_env \<Rightarrow> source_file \<Rightarrow> bytes" where
  \<comment> \<open>the whole program: nothing but the statements between the opening of the component function and its return\<close>
  "generated_program env file =
     (preamble env file @ ''import ('' @ [LF]
        @ concat (map (import_code (go_quote (be_is_print env))) (bi_all (fst (prepare_imports env file)))) @ '')'' @ [LF, LF]
        @ function_code file (fst (prepare_imports env file)) (generated_names (be_identifiers env (file_source file))))
     @ generated_body env file @ ''return nil'' @ [LF] @ ''})'' @ [LF] @ ''}'' @ [LF]"

lemma generated_code:
  assumes "generate_go env file = (Some c, ds)"
  shows "be_format env (generated_program env file) = Inr c"
proof -
  have "be_format env (raw_code env file (fst (prepare_imports env file))) = Inr c"
    using assms by (auto simp: generate_go_def split: prod.splits if_splits sum.splits)
  moreover have "raw_code env file (fst (prepare_imports env file)) = generated_program env file"
    unfolding raw_code_def Let_def generated_program_def generated_body_def statement_text_def body_code_def
    by (simp only: append_assoc)
  ultimately show ?thesis by simp
qed

lemma accepted_expression_context:
  assumes acc: "analyze_contexts env file = Some (file', [])"
    and n: "n \<in> set (file_nodes file')" "node_kind n = NodeExpression"
  shows "node_context n \<in> {ContextHTMLText, ContextRCDATA, ContextAttr, ContextURL, ContextJS, ContextCSS}"
proof -
  obtain nodes a where run: "analyze_nodes env (file_path file) (new_position_table (file_source file)) 0
      (file_nodes file) initial_analyzer = (nodes, Inr a)" and f: "file' = file\<lparr>file_nodes := nodes\<rparr>"
    using acc by (rule accepted_run)
  have all: "list_all2 (\<lambda>n n'. annotated n (node_context n')) (file_nodes file) nodes"
    using analyze_nodes_Inr [OF initial_ok run] by simp
  obtain i where i: "i < length nodes" "n = nodes ! i"
    using n(1) f by (auto simp: in_set_conv_nth)
  have len: "length (file_nodes file) = length nodes" using all by (rule list_all2_lengthD)
  have kinds: "map node_kind nodes = map node_kind (file_nodes file)"
    using arg_cong [where f = "map fst", OF analyze_nodes_keep [of env "file_path file" "new_position_table (file_source file)" 0 "file_nodes file" initial_analyzer]] run
    by (simp add: comp_def)
  have "node_kind (file_nodes file ! i) = NodeExpression"
    using arg_cong [where f = "\<lambda>ks. ks ! i", OF kinds] i len n(2) by simp
  moreover have "annotated (file_nodes file ! i) (node_context (nodes ! i))"
    using all i len by (simp add: list_all2_conv_all_nth)
  ultimately show ?thesis using i(2) by (simp add: annotated_def)
qed

lemma segments_members: "s \<in> set (segments ns) \<Longrightarrow> n \<in> set s \<Longrightarrow> n \<in> set ns \<and> node_kind n \<noteq> NodeStatement"
proof (induction ns arbitrary: s)
  case Nil
  then show ?case by simp
next
  case (Cons m ns)
  obtain t ts where ts: "segments ns = t # ts" by (meson neq_Nil_conv segments_nonempty)
  have below: "n \<in> set ns \<and> node_kind n \<noteq> NodeStatement" if "x = t \<or> x \<in> set ts" "n \<in> set x" for x
    using Cons.IH [of x] ts that by auto
  show ?case
  proof (cases "node_kind m = NodeStatement")
    case True
    then have "s = [] \<or> s = t \<or> s \<in> set ts" using Cons.prems(1) ts by auto
    then show ?thesis using Cons.prems(2) below [of s] by auto
  next
    case False
    then have "s = m # t \<or> s \<in> set ts" using Cons.prems(1) ts by auto
    then show ?thesis using Cons.prems(2) False below [of s] below [of t] by auto
  qed
qed

lemma performed_confined:
  assumes kinds: "case node_kind n of
       NodeText \<Rightarrow> out = node_text n
     | NodeExpression \<Rightarrow> (\<exists>x. trusted_ok (node_context n) x \<and> writes sprint (node_context n) x out)
     | NodeComponent \<Rightarrow> lex_run out LData = LData
     | _ \<Rightarrow> out = []"
    and ctx: "node_kind n = NodeExpression \<Longrightarrow>
      node_context n \<in> {ContextHTMLText, ContextRCDATA, ContextAttr, ContextURL, ContextJS, ContextCSS}"
  shows "confined n out"
  using kinds helper_confined [of n "node_context n" _ sprint out] ctx
  by (cases "node_kind n") (auto simp: confined_def)

lemma compiled_execution:
  assumes tools: "tools_report (be_tools env)" and print: "printable_ok (be_is_print env)"
    and compiled: "compile_with_mapping env path source mapping = (Some c, ds)"
    and f: "compiled_source c = Some file" and runs: "component_runs sprint env file execution"
  shows "be_format env (generated_program env file) = Inr (compiled_code c)
    \<and> contexts_hold (concat execution) LData
    \<and> (\<forall>(n, out)\<in>set (concat execution).
         (node_kind n = NodeText \<longrightarrow> out = node_text n)
         \<and> (node_kind n = NodeExpression \<longrightarrow> (\<exists>x. trusted_ok (node_context n) x \<and> writes sprint (node_context n) x out)))"
proof -
  obtain g where g: "analyze_contexts (be_go env) (g\<lparr>file_mapping := mapping\<rparr>) = Some (file, [])"
      "fst (generate_go env file) = Some (compiled_code c)"
    using compile_result [OF tools compiled] f by auto
  have done_right: "(case node_kind n of
       NodeText \<Rightarrow> out = node_text n
     | NodeExpression \<Rightarrow> (\<exists>x. trusted_ok (node_context n) x \<and> writes sprint (node_context n) x out)
     | NodeComponent \<Rightarrow> lex_run out LData = LData
     | _ \<Rightarrow> out = []) \<and> confined n out"
    if run: "run \<in> set execution" and n: "(n, out) \<in> set run" for run n out
  proof -
    have "n \<in> set (map fst run)" using n by force
    then have member: "n \<in> set (file_nodes file)" "node_kind n \<noteq> NodeStatement"
      using segments_members [of "map fst run" "file_nodes file" n] runs run by (auto simp: component_runs_def)
    note ctx = accepted_expression_context [OF g(1) member(1)]
    have "performs sprint (fst (prepare_imports env file)) (generated_names (be_identifiers env (file_source file)))
        (statement_text env file n) out"
      using runs run n by (fastforce simp: component_runs_def)
    then have kinds: "case node_kind n of
       NodeText \<Rightarrow> out = node_text n
     | NodeExpression \<Rightarrow> (\<exists>x. trusted_ok (node_context n) x \<and> writes sprint (node_context n) x out)
     | NodeComponent \<Rightarrow> lex_run out LData = LData
     | _ \<Rightarrow> out = []"
      unfolding statement_text_def by (subst (asm) performs_node [OF print member(2)]) (erule ctx)
    moreover have "confined n out" by (rule performed_confined [OF kinds]) (erule ctx)
    ultimately show ?thesis by blast
  qed
  have "confined_run run" if "run \<in> set execution" for run
    using done_right [OF that] by (auto simp: confined_run_def list_all_iff)
  then have "contexts_hold (concat execution) LData"
    by (intro accepted_execution [OF g(1)]) (use runs in \<open>auto simp: component_runs_def\<close>)
  moreover have "\<forall>(n, out)\<in>set (concat execution).
         (node_kind n = NodeText \<longrightarrow> out = node_text n)
         \<and> (node_kind n = NodeExpression \<longrightarrow> (\<exists>x. trusted_ok (node_context n) x \<and> writes sprint (node_context n) x out))"
  proof (intro ballI)
    fix p
    assume "p \<in> set (concat execution)"
    then obtain run where run: "run \<in> set execution" "p \<in> set run" by auto
    then show "case p of (n, out) \<Rightarrow> (node_kind n = NodeText \<longrightarrow> out = node_text n)
         \<and> (node_kind n = NodeExpression \<longrightarrow> (\<exists>x. trusted_ok (node_context n) x \<and> writes sprint (node_context n) x out))"
      using done_right [of run "fst p" "snd p"] by (cases p) (auto split: node_kind.splits)
  qed
  moreover have "be_format env (generated_program env file) = Inr (compiled_code c)"
    using generated_code [of env "file" "compiled_code c" "snd (generate_go env file)"] g(2) by (metis prod.collapse)
  ultimately show ?thesis by blast
qed

text \<open>
  C1: A compiled component escapes every value for the place it is written to, end to end. Take any source
  that compiles. The generated code is the formatted text of a program whose component function consists
  of the statements printed for the nodes of the template, in order, and its return. Take any execution of these statements (any sequence of the pieces
  between the Go statements of the template, each statement doing what its text says: a helper call
  writes what the runtime function of that name writes for some value, \<open>WriteString\<close> the value of its
  literal, \<open>Render\<close> a fragment that ends in text, and explicitly trusted values keep their promise). Then
  every static text is written as it stands, every expression is written by the helper of its context, and
  a tokenizer reading the document is, at every expression, exactly in that context, in text at every
  component, and in text at the end. (The Go toolchain reports why it rejects a header, and
  \<open>unicode.IsPrint\<close> rejects the line feed.)
\<close>
theorem compiled_component_escapes:
  assumes "tools_report (be_tools env)" and "printable_ok (be_is_print env)"
    and "compile_with_mapping env path source mapping = (Some c, ds)"
    and "compiled_source c = Some file" and "component_runs sprint env file execution"
  shows "be_format env (generated_program env file) = Inr (compiled_code c)
    \<and> contexts_hold (concat execution) LData
    \<and> (\<forall>(n, out)\<in>set (concat execution).
         (node_kind n = NodeText \<longrightarrow> out = node_text n)
         \<and> (node_kind n = NodeExpression \<longrightarrow> (\<exists>x. trusted_ok (node_context n) x \<and> writes sprint (node_context n) x out)))"
  by (rule compiled_execution [OF assms])

text \<open>A whole template, compiled and executed.\<close>

definition sample_template :: bytes where
  "sample_template = ''<?sando go func A()?><p><?= v ?></p>''"

definition sample_at :: "nat \<Rightarrow> source_position" where
  "sample_at n = position_at (new_position_table sample_template) (int n)"

definition sample_parsed :: "output_context \<Rightarrow> source_file" where
  "sample_parsed ctx =
     \<lparr>file_path = ''a.sando'', file_mapping = ''a.sando'', file_package = ''p'', file_name = ''A'',
      file_type_params = [], file_params = ''()'', file_imports = [],
      file_nodes = [\<lparr>node_kind = NodeText, node_text = ''<p>'', node_context = ContextUnset, node_pos = sample_at 21\<rparr>,
        \<lparr>node_kind = NodeExpression, node_text = ''v'', node_context = ctx, node_pos = sample_at 28\<rparr>,
        \<lparr>node_kind = NodeText, node_text = ''</p>'', node_context = ContextUnset, node_pos = sample_at 32\<rparr>],
      file_source = sample_template, file_header_end = 21, file_function_pos = sample_at 11\<rparr>"

lemma sample_tokens:
  "tokenize_template (\<lambda>_. None) ''a.sando'' (new_position_table sample_template) 21 ''<p><?= v ?></p>''
   = (file_nodes (sample_parsed ContextNone), [])"
  apply (subst tokenize_template.simps, simp add: go_eval sample_parsed_def sample_at_def)
  apply (subst tokenize_template.simps, simp add: go_eval)
  apply (subst tokenize_template.simps, simp add: go_eval)
  done

lemma sample_header: "drop 21 sample_template = ''<p><?= v ?></p>''"
  by (simp add: sample_template_def)

lemma sample_located:
  "locate_header ''a.sando'' (new_position_table sample_template) sample_template = Inr (''func A()'', 11, 19)"
  by (simp add: sample_template_def locate_header_def go_eval)

lemma sample_header_parse:
  "parse_header sample_tools q ''a.sando'' ''func A()'' 11 (new_position_table sample_template)
   = (Some \<lparr>ph_package = ''p'', ph_name = ''A'', ph_type_params = [], ph_params = ''()'', ph_imports = [],
            ph_function_pos = sample_at 11\<rparr>, [])"
  by (simp add: sample_tools_def sample_at_def go_eval)

lemma sample_parse_expr: "go_parse_expr sample_tools = (\<lambda>_. None)"
  by (simp add: sample_tools_def)

lemma sample_parse:
  "parse_source sample_tools q ''a.sando'' sample_template = (Some (sample_parsed ContextNone), [])"
  using sample_tokens sample_header
  by (simp add: parse_source_def sample_located sample_header_parse sample_parse_expr sample_parsed_def path_base_def)


lemma sample_analysis:
  "analyze_contexts ascii_env (sample_parsed ContextNone) = Some (sample_parsed ContextHTMLText, [])"
  by (simp add: sample_parsed_def go_eval)

lemma sample_generated:
  "\<exists>code. generate_go sample_backend (sample_parsed ContextHTMLText) = (Some code, [])"
  by (simp add: generate_go_def sample_backend_def sample_parsed_def prepare_imports_def go_eval)

lemma sample_audit: "has_errors (audit_trust_calls sample_backend (sample_parsed ContextHTMLText)) = False"
  by simp

lemma sample_mapping: "(sample_parsed ctx)\<lparr>file_mapping := ''a.sando''\<rparr> = sample_parsed ctx"
  by (simp add: sample_parsed_def)

lemma sample_compiled:
  "\<exists>code digest. compile_with_mapping sample_backend ''a.sando'' sample_template ''a.sando''
     = (Some \<lparr>compiled_source_path = ''a.sando'', compiled_output_path = ''a.sando.go'', compiled_package = ''p'',
         compiled_component = ''A'', compiled_digest = digest, compiled_code = code,
         compiled_source = Some (sample_parsed ContextHTMLText), compiled_source_mode = 0\<rparr>, [])"
proof -
  have tools: "be_tools sample_backend = sample_tools" "be_go sample_backend = ascii_env"
    by (simp_all add: sample_backend_def)
  have audit: "audit_trust_calls sample_backend (sample_parsed ContextHTMLText) = []"
    by (simp add: sample_backend_def sample_parsed_def go_eval)
  obtain code where "generate_go sample_backend (sample_parsed ContextHTMLText) = (Some code, [])"
    using sample_generated by blast
  then show ?thesis
    by (simp add: compile_with_mapping_def compile_file_def tools sample_parse sample_mapping sample_analysis audit
        Let_def sort_diagnostics_def) (simp add: sample_parsed_def)
qed

lemma sample_runs:
  "component_runs id sample_backend (sample_parsed ContextHTMLText)
     [zip (file_nodes (sample_parsed ContextHTMLText)) [''<p>'', html_escape (normalize_text ''a<b''), ''</p>'']]"
proof -
  have print: "printable_ok (be_is_print sample_backend)" by (simp add: printable_ok_def sample_backend_def)
  have node: "performs id imps names (node_code (go_quote (be_is_print sample_backend)) imps names n) out"
    if "node_kind n \<noteq> NodeStatement" "node_kind n = NodeExpression \<Longrightarrow> node_context n = ContextHTMLText"
      "case node_kind n of NodeText \<Rightarrow> out = node_text n
         | NodeExpression \<Rightarrow> (\<exists>x. trusted_ok (node_context n) x \<and> writes id (node_context n) x out)
         | NodeComponent \<Rightarrow> lex_run out LData = LData | _ \<Rightarrow> out = []" for imps names n out
    by (subst performs_node [OF print that(1)]) (use that in auto)
  have "\<exists>x. trusted_ok ContextHTMLText x \<and> writes id ContextHTMLText x (html_escape (normalize_text ''a<b''))"
    using sample_writes_text [of "''a<b''"] by (intro exI [of _ "Ordinary ''a<b''"]) (simp add: trusted_ok_def del: html_escape_def)
  then show ?thesis
    unfolding component_runs_def statement_text_def
    by (auto simp: sample_parsed_def simp del: html_escape_def intro!: node)
qed

theorem compiled_component_escapes_witness:
  "\<exists>c ds. compile_with_mapping sample_backend ''a.sando'' sample_template ''a.sando'' = (Some c, ds)
     \<and> contexts_hold (concat [zip (file_nodes (sample_parsed ContextHTMLText))
          [''<p>'', html_escape (normalize_text ''a<b''), ''</p>'']]) LData"
proof -
  obtain c ds where c: "compile_with_mapping sample_backend ''a.sando'' sample_template ''a.sando'' = (Some c, ds)"
      "compiled_source c = Some (sample_parsed ContextHTMLText)"
    using sample_compiled by fastforce
  have print: "printable_ok (be_is_print sample_backend)" by (simp add: printable_ok_def sample_backend_def)
  show ?thesis using compiled_component_escapes [OF sample_backend_report print c sample_runs] c(1) by blast
qed

end
