(* ===== verification/Component_Cycles.thy ===== *)
theory Component_Cycles
  imports Go_Paths Renderer_IR Diagnostics
begin

section \<open>Duplicate components and static cycles: detectComponentCycles of operation.go\<close>

text \<open>
  The check over all compiled files: components declared twice, and components that statically call
  each other in a circle. The graph has the declared components as its nodes and an edge for every
  component tag whose expression calls, at its root, a component of the same package; the search is
  depth first with a stack of the components being visited. \<open>parser.ParseExpr\<close> is the parameter
  \<open>parse\<close>, from a text to the shape of its expression (\<open>None\<close>: a syntax error).
\<close>

subsection \<open>Expressions\<close>

datatype go_expr =
    ParenExpr go_expr
  | CallExpr go_expr
  | IndexExpr go_expr
  | IndexListExpr go_expr
  | Ident bytes
  | OtherExpr

fun root_called_identifier :: "go_expr \<Rightarrow> bytes" where
  "root_called_identifier (ParenExpr e) = root_called_identifier e"
| "root_called_identifier (CallExpr e) = root_called_identifier e"
| "root_called_identifier (IndexExpr e) = root_called_identifier e"
| "root_called_identifier (IndexListExpr e) = root_called_identifier e"
| "root_called_identifier (Ident name) = name"
| "root_called_identifier OtherExpr = []"

subsection \<open>Keys and edges\<close>

datatype component_key =
  ComponentKey (key_directory: bytes) (key_package: bytes) (key_name: bytes)

definition key_order :: "component_key \<Rightarrow> bytes \<times> bytes \<times> bytes" where
  "key_order k = (key_directory k, key_package k, key_name k)"

lemma key_order_inj: "key_order a = key_order b \<Longrightarrow> a = b"
  by (cases a; cases b) (simp add: key_order_def)

text \<open>The order the keys are visited in.\<close>

instantiation component_key :: linorder
begin

definition less_eq_component_key :: "component_key \<Rightarrow> component_key \<Rightarrow> bool" where
  "less_eq_component_key a b = (key_order a \<le> key_order b)"

definition less_component_key :: "component_key \<Rightarrow> component_key \<Rightarrow> bool" where
  "less_component_key a b = (key_order a < key_order b)"

instance
  by standard (auto simp: less_eq_component_key_def less_component_key_def dest: key_order_inj)

end

record component_edge =
  edge_target :: component_key
  edge_position :: source_position

type_synonym declared = "(component_key \<times> compiled_file) list"
type_synonym call_graph = "(component_key \<times> component_edge list) list"

definition file_key :: "compiled_file \<Rightarrow> component_key" where
  "file_key f = ComponentKey (path_clean (path_dir (compiled_source_path f)))
     (compiled_package f) (compiled_component f)"

definition duplicate_diagnostic :: "compiled_file \<Rightarrow> compiled_file \<Rightarrow> compiled_file \<Rightarrow> diagnostic" where
  \<comment> \<open>reported at the first file, naming the second; the component's name is the new file's\<close>
  "duplicate_diagnostic file at other =
     new_diagnostic (compiled_source_path at) position_one ''HIM1500''
       (''component '' @ compiled_component file @ '' is also declared by '' @ compiled_source_path other)"

fun register_files :: "declared \<Rightarrow> compiled_file list \<Rightarrow> declared \<times> diagnostic list" where
  "register_files m [] = (m, [])"
| "register_files m (f # fs) =
     (case map_of m (file_key f) of
        Some previous \<Rightarrow>
          (let (m', ds) = register_files m fs
           in (m', duplicate_diagnostic f previous f # duplicate_diagnostic f f previous # ds))
      | None \<Rightarrow> register_files (m @ [(file_key f, f)]) fs)"

definition node_edges :: "(bytes \<Rightarrow> go_expr option) \<Rightarrow> declared \<Rightarrow> component_key \<Rightarrow> renderer_node \<Rightarrow> component_edge list" where
  \<comment> \<open>the edge of one node, if it has one\<close>
  "node_edges parse m key node =
     (if node_kind node \<noteq> NodeComponent then []
      else (case parse (node_text node) of
          None \<Rightarrow> []
        | Some e \<Rightarrow>
            (let called = root_called_identifier e;
                 target = ComponentKey (key_directory key) (key_package key) called
             in if called = [] then []
                else if map_of m target = None then []
                else [\<lparr>edge_target = target, edge_position = node_pos node\<rparr>])))"

definition component_edges :: "(bytes \<Rightarrow> go_expr option) \<Rightarrow> declared \<Rightarrow> component_key \<Rightarrow> compiled_file \<Rightarrow> component_edge list" where
  "component_edges parse m key file =
     (case compiled_source file of
        None \<Rightarrow> []
      | Some source \<Rightarrow>
          sort_key (\<lambda>e. key_name (edge_target e)) (concat (map (node_edges parse m key) (file_nodes source))))"

definition call_edges :: "(bytes \<Rightarrow> go_expr option) \<Rightarrow> declared \<Rightarrow> call_graph" where
  "call_edges parse m = map (\<lambda>(key, file). (key, component_edges parse m key file)) m"

definition edges_of :: "call_graph \<Rightarrow> component_key \<Rightarrow> component_edge list" where
  "edges_of g key = (case map_of g key of Some es \<Rightarrow> es | None \<Rightarrow> [])"

subsection \<open>The search\<close>

text \<open>A component without a mark is unvisited.\<close>

datatype visit_mark = Visiting | Visited

record visit_state =
  vs_marks :: "component_key \<rightharpoonup> visit_mark"
  vs_stack :: "component_key list"
  vs_reported :: "component_key list"
  vs_diagnostics :: "diagnostic list"

definition enter :: "component_key \<Rightarrow> visit_state \<Rightarrow> visit_state" where
  "enter key st = st\<lparr>vs_marks := (vs_marks st)(key \<mapsto> Visiting), vs_stack := vs_stack st @ [key]\<rparr>"

definition leave :: "component_key \<Rightarrow> visit_state \<Rightarrow> visit_state" where
  "leave key st = st\<lparr>vs_stack := butlast (vs_stack st), vs_marks := (vs_marks st)(key \<mapsto> Visited)\<rparr>"

definition member_diagnostic :: "declared \<Rightarrow> call_graph \<Rightarrow> bytes \<Rightarrow> component_key \<Rightarrow> component_key \<Rightarrow> diagnostic" where
  \<comment> \<open>a member of a cycle and the one after it; an absent file is Go's zero value\<close>
  "member_diagnostic m g names member next =
     new_diagnostic (case map_of m member of Some f \<Rightarrow> compiled_source_path f | None \<Rightarrow> [])
       (case find (\<lambda>e. edge_target e = next) (edges_of g member) of Some e \<Rightarrow> edge_position e | None \<Rightarrow> position_one)
       ''HIM1501'' (''static component cycle detected: ['' @ names @ '']'')"

fun report_members :: "declared \<Rightarrow> call_graph \<Rightarrow> bytes \<Rightarrow> component_key list \<Rightarrow> visit_state \<Rightarrow> visit_state" where
  "report_members m g names (member # next # rest) st =
     report_members m g names (next # rest)
       (if member \<in> set (vs_reported st) then st
        else st\<lparr>vs_reported := member # vs_reported st,
                vs_diagnostics := vs_diagnostics st @ [member_diagnostic m g names member next]\<rparr>)"
| "report_members m g names _ st = st"

definition report_cycle :: "declared \<Rightarrow> call_graph \<Rightarrow> component_key \<Rightarrow> visit_state \<Rightarrow> visit_state" where
  "report_cycle m g target st =
     (let cycle = dropWhile (\<lambda>k. k \<noteq> target) (vs_stack st) @ [target]
      in report_members m g (join_with '' '' (map key_name cycle)) cycle st)"

lemma report_members_marks [simp]: "vs_marks (report_members m g names cycle st) = vs_marks st"
  by (induction m g names cycle st rule: report_members.induct) auto

lemma report_members_stack [simp]: "vs_stack (report_members m g names cycle st) = vs_stack st"
  by (induction m g names cycle st rule: report_members.induct) auto

text \<open>The components of the graph without a mark: what the search still has to do.\<close>

definition unvisited :: "call_graph \<Rightarrow> visit_state \<Rightarrow> component_key set" where
  "unvisited g st = {k \<in> fst ` set g. vs_marks st k = None}"

lemma finite_unvisited [simp]: "finite (unvisited g st)"
  by (simp add: unvisited_def)

function visit_edges ::
  "declared \<Rightarrow> call_graph \<Rightarrow> component_key \<Rightarrow> component_edge list \<Rightarrow> visit_state \<Rightarrow> visit_state" where
  \<comment> \<open>\<open>visit\<close> from its loop on: the edges that are left\<close>
  "visit_edges m g key [] st = leave key st"
| "visit_edges m g key (e # es) st =
     (case vs_marks st (edge_target e) of
        None \<Rightarrow> visit_edges m g key es
                  (visit_edges m g (edge_target e) (edges_of g (edge_target e)) (enter (edge_target e) st))
      | Some Visited \<Rightarrow> visit_edges m g key es st
      | Some Visiting \<Rightarrow> visit_edges m g key es (report_cycle m g (edge_target e) st))"
  by pat_completeness auto

lemma unvisited_report [simp]: "unvisited g (report_cycle m g t st) = unvisited g st"
  by (simp add: unvisited_def report_cycle_def Let_def)

lemma unvisited_enter: "unvisited g (enter t st) = unvisited g st - {t}"
  by (auto simp: unvisited_def enter_def)

lemma unvisited_leave: "unvisited g (leave k st) \<subseteq> unvisited g st"
  by (auto simp: unvisited_def leave_def)

lemma unvisited_visit:
  "visit_edges_dom (m, g, key, es, st) \<Longrightarrow> unvisited g (visit_edges m g key es st) \<subseteq> unvisited g st"
proof (induction m g key es st rule: visit_edges.pinduct)
  case (1 m g key st)
  then show ?case using unvisited_leave by (simp add: visit_edges.psimps)
next
  case (2 m g key e es st)
  then show ?case
    using unvisited_enter [of g "edge_target e" st]
    by (auto simp: visit_edges.psimps split: option.splits visit_mark.splits)
qed

termination visit_edges
proof (relation "inv_image (finite_psubset <*lex*> less_than)
    (\<lambda>(m, g, key, es, st). (unvisited g st, length es))", goal_cases)
  case 1
  then show ?case by auto
next
  case (2 m g key e es st)
  show ?case
  proof (cases "edge_target e \<in> fst ` set g")
    case True
    then have "edge_target e \<in> unvisited g st"
      using 2 by (simp add: unvisited_def)
    then have "unvisited g (enter (edge_target e) st) \<subset> unvisited g st"
      by (auto simp: unvisited_enter)
    then show ?thesis by (simp add: finite_psubset_def)
  next
    case False
    then have "map_of g (edge_target e) = None" and "edge_target e \<notin> unvisited g st"
      by (simp_all add: map_of_eq_None_iff unvisited_def)
    then show ?thesis by (simp add: edges_of_def unvisited_enter)
  qed
next
  case (3 m g key e es st)
  then have "unvisited g (visit_edges m g (edge_target e) (edges_of g (edge_target e)) (enter (edge_target e) st))
      \<subseteq> unvisited g st"
    using unvisited_visit unvisited_enter by blast
  then show ?case by (auto simp: finite_psubset_def)
qed (auto simp: finite_psubset_def)

definition initial_visit :: visit_state where
  "initial_visit = \<lparr>vs_marks = Map.empty, vs_stack = [], vs_reported = [], vs_diagnostics = []\<rparr>"

fun visit_keys :: "declared \<Rightarrow> call_graph \<Rightarrow> component_key list \<Rightarrow> visit_state \<Rightarrow> visit_state" where
  "visit_keys m g [] st = st"
| "visit_keys m g (k # ks) st =
     visit_keys m g ks (if vs_marks st k = None then visit_edges m g k (edges_of g k) (enter k st) else st)"

definition detect_component_cycles :: "(bytes \<Rightarrow> go_expr option) \<Rightarrow> compiled_file list \<Rightarrow> diagnostic list" where
  "detect_component_cycles parse files =
     (let (m, duplicates) = register_files [] files;
          st = visit_keys m (call_edges parse m) (sort (map fst m)) initial_visit
      in sort_diagnostics (duplicates @ vs_diagnostics st))"

declare file_key_def [go_eval] duplicate_diagnostic_def [go_eval]
  node_edges_def [go_eval] component_edges_def [go_eval] call_edges_def [go_eval] edges_of_def [go_eval]
  enter_def [go_eval] leave_def [go_eval] member_diagnostic_def [go_eval] report_cycle_def [go_eval]
  initial_visit_def [go_eval] detect_component_cycles_def [go_eval] less_eq_component_key_def [go_eval]
  key_order_def [go_eval]

subsection \<open>Depth-first search on a closed graph\<close>

text \<open>
  The contract of the edges: every edge leads to a declared component. The relation of a graph, and
  the diagnostic of a component on a cycle: it stands at one of the component's tags that lie on it.
\<close>

definition calls_of :: "call_graph \<Rightarrow> (component_key \<times> component_key) set" where
  "calls_of g = {(k, edge_target e) |k e. e \<in> set (edges_of g k)}"

definition member_report :: "declared \<Rightarrow> call_graph \<Rightarrow> component_key \<Rightarrow> diagnostic \<Rightarrow> bool" where
  "member_report m g k d =
     (\<exists>e names path. e \<in> set (edges_of g k) \<and> (edge_target e, k) \<in> (calls_of g)\<^sup>*
        \<and> (\<forall>f. map_of m k = Some f \<longrightarrow> path = compiled_source_path f)
        \<and> d = new_diagnostic path (edge_position e) ''HIM1501'' names)"

definition stack_path :: "call_graph \<Rightarrow> component_key list \<Rightarrow> bool" where
  "stack_path g ks = successively (\<lambda>a b. (a, b) \<in> calls_of g) ks"

text \<open>
  The invariant: the components being visited are the stack, which is a path of the graph; every
  reported component has one diagnostic and lies on a cycle; and as long as nothing is reported, the
  visited components are closed under calls and lie on no cycle.
\<close>

definition visit_ok :: "declared \<Rightarrow> call_graph \<Rightarrow> visit_state \<Rightarrow> bool" where
  "visit_ok m g st =
     (distinct (vs_stack st) \<and> (\<forall>k. vs_marks st k = Some Visiting \<longleftrightarrow> k \<in> set (vs_stack st))
      \<and> stack_path g (vs_stack st)
      \<and> distinct (vs_reported st)
      \<and> list_all2 (member_report m g) (rev (vs_reported st)) (vs_diagnostics st)
      \<and> (vs_reported st = [] \<longrightarrow> (\<forall>k. vs_marks st k = Some Visited \<longrightarrow>
           (k, k) \<notin> (calls_of g)\<^sup>+ \<and> (\<forall>k'. (k, k') \<in> calls_of g \<longrightarrow> vs_marks st k' = Some Visited))))"

lemma stack_path_rtrancl: "stack_path g (a # ks) \<Longrightarrow> k \<in> set (a # ks) \<Longrightarrow> (a, k) \<in> (calls_of g)\<^sup>*"
proof (induction ks arbitrary: a)
  case (Cons b ks)
  then show ?case
    by (cases "k = a") (auto simp: stack_path_def intro: converse_rtrancl_into_rtrancl)
qed simp

lemma stack_path_last: "stack_path g ks \<Longrightarrow> k \<in> set ks \<Longrightarrow> (k, last ks) \<in> (calls_of g)\<^sup>*"
proof (induction ks)
  case (Cons a ks)
  then show ?case
    using stack_path_rtrancl [of g a ks "last (a # ks)"]
    by (cases ks) (auto simp: stack_path_def)
qed simp

lemma stack_path_snoc:
  "stack_path g (ks @ [k]) = (stack_path g ks \<and> (ks \<noteq> [] \<longrightarrow> (last ks, k) \<in> calls_of g))"
  by (auto simp: stack_path_def successively_append_iff)

lemma closed_trancl: "(k, k') \<in> r\<^sup>+ \<Longrightarrow> k \<in> V \<Longrightarrow> r `` V \<subseteq> V \<Longrightarrow> k' \<in> V"
  by (induction rule: trancl_induct) auto

lemma rtrancl_step: "(a, b) \<in> calls_of g \<Longrightarrow> (b, a) \<in> (calls_of g)\<^sup>* \<Longrightarrow> (a, a) \<in> (calls_of g)\<^sup>+"
  by (rule rtrancl_into_trancl2)

text \<open>The members of a cycle are reported once each.\<close>

definition cycle_pairs :: "call_graph \<Rightarrow> component_key list \<Rightarrow> bool" where
  "cycle_pairs g cycle = successively (\<lambda>a b. (a, b) \<in> calls_of g \<and> (b, a) \<in> (calls_of g)\<^sup>*) cycle"

lemma report_members_ok:
  assumes "cycle_pairs g cycle" and "distinct (vs_reported st)"
    and "list_all2 (member_report m g) (rev (vs_reported st)) (vs_diagnostics st)"
  shows "distinct (vs_reported (report_members m g names cycle st))
    \<and> list_all2 (member_report m g) (rev (vs_reported (report_members m g names cycle st)))
        (vs_diagnostics (report_members m g names cycle st))
    \<and> set (vs_reported (report_members m g names cycle st)) = set (vs_reported st) \<union> set (butlast cycle)"
  using assms
proof (induction m g names cycle st rule: report_members.induct)
  case (1 m g names member nxt rest st)
  have pair: "(member, nxt) \<in> calls_of g" "(nxt, member) \<in> (calls_of g)\<^sup>*" "cycle_pairs g (nxt # rest)"
    using 1(2) by (simp_all add: cycle_pairs_def)
  then obtain e where e: "e \<in> set (edges_of g member)" "edge_target e = nxt"
    by (auto simp: calls_of_def)
  obtain e' where f: "find (\<lambda>e. edge_target e = nxt) (edges_of g member) = Some e'"
    using e by (cases "find (\<lambda>e. edge_target e = nxt) (edges_of g member)") (auto simp: find_None_iff)
  then have e': "e' \<in> set (edges_of g member)" "edge_target e' = nxt"
    by (auto simp: find_Some_iff)
  have "member_report m g member (member_diagnostic m g names member nxt)"
    unfolding member_report_def member_diagnostic_def f using e' pair(2)
    by - (rule exI [of _ e'], rule exI [of _ "''static component cycle detected: ['' @ names @ '']''"],
        rule exI [of _ "case map_of m member of Some f \<Rightarrow> compiled_source_path f | None \<Rightarrow> []"],
        intro conjI, simp_all)
  then show ?case
    using 1(1) [OF pair(3)] 1(3,4) by (auto simp: list_all2_appendI)
qed auto

lemma dropWhile_stack:
  assumes "stack_path g ks" and "t \<in> set ks" and "(last ks, t) \<in> calls_of g"
  shows "cycle_pairs g (dropWhile (\<lambda>k. k \<noteq> t) ks @ [t])"
    and "dropWhile (\<lambda>k. k \<noteq> t) ks \<noteq> []"
proof -
  obtain pre post where ks: "ks = pre @ t # post" "t \<notin> set pre"
    using assms(2) by (auto dest: split_list_first)
  then have "\<forall>x\<in>set pre. x \<noteq> t" by auto
  then have d: "dropWhile (\<lambda>k. k \<noteq> t) ks = t # post"
    using ks(1) by (simp add: dropWhile_append2)
  have path: "stack_path g (t # post)"
    using assms(1) ks by (auto simp: stack_path_def successively_append_iff)
  have "successively (\<lambda>a b. (a, b) \<in> calls_of g \<and> (b, a) \<in> (calls_of g)\<^sup>*) (t # post @ [t])"
  proof (rule successively_mono [where P = "\<lambda>a b. (a, b) \<in> calls_of g"])
    show "successively (\<lambda>a b. (a, b) \<in> calls_of g) (t # post @ [t])"
      using path assms(3) ks(1) stack_path_snoc [of g "t # post" t] by (simp add: stack_path_def)
  next
    fix a b assume ab: "a \<in> set (t # post @ [t])" "b \<in> set (t # post @ [t])" "(a, b) \<in> calls_of g"
    have "(b, last ks) \<in> (calls_of g)\<^sup>*"
      using stack_path_last [OF path, of b] ab(2) ks by auto
    moreover have "(t, a) \<in> (calls_of g)\<^sup>*"
      using stack_path_rtrancl [OF path, of a] ab(1) by auto
    ultimately have "(b, a) \<in> (calls_of g)\<^sup>*"
      using assms(3) by (meson rtrancl.rtrancl_into_rtrancl rtrancl_trans)
    then show "(a, b) \<in> calls_of g \<and> (b, a) \<in> (calls_of g)\<^sup>*" using ab by blast
  qed
  then show "cycle_pairs g (dropWhile (\<lambda>k. k \<noteq> t) ks @ [t])" using d by (simp add: cycle_pairs_def)
  show "dropWhile (\<lambda>k. k \<noteq> t) ks \<noteq> []" using d by simp
qed

lemma report_cycle_ok:
  assumes ok: "visit_ok m g st" and "vs_marks st t = Some Visiting" and "(last (vs_stack st), t) \<in> calls_of g"
  shows "visit_ok m g (report_cycle m g t st)" and "vs_reported (report_cycle m g t st) \<noteq> []"
proof -
  have t: "t \<in> set (vs_stack st)" and path: "stack_path g (vs_stack st)"
    and rep: "distinct (vs_reported st)" "list_all2 (member_report m g) (rev (vs_reported st)) (vs_diagnostics st)"
    using ok assms(2) by (auto simp: visit_ok_def)
  note cycle = dropWhile_stack [OF path t assms(3)]
  let ?cycle = "dropWhile (\<lambda>k. k \<noteq> t) (vs_stack st) @ [t]"
  note reported = report_members_ok [OF cycle(1) rep, of "join_with '' '' (map key_name ?cycle)"]
  show some: "vs_reported (report_cycle m g t st) \<noteq> []"
    using reported cycle(2) by (auto simp: report_cycle_def Let_def)
  show "visit_ok m g (report_cycle m g t st)"
    using ok reported some by (auto simp: visit_ok_def report_cycle_def Let_def)
qed

lemma enter_ok:
  assumes ok: "visit_ok m g st" and new: "vs_marks st k = None"
    and call: "vs_stack st \<noteq> [] \<longrightarrow> (last (vs_stack st), k) \<in> calls_of g"
  shows "visit_ok m g (enter k st)"
proof -
  have "k \<notin> set (vs_stack st)" using ok new by (metis visit_ok_def option.distinct(1))
  then show ?thesis
    using assms by (auto simp: visit_ok_def enter_def stack_path_snoc split: if_splits)
qed

lemma leave_ok:
  assumes ok: "visit_ok m g st" and top: "vs_stack st \<noteq> []" "last (vs_stack st) = k"
    and finished: "vs_reported st = [] \<longrightarrow> (\<forall>k'. (k, k') \<in> calls_of g \<longrightarrow> vs_marks st k' = Some Visited)"
  shows "visit_ok m g (leave k st)"
proof -
  obtain ks where ks: "vs_stack st = ks @ [k]" using top by (metis append_butlast_last_id)
  have k: "vs_marks st k = Some Visiting" using ok ks by (auto simp: visit_ok_def)
  have acyclic: "(k, k) \<notin> (calls_of g)\<^sup>+" if none: "vs_reported st = []"
  proof
    let ?V = "{k. vs_marks st k = Some Visited}"
    assume "(k, k) \<in> (calls_of g)\<^sup>+"
    then obtain k' where k': "(k, k') \<in> calls_of g" "(k', k) \<in> (calls_of g)\<^sup>*"
      by (meson tranclD)
    have closed: "calls_of g `` ?V \<subseteq> ?V"
      using ok none by (auto simp: visit_ok_def)
    have "k' \<in> ?V" using finished none k'(1) by blast
    then have "k \<in> ?V"
      using k'(2) closed closed_trancl [of k' k "calls_of g" ?V] by (auto simp: rtrancl_eq_or_trancl)
    then show False using k by simp
  qed
  have "vs_marks st k' = Some Visited \<longrightarrow> k' \<noteq> k" for k' using k by auto
  then have marks: "vs_marks (leave k st) k' = Some Visited \<longleftrightarrow> vs_marks st k' = Some Visited \<or> k' = k" for k'
    by (auto simp: leave_def)
  have "(k', k') \<notin> (calls_of g)\<^sup>+ \<and> (\<forall>k''. (k', k'') \<in> calls_of g \<longrightarrow> vs_marks (leave k st) k'' = Some Visited)"
    if "vs_reported st = []" "vs_marks (leave k st) k' = Some Visited" for k'
  proof (cases "k' = k")
    case True
    then show ?thesis using acyclic finished that(1) marks by simp
  next
    case False
    then have "vs_marks st k' = Some Visited" using that(2) marks by simp
    then show ?thesis using ok that(1) marks by (simp add: visit_ok_def)
  qed
  moreover have "vs_reported (leave k st) = vs_reported st" "vs_diagnostics (leave k st) = vs_diagnostics st"
    "vs_stack (leave k st) = ks"
    using ks by (simp_all add: leave_def)
  moreover have "distinct ks" "stack_path g ks" "vs_marks (leave k st) k' = Some Visiting \<longleftrightarrow> k' \<in> set ks" for k'
    using ok ks by (auto simp: visit_ok_def leave_def stack_path_snoc)
  ultimately show ?thesis
    using ok unfolding visit_ok_def by simp
qed

lemma visit_edges_ok:
  assumes "visit_ok m g st" and "vs_stack st \<noteq> []" "last (vs_stack st) = key"
    and "edges_of g key = past @ es"
    and "vs_reported st = [] \<longrightarrow> (\<forall>e\<in>set past. vs_marks st (edge_target e) = Some Visited)"
  shows "visit_ok m g (visit_edges m g key es st)
    \<and> vs_stack (visit_edges m g key es st) = butlast (vs_stack st)
    \<and> vs_marks (visit_edges m g key es st) key = Some Visited
    \<and> (\<forall>k. vs_marks st k = Some Visited \<longrightarrow> vs_marks (visit_edges m g key es st) k = Some Visited)
    \<and> (vs_reported st \<noteq> [] \<longrightarrow> vs_reported (visit_edges m g key es st) \<noteq> [])"
  using assms
proof (induction m g key es st arbitrary: past rule: visit_edges.induct)
  case (1 m g key st)
  have fin: "vs_reported st = [] \<longrightarrow> (\<forall>k'. (key, k') \<in> calls_of g \<longrightarrow> vs_marks st k' = Some Visited)"
    using "1.prems"(4,5) by (auto simp: calls_of_def)
  show ?case
    using leave_ok [OF "1.prems"(1-3) fin] by (simp add: leave_def)
next
  case (2 m g key e es st)
  let ?t = "edge_target e"
  have call: "(key, ?t) \<in> calls_of g"
    using "2.prems"(4) by (auto simp: calls_of_def)
  have past: "edges_of g key = (past @ [e]) @ es" using "2.prems"(4) by simp
  show ?case
  proof (cases "vs_marks st ?t")
    case None
    let ?in = "enter ?t st"
    let ?out = "visit_edges m g ?t (edges_of g ?t) ?in"
    have entered: "visit_ok m g ?in"
      using enter_ok [OF "2.prems"(1) None] call "2.prems"(3) by simp
    have inner: "visit_ok m g ?out \<and> vs_stack ?out = butlast (vs_stack ?in)
        \<and> vs_marks ?out ?t = Some Visited
        \<and> (\<forall>k. vs_marks ?in k = Some Visited \<longrightarrow> vs_marks ?out k = Some Visited)
        \<and> (vs_reported ?in \<noteq> [] \<longrightarrow> vs_reported ?out \<noteq> [])"
      by (rule "2.IH"(1) [OF None entered, of "[]"]) (simp_all add: enter_def)
    have stack: "vs_stack ?out = vs_stack st" and rep: "vs_reported st \<noteq> [] \<longrightarrow> vs_reported ?out \<noteq> []"
      using inner by (simp_all add: enter_def)
    have marks: "vs_marks st k = Some Visited \<Longrightarrow> vs_marks ?out k = Some Visited" for k
    proof -
      assume k: "vs_marks st k = Some Visited"
      then have "k \<noteq> ?t" using None by auto
      then have "vs_marks ?in k = Some Visited" using k by (simp add: enter_def)
      then show ?thesis using inner by blast
    qed
    have "vs_reported ?out = [] \<longrightarrow> (\<forall>e\<in>set (past @ [e]). vs_marks ?out (edge_target e) = Some Visited)"
      using "2.prems"(5) rep marks inner by auto
    then have outer: "visit_ok m g (visit_edges m g key es ?out)
        \<and> vs_stack (visit_edges m g key es ?out) = butlast (vs_stack ?out)
        \<and> vs_marks (visit_edges m g key es ?out) key = Some Visited
        \<and> (\<forall>k. vs_marks ?out k = Some Visited \<longrightarrow> vs_marks (visit_edges m g key es ?out) k = Some Visited)
        \<and> (vs_reported ?out \<noteq> [] \<longrightarrow> vs_reported (visit_edges m g key es ?out) \<noteq> [])"
      using "2.IH"(2) [OF None _ _ _ past] inner stack "2.prems"(2,3) by simp
    then show ?thesis using None stack marks rep by simp
  next
    case (Some mark)
    show ?thesis
    proof (cases mark)
      case Visited
      then have "vs_reported st = [] \<longrightarrow> (\<forall>e\<in>set (past @ [e]). vs_marks st (edge_target e) = Some Visited)"
        using "2.prems"(5) Some by simp
      then show ?thesis
        using "2.IH"(4) [OF Some Visited "2.prems"(1-3) past] Some Visited by simp
    next
      case Visiting
      let ?r = "report_cycle m g ?t st"
      have "vs_marks st ?t = Some Visiting" using Some Visiting by simp
      note reported = report_cycle_ok [OF "2.prems"(1) this] 
      have r: "visit_ok m g ?r" "vs_reported ?r \<noteq> []"
        using reported call "2.prems"(3) by auto
      have same: "vs_stack ?r = vs_stack st" "vs_marks ?r = vs_marks st"
        by (simp_all add: report_cycle_def Let_def)
      show ?thesis
        using "2.IH"(3) [OF Some Visiting r(1) _ _ past] r(2) same "2.prems"(2,3) Some Visiting by simp
    qed
  qed
qed

lemma visit_keys_ok:
  assumes "visit_ok m g st" and "vs_stack st = []"
  shows "visit_ok m g (visit_keys m g ks st) \<and> vs_stack (visit_keys m g ks st) = []
    \<and> (\<forall>k. vs_marks st k = Some Visited \<or> k \<in> set ks \<longrightarrow> vs_marks (visit_keys m g ks st) k = Some Visited)"
  using assms
proof (induction ks arbitrary: st)
  case Nil
  then show ?case by simp
next
  case (Cons k ks)
  show ?case
  proof (cases "vs_marks st k")
    case None
    let ?st = "visit_edges m g k (edges_of g k) (enter k st)"
    have "visit_ok m g (enter k st)"
      by (rule enter_ok [OF Cons.prems(1) None]) (simp add: Cons.prems(2))
    then have st: "visit_ok m g ?st \<and> vs_stack ?st = [] \<and> vs_marks ?st k = Some Visited
        \<and> (\<forall>k'. vs_marks (enter k st) k' = Some Visited \<longrightarrow> vs_marks ?st k' = Some Visited)"
      using visit_edges_ok [of m g "enter k st" k "[]" "edges_of g k"] Cons.prems(2)
      by (simp add: enter_def)
    have marks: "vs_marks ?st k' = Some Visited" if "vs_marks st k' = Some Visited" for k'
    proof -
      have "vs_marks (enter k st) k' = Some Visited" using that None by (auto simp: enter_def)
      then show ?thesis using st by blast
    qed
    show ?thesis
      using Cons.IH [of ?st] st marks None by auto
  next
    case (Some mark)
    then have "vs_marks st k = Some Visited"
      using Cons.prems by (cases mark) (auto simp: visit_ok_def)
    then show ?thesis using Cons.IH [OF Cons.prems] Some by auto
  qed
qed

lemma initial_visit_ok: "visit_ok m g initial_visit"
  by (simp add: visit_ok_def initial_visit_def stack_path_def)

lemma calls_ofI: "e \<in> set (edges_of g k) \<Longrightarrow> (k, edge_target e) \<in> calls_of g"
  by (auto simp: calls_of_def)

lemma calls_of_key: "(k, k') \<in> calls_of g \<Longrightarrow> k \<in> fst ` set g"
  by (cases "map_of g k") (auto simp: calls_of_def edges_of_def dest!: map_of_SomeD intro: rev_image_eqI)

lemma member_report_cycle: "member_report m g k d \<Longrightarrow> (k, k) \<in> (calls_of g)\<^sup>+"
  unfolding member_report_def by (metis (mono_tags, lifting) calls_ofI rtrancl_step)

text \<open>The whole search reports a component on a cycle exactly when there is a cycle.\<close>

lemma visit_all:
  assumes "set ks = fst ` set g"
    and st: "st = visit_keys m g ks initial_visit"
  shows "(vs_diagnostics st \<noteq> []) = (\<exists>k. (k, k) \<in> (calls_of g)\<^sup>+)"
    and "distinct (vs_reported st)"
    and "list_all2 (member_report m g) (rev (vs_reported st)) (vs_diagnostics st)"
proof -
  have ok: "visit_ok m g st" and all: "\<forall>k\<in>fst ` set g. vs_marks st k = Some Visited"
    using visit_keys_ok [OF initial_visit_ok, of m g ks] assms(1)
    by (auto simp: st initial_visit_def)
  then show rep: "distinct (vs_reported st)" "list_all2 (member_report m g) (rev (vs_reported st)) (vs_diagnostics st)"
    by (simp_all add: visit_ok_def)
  have "(k, k) \<notin> (calls_of g)\<^sup>+" if "vs_reported st = []" for k
  proof
    assume c: "(k, k) \<in> (calls_of g)\<^sup>+"
    then have "k \<in> fst ` set g" by (meson tranclD calls_of_key)
    then show False using ok all that c by (auto simp: visit_ok_def)
  qed
  moreover have "\<exists>k. (k, k) \<in> (calls_of g)\<^sup>+" if "vs_reported st \<noteq> []"
  proof -
    have "vs_diagnostics st \<noteq> []" using that rep(2) by auto
    then obtain k d where "member_report m g k d"
      using rep(2) by (cases "rev (vs_reported st)"; cases "vs_diagnostics st") auto
    then show ?thesis using member_report_cycle by blast
  qed
  moreover have "vs_diagnostics st = [] \<longleftrightarrow> vs_reported st = []"
    using rep(2) by auto
  ultimately show "(vs_diagnostics st \<noteq> []) = (\<exists>k. (k, k) \<in> (calls_of g)\<^sup>+)" by blast
qed

subsection \<open>The declared components\<close>

definition declared_file :: "compiled_file list \<Rightarrow> component_key \<Rightarrow> compiled_file option" where
  \<comment> \<open>the first file that declares the component\<close>
  "declared_file files k = find (\<lambda>f. file_key f = k) files"

lemma register_files_spec:
  assumes "register_files m files = (m', ds)" and "distinct (map fst m)"
  shows "distinct (map fst m')
    \<and> map_of m' = (\<lambda>k. case map_of m k of Some f \<Rightarrow> Some f | None \<Rightarrow> declared_file files k)
    \<and> (ds = [] \<longleftrightarrow> distinct (map file_key files) \<and> file_key ` set files \<inter> fst ` set m = {})
    \<and> list_all (\<lambda>d. diag_code d = ''HIM1500'' \<and> is_error d) ds"
  using assms
proof (induction m files arbitrary: m' ds rule: register_files.induct)
  case (1 m)
  then show ?case by (auto simp: declared_file_def split: option.split)
next
  case (2 m f fs)
  show ?case
  proof (cases "map_of m (file_key f)")
    case None
    then have "file_key f \<notin> fst ` set m" by (simp add: map_of_eq_None_iff)
    moreover have "map_of (m @ [(file_key f, f)]) k
        = (case map_of m k of Some g \<Rightarrow> Some g | None \<Rightarrow> if k = file_key f then Some f else None)" for k
      by (simp add: map_add_def split: option.split)
    ultimately show ?thesis
      using "2.IH"(1) [OF None] "2.prems" None
      by (auto simp: declared_file_def fun_eq_iff split: option.splits)
  next
    case (Some previous)
    then have "file_key f \<in> fst ` set m" by (metis map_of_eq_None_iff option.distinct(1))
    moreover obtain m1 ds1 where r: "register_files m fs = (m1, ds1)" by fastforce
    ultimately show ?thesis
      using "2.IH"(2) [OF Some r "2.prems"(2)] "2.prems"(1) Some
      by (auto simp: declared_file_def duplicate_diagnostic_def new_diagnostic_def fun_eq_iff is_error_def severity_error_def split: option.splits)
  qed
qed

definition static_calls :: "(bytes \<Rightarrow> go_expr option) \<Rightarrow> compiled_file list \<Rightarrow> (component_key \<times> component_key) set" where
  \<comment> \<open>the file that declares the first component has a tag that calls the second\<close>
  "static_calls parse files =
     {(k, k'). \<exists>f source node e. declared_file files k = Some f \<and> compiled_source f = Some source
        \<and> node \<in> set (file_nodes source) \<and> node_kind node = NodeComponent
        \<and> parse (node_text node) = Some e \<and> root_called_identifier e = key_name k' \<and> key_name k' \<noteq> []
        \<and> key_directory k' = key_directory k \<and> key_package k' = key_package k
        \<and> k' \<in> file_key ` set files}"

lemma declared_file_None: "declared_file files k = None \<longleftrightarrow> k \<notin> file_key ` set files"
  by (auto simp: declared_file_def find_None_iff)

lemma calls_of_call_edges:
  assumes "register_files [] files = (m, ds)"
  shows "calls_of (call_edges parse m) = static_calls parse files"
proof -
  have m: "map_of m k = declared_file files k" for k
    using register_files_spec [OF assms] by simp
  have map: "map_of (map (\<lambda>(key, file). (key, h key file)) m) k = map_option (h k) (map_of m k)" for h :: "component_key \<Rightarrow> compiled_file \<Rightarrow> component_edge list" and k
    by (induction m) auto
  have edge: "e \<in> set (edges_of (call_edges parse m) k) \<longleftrightarrow> (\<exists>f source node. declared_file files k = Some f
      \<and> compiled_source f = Some source \<and> node \<in> set (file_nodes source) \<and> e \<in> set (node_edges parse m k node))" for e k
  proof (cases "declared_file files k")
    case None
    then show ?thesis by (simp add: edges_of_def call_edges_def map m)
  next
    case (Some f)
    then show ?thesis
      by (cases "compiled_source f") (auto simp: edges_of_def call_edges_def map m component_edges_def)
  qed
  have node: "e \<in> set (node_edges parse m k node) \<longleftrightarrow> node_kind node = NodeComponent
      \<and> (\<exists>x. parse (node_text node) = Some x \<and> root_called_identifier x \<noteq> []
           \<and> edge_target e = ComponentKey (key_directory k) (key_package k) (root_called_identifier x))
      \<and> edge_position e = node_pos node \<and> edge_target e \<in> file_key ` set files" for e k node
  proof (cases "parse (node_text node)")
    case None
    then show ?thesis by (simp add: node_edges_def)
  next
    case (Some x)
    show ?thesis
      by (cases e) (auto simp: node_edges_def Some m declared_file_None Let_def)
  qed
  have "(k, k') \<in> calls_of (call_edges parse m) \<longleftrightarrow> (k, k') \<in> static_calls parse files" for k k'
  proof
    assume "(k, k') \<in> calls_of (call_edges parse m)"
    then obtain e where e: "e \<in> set (edges_of (call_edges parse m) k)" "edge_target e = k'"
      by (auto simp: calls_of_def)
    then obtain f source n x where f: "declared_file files k = Some f" "compiled_source f = Some source"
        "n \<in> set (file_nodes source)" "node_kind n = NodeComponent" "parse (node_text n) = Some x"
        "root_called_identifier x \<noteq> []"
        "edge_target e = ComponentKey (key_directory k) (key_package k) (root_called_identifier x)"
        "edge_target e \<in> file_key ` set files"
      unfolding edge node by blast
    moreover have "root_called_identifier x = key_name k'" "key_directory k' = key_directory k"
        "key_package k' = key_package k"
      using f(7) e(2) by simp_all
    ultimately show "(k, k') \<in> static_calls parse files"
      unfolding static_calls_def using e(2) by (metis (mono_tags, lifting) case_prodI mem_Collect_eq)
  next
    assume "(k, k') \<in> static_calls parse files"
    then obtain f source n x where f: "declared_file files k = Some f" "compiled_source f = Some source"
        "n \<in> set (file_nodes source)" "node_kind n = NodeComponent" "parse (node_text n) = Some x"
        "root_called_identifier x = key_name k'" "key_name k' \<noteq> []"
        "key_directory k' = key_directory k" "key_package k' = key_package k" "k' \<in> file_key ` set files"
      by (auto simp: static_calls_def)
    then have "\<lparr>edge_target = k', edge_position = node_pos n\<rparr> \<in> set (edges_of (call_edges parse m) k)"
      by (cases k') (auto simp: edge node)
    then show "(k, k') \<in> calls_of (call_edges parse m)"
      using calls_ofI by fastforce
  qed
  then show ?thesis by auto
qed

text \<open>The two parts of the result, and what each diagnostic of the second stands for.\<close>

lemma detect_parts:
  obtains dups cycles ks where
    "detect_component_cycles parse files = sort_diagnostics (dups @ cycles)"
    "(dups = []) = distinct (map file_key files)"
    "list_all (\<lambda>d. diag_code d = ''HIM1500'' \<and> is_error d) dups"
    "(cycles \<noteq> []) = (\<exists>k. (k, k) \<in> (static_calls parse files)\<^sup>+)"
    "distinct ks"
    "list_all2 (\<lambda>k d. diag_code d = ''HIM1501'' \<and> is_error d \<and> (k, k) \<in> (static_calls parse files)\<^sup>+
       \<and> (\<exists>f. declared_file files k = Some f \<and> file_key f = k \<and> diag_path d = compiled_source_path f)) ks cycles"
proof -
  obtain m dups where r: "register_files [] files = (m, dups)" by fastforce
  let ?g = "call_edges parse m"
  define st where "st = visit_keys m ?g (sort (map fst m)) initial_visit"
  have spec: "map_of m k = declared_file files k" "(dups = []) = distinct (map file_key files)"
      "list_all (\<lambda>d. diag_code d = ''HIM1500'' \<and> is_error d) dups" for k
    using register_files_spec [OF r] by auto
  have keys: "fst ` set ?g = fst ` set m" by (force simp: call_edges_def)
  have calls: "calls_of ?g = static_calls parse files" by (rule calls_of_call_edges [OF r])
  note all = visit_all [OF _ st_def, unfolded set_sort set_map keys, OF refl]
  have report: "diag_code d = ''HIM1501'' \<and> is_error d \<and> (k, k) \<in> (static_calls parse files)\<^sup>+
      \<and> (\<exists>f. declared_file files k = Some f \<and> file_key f = k \<and> diag_path d = compiled_source_path f)"
    if k: "member_report m ?g k d" for k d
  proof -
    have cycle: "(k, k) \<in> (static_calls parse files)\<^sup>+" using member_report_cycle [OF k] calls by metis
    then have "k \<in> fst ` set m" using calls_of_key keys by (metis tranclD calls)
    then obtain f where f: "declared_file files k = Some f" using spec(1) by (metis map_of_eq_None_iff option.exhaust)
    then have "file_key f = k" by (auto simp: declared_file_def find_Some_iff)
    then show ?thesis
      using f cycle k spec(1) by (auto simp: member_report_def new_diagnostic_def is_error_def severity_error_def)
  qed
  show thesis
  proof (rule that)
    show "detect_component_cycles parse files = sort_diagnostics (dups @ vs_diagnostics st)"
      by (simp add: detect_component_cycles_def r st_def)
    show "distinct (rev (vs_reported st))" using all(2) by simp
    show "(vs_diagnostics st \<noteq> []) = (\<exists>k. (k, k) \<in> (static_calls parse files)\<^sup>+)"
      using all(1) by (simp add: calls)
  qed (use spec all(3) report in \<open>auto intro: list_all2_mono\<close>)
qed

lemma list_all2_in: "list_all2 P xs ys \<Longrightarrow> y \<in> set ys \<Longrightarrow> \<exists>x\<in>set xs. P x y"
  by (induction rule: list_all2_induct) auto

lemma list_all2_in_left: "list_all2 P xs ys \<Longrightarrow> x \<in> set xs \<Longrightarrow> \<exists>y\<in>set ys. P x y"
  by (induction rule: list_all2_induct) auto

text \<open>
  C16: The component check is exact about whole programs. A duplicate (HIM1500) is reported exactly
  when two files declare the same component of a package and directory, a cycle (HIM1501) exactly when
  some component can reach itself by static calls. A cycle is reported only at components that lie
  on one, at most once for each of them. The search always ends: it is a total function.
\<close>
theorem detect_component_cycles_exact:
  fixes parse files
  defines "ds \<equiv> detect_component_cycles parse files"
  shows "((\<exists>d\<in>set ds. diag_code d = ''HIM1500'') = (\<not> distinct (map file_key files)))
    \<and> ((\<exists>d\<in>set ds. diag_code d = ''HIM1501'') = (\<exists>k. (k, k) \<in> (static_calls parse files)\<^sup>+))
    \<and> (\<forall>d. d \<in> set ds \<longrightarrow> is_error d \<and> (diag_code d = ''HIM1500'' \<or> (\<exists>f. diag_code d = ''HIM1501''
         \<and> declared_file files (file_key f) = Some f \<and> diag_path d = compiled_source_path f
         \<and> (file_key f, file_key f) \<in> (static_calls parse files)\<^sup>+)))
    \<and> length (filter (\<lambda>d. diag_code d = ''HIM1501'') ds) \<le> card (file_key ` set files)"
proof -
  obtain dups cycles ks where parts: "ds = sort_diagnostics (dups @ cycles)"
      "(dups = []) = distinct (map file_key files)"
      "list_all (\<lambda>d. diag_code d = ''HIM1500'' \<and> is_error d) dups"
      "(cycles \<noteq> []) = (\<exists>k. (k, k) \<in> (static_calls parse files)\<^sup>+)" "distinct ks"
    and cyc: "list_all2 (\<lambda>k d. diag_code d = ''HIM1501'' \<and> is_error d \<and> (k, k) \<in> (static_calls parse files)\<^sup>+
       \<and> (\<exists>f. declared_file files k = Some f \<and> file_key f = k \<and> diag_path d = compiled_source_path f)) ks cycles"
    unfolding ds_def by (rule detect_parts)
  have codes: "list_all (\<lambda>d. diag_code d = ''HIM1501'') cycles"
    using list_all2_in [OF cyc] by (auto simp: list_all_iff)
  have "filter (\<lambda>d. diag_code d = ''HIM1501'') (dups @ cycles) = cycles"
    using parts(3) codes by (auto simp: list_all_iff filter_empty_conv intro!: filter_True)
  moreover have "size (mset (filter (\<lambda>d. diag_code d = ''HIM1501'') ds))
      = size (mset (filter (\<lambda>d. diag_code d = ''HIM1501'') (dups @ cycles)))"
    by (simp only: parts(1) mset_filter mset_sort_diagnostics)
  ultimately have "length (filter (\<lambda>d. diag_code d = ''HIM1501'') ds) = length ks"
    using list_all2_lengthD [OF cyc] by (simp only: size_mset)
  moreover have "set ks \<subseteq> file_key ` set files"
    using list_all2_in_left [OF cyc] declared_file_None by (metis option.distinct(1) subsetI)
  ultimately have bound: "length (filter (\<lambda>d. diag_code d = ''HIM1501'') ds) \<le> card (file_key ` set files)"
    using parts(5) card_mono [of "file_key ` set files" "set ks"] by (simp add: distinct_card)
  moreover have "\<forall>d. d \<in> set ds \<longrightarrow> is_error d \<and> (diag_code d = ''HIM1500'' \<or> (\<exists>f. diag_code d = ''HIM1501''
         \<and> declared_file files (file_key f) = Some f \<and> diag_path d = compiled_source_path f
         \<and> (file_key f, file_key f) \<in> (static_calls parse files)\<^sup>+))"
  proof (intro allI impI)
    fix d assume "d \<in> set ds"
    then consider "d \<in> set dups" | "d \<in> set cycles" by (auto simp: parts(1))
    then show "is_error d \<and> (diag_code d = ''HIM1500'' \<or> (\<exists>f. diag_code d = ''HIM1501''
         \<and> declared_file files (file_key f) = Some f \<and> diag_path d = compiled_source_path f
         \<and> (file_key f, file_key f) \<in> (static_calls parse files)\<^sup>+))"
    proof cases
      case 1
      then show ?thesis using parts(3) by (simp add: list_all_iff)
    next
      case 2
      then obtain k f where "diag_code d = ''HIM1501''" "is_error d" "(k, k) \<in> (static_calls parse files)\<^sup>+"
          "declared_file files k = Some f" "file_key f = k" "diag_path d = compiled_source_path f"
        using list_all2_in [OF cyc 2] by auto
      then show ?thesis by auto
    qed
  qed
  moreover have "(\<exists>d\<in>set ds. diag_code d = ''HIM1501'') = (cycles \<noteq> [])"
    using codes parts(3) by (cases cycles) (auto simp: parts(1) list_all_iff)
  moreover have "(\<exists>d\<in>set ds. diag_code d = ''HIM1500'') = (dups \<noteq> [])"
    using codes parts(3) by (cases dups) (auto simp: parts(1) list_all_iff)
  ultimately show ?thesis using parts(2,4) by simp
qed

text \<open>Two components that call each other, and one that calls the first.\<close>

definition sample_tag :: "bytes \<Rightarrow> renderer_node" where
  "sample_tag name = \<lparr>node_kind = NodeComponent, node_text = name, node_context = ContextHTMLText,
     node_pos = position_one\<rparr>"

definition sample_component :: "bytes \<Rightarrow> bytes list \<Rightarrow> compiled_file" where
  "sample_component name calls =
     \<lparr>compiled_source_path = ''d/'' @ name @ ''.san'', compiled_output_path = ''d/'' @ name @ ''.san.go'',
      compiled_package = ''p'', compiled_component = name, compiled_digest = [], compiled_code = ''x'',
      compiled_source = Some \<lparr>file_path = name, file_mapping = name, file_package = ''p'', file_name = name,
        file_type_params = [], file_params = [], file_imports = [], file_nodes = map sample_tag calls,
        file_source = [], file_header_end = 0, file_function_pos = position_one\<rparr>,
      compiled_source_mode = 420\<rparr>"

definition sample_parse_call :: "bytes \<Rightarrow> go_expr option" where
  "sample_parse_call t = Some (CallExpr (ParenExpr (Ident t)))"

definition sample_components :: "compiled_file list" where
  "sample_components = [sample_component ''A'' [''B''], sample_component ''B'' [''A''], sample_component ''C'' [''A'']]"

theorem detect_component_cycles_exact_witness:
  "(\<exists>d\<in>set (detect_component_cycles sample_parse_call sample_components). diag_code d = ''HIM1501'')
   \<and> \<not> (\<exists>d\<in>set (detect_component_cycles sample_parse_call sample_components). diag_code d = ''HIM1500'')"
proof -
  let ?a = "file_key (sample_component ''A'' [''B''])" and ?b = "file_key (sample_component ''B'' [''A''])"
  let ?calls = "static_calls sample_parse_call sample_components"
  have "(?a, ?b) \<in> ?calls" "(?b, ?a) \<in> ?calls"
    by (simp_all add: static_calls_def declared_file_def sample_components_def sample_component_def
        sample_parse_call_def sample_tag_def go_eval)
  then have "(?a, ?a) \<in> ?calls\<^sup>+" by (meson trancl.simps)
  moreover have "distinct (map file_key sample_components)"
    by (simp add: sample_components_def sample_component_def go_eval)
  ultimately show ?thesis
    using detect_component_cycles_exact [of sample_parse_call sample_components] by blast
qed

text \<open>
  The depth-first search keeps its invariant, so that a finished visit of the component on top of
  the stack leaves it visited and the rest of the stack as it was: the stack is a path of calls without
  repetition that holds exactly the components being visited, every component reported has one
  diagnostic at a tag of its own that lies on a cycle, and while nothing is reported the visited
  components lie on no cycle and call only visited ones.
\<close>
theorem cycle_search_invariant:
  assumes "visit_ok m g st" and "vs_stack st \<noteq> []"
    and "edges_of g (last (vs_stack st)) = es"
  shows "visit_ok m g (visit_edges m g (last (vs_stack st)) es st)
    \<and> vs_stack (visit_edges m g (last (vs_stack st)) es st) = butlast (vs_stack st)
    \<and> vs_marks (visit_edges m g (last (vs_stack st)) es st) (last (vs_stack st)) = Some Visited"
  using visit_edges_ok [OF assms(1,2) refl, of "[]" es] assms(3) by simp

theorem cycle_search_invariant_witness:
  "visit_ok [] [(ComponentKey ''d'' ''p'' ''A'', [\<lparr>edge_target = ComponentKey ''d'' ''p'' ''A'', edge_position = position_one\<rparr>])]
     (visit_edges [] [(ComponentKey ''d'' ''p'' ''A'', [\<lparr>edge_target = ComponentKey ''d'' ''p'' ''A'', edge_position = position_one\<rparr>])]
       (ComponentKey ''d'' ''p'' ''A'') [\<lparr>edge_target = ComponentKey ''d'' ''p'' ''A'', edge_position = position_one\<rparr>]
       (enter (ComponentKey ''d'' ''p'' ''A'') initial_visit))"
proof -
  let ?k = "ComponentKey ''d'' ''p'' ''A''" and ?e = "\<lparr>edge_target = ComponentKey ''d'' ''p'' ''A'', edge_position = position_one\<rparr>"
  have "visit_ok [] [(?k, [?e])] (enter ?k initial_visit)"
    by (rule enter_ok [OF initial_visit_ok]) (simp_all add: initial_visit_def)
  from cycle_search_invariant [OF this, of "[?e]"] show ?thesis by (simp add: enter_def initial_visit_def edges_of_def)
qed

end
