(* ===== verification/Source_Analysis.thy ===== *)
theory Source_Analysis
  imports Compiled_Components Component_Cycles
begin

section \<open>In-memory analysis for editors: internal/compiler/analysis.go\<close>

text \<open>
  What the language server asks the compiler: the description of every open document, made by the
  same passes as a compilation, and the checks over the whole set. Cancellation is the parameter
  \<open>ctx\<close>: what \<open>ctx.Err()\<close> gives at the n-th time it is asked (\<open>None\<close>: not canceled).
\<close>

record source_input =
  input_path :: bytes
  input_source :: bytes

record analysis_import =
  ai_alias :: bytes
  ai_path :: bytes

datatype region_kind = AnalysisStatement | AnalysisExpression | AnalysisComponent | AnalysisComment

record analysis_region =
  region_kind :: region_kind
  region_text :: bytes
  region_context :: output_context
  region_offset :: nat
  region_length :: nat
  region_line :: nat
  region_column :: nat

record document_analysis =
  da_path :: bytes
  da_package :: bytes
  da_component :: bytes
  da_type_params :: bytes
  da_params :: bytes
  da_signature :: bytes
  da_offset :: nat
  da_line :: nat
  da_column :: nat
  da_imports :: "analysis_import list"
  da_regions :: "analysis_region list"
  da_diagnostics :: "diagnostic list"

text \<open>The analysis with nothing but its path.\<close>

definition empty_analysis :: "bytes \<Rightarrow> document_analysis" where
  "empty_analysis path =
     \<lparr>da_path = path, da_package = [], da_component = [], da_type_params = [], da_params = [],
      da_signature = [], da_offset = 0, da_line = 0, da_column = 0, da_imports = [], da_regions = [],
      da_diagnostics = []\<rparr>"

definition node_region_kind :: "node_kind \<Rightarrow> region_kind option" where
  "node_region_kind k =
     (case k of
        NodeStatement \<Rightarrow> Some AnalysisStatement
      | NodeExpression \<Rightarrow> Some AnalysisExpression
      | NodeComponent \<Rightarrow> Some AnalysisComponent
      | NodeComment \<Rightarrow> Some AnalysisComment
      | NodeText \<Rightarrow> None)"

definition node_region :: "renderer_node \<Rightarrow> analysis_region option" where
  "node_region node =
     (case node_region_kind (node_kind node) of
        None \<Rightarrow> None
      | Some kind \<Rightarrow>
          Some \<lparr>region_kind = kind, region_text = node_text node, region_context = node_context node,
                region_offset = pos_offset (node_pos node), region_length = length (node_text node),
                region_line = pos_line (node_pos node), region_column = pos_column (node_pos node)\<rparr>)"

definition describe_file :: "bytes \<Rightarrow> source_file \<Rightarrow> document_analysis" where
  \<comment> \<open>the fields read off the parsed header\<close>
  "describe_file path file =
     (empty_analysis path)
       \<lparr>da_package := file_package file, da_component := file_name file,
        da_type_params := file_type_params file, da_params := file_params file,
        da_signature := ''func '' @ file_name file @ file_type_params file @ file_params file,
        da_offset := pos_offset (file_function_pos file), da_line := pos_line (file_function_pos file),
        da_column := pos_column (file_function_pos file),
        da_imports := map (\<lambda>i. \<lparr>ai_alias = import_alias i, ai_path = import_path i\<rparr>) (file_imports file)\<rparr>"

text \<open>\<open>analyzeSource\<close> from \<open>analyzeContexts\<close> on; \<open>None\<close> is the empty \<open>CompiledFile\<close>.\<close>

definition analyze_parsed ::
  "backend_env \<Rightarrow> document_analysis \<Rightarrow> source_file \<Rightarrow> diagnostic list
   \<Rightarrow> document_analysis \<times> compiled_file option" where
  "analyze_parsed env doc file diags =
     (let diags = diags @ audit_trust_calls env file;
          doc = doc\<lparr>da_regions := List.map_filter node_region (file_nodes file)\<rparr>
      in if has_errors diags then (doc\<lparr>da_diagnostics := sort_diagnostics diags\<rparr>, None)
         else
           (let (generated, backend_diags) = generate_go env file;
                diags = diags @ backend_diags;
                doc = doc\<lparr>da_diagnostics := sort_diagnostics diags\<rparr>
            in if has_errors diags then (doc, None)
               else (case generated of
                   None \<Rightarrow> (doc, None)
                 | Some c \<Rightarrow>
                     (doc, Some \<lparr>compiled_source_path = da_path doc, compiled_output_path = da_path doc @ ''.go'',
                       compiled_package = file_package file, compiled_component = file_name file,
                       compiled_digest = [], compiled_code = c, compiled_source = Some file,
                       compiled_source_mode = 0\<rparr>))))"

definition analyze_source :: "backend_env \<Rightarrow> bytes \<Rightarrow> bytes \<Rightarrow> document_analysis \<times> compiled_file option" where
  "analyze_source env path source =
     (let clean = path_clean path in
      case parse_source (be_tools env) (go_quote (be_is_print env)) clean source of
        (None, diags) \<Rightarrow> ((empty_analysis clean)\<lparr>da_diagnostics := sort_diagnostics diags\<rparr>, None)
      | (Some file, diags) \<Rightarrow>
          (case analyze_contexts (be_go env) file of
             None \<Rightarrow> (describe_file clean file, None) \<comment> \<open>a panic, which cannot occur\<close>
           | Some (file', context_diags) \<Rightarrow>
               analyze_parsed env (describe_file clean file) file' (diags @ context_diags)))"

text \<open>\<open>AnalyzeSources\<close>: the loop over the ordered inputs, then the checks over all of them.\<close>

definition canceled_analysis :: "source_input \<Rightarrow> bytes \<Rightarrow> document_analysis" where
  "canceled_analysis input err =
     (empty_analysis (path_clean (input_path input)))
       \<lparr>da_diagnostics := [new_diagnostic (input_path input) position_one ''HIM2001'' (''operation canceled: '' @ err)]\<rparr>"

fun analyze_inputs ::
  "backend_env \<Rightarrow> (nat \<Rightarrow> bytes option) \<Rightarrow> nat \<Rightarrow> source_input list \<Rightarrow> document_analysis list \<times> compiled_file list" where
  "analyze_inputs env ctx i [] = ([], [])"
| "analyze_inputs env ctx i (input # rest) =
     (let (docs, outs) = analyze_inputs env ctx (Suc i) rest in
      case ctx i of
        Some err \<Rightarrow> (canceled_analysis input err # docs, outs)
      | None \<Rightarrow>
          (let (doc, out) = analyze_source env (input_path input) (input_source input)
           in (doc # docs, (case out of None \<Rightarrow> outs | Some c \<Rightarrow> c # outs))))"

definition add_set_diagnostics :: "diagnostic list \<Rightarrow> document_analysis \<Rightarrow> document_analysis" where
  \<comment> \<open>the diagnostics of the whole set that stand in this document\<close>
  "add_set_diagnostics found doc =
     doc\<lparr>da_diagnostics := sort_diagnostics
       (da_diagnostics doc @ filter (\<lambda>d. path_clean (diag_path d) = path_clean (da_path doc)) found)\<rparr>"

definition analyze_sources ::
  "backend_env \<Rightarrow> (bytes \<Rightarrow> go_expr option) \<Rightarrow> (nat \<Rightarrow> bytes option) \<Rightarrow> source_input list \<Rightarrow> document_analysis list" where
  "analyze_sources env parse ctx inputs =
     (let (docs, outs) = analyze_inputs env ctx 0 (sort_key (\<lambda>i. path_clean (input_path i)) inputs)
      in map (add_set_diagnostics (detect_component_cycles parse outs)) docs)"

declare empty_analysis_def [go_eval] node_region_kind_def [go_eval] node_region_def [go_eval]
  describe_file_def [go_eval] analyze_parsed_def [go_eval] analyze_source_def [go_eval]
  canceled_analysis_def [go_eval] add_set_diagnostics_def [go_eval] analyze_sources_def [go_eval]

subsection \<open>The editor sees what the compiler reports\<close>

lemma parse_source_mapping:
  "parse_source tools quote path source = (Some file, ds) \<Longrightarrow> file_mapping file = path_base path"
  by (auto simp: parse_source_def Let_def split: sum.splits prod.splits option.splits if_splits)

lemma analyze_parsed_compile:
  "analyze_parsed env doc file diags = (doc', out) \<Longrightarrow>
   compile_file env (da_path doc) source file diags = (r, ds) \<Longrightarrow>
   da_diagnostics doc' = ds \<and> out = map_option (\<lambda>c. c\<lparr>compiled_digest := []\<rparr>) r
     \<and> da_path doc' = da_path doc \<and> da_regions doc' = List.map_filter node_region (file_nodes file)"
  by (auto simp: analyze_parsed_def compile_file_def Let_def split: if_splits prod.splits option.splits)

lemma analyze_source_compile:
  assumes "analyze_source env path source = (doc, out)"
    and "compile_with_mapping env (path_clean path) source (path_base (path_clean path)) = (r, ds)"
  shows "da_diagnostics doc = ds \<and> out = map_option (\<lambda>c. c\<lparr>compiled_digest := []\<rparr>) r \<and> da_path doc = path_clean path"
proof -
  obtain p pd where p: "parse_source (be_tools env) (go_quote (be_is_print env)) (path_clean path) source = (p, pd)"
    by fastforce
  show ?thesis
  proof (cases p)
    case None
    then show ?thesis
      using assms p by (auto simp: analyze_source_def compile_with_mapping_def empty_analysis_def)
  next
    case (Some f)
    have same: "f\<lparr>file_mapping := path_base (path_clean path)\<rparr> = f"
      using parse_source_mapping [OF p [unfolded Some]] by (cases f) simp
    obtain f' cd where a: "analyze_contexts (be_go env) f = Some (f', cd)"
      using analyze_contexts_Some by blast
    show ?thesis
      using assms p Some same a
        analyze_parsed_compile [of env "describe_file (path_clean path) f" f' "pd @ cd" doc out source r ds]
      by (simp add: analyze_source_def compile_with_mapping_def describe_file_def empty_analysis_def)
  qed
qed

text \<open>What a compilation of one document gives, and the files the set is checked on.\<close>

definition compile_input :: "backend_env \<Rightarrow> source_input \<Rightarrow> compiled_file option \<times> diagnostic list" where
  "compile_input env input =
     (let clean = path_clean (input_path input)
      in compile_with_mapping env clean (input_source input) (path_base clean))"

definition compiled_inputs :: "backend_env \<Rightarrow> source_input list \<Rightarrow> compiled_file list" where
  "compiled_inputs env inputs =
     List.map_filter (\<lambda>i. map_option (\<lambda>c. c\<lparr>compiled_digest := []\<rparr>) (fst (compile_input env i))) inputs"

lemma analyze_inputs_compile:
  assumes "\<forall>i. ctx i = None"
  shows "map da_path (fst (analyze_inputs env ctx n inputs)) = map (\<lambda>i. path_clean (input_path i)) inputs
    \<and> map da_diagnostics (fst (analyze_inputs env ctx n inputs)) = map (\<lambda>i. snd (compile_input env i)) inputs
    \<and> snd (analyze_inputs env ctx n inputs) = compiled_inputs env inputs"
proof (induction inputs arbitrary: n)
  case Nil
  then show ?case by (simp add: compiled_inputs_def map_filter_simps)
next
  case (Cons input rest)
  obtain doc out where a: "analyze_source env (input_path input) (input_source input) = (doc, out)" by fastforce
  obtain r ds where c: "compile_input env input = (r, ds)" by fastforce
  then have one: "da_diagnostics doc = ds" "out = map_option (\<lambda>c. c\<lparr>compiled_digest := []\<rparr>) r"
      "da_path doc = path_clean (input_path input)"
    using analyze_source_compile [OF a, of r ds] by (simp_all add: compile_input_def Let_def)
  obtain docs outs where rest: "analyze_inputs env ctx (Suc n) rest = (docs, outs)" by fastforce
  have "ctx n = None" using assms by simp
  then show ?case
    using Cons.IH [of "Suc n"] a one c rest
    by (cases r) (simp_all add: compiled_inputs_def map_filter_simps Let_def)
qed

text \<open>
  C31: The editor sees exactly what the compiler reports. Analysing a set of documents that is not
  canceled gives one analysis per document, in the order of the cleaned paths; the diagnostics of each
  are those a compilation of that document reports, together with the duplicate and cycle findings
  of the whole set that stand in it, sorted. The set is checked on exactly the documents that compile.
\<close>
theorem analyze_sources_compile:
  fixes inputs :: "source_input list"
  assumes "\<forall>i. ctx i = None"
  defines "sorted_inputs \<equiv> sort_key (\<lambda>i. path_clean (input_path i)) inputs"
  shows "map da_path (analyze_sources env parse ctx inputs) = map (\<lambda>i. path_clean (input_path i)) sorted_inputs
    \<and> map da_diagnostics (analyze_sources env parse ctx inputs)
      = map (\<lambda>i. sort_diagnostics (snd (compile_input env i)
            @ filter (\<lambda>d. path_clean (diag_path d) = path_clean (input_path i))
                (detect_component_cycles parse (compiled_inputs env sorted_inputs)))) sorted_inputs"
proof -
  obtain docs outs where r: "analyze_inputs env ctx 0 sorted_inputs = (docs, outs)" by fastforce
  note all = analyze_inputs_compile [OF assms(1), of env 0 sorted_inputs, unfolded r fst_conv snd_conv]
  let ?found = "detect_component_cycles parse (compiled_inputs env sorted_inputs)"
  have "analyze_sources env parse ctx inputs = map (add_set_diagnostics ?found) docs"
    using all r by (simp add: analyze_sources_def sorted_inputs_def)
  moreover have "map da_path (map (add_set_diagnostics ?found) docs) = map da_path docs"
    by (simp add: add_set_diagnostics_def)
  moreover have "map da_diagnostics (map (add_set_diagnostics ?found) docs)
      = map (\<lambda>(p, ds). sort_diagnostics (ds @ filter (\<lambda>d. path_clean (diag_path d) = path_clean p) ?found))
          (zip (map da_path docs) (map da_diagnostics docs))"
    by (simp add: add_set_diagnostics_def zip_map_map zip_same_conv_map)
  ultimately show ?thesis
    using all by (simp add: zip_map_map zip_same_conv_map)
qed

theorem analyze_sources_compile_witness:
  "map da_path (analyze_sources sample_backend sample_parse_call (\<lambda>_. None)
      [\<lparr>input_path = ''b/../b.san'', input_source = ''x''\<rparr>, \<lparr>input_path = ''a.san'', input_source = ''y''\<rparr>])
   = [''a.san'', ''b.san'']"
proof -
  have "sort_key (\<lambda>i. path_clean (input_path i))
      [\<lparr>input_path = ''b/../b.san'', input_source = ''x''\<rparr>, \<lparr>input_path = ''a.san'', input_source = ''y''\<rparr>]
    = [\<lparr>input_path = ''a.san'', input_source = ''y''\<rparr>, \<lparr>input_path = ''b/../b.san'', input_source = ''x''\<rparr>]"
    by (simp add: go_eval)
  then show ?thesis
    using analyze_sources_compile [of "\<lambda>_. None" sample_backend sample_parse_call] by (simp add: go_eval)
qed

end
