(* ===== verification/Operations.thy ===== *)
theory Operations
  imports Discovery Source_Analysis "HOL-Library.Word"
begin

section \<open>Generate and Check: internal/compiler/operation.go\<close>

text \<open>
  The two operations of the command line on the modelled file system: compile everything found,
  validate every destination, then replace the outputs that changed, each atomically; or compare them.
\<close>

subsection \<open>moduleRelativeSourcePath\<close>

text \<open>
  The loop over the parent directories. Its fuel is the length of the path; the outer \<open>None\<close> is
  running out of it, which does not happen (see below).
\<close>

fun module_loop :: "'d host \<Rightarrow> bytes \<Rightarrow> nat \<Rightarrow> bytes \<Rightarrow> world \<Rightarrow> bytes option option \<times> world" where
  "module_loop h absolute 0 dir w = (None, w)"
| "module_loop h absolute (Suc fuel) dir w =
     (case lstat h (path_join dir ''go.mod'') w of (r, w) \<Rightarrow>
        (let relative = (case r of
               Inr entry \<Rightarrow> (if is_regular entry then path_rel dir absolute else None)
             | Inl e \<Rightarrow> None)
         in case relative of
              Some p \<Rightarrow> (Some (Some p), w)
            | None \<Rightarrow>
                (if path_dir dir = dir then (Some None, w) else module_loop h absolute fuel (path_dir dir) w)))"

definition module_relative_source_path :: "'d host \<Rightarrow> bytes \<Rightarrow> world \<Rightarrow> bytes \<times> world" where
  "module_relative_source_path h path w =
     (case absolute_path h path of
        Inl e \<Rightarrow> (path_base path, w)
      | Inr absolute \<Rightarrow>
          (case module_loop h absolute (length absolute + 1) (path_dir absolute) w of
             (Some (Some p), w) \<Rightarrow> (p, w)
           | (_, w) \<Rightarrow> (path_base path, w)))"

subsection \<open>atomicWrite\<close>

text \<open>The steps on the temporary file, up to \<open>Close\<close>: the first error, if any.\<close>

definition prepare_temp :: "'d host \<Rightarrow> bytes \<Rightarrow> bytes \<Rightarrow> nat \<Rightarrow> world \<Rightarrow> os_error option \<times> world" where
  "prepare_temp h temp content mode w =
     (case write_temp h temp content w of
        (Some e, w) \<Rightarrow> (Some e, w)
      | (None, w) \<Rightarrow>
          (case change_file h temp (Some (RegularFile (mode mod 512) content)) w of
             (Some e, w) \<Rightarrow> (Some e, w)
           | (None, w) \<Rightarrow>
               (case plain_call h w of
                  (Some e, w) \<Rightarrow> (Some e, w)
                | (None, w) \<Rightarrow> plain_call h w)))"

text \<open>Opening, syncing and closing the directory; their results are ignored.\<close>

definition sync_directory :: "'d host \<Rightarrow> world \<Rightarrow> world" where
  "sync_directory h w =
     (case plain_call h w of
        (Some e, w) \<Rightarrow> w
      | (None, w) \<Rightarrow> snd (plain_call h (snd (plain_call h w))))"

text \<open>The deferred function: close the file if it is not, remove it, and choose the error.\<close>

definition finish_temp :: "'d host \<Rightarrow> bytes \<Rightarrow> bool \<Rightarrow> os_error option \<Rightarrow> world \<Rightarrow> os_error option \<times> world" where
  "finish_temp h temp closed err w =
     (let (close_err, w) = (if closed then (None, w) else plain_call h w);
          (remove_err, w) = remove_file h temp w;
          err = (if err = None \<and> close_err \<noteq> None then close_err else err)
      in (case remove_err of
            Some e \<Rightarrow> (if err = None \<and> \<not> is_not_exist e then Some e else err)
          | None \<Rightarrow> err, w))"

definition atomic_write :: "'d host \<Rightarrow> bytes \<Rightarrow> bytes \<Rightarrow> nat \<Rightarrow> world \<Rightarrow> os_error option \<times> world" where
  "atomic_write h path content mode w =
     (case create_temp h (path_dir path) w of
        (Inl e, w) \<Rightarrow> (Some e, w)
      | (Inr temp, w) \<Rightarrow>
          (case prepare_temp h temp content mode w of
             (Some e, w) \<Rightarrow> finish_temp h temp False (Some e) w
           | (None, w) \<Rightarrow>
               (case rename_file h temp path w of
                  (Some e, w) \<Rightarrow> finish_temp h temp True (Some e) w
                | (None, w) \<Rightarrow> finish_temp h temp True None (sync_directory h w))))"

subsection \<open>compileOperation\<close>

definition unsuitable :: "fs_entry \<Rightarrow> bool" where
  \<comment> \<open>\<open>info.Mode()&os.ModeSymlink != 0 || !info.Mode().IsRegular()\<close>\<close>
  "unsuitable entry = (is_symlink entry \<or> \<not> is_regular entry)"

definition compile_source ::
  "fs_host \<Rightarrow> backend_env \<Rightarrow> bytes \<Rightarrow> world \<Rightarrow> (compiled_file option \<times> diagnostic list) \<times> world" where
  \<comment> \<open>one turn of the loop, after the cancellation check\<close>
  "compile_source h env path w =
     (case lstat h path w of
        (Inl e, w) \<Rightarrow>
          ((None, [file_problem path ''HIM2010'' (''cannot inspect source before compilation: '' @ os_error_text e)]), w)
      | (Inr info, w) \<Rightarrow>
          (if unsuitable info
           then ((None, [file_problem path ''HIM2012'' ''source changed into a symlink or non-regular file during discovery'']), w)
           else (case read_file h path w of
               (Inl e, w) \<Rightarrow> ((None, [file_problem path ''HIM2010'' (''cannot read source: '' @ os_error_text e)]), w)
             | (Inr source, w) \<Rightarrow>
                 (case module_relative_source_path h path w of (mapping, w) \<Rightarrow>
                    (case compile_with_mapping env (path_clean path) source mapping of (out, ds) \<Rightarrow>
                       ((map_option (\<lambda>c. c\<lparr>compiled_source_mode := entry_permissions info mod 512\<rparr>) out, ds), w))))))"

fun compile_sources ::
  "fs_host \<Rightarrow> backend_env \<Rightarrow> bytes list \<Rightarrow> world \<Rightarrow> (compiled_file list \<times> diagnostic list) \<times> world" where
  "compile_sources h env [] w = (([], []), w)"
| "compile_sources h env (path # paths) w =
     (case ctx_err h w of
        (Some e, w) \<Rightarrow> (([], [file_problem path ''HIM2001'' (''operation canceled: '' @ e)]), w)
      | (None, w) \<Rightarrow>
          (case compile_source h env path w of ((out, ds), w) \<Rightarrow>
             (case compile_sources h env paths w of ((outs, ds'), w) \<Rightarrow>
                (((case out of None \<Rightarrow> outs | Some c \<Rightarrow> c # outs), ds @ ds'), w))))"

definition new_file_result :: "compiled_file \<Rightarrow> file_result" where
  "new_file_result c =
     \<lparr>result_source_path = compiled_source_path c, result_output_path = compiled_output_path c,
      result_changed = False, result_stale = False, result_missing = False\<rparr>"

definition compile_operation ::
  "fs_host \<Rightarrow> backend_env \<Rightarrow> (bytes \<Rightarrow> go_expr option) \<Rightarrow> bytes list \<Rightarrow> world
   \<Rightarrow> (compiled_file list \<times> operation_result) \<times> world" where
  "compile_operation h env parse paths w =
     (case discover h paths w of ((found, discovery), w) \<Rightarrow>
        (case compile_sources h env found w of ((compiled, ds), w) \<Rightarrow>
           ((sort_key compiled_source_path compiled,
             \<lparr>op_files = sort_key result_source_path (map new_file_result compiled),
              op_diagnostics = sort_diagnostics (discovery @ ds @ detect_component_cycles parse compiled),
              op_discovered = length found, op_changed = 0, op_unchanged = 0, op_stale = 0, op_missing = 0\<rparr>), w)))"

subsection \<open>Generate\<close>

definition validate_output :: "'d host \<Rightarrow> compiled_file \<Rightarrow> world \<Rightarrow> diagnostic list \<times> world" where
  "validate_output h c w =
     (let path = compiled_output_path c in
      case lstat h path w of
        (Inl e, w) \<Rightarrow>
          (if is_not_exist e then ([], w)
           else ([file_problem path ''HIM2101'' (''cannot inspect generated output: '' @ os_error_text e)], w))
      | (Inr info, w) \<Rightarrow>
          (if unsuitable info
           then ([file_problem path ''HIM2102'' ''refusing to replace a non-regular or symlink output''], w)
           else (case read_file h path w of
               (Inl e, w) \<Rightarrow> ([file_problem path ''HIM2103'' (''cannot read generated output: '' @ os_error_text e)], w)
             | (Inr existing, w) \<Rightarrow>
                 (if \<not> has_prefix (generated_prefix @ [LF]) existing
                  then ([file_problem path ''HIM2104'' ''refusing to overwrite a file not owned by Hime-san''], w)
                  else ([], w)))))"

fun validate_outputs :: "'d host \<Rightarrow> compiled_file list \<Rightarrow> world \<Rightarrow> diagnostic list \<times> world" where
  "validate_outputs h [] w = ([], w)"
| "validate_outputs h (c # cs) w =
     (case validate_output h c w of (ds, w) \<Rightarrow>
        (case validate_outputs h cs w of (ds', w) \<Rightarrow> (ds @ ds', w)))"

definition output_mode :: "'d host \<Rightarrow> compiled_file \<Rightarrow> world \<Rightarrow> nat \<times> world" where
  \<comment> \<open>an existing output keeps its permissions, a new one gets the source's without the execute bits\<close>
  "output_mode h c w =
     (case stat h (compiled_output_path c) w of
        (Inr info, w) \<Rightarrow> (entry_permissions info mod 512, w)
      | (Inl e, w) \<Rightarrow> (and (compiled_source_mode c) 438, w))"

definition write_output :: "'d host \<Rightarrow> compiled_file \<Rightarrow> world \<Rightarrow> bool \<times> os_error option \<times> world" where
  \<comment> \<open>whether the output was already equal, and the error of replacing it\<close>
  "write_output h c w =
     (case read_file h (compiled_output_path c) w of (r, w) \<Rightarrow>
        (if (case r of Inl e \<Rightarrow> False | Inr existing \<Rightarrow> generated_code_equal existing (compiled_code c)) then (True, None, w)
         else (case output_mode h c w of (mode, w) \<Rightarrow>
                 (False, atomic_write h (compiled_output_path c) (compiled_code c) mode w))))"

fun write_outputs :: "'d host \<Rightarrow> nat \<Rightarrow> compiled_file list \<Rightarrow> operation_result \<Rightarrow> world \<Rightarrow> operation_result \<times> world" where
  "write_outputs h i [] r w = (r, w)"
| "write_outputs h i (c # cs) r w =
     (case ctx_err h w of
        (Some e, w) \<Rightarrow>
          (r\<lparr>op_diagnostics := op_diagnostics r @ [file_problem (compiled_source_path c) ''HIM2001'' (''operation canceled: '' @ e)]\<rparr>, w)
      | (None, w) \<Rightarrow>
          (case write_output h c w of
             (True, err, w) \<Rightarrow>
               write_outputs h (Suc i) cs
                 (r\<lparr>op_files := (op_files r)[i := (op_files r ! i)\<lparr>result_changed := False\<rparr>],
                    op_unchanged := op_unchanged r + 1\<rparr>) w
           | (False, Some e, w) \<Rightarrow>
               (r\<lparr>op_diagnostics := op_diagnostics r @ [file_problem (compiled_output_path c) ''HIM2110''
                    (''atomic output replacement failed: '' @ os_error_text e)]\<rparr>, w)
           | (False, None, w) \<Rightarrow>
               write_outputs h (Suc i) cs
                 (r\<lparr>op_files := (op_files r)[i := (op_files r ! i)\<lparr>result_changed := True\<rparr>],
                    op_changed := op_changed r + 1\<rparr>) w))"

definition sort_result :: "operation_result \<Rightarrow> operation_result" where
  "sort_result r = r\<lparr>op_diagnostics := sort_diagnostics (op_diagnostics r)\<rparr>"

definition generate_compiled :: "'d host \<Rightarrow> compiled_file list \<Rightarrow> operation_result \<Rightarrow> world \<Rightarrow> operation_result \<times> world" where
  \<comment> \<open>\<open>Generate\<close> after \<open>compileOperation\<close>\<close>
  "generate_compiled h compiled r w =
     (if has_errors (op_diagnostics r) then (r, w)
      else
        (case validate_outputs h compiled w of (ds, w) \<Rightarrow>
           (let r = sort_result (r\<lparr>op_diagnostics := op_diagnostics r @ ds\<rparr>)
            in if has_errors (op_diagnostics r) then (r, w)
               else (case write_outputs h 0 compiled r w of (r, w) \<Rightarrow> (sort_result r, w)))))"

definition generate ::
  "fs_host \<Rightarrow> backend_env \<Rightarrow> (bytes \<Rightarrow> go_expr option) \<Rightarrow> bytes list \<Rightarrow> world
   \<Rightarrow> (operation_result \<times> diagnostic list option) \<times> world" where
  "generate h env parse paths w =
     (case compile_operation h env parse paths w of ((compiled, r), w) \<Rightarrow>
        (case generate_compiled h compiled r w of (r, w) \<Rightarrow>
           ((r, error_from_diagnostics (op_diagnostics r)), w)))"

subsection \<open>Check\<close>

datatype output_status = StatusFresh | StatusMissing diagnostic | StatusStale diagnostic | StatusProblem diagnostic

text \<open>Reading an output that is a regular file or absent, and comparing it.\<close>

definition check_content :: "'d host \<Rightarrow> compiled_file \<Rightarrow> world \<Rightarrow> output_status \<times> world" where
  "check_content h c w =
     (let path = compiled_output_path c in
      case read_file h path w of
        (Inl e, w) \<Rightarrow>
          (if is_not_exist e
           then (StatusMissing (file_problem path ''HIM2201'' ''generated output is missing; run himesan generate''), w)
           else (StatusProblem (file_problem path ''HIM2202'' (''cannot read generated output: '' @ os_error_text e)), w))
      | (Inr existing, w) \<Rightarrow>
          (if generated_code_equal existing (compiled_code c) then (StatusFresh, w)
           else if \<not> has_prefix (generated_prefix @ [LF]) existing
           then (StatusStale (file_problem path ''HIM2203'' ''expected output exists but is not owned by Hime-san''), w)
           else (StatusStale (file_problem path ''HIM2204'' ''generated output is stale; run himesan generate''), w)))"

definition check_output :: "'d host \<Rightarrow> compiled_file \<Rightarrow> world \<Rightarrow> output_status \<times> world" where
  "check_output h c w =
     (let path = compiled_output_path c in
      case lstat h path w of
        (Inr info, w) \<Rightarrow>
          (if unsuitable info
           then (StatusProblem (file_problem path ''HIM2205'' ''generated output is a symlink or non-regular file''), w)
           else check_content h c w)
      | (Inl e, w) \<Rightarrow>
          (if \<not> is_not_exist e
           then (StatusProblem (file_problem path ''HIM2202'' (''cannot inspect generated output: '' @ os_error_text e)), w)
           else check_content h c w))"

definition record_status :: "nat \<Rightarrow> output_status \<Rightarrow> operation_result \<Rightarrow> operation_result" where
  "record_status i status r =
     (case status of
        StatusFresh \<Rightarrow> r\<lparr>op_unchanged := op_unchanged r + 1\<rparr>
      | StatusMissing d \<Rightarrow>
          r\<lparr>op_files := (op_files r)[i := (op_files r ! i)\<lparr>result_missing := True\<rparr>],
            op_missing := op_missing r + 1, op_diagnostics := op_diagnostics r @ [d]\<rparr>
      | StatusStale d \<Rightarrow>
          r\<lparr>op_files := (op_files r)[i := (op_files r ! i)\<lparr>result_stale := True\<rparr>],
            op_stale := op_stale r + 1, op_diagnostics := op_diagnostics r @ [d]\<rparr>
      | StatusProblem d \<Rightarrow> r\<lparr>op_diagnostics := op_diagnostics r @ [d]\<rparr>)"

fun check_outputs :: "'d host \<Rightarrow> nat \<Rightarrow> compiled_file list \<Rightarrow> operation_result \<Rightarrow> world \<Rightarrow> operation_result \<times> world" where
  "check_outputs h i [] r w = (r, w)"
| "check_outputs h i (c # cs) r w =
     (case ctx_err h w of
        (Some e, w) \<Rightarrow>
          (r\<lparr>op_diagnostics := op_diagnostics r @ [file_problem (compiled_source_path c) ''HIM2001'' (''operation canceled: '' @ e)]\<rparr>, w)
      | (None, w) \<Rightarrow>
          (case check_output h c w of (status, w) \<Rightarrow> check_outputs h (Suc i) cs (record_status i status r) w))"

definition check_compiled :: "'d host \<Rightarrow> compiled_file list \<Rightarrow> operation_result \<Rightarrow> world \<Rightarrow> operation_result \<times> world" where
  \<comment> \<open>\<open>Check\<close> after \<open>compileOperation\<close>\<close>
  "check_compiled h compiled r w =
     (if has_errors (op_diagnostics r) then (r, w)
      else (case check_outputs h 0 compiled r w of (r, w) \<Rightarrow> (sort_result r, w)))"

definition check ::
  "fs_host \<Rightarrow> backend_env \<Rightarrow> (bytes \<Rightarrow> go_expr option) \<Rightarrow> bytes list \<Rightarrow> world
   \<Rightarrow> (operation_result \<times> diagnostic list option) \<times> world" where
  "check h env parse paths w =
     (case compile_operation h env parse paths w of ((compiled, r), w) \<Rightarrow>
        (case check_compiled h compiled r w of (r, w) \<Rightarrow>
           ((r, error_from_diagnostics (op_diagnostics r)), w)))"

declare module_relative_source_path_def [go_eval] prepare_temp_def [go_eval] sync_directory_def [go_eval]
  finish_temp_def [go_eval] atomic_write_def [go_eval] unsuitable_def [go_eval] compile_source_def [go_eval]
  new_file_result_def [go_eval] compile_operation_def [go_eval] validate_output_def [go_eval]
  output_mode_def [go_eval] write_output_def [go_eval] sort_result_def [go_eval] generate_compiled_def [go_eval]
  generate_def [go_eval] check_content_def [go_eval] check_output_def [go_eval] record_status_def [go_eval]
  check_compiled_def [go_eval] check_def [go_eval]

subsection \<open>The module loop ends\<close>

lemma module_loop_ends:
  "is_rooted dir \<Longrightarrow> path_clean dir = dir \<Longrightarrow> length dir < fuel \<Longrightarrow> fst (module_loop h absolute fuel dir w) \<noteq> None"
proof (induction h absolute fuel dir w rule: module_loop.induct)
  case (1 h absolute dir w)
  then show ?case by simp
next
  case (2 h absolute fuel dir w)
  have parent: "is_rooted (path_dir dir)" "path_clean (path_dir dir) = path_dir dir"
    using dir_prefix_rooted [OF "2.prems"(1)] path_clean_rooted by (simp_all add: path_dir_def dir_prefix_def)
  have "path_dir dir \<noteq> dir \<Longrightarrow> length (path_dir dir) < fuel"
    using path_dir_shorter [OF "2.prems"(1,2)] "2.prems"(3) by auto
  moreover obtain r w1 where "lstat h (path_join dir ''go.mod'') w = (r, w1)" by fastforce
  ultimately show ?case
    using "2.IH" [of r w1, OF _ refl] parent by (auto simp: Let_def split: option.splits)
qed

end
