(* ===== verification/Output_Files.thy ===== *)
theory Output_Files
  imports Operations
begin

section \<open>What Generate may do to the files\<close>

text \<open>
  From one atomic replacement to the whole writing loop of \<open>Generate\<close>: which entries of the file
  system can change, whatever call fails, and what holds of the outputs when no error is reported.
\<close>

subsection \<open>The steps of an atomic replacement\<close>

lemma plain_call_same: "plain_call h w = (r, w') \<Longrightarrow> w_files w' = w_files w"
  using plain_call_files [of h w] by simp

lemma create_temp_ok:
  "create_temp h dir w = (r, w') \<Longrightarrow>
   (case r of
      Inl e \<Rightarrow> w_files w' = w_files w
    | Inr name \<Rightarrow> name = temporary_name dir (host_random h (w_clock w)) \<and> entry_of h (w_files w) name = None
        \<and> w_files w' = (w_files w)(resolve h name \<mapsto> RegularFile 384 []))"
  by (auto simp: create_temp_def Let_def split: option.splits if_splits)

lemma prepare_temp_ok:
  assumes "prepare_temp h temp content mode w = (err, w')"
  shows "\<exists>entry. w_files w' = (w_files w)(resolve h temp \<mapsto> entry)
    \<and> (err = None \<longrightarrow> entry = RegularFile (mode mod 512) content)"
  using assms
  by (auto simp: prepare_temp_def write_temp_def change_file_def plain_call_def split: option.splits prod.splits)

lemma finish_temp_ok:
  assumes "finish_temp h temp closed err w = (err', w')"
  shows "w_files w' = (w_files w)(resolve h temp := None) \<or> w_files w' = w_files w"
    and "err \<noteq> None \<Longrightarrow> err' \<noteq> None"
    and "err' = None \<Longrightarrow> w_files w' (resolve h temp) = None"
  using assms
  by (auto simp: finish_temp_def Let_def remove_file_def plain_call_def no_such_file_def split: option.splits prod.splits if_splits)

lemma sync_directory_files [simp]: "w_files (sync_directory h w) = w_files w"
  by (auto simp: sync_directory_def plain_call_def split: option.split)

lemma rename_file_ok:
  "rename_file h old new w = (err, w') \<Longrightarrow>
   (if err = None then w_files w' = (w_files w)(resolve h new := entry_of h (w_files w) old, resolve h old := None)
    else w_files w' = w_files w)"
  by (auto simp: rename_file_def split: option.splits fs_entry.splits)

text \<open>
  The three outcomes of a replacement: nothing changed, a temporary file is left, or the new
  content is in place.
\<close>

lemma atomic_write_ok:
  assumes run: "atomic_write h path content mode w = (err, w')"
    and temp: "temp = resolve h (temporary_name (path_dir path) (host_random h (w_clock w)))" "temp \<noteq> resolve h path"
  shows "err \<noteq> None \<and> w_files w' = w_files w
    \<or> err \<noteq> None \<and> w_files w temp = None \<and> (\<exists>entry. w_files w' = (w_files w)(temp \<mapsto> entry))
    \<or> w_files w' = (w_files w)(resolve h path \<mapsto> RegularFile (mode mod 512) content)"
proof -
  let ?k = "resolve h path"
  obtain c w1 where c: "create_temp h (path_dir path) w = (c, w1)" by fastforce
  show ?thesis
  proof (cases c)
    case (Inl e)
    then show ?thesis using run c create_temp_ok [OF c] by (auto simp: atomic_write_def)
  next
    case (Inr name)
    then have name: "resolve h name = temp" "w_files w temp = None" "w_files w1 = (w_files w)(temp \<mapsto> RegularFile 384 [])"
      using create_temp_ok [OF c] temp(1) by auto
    obtain e w2 where p: "prepare_temp h name content mode w1 = (e, w2)" by fastforce
    obtain entry where entry: "w_files w2 = (w_files w)(temp \<mapsto> entry)"
        "e = None \<longrightarrow> entry = RegularFile (mode mod 512) content"
      using prepare_temp_ok [OF p] name by auto
    have unchanged: "(w_files w)(temp := None) = w_files w" using name(2) by auto
    show ?thesis
    proof (cases e)
      case (Some x)
      then have "finish_temp h name False e w2 = (err, w')" using run c Inr p by (simp add: atomic_write_def)
      note fin = finish_temp_ok [OF this]
      show ?thesis using fin(1,2) Some name entry unchanged by auto
    next
      case None
      obtain e' w3 where r: "rename_file h name path w2 = (e', w3)" by fastforce
      show ?thesis
      proof (cases e')
        case (Some x)
        then have "finish_temp h name True e' w3 = (err, w')" using run c Inr p None r by (simp add: atomic_write_def)
        note fin = finish_temp_ok [OF this]
        show ?thesis using fin(1,2) Some name entry unchanged rename_file_ok [OF r] by auto
      next
        case None': None
        then have f: "finish_temp h name True None (sync_directory h w3) = (err, w')"
          using run c Inr p None r by (simp add: atomic_write_def)
        have moved: "w_files w3 = (w_files w)(?k \<mapsto> RegularFile (mode mod 512) content)"
          using rename_file_ok [OF r] None' name entry None temp(2) by (auto simp: fun_eq_iff)
        then have "(w_files w3)(temp := None) = w_files w3"
          using name(2) temp(2) by (auto simp: fun_eq_iff)
        then show ?thesis using finish_temp_ok(1) [OF f] name(1) moved by auto
      qed
    qed
  qed
qed

text \<open>On a quiet host with a fresh temporary name the replacement happens, except of a directory.\<close>

definition fresh_temp :: "'d host \<Rightarrow> bytes \<Rightarrow> world \<Rightarrow> bool" where
  "fresh_temp h path w = (entry_of h (w_files w) (temporary_name (path_dir path) (host_random h (w_clock w))) = None)"

lemma quiet_atomic_write:
  assumes "quiet_host h" and "fresh_temp h path w"
    and "resolve h (temporary_name (path_dir path) (host_random h (w_clock w))) \<noteq> resolve h path"
    and "\<not> (\<exists>entry. entry_of h (w_files w) path = Some entry \<and> is_directory entry)"
  shows "fst (atomic_write h path content mode w) = None"
proof -
  have fault: "host_fault h t = None" for t using assms(1) by (simp add: quiet_host_def)
  show ?thesis
    using assms(2-4)
    by (auto simp: atomic_write_def create_temp_def Let_def fresh_temp_def fault prepare_temp_def write_temp_def
        change_file_def plain_call_def rename_file_def sync_directory_def finish_temp_def remove_file_def no_such_file_def
        split: option.splits fs_entry.splits)
qed

subsection \<open>What a run of Generate may do to the files\<close>

abbreviation output_key :: "'d host \<Rightarrow> compiled_file \<Rightarrow> bytes" where
  "output_key h c \<equiv> resolve h (compiled_output_path c)"

definition owned_or_absent :: "fs_entry option \<Rightarrow> bool" where
  \<comment> \<open>what may be replaced: nothing, or a regular file that starts with the ownership marker\<close>
  "owned_or_absent e =
     (case e of
        None \<Rightarrow> True
      | Some (RegularFile perm content) \<Rightarrow> has_prefix (generated_prefix @ [LF]) content
      | Some _ \<Rightarrow> False)"

definition fresh_output :: "compiled_file \<Rightarrow> fs_entry option \<Rightarrow> bool" where
  "fresh_output c e =
     (case e of
        Some (RegularFile perm content) \<Rightarrow> generated_code_equal content (compiled_code c)
      | _ \<Rightarrow> False)"

definition replaced_output :: "compiled_file \<Rightarrow> fs_entry option \<Rightarrow> fs_entry option \<Rightarrow> bool" where
  \<comment> \<open>the generated code, with the permissions of the file it replaces or those of the source less execution\<close>
  "replaced_output c e e' =
     (\<exists>m. e' = Some (RegularFile m (compiled_code c))
        \<and> (m = and (compiled_source_mode c) 438 mod 512 \<or> (\<exists>entry. e = Some entry \<and> m = entry_permissions entry mod 512)))"

definition temporary_of :: "'d host \<Rightarrow> compiled_file \<Rightarrow> bytes \<Rightarrow> bool" where
  "temporary_of h c k = (\<exists>n. k = resolve h (temporary_name (path_dir (compiled_output_path c)) n))"

lemma owned_cases:
  assumes "owned_or_absent e"
  obtains "e = None" | perm content where "e = Some (RegularFile perm content)" "has_prefix (generated_prefix @ [LF]) content"
  using assms by (auto simp: owned_or_absent_def split: option.splits fs_entry.splits)

lemma stat_owned:
  "stat h path w = (Inr info, w') \<Longrightarrow> owned_or_absent (entry_of h (w_files w) path) \<Longrightarrow>
   entry_of h (w_files w) path = Some info"
  by (auto simp: stat_def owned_or_absent_def numeral_eq_Suc split: option.splits fs_entry.splits)

lemma output_mode_ok:
  assumes run: "output_mode h c w = (mode, w')" and owned: "owned_or_absent (w_files w (output_key h c))"
  shows "w_files w' = w_files w"
    and "mode = and (compiled_source_mode c) 438
      \<or> (\<exists>entry. w_files w (output_key h c) = Some entry \<and> mode = entry_permissions entry mod 512)"
proof -
  obtain s w1 where s: "stat h (compiled_output_path c) w = (s, w1)" by fastforce
  show "w_files w' = w_files w"
    using run s stat_files [of h "compiled_output_path c" w] by (auto simp: output_mode_def split: sum.splits)
  show "mode = and (compiled_source_mode c) 438
      \<or> (\<exists>entry. w_files w (output_key h c) = Some entry \<and> mode = entry_permissions entry mod 512)"
    using run s stat_owned [OF _ owned] by (auto simp: output_mode_def split: sum.splits)
qed

lemma file_problem_error [simp]: "is_error (file_problem path dcode m)"
  by (simp add: file_problem_def)

lemma validate_output_ok:
  assumes "validate_output h c w = (ds, w')"
  shows "w_files w' = w_files w"
    and "\<not> has_errors ds \<Longrightarrow> ds = [] \<and> owned_or_absent (w_files w (output_key h c))"
proof -
  obtain l w1 where l: "lstat h (compiled_output_path c) w = (l, w1)" by fastforce
  obtain q w2 where q: "read_file h (compiled_output_path c) w1 = (q, w2)" by fastforce
  note same = lstat_same [OF l] read_file_same [OF q]
  show "w_files w' = w_files w"
    using assms l q same by (auto simp: validate_output_def Let_def split: sum.splits if_splits)
  show "ds = [] \<and> owned_or_absent (w_files w (output_key h c))" if ok: "\<not> has_errors ds"
  proof (cases l)
    case (Inl e)
    then show ?thesis using assms l ok lstat_not_exist [of h "compiled_output_path c" w e w1]
      by (auto simp: validate_output_def Let_def owned_or_absent_def split: if_splits)
  next
    case (Inr entry)
    note entry = lstat_Inr [OF l [unfolded Inr]]
    have regular: "is_regular entry" using assms l Inr ok by (auto simp: validate_output_def Let_def unsuitable_def split: if_splits)
    then have "\<not> unsuitable entry" by (cases entry) (simp_all add: unsuitable_def)
    then obtain content where content: "q = Inr content" "has_prefix (generated_prefix @ [LF]) content" "ds = []"
      using assms l Inr q ok by (auto simp: validate_output_def Let_def split: sum.splits if_splits)
    have "entry = RegularFile (entry_permissions entry) content"
      using read_file_Inr [OF q [unfolded content(1)]] entry same(1) regular by simp
    then have "entry_of h (w_files w) (compiled_output_path c) = Some (RegularFile (entry_permissions entry) content)"
      using entry by simp
    then show ?thesis using content by (simp add: owned_or_absent_def)
  qed
qed

lemma validate_outputs_ok:
  "validate_outputs h cs w = (ds, w') \<Longrightarrow>
   w_files w' = w_files w
   \<and> (\<not> has_errors ds \<longrightarrow> ds = [] \<and> (\<forall>c\<in>set cs. owned_or_absent (w_files w (output_key h c))))"
proof (induction cs arbitrary: ds w w')
  case (Cons c cs)
  obtain d1 w1 where v: "validate_output h c w = (d1, w1)" by fastforce
  obtain d2 w2 where vs: "validate_outputs h cs w1 = (d2, w2)" by fastforce
  show ?case
    using Cons.prems Cons.IH [OF vs] v vs validate_output_ok [OF v] by auto
qed simp

text \<open>One output: equal already, replaced, or an error.\<close>

lemma write_output_ok:
  assumes run: "write_output h c w = (same, err, w')"
    and owned: "owned_or_absent (w_files w (output_key h c))" and o: "last (output_key h c) = CHR ''o''"
  shows "same \<longrightarrow> err = None \<and> w_files w' = w_files w \<and> fresh_output c (w_files w (output_key h c))"
    and "\<not> same \<longrightarrow>
      (err \<noteq> None \<and> w_files w' = w_files w
       \<or> err \<noteq> None \<and> (\<exists>t entry. temporary_of h c t \<and> w_files w t = None \<and> w_files w' = (w_files w)(t \<mapsto> entry))
       \<or> (\<exists>e. replaced_output c (w_files w (output_key h c)) (Some e) \<and> w_files w' = (w_files w)(output_key h c \<mapsto> e)))"
proof -
  let ?k = "output_key h c"
  obtain q w1 where q: "read_file h (compiled_output_path c) w = (q, w1)" by fastforce
  note files1 = read_file_same [OF q]
  show "same \<longrightarrow> err = None \<and> w_files w' = w_files w \<and> fresh_output c (w_files w ?k)"
    using owned
  proof (cases rule: owned_cases)
    case 1
    then show ?thesis using run q by (auto simp: write_output_def read_file_def numeral_eq_Suc split: option.splits prod.splits if_splits)
  next
    case (2 perm content)
    then show ?thesis using run q files1
      by (auto simp: write_output_def fresh_output_def dest: read_file_content split: sum.splits prod.splits if_splits)
  qed
  obtain mode w2 where m: "output_mode h c w1 = (mode, w2)" by fastforce
  have mode: "w_files w2 = w_files w"
      "mode = and (compiled_source_mode c) 438 \<or> (\<exists>entry. w_files w ?k = Some entry \<and> mode = entry_permissions entry mod 512)"
    using output_mode_ok [OF m] files1 owned by auto
  obtain err2 w3 where a: "atomic_write h (compiled_output_path c) (compiled_code c) mode w2 = (err2, w3)" by fastforce
  let ?t = "resolve h (temporary_name (path_dir (compiled_output_path c)) (host_random h (w_clock w2)))"
  have "?t \<noteq> ?k" using o temporary_last [of h "path_dir (compiled_output_path c)" "host_random h (w_clock w2)"] by auto
  note wrote = atomic_write_ok [OF a refl this]
  have temp: "temporary_of h c ?t" by (auto simp: temporary_of_def)
  have placed: "replaced_output c (w_files w ?k) (Some (RegularFile (mode mod 512) (compiled_code c)))"
    using mode(2) by (auto simp: replaced_output_def)
  show "\<not> same \<longrightarrow>
      (err \<noteq> None \<and> w_files w' = w_files w
       \<or> err \<noteq> None \<and> (\<exists>t entry. temporary_of h c t \<and> w_files w t = None \<and> w_files w' = (w_files w)(t \<mapsto> entry))
       \<or> (\<exists>e. replaced_output c (w_files w (output_key h c)) (Some e) \<and> w_files w' = (w_files w)(?k \<mapsto> e)))"
    using run q m a wrote mode(1) temp placed by (auto simp: write_output_def split: if_splits)
qed

definition generate_effect :: "'d host \<Rightarrow> compiled_file list \<Rightarrow> bool \<Rightarrow> files \<Rightarrow> files \<Rightarrow> bool" where
  \<comment> \<open>outputs replaced, and after a failure possibly a temporary file left\<close>
  "generate_effect h cs failed fs fs' =
     (\<forall>k. fs' k = fs k
        \<or> (\<exists>c\<in>set cs. k = output_key h c \<and> replaced_output c (fs k) (fs' k))
        \<or> failed \<and> fs k = None \<and> (\<exists>c\<in>set cs. temporary_of h c k))"

definition separate_outputs :: "'d host \<Rightarrow> compiled_file list \<Rightarrow> bool" where
  \<comment> \<open>no two outputs are the same file, and none has the name of a temporary file\<close>
  "separate_outputs h cs = (distinct (map (output_key h) cs) \<and> (\<forall>c\<in>set cs. last (output_key h c) = CHR ''o''))"

lemma temporary_not_output:
  "temporary_of h c k \<Longrightarrow> separate_outputs h cs \<Longrightarrow> c' \<in> set cs \<Longrightarrow> k \<noteq> output_key h c'"
  using temporary_last [of h "path_dir (compiled_output_path c)"] by (force simp: temporary_of_def separate_outputs_def)

lemma replaced_fresh: "replaced_output c e e' \<Longrightarrow> fresh_output c e'"
  by (auto simp: replaced_output_def fresh_output_def generated_code_equal_def)

lemma effect_refl: "generate_effect h cs failed fs fs"
  by (simp add: generate_effect_def)

lemma effect_temporary:
  "temporary_of h c t \<Longrightarrow> fs t = None \<Longrightarrow> c \<in> set cs \<Longrightarrow> generate_effect h cs True fs (fs(t \<mapsto> e))"
  by (auto simp: generate_effect_def)

lemma effect_Cons:
  assumes rest: "generate_effect h cs failed fs2 fs'" and sep: "separate_outputs h (c # cs)"
    and first: "fs2 = fs \<or> (\<exists>e. replaced_output c (fs (output_key h c)) (Some e) \<and> fs2 = fs(output_key h c \<mapsto> e))"
  shows "generate_effect h (c # cs) failed fs fs' \<and> fs' (output_key h c) = fs2 (output_key h c)"
proof -
  let ?k = "output_key h c"
  have here: "fs' ?k = fs2 ?k"
    using rest sep temporary_not_output [OF _ sep, of _ ?k c]
    by (auto simp: generate_effect_def separate_outputs_def)
  have "fs' k = fs k \<or> (\<exists>c'\<in>set (c # cs). k = output_key h c' \<and> replaced_output c' (fs k) (fs' k))
      \<or> failed \<and> fs k = None \<and> (\<exists>c'\<in>set (c # cs). temporary_of h c' k)" for k
  proof (cases "k = ?k")
    case True
    then show ?thesis using here first by auto
  next
    case False
    then have eq: "fs2 k = fs k" using first by auto
    have "fs' k = fs2 k \<or> (\<exists>c'\<in>set cs. k = output_key h c' \<and> replaced_output c' (fs2 k) (fs' k))
        \<or> failed \<and> fs2 k = None \<and> (\<exists>c'\<in>set cs. temporary_of h c' k)"
      using rest unfolding generate_effect_def by (rule spec)
    then show ?thesis unfolding eq by (auto simp del: fun_upd_apply)
  qed
  then show ?thesis using here by (simp add: generate_effect_def)
qed

lemma write_outputs_ok:
  "write_outputs h i cs r w = (r', w') \<Longrightarrow> separate_outputs h cs \<Longrightarrow>
   \<forall>c\<in>set cs. owned_or_absent (w_files w (output_key h c)) \<Longrightarrow>
   (op_diagnostics r' = op_diagnostics r \<and> generate_effect h cs False (w_files w) (w_files w')
      \<and> (\<forall>c\<in>set cs. fresh_output c (w_files w' (output_key h c)))
      \<and> op_changed r' + op_unchanged r' = op_changed r + op_unchanged r + length cs)
   \<or> (\<exists>d. is_error d \<and> op_diagnostics r' = op_diagnostics r @ [d]
        \<and> generate_effect h cs True (w_files w) (w_files w'))"
proof (induction cs arbitrary: i r w)
  case Nil
  then show ?case by (simp add: effect_refl)
next
  case (Cons c cs)
  let ?k = "output_key h c"
  have sep: "separate_outputs h cs" "last ?k = CHR ''o''" "\<forall>c'\<in>set cs. output_key h c' \<noteq> ?k"
    using Cons.prems(2) by (auto simp: separate_outputs_def image_iff)
  obtain x w1 where x: "ctx_err h w = (x, w1)" by fastforce
  have files1: "w_files w1 = w_files w" using ctx_err_files [of h w] x by simp
  show ?case
  proof (cases x)
    case (Some e)
    then show ?thesis
      using Cons.prems(1) x files1 by (auto simp: effect_refl)
  next
    case None
    obtain same err w2 where o: "write_output h c w1 = (same, err, w2)" by (metis prod_cases3)
    have owned: "owned_or_absent (w_files w1 ?k)" using Cons.prems(3) files1 by simp
    note wrote = write_output_ok [OF o owned sep(2), unfolded files1]
    show ?thesis
    proof (cases "same \<or> err = None")
      case False
      then have r': "op_diagnostics r' = op_diagnostics r @ [file_problem (compiled_output_path c) ''HIM2110''
          (''atomic output replacement failed: '' @ os_error_text (the err))]" "w' = w2"
        using Cons.prems(1) x None o by auto
      have "generate_effect h (c # cs) True (w_files w) (w_files w2)"
        using wrote(2) False effect_refl [of h "c # cs" True "w_files w"]
          effect_temporary [of h c _ "w_files w" "c # cs"]
          effect_Cons [OF effect_refl Cons.prems(2), of "w_files w2" "w_files w" True] by auto
      then show ?thesis using r' by simp
    next
      case True
      define r2 where "r2 = (if same then r\<lparr>op_files := (op_files r)[i := (op_files r ! i)\<lparr>result_changed := False\<rparr>],
          op_unchanged := op_unchanged r + 1\<rparr>
        else r\<lparr>op_files := (op_files r)[i := (op_files r ! i)\<lparr>result_changed := True\<rparr>], op_changed := op_changed r + 1\<rparr>)"
      have same_err: "same \<Longrightarrow> err = None" using wrote(1) by simp
      then have rest: "write_outputs h (Suc i) cs r2 w2 = (r', w')"
        using Cons.prems(1) x None o True by (cases same) (simp_all add: r2_def)
      have first: "w_files w2 = w_files w
          \<or> (\<exists>e. replaced_output c (w_files w ?k) (Some e) \<and> w_files w2 = (w_files w)(?k \<mapsto> e))"
        using wrote True by (cases same) auto
      have owned': "\<forall>c'\<in>set cs. owned_or_absent (w_files w2 (output_key h c'))"
        using first Cons.prems(3) sep(3) by auto
      have now: "fresh_output c (w_files w2 ?k)"
        using wrote True same_err by (cases same) (auto dest: replaced_fresh)
      have r2: "op_diagnostics r2 = op_diagnostics r" "op_changed r2 + op_unchanged r2 = op_changed r + op_unchanged r + 1"
        by (simp_all add: r2_def)
      note effect = effect_Cons [OF _ Cons.prems(2) first]
      show ?thesis
        using Cons.IH [OF rest sep(1) owned'] effect [of False "w_files w'"] effect [of True "w_files w'"] now r2 by auto
    qed
  qed
qed

end
