(* ===== verification/Release_Files.thy ===== *)
theory Release_Files
  imports Output_Files
begin

section \<open>Files of the release tools: writing once, replacing, reading within a bound\<close>

text \<open>
  The calls of \<open>os\<close> the release tools make beyond those of the compiler (exclusive creation, \<open>Mkdir\<close>,
  \<open>MkdirAll\<close>, \<open>RemoveAll\<close>), and the helpers of internal/releaseartifact over them: \<open>writeExclusive\<close>,
  \<open>replaceRegularFile\<close> and \<open>readRegularFile\<close>. A file created exclusively was not there before, so
  nothing is overwritten, and a helper that fails leaves nothing when the removal works.
\<close>

subsection \<open>System calls\<close>

text \<open>\<open>OpenFile\<close> with \<open>O_CREATE|O_EXCL\<close>.\<close>

definition create_exclusive :: "'d host \<Rightarrow> bytes \<Rightarrow> nat \<Rightarrow> world \<Rightarrow> os_error option \<times> world" where
  "create_exclusive h path mode w =
     (case host_fault h (w_clock w) of
        Some t \<Rightarrow> (Some (OsFailure t), tick w)
      | None \<Rightarrow>
          (if entry_of h (w_files w) path \<noteq> None
           then (Some (OsFailure (''open '' @ path @ '': file exists'')), tick w)
           else (None, tick (w\<lparr>w_files := (w_files w)(resolve h path \<mapsto> RegularFile mode [])\<rparr>))))"

text \<open>A write to a file that is open; of a failing one the host chooses what reaches the file.\<close>

definition write_open :: "'d host \<Rightarrow> bytes \<Rightarrow> nat \<Rightarrow> bytes \<Rightarrow> world \<Rightarrow> os_error option \<times> world" where
  "write_open h path mode content w =
     (case host_fault h (w_clock w) of
        Some t \<Rightarrow> (Some (OsFailure t), tick (w\<lparr>w_files := (w_files w)
                    (resolve h path \<mapsto> RegularFile mode (take (host_short h (w_clock w)) content))\<rparr>))
      | None \<Rightarrow> (None, tick (w\<lparr>w_files := (w_files w)(resolve h path \<mapsto> RegularFile mode content)\<rparr>)))"

definition make_directory :: "'d host \<Rightarrow> bytes \<Rightarrow> nat \<Rightarrow> world \<Rightarrow> os_error option \<times> world" where
  "make_directory h path mode w =
     (case host_fault h (w_clock w) of
        Some t \<Rightarrow> (Some (OsFailure t), tick w)
      | None \<Rightarrow>
          (if entry_of h (w_files w) path \<noteq> None
           then (Some (OsFailure (''mkdir '' @ path @ '': file exists'')), tick w)
           else (None, tick (w\<lparr>w_files := (w_files w)(resolve h path \<mapsto> Directory mode [])\<rparr>))))"

text \<open>\<open>MkdirAll\<close>: a directory that is there stays; the parents are left to the host.\<close>

definition make_directories :: "'d host \<Rightarrow> bytes \<Rightarrow> nat \<Rightarrow> world \<Rightarrow> os_error option \<times> world" where
  "make_directories h path mode w =
     (case host_fault h (w_clock w) of
        Some t \<Rightarrow> (Some (OsFailure t), tick w)
      | None \<Rightarrow>
          (case follow 40 (w_files w) (resolve h path) of
             Some (Directory perm names) \<Rightarrow> (None, tick w)
           | Some entry \<Rightarrow> (Some (OsFailure (''mkdir '' @ path @ '': not a directory'')), tick w)
           | None \<Rightarrow> (None, tick (w\<lparr>w_files := (w_files w)(resolve h path \<mapsto> Directory mode [])\<rparr>))))"

text \<open>\<open>RemoveAll\<close>: the entry and what is below it, or an error and nothing.\<close>

definition below :: "bytes \<Rightarrow> bytes \<Rightarrow> bool" where
  "below root path = (path = root \<or> has_prefix (root @ ''/'') path)"

definition remove_all :: "'d host \<Rightarrow> bytes \<Rightarrow> world \<Rightarrow> os_error option \<times> world" where
  "remove_all h path w =
     (case host_fault h (w_clock w) of
        Some t \<Rightarrow> (Some (OsFailure t), tick w)
      | None \<Rightarrow> (None, tick (w\<lparr>w_files := (\<lambda>k. if below (resolve h path) k then None else w_files w k)\<rparr>)))"

declare create_exclusive_def [go_eval] write_open_def [go_eval] make_directory_def [go_eval]
  make_directories_def [go_eval] below_def [go_eval] remove_all_def [go_eval]

subsection \<open>writeExclusive\<close>

text \<open>The calls on the open file, up to \<open>Chmod\<close>.\<close>

definition fill_file :: "'d host \<Rightarrow> bytes \<Rightarrow> nat \<Rightarrow> bytes \<Rightarrow> nat \<Rightarrow> world \<Rightarrow> os_error option \<times> world" where
  \<comment> \<open>the mode while it is written, the contents, and the mode afterwards\<close>
  "fill_file h path open_mode contents mode w =
     (case write_open h path open_mode contents w of
        (Some e, w) \<Rightarrow> (Some e, w)
      | (None, w) \<Rightarrow>
          (case plain_call h w of
             (Some e, w) \<Rightarrow> (Some e, w)
           | (None, w) \<Rightarrow>
               (case plain_call h w of
                  (Some e, w) \<Rightarrow> (Some e, w)
                | (None, w) \<Rightarrow> change_file h path (Some (RegularFile mode contents)) w)))"

definition abandon_file :: "'d host \<Rightarrow> bytes \<Rightarrow> world \<Rightarrow> world" where
  \<comment> \<open>the deferred function of a failure: close and remove, both without regard to errors\<close>
  "abandon_file h path w = snd (remove_file h path (snd (plain_call h w)))"

definition write_exclusive :: "'d host \<Rightarrow> bytes \<Rightarrow> bytes \<Rightarrow> nat \<Rightarrow> world \<Rightarrow> os_error option \<times> world" where
  "write_exclusive h path contents mode w =
     (case create_exclusive h path mode w of
        (Some e, w) \<Rightarrow> (Some e, w)
      | (None, w) \<Rightarrow>
          (case fill_file h path mode contents mode w of
             (Some e, w) \<Rightarrow> (Some e, abandon_file h path w)
           | (None, w) \<Rightarrow> (None, w)))"

subsection \<open>replaceRegularFile and readRegularFile\<close>

definition release_temporary :: "bytes \<Rightarrow> nat \<Rightarrow> bytes" where
  "release_temporary dir random =
     (if has_suffix ''/'' dir then dir else dir @ ''/'') @ ''.himesan-release-'' @ show_nat random"

definition create_release_temp :: "'d host \<Rightarrow> bytes \<Rightarrow> world \<Rightarrow> (os_error + bytes) \<times> world" where
  "create_release_temp h dir w =
     (let name = release_temporary dir (host_random h (w_clock w)) in
      case create_exclusive h name 384 w of
        (Some e, w) \<Rightarrow> (Inl e, w)
      | (None, w) \<Rightarrow> (Inr name, w))"

definition replace_regular_file :: "'d host \<Rightarrow> bytes \<Rightarrow> bytes \<Rightarrow> nat \<Rightarrow> world \<Rightarrow> os_error option \<times> world" where
  "replace_regular_file h path contents mode w =
     (case lstat h path w of
        (Inl e, w) \<Rightarrow> (Some e, w)
      | (Inr info, w) \<Rightarrow>
          (if unsuitable info
           then (Some (OsFailure ''replacement target must be a regular file, not a symlink''), w)
           else
             (case create_release_temp h (path_dir path) w of
                (Inl e, w) \<Rightarrow> (Some e, w)
              | (Inr temporary, w) \<Rightarrow>
                  (case fill_file h temporary 384 contents mode w of
                     (Some e, w) \<Rightarrow> (Some e, abandon_file h temporary w)
                   | (None, w) \<Rightarrow>
                       (case rename_file h temporary path w of
                          (Some e, w) \<Rightarrow> (Some e, abandon_file h temporary w)
                        | (None, w) \<Rightarrow> (None, w))))))"

definition read_regular_file :: "'d host \<Rightarrow> bytes \<Rightarrow> nat \<Rightarrow> world \<Rightarrow> (os_error + bytes) \<times> world" where
  "read_regular_file h path maximum w =
     (case lstat h path w of
        (Inl e, w) \<Rightarrow> (Inl e, w)
      | (Inr info, w) \<Rightarrow>
          (if unsuitable info \<or> (case info of RegularFile perm content \<Rightarrow> maximum < length content | _ \<Rightarrow> True)
           then (Inl (OsFailure ''must be a bounded regular file, not a symlink''), w)
           else read_file h path w))"

declare fill_file_def [go_eval] abandon_file_def [go_eval] write_exclusive_def [go_eval]
  release_temporary_def [go_eval] create_release_temp_def [go_eval] replace_regular_file_def [go_eval]
  read_regular_file_def [go_eval]

subsection \<open>What they change\<close>

text \<open>Only the entries of some keys differ.\<close>

definition changes_only :: "bytes set \<Rightarrow> files \<Rightarrow> files \<Rightarrow> bool" where
  "changes_only keys fs fs' = (\<forall>k. k \<notin> keys \<longrightarrow> fs' k = fs k)"

lemma changes_only_refl [simp]: "changes_only keys fs fs" by (simp add: changes_only_def)

lemma changes_only_trans:
  "changes_only keys fs fs' \<Longrightarrow> changes_only keys fs' fs'' \<Longrightarrow> changes_only keys fs fs''"
  by (simp add: changes_only_def)

lemma changes_only_mono: "changes_only keys fs fs' \<Longrightarrow> keys \<subseteq> keys' \<Longrightarrow> changes_only keys' fs fs'"
  by (auto simp: changes_only_def)

lemma calls_change:
  "create_exclusive h path mode w = (r, w') \<Longrightarrow> changes_only {resolve h path} (w_files w) (w_files w')"
  "write_open h path mode content w = (r, w') \<Longrightarrow> changes_only {resolve h path} (w_files w) (w_files w')"
  "change_file h path entry w = (r, w') \<Longrightarrow> changes_only {resolve h path} (w_files w) (w_files w')"
  "make_directory h path mode w = (r, w') \<Longrightarrow> changes_only {resolve h path} (w_files w) (w_files w')"
  "make_directories h path mode w = (r, w') \<Longrightarrow> changes_only {resolve h path} (w_files w) (w_files w')"
  "remove_file h path w = (x, w') \<Longrightarrow> changes_only {resolve h path} (w_files w) (w_files w')"
  "plain_call h w = (r, w') \<Longrightarrow> w_files w' = w_files w"
  by (auto simp: changes_only_def create_exclusive_def write_open_def change_file_def make_directory_def
      make_directories_def remove_file_def plain_call_def split: option.splits if_splits fs_entry.splits)

lemma abandon_file_change: "changes_only {resolve h path} (w_files w) (w_files (abandon_file h path w))"
proof -
  obtain r w1 where p: "plain_call h w = (r, w1)" by fastforce
  obtain x w2 where f: "remove_file h path w1 = (x, w2)" by fastforce
  show ?thesis using calls_change(6) [OF f] calls_change(7) [OF p] p f by (simp add: abandon_file_def)
qed

lemma fill_file_change:
  assumes "fill_file h path open_mode contents mode w = (r, w')"
  shows "changes_only {resolve h path} (w_files w) (w_files w')
    \<and> (r = None \<longrightarrow> w_files w' (resolve h path) = Some (RegularFile mode contents))"
proof -
  obtain r1 w1 where one: "write_open h path open_mode contents w = (r1, w1)" by fastforce
  obtain r2 w2 where two: "plain_call h w1 = (r2, w2)" by fastforce
  obtain r3 w3 where three: "plain_call h w2 = (r3, w3)" by fastforce
  obtain r4 w4 where four: "change_file h path (Some (RegularFile mode contents)) w3 = (r4, w4)" by fastforce
  have last: "r4 = None \<Longrightarrow> w_files w4 (resolve h path) = Some (RegularFile mode contents)"
    using four by (auto simp: change_file_def split: option.splits)
  note c = calls_change(2) [OF one] calls_change(7) [OF two] calls_change(7) [OF three] calls_change(3) [OF four]
  have "changes_only {resolve h path} (w_files w) (w_files w4)" using c changes_only_trans by metis
  then show ?thesis using assms one two three four c last by (auto simp: fill_file_def split: option.splits)
qed

text \<open>A file that was not there, with exactly the contents and the mode; or an error.\<close>

lemma write_exclusive_change:
  assumes "write_exclusive h path contents mode w = (r, w')"
  shows "changes_only {resolve h path} (w_files w) (w_files w')
    \<and> (r = None \<longrightarrow> w_files w (resolve h path) = None \<and> w_files w' (resolve h path) = Some (RegularFile mode contents))
    \<and> (w_files w (resolve h path) \<noteq> None \<longrightarrow> r \<noteq> None \<and> w_files w' = w_files w)"
proof -
  obtain r1 w1 where one: "create_exclusive h path mode w = (r1, w1)" by fastforce
  have created: "r1 = None \<Longrightarrow> w_files w (resolve h path) = None" "r1 \<noteq> None \<Longrightarrow> w_files w1 = w_files w"
    using one by (auto simp: create_exclusive_def split: option.splits if_splits)
  obtain r2 w2 where two: "fill_file h path mode contents mode w1 = (r2, w2)" by fastforce
  note c = calls_change(1) [OF one] fill_file_change [OF two] abandon_file_change [of h path w2]
  have "changes_only {resolve h path} (w_files w) (w_files w2)"
    "changes_only {resolve h path} (w_files w) (w_files (abandon_file h path w2))"
    using c changes_only_trans by metis+
  then show ?thesis
    using assms one two c created by (cases r1; cases r2) (auto simp: write_exclusive_def)
qed

lemma read_regular_file_Inr:
  assumes "read_regular_file h path maximum w = (Inr content, w')"
  shows "w_files w' = w_files w \<and> length content \<le> maximum
    \<and> (\<exists>perm. w_files w (resolve h path) = Some (RegularFile perm content))"
proof -
  obtain r w1 where l: "lstat h path w = (r, w1)" by fastforce
  then obtain info where info: "r = Inr info" "\<not> unsuitable info"
    "(case info of RegularFile perm content \<Rightarrow> \<not> maximum < length content | _ \<Rightarrow> False)" "read_file h path w1 = (Inr content, w')"
    using assms by (auto simp: read_regular_file_def split: sum.splits if_splits fs_entry.splits)
  have e: "entry_of h (w_files w) path = Some info" using lstat_Inr l info(1) by blast
  have same: "w_files w1 = w_files w" "w_files w' = w_files w1" using l info(4) by blast+
  obtain perm c where c: "info = RegularFile perm c" using info(3) by (cases info) auto
  then have "content = c" using read_file_content [OF info(4)] e same by simp
  then show ?thesis using c info(3) e same by simp
qed

subsection \<open>On a host without faults\<close>

lemma quiet_write_exclusive:
  assumes "quiet_host h" and "w_files w (resolve h path) = None"
  shows "\<exists>w'. write_exclusive h path contents mode w = (None, w')
    \<and> w_files w' = (w_files w)(resolve h path \<mapsto> RegularFile mode contents)"
  using assms
  by (simp add: write_exclusive_def create_exclusive_def fill_file_def write_open_def plain_call_def change_file_def
      quiet_host_def tick_def)

lemma quiet_read_file:
  assumes "quiet_host h" and "w_files w (resolve h path) = Some (RegularFile perm content)"
  shows "\<exists>w'. read_file h path w = (Inr content, w') \<and> w_files w' = w_files w"
  using assms by (simp add: read_file_def quiet_host_def numeral_eq_Suc)

end
