(* ===== verification/Go_Net.thy ===== *)
theory Go_Net
  imports Host_Files
begin

section \<open>Numbers, network addresses and HTTP headers of Go's library\<close>

text \<open>
  What the language server and the development server use of \<open>strconv\<close>, \<open>net\<close>, \<open>net/http\<close> and
  \<open>strings.Fields\<close>: decimal numbers, host and port, IP addresses (16 bytes, IPv4 mapped as Go keeps
  it), header fields under canonical names, and words.
\<close>

abbreviation CR :: byte where "CR \<equiv> CHR 0x0D"

subsection \<open>Decimal numbers\<close>

lemma show_nat_digits: "b \<in> set (show_nat n) \<Longrightarrow> 48 \<le> code b \<and> code b \<le> 57"
proof (induction n rule: show_nat.induct)
  case (1 n)
  have digit: "code (char_of (48 + m) :: byte) = 48 + m" if "m < 10" for m
    using that by simp
  show ?case
    using "1.IH" "1.prems" digit [of n] digit [of "n mod 10"]
    by (subst (asm) (2) show_nat.simps) (auto split: if_splits)
qed

lemma printed_nonempty: "show_nat n \<noteq> []"
  by (subst show_nat.simps) simp

lemma length_show_nat: "n < 10 ^ Suc k \<Longrightarrow> length (show_nat n) \<le> Suc k"
proof (induction k arbitrary: n)
  case 0
  then show ?case by (simp add: show_nat.simps)
next
  case (Suc k)
  have "n div 10 < 10 ^ Suc k" using Suc.prems by (simp add: less_mult_imp_div_less)
  then show ?case using Suc.IH by (subst show_nat.simps) auto
qed

definition is_digit :: "byte \<Rightarrow> bool" where
  "is_digit b = (48 \<le> code b \<and> code b \<le> 57)"

text \<open>\<open>strconv.Atoi\<close>.\<close>

definition go_atoi :: "bytes \<Rightarrow> int option" where
  "go_atoi s =
     (let neg = has_prefix ''-'' s;
          digits = (if has_prefix ''-'' s \<or> has_prefix ''+'' s then tl s else s)
      in if digits = [] \<or> \<not> list_all is_digit digits then None
         else (let v = int (read_nat digits) in
           if neg then (if v \<le> 2 ^ 63 then Some (- v) else None)
           else (if v < 2 ^ 63 then Some v else None)))"

lemma go_atoi_number: "n < 2 ^ 63 \<Longrightarrow> go_atoi (show_nat n) = Some (int n)"
proof -
  assume n: "n < 2 ^ 63"
  have digits: "list_all is_digit (show_nat n)" using show_nat_digits [of _ n] by (simp add: list_all_iff is_digit_def)
  obtain b s where b: "show_nat n = b # s" using printed_nonempty [of n] by (cases "show_nat n") auto
  then have "48 \<le> code b" using show_nat_digits [of b n] by simp
  then have "b \<noteq> CHR ''-''" "b \<noteq> CHR ''+''" by auto
  then have sign: "\<not> has_prefix ''-'' (show_nat n)" "\<not> has_prefix ''+'' (show_nat n)" by (simp_all add: b)
  have "int n < 2 ^ 63" using n by (metis of_nat_less_iff of_nat_numeral of_nat_power)
  then show ?thesis
    using digits sign printed_nonempty [of n] by (simp add: go_atoi_def)
qed

subsection \<open>Hosts and ports\<close>

definition last_index_byte :: "byte \<Rightarrow> bytes \<Rightarrow> nat option" where
  "last_index_byte b s = last_index_of [b] s"

text \<open>\<open>net.SplitHostPort\<close>: the text of the error, or host and port.\<close>

definition address_error :: "bytes \<Rightarrow> bytes \<Rightarrow> bytes" where
  "address_error addr problem = (if addr = [] then problem else ''address '' @ addr @ '': '' @ problem)"

definition split_host_port :: "bytes \<Rightarrow> bytes + (bytes \<times> bytes)" where
  "split_host_port s =
     (case last_index_byte (CHR '':'') s of
        None \<Rightarrow> Inl (address_error s ''missing port in address'')
      | Some i \<Rightarrow>
          (let finish = (\<lambda>host j k.
             if CHR ''['' \<in> set (drop j s) then Inl (address_error s ''unexpected '[' in address'')
             else if CHR '']'' \<in> set (drop k s) then Inl (address_error s ''unexpected ']' in address'')
             else Inr (host, drop (i + 1) s)) in
           if s ! 0 = CHR ''[''
           then (case index_byte (CHR '']'') s of
               None \<Rightarrow> Inl (address_error s ''missing ']' in address'')
             | Some e \<Rightarrow>
                 (if e + 1 = length s then Inl (address_error s ''missing port in address'')
                  else if e + 1 = i then finish (drop 1 (take e s)) 1 (e + 1)
                  else if s ! (e + 1) = CHR '':'' then Inl (address_error s ''too many colons in address'')
                  else Inl (address_error s ''missing port in address'')))
           else (let host = take i s in
             if CHR '':'' \<in> set host then Inl (address_error s ''too many colons in address'')
             else finish host 0 0)))"

subsection \<open>IP addresses\<close>

definition ipv4_part :: "bytes \<Rightarrow> bool" where
  "ipv4_part p = (p \<noteq> [] \<and> list_all is_digit p \<and> (hd p = CHR ''0'' \<longrightarrow> length p = 1) \<and> read_nat p \<le> 255)"

definition parse_ipv4 :: "bytes \<Rightarrow> nat list option" where
  "parse_ipv4 s =
     (let parts = split_on (CHR ''.'') s in
      if length parts = 4 \<and> list_all ipv4_part parts then Some (map read_nat parts) else None)"

definition is_hex :: "byte \<Rightarrow> bool" where "is_hex b = (hex_value b \<noteq> None)"

definition hex_number :: "bytes \<Rightarrow> nat" where
  "hex_number s = foldl (\<lambda>n b. 16 * n + (case hex_value b of Some d \<Rightarrow> d | None \<Rightarrow> 0)) 0 s"

text \<open>The loop over the groups: bytes so far, place of the ellipsis, text left.\<close>

function ipv6_loop :: "nat list \<Rightarrow> nat option \<Rightarrow> bytes \<Rightarrow> (nat list \<times> nat option \<times> bytes) option" where
  "ipv6_loop ip ellipsis s =
     (if 16 \<le> length ip then Some (ip, ellipsis, s)
      else
        (let group = takeWhile is_hex s; rest = drop (length group) s in
         if group = [] \<or> 4 < length group then None
         else if rest \<noteq> [] \<and> hd rest = CHR ''.''
         then (if (ellipsis = None \<and> length ip \<noteq> 12) \<or> 16 < length ip + 4 then None
               else map_option (\<lambda>fields. (ip @ fields, ellipsis, [])) (parse_ipv4 s))
         else
           (let ip = ip @ [hex_number group div 256, hex_number group mod 256] in
            case rest of
              [] \<Rightarrow> Some (ip, ellipsis, [])
            | c # rest \<Rightarrow>
                (if c \<noteq> CHR '':'' \<or> rest = [] then None
                 else if hd rest \<noteq> CHR '':'' then ipv6_loop ip ellipsis rest
                 else if ellipsis \<noteq> None then None
                 else if tl rest = [] then Some (ip, Some (length ip), [])
                 else ipv6_loop ip (Some (length ip)) (tl rest)))))"
  by pat_completeness auto
termination ipv6_loop
proof (relation "measure (\<lambda>(ip, e, s). length s)", goal_cases)
  case 1
  then show ?case by simp
next
  case (2 ip ellipsis s group rest ip' c r)
  then have "length (drop (length group) s) = Suc (length r)" by (metis length_Cons)
  then show ?case by simp
next
  case (3 ip ellipsis s group rest ip' c r)
  then have "length (drop (length group) s) = Suc (length r)" by (metis length_Cons)
  then show ?case by simp
qed

declare ipv6_loop.simps [simp del]

definition parse_ipv6 :: "bytes \<Rightarrow> nat list option" where
  "parse_ipv6 s =
     (let leading = has_prefix ''::'' s; s = (if leading then drop 2 s else s) in
      if leading \<and> s = [] then Some (replicate 16 0)
      else (case ipv6_loop [] (if leading then Some 0 else None) s of
          None \<Rightarrow> None
        | Some (ip, ellipsis, rest) \<Rightarrow>
            (if rest \<noteq> [] then None
             else (case ellipsis of
                 None \<Rightarrow> (if length ip < 16 then None else Some ip)
               | Some e \<Rightarrow>
                   (if length ip < 16 then Some (take e ip @ replicate (16 - length ip) 0 @ drop e ip) else None)))))"

definition mapped_prefix :: "nat list" where
  "mapped_prefix = [0, 0, 0, 0, 0, 0, 0, 0, 0, 0, 255, 255]"

text \<open>\<open>net.ParseIP\<close>: an address with a zone is none.\<close>

definition parse_ip :: "bytes \<Rightarrow> nat list option" where
  "parse_ip s =
     (if CHR ''%'' \<in> set s then None
      else (case index_any ''.:'' s of
          None \<Rightarrow> None
        | Some i \<Rightarrow>
            (if s ! i = CHR ''.'' then map_option (\<lambda>fields. mapped_prefix @ fields) (parse_ipv4 s)
             else parse_ipv6 s)))"

definition is_ipv4 :: "nat list \<Rightarrow> bool" where
  "is_ipv4 ip = (take 12 ip = mapped_prefix)"

definition is_loopback :: "nat list \<Rightarrow> bool" where
  "is_loopback ip = (if is_ipv4 ip then ip ! 12 = 127 else ip = replicate 15 0 @ [1])"

definition loopback_string :: "nat list \<Rightarrow> bytes" where
  \<comment> \<open>\<open>IP.String\<close> of a loopback address\<close>
  "loopback_string ip = (if is_ipv4 ip then join_with ''.'' (map show_nat (drop 12 ip)) else ''::1'')"

subsection \<open>Header fields\<close>

type_synonym http_header = "bytes \<rightharpoonup> bytes list"

text \<open>The canonical form of a name that is a token of letters and hyphens.\<close>

fun canonical_key :: "bool \<Rightarrow> bytes \<Rightarrow> bytes" where
  "canonical_key start [] = []"
| "canonical_key start (c # s) =
     (if start \<and> 97 \<le> code c \<and> code c \<le> 122 then char_of (code c - 32)
      else if \<not> start then ascii_lower c else c) # canonical_key (c = CHR ''-'') s"

definition header_values :: "http_header \<Rightarrow> bytes \<Rightarrow> bytes list" where
  "header_values h name = (case h (canonical_key True name) of Some vs \<Rightarrow> vs | None \<Rightarrow> [])"

definition header_get :: "http_header \<Rightarrow> bytes \<Rightarrow> bytes" where
  "header_get h name = (case header_values h name of [] \<Rightarrow> [] | v # _ \<Rightarrow> v)"

definition header_set :: "bytes \<Rightarrow> bytes \<Rightarrow> http_header \<Rightarrow> http_header" where
  "header_set name v h = h(canonical_key True name \<mapsto> [v])"

definition header_del :: "bytes \<Rightarrow> http_header \<Rightarrow> http_header" where
  "header_del name h = h(canonical_key True name := None)"

definition header_add :: "bytes \<Rightarrow> bytes \<Rightarrow> http_header \<Rightarrow> http_header" where
  "header_add name v h = h(canonical_key True name \<mapsto> header_values h name @ [v])"

subsection \<open>Words\<close>

text \<open>\<open>strings.Fields\<close>.\<close>

fun fields_of :: "(nat \<times> bytes) list \<Rightarrow> bytes \<Rightarrow> bytes list" where
  "fields_of [] word = (if word = [] then [] else [word])"
| "fields_of (c # cs) word =
     (if is_space_rune (fst c) then (if word = [] then [] else [word]) @ fields_of cs []
      else fields_of cs (word @ snd c))"

definition string_fields :: "bytes \<Rightarrow> bytes list" where
  "string_fields s = fields_of (utf8_chunks s) []"

declare is_digit_def [go_eval] go_atoi_def [go_eval] last_index_byte_def [go_eval] address_error_def [go_eval]
  split_host_port_def [go_eval] ipv4_part_def [go_eval] parse_ipv4_def [go_eval] is_hex_def [go_eval]
  hex_number_def [go_eval] ipv6_loop.simps [go_eval] parse_ipv6_def [go_eval] mapped_prefix_def [go_eval]
  parse_ip_def [go_eval] is_ipv4_def [go_eval] is_loopback_def [go_eval] loopback_string_def [go_eval]
  header_values_def [go_eval] header_get_def [go_eval] header_set_def [go_eval] header_del_def [go_eval]
  header_add_def [go_eval] string_fields_def [go_eval] read_nat_def [go_eval]

lemma replicate_numeral [go_eval]: "replicate (numeral k) x = x # replicate (pred_numeral k) x"
  by (simp add: numeral_eq_Suc)

lemma parse_ip_examples:
  "parse_ip ''127.0.0.1'' = Some (mapped_prefix @ [127, 0, 0, 1])"
  "parse_ip ''::1'' = Some [0,0,0,0,0,0,0,0,0,0,0,0,0,0,0,1]"
  "parse_ip ''1::2:'' = None" "parse_ip ''::ffff:127.1.2.3'' = Some (mapped_prefix @ [127, 1, 2, 3])"
  "parse_ip ''127.0.0.01'' = None" "parse_ip ''localhost'' = None"
  "parse_ip ''1:2:3:4:5:6:7:8'' = Some [0,1,0,2,0,3,0,4,0,5,0,6,0,7,0,8]"
  "split_host_port ''[::1]:80'' = Inr (''::1'', ''80'')" "split_host_port ''a:80'' = Inr (''a'', ''80'')"
  "split_host_port ''::1'' = Inl ''address ::1: too many colons in address''"
  by (simp_all add: go_eval)

end
