(* ===== verification/Go_Regexp.thy ===== *)
theory Go_Regexp
  imports Go_Net
begin

section \<open>Regular expressions: Go's regexp on bytes\<close>

text \<open>
  The part of \<open>regexp\<close> the code uses: classes of bytes, sequences, alternatives and repetitions, and
  whether a text as a whole matches. Matching is by derivatives; the lemmas give the language of each
  construct, so that a pattern can be read as a grammar.
\<close>

datatype regexp =
    Fail
  | Empty
  | Class "byte \<Rightarrow> bool"
  | Sequence regexp regexp
  | Either regexp regexp
  | Many regexp

fun nullable :: "regexp \<Rightarrow> bool" where
  "nullable Fail = False"
| "nullable Empty = True"
| "nullable (Class p) = False"
| "nullable (Sequence r q) = (nullable r \<and> nullable q)"
| "nullable (Either r q) = (nullable r \<or> nullable q)"
| "nullable (Many r) = True"

fun derive :: "byte \<Rightarrow> regexp \<Rightarrow> regexp" where
  "derive b Fail = Fail"
| "derive b Empty = Fail"
| "derive b (Class p) = (if p b then Empty else Fail)"
| "derive b (Sequence r q) =
     (if nullable r then Either (Sequence (derive b r) q) (derive b q) else Sequence (derive b r) q)"
| "derive b (Either r q) = Either (derive b r) (derive b q)"
| "derive b (Many r) = Sequence (derive b r) (Many r)"

fun matches :: "regexp \<Rightarrow> bytes \<Rightarrow> bool" where
  "matches r [] = nullable r"
| "matches r (b # s) = matches (derive b r) s"

subsection \<open>Patterns\<close>

definition Byte :: "byte \<Rightarrow> regexp" where "Byte b = Class ((=) b)"

fun Literal :: "bytes \<Rightarrow> regexp" where
  "Literal [] = Empty"
| "Literal (b # s) = Sequence (Byte b) (Literal s)"

definition Maybe :: "regexp \<Rightarrow> regexp" where "Maybe r = Either r Empty"

definition Some_of :: "regexp \<Rightarrow> regexp" where "Some_of r = Sequence r (Many r)"

fun Times :: "nat \<Rightarrow> regexp \<Rightarrow> regexp" where
  "Times 0 r = Empty"
| "Times (Suc n) r = Sequence r (Times n r)"

definition At_least :: "nat \<Rightarrow> regexp \<Rightarrow> regexp" where "At_least n r = Sequence (Times n r) (Many r)"

text \<open>At most so many: each of them may be absent.\<close>

definition At_most :: "nat \<Rightarrow> regexp \<Rightarrow> regexp" where "At_most n r = Times n (Maybe r)"

subsection \<open>Languages\<close>

lemma matches_Fail [simp]: "\<not> matches Fail s"
  by (induction s) simp_all

lemma matches_Empty [simp]: "matches Empty s \<longleftrightarrow> s = []"
  by (cases s) simp_all

lemma matches_Class [simp]: "matches (Class p) s \<longleftrightarrow> (\<exists>b. s = [b] \<and> p b)"
  by (cases s) auto

lemma matches_Either [simp]: "matches (Either r q) s \<longleftrightarrow> matches r s \<or> matches q s"
  by (induction s arbitrary: r q) simp_all

lemma matches_Sequence: "matches (Sequence r q) s \<longleftrightarrow> (\<exists>u v. s = u @ v \<and> matches r u \<and> matches q v)"
proof (induction s arbitrary: r)
  case Nil
  then show ?case by auto
next
  case (Cons b s)
  have "(\<exists>u v. b # s = u @ v \<and> matches r u \<and> matches q v)
      \<longleftrightarrow> nullable r \<and> matches q (b # s) \<or> (\<exists>u v. s = u @ v \<and> matches (derive b r) u \<and> matches q v)"
  proof
    assume "\<exists>u v. b # s = u @ v \<and> matches r u \<and> matches q v"
    then obtain u v where uv: "b # s = u @ v" "matches r u" "matches q v" by blast
    then show "nullable r \<and> matches q (b # s) \<or> (\<exists>u v. s = u @ v \<and> matches (derive b r) u \<and> matches q v)"
      by (cases u) auto
  next
    assume "nullable r \<and> matches q (b # s) \<or> (\<exists>u v. s = u @ v \<and> matches (derive b r) u \<and> matches q v)"
    then show "\<exists>u v. b # s = u @ v \<and> matches r u \<and> matches q v"
    proof
      assume "nullable r \<and> matches q (b # s)"
      then have "b # s = [] @ (b # s) \<and> matches r [] \<and> matches q (b # s)" by simp
      then show ?thesis by blast
    next
      assume "\<exists>u v. s = u @ v \<and> matches (derive b r) u \<and> matches q v"
      then obtain u v where "s = u @ v" "matches (derive b r) u" "matches q v" by blast
      then have "b # s = (b # u) @ v \<and> matches r (b # u) \<and> matches q v" by simp
      then show ?thesis by blast
    qed
  qed
  then show ?case using Cons.IH [of "derive b r"] by auto
qed

lemma matches_Many: "matches (Many r) s \<longleftrightarrow> (\<exists>us. s = concat us \<and> list_all (\<lambda>u. u \<noteq> [] \<and> matches r u) us)"
proof (induction s rule: length_induct)
  case (1 s)
  show ?case
  proof (cases s)
    case Nil
    have "s = concat [] \<and> list_all (\<lambda>u. u \<noteq> [] \<and> matches r u) []" using Nil by simp
    then show ?thesis using Nil by (metis matches.simps(1) nullable.simps(6))
  next
    case (Cons b t)
    have step: "matches (Many r) s \<longleftrightarrow> (\<exists>u v. t = u @ v \<and> matches r (b # u) \<and> matches (Many r) v)"
      using Cons by (simp add: matches_Sequence)
    have "matches (Many r) v \<longleftrightarrow> (\<exists>us. v = concat us \<and> list_all (\<lambda>u. u \<noteq> [] \<and> matches r u) us)" if "t = u @ v" for u v
      using 1 that Cons by simp
    then have "matches (Many r) s
        \<longleftrightarrow> (\<exists>u us. t = u @ concat us \<and> matches r (b # u) \<and> list_all (\<lambda>u. u \<noteq> [] \<and> matches r u) us)"
      unfolding step by metis
    also have "\<dots> \<longleftrightarrow> (\<exists>us. s = concat us \<and> list_all (\<lambda>u. u \<noteq> [] \<and> matches r u) us)" (is "?l \<longleftrightarrow> ?r")
    proof
      assume ?l
      then obtain u us where "t = u @ concat us" "matches r (b # u)" "list_all (\<lambda>u. u \<noteq> [] \<and> matches r u) us" by blast
      then have "s = concat ((b # u) # us) \<and> list_all (\<lambda>u. u \<noteq> [] \<and> matches r u) ((b # u) # us)" using Cons by simp
      then show ?r by blast
    next
      assume ?r
      then obtain us where us: "s = concat us" "list_all (\<lambda>u. u \<noteq> [] \<and> matches r u) us" by blast
      then obtain x xs where x: "us = x # xs" using Cons by (cases us) auto
      then obtain u where "x = b # u" using us Cons by (cases x) auto
      then show ?l using us x Cons by auto
    qed
    finally show ?thesis .
  qed
qed

lemma matches_Class_Sequence: "matches (Sequence (Class p) r) s \<longleftrightarrow> (\<exists>b t. s = b # t \<and> p b \<and> matches r t)"
proof -
  have "(\<exists>u v. s = u @ v \<and> (\<exists>b. u = [b] \<and> p b) \<and> matches r v) \<longleftrightarrow> (\<exists>b t. s = [b] @ t \<and> p b \<and> matches r t)" by blast
  then show ?thesis by (simp add: matches_Sequence)
qed

lemma matches_Byte [simp]: "matches (Byte b) s \<longleftrightarrow> s = [b]"
  by (auto simp: Byte_def)

lemma matches_Literal [simp]: "matches (Literal t) s \<longleftrightarrow> s = t"
  by (induction t arbitrary: s) (auto simp: matches_Sequence)

lemma matches_Many_Class [simp]: "matches (Many (Class p)) s \<longleftrightarrow> list_all p s"
proof (induction s)
  case (Cons b s)
  then show ?case by (auto simp: matches_Sequence)
qed simp

lemma matches_Maybe [simp]: "matches (Maybe r) s \<longleftrightarrow> s = [] \<or> matches r s"
  by (auto simp: Maybe_def)

lemma matches_Some_of_Class [simp]: "matches (Some_of (Class p)) s \<longleftrightarrow> s \<noteq> [] \<and> list_all p s"
  by (cases s) (auto simp: Some_of_def matches_Sequence)

lemma matches_Times_Class [simp]: "matches (Times n (Class p)) s \<longleftrightarrow> length s = n \<and> list_all p s"
proof (induction n arbitrary: s)
  case (Suc n)
  then show ?case by (cases s) (auto simp: matches_Sequence)
qed auto

lemma matches_At_least_Class [simp]: "matches (At_least n (Class p)) s \<longleftrightarrow> n \<le> length s \<and> list_all p s"
proof -
  have "s = take n s @ drop n s" by simp
  then show ?thesis
    by (auto simp: At_least_def matches_Sequence list_all_iff) (metis append_take_drop_id in_set_takeD in_set_dropD length_take min.absorb2)
qed

lemma matches_At_most_Class [simp]: "matches (At_most n (Class p)) s \<longleftrightarrow> length s \<le> n \<and> list_all p s"
  unfolding At_most_def
proof (induction n arbitrary: s)
  case (Suc n)
  have "matches (Times (Suc n) (Maybe (Class p))) s
      \<longleftrightarrow> (\<exists>u v. s = u @ v \<and> (u = [] \<or> (\<exists>b. u = [b] \<and> p b)) \<and> length v \<le> n \<and> list_all p v)"
    by (simp add: matches_Sequence Suc)
  also have "\<dots> \<longleftrightarrow> length s \<le> Suc n \<and> list_all p s"
  proof
    assume s: "length s \<le> Suc n \<and> list_all p s"
    show "\<exists>u v. s = u @ v \<and> (u = [] \<or> (\<exists>b. u = [b] \<and> p b)) \<and> length v \<le> n \<and> list_all p v"
    proof (cases s)
      case (Cons b t)
      then have "s = [b] @ t \<and> p b \<and> length t \<le> n \<and> list_all p t" using s by simp
      then show ?thesis by blast
    qed simp
  qed auto
  finally show ?case .
qed auto

text \<open>Words of a class with single bytes between them.\<close>

lemma matches_separated:
  assumes "\<not> p c"
  shows "matches (Sequence (Some_of (Class p)) (Many (Sequence (Byte c) (Some_of (Class p))))) s
    \<longleftrightarrow> list_all (\<lambda>w. w \<noteq> [] \<and> list_all p w) (split_on c s)"
proof -
  let ?word = "\<lambda>w. w \<noteq> [] \<and> list_all p w"
  have tail: "matches (Many (Sequence (Byte c) (Some_of (Class p)))) v
      \<longleftrightarrow> (\<exists>ws. v = concat (map ((#) c) ws) \<and> list_all ?word ws)" for v
  proof
    assume "matches (Many (Sequence (Byte c) (Some_of (Class p)))) v"
    then obtain us where us: "v = concat us" "list_all (\<lambda>u. u \<noteq> [] \<and> matches (Sequence (Byte c) (Some_of (Class p))) u) us"
      by (auto simp: matches_Many)
    have "list_all (\<lambda>u. \<exists>w. u = c # w \<and> ?word w) us"
      using us(2) by (auto simp: list_all_iff matches_Sequence)
    then have "us = map ((#) c) (map tl us) \<and> list_all ?word (map tl us)"
      by (induction us) auto
    then show "\<exists>ws. v = concat (map ((#) c) ws) \<and> list_all ?word ws" using us(1) by metis
  next
    assume "\<exists>ws. v = concat (map ((#) c) ws) \<and> list_all ?word ws"
    then obtain ws where ws: "v = concat (map ((#) c) ws)" "list_all ?word ws" by blast
    have "list_all (\<lambda>u. u \<noteq> [] \<and> matches (Sequence (Byte c) (Some_of (Class p))) u) (map ((#) c) ws)"
      using ws(2) by (auto simp: list_all_iff matches_Sequence)
    then show "matches (Many (Sequence (Byte c) (Some_of (Class p)))) v" using ws(1) by (auto simp: matches_Many)
  qed
  have join: "w @ concat (map ((#) c) ws) = join_with [c] (w # ws)" for w ws
  proof (induction ws arbitrary: w)
    case (Cons a ws)
    then show ?case using Cons.IH [of a] by (cases ws) simp_all
  qed simp
  have nosep: "?word w \<Longrightarrow> c \<notin> set w" for w using assms by (auto simp: list_all_iff)
  show ?thesis
  proof
    assume "matches (Sequence (Some_of (Class p)) (Many (Sequence (Byte c) (Some_of (Class p))))) s"
    then obtain w ws where "s = join_with [c] (w # ws)" "list_all ?word (w # ws)"
      unfolding matches_Sequence tail matches_Some_of_Class using join by auto
    moreover from this have "list_all (\<lambda>w. c \<notin> set w) (w # ws)" using nosep by (auto simp: list_all_iff)
    ultimately show "list_all ?word (split_on c s)" using split_join [of "w # ws" c] by simp
  next
    assume all: "list_all ?word (split_on c s)"
    obtain w ws where split: "split_on c s = w # ws" using split_on_nonempty by (metis neq_Nil_conv)
    have "s = w @ concat (map ((#) c) ws)" unfolding join using join_split_on [of c s] split by simp
    then show "matches (Sequence (Some_of (Class p)) (Many (Sequence (Byte c) (Some_of (Class p))))) s"
      unfolding matches_Sequence tail matches_Some_of_Class using all split by auto
  qed
qed

declare matches.simps [simp del, go_eval] Literal.simps [simp del, go_eval]
declare Byte_def [go_eval] Maybe_def [go_eval] Some_of_def [go_eval] At_least_def [go_eval] At_most_def [go_eval]

end
