(* ===== verification/Compiler_Version.thy ===== *)
theory Compiler_Version
  imports Go_Regexp
begin

section \<open>The version of the compiler: internal/version/version.go\<close>

text \<open>
  The version a build announces: the one the linker put in, or the module version Go recorded when it
  is a tagged release. The patterns are those of the source; the lemmas read them as the grammar of
  semantic versions.
\<close>

definition development_compiler_version :: bytes where "development_compiler_version = ''0.1.0-dev''"
definition version_runtime_abi :: bytes where "version_runtime_abi = ''sando.v1''"


definition number_pattern :: regexp where
  "number_pattern = Either (Literal ''0'')
     (Sequence (Class (\<lambda>b. 49 \<le> code b \<and> code b \<le> 57)) (Many (Class is_digit)))"

definition identifier_char :: "byte \<Rightarrow> bool" where
  "identifier_char b =
     (is_digit b \<or> (65 \<le> code b \<and> code b \<le> 90) \<or> (97 \<le> code b \<and> code b \<le> 122) \<or> b = CHR ''-'')"

definition prerelease_pattern :: regexp where
  "prerelease_pattern =
     Sequence (Some_of (Class identifier_char)) (Many (Sequence (Byte (CHR ''.'')) (Some_of (Class identifier_char))))"

definition tagged_compiler_version_pattern :: regexp where
  "tagged_compiler_version_pattern =
     Sequence (Byte (CHR ''v'')) (Sequence number_pattern (Sequence (Byte (CHR ''.''))
       (Sequence number_pattern (Sequence (Byte (CHR ''.'')) (Sequence number_pattern
         (Maybe (Sequence (Byte (CHR ''-'')) prerelease_pattern)))))))"

definition lower_hex :: "byte \<Rightarrow> bool" where
  "lower_hex b = (is_digit b \<or> (97 \<le> code b \<and> code b \<le> 102))"

text \<open>The pattern is not anchored at its start: anything may come before.\<close>

definition pseudo_version_suffix_pattern :: regexp where
  "pseudo_version_suffix_pattern =
     Sequence (Either Empty (Sequence (Many (Class (\<lambda>b. True))) (Class (\<lambda>b. b = CHR ''.'' \<or> b = CHR ''-''))))
       (Sequence (Maybe (Literal ''0.'')) (Sequence (Times 14 (Class is_digit))
         (Sequence (Byte (CHR ''-'')) (At_least 12 (Class lower_hex)))))"

definition all_decimal :: "bytes \<Rightarrow> bool" where
  "all_decimal value = (value \<noteq> [] \<and> list_all is_digit value)"

text \<open>The only group of the pattern is what follows the first hyphen, because there is none before.\<close>

definition tagged_prerelease :: "bytes \<Rightarrow> bytes option" where
  "tagged_prerelease value =
     (if \<not> matches tagged_compiler_version_pattern value then None
      else Some (case cut_at (CHR ''-'') value of None \<Rightarrow> [] | Some (_, prerelease) \<Rightarrow> prerelease))"

definition is_tagged_compiler_version :: "bytes \<Rightarrow> bool" where
  "is_tagged_compiler_version value =
     (case tagged_prerelease value of
        None \<Rightarrow> False
      | Some prerelease \<Rightarrow>
          (if matches pseudo_version_suffix_pattern prerelease then False
           else list_all (\<lambda>part. \<not> (1 < length part \<and> part ! 0 = CHR ''0'' \<and> all_decimal part))
             (split_on (CHR ''.'') prerelease)))"

definition select_compiler_version :: "bytes \<Rightarrow> bytes \<Rightarrow> bytes" where
  "select_compiler_version linker_value module_version =
     (if linker_value \<noteq> development_compiler_version then linker_value
      else
        (let module_version = trim_space module_version in
         if \<not> is_tagged_compiler_version module_version then linker_value else module_version))"

subsection \<open>The patterns as a grammar\<close>

lemma zero_code: "code b = 48 \<longleftrightarrow> b = CHR ''0''"
proof -
  have "code (CHR ''0'') = (48 :: nat)" by simp
  then show ?thesis by (metis of_char_eq_iff)
qed

lemma number_pattern_show: "matches number_pattern s \<longleftrightarrow> (\<exists>n. s = show_nat n)"
proof
  have char_digit: "b = char_of (48 + (code b - 48))" if "is_digit b" for b
    using that by (simp add: is_digit_def)
  have "s \<noteq> [] \<Longrightarrow> list_all is_digit s \<Longrightarrow> (length s = 1 \<or> hd s \<noteq> CHR ''0'') \<Longrightarrow> \<exists>n. s = show_nat n \<and> (length s > 1 \<longrightarrow> 0 < n)" for s
  proof (induction s rule: rev_induct)
    case (snoc b s)
    have b: "is_digit b" using snoc.prems by simp
    let ?d = "code b - 48"
    have d: "?d < 10" "b = char_of (48 + ?d)" using b by (auto simp: is_digit_def)
    show ?case
    proof (cases "s = []")
      case True
      then have "s @ [b] = show_nat ?d" using d by (simp add: show_nat.simps [of ?d])
      moreover have "length (s @ [b]) = 1" using True by simp
      ultimately show ?thesis by (metis less_numeral_extra(4))
    next
      case False
      then have "hd s \<noteq> CHR ''0''" using snoc.prems by simp
      then obtain n where n: "s = show_nat n" "length s > 1 \<longrightarrow> 0 < n" using snoc False by auto
      have "0 < n"
      proof (rule ccontr)
        assume "\<not> 0 < n"
        then have "s = [CHR ''0'']" using n(1) by (simp add: show_nat.simps [of 0] char_of_eq_iff)
        then show False using \<open>hd s \<noteq> _\<close> by simp
      qed
      then have "\<not> n * 10 + ?d < 10" "(n * 10 + ?d) div 10 = n" "(n * 10 + ?d) mod 10 = ?d" using d(1) by simp_all
      then have "show_nat (n * 10 + ?d) = s @ [b]" using n(1) d(2) by (simp add: show_nat.simps [of "n * 10 + ?d"])
      then show ?thesis using \<open>0 < n\<close> by (metis add_gr_0 mult_pos_pos zero_less_numeral)
    qed
  qed simp
  note all = this
  assume "matches number_pattern s"
  then consider "s = ''0''" | b t where "s = b # t" "49 \<le> code b" "code b \<le> 57" "list_all is_digit t"
    by (auto simp: number_pattern_def matches_Class_Sequence)
  then show "\<exists>n. s = show_nat n"
  proof cases
    case 1
    then show ?thesis using all [of s] by (auto simp: is_digit_def)
  next
    case 2
    then have "b \<noteq> CHR ''0''" by auto
    then show ?thesis using all [of s] 2 by (auto simp: is_digit_def)
  qed
next
  have head: "hd (show_nat n) = CHR ''0'' \<Longrightarrow> n = 0" for n
  proof (induction n rule: show_nat.induct)
    case (1 n)
    show ?case
    proof (cases "n < 10")
      case True
      then have "char_of (48 + n) = CHR ''0''" using "1.prems" by (simp add: show_nat.simps [of n])
      then have "of_char (char_of (48 + n) :: char) = (48 :: nat)" by simp
      then show ?thesis using True by simp
    next
      case False
      then have "n div 10 = 0" using 1 show_nat_digits printed_nonempty [of "n div 10"] by (simp add: show_nat.simps [of n])
      then show ?thesis using False by simp
    qed
  qed
  assume "\<exists>n. s = show_nat n"
  then obtain n where s: "s = show_nat n" by blast
  obtain b t where b: "s = b # t" using s printed_nonempty [of n] by (metis neq_Nil_conv)
  have "list_all is_digit (show_nat n)" by (simp add: list_all_iff is_digit_def show_nat_digits)
  then have "list_all is_digit (b # t)" by (simp only: s [symmetric] b)
  then have digits: "is_digit b" "list_all is_digit t" by simp_all
  show "matches number_pattern s"
  proof (cases "b = CHR ''0''")
    case True
    moreover have "show_nat n = b # t" using s b by simp
    ultimately have "n = 0" using head [of n] by simp
    then have "s = ''0''" using s by (simp add: show_nat.simps [of 0] char_of_eq_iff)
    then show ?thesis by (simp add: number_pattern_def)
  next
    case False
    then have "code b \<noteq> 48" using zero_code by blast
    then have "49 \<le> code b \<and> code b \<le> 57" using digits(1) by (simp add: is_digit_def)
    then show ?thesis using b digits(2) by (auto simp: number_pattern_def matches_Class_Sequence)
  qed
qed

lemma prerelease_pattern_parts:
  "matches prerelease_pattern s \<longleftrightarrow> list_all (\<lambda>w. w \<noteq> [] \<and> list_all identifier_char w) (split_on (CHR ''.'') s)"
  unfolding prerelease_pattern_def
  by (rule matches_separated) (simp add: identifier_char_def is_digit_def)

text \<open>Three numbers and, behind a hyphen, the identifiers of a prerelease.\<close>

definition version_core :: "nat \<Rightarrow> nat \<Rightarrow> nat \<Rightarrow> bytes" where
  "version_core major minor patch = CHR ''v'' # show_nat major @ ''.'' @ show_nat minor @ ''.'' @ show_nat patch"

lemma tagged_grammar:
  "matches tagged_compiler_version_pattern value \<longleftrightarrow>
     (\<exists>major minor patch. value = version_core major minor patch
        \<or> (\<exists>p. matches prerelease_pattern p \<and> value = version_core major minor patch @ CHR ''-'' # p))"
proof
  assume "matches tagged_compiler_version_pattern value"
  then obtain a b c tail where v: "value = CHR ''v'' # show_nat a @ CHR ''.'' # show_nat b @ CHR ''.'' # show_nat c @ tail"
    and tail: "tail = [] \<or> matches (Sequence (Byte (CHR ''-'')) prerelease_pattern) tail"
    unfolding tagged_compiler_version_pattern_def
    by (simp only: matches_Sequence matches_Byte number_pattern_show matches_Maybe) (elim exE conjE, simp)
  have "value = version_core a b c @ tail" using v by (simp add: version_core_def)
  moreover have "tail = [] \<or> (\<exists>p. matches prerelease_pattern p \<and> tail = CHR ''-'' # p)"
    using tail by (auto simp: matches_Sequence)
  ultimately show "\<exists>major minor patch. value = version_core major minor patch
      \<or> (\<exists>p. matches prerelease_pattern p \<and> value = version_core major minor patch @ CHR ''-'' # p)" by (metis append_Nil2)
next
  assume "\<exists>major minor patch. value = version_core major minor patch
      \<or> (\<exists>p. matches prerelease_pattern p \<and> value = version_core major minor patch @ CHR ''-'' # p)"
  then obtain a b c tail where v: "value = version_core a b c @ tail"
    and tail: "matches (Maybe (Sequence (Byte (CHR ''-'')) prerelease_pattern)) tail"
    by (force simp: matches_Sequence)
  have number: "matches number_pattern (show_nat n)" for n using number_pattern_show by blast
  have seq: "matches r u \<Longrightarrow> matches q w \<Longrightarrow> matches (Sequence r q) (u @ w)" for r q u w by (auto simp: matches_Sequence)
  have "matches tagged_compiler_version_pattern
      ([CHR ''v''] @ show_nat a @ ''.'' @ show_nat b @ ''.'' @ show_nat c @ tail)"
    unfolding tagged_compiler_version_pattern_def by (intro seq number tail) simp_all
  then show "matches tagged_compiler_version_pattern value" by (simp add: v version_core_def)
qed

lemma core_no_hyphen: "CHR ''-'' \<notin> set (version_core major minor patch)"
  using show_nat_digits [of "CHR ''-''"] by (auto simp: version_core_def)

lemma cut_at_first: "c \<notin> set u \<Longrightarrow> cut_at c (u @ c # v) = Some (u, v)"
  by (simp add: cut_at_def index_byte_append_notin)

lemma cut_at_absent: "c \<notin> set u \<Longrightarrow> cut_at c u = None"
  by (simp add: cut_at_def)

lemma all_digits_bytes: "list_all is_digit s \<Longrightarrow> CHR ''-'' \<notin> set s"
  by (auto simp: list_all_iff is_digit_def)

text \<open>The suffix of a pseudo-version: a time stamp of 14 digits and the start of a commit.\<close>

definition pseudo_suffix :: "bytes \<Rightarrow> bool" where
  "pseudo_suffix p =
     (\<exists>front zero stamp revision. p = front @ zero @ stamp @ CHR ''-'' # revision
        \<and> (front = [] \<or> last front = CHR ''.'' \<or> last front = CHR ''-'') \<and> (zero = [] \<or> zero = ''0.'')
        \<and> length stamp = 14 \<and> list_all is_digit stamp \<and> 12 \<le> length revision \<and> list_all lower_hex revision)"

lemma pseudo_pattern_suffix: "matches pseudo_version_suffix_pattern p \<longleftrightarrow> pseudo_suffix p"
proof
  assume "matches pseudo_version_suffix_pattern p"
  then obtain front zero stamp revision where p: "p = front @ zero @ stamp @ CHR ''-'' # revision"
    and front: "front = [] \<or> matches (Sequence (Many (Class (\<lambda>b. True))) (Class (\<lambda>b. b = CHR ''.'' \<or> b = CHR ''-''))) front"
    and rest: "zero = [] \<or> zero = ''0.''" "length stamp = 14" "list_all is_digit stamp"
      "12 \<le> length revision" "list_all lower_hex revision"
    unfolding pseudo_version_suffix_pattern_def matches_Sequence matches_Either matches_Empty matches_Maybe matches_Literal
      matches_Times_Class matches_Byte matches_At_least_Class by (elim exE conjE) simp
  have "front = [] \<or> last front = CHR ''.'' \<or> last front = CHR ''-''" using front by (auto simp: matches_Sequence)
  then show "pseudo_suffix p" using p rest unfolding pseudo_suffix_def by blast
next
  assume "pseudo_suffix p"
  then obtain front zero stamp revision where p: "p = front @ zero @ stamp @ [CHR ''-''] @ revision"
    and front: "front = [] \<or> last front = CHR ''.'' \<or> last front = CHR ''-''"
    and rest: "zero = [] \<or> zero = ''0.''" "length stamp = 14" "list_all is_digit stamp"
      "12 \<le> length revision" "list_all lower_hex revision" by (auto simp: pseudo_suffix_def)
  have seq: "matches r u \<Longrightarrow> matches q w \<Longrightarrow> matches (Sequence r q) (u @ w)" for r q u w by (auto simp: matches_Sequence)
  have "matches (Either Empty (Sequence (Many (Class (\<lambda>b. True))) (Class (\<lambda>b. b = CHR ''.'' \<or> b = CHR ''-'')))) front"
  proof (cases "front = []")
    case False
    then have split: "front = butlast front @ [last front]" by simp
    have "matches (Sequence (Many (Class (\<lambda>b. True))) (Class (\<lambda>b. b = CHR ''.'' \<or> b = CHR ''-''))) (butlast front @ [last front])"
      by (rule seq) (use front False in \<open>auto simp: list_all_iff\<close>)
    then show ?thesis using split by simp
  qed simp
  moreover have "matches (Maybe (Literal ''0.'')) zero" "matches (Times 14 (Class is_digit)) stamp"
    "matches (At_least 12 (Class lower_hex)) revision" using rest by simp_all
  ultimately show "matches pseudo_version_suffix_pattern p"
    unfolding p pseudo_version_suffix_pattern_def by (intro seq) simp_all
qed

text \<open>
  A released version in the words of semantic versioning: numbers without leading zeros, prerelease
  identifiers of which no numeric one has a leading zero, no build metadata, and not a pseudo-version.
\<close>

definition prerelease_identifier :: "bytes \<Rightarrow> bool" where
  "prerelease_identifier w = (w \<noteq> [] \<and> list_all identifier_char w \<and> (all_decimal w \<longrightarrow> (\<exists>n. w = show_nat n)))"

definition released_version :: "bytes \<Rightarrow> bool" where
  "released_version value =
     (\<exists>major minor patch. value = version_core major minor patch
        \<or> (\<exists>ids. ids \<noteq> [] \<and> list_all prerelease_identifier ids \<and> \<not> pseudo_suffix (join_with ''.'' ids)
             \<and> value = version_core major minor patch @ CHR ''-'' # join_with ''.'' ids))"

lemma decimal_show: "all_decimal w \<Longrightarrow> (\<exists>n. w = show_nat n) \<longleftrightarrow> \<not> (1 < length w \<and> w ! 0 = CHR ''0'')"
proof -
  assume decimal: "all_decimal w"
  then obtain b t where w: "w = b # t" "is_digit b" "list_all is_digit t" by (cases w) (auto simp: all_decimal_def)
  have "matches number_pattern w \<longleftrightarrow> \<not> (1 < length w \<and> w ! 0 = CHR ''0'')"
  proof (cases "b = CHR ''0''")
    case True
    then show ?thesis using w by (auto simp: number_pattern_def matches_Class_Sequence)
  next
    case False
    then have "code b \<noteq> 48" using zero_code by blast
    then have "49 \<le> code b \<and> code b \<le> 57" using w(2) by (simp add: is_digit_def)
    then show ?thesis using w False by (auto simp: number_pattern_def matches_Class_Sequence)
  qed
  then show ?thesis using number_pattern_show by blast
qed

lemma is_tagged_released: "is_tagged_compiler_version value \<longleftrightarrow> released_version value"
proof -
  let ?ok = "\<lambda>part. \<not> (1 < length part \<and> part ! 0 = CHR ''0'' \<and> all_decimal part)"
  have ident: "prerelease_identifier w \<longleftrightarrow> (w \<noteq> [] \<and> list_all identifier_char w) \<and> ?ok w" for w
    using decimal_show [of w] by (auto simp: prerelease_identifier_def)
  have no_dot: "\<not> identifier_char (CHR ''.'')" by (simp add: identifier_char_def is_digit_def)
  have core: "is_tagged_compiler_version (version_core a b c)" for a b c
  proof -
    have "matches tagged_compiler_version_pattern (version_core a b c)" using tagged_grammar by blast
    moreover have "\<not> pseudo_suffix []" by (simp add: pseudo_suffix_def)
    ultimately show ?thesis
      by (simp add: is_tagged_compiler_version_def tagged_prerelease_def cut_at_absent [OF core_no_hyphen] pseudo_pattern_suffix)
  qed
  have pre: "is_tagged_compiler_version (version_core a b c @ CHR ''-'' # p)
      \<longleftrightarrow> \<not> pseudo_suffix p \<and> list_all ?ok (split_on (CHR ''.'') p)" if m: "matches prerelease_pattern p" for a b c p
  proof -
    have "matches tagged_compiler_version_pattern (version_core a b c @ CHR ''-'' # p)" using tagged_grammar m by blast
    then show ?thesis
      by (simp add: is_tagged_compiler_version_def tagged_prerelease_def cut_at_first [OF core_no_hyphen] pseudo_pattern_suffix)
  qed
  have ids: "matches prerelease_pattern (join_with ''.'' ids) \<and> split_on (CHR ''.'') (join_with ''.'' ids) = ids"
    if i: "ids \<noteq> []" "list_all prerelease_identifier ids" for ids
  proof -
    have "list_all (\<lambda>w. CHR ''.'' \<notin> set w) ids"
      using i(2) no_dot unfolding list_all_iff prerelease_identifier_def by blast
    then have split: "split_on (CHR ''.'') (join_with ''.'' ids) = ids" using split_join i(1) by blast
    moreover have "list_all (\<lambda>w. w \<noteq> [] \<and> list_all identifier_char w) ids"
      using i(2) by (auto simp: list_all_iff prerelease_identifier_def)
    ultimately show ?thesis by (simp add: prerelease_pattern_parts)
  qed
  show ?thesis
  proof
    assume tagged: "is_tagged_compiler_version value"
    then have "matches tagged_compiler_version_pattern value"
      by (auto simp: is_tagged_compiler_version_def tagged_prerelease_def split: if_splits option.splits)
    then obtain a b c p where v: "value = version_core a b c
        \<or> matches prerelease_pattern p \<and> value = version_core a b c @ CHR ''-'' # p"
      unfolding tagged_grammar by blast
    then show "released_version value"
    proof
      assume "value = version_core a b c"
      then show ?thesis unfolding released_version_def by blast
    next
      assume p: "matches prerelease_pattern p \<and> value = version_core a b c @ CHR ''-'' # p"
      then have ok: "\<not> pseudo_suffix p" "list_all ?ok (split_on (CHR ''.'') p)" using pre tagged by blast+
      have "list_all prerelease_identifier (split_on (CHR ''.'') p)"
        using p ok(2) unfolding ident list_all_iff prerelease_pattern_parts by blast
      then have "split_on (CHR ''.'') p \<noteq> [] \<and> list_all prerelease_identifier (split_on (CHR ''.'') p)
          \<and> \<not> pseudo_suffix (join_with ''.'' (split_on (CHR ''.'') p))
          \<and> value = version_core a b c @ CHR ''-'' # join_with ''.'' (split_on (CHR ''.'') p)"
        using p ok(1) by simp
      then show ?thesis unfolding released_version_def by blast
    qed
  next
    assume "released_version value"
    then obtain a b c i where v: "value = version_core a b c
        \<or> i \<noteq> [] \<and> list_all prerelease_identifier i \<and> \<not> pseudo_suffix (join_with ''.'' i)
           \<and> value = version_core a b c @ CHR ''-'' # join_with ''.'' i"
      unfolding released_version_def by blast
    then show "is_tagged_compiler_version value"
    proof
      assume i: "i \<noteq> [] \<and> list_all prerelease_identifier i \<and> \<not> pseudo_suffix (join_with ''.'' i)
           \<and> value = version_core a b c @ CHR ''-'' # join_with ''.'' i"
      have "list_all ?ok i" using i unfolding ident list_all_iff by blast
      moreover have "matches prerelease_pattern (join_with ''.'' i)" "split_on (CHR ''.'') (join_with ''.'' i) = i"
        using ids i by blast+
      ultimately show ?thesis using pre [of "join_with ''.'' i" a b c] i by simp
    qed (simp add: core)
  qed
qed

text \<open>
  C33: A build says it is a release exactly when it is one. Without a version from the linker the compiler
  adopts the module version Go recorded exactly when that is, in the grammar of semantic versioning, a
  version without build metadata that is not a pseudo-version made up for a commit; otherwise, and for
  every other text, it stays the development version.
\<close>

theorem selected_version_released:
  "select_compiler_version linker_value module_version =
     (if linker_value = development_compiler_version \<and> released_version (trim_space module_version)
      then trim_space module_version else linker_value)"
  by (simp add: select_compiler_version_def is_tagged_released Let_def)

end
