(* ===== verification/Dev_Config.thy ===== *)
theory Dev_Config
  imports Go_Net Template_Lexer Go_Literals Go_Paths
begin

section \<open>Development configuration: internal/devserver/config.go\<close>

text \<open>
  The values of \<open>himesan.json\<close>, their checks in the order of the code (the first problem is the
  error), and the paths made of them. Opening the file and decoding JSON are parameters of loading.
\<close>

record dev_config =
  cf_version :: int
  cf_source_roots :: "bytes list"
  cf_go_package :: bytes
  cf_app_args :: "bytes list"
  cf_listen_address_env :: bytes
  cf_health_path :: bytes
  cf_proxy_address :: bytes
  cf_additional_watch_roots :: "bytes list"

definition config_version :: int where "config_version = 1"
definition default_listen_address_env :: bytes where "default_listen_address_env = ''HIMESAN_LISTEN_ADDR''"
definition default_health_path :: bytes where "default_health_path = ''/''"
definition default_proxy_address :: bytes where "default_proxy_address = ''127.0.0.1:7331''"

definition default_config :: dev_config where
  "default_config = \<lparr>cf_version = config_version, cf_source_roots = [''.''], cf_go_package = ''.'', cf_app_args = [],
     cf_listen_address_env = default_listen_address_env, cf_health_path = default_health_path,
     cf_proxy_address = default_proxy_address, cf_additional_watch_roots = []\<rparr>"

definition environment_name :: "bytes \<Rightarrow> bool" where
  "environment_name s =
     (case s of [] \<Rightarrow> False
      | c # cs \<Rightarrow>
          (65 \<le> code c \<and> code c \<le> 90 \<or> 97 \<le> code c \<and> code c \<le> 122 \<or> c = CHR ''_'')
          \<and> list_all (\<lambda>c. 65 \<le> code c \<and> code c \<le> 90 \<or> 97 \<le> code c \<and> code c \<le> 122 \<or> is_digit c \<or> c = CHR ''_'') cs)"

definition validate_path_value :: "bytes \<Rightarrow> bytes option" where
  "validate_path_value path =
     (if trim_space path = [] then Some ''watch paths must not be empty''
      else if CHR 0x00 \<in> set path then Some ''watch path contains a NUL byte''
      else None)"

definition validate_loopback_address :: "(nat \<Rightarrow> bool) \<Rightarrow> bytes \<Rightarrow> bytes option" where
  "validate_loopback_address is_print address =
     (case split_host_port address of
        Inl e \<Rightarrow> Some (''must be host:port: '' @ e)
      | Inr (host, port) \<Rightarrow>
          (let bad_port = Some (''port '' @ go_quote is_print port @ '' is not numeric or is outside 0-65535'');
               check_host = (case parse_ip host of
                  Some ip \<Rightarrow> (if is_loopback ip then None else Some (''host '' @ go_quote is_print host @ '' is not a loopback IP''))
                | None \<Rightarrow> Some (''host '' @ go_quote is_print host @ '' is not a loopback IP''))
           in case go_atoi port of
                None \<Rightarrow> bad_port
              | Some n \<Rightarrow> (if n < 0 \<or> 65535 < n then bad_port else check_host)))"

fun first_problem :: "bytes option list \<Rightarrow> bytes option" where
  "first_problem [] = None"
| "first_problem (Some e # checks) = Some e"
| "first_problem (None # checks) = first_problem checks"

definition check_that :: "bool \<Rightarrow> bytes \<Rightarrow> bytes option" where
  "check_that ok problem = (if ok then None else Some problem)"

definition validate_config :: "(nat \<Rightarrow> bool) \<Rightarrow> dev_config \<Rightarrow> bytes option" where
  "validate_config is_print c = first_problem
     ([check_that (cf_version c = config_version)
         (''unsupported config version '' @ show_int (cf_version c) @ '' (want '' @ show_int config_version @ '')''),
       check_that (cf_source_roots c \<noteq> []) ''sourceRoots must contain at least one path'']
      @ map validate_path_value (cf_source_roots c @ cf_additional_watch_roots c)
      @ [check_that (trim_space (cf_go_package c) \<noteq> []) ''goPackage must not be empty'',
         check_that (\<not> contains_any (cf_go_package c) [CHR 0x00, CR, LF]) ''goPackage contains a control character'']
      @ map (\<lambda>arg. check_that (CHR 0x00 \<notin> set arg) ''appArgs contains a NUL byte'') (cf_app_args c)
      @ [check_that (environment_name (cf_listen_address_env c))
           (''listenAddressEnv '' @ go_quote is_print (cf_listen_address_env c) @ '' is not a valid environment variable name''),
         check_that (has_prefix ''/'' (cf_health_path c) \<and> \<not> has_prefix ''//'' (cf_health_path c))
           ''healthPath must be an absolute URL path'',
         check_that (\<not> contains_any (cf_health_path c) [CHR 0x00, CR, LF, CHR ''?'', CHR ''#''])
           ''healthPath must not contain controls, a query, or a fragment'',
         map_option (\<lambda>e. ''proxyAddress: '' @ e) (validate_loopback_address is_print (cf_proxy_address c))])"

text \<open>
  Loading: the file opened, the decoder for the configuration (which starts from the values given and
  rejects unknown fields) and the next value behind it, if any.
\<close>

datatype decoded_next = DecodedEnd | DecodedValue | DecodeFault bytes

definition load_config ::
  "(bytes \<Rightarrow> bytes + bytes) \<Rightarrow> (dev_config \<Rightarrow> bytes \<Rightarrow> bytes + (dev_config \<times> bytes)) \<Rightarrow> (bytes \<Rightarrow> decoded_next) \<Rightarrow>
   (nat \<Rightarrow> bool) \<Rightarrow> bytes \<Rightarrow> bytes + dev_config" where
  "load_config open_file decode decode_next is_print path =
     (case open_file path of
        Inl e \<Rightarrow> Inl (''open development config: '' @ e)
      | Inr contents \<Rightarrow>
          (case decode (default_config\<lparr>cf_version := 0\<rparr>) contents of
             Inl e \<Rightarrow> Inl (''decode development config: '' @ e)
           | Inr (cfg, rest) \<Rightarrow>
               (case decode_next rest of
                  DecodedValue \<Rightarrow> Inl ''decode development config: multiple JSON values''
                | DecodeFault e \<Rightarrow> Inl (''decode development config: '' @ e)
                | DecodedEnd \<Rightarrow>
                    (case validate_config is_print cfg of
                       Some e \<Rightarrow> Inl (''validate development config: '' @ e)
                     | None \<Rightarrow> Inr cfg))))"

definition resolve_project_path :: "bytes \<Rightarrow> bytes \<Rightarrow> bytes" where
  "resolve_project_path root_dir path =
     (if is_rooted path then path_clean path else path_join root_dir (path_clean path))"

declare config_version_def [go_eval] default_listen_address_env_def [go_eval] default_health_path_def [go_eval]
  default_proxy_address_def [go_eval] default_config_def [go_eval] environment_name_def [go_eval]
  validate_path_value_def [go_eval] validate_loopback_address_def [go_eval] check_that_def [go_eval]
  validate_config_def [go_eval] load_config_def [go_eval] resolve_project_path_def [go_eval]

subsection \<open>What is accepted\<close>

lemma first_problem_append: "first_problem (us @ vs) = (case first_problem us of None \<Rightarrow> first_problem vs | Some e \<Rightarrow> Some e)"
  by (induction us rule: first_problem.induct) auto

lemma first_problem_none: "first_problem checks = None \<longleftrightarrow> (\<forall>e. Some e \<notin> set checks)"
  by (induction checks rule: first_problem.induct) auto

lemma default_config_valid: "validate_config is_print default_config = None"
  by (simp add: go_eval decode_rune_def)

text \<open>The host and the port a split address is made of.\<close>

lemma last_index_byte_split:
  "last_index_byte b s = Some i \<Longrightarrow> s = take i s @ b # drop (i + 1) s \<and> b \<notin> set (drop (i + 1) s) \<and> i < length s"
proof -
  assume last: "last_index_byte b s = Some i"
  note at = last_index_of_Some [OF last [unfolded last_index_byte_def]]
  then obtain t where t: "drop i s = b # t" by (auto simp: has_prefix_iff)
  then have i: "i < length s" by (metis drop_eq_Nil list.distinct(1) not_le)
  then have drop: "drop (i + 1) s = t" using t by (metis add.commute drop_drop drop_Suc_Cons drop0 plus_1_eq_Suc)
  have "b \<notin> set t"
  proof
    assume "b \<in> set t"
    then obtain us vs where "t = us @ b # vs" by (meson split_list)
    then have "drop (i + 1 + length us) s = b # vs" using drop by (metis append_eq_conv_conj drop_drop add.commute)
    moreover from this have "i + 1 + length us \<le> length s" by (metis drop_eq_Nil list.distinct(1) nat_le_linear)
    ultimately show False
      using last_index_of_last [OF last [unfolded last_index_byte_def], of "i + 1 + length us"] by simp
  qed
  moreover have "s = take i s @ drop i s" by simp
  ultimately show ?thesis using t drop i by simp
qed

lemma split_host_port_parts:
  assumes "split_host_port s = Inr (host, port)"
  shows "(s = host @ CHR '':'' # port \<or> s = CHR ''['' # host @ CHR '']'' # CHR '':'' # port) \<and> CHR '':'' \<notin> set port"
proof -
  obtain i where i: "last_index_byte (CHR '':'') s = Some i"
    using assms by (cases "last_index_byte (CHR '':'') s") (simp_all add: split_host_port_def)
  note last = last_index_byte_split [OF i]
  show ?thesis
  proof (cases "s ! 0 = CHR ''[''")
    case False
    then have "host = take i s" "port = drop (i + 1) s"
      using assms i by (simp_all add: split_host_port_def Let_def split: if_splits)
    then show ?thesis using last by simp
  next
    case True
    then obtain e where e: "index_byte (CHR '']'') s = Some e" "e + 1 = i" "host = drop 1 (take e s)" "port = drop (i + 1) s"
      using assms i by (auto simp: split_host_port_def Let_def split: if_splits option.splits)
    note bracket = index_byte_Some [OF e(1)]
    have "e \<noteq> 0" using bracket True by (cases e) auto
    then have "take i s = CHR ''['' # host @ [CHR '']'']"
      using bracket True e(2,3) by (cases s) (auto simp: take_Suc_conv_app_nth neq0_conv dest!: gr0_implies_Suc)
    then show ?thesis using last e(4) by (metis append.assoc append_Cons append_Nil)
  qed
qed

text \<open>An accepted address is a literal loopback address with a port of 16 bits.\<close>

lemma loopback_address_accepted:
  assumes "validate_loopback_address is_print address = None"
  shows "\<exists>host port ip n. (address = host @ CHR '':'' # port \<or> address = CHR ''['' # host @ CHR '']'' # CHR '':'' # port)
    \<and> split_host_port address = Inr (host, port)
    \<and> parse_ip host = Some ip \<and> is_loopback ip \<and> go_atoi port = Some n \<and> 0 \<le> n \<and> n \<le> 65535"
proof -
  obtain host port where split: "split_host_port address = Inr (host, port)"
    using assms by (auto simp: validate_loopback_address_def split: sum.splits)
  obtain n where n: "go_atoi port = Some n" "0 \<le> n" "n \<le> 65535"
    using assms split by (auto simp: validate_loopback_address_def Let_def split: option.splits if_splits)
  obtain ip where "parse_ip host = Some ip" "is_loopback ip"
    using assms split n by (auto simp: validate_loopback_address_def split: option.splits if_splits)
  with split n split_host_port_parts [OF split] show ?thesis by blast
qed

end
