(* ===== verification/Release_Package.thy ===== *)
theory Release_Package
  imports Release_Files Compiler_Version Dev_Config
begin

section \<open>Release archives and receipts: internal/releaseartifact/artifact.go\<close>

text \<open>
  The records, their validation, and the building of a deterministic archive with its checksum.
  Libraries are named of a record of tools: SHA-256 in hexadecimal, JSON encoders and strict decoders,
  RFC 3339 times, gzip and tar. A range over a Go map comes in an order the tools choose.
\<close>

subsection \<open>Patterns\<close>

definition release_version_pattern :: regexp where
  "release_version_pattern = tagged_compiler_version_pattern"

definition git_object_pattern :: regexp where
  "git_object_pattern = Sequence (Times 40 (Class lower_hex)) (At_most 24 (Class lower_hex))"

definition digest_pattern :: regexp where "digest_pattern = Times 64 (Class lower_hex)"

definition three_numbers :: regexp where
  "three_numbers = Sequence number_pattern (Sequence (Byte (CHR ''.''))
     (Sequence number_pattern (Sequence (Byte (CHR ''.'')) number_pattern)))"

definition go_version_pattern :: regexp where
  "go_version_pattern = Sequence (Literal ''go'') three_numbers"

definition platform_char :: "byte \<Rightarrow> bool" where
  "platform_char b = (is_digit b \<or> (97 \<le> code b \<and> code b \<le> 122))"

definition platform_pattern :: regexp where "platform_pattern = Some_of (Class platform_char)"

subsection \<open>Records\<close>

record package_options =
  po_version :: bytes
  po_commit :: bytes
  po_tree :: bytes
  po_go_version :: bytes
  po_goos :: bytes
  po_goarch :: bytes
  po_binary_path :: bytes
  po_license_path :: bytes
  po_release_notes :: bytes
  po_output_directory :: bytes
  po_source_date_epoch :: int

record build_info =
  bu_schema_version :: int
  bu_version :: bytes
  bu_commit :: bytes
  bu_tree :: bytes
  bu_go_version :: bytes
  bu_goos :: bytes
  bu_goarch :: bytes
  bu_binary_sha256 :: bytes
  bu_unsigned_binary_sha256 :: bytes
  bu_unsigned_archive_sha256 :: bytes
  bu_signing_identifier :: bytes

record spdx_checksum =
  sc_algorithm :: bytes
  sc_value :: bytes

record spdx_package =
  sp_name :: bytes
  sp_spdx_id :: bytes
  sp_version_info :: bytes
  sp_download_location :: bytes
  sp_files_analyzed :: bool
  sp_license_concluded :: bytes
  sp_license_declared :: bytes
  sp_checksums :: "spdx_checksum list"

record spdx_document =
  sd_spdx_version :: bytes
  sd_data_license :: bytes
  sd_spdx_id :: bytes
  sd_name :: bytes
  sd_document_namespace :: bytes
  sd_created :: bytes
  sd_creators :: "bytes list"
  sd_packages :: "spdx_package list"

record receipt =
  re_schema_version :: bytes
  re_repository :: bytes
  re_commit :: bytes
  re_tree :: bytes
  re_goos :: bytes
  re_goarch :: bytes
  re_go_version :: bytes
  re_runner_version :: bytes
  re_runner_name :: bytes
  re_generated_digest :: bytes
  re_unsigned_artifact_sha :: bytes
  re_successful_gates :: "bytes list"
  re_completed_at :: bytes

record archive_member =
  am_name :: bytes
  am_mode :: nat
  am_data :: bytes

record evidence_file =
  ef_path :: bytes
  ef_sha256 :: bytes

record evidence_manifest =
  em_schema_version :: bytes
  em_repository :: bytes
  em_version :: bytes
  em_commit :: bytes
  em_tree :: bytes
  em_review_status :: bytes
  em_reviewed_by :: bytes
  em_reviewed_at :: bytes
  em_files :: "evidence_file list"

record signing_info =
  si_schema_version :: int
  si_unsigned_archive_sha256 :: bytes
  si_unsigned_binary_sha256 :: bytes
  si_signed_binary_sha256 :: bytes
  si_identity :: bytes
  si_identifier :: bytes
  si_finalized_at :: bytes

text \<open>Reading a tar stream: a header with what reading its member gives, or an error.\<close>

record tar_header =
  th_name :: bytes
  th_mode :: nat
  th_length :: int
  th_regular :: bool
  th_link_name :: bytes

datatype tar_item = TarMember tar_header "bytes option" | TarFault bytes

record release_tools =
  rt_digest :: "bytes \<Rightarrow> bytes"
  rt_encode_build :: "build_info \<Rightarrow> bytes + bytes"
  rt_decode_build :: "bytes \<Rightarrow> bytes + (build_info \<times> bytes)"
  rt_encode_spdx :: "spdx_document \<Rightarrow> bytes + bytes"
  rt_decode_spdx :: "bytes \<Rightarrow> bytes + (spdx_document \<times> bytes)"
  rt_encode_receipt :: "receipt \<Rightarrow> bytes + bytes"
  rt_decode_receipt :: "bytes \<Rightarrow> bytes + (receipt \<times> bytes)"
  rt_encode_manifest :: "evidence_manifest \<Rightarrow> bytes + bytes"
  rt_decode_manifest :: "bytes \<Rightarrow> bytes + (evidence_manifest \<times> bytes)"
  rt_encode_signing :: "signing_info \<Rightarrow> bytes + bytes"
  rt_decode_next :: "bytes \<Rightarrow> decoded_next"
  rt_parse_time :: "bytes \<Rightarrow> bytes + int"
  rt_format_time :: "int \<Rightarrow> bytes"
  rt_now :: "nat \<Rightarrow> int"
  rt_header_fault :: "bytes \<Rightarrow> bytes option"
  rt_archive :: "int \<Rightarrow> (bytes \<times> archive_member) list \<Rightarrow> bytes"
  rt_gunzip :: "bytes \<Rightarrow> bytes + (bytes \<times> bytes option \<times> bytes option)"
  rt_untar :: "bytes \<Rightarrow> bytes option \<Rightarrow> tar_item list"
  rt_range :: "bytes list \<Rightarrow> bytes list"

subsection \<open>Validation\<close>

text \<open>The first blank value in the order the range over the map takes.\<close>

definition first_blank :: "release_tools \<Rightarrow> (bytes \<times> bytes) list \<Rightarrow> bytes option" where
  "first_blank rt named =
     first_problem (map (\<lambda>name. check_that (trim_space (the (map_of named name)) \<noteq> []) (name @ '' is required''))
       (rt_range rt (map fst named)))"

definition validate_package_options :: "release_tools \<Rightarrow> package_options \<Rightarrow> bytes option" where
  "validate_package_options rt p = first_problem
     [first_blank rt
        [(''version'', po_version p), (''commit'', po_commit p), (''tree'', po_tree p), (''go version'', po_go_version p),
         (''GOOS'', po_goos p), (''GOARCH'', po_goarch p), (''binary'', po_binary_path p), (''license'', po_license_path p),
         (''release notes'', po_release_notes p), (''output directory'', po_output_directory p)],
      check_that (0 < po_source_date_epoch p) ''source date epoch must be positive'',
      check_that (matches release_version_pattern (po_version p))
        ''version must be a canonical v-prefixed semantic version without build metadata'',
      check_that (matches git_object_pattern (po_commit p) \<and> matches git_object_pattern (po_tree p))
        ''commit and tree must be full lowercase Git object identities'',
      check_that (matches go_version_pattern (po_go_version p)) ''Go version must be a complete goX.Y.Z toolchain identity'',
      check_that (matches platform_pattern (po_goos p) \<and> matches platform_pattern (po_goarch p))
        ''GOOS and GOARCH must contain only lowercase letters and digits'']"

definition validate_receipt :: "release_tools \<Rightarrow> receipt \<Rightarrow> bytes option" where
  "validate_receipt rt r = first_problem
     [first_blank rt
        [(''repository'', re_repository r), (''commit'', re_commit r), (''tree'', re_tree r), (''GOOS'', re_goos r),
         (''GOARCH'', re_goarch r), (''Go version'', re_go_version r), (''runner version'', re_runner_version r),
         (''runner name'', re_runner_name r), (''generated digest'', re_generated_digest r),
         (''completed at'', re_completed_at r)],
      check_that (re_successful_gates r \<noteq> []) ''at least one successful gate is required'',
      check_that (matches git_object_pattern (re_commit r) \<and> matches git_object_pattern (re_tree r))
        ''commit and tree must be full lowercase Git object identities'',
      check_that (matches go_version_pattern (re_go_version r)) ''Go version must be a complete goX.Y.Z toolchain identity'',
      check_that (matches platform_pattern (re_goos r) \<and> matches platform_pattern (re_goarch r))
        ''GOOS and GOARCH must contain only lowercase letters and digits'',
      check_that (matches digest_pattern (re_generated_digest r)) ''generated-output digest must be a lowercase SHA-256'',
      check_that (re_unsigned_artifact_sha r = [] \<or> matches digest_pattern (re_unsigned_artifact_sha r))
        ''unsigned-artifact digest must be a lowercase SHA-256'',
      (case rt_parse_time rt (re_completed_at r) of Inl e \<Rightarrow> Some (''completed at must be RFC3339: '' @ e) | Inr t \<Rightarrow> None)]"

subsection \<open>Writing the archive\<close>

text \<open>The members one after another: header and data, each a call that may fail.\<close>

fun write_members :: "release_tools \<Rightarrow> 'd host \<Rightarrow> bytes \<Rightarrow> archive_member list \<Rightarrow> world \<Rightarrow> bytes option \<times> world" where
  "write_members rt h root [] w = (None, w)"
| "write_members rt h root (m # ms) w =
     (case rt_header_fault rt (root @ ''/'' @ am_name m) of
        Some e \<Rightarrow> (Some (''write archive header: '' @ e), w)
      | None \<Rightarrow>
          (case plain_call h w of
             (Some e, w) \<Rightarrow> (Some (''write archive header: '' @ os_error_text e), w)
           | (None, w) \<Rightarrow>
               (case plain_call h w of
                  (Some e, w) \<Rightarrow> (Some (''write archive member: '' @ os_error_text e), w)
                | (None, w) \<Rightarrow> write_members rt h root ms w)))"

definition labelled :: "bytes \<Rightarrow> os_error option \<times> world \<Rightarrow> bytes option \<times> world" where
  "labelled text_of r = (case r of (err, w) \<Rightarrow> (map_option (\<lambda>e. text_of @ os_error_text e) err, w))"

definition then_call :: "bytes option \<times> world \<Rightarrow> (world \<Rightarrow> bytes option \<times> world) \<Rightarrow> bytes option \<times> world" where
  "then_call r next_call = (case r of (Some e, w) \<Rightarrow> (Some e, w) | (None, w) \<Rightarrow> next_call w)"

text \<open>What the buffers hold reaches the file at the latest when the gzip stream is closed.\<close>

definition fill_archive ::
  "release_tools \<Rightarrow> 'd host \<Rightarrow> bytes \<Rightarrow> bytes \<Rightarrow> archive_member list \<Rightarrow> int \<Rightarrow> world \<Rightarrow> bytes option \<times> world" where
  "fill_archive rt h path root members modified w =
     (let contents = rt_archive rt modified (map (\<lambda>m. (root @ ''/'' @ am_name m, m)) members) in
      then_call (write_members rt h root members w) (\<lambda>w.
      then_call (labelled ''close tar stream: '' (plain_call h w)) (\<lambda>w.
      then_call (labelled ''close gzip stream: '' (write_open h path 384 contents w)) (\<lambda>w.
      then_call (labelled ''sync archive: '' (plain_call h w)) (\<lambda>w.
      then_call (labelled ''close archive: '' (plain_call h w)) (\<lambda>w.
      labelled ''set archive permissions: '' (change_file h path (Some (RegularFile 292 contents)) w)))))))"

definition write_archive ::
  "release_tools \<Rightarrow> 'd host \<Rightarrow> bytes \<Rightarrow> bytes \<Rightarrow> archive_member list \<Rightarrow> int \<Rightarrow> world \<Rightarrow> bytes option \<times> world" where
  "write_archive rt h path root members modified w =
     (case create_exclusive h path 384 w of
        (Some e, w) \<Rightarrow> (Some (''create archive: '' @ os_error_text e), w)
      | (None, w) \<Rightarrow>
          (case fill_archive rt h path root members modified w of
             (Some e, w) \<Rightarrow> (Some e, abandon_file h path w)
           | (None, w) \<Rightarrow> (None, w)))"

subsection \<open>Package\<close>

definition build_information :: "package_options \<Rightarrow> bytes \<Rightarrow> build_info" where
  "build_information p binary_digest =
     \<lparr>bu_schema_version = 1, bu_version = po_version p, bu_commit = po_commit p, bu_tree = po_tree p,
      bu_go_version = po_go_version p, bu_goos = po_goos p, bu_goarch = po_goarch p, bu_binary_sha256 = binary_digest,
      bu_unsigned_binary_sha256 = [], bu_unsigned_archive_sha256 = [], bu_signing_identifier = []\<rparr>"

definition bill_of_materials :: "release_tools \<Rightarrow> package_options \<Rightarrow> bytes \<Rightarrow> spdx_document" where
  "bill_of_materials rt p binary_digest =
     \<lparr>sd_spdx_version = ''SPDX-2.3'', sd_data_license = ''CC0-1.0'', sd_spdx_id = ''SPDXRef-DOCUMENT'',
      sd_name = ''himesan-'' @ po_version p @ ''-'' @ po_goos p @ ''-'' @ po_goarch p,
      sd_document_namespace = ''https://sandwichhime.com/spdx/himesan/'' @ po_version p @ ''/'' @ po_commit p @ ''/''
        @ po_goos p @ ''-'' @ po_goarch p,
      sd_created = rt_format_time rt (po_source_date_epoch p), sd_creators = [''Organization: Gamertan''],
      sd_packages = [\<lparr>sp_name = ''himesan'', sp_spdx_id = ''SPDXRef-Package-himesan'', sp_version_info = po_version p,
        sp_download_location = ''NOASSERTION'', sp_files_analyzed = False, sp_license_concluded = ''AGPL-3.0-only'',
        sp_license_declared = ''AGPL-3.0-only'', sp_checksums = [\<lparr>sc_algorithm = ''SHA256'', sc_value = binary_digest\<rparr>]\<rparr>]\<rparr>"

text \<open>\<open>indentedJSON\<close>: the encoder and a line feed.\<close>

definition indented_json :: "bytes + bytes \<Rightarrow> bytes + bytes" where
  "indented_json encoded = (case encoded of Inl e \<Rightarrow> Inl (''encode JSON: '' @ e) | Inr contents \<Rightarrow> Inr (contents @ [LF]))"

definition checksum_line :: "release_tools \<Rightarrow> bytes \<Rightarrow> bytes \<Rightarrow> bytes" where
  "checksum_line rt name contents = rt_digest rt contents @ ''  '' @ name"

definition archive_members :: "release_tools \<Rightarrow> bytes \<Rightarrow> bytes \<Rightarrow> bytes \<Rightarrow> bytes \<Rightarrow> bytes \<Rightarrow> archive_member list" where
  "archive_members rt info license release_notes sbom binary =
     (let members = [\<lparr>am_name = ''BUILDINFO.json'', am_mode = 292, am_data = info\<rparr>,
            \<lparr>am_name = ''LICENSE'', am_mode = 292, am_data = license\<rparr>,
            \<lparr>am_name = ''RELEASE.md'', am_mode = 292, am_data = release_notes\<rparr>,
            \<lparr>am_name = ''SBOM.spdx.json'', am_mode = 292, am_data = sbom\<rparr>,
            \<lparr>am_name = ''himesan'', am_mode = 365, am_data = binary\<rparr>];
          lines = map (\<lambda>m. checksum_line rt (am_name m) (am_data m)) members
      in sort_key am_name (members @
           [\<lparr>am_name = ''SHA256SUMS'', am_mode = 292, am_data = join_with [LF] lines @ [LF]\<rparr>]))"

definition package_base :: "package_options \<Rightarrow> bytes" where
  "package_base p = ''himesan-'' @ trim_prefix ''v'' (po_version p) @ ''-'' @ po_goos p @ ''-'' @ po_goarch p"

definition read_input :: "'d host \<Rightarrow> bytes \<Rightarrow> bytes \<Rightarrow> world \<Rightarrow> (bytes + bytes) \<times> world" where
  "read_input h what path w =
     (case read_file h path w of
        (Inl e, w) \<Rightarrow> (Inl (''read '' @ what @ '': '' @ os_error_text e), w)
      | (Inr contents, w) \<Rightarrow> (Inr contents, w))"

text \<open>The archive and its checksum, once the members are there.\<close>

definition write_package ::
  "release_tools \<Rightarrow> 'd host \<Rightarrow> package_options \<Rightarrow> archive_member list \<Rightarrow> world \<Rightarrow> (bytes + (bytes \<times> bytes)) \<times> world" where
  "write_package rt h p members w =
     (case make_directories h (po_output_directory p) 493 w of
        (Some e, w) \<Rightarrow> (Inl (''create output directory: '' @ os_error_text e), w)
      | (None, w) \<Rightarrow>
          (let base = package_base p; archive_path = path_join (po_output_directory p) (base @ ''.tar.gz'') in
           case write_archive rt h archive_path base members (po_source_date_epoch p) w of
             (Some e, w) \<Rightarrow> (Inl e, w)
           | (None, w) \<Rightarrow>
               (case read_input h ''completed archive'' archive_path w of
                  (Inl e, w) \<Rightarrow> (Inl e, w)
                | (Inr archive, w) \<Rightarrow>
                    (case write_exclusive h (archive_path @ ''.sha256'')
                         (checksum_line rt (path_base archive_path) archive @ [LF]) 292 w of
                       (Some e, w) \<Rightarrow> (Inl (''write archive checksum: '' @ os_error_text e), w)
                     | (None, w) \<Rightarrow> (Inr (archive_path, rt_digest rt archive), w)))))"

definition package_release ::
  "release_tools \<Rightarrow> 'd host \<Rightarrow> package_options \<Rightarrow> world \<Rightarrow> (bytes + (bytes \<times> bytes)) \<times> world" where
  \<comment> \<open>the path of the archive and its digest\<close>
  "package_release rt h p w =
     (case validate_package_options rt p of
        Some e \<Rightarrow> (Inl e, w)
      | None \<Rightarrow>
          (case read_input h ''binary'' (po_binary_path p) w of
             (Inl e, w) \<Rightarrow> (Inl e, w)
           | (Inr binary, w) \<Rightarrow>
               (case read_input h ''license'' (po_license_path p) w of
                  (Inl e, w) \<Rightarrow> (Inl e, w)
                | (Inr license, w) \<Rightarrow>
                    (case read_input h ''release notes'' (po_release_notes p) w of
                       (Inl e, w) \<Rightarrow> (Inl e, w)
                     | (Inr release_notes, w) \<Rightarrow>
                         (let binary_digest = rt_digest rt binary in
                          case indented_json (rt_encode_build rt (build_information p binary_digest)) of
                            Inl e \<Rightarrow> (Inl e, w)
                          | Inr info \<Rightarrow>
                              (case indented_json (rt_encode_spdx rt (bill_of_materials rt p binary_digest)) of
                                 Inl e \<Rightarrow> (Inl e, w)
                               | Inr sbom \<Rightarrow>
                                   write_package rt h p (archive_members rt info license release_notes sbom binary) w))))))"

subsection \<open>WriteReceipt and DigestFiles\<close>

definition receipt_schema :: bytes where "receipt_schema = ''himesan.native-verification.v1''"

definition write_receipt :: "release_tools \<Rightarrow> 'd host \<Rightarrow> bytes \<Rightarrow> receipt \<Rightarrow> world \<Rightarrow> (bytes + bytes) \<times> world" where
  "write_receipt rt h path r w =
     (let r = r\<lparr>re_schema_version := receipt_schema\<rparr> in
      case validate_receipt rt r of
        Some e \<Rightarrow> (Inl e, w)
      | None \<Rightarrow>
          (case indented_json (rt_encode_receipt rt (r\<lparr>re_successful_gates := sort (re_successful_gates r)\<rparr>)) of
             Inl e \<Rightarrow> (Inl e, w)
           | Inr contents \<Rightarrow>
               (case write_exclusive h path contents 292 w of
                  (Some e, w) \<Rightarrow> (Inl (''write receipt: '' @ os_error_text e), w)
                | (None, w) \<Rightarrow>
                    (case write_exclusive h (path @ ''.sha256'') (checksum_line rt (path_base path) contents @ [LF]) 292 w of
                       (Some e, w) \<Rightarrow> (Inl (''write receipt checksum: '' @ os_error_text e), w)
                     | (None, w) \<Rightarrow> (Inr (rt_digest rt contents), w)))))"

text \<open>The bytes that are hashed: names and contents, each closed by a NUL byte.\<close>

fun hashed_files :: "'d host \<Rightarrow> bytes list \<Rightarrow> world \<Rightarrow> (bytes + bytes) \<times> world" where
  "hashed_files h [] w = (Inr [], w)"
| "hashed_files h (path # paths) w =
     (case read_file h path w of
        (Inl e, w) \<Rightarrow> (Inl (''read '' @ path @ '': '' @ os_error_text e), w)
      | (Inr contents, w) \<Rightarrow>
          (case hashed_files h paths w of
             (Inl e, w) \<Rightarrow> (Inl e, w)
           | (Inr rest, w) \<Rightarrow> (Inr (path @ [CHR 0x00] @ contents @ [CHR 0x00] @ rest), w)))"

definition digest_files :: "release_tools \<Rightarrow> 'd host \<Rightarrow> bytes list \<Rightarrow> world \<Rightarrow> (bytes + bytes) \<times> world" where
  "digest_files rt h paths w =
     (if paths = [] then (Inl ''at least one generated file is required'', w)
      else (case hashed_files h (sort paths) w of
          (Inl e, w) \<Rightarrow> (Inl e, w)
        | (Inr contents, w) \<Rightarrow> (Inr (rt_digest rt contents), w)))"

end
