(* ===== verification/Release_Evidence.thy ===== *)
theory Release_Evidence
  imports Release_Package
begin

section \<open>Sealed evidence: internal/releaseartifact/evidence.go\<close>

text \<open>
  The manifest that binds the reviewed documents to one source state, and its verification. Times are
  nanoseconds; the present is what the clock says when it is asked.
\<close>

definition evidence_schema :: bytes where "evidence_schema = ''himesan.release-evidence.v1''"
definition evidence_manifest_name :: bytes where "evidence_manifest_name = ''RELEASE-EVIDENCE.json''"
definition maximum_evidence_bytes :: nat where "maximum_evidence_bytes = 1048576"

definition required_evidence_files :: "bytes list" where
  "required_evidence_files =
     [''benchmark-methodology.md'', ''development-supervisor.md'', ''legal-review.md'', ''native-platforms.md'',
      ''security.md'', ''signing-and-recovery.md'', ''vanity-imports.md'']"

record evidence_identity =
  ei_repository :: bytes
  ei_version :: bytes
  ei_commit :: bytes
  ei_tree :: bytes
  ei_reviewed_by :: bytes
  ei_reviewed_at :: bytes

definition one_line :: "bytes \<Rightarrow> bool" where
  "one_line s = (trim_space s \<noteq> [] \<and> \<not> contains_any s [CR, LF, CHR 0x00])"

definition five_minutes :: int where "five_minutes = 300000000000"

definition validate_evidence_identity :: "release_tools \<Rightarrow> int \<Rightarrow> evidence_identity \<Rightarrow> bool \<Rightarrow> bytes option" where
  "validate_evidence_identity rt now identity require_review = first_problem
     ([check_that (one_line (ei_repository identity)) ''evidence repository is required and must be one line'',
       check_that (matches release_version_pattern (ei_version identity))
         ''evidence version must be a canonical v-prefixed semantic version'',
       check_that (matches git_object_pattern (ei_commit identity) \<and> matches git_object_pattern (ei_tree identity))
         ''evidence commit and tree must be full lowercase Git object identities'']
      @ (if \<not> require_review then []
         else [check_that (one_line (ei_reviewed_by identity)) ''evidence reviewer is required and must be one line'',
               (case rt_parse_time rt (ei_reviewed_at identity) of
                  Inl e \<Rightarrow> Some (''evidence review time must be RFC3339: '' @ e)
                | Inr reviewed_at \<Rightarrow>
                    check_that (reviewed_at \<le> now + five_minutes) ''evidence review time cannot be in the future'')]))"

text \<open>\<open>requireJSONEOF\<close> behind a decoded value; \<open>decodeStrictJSON\<close>.\<close>

definition require_json_eof :: "release_tools \<Rightarrow> bytes \<Rightarrow> bytes option" where
  "require_json_eof rt rest =
     (case rt_decode_next rt rest of
        DecodedEnd \<Rightarrow> None
      | DecodedValue \<Rightarrow> Some ''multiple JSON values are not allowed''
      | DecodeFault e \<Rightarrow> Some e)"

definition decode_strict :: "release_tools \<Rightarrow> bytes + ('a \<times> bytes) \<Rightarrow> bytes + 'a" where
  "decode_strict rt decoded =
     (case decoded of
        Inl e \<Rightarrow> Inl e
      | Inr (x, rest) \<Rightarrow> (case require_json_eof rt rest of Some e \<Rightarrow> Inl e | None \<Rightarrow> Inr x))"

definition read_evidence_file :: "'d host \<Rightarrow> bytes \<Rightarrow> bool \<Rightarrow> world \<Rightarrow> (bytes + bytes) \<times> world" where
  "read_evidence_file h path manifest w =
     (case lstat h path w of
        (Inl e, w) \<Rightarrow> (Inl (os_error_text e), w)
      | (Inr info, w) \<Rightarrow>
          (if unsuitable info then (Inl ''must be a regular file, not a symlink'', w)
           else if (case info of RegularFile perm content \<Rightarrow> content = [] \<or> maximum_evidence_bytes < length content | _ \<Rightarrow> True)
           then (Inl (''size must be between 1 and '' @ show_nat maximum_evidence_bytes @ '' bytes''), w)
           else (case read_file h path w of
               (Inl e, w) \<Rightarrow> (Inl (os_error_text e), w)
             | (Inr contents, w) \<Rightarrow>
                 (if manifest \<and> maximum_evidence_bytes < length contents
                  then (Inl ''manifest exceeds the size limit'', w) else (Inr contents, w)))))"

fun inspect_named_files :: "release_tools \<Rightarrow> 'd host \<Rightarrow> bytes \<Rightarrow> bytes list \<Rightarrow> world \<Rightarrow> (bytes + evidence_file list) \<times> world" where
  "inspect_named_files rt h directory [] w = (Inr [], w)"
| "inspect_named_files rt h directory (name # names) w =
     (case read_evidence_file h (path_join directory name) False w of
        (Inl e, w) \<Rightarrow> (Inl (''inspect '' @ name @ '': '' @ e), w)
      | (Inr contents, w) \<Rightarrow>
          (if \<not> valid_utf8 contents \<or> CHR 0x00 \<in> set contents then (Inl (name @ '' must be NUL-free UTF-8 text''), w)
           else if index_of ''# '' contents = None then (Inl (name @ '' must contain a Markdown heading''), w)
           else (case inspect_named_files rt h directory names w of
               (Inl e, w) \<Rightarrow> (Inl e, w)
             | (Inr files, w) \<Rightarrow> (Inr (\<lparr>ef_path = name, ef_sha256 = rt_digest rt contents\<rparr> # files), w))))"

definition inspect_evidence_files :: "release_tools \<Rightarrow> 'd host \<Rightarrow> bytes \<Rightarrow> world \<Rightarrow> (bytes + evidence_file list) \<times> world" where
  "inspect_evidence_files rt h directory w =
     (case lstat h directory w of
        (Inl e, w) \<Rightarrow> (Inl (''inspect evidence directory: '' @ os_error_text e), w)
      | (Inr info, w) \<Rightarrow>
          (if \<not> is_directory info then (Inl ''evidence directory must be a real directory, not a symlink'', w)
           else (case inspect_named_files rt h directory required_evidence_files w of
               (Inl e, w) \<Rightarrow> (Inl e, w)
             | (Inr files, w) \<Rightarrow> (Inr (sort_key ef_path files), w))))"

definition write_evidence_manifest ::
  "release_tools \<Rightarrow> 'd host \<Rightarrow> bytes \<Rightarrow> evidence_identity \<Rightarrow> world \<Rightarrow> (bytes + bytes) \<times> world" where
  "write_evidence_manifest rt h directory identity w =
     (case validate_evidence_identity rt (rt_now rt (w_clock w)) identity True of
        Some e \<Rightarrow> (Inl e, w)
      | None \<Rightarrow>
          (case inspect_evidence_files rt h directory w of
             (Inl e, w) \<Rightarrow> (Inl e, w)
           | (Inr files, w) \<Rightarrow>
               (case indented_json (rt_encode_manifest rt
                    \<lparr>em_schema_version = evidence_schema, em_repository = ei_repository identity,
                     em_version = ei_version identity, em_commit = ei_commit identity, em_tree = ei_tree identity,
                     em_review_status = ''reviewed'', em_reviewed_by = ei_reviewed_by identity,
                     em_reviewed_at = ei_reviewed_at identity, em_files = files\<rparr>) of
                  Inl e \<Rightarrow> (Inl e, w)
                | Inr contents \<Rightarrow>
                    (case write_exclusive h (path_join directory evidence_manifest_name) contents 292 w of
                       (Some e, w) \<Rightarrow> (Inl (''write release evidence manifest: '' @ os_error_text e), w)
                     | (None, w) \<Rightarrow> (Inr (rt_digest rt contents), w)))))"

text \<open>The comparison with what was found: the first that differs.\<close>

fun compare_files :: "evidence_file list \<Rightarrow> evidence_file list \<Rightarrow> bytes option" where
  "compare_files (sealed # sealed_files) (found # found_files) =
     (if sealed \<noteq> found then Some (ef_path found) else compare_files sealed_files found_files)"
| "compare_files sealed_files found_files = None"

definition manifest_identity :: "evidence_manifest \<Rightarrow> evidence_identity" where
  "manifest_identity m =
     \<lparr>ei_repository = em_repository m, ei_version = em_version m, ei_commit = em_commit m, ei_tree = em_tree m,
      ei_reviewed_by = em_reviewed_by m, ei_reviewed_at = em_reviewed_at m\<rparr>"

definition check_manifest ::
  "release_tools \<Rightarrow> (nat \<Rightarrow> bool) \<Rightarrow> int \<Rightarrow> evidence_identity \<Rightarrow> evidence_manifest \<Rightarrow> bytes option" where
  "check_manifest rt is_print now expected m =
     (let actual = manifest_identity m in first_problem
        [check_that (em_schema_version m = evidence_schema)
           (''release evidence schema = '' @ go_quote is_print (em_schema_version m) @ '', want '' @ go_quote is_print evidence_schema),
         check_that (em_review_status m = ''reviewed'') ''release evidence review status must be reviewed'',
         validate_evidence_identity rt now actual True,
         check_that (ei_repository actual = ei_repository expected \<and> ei_version actual = ei_version expected
             \<and> ei_commit actual = ei_commit expected \<and> ei_tree actual = ei_tree expected)
           ''release evidence repository, version, commit, or tree does not match the candidate''])"

definition verify_evidence_manifest ::
  "release_tools \<Rightarrow> (nat \<Rightarrow> bool) \<Rightarrow> 'd host \<Rightarrow> bytes \<Rightarrow> evidence_identity \<Rightarrow> world \<Rightarrow> bytes option \<times> world" where
  "verify_evidence_manifest rt is_print h directory expected w =
     (case validate_evidence_identity rt (rt_now rt (w_clock w)) expected False of
        Some e \<Rightarrow> (Some e, w)
      | None \<Rightarrow>
          (case read_evidence_file h (path_join directory evidence_manifest_name) True w of
             (Inl e, w) \<Rightarrow> (Some (''read release evidence manifest: '' @ e), w)
           | (Inr contents, w) \<Rightarrow>
               (case decode_strict rt (rt_decode_manifest rt contents) of
                  Inl e \<Rightarrow> (Some (''decode release evidence manifest: '' @ e), w)
                | Inr m \<Rightarrow>
                    (case check_manifest rt is_print (rt_now rt (w_clock w)) expected m of
                       Some e \<Rightarrow> (Some e, w)
                     | None \<Rightarrow>
                         (case inspect_evidence_files rt h directory w of
                            (Inl e, w) \<Rightarrow> (Some e, w)
                          | (Inr observed, w) \<Rightarrow>
                              (if length (em_files m) \<noteq> length observed
                               then (Some (''release evidence manifest contains '' @ show_nat (length (em_files m))
                                 @ '' files, want '' @ show_nat (length observed)), w)
                               else (map_option (\<lambda>path. ''release evidence file '' @ go_quote is_print path
                                   @ '' is missing, reordered, or has a changed digest'')
                                 (compare_files (em_files m) observed), w)))))))"

end
