(* ===== verification/Release_Native.thy ===== *)
theory Release_Native
  imports Release_Evidence
begin

section \<open>Native receipts: internal/releaseartifact/native.go\<close>

text \<open>
  The four lanes a release needs, the reading of one lane (receipt and checksum and nothing else), the
  gates, and the verification of the whole set with its summary.
\<close>

definition native_receipt_maximum_age :: int where "native_receipt_maximum_age = 2592000000000000"

definition runner_version_pattern :: regexp where
  "runner_version_pattern = Sequence (Byte (CHR ''v'')) three_numbers"

record native_lane =
  nl_directory :: bytes
  nl_goos :: bytes
  nl_goarch :: bytes
  nl_go_version :: bytes
  nl_runner :: bytes

definition required_native_lanes :: "native_lane list" where
  "required_native_lanes =
     [\<lparr>nl_directory = ''darwin-arm64-go1.26.7'', nl_goos = ''darwin'', nl_goarch = ''arm64'',
       nl_go_version = ''go1.26.7'', nl_runner = ''macbook-air-himesan-darwin-arm64''\<rparr>,
      \<lparr>nl_directory = ''darwin-arm64-go1.27.0'', nl_goos = ''darwin'', nl_goarch = ''arm64'',
       nl_go_version = ''go1.27.0'', nl_runner = ''macbook-air-himesan-darwin-arm64''\<rparr>,
      \<lparr>nl_directory = ''linux-amd64-go1.26.7'', nl_goos = ''linux'', nl_goarch = ''amd64'',
       nl_go_version = ''go1.26.7'', nl_runner = ''cliff-himesan-linux-amd64''\<rparr>,
      \<lparr>nl_directory = ''linux-amd64-go1.27.0'', nl_goos = ''linux'', nl_goarch = ''amd64'',
       nl_go_version = ''go1.27.0'', nl_runner = ''cliff-himesan-linux-amd64''\<rparr>]"

definition required_native_gates :: "bytes list" where
  "required_native_gates =
     [''build'', ''consumer'', ''contracts'', ''fuzz'', ''generation'', ''package'', ''public-snapshot'', ''race'', ''test'',
      ''vet'', ''vulnerability'']"

record native_expectation =
  ne_repository :: bytes
  ne_commit :: bytes
  ne_tree :: bytes

record lane_summary =
  ls_platform :: bytes
  ls_go_version :: bytes
  ls_runner_version :: bytes
  ls_artifact_sha256 :: bytes
  ls_receipt_sha256 :: bytes
  ls_completed_at :: bytes

record receipt_summary =
  rs_schema_version :: bytes
  rs_repository :: bytes
  rs_commit :: bytes
  rs_tree :: bytes
  rs_generated_digest :: bytes
  rs_lanes :: "lane_summary list"

fun equal_strings :: "bytes list \<Rightarrow> bytes list \<Rightarrow> bool" where
  "equal_strings [] [] = True"
| "equal_strings (a # as) (b # bs) = (a = b \<and> equal_strings as bs)"
| "equal_strings as bs = False"

definition name_list :: "bytes list \<Rightarrow> bytes" where
  "name_list names = CHR ''['' # join_with '' '' names @ '']''"

definition validate_native_directory :: "'d host \<Rightarrow> bytes \<Rightarrow> world \<Rightarrow> bytes option \<times> world" where
  "validate_native_directory h directory w =
     (case lstat h directory w of
        (Inl e, w) \<Rightarrow> (Some (''inspect native evidence directory: '' @ os_error_text e), w)
      | (Inr info, w) \<Rightarrow>
          (if \<not> is_directory info then (Some ''native evidence must be a real directory'', w)
           else (case read_dir h directory w of
               (Inl e, w) \<Rightarrow> (Some (''read native evidence directory: '' @ os_error_text e), w)
             | (Inr entries, w) \<Rightarrow>
                 (let expected = sort (map nl_directory required_native_lanes); observed = sort entries in
                  if \<not> equal_strings expected observed
                  then (Some (''native evidence directories = '' @ name_list observed @ '', want exactly '' @ name_list expected), w)
                  else (None, w)))))"

definition receipt_name :: bytes where "receipt_name = ''TEND-CI-VERIFICATION.json''"

definition decode_receipt :: "release_tools \<Rightarrow> bytes \<Rightarrow> bytes + receipt" where
  "decode_receipt rt contents =
     (case decode_strict rt (rt_decode_receipt rt contents) of
        Inl e \<Rightarrow> Inl (''decode receipt: '' @ e)
      | Inr r \<Rightarrow> (case validate_receipt rt r of Some e \<Rightarrow> Inl e | None \<Rightarrow> Inr r))"

definition read_native_lane :: "release_tools \<Rightarrow> 'd host \<Rightarrow> bytes \<Rightarrow> world \<Rightarrow> (bytes + (receipt \<times> bytes)) \<times> world" where
  "read_native_lane rt h directory w =
     (case lstat h directory w of
        (Inl e, w) \<Rightarrow> (Inl (os_error_text e), w)
      | (Inr info, w) \<Rightarrow>
          (if \<not> is_directory info then (Inl ''lane must be a real directory'', w)
           else (case read_dir h directory w of
               (Inl e, w) \<Rightarrow> (Inl (os_error_text e), w)
             | (Inr entries, w) \<Rightarrow>
                 (if entries \<noteq> [receipt_name, receipt_name @ ''.sha256'']
                  then (Inl ''lane must contain only its receipt and checksum sidecar'', w)
                  else
                    (let receipt_path = path_join directory receipt_name in
                     case read_regular_file h receipt_path maximum_evidence_bytes w of
                       (Inl e, w) \<Rightarrow> (Inl ''receipt must be a non-empty bounded regular file'', w)
                     | (Inr contents, w) \<Rightarrow>
                         (if contents = [] then (Inl ''receipt must be a non-empty bounded regular file'', w)
                          else
                            (let receipt_digest = rt_digest rt contents in
                             case read_regular_file h (receipt_path @ ''.sha256'') 512 w of
                               (Inl e, w) \<Rightarrow> (Inl (''read receipt checksum: '' @ os_error_text e), w)
                             | (Inr sidecar, w) \<Rightarrow>
                                 (if sidecar \<noteq> checksum_line rt receipt_name contents @ [LF]
                                  then (Inl ''receipt checksum sidecar does not match'', w)
                                  else (case decode_receipt rt contents of
                                      Inl e \<Rightarrow> (Inl e, w)
                                    | Inr r \<Rightarrow> (Inr (r, receipt_digest), w))))))))))"

text \<open>The first gate given twice, and the first required one that is missing.\<close>

fun duplicate_gate :: "bytes list \<Rightarrow> bytes list \<Rightarrow> bytes option" where
  "duplicate_gate seen [] = None"
| "duplicate_gate seen (gate # gates) = (if gate \<in> set seen then Some gate else duplicate_gate (gate # seen) gates)"

definition require_native_gates :: "(nat \<Rightarrow> bool) \<Rightarrow> bytes list \<Rightarrow> bytes option" where
  "require_native_gates is_print gates =
     (case duplicate_gate [] gates of
        Some gate \<Rightarrow> Some (''successful gate '' @ go_quote is_print gate @ '' is duplicated'')
      | None \<Rightarrow>
          (case find (\<lambda>gate. gate \<notin> set gates) required_native_gates of
             Some gate \<Rightarrow> Some (''required successful gate '' @ go_quote is_print gate @ '' is missing'')
           | None \<Rightarrow> None))"

definition check_receipt ::
  "release_tools \<Rightarrow> (nat \<Rightarrow> bool) \<Rightarrow> int \<Rightarrow> native_expectation \<Rightarrow> native_lane \<Rightarrow> receipt \<Rightarrow> bytes option" where
  "check_receipt rt is_print now expected lane r = first_problem
     [check_that (re_schema_version r = receipt_schema \<and> re_repository r = ne_repository expected
          \<and> re_commit r = ne_commit expected \<and> re_tree r = ne_tree expected
          \<and> re_goos r = nl_goos lane \<and> re_goarch r = nl_goarch lane
          \<and> re_go_version r = nl_go_version lane \<and> re_runner_name r = nl_runner lane)
        (''native lane '' @ nl_directory lane @ '' does not match its source, platform, toolchain, or runner''),
      check_that (matches runner_version_pattern (re_runner_version r) \<and> matches digest_pattern (re_unsigned_artifact_sha r))
        (''native lane '' @ nl_directory lane @ '' has an invalid runner or artifact identity''),
      check_that (case rt_parse_time rt (re_completed_at r) of
          Inl e \<Rightarrow> False
        | Inr completed_at \<Rightarrow> completed_at \<le> now + five_minutes \<and> now - completed_at \<le> native_receipt_maximum_age)
        (''native lane '' @ nl_directory lane @ '' is not fresh, completed, RFC3339 evidence''),
      map_option (\<lambda>e. ''native lane '' @ nl_directory lane @ '': '' @ e) (require_native_gates is_print (re_successful_gates r))]"

text \<open>The loop over the lanes, with the digest of the generated output found so far (empty at first).\<close>

fun verify_lanes ::
  "release_tools \<Rightarrow> (nat \<Rightarrow> bool) \<Rightarrow> 'd host \<Rightarrow> bytes \<Rightarrow> native_expectation \<Rightarrow> native_lane list \<Rightarrow> bytes \<Rightarrow> world \<Rightarrow>
   (bytes + (bytes \<times> lane_summary list)) \<times> world" where
  "verify_lanes rt is_print h directory expected [] generated w = (Inr (generated, []), w)"
| "verify_lanes rt is_print h directory expected (lane # lanes) generated w =
     (case read_native_lane rt h (path_join directory (nl_directory lane)) w of
        (Inl e, w) \<Rightarrow> (Inl (''verify native lane '' @ nl_directory lane @ '': '' @ e), w)
      | (Inr (r, receipt_digest), w) \<Rightarrow>
          (case check_receipt rt is_print (rt_now rt (w_clock w)) expected lane r of
             Some e \<Rightarrow> (Inl e, w)
           | None \<Rightarrow>
               (if generated \<noteq> [] \<and> generated \<noteq> re_generated_digest r
                then (Inl ''native lanes did not produce identical generated output'', w)
                else
                  (case verify_lanes rt is_print h directory expected lanes
                       (if generated = [] then re_generated_digest r else generated) w of
                     (Inl e, w) \<Rightarrow> (Inl e, w)
                   | (Inr (generated, summaries), w) \<Rightarrow>
                       (Inr (generated,
                          \<lparr>ls_platform = nl_goos lane @ ''/'' @ nl_goarch lane, ls_go_version = nl_go_version lane,
                           ls_runner_version = re_runner_version r, ls_artifact_sha256 = re_unsigned_artifact_sha r,
                           ls_receipt_sha256 = receipt_digest, ls_completed_at = re_completed_at r\<rparr> # summaries), w)))))"

definition verify_native_receipt_set ::
  "release_tools \<Rightarrow> (nat \<Rightarrow> bool) \<Rightarrow> 'd host \<Rightarrow> bytes \<Rightarrow> native_expectation \<Rightarrow> world \<Rightarrow> (bytes + receipt_summary) \<times> world" where
  "verify_native_receipt_set rt is_print h directory expected w =
     (if \<not> one_line (ne_repository expected)
      then (Inl ''native receipt repository is required and must be one line'', w)
      else if \<not> (matches git_object_pattern (ne_commit expected) \<and> matches git_object_pattern (ne_tree expected))
      then (Inl ''native receipt commit and tree must be full lowercase Git object identities'', w)
      else (case validate_native_directory h directory w of
          (Some e, w) \<Rightarrow> (Inl e, w)
        | (None, w) \<Rightarrow>
            (case verify_lanes rt is_print h directory expected required_native_lanes [] w of
               (Inl e, w) \<Rightarrow> (Inl e, w)
             | (Inr (generated, summaries), w) \<Rightarrow>
                 (Inr \<lparr>rs_schema_version = ''himesan.native-receipt-set.v1'', rs_repository = ne_repository expected,
                   rs_commit = ne_commit expected, rs_tree = ne_tree expected, rs_generated_digest = generated,
                   rs_lanes = summaries\<rparr>, w))))"

end
