(* ===== verification/Release_Macos.thy ===== *)
theory Release_Macos
  imports Release_Evidence
begin

section \<open>The signed distribution: internal/releaseartifact/macos.go\<close>

text \<open>
  Reading, checking and extracting an approved unsigned archive, and the finalization of the directory
  after its binary was signed.
\<close>

definition maximum_native_archive :: nat where "maximum_native_archive = 268435456"

definition unsigned_package_members :: "(bytes \<times> nat) list" where
  "unsigned_package_members =
     [(''BUILDINFO.json'', 292), (''LICENSE'', 292), (''RELEASE.md'', 292), (''SBOM.spdx.json'', 292),
      (''SHA256SUMS'', 292), (''himesan'', 365)]"

record signing_options =
  so_directory :: bytes
  so_unsigned_archive_sha256 :: bytes
  so_identity :: bytes
  so_identifier :: bytes
  so_finalized_at :: bytes

subsection \<open>Reading the archive\<close>

text \<open>One member: its size and path, the root all members share, its name, mode and contents.\<close>

record package_reading =
  pr_members :: "(bytes \<times> bytes) list"
  pr_root :: bytes
  pr_amount :: int

definition read_member ::
  "(nat \<Rightarrow> bool) \<Rightarrow> tar_header \<Rightarrow> bytes option \<Rightarrow> package_reading \<Rightarrow> bytes + package_reading" where
  "read_member is_print header contents st =
     (if \<not> th_regular header \<or> th_length header < 0 \<or> int maximum_native_archive < th_length header
      then Inl ''unsigned archive contains a non-regular or oversized member''
      else
        (let amount = pr_amount st + th_length header in
         if int maximum_native_archive < amount then Inl ''unsigned archive expands beyond the permitted size''
         else
           (let parts = split_on separator (path_clean (th_name header)) in
            if length parts \<noteq> 2 \<or> parts ! 0 \<in> {[], ''.'', ''..''}
            then Inl (''unsigned archive member has an unsafe path: '' @ go_quote is_print (th_name header))
            else if pr_root st \<noteq> [] \<and> pr_root st \<noteq> parts ! 0
            then Inl ''unsigned archive contains more than one package root''
            else
              (let name = parts ! 1 in
               if map_of unsigned_package_members name \<noteq> Some (th_mode header mod 512) \<or> th_link_name header \<noteq> []
               then Inl (''unsigned archive member '' @ go_quote is_print name @ '' has an unexpected name, mode, or link'')
               else if map_of (pr_members st) name \<noteq> None
               then Inl (''unsigned archive repeats member '' @ go_quote is_print name)
               else
                 (case contents of
                    None \<Rightarrow> Inl (''read unsigned archive member '' @ go_quote is_print name)
                  | Some data \<Rightarrow>
                      (if int (length data) \<noteq> th_length header
                       then Inl (''read unsigned archive member '' @ go_quote is_print name)
                       else Inr \<lparr>pr_members = (name, data) # pr_members st, pr_root = parts ! 0, pr_amount = amount\<rparr>))))))"

fun read_members :: "(nat \<Rightarrow> bool) \<Rightarrow> tar_item list \<Rightarrow> package_reading \<Rightarrow> bytes + package_reading" where
  "read_members is_print [] st = Inr st"
| "read_members is_print (TarFault e # items) st = Inl (''read unsigned tar archive: '' @ e)"
| "read_members is_print (TarMember header contents # items) st =
     (case read_member is_print header contents st of
        Inl e \<Rightarrow> Inl e
      | Inr st \<Rightarrow> read_members is_print items st)"

text \<open>
  The tar reader sees at most one byte more than the limit of what was decompressed, and the error of the
  stream only if it comes before that.
\<close>

definition read_unsigned_package ::
  "release_tools \<Rightarrow> (nat \<Rightarrow> bool) \<Rightarrow> bytes \<Rightarrow> bytes + ((bytes \<times> bytes) list \<times> bytes)" where
  "read_unsigned_package rt is_print archive =
     (case rt_gunzip rt archive of
        Inl e \<Rightarrow> Inl (''open unsigned gzip archive: '' @ e)
      | Inr (stream, fault, close_error) \<Rightarrow>
          (let limit = maximum_native_archive + 1 in
           case read_members is_print
               (rt_untar rt (take limit stream) (if limit \<le> length stream then None else fault))
               \<lparr>pr_members = [], pr_root = [], pr_amount = 0\<rparr> of
             Inl e \<Rightarrow> Inl e
           | Inr st \<Rightarrow>
               (case close_error of
                  Some e \<Rightarrow> Inl (''finish unsigned gzip archive: '' @ e)
                | None \<Rightarrow> Inr (pr_members st, pr_root st))))"

text \<open>A member of the map, or nothing.\<close>

definition member_data :: "(bytes \<times> bytes) list \<Rightarrow> bytes \<Rightarrow> bytes" where
  "member_data members name = (case map_of members name of Some data \<Rightarrow> data | None \<Rightarrow> [])"

definition checksum_names :: "bytes list" where
  "checksum_names = [''BUILDINFO.json'', ''LICENSE'', ''RELEASE.md'', ''SBOM.spdx.json'', ''himesan'']"

definition sbom_matches :: "spdx_document \<Rightarrow> bytes \<Rightarrow> bool" where
  "sbom_matches sbom binary_digest =
     (case sd_packages sbom of
        [p] \<Rightarrow> (case sp_checksums p of
            [c] \<Rightarrow> sc_algorithm c = ''SHA256'' \<and> sc_value c = binary_digest
          | _ \<Rightarrow> False)
      | _ \<Rightarrow> False)"

definition build_matches :: "release_tools \<Rightarrow> build_info \<Rightarrow> bytes \<Rightarrow> bytes \<Rightarrow> bool" where
  "build_matches rt build root binary =
     (bu_schema_version build = 1 \<and> bu_goos build = ''darwin'' \<and> bu_goarch build = ''arm64''
      \<and> matches release_version_pattern (bu_version build)
      \<and> root = ''himesan-'' @ trim_prefix ''v'' (bu_version build) @ ''-darwin-arm64''
      \<and> matches git_object_pattern (bu_commit build) \<and> matches git_object_pattern (bu_tree build)
      \<and> matches go_version_pattern (bu_go_version build) \<and> bu_binary_sha256 build = rt_digest rt binary)"

definition validate_unsigned_package :: "release_tools \<Rightarrow> (bytes \<times> bytes) list \<Rightarrow> bytes \<Rightarrow> bytes option" where
  "validate_unsigned_package rt members root =
     (if length members \<noteq> length unsigned_package_members \<or> root = []
      then Some ''unsigned archive does not contain the exact release file set''
      else (case decode_strict rt (rt_decode_build rt (member_data members ''BUILDINFO.json'')) of
          Inl e \<Rightarrow> Some (''decode unsigned build information: '' @ e)
        | Inr build \<Rightarrow>
            (if \<not> build_matches rt build root (member_data members ''himesan'')
             then Some ''unsigned build information does not match the archive''
             else (case decode_strict rt (rt_decode_spdx rt (member_data members ''SBOM.spdx.json'')) of
                 Inl e \<Rightarrow> Some (''decode unsigned SBOM: '' @ e)
               | Inr sbom \<Rightarrow>
                   (if \<not> sbom_matches sbom (bu_binary_sha256 build)
                    then Some ''unsigned SBOM does not match the native binary''
                    else if member_data members ''SHA256SUMS''
                        \<noteq> join_with [LF] (map (\<lambda>name. checksum_line rt name (member_data members name)) checksum_names) @ [LF]
                    then Some ''unsigned package checksum manifest does not match its members''
                    else None)))))"

subsection \<open>Extraction\<close>

fun extract_members :: "'d host \<Rightarrow> bytes \<Rightarrow> (bytes \<times> bytes) list \<Rightarrow> bytes list \<Rightarrow> world \<Rightarrow> bytes option \<times> world" where
  "extract_members h root_path members [] w = (None, w)"
| "extract_members h root_path members (name # names) w =
     (case write_exclusive h (path_join root_path name) (member_data members name)
          (the (map_of unsigned_package_members name)) w of
        (Some e, w) \<Rightarrow> (Some (''extract '' @ name @ '': '' @ os_error_text e), w)
      | (None, w) \<Rightarrow> extract_members h root_path members names w)"

definition extract_package ::
  "release_tools \<Rightarrow> 'd host \<Rightarrow> bytes \<Rightarrow> bytes \<Rightarrow> (bytes \<times> bytes) list \<Rightarrow> world \<Rightarrow> (bytes + bytes) \<times> world" where
  "extract_package rt h output_directory root members w =
     (case lstat h output_directory w of
        (Inl e, w) \<Rightarrow> (Inl (''inspect extraction directory: '' @ os_error_text e), w)
      | (Inr info, w) \<Rightarrow>
          (if \<not> is_directory info then (Inl ''extraction destination must be a real directory'', w)
           else
             (let root_path = path_join output_directory root in
              case make_directory h root_path 448 w of
                (Some e, w) \<Rightarrow> (Inl (''create extracted package root: '' @ os_error_text e), w)
              | (None, w) \<Rightarrow>
                  (case extract_members h root_path members (rt_range rt (map fst unsigned_package_members)) w of
                     (Some e, w) \<Rightarrow> (Inl e, snd (remove_all h root_path w))
                   | (None, w) \<Rightarrow> (Inr root_path, w)))))"

definition approved_archive ::
  "release_tools \<Rightarrow> 'd host \<Rightarrow> bytes \<Rightarrow> bytes \<Rightarrow> world \<Rightarrow> (bytes + bytes) \<times> world" where
  "approved_archive rt h archive_path expected_sha256 w =
     (if \<not> matches digest_pattern expected_sha256 then (Inl ''approved archive digest must be a lowercase SHA-256'', w)
      else (case lstat h archive_path w of
          (Inl e, w) \<Rightarrow> (Inl (''inspect unsigned archive: '' @ os_error_text e), w)
        | (Inr info, w) \<Rightarrow>
            (if unsuitable info then (Inl ''unsigned archive must be a regular file, not a symlink'', w)
             else if (case info of RegularFile perm content \<Rightarrow> content = [] \<or> maximum_native_archive < length content | _ \<Rightarrow> True)
             then (Inl ''unsigned archive size is outside the permitted range'', w)
             else (case read_file h archive_path w of
                 (Inl e, w) \<Rightarrow> (Inl (''read unsigned archive: '' @ os_error_text e), w)
               | (Inr archive, w) \<Rightarrow>
                   (if rt_digest rt archive \<noteq> expected_sha256
                    then (Inl ''unsigned archive does not match the approved digest'', w) else (Inr archive, w))))))"

definition extract_verified_macos_package ::
  "release_tools \<Rightarrow> (nat \<Rightarrow> bool) \<Rightarrow> 'd host \<Rightarrow> bytes \<Rightarrow> bytes \<Rightarrow> bytes \<Rightarrow> world \<Rightarrow> (bytes + bytes) \<times> world" where
  "extract_verified_macos_package rt is_print h archive_path expected_sha256 output_directory w =
     (case approved_archive rt h archive_path expected_sha256 w of
        (Inl e, w) \<Rightarrow> (Inl e, w)
      | (Inr archive, w) \<Rightarrow>
          (case read_unsigned_package rt is_print archive of
             Inl e \<Rightarrow> (Inl e, w)
           | Inr (members, root) \<Rightarrow>
               (case validate_unsigned_package rt members root of
                  Some e \<Rightarrow> (Inl e, w)
                | None \<Rightarrow> extract_package rt h output_directory root members w)))"

subsection \<open>Finalization\<close>

definition validate_signing_options :: "release_tools \<Rightarrow> signing_options \<Rightarrow> bytes option" where
  "validate_signing_options rt s = first_problem
     [check_that (matches digest_pattern (so_unsigned_archive_sha256 s)) ''unsigned archive digest must be a lowercase SHA-256'',
      check_that (one_line (so_identity s)) ''signing identity is required and must be one line'',
      check_that (one_line (so_identifier s)) ''signing identifier is required and must be one line'',
      (case rt_parse_time rt (so_finalized_at s) of
         Inl e \<Rightarrow> Some (''finalization time must be RFC3339: '' @ e) | Inr t \<Rightarrow> None)]"

fun inspect_members :: "'d host \<Rightarrow> bytes \<Rightarrow> bytes list \<Rightarrow> world \<Rightarrow> bytes option \<times> world" where
  "inspect_members h directory [] w = (None, w)"
| "inspect_members h directory (name # names) w =
     (case read_regular_file h (path_join directory name) maximum_native_archive w of
        (Inl e, w) \<Rightarrow> (Some (''inspect signed distribution '' @ name @ '': '' @ os_error_text e), w)
      | (Inr contents, w) \<Rightarrow> inspect_members h directory names w)"

text \<open>The three documents of the signed distribution, made of what the directory holds.\<close>

record signed_documents =
  sg_build :: bytes
  sg_sbom :: bytes
  sg_signing :: bytes

definition signed_sbom :: "spdx_document \<Rightarrow> bytes \<Rightarrow> spdx_document" where
  "signed_sbom sbom signed_digest =
     sbom\<lparr>sd_packages := map (\<lambda>p. p\<lparr>sp_checksums := map (\<lambda>c. c\<lparr>sc_value := signed_digest\<rparr>) (sp_checksums p)\<rparr>)
       (sd_packages sbom)\<rparr>"

definition encode_signed_documents ::
  "release_tools \<Rightarrow> signing_options \<Rightarrow> build_info \<Rightarrow> spdx_document \<Rightarrow> bytes \<Rightarrow> bytes + (bytes \<times> bytes)" where
  \<comment> \<open>the bill of materials and the signing record\<close>
  "encode_signed_documents rt s build sbom signed_digest =
     (case indented_json (rt_encode_spdx rt (signed_sbom sbom signed_digest)) of
        Inl e \<Rightarrow> Inl e
      | Inr new_sbom \<Rightarrow>
          (case indented_json (rt_encode_signing rt
               \<lparr>si_schema_version = 1, si_unsigned_archive_sha256 = so_unsigned_archive_sha256 s,
                si_unsigned_binary_sha256 = bu_binary_sha256 build, si_signed_binary_sha256 = signed_digest,
                si_identity = so_identity s, si_identifier = so_identifier s, si_finalized_at = so_finalized_at s\<rparr>) of
             Inl e \<Rightarrow> Inl e
           | Inr signing \<Rightarrow> Inr (new_sbom, signing)))"

definition signed_build :: "signing_options \<Rightarrow> build_info \<Rightarrow> bytes \<Rightarrow> build_info" where
  "signed_build s build signed_digest =
     build\<lparr>bu_schema_version := 2, bu_binary_sha256 := signed_digest,
       bu_unsigned_binary_sha256 := bu_binary_sha256 build,
       bu_unsigned_archive_sha256 := so_unsigned_archive_sha256 s, bu_signing_identifier := so_identifier s\<rparr>"

definition prepare_signed ::
  "release_tools \<Rightarrow> 'd host \<Rightarrow> signing_options \<Rightarrow> world \<Rightarrow> (bytes + signed_documents) \<times> world" where
  "prepare_signed rt h s w =
     (case read_input h ''unsigned build information'' (path_join (so_directory s) ''BUILDINFO.json'') w of
        (Inl e, w) \<Rightarrow> (Inl e, w)
      | (Inr build_contents, w) \<Rightarrow>
          (case decode_strict rt (rt_decode_build rt build_contents) of
             Inl e \<Rightarrow> (Inl (''decode unsigned build information: '' @ e), w)
           | Inr build \<Rightarrow>
               (if bu_schema_version build \<noteq> 1 \<or> \<not> matches digest_pattern (bu_binary_sha256 build)
                   \<or> bu_goos build \<noteq> ''darwin'' \<or> bu_goarch build \<noteq> ''arm64''
                then (Inl ''unsigned build information is not a supported Darwin/arm64 package'', w)
                else (case read_input h ''signed binary'' (path_join (so_directory s) ''himesan'') w of
                    (Inl e, w) \<Rightarrow> (Inl e, w)
                  | (Inr signed_binary, w) \<Rightarrow>
                      (let signed_digest = rt_digest rt signed_binary in
                       if signed_digest = bu_binary_sha256 build
                       then (Inl ''Developer ID signing did not change the native binary bytes'', w)
                       else (case indented_json (rt_encode_build rt (signed_build s build signed_digest)) of
                           Inl e \<Rightarrow> (Inl e, w)
                         | Inr new_build \<Rightarrow>
                             (case read_input h ''unsigned SBOM'' (path_join (so_directory s) ''SBOM.spdx.json'') w of
                                (Inl e, w) \<Rightarrow> (Inl e, w)
                              | (Inr sbom_contents, w) \<Rightarrow>
                                  (case decode_strict rt (rt_decode_spdx rt sbom_contents) of
                                     Inl e \<Rightarrow> (Inl (''decode unsigned SBOM: '' @ e), w)
                                   | Inr sbom \<Rightarrow>
                                       (if \<not> sbom_matches sbom (bu_binary_sha256 build)
                                        then (Inl ''unsigned SBOM does not match the unsigned binary'', w)
                                        else (case encode_signed_documents rt s build sbom signed_digest of
                                            Inl e \<Rightarrow> (Inl e, w)
                                          | Inr (new_sbom, signing) \<Rightarrow>
                                              (Inr \<lparr>sg_build = new_build, sg_sbom = new_sbom, sg_signing = signing\<rparr>, w)))))))))))"

definition signed_checksum_names :: "bytes list" where
  "signed_checksum_names =
     [''BUILDINFO.json'', ''LICENSE'', ''RELEASE.md'', ''SBOM.spdx.json'', ''SIGNING.json'', ''himesan'']"

fun signed_checksums ::
  "release_tools \<Rightarrow> 'd host \<Rightarrow> bytes \<Rightarrow> bytes list \<Rightarrow> world \<Rightarrow> (bytes + bytes list) \<times> world" where
  "signed_checksums rt h directory [] w = (Inr [], w)"
| "signed_checksums rt h directory (name # names) w =
     (case read_file h (path_join directory name) w of
        (Inl e, w) \<Rightarrow> (Inl (''read signed distribution member '' @ name @ '': '' @ os_error_text e), w)
      | (Inr contents, w) \<Rightarrow>
          (case signed_checksums rt h directory names w of
             (Inl e, w) \<Rightarrow> (Inl e, w)
           | (Inr lines, w) \<Rightarrow> (Inr (checksum_line rt name contents # lines), w)))"

definition write_signed :: "release_tools \<Rightarrow> 'd host \<Rightarrow> bytes \<Rightarrow> signed_documents \<Rightarrow> world \<Rightarrow> bytes option \<times> world" where
  "write_signed rt h directory d w =
     then_call (labelled ''replace signed build information: ''
       (replace_regular_file h (path_join directory ''BUILDINFO.json'') (sg_build d) 292 w)) (\<lambda>w.
     then_call (labelled ''replace signed SBOM: ''
       (replace_regular_file h (path_join directory ''SBOM.spdx.json'') (sg_sbom d) 292 w)) (\<lambda>w.
     then_call (labelled ''write signing information: ''
       (write_exclusive h (path_join directory ''SIGNING.json'') (sg_signing d) 292 w)) (\<lambda>w.
     (case signed_checksums rt h directory signed_checksum_names w of
        (Inl e, w) \<Rightarrow> (Some e, w)
      | (Inr lines, w) \<Rightarrow>
          labelled ''replace signed distribution checksums: ''
            (replace_regular_file h (path_join directory ''SHA256SUMS'') (join_with [LF] lines @ [LF]) 292 w)))))"

definition finalize_signed_macos_distribution ::
  "release_tools \<Rightarrow> 'd host \<Rightarrow> signing_options \<Rightarrow> world \<Rightarrow> bytes option \<times> world" where
  "finalize_signed_macos_distribution rt h s w =
     (case validate_signing_options rt s of
        Some e \<Rightarrow> (Some e, w)
      | None \<Rightarrow>
          (case inspect_members h (so_directory s) (rt_range rt (map fst unsigned_package_members)) w of
             (Some e, w) \<Rightarrow> (Some e, w)
           | (None, w) \<Rightarrow>
               (case prepare_signed rt h s w of
                  (Inl e, w) \<Rightarrow> (Some e, w)
                | (Inr d, w) \<Rightarrow> write_signed rt h (so_directory s) d w)))"

end
