(* ===== verification/Release_Extraction.thy ===== *)
theory Release_Extraction
  imports Release_Macos
begin

section \<open>Extraction stays in its directory\<close>

text \<open>
  Facts about the extraction of an approved archive: the keys of the extracted files, what the archive
  reader accepts, and what writing the members changes.
\<close>

subsection \<open>Keys below a path\<close>

text \<open>The key of an element below a path that ends in a name is the key of the path and the element.\<close>

lemma path_clean_child:
  assumes b: "base_end c p" and n: "plain_part n" "n \<noteq> ''..''"
  shows "path_clean (p @ separator # n) = path_clean p @ separator # n"
proof -
  obtain ps where ps: "clean_parts (is_rooted p) [] (split_on separator p) = clean_parts (is_rooted p) [] ps @ [c]"
    using base_end_parts [OF b] by blast
  have r: "is_rooted (p @ separator # n) = is_rooted p"
    using b by (cases p) (auto simp: is_rooted_def base_end_def plain_part_def)
  have "split_on separator (p @ separator # n) = split_on separator p @ [n]"
    using n(1) by (simp add: split_on_snoc plain_part_def)
  then show ?thesis
    using ps n r join_with_snoc [of "''/''" "clean_parts (is_rooted p) [] ps @ [c]" n]
    by (cases "is_rooted p") (simp_all add: path_clean_def Let_def clean_parts_snoc)
qed

lemma resolve_child:
  assumes b: "base_end c p" and n: "plain_part n" "n \<noteq> ''..''"
  shows "resolve h (p @ separator # n) = resolve h p @ separator # n"
proof -
  have ne: "p \<noteq> []" "p @ separator # n \<noteq> []" and r: "is_rooted (p @ separator # n) = is_rooted p"
    using b by (cases p; auto simp: is_rooted_def base_end_def plain_part_def)+
  have j: "base_end c (d @ ''/'' @ p)" for d using b by (auto simp: base_end_def)
  show ?thesis
    using path_clean_child [OF b n] path_clean_child [OF j n] ne r by (simp add: resolve_def path_join_def)
qed

text \<open>The root of the package and its members.\<close>

lemma package_keys:
  assumes root: "plain_part root" "root \<noteq> ''..''" and n: "plain_part n" "n \<noteq> ''..''"
  shows "path_join (path_join out root) n = path_join out root @ separator # n"
    and "resolve h (path_join (path_join out root) n) = resolve h (path_join out root) @ separator # n"
proof -
  have b: "base_end root (path_join out root)" using root by (intro base_end_join) (simp add: base_end_def)
  then have ne: "path_join out root \<noteq> []" by (auto simp: base_end_def plain_part_def)
  have c: "path_clean (path_join out root) = path_join out root" using root(1) by (simp add: path_join_def plain_part_def)
  show j: "path_join (path_join out root) n = path_join out root @ separator # n"
    using path_clean_child [OF b n] ne c n(1) by (simp add: path_join_def plain_part_def)
  show "resolve h (path_join (path_join out root) n) = resolve h (path_join out root) @ separator # n"
    unfolding j by (rule resolve_child [OF b n])
qed

lemma member_names_plain: "(name, mode) \<in> set unsigned_package_members \<Longrightarrow> plain_part name \<and> name \<noteq> ''..''"
  by (auto simp: unsigned_package_members_def plain_part_def)

subsection \<open>What the reader accepts\<close>

definition reading_ok :: "package_reading \<Rightarrow> bool" where
  "reading_ok st \<longleftrightarrow> (pr_root st = [] \<longrightarrow> pr_members st = [])
     \<and> (pr_root st \<noteq> [] \<longrightarrow> plain_part (pr_root st) \<and> pr_root st \<noteq> ''..'')
     \<and> distinct (map fst (pr_members st)) \<and> set (map fst (pr_members st)) \<subseteq> set (map fst unsigned_package_members)
     \<and> pr_amount st = (\<Sum>m\<leftarrow>pr_members st. int (length (snd m))) \<and> pr_amount st \<le> int maximum_native_archive"

lemma read_member_ok:
  assumes "read_member is_print header contents st = Inr st'" and "reading_ok st"
  shows "reading_ok st'"
proof -
  let ?parts = "split_on separator (path_clean (th_name header))"
  have sep: "separator \<notin> set (?parts ! 0)" if "length ?parts = 2"
    using split_on_no_sep [of "?parts ! 0" separator "path_clean (th_name header)"] nth_mem [of 0 ?parts] that by simp
  obtain data where data: "contents = Some data" "int (length data) = th_length header"
      "length ?parts = 2" "?parts ! 0 \<notin> {[], ''.'', ''..''}"
      "map_of unsigned_package_members (?parts ! 1) = Some (th_mode header mod 512)"
      "map_of (pr_members st) (?parts ! 1) = None" "pr_amount st + th_length header \<le> int maximum_native_archive"
      "st' = \<lparr>pr_members = (?parts ! 1, data) # pr_members st, pr_root = ?parts ! 0, pr_amount = pr_amount st + th_length header\<rparr>"
    using assms(1) by (auto simp: read_member_def Let_def split: if_splits option.splits)
  have "?parts ! 1 \<in> set (map fst unsigned_package_members)"
    using data(5) map_of_SomeD by force
  moreover have "?parts ! 1 \<notin> set (map fst (pr_members st))" using data(6) by (simp add: map_of_eq_None_iff)
  ultimately show ?thesis
    using assms(2) data sep by (auto simp: reading_ok_def plain_part_def)
qed

lemma read_members_ok: "read_members is_print items st = Inr st' \<Longrightarrow> reading_ok st \<Longrightarrow> reading_ok st'"
  by (induction is_print items st rule: read_members.induct) (auto simp: read_member_ok split: sum.splits)

lemma read_unsigned_package_ok:
  assumes "read_unsigned_package rt is_print archive = Inr (members, root)" and "validate_unsigned_package rt members root = None"
  shows "plain_part root \<and> root \<noteq> ''..'' \<and> distinct (map fst members)
    \<and> set (map fst members) = set (map fst unsigned_package_members)
    \<and> (\<Sum>m\<leftarrow>members. length (snd m)) \<le> maximum_native_archive"
proof -
  obtain items st where st: "read_members is_print items \<lparr>pr_members = [], pr_root = [], pr_amount = 0\<rparr> = Inr st"
      "members = pr_members st" "root = pr_root st"
    using assms(1) by (auto simp: read_unsigned_package_def Let_def split: sum.splits option.splits)
  have ok: "reading_ok st" by (rule read_members_ok [OF st(1)]) (simp add: reading_ok_def)
  have len: "length members = length unsigned_package_members" "root \<noteq> []"
    using assms(2) by (auto simp: validate_unsigned_package_def split: if_splits)
  have sub: "set (map fst members) \<subseteq> set (map fst unsigned_package_members)" "distinct (map fst members)"
    using ok st by (auto simp: reading_ok_def)
  have "card (set (map fst members)) = card (set (map fst unsigned_package_members))"
    using len(1) sub(2) by (simp only: distinct_card length_map) (simp add: unsigned_package_members_def)
  then have same: "set (map fst members) = set (map fst unsigned_package_members)"
    using sub(1) card_subset_eq by blast
  have "int (\<Sum>m\<leftarrow>members. length (snd m)) = (\<Sum>m\<leftarrow>members. int (length (snd m)))"
    by (induction members) auto
  then show ?thesis using ok st len same sub(2) by (simp add: reading_ok_def)
qed

subsection \<open>What extraction changes\<close>

lemma below_member [simp]: "below root (root @ separator # n)" "below root root"
  by (simp_all add: below_def has_prefix_iff)

definition member_keys :: "bytes \<Rightarrow> bytes list \<Rightarrow> bytes set" where
  "member_keys root_key names = (\<lambda>n. root_key @ separator # n) ` set names"

lemma extract_members_change:
  assumes "extract_members h (path_join out root) members names w = (r, w')"
    and "plain_part root" "root \<noteq> ''..''" and "distinct names" and "list_all (\<lambda>n. plain_part n \<and> n \<noteq> ''..'') names"
  shows "changes_only (member_keys (resolve h (path_join out root)) names) (w_files w) (w_files w')
    \<and> (r = None \<longrightarrow> (\<forall>n\<in>set names. w_files w' (resolve h (path_join out root) @ separator # n)
         = Some (RegularFile (the (map_of unsigned_package_members n)) (member_data members n))))"
  using assms(1,4,5)
proof (induction names arbitrary: w)
  case (Cons n ns)
  let ?key = "resolve h (path_join out root)"
  let ?file = "RegularFile (the (map_of unsigned_package_members n)) (member_data members n)"
  obtain r1 w1 where one: "write_exclusive h (path_join (path_join out root) n) (member_data members n)
      (the (map_of unsigned_package_members n)) w = (r1, w1)" by fastforce
  have k: "resolve h (path_join (path_join out root) n) = ?key @ separator # n"
    by (rule package_keys(2) [OF assms(2,3)]) (use Cons.prems(3) in auto)
  have first: "changes_only {?key @ separator # n} (w_files w) (w_files w1)"
      "r1 = None \<Longrightarrow> w_files w1 (?key @ separator # n) = Some ?file"
    using write_exclusive_change [OF one] k by auto
  show ?case
  proof (cases r1)
    case None
    then have two: "extract_members h (path_join out root) members ns w1 = (r, w')" using Cons.prems(1) one by simp
    then have IH: "changes_only (member_keys ?key ns) (w_files w1) (w_files w')"
        "r = None \<longrightarrow> (\<forall>n\<in>set ns. w_files w' (?key @ separator # n)
           = Some (RegularFile (the (map_of unsigned_package_members n)) (member_data members n)))"
      using Cons.IH [OF two] Cons.prems(2,3) by auto
    have "?key @ separator # n \<notin> member_keys ?key ns" using Cons.prems(2) by (auto simp: member_keys_def)
    then have "w_files w' (?key @ separator # n) = w_files w1 (?key @ separator # n)"
      using IH(1) by (simp add: changes_only_def)
    moreover have "changes_only (member_keys ?key (n # ns)) (w_files w) (w_files w')"
      using first(1) IH(1) by (auto simp: changes_only_def member_keys_def)
    ultimately show ?thesis using IH(2) first(2) None by auto
  next
    case (Some e)
    then show ?thesis using Cons.prems(1) one first(1) by (auto simp: changes_only_def member_keys_def)
  qed
qed (simp add: member_keys_def)

text \<open>A range over the members visits every one of them once, in some order.\<close>

definition visits_members :: "release_tools \<Rightarrow> bool" where
  "visits_members rt \<longleftrightarrow> distinct (rt_range rt (map fst unsigned_package_members))
     \<and> set (rt_range rt (map fst unsigned_package_members)) = set (map fst unsigned_package_members)"

lemma visits_members_plain: "visits_members rt \<Longrightarrow> list_all (\<lambda>n. plain_part n \<and> n \<noteq> ''..'') (rt_range rt (map fst unsigned_package_members))"
  using member_names_plain by (fastforce simp: visits_members_def list_all_iff)

definition extracted_files :: "bytes \<Rightarrow> (bytes \<times> bytes) list \<Rightarrow> files \<Rightarrow> bool" where
  "extracted_files root_key members fs \<longleftrightarrow>
     (\<forall>(name, mode)\<in>set unsigned_package_members.
        fs (root_key @ separator # name) = Some (RegularFile mode (member_data members name)))"

lemma extract_package_change:
  assumes run: "extract_package rt h out root members w = (r, w')"
    and root: "plain_part root" "root \<noteq> ''..''" and range: "visits_members rt"
  shows "changes_only {k. below (resolve h (path_join out root)) k} (w_files w) (w_files w')
    \<and> (w_files w (resolve h (path_join out root)) \<noteq> None \<longrightarrow> w_files w' = w_files w \<and> r \<notin> range Inr)
    \<and> (\<forall>p. r = Inr p \<longrightarrow> p = path_join out root
         \<and> changes_only (insert (resolve h p) (member_keys (resolve h p) (map fst unsigned_package_members))) (w_files w) (w_files w')
         \<and> extracted_files (resolve h p) members (w_files w'))"
proof -
  let ?p = "path_join out root" and ?names = "rt_range rt (map fst unsigned_package_members)"
  let ?key = "resolve h ?p"
  obtain l wl where l: "lstat h out w = (l, wl)" by fastforce
  obtain m wm where m: "make_directory h ?p 448 wl = (m, wm)" by fastforce
  obtain x wx where x: "extract_members h ?p members ?names wm = (x, wx)" by fastforce
  obtain y wy where y: "remove_all h ?p wx = (y, wy)" by fastforce
  have fl: "w_files wl = w_files w" using l by blast
  have cm: "changes_only {?key} (w_files w) (w_files wm)" using calls_change(4) [OF m] fl by simp
  have there: "w_files w ?key \<noteq> None \<Longrightarrow> m \<noteq> None \<and> w_files wm = w_files w"
    and failed: "m \<noteq> None \<Longrightarrow> w_files wm = w_files w"
    using m fl by (auto simp: make_directory_def split: option.splits if_splits)
  note c = extract_members_change [OF x root _ visits_members_plain [OF range]]
  have keys: "member_keys ?key ?names = member_keys ?key (map fst unsigned_package_members)"
    using range by (simp add: visits_members_def member_keys_def)
  have cx: "changes_only (insert ?key (member_keys ?key (map fst unsigned_package_members))) (w_files w) (w_files wx)"
    using c range cm keys by (auto simp: visits_members_def changes_only_def)
  have ex: "extracted_files ?key members (w_files wx)" if "x = None"
  proof -
    have "w_files wx (?key @ separator # name) = Some (RegularFile mode (member_data members name))"
      if n: "(name, mode) \<in> set unsigned_package_members" for name mode
    proof -
      have "map_of unsigned_package_members name = Some mode"
        using n by (auto simp: unsigned_package_members_def)
      moreover have "name \<in> set ?names" using n range by (force simp: visits_members_def)
      moreover have "\<forall>n\<in>set ?names. w_files wx (?key @ separator # n)
          = Some (RegularFile (the (map_of unsigned_package_members n)) (member_data members n))"
        using c range \<open>x = None\<close> by (simp add: visits_members_def)
      ultimately show ?thesis by auto
    qed
    then show ?thesis by (auto simp: extracted_files_def)
  qed
  have sub: "insert ?key (member_keys ?key (map fst unsigned_package_members)) \<subseteq> {k. below ?key k}"
    by (auto simp: member_keys_def)
  have cy: "changes_only {k. below ?key k} (w_files w) (w_files wy)"
    using changes_only_mono [OF cx sub] y
    by (auto simp: remove_all_def changes_only_def split: option.splits)
  have run': "(r, w') = (case l of Inl e \<Rightarrow> (Inl (''inspect extraction directory: '' @ os_error_text e), wl)
      | Inr info \<Rightarrow> if \<not> is_directory info then (Inl ''extraction destination must be a real directory'', wl)
          else (case m of Some e \<Rightarrow> (Inl (''create extracted package root: '' @ os_error_text e), wm)
             | None \<Rightarrow> (case x of Some e \<Rightarrow> (Inl e, wy) | None \<Rightarrow> (Inr ?p, wx))))"
    using run l m x y by (cases l; cases m; cases x) (auto simp: extract_package_def Let_def split: if_splits)
  consider "w_files w' = w_files w" "r \<notin> range Inr" | "m = None" "w' = wy" "r \<notin> range Inr"
    | "m = None" "x = None" "w' = wx" "r = Inr ?p"
    using run' fl failed by (auto split: sum.splits option.splits if_splits)
  then show ?thesis
  proof cases
    case 1
    then show ?thesis by auto
  next
    case 2
    then show ?thesis using cy there by auto
  next
    case 3
    then have "w_files w ?key = None" using there by blast
    then show ?thesis using 3 cx ex changes_only_mono [OF cx sub] by auto
  qed
qed

end
