(* ===== verification/Release_Results.thy ===== *)
theory Release_Results
  imports Release_Extraction Release_Native
begin

section \<open>What the release tools guarantee\<close>

subsection \<open>Extraction\<close>

lemma approved_archive_same: "approved_archive rt h archive_path expected w = (r, w') \<Longrightarrow> w_files w' = w_files w"
  by (auto simp: approved_archive_def split: if_splits sum.splits prod.splits) (metis lstat_same read_file_same)+

lemma approved_archive_Inr:
  assumes "approved_archive rt h archive_path expected w = (Inr archive, w')"
  shows "matches digest_pattern expected \<and> rt_digest rt archive = expected
    \<and> archive \<noteq> [] \<and> length archive \<le> maximum_native_archive
    \<and> (\<exists>perm. w_files w (resolve h archive_path) = Some (RegularFile perm archive))"
proof -
  obtain r w1 where l: "lstat h archive_path w = (r, w1)" by fastforce
  then obtain info where info: "r = Inr info" "\<not> unsuitable info"
      "(case info of RegularFile perm content \<Rightarrow> content \<noteq> [] \<and> length content \<le> maximum_native_archive | _ \<Rightarrow> False)"
      "read_file h archive_path w1 = (Inr archive, w')" "rt_digest rt archive = expected" "matches digest_pattern expected"
    using assms by (cases r) (auto simp: approved_archive_def split: if_splits sum.splits prod.splits fs_entry.splits)
  have e: "w_files w (resolve h archive_path) = Some info" using lstat_Inr l info(1) by blast
  obtain perm c where c: "info = RegularFile perm c" using info(3) by (cases info) auto
  have "w_files w1 = w_files w" using l by blast
  then have "c = archive" using read_file_content [OF info(4)] e c by simp
  then show ?thesis using e c info by simp
qed

text \<open>The checksum document of the members.\<close>

definition member_sums :: "release_tools \<Rightarrow> (bytes \<times> bytes) list \<Rightarrow> bytes" where
  "member_sums rt members =
     join_with [LF] (map (\<lambda>name. checksum_line rt name (member_data members name)) checksum_names) @ [LF]"

lemma validated_sums: "validate_unsigned_package rt members root = None \<Longrightarrow> member_data members ''SHA256SUMS'' = member_sums rt members"
  by (auto simp: validate_unsigned_package_def member_sums_def split: if_splits sum.splits)

text \<open>
  C12: Extraction of an approved archive is contained. Whatever the host does, the archive, its paths and its
  contents are, either no file changes and an error is returned, or the archive is a regular file with the
  approved digest whose members are the six expected ones under one root that is a plain name, and only
  entries at and below that root in the output directory change. A root that is there already is left
  as it was. On success exactly the root and its six files changed, each has the member's contents and the
  prescribed mode, and the checksum file lists the digests of the others.
\<close>

theorem extracted_package_safe:
  assumes "extract_verified_macos_package rt is_print h archive_path expected out w = (r, w')"
    and "visits_members rt"
  shows "w_files w' = w_files w \<and> r \<notin> range Inr \<or>
    (\<exists>archive perm members root.
       w_files w (resolve h archive_path) = Some (RegularFile perm archive)
     \<and> matches digest_pattern expected \<and> rt_digest rt archive = expected
     \<and> read_unsigned_package rt is_print archive = Inr (members, root)
     \<and> distinct (map fst members) \<and> set (map fst members) = set (map fst unsigned_package_members)
     \<and> plain_part root \<and> root \<noteq> ''..''
     \<and> changes_only {k. below (resolve h (path_join out root)) k} (w_files w) (w_files w')
     \<and> (w_files w (resolve h (path_join out root)) \<noteq> None \<longrightarrow> w_files w' = w_files w \<and> r \<notin> range Inr)
     \<and> (\<forall>p. r = Inr p \<longrightarrow> p = path_join out root
          \<and> changes_only (insert (resolve h p) (member_keys (resolve h p) (map fst unsigned_package_members))) (w_files w) (w_files w')
          \<and> extracted_files (resolve h p) members (w_files w')
          \<and> member_data members ''SHA256SUMS'' = member_sums rt members))"
proof -
  obtain a w1 where a: "approved_archive rt h archive_path expected w = (a, w1)" by fastforce
  have same: "w_files w1 = w_files w" using approved_archive_same [OF a] .
  show ?thesis
  proof (cases "w_files w' = w_files w \<and> r \<notin> range Inr")
    case False
    then obtain archive members root where ok: "a = Inr archive" "read_unsigned_package rt is_print archive = Inr (members, root)"
        "validate_unsigned_package rt members root = None" "extract_package rt h out root members w1 = (r, w')"
      using assms(1) a same by (auto simp: extract_verified_macos_package_def split: sum.splits option.splits prod.splits)
    note p = read_unsigned_package_ok [OF ok(2,3)]
    show ?thesis
      using approved_archive_Inr [of rt h archive_path expected w archive w1] a ok(1,2) p validated_sums [OF ok(3)]
        extract_package_change [OF ok(4) _ _ assms(2)] same by (intro disjI2) auto
  qed simp
qed

end
