(* ===== verification/Release_Roundtrip.thy ===== *)
theory Release_Roundtrip
  imports Release_Results
begin

section \<open>A package is extracted as it was packed\<close>

text \<open>
  From the inputs of a release to its extracted package: what packaging writes on any host, and what
  reading and extracting it gives on a host without faults, with the libraries as they document themselves.
\<close>

subsection \<open>The bytes of a pattern\<close>

fun uses :: "(byte \<Rightarrow> bool) \<Rightarrow> regexp \<Rightarrow> bool" where
  "uses P Fail = True"
| "uses P Empty = True"
| "uses P (Class p) = (\<forall>b. p b \<longrightarrow> P b)"
| "uses P (Sequence r q) = (uses P r \<and> uses P q)"
| "uses P (Either r q) = (uses P r \<and> uses P q)"
| "uses P (Many r) = uses P r"

lemma matches_uses: "uses P r \<Longrightarrow> matches r s \<Longrightarrow> list_all P s"
proof (induction r arbitrary: s)
  case (Many r)
  then obtain us where us: "s = concat us" "list_all (\<lambda>u. u \<noteq> [] \<and> matches r u) us" by (auto simp: matches_Many)
  then have "list_all (list_all P) us" using Many.IH Many.prems(1) by (auto simp: list_all_iff)
  then show ?case using us(1) by (auto simp: list_all_iff)
qed (auto simp: matches_Sequence)

text \<open>A visible character that does not separate the elements of a path.\<close>

definition name_char :: "byte \<Rightarrow> bool" where
  "name_char b = (32 < code b \<and> code b < 127 \<and> b \<noteq> separator)"

lemma version_bytes:
  assumes "matches release_version_pattern v"
  shows "list_all name_char v"
proof -
  have "uses name_char release_version_pattern"
    by (auto simp: release_version_pattern_def tagged_compiler_version_pattern_def number_pattern_def Byte_def Maybe_def Literal.simps
        prerelease_pattern_def Some_of_def identifier_char_def is_digit_def name_char_def)
  then show ?thesis using matches_uses assms by blast
qed

lemma problem_free:
  "first_problem (pr # prs) = None \<longleftrightarrow> pr = None \<and> first_problem prs = None"
  "check_that ok message = None \<longleftrightarrow> ok"
  by (cases pr) (simp_all add: check_that_def)

lemma package_base_ok:
  assumes "validate_package_options rt p = None" and "po_goos p = ''darwin''" "po_goarch p = ''arm64''"
  shows "list_all name_char (package_base p) \<and> plain_part (package_base p) \<and> package_base p \<noteq> ''..''
    \<and> length (package_base p) \<le> length (po_version p) + 21"
proof -
  have "matches release_version_pattern (po_version p)"
    using assms(1) by (simp add: validate_package_options_def problem_free)
  then have v: "list_all name_char (po_version p)" by (rule version_bytes)
  have t: "list_all name_char (trim_prefix ''v'' (po_version p))" "length (trim_prefix ''v'' (po_version p)) \<le> length (po_version p)"
    using v by (auto simp: trim_prefix_def list_all_iff dest: in_set_dropD)
  have ok: "list_all name_char (package_base p)" "length (package_base p) \<le> length (po_version p) + 21"
    using t assms(2,3) by (auto simp: package_base_def name_char_def)
  then have "separator \<notin> set (package_base p)" by (auto simp: list_all_iff name_char_def)
  then show ?thesis using ok by (simp add: plain_part_def package_base_def)
qed

subsection \<open>What packaging writes\<close>

lemma write_members_same: "write_members rt h root ms w = (r, w') \<Longrightarrow> w_files w' = w_files w"
  by (induction rt h root ms w rule: write_members.induct)
    (auto split: option.splits prod.splits, (metis calls_change(7))+)

lemma then_call_None: "then_call r f = (None, w') \<longleftrightarrow> (\<exists>w. r = (None, w) \<and> f w = (None, w'))"
  by (auto simp: then_call_def split: prod.splits option.splits)

lemma labelled_None: "labelled t r = (None, w) \<longleftrightarrow> r = (None, w)"
  by (cases r) (auto simp: labelled_def)

lemma write_archive_content:
  assumes "write_archive rt h path root members modified w = (None, w')"
  shows "w_files w' (resolve h path)
    = Some (RegularFile 292 (rt_archive rt modified (map (\<lambda>m. (root @ ''/'' @ am_name m, m)) members)))"
proof -
  let ?contents = "rt_archive rt modified (map (\<lambda>m. (root @ ''/'' @ am_name m, m)) members)"
  obtain w1 where "fill_archive rt h path root members modified w1 = (None, w')"
    using assms by (auto simp: write_archive_def split: option.splits prod.splits)
  then obtain w2 where "change_file h path (Some (RegularFile 292 ?contents)) w2 = (None, w')"
    unfolding fill_archive_def Let_def then_call_None labelled_None by blast
  then show ?thesis by (auto simp: change_file_def split: option.splits)
qed

lemma read_input_Inr:
  assumes "read_input h what path w = (Inr x, w')" and "w_files w (resolve h path) = Some (RegularFile perm content)"
  shows "x = content \<and> w_files w' = w_files w"
proof -
  have r: "read_file h path w = (Inr x, w')" using assms(1) by (auto simp: read_input_def split: sum.splits prod.splits)
  show ?thesis using read_file_content [OF r assms(2)] read_file_same [OF r] by simp
qed

lemma archive_path_keys:
  assumes "plain_part base" and "p = path_join out (base @ ''.tar.gz'')"
  shows "resolve h (p @ ''.sha256'') \<noteq> resolve h p"
proof -
  have "base_end (base @ ''.tar.gz'') p"
    unfolding assms(2) by (rule base_end_join) (use assms(1) in \<open>auto simp: base_end_def plain_part_def\<close>)
  then have "resolve h (p @ ''.sha256'') = resolve h p @ ''.sha256''" by (rule resolve_append) auto
  then show ?thesis by simp
qed

definition packed_archive :: "release_tools \<Rightarrow> package_options \<Rightarrow> archive_member list \<Rightarrow> bytes" where
  "packed_archive rt p members =
     rt_archive rt (po_source_date_epoch p) (map (\<lambda>m. (package_base p @ ''/'' @ am_name m, m)) members)"

lemma write_package_Inr:
  assumes "write_package rt h p members w = (Inr (archive_path, d), w')" and "plain_part (package_base p)"
  shows "archive_path = path_join (po_output_directory p) (package_base p @ ''.tar.gz'')
    \<and> d = rt_digest rt (packed_archive rt p members)
    \<and> w_files w' (resolve h archive_path) = Some (RegularFile 292 (packed_archive rt p members))"
proof -
  let ?path = "path_join (po_output_directory p) (package_base p @ ''.tar.gz'')"
  obtain w1 where one: "make_directories h (po_output_directory p) 493 w = (None, w1)"
    using assms(1) by (auto simp: write_package_def split: option.splits prod.splits)
  obtain w2 where two: "write_archive rt h ?path (package_base p) members (po_source_date_epoch p) w1 = (None, w2)"
    using assms(1) one by (auto simp: write_package_def Let_def split: option.splits prod.splits)
  obtain x w3 where three: "read_input h ''completed archive'' ?path w2 = (Inr x, w3)"
    using assms(1) one two by (auto simp: write_package_def Let_def split: option.splits prod.splits sum.splits)
  obtain w4 where four: "write_exclusive h (?path @ ''.sha256'') (checksum_line rt (path_base ?path) x @ [LF]) 292 w3 = (None, w4)"
      "archive_path = ?path" "d = rt_digest rt x" "w' = w4"
    using assms(1) one two three
    by (auto simp: write_package_def Let_def split: option.splits prod.splits sum.splits)
  have c: "w_files w2 (resolve h ?path) = Some (RegularFile 292 (packed_archive rt p members))"
    using write_archive_content [OF two] by (simp add: packed_archive_def)
  have "x = packed_archive rt p members" "w_files w3 = w_files w2" using read_input_Inr [OF three c] by auto
  moreover have "w_files w4 (resolve h ?path) = w_files w3 (resolve h ?path)"
    using write_exclusive_change [OF four(1)] archive_path_keys [OF assms(2) refl, of h "po_output_directory p"]
    by (auto simp: changes_only_def)
  ultimately show ?thesis using c four by simp
qed

lemma package_release_Inr:
  assumes run: "package_release rt h p w = (Inr (archive_path, d), w')"
    and plain: "validate_package_options rt p = None \<Longrightarrow> plain_part (package_base p)"
    and inputs: "w_files w (resolve h (po_binary_path p)) = Some (RegularFile bp binary)"
      "w_files w (resolve h (po_license_path p)) = Some (RegularFile lp license)"
      "w_files w (resolve h (po_release_notes p)) = Some (RegularFile np release_notes)"
  shows "\<exists>info sbom. validate_package_options rt p = None
    \<and> rt_encode_build rt (build_information p (rt_digest rt binary)) = Inr info
    \<and> rt_encode_spdx rt (bill_of_materials rt p (rt_digest rt binary)) = Inr sbom
    \<and> (\<exists>archive. archive = packed_archive rt p (archive_members rt (info @ [LF]) license release_notes (sbom @ [LF]) binary)
         \<and> d = rt_digest rt archive \<and> w_files w' (resolve h archive_path) = Some (RegularFile 292 archive))"
proof -
  have v: "validate_package_options rt p = None" using run by (auto simp: package_release_def split: option.splits)
  obtain x1 w1 where one: "read_input h ''binary'' (po_binary_path p) w = (Inr x1, w1)"
    using run v by (auto simp: package_release_def split: prod.splits sum.splits)
  obtain x2 w2 where two: "read_input h ''license'' (po_license_path p) w1 = (Inr x2, w2)"
    using run v one by (auto simp: package_release_def split: prod.splits sum.splits)
  obtain x3 w3 where three: "read_input h ''release notes'' (po_release_notes p) w2 = (Inr x3, w3)"
    using run v one two by (auto simp: package_release_def split: prod.splits sum.splits)
  note r1 = read_input_Inr [OF one inputs(1)]
  have r2: "x2 = license \<and> w_files w2 = w_files w1" using read_input_Inr [OF two] inputs(2) r1 by simp
  have r3: "x3 = release_notes \<and> w_files w3 = w_files w2" using read_input_Inr [OF three] inputs(3) r1 r2 by simp
  obtain info sbom where docs: "rt_encode_build rt (build_information p (rt_digest rt binary)) = Inr info"
      "rt_encode_spdx rt (bill_of_materials rt p (rt_digest rt binary)) = Inr sbom"
      "write_package rt h p (archive_members rt (info @ [LF]) license release_notes (sbom @ [LF]) binary) w3
         = (Inr (archive_path, d), w')"
    using run v one two three r1 r2 r3
    by (auto simp: package_release_def Let_def indented_json_def split: sum.splits)
  show ?thesis using v docs(1,2) write_package_Inr [OF docs(3) plain [OF v]] by blast
qed

subsection \<open>What reading the archive gives\<close>

text \<open>
  The libraries as documented: a small archive with visible names and ordinary times, once written, is read
  back member by member without an error, and neither it nor its stream is larger than the reader allows.
\<close>

definition member_item :: "bytes \<times> archive_member \<Rightarrow> tar_item" where
  "member_item item = (case item of (name, m) \<Rightarrow>
     TarMember \<lparr>th_name = name, th_mode = am_mode m, th_length = int (length (am_data m)), th_regular = True, th_link_name = []\<rparr>
       (Some (am_data m)))"

definition small_archive :: "int \<Rightarrow> (bytes \<times> archive_member) list \<Rightarrow> bool" where
  "small_archive modified items \<longleftrightarrow> 0 < modified \<and> modified < 8589934592
     \<and> (\<forall>(name, m)\<in>set items. name \<noteq> [] \<and> length name \<le> 100 \<and> list_all (\<lambda>b. 32 < code b \<and> code b < 127) name
          \<and> am_mode m < 512)
     \<and> (\<Sum>(name, m)\<leftarrow>items. length (am_data m) + 1023) + 1024 \<le> maximum_native_archive div 2"

definition archives_read_back :: "release_tools \<Rightarrow> bool" where
  "archives_read_back rt \<longleftrightarrow> (\<forall>modified items. small_archive modified items \<longrightarrow>
     rt_archive rt modified items \<noteq> [] \<and> length (rt_archive rt modified items) \<le> maximum_native_archive
     \<and> (\<exists>stream. rt_gunzip rt (rt_archive rt modified items) = Inr (stream, None, None)
          \<and> length stream \<le> maximum_native_archive \<and> rt_untar rt stream None = map member_item items))"

definition documents_read_back :: "release_tools \<Rightarrow> package_options \<Rightarrow> bool" where
  "documents_read_back rt p \<longleftrightarrow> rt_decode_next rt [] = DecodedEnd \<and> rt_decode_next rt [LF] = DecodedEnd
     \<and> (\<forall>d c. matches digest_pattern d \<longrightarrow> rt_encode_build rt (build_information p d) = Inr c \<longrightarrow>
          length c \<le> 1000000 \<and> rt_decode_build rt (c @ [LF]) = Inr (build_information p d, [LF]))
     \<and> (\<forall>d c. matches digest_pattern d \<longrightarrow> rt_encode_spdx rt (bill_of_materials rt p d) = Inr c \<longrightarrow>
          length c \<le> 1000000 \<and> rt_decode_spdx rt (c @ [LF]) = Inr (bill_of_materials rt p d, [LF]))"

lemma path_clean_plain: "plain_part c \<Longrightarrow> c \<noteq> ''..'' \<Longrightarrow> path_clean c = c"
  by (cases c) (auto simp: path_clean_def is_rooted_def plain_part_def split_on_single)

lemma member_path:
  assumes "plain_part root" "root \<noteq> ''..''" and "plain_part name" "name \<noteq> ''..''"
  shows "split_on separator (path_clean (root @ separator # name)) = [root, name]"
proof -
  have "base_end root root" using assms by (simp add: base_end_def)
  then have "path_clean (root @ separator # name) = root @ separator # name"
    using path_clean_child assms path_clean_plain by metis
  then show ?thesis using assms by (simp add: split_on_snoc split_on_single plain_part_def)
qed

lemma read_member_packed:
  assumes "plain_part root" "root \<noteq> ''..''" and m: "(am_name m, am_mode m) \<in> set unsigned_package_members"
    and "pr_root st \<in> {[], root}" and "am_name m \<notin> fst ` set (pr_members st)"
    and small: "pr_amount st + int (length (am_data m)) \<le> int maximum_native_archive" "0 \<le> pr_amount st"
  shows "read_member is_print \<lparr>th_name = root @ ''/'' @ am_name m, th_mode = am_mode m, th_length = int (length (am_data m)),
      th_regular = True, th_link_name = []\<rparr> (Some (am_data m)) st
    = Inr \<lparr>pr_members = (am_name m, am_data m) # pr_members st, pr_root = root,
        pr_amount = pr_amount st + int (length (am_data m))\<rparr>"
proof -
  have n: "plain_part (am_name m) \<and> am_name m \<noteq> ''..''" using member_names_plain m by blast
  have parts: "split_on separator (path_clean (root @ separator # am_name m)) = [root, am_name m]"
    using member_path assms(1,2) n by blast
  have mode: "map_of unsigned_package_members (am_name m) = Some (am_mode m mod 512)"
    using m by (auto simp: unsigned_package_members_def)
  have new: "map_of (pr_members st) (am_name m) = None" using assms(5) by (simp add: map_of_eq_None_iff)
  have "root \<notin> {[], ''.'', ''..''}" using assms(1,2) by (auto simp: plain_part_def)
  then show ?thesis using assms(4) parts mode new small by (auto simp: read_member_def Let_def)
qed

lemma read_members_packed:
  assumes "plain_part root" "root \<noteq> ''..''"
  shows "list_all (\<lambda>m. (am_name m, am_mode m) \<in> set unsigned_package_members) ms \<Longrightarrow>
    distinct (map am_name ms) \<Longrightarrow> set (map am_name ms) \<inter> fst ` set (pr_members st) = {} \<Longrightarrow> pr_root st \<in> {[], root} \<Longrightarrow>
    0 \<le> pr_amount st \<Longrightarrow> pr_amount st + int (\<Sum>m\<leftarrow>ms. length (am_data m)) \<le> int maximum_native_archive \<Longrightarrow>
    \<exists>st'. read_members is_print (map (\<lambda>m. member_item (root @ ''/'' @ am_name m, m)) ms) st = Inr st'
      \<and> pr_members st' = rev (map (\<lambda>m. (am_name m, am_data m)) ms) @ pr_members st
      \<and> pr_root st' = (if ms = [] then pr_root st else root)"
proof (induction ms arbitrary: st)
  case (Cons m ms)
  let ?st = "\<lparr>pr_members = (am_name m, am_data m) # pr_members st, pr_root = root,
        pr_amount = pr_amount st + int (length (am_data m))\<rparr>"
  have step: "read_member is_print \<lparr>th_name = root @ ''/'' @ am_name m, th_mode = am_mode m,
      th_length = int (length (am_data m)), th_regular = True, th_link_name = []\<rparr> (Some (am_data m)) st = Inr ?st"
    by (rule read_member_packed [OF assms]) (use Cons.prems in auto)
  have "\<exists>st'. read_members is_print (map (\<lambda>m. member_item (root @ ''/'' @ am_name m, m)) ms) ?st = Inr st'
      \<and> pr_members st' = rev (map (\<lambda>m. (am_name m, am_data m)) ms) @ pr_members ?st
      \<and> pr_root st' = (if ms = [] then pr_root ?st else root)"
    by (rule Cons.IH) (use Cons.prems in auto)
  then show ?case using step by (simp add: member_item_def) (auto split: if_splits)
qed simp

definition packed_members :: "release_tools \<Rightarrow> bytes \<Rightarrow> bytes \<Rightarrow> bytes \<Rightarrow> bytes \<Rightarrow> bytes \<Rightarrow> (bytes \<times> bytes) list" where
  "packed_members rt info license release_notes sbom binary =
     [(''BUILDINFO.json'', info), (''LICENSE'', license), (''RELEASE.md'', release_notes), (''SBOM.spdx.json'', sbom),
      (''SHA256SUMS'', join_with [LF] [checksum_line rt ''BUILDINFO.json'' info, checksum_line rt ''LICENSE'' license,
         checksum_line rt ''RELEASE.md'' release_notes, checksum_line rt ''SBOM.spdx.json'' sbom,
         checksum_line rt ''himesan'' binary] @ [LF]),
      (''himesan'', binary)]"

lemma archive_members_sorted:
  "archive_members rt info license release_notes sbom binary =
     map (\<lambda>(name, data). \<lparr>am_name = name, am_mode = the (map_of unsigned_package_members name), am_data = data\<rparr>)
       (packed_members rt info license release_notes sbom binary)"
  by (simp add: archive_members_def packed_members_def unsigned_package_members_def Let_def)

lemma member_data_packed:
  "member_data (rev (packed_members rt info license release_notes sbom binary)) ''BUILDINFO.json'' = info"
  "member_data (rev (packed_members rt info license release_notes sbom binary)) ''LICENSE'' = license"
  "member_data (rev (packed_members rt info license release_notes sbom binary)) ''RELEASE.md'' = release_notes"
  "member_data (rev (packed_members rt info license release_notes sbom binary)) ''SBOM.spdx.json'' = sbom"
  "member_data (rev (packed_members rt info license release_notes sbom binary)) ''himesan'' = binary"
  "member_data (rev (packed_members rt info license release_notes sbom binary)) ''SHA256SUMS''
     = member_sums rt (rev (packed_members rt info license release_notes sbom binary))"
  by (simp_all add: packed_members_def member_data_def member_sums_def checksum_names_def)

text \<open>A release of the one platform that is signed, small enough for the reader.\<close>

definition signable :: "package_options \<Rightarrow> bool" where
  "signable p \<longleftrightarrow> po_goos p = ''darwin'' \<and> po_goarch p = ''arm64'' \<and> length (po_version p) \<le> 64
     \<and> po_source_date_epoch p < 8589934592"

lemma packed_small:
  assumes valid: "validate_package_options rt p = None" and p: "signable p"
    and digests: "\<forall>s. matches digest_pattern (rt_digest rt s)"
    and small: "length binary + length license + length release_notes \<le> 100000000" "length info \<le> 1000001" "length sbom \<le> 1000001"
  shows "small_archive (po_source_date_epoch p)
      (map (\<lambda>m. (package_base p @ ''/'' @ am_name m, m)) (archive_members rt info license release_notes sbom binary))"
proof -
  have base: "list_all name_char (package_base p)" "length (package_base p) \<le> 85"
    using package_base_ok [OF valid] p by (auto simp: signable_def)
  have visible: "list_all (\<lambda>b. 32 < code b \<and> code b < 127) (package_base p)"
    using base(1) by (auto simp: list_all_iff name_char_def)
  have "0 < po_source_date_epoch p" using valid by (simp add: validate_package_options_def problem_free)
  moreover have "length (rt_digest rt s) = 64" for s using digests by (simp add: digest_pattern_def)
  ultimately show ?thesis
    using visible base(2) p small
    by (simp add: small_archive_def archive_members_sorted packed_members_def unsigned_package_members_def signable_def
        checksum_line_def maximum_native_archive_def)
qed

lemma read_packed:
  assumes laws: "archives_read_back rt" "\<forall>s. matches digest_pattern (rt_digest rt s)"
    and valid: "validate_package_options rt p = None" and p: "signable p"
    and small: "length binary + length license + length release_notes \<le> 100000000" "length info \<le> 1000001" "length sbom \<le> 1000001"
  shows "read_unsigned_package rt is_print (packed_archive rt p (archive_members rt info license release_notes sbom binary))
      = Inr (rev (packed_members rt info license release_notes sbom binary), package_base p)"
    and "packed_archive rt p (archive_members rt info license release_notes sbom binary) \<noteq> []"
    and "length (packed_archive rt p (archive_members rt info license release_notes sbom binary)) \<le> maximum_native_archive"
proof -
  let ?ms = "archive_members rt info license release_notes sbom binary"
  let ?items = "map (\<lambda>m. (package_base p @ ''/'' @ am_name m, m)) ?ms"
  have root: "plain_part (package_base p)" "package_base p \<noteq> ''..''"
    using package_base_ok [OF valid] p by (auto simp: signable_def)
  have sm: "small_archive (po_source_date_epoch p) ?items" by (rule packed_small [OF valid p laws(2) small])
  then obtain stream where s: "packed_archive rt p ?ms \<noteq> []" "length (packed_archive rt p ?ms) \<le> maximum_native_archive"
      "rt_gunzip rt (packed_archive rt p ?ms) = Inr (stream, None, None)" "length stream \<le> maximum_native_archive"
      "rt_untar rt stream None = map member_item ?items"
    using laws(1) unfolding archives_read_back_def packed_archive_def by blast
  have six: "list_all (\<lambda>m. (am_name m, am_mode m) \<in> set unsigned_package_members) ?ms" "distinct (map am_name ?ms)"
      "?ms \<noteq> []" "map (\<lambda>m. (am_name m, am_data m)) ?ms = packed_members rt info license release_notes sbom binary"
    by (simp_all add: archive_members_sorted packed_members_def unsigned_package_members_def)
  have "(\<Sum>m\<leftarrow>?ms. length (am_data m)) \<le> (\<Sum>(name, m)\<leftarrow>?items. length (am_data m) + 1023)"
    by (induction ?ms) (simp_all add: archive_members_sorted packed_members_def)
  then have "(\<Sum>m\<leftarrow>?ms. length (am_data m)) \<le> maximum_native_archive"
    using sm unfolding small_archive_def by linarith
  then obtain st where "read_members is_print (map (\<lambda>m. member_item (package_base p @ ''/'' @ am_name m, m)) ?ms)
        \<lparr>pr_members = [], pr_root = [], pr_amount = 0\<rparr> = Inr st"
      "pr_members st = rev (packed_members rt info license release_notes sbom binary)" "pr_root st = package_base p"
    using read_members_packed [OF root six(1,2), of "\<lparr>pr_members = [], pr_root = [], pr_amount = 0\<rparr>" is_print] six(3,4) by auto
  then show "read_unsigned_package rt is_print (packed_archive rt p ?ms)
      = Inr (rev (packed_members rt info license release_notes sbom binary), package_base p)"
    using s by (simp add: read_unsigned_package_def Let_def comp_def)
  show "packed_archive rt p ?ms \<noteq> []" "length (packed_archive rt p ?ms) \<le> maximum_native_archive" by (rule s)+
qed

lemma validate_packed:
  assumes valid: "validate_package_options rt p = None" and p: "signable p" and docs: "documents_read_back rt p"
    and digests: "\<forall>s. matches digest_pattern (rt_digest rt s)"
    and info: "rt_encode_build rt (build_information p (rt_digest rt binary)) = Inr info"
    and sbom: "rt_encode_spdx rt (bill_of_materials rt p (rt_digest rt binary)) = Inr sbom"
  shows "validate_unsigned_package rt
      (rev (packed_members rt (info @ [LF]) license release_notes (sbom @ [LF]) binary)) (package_base p) = None"
proof -
  let ?members = "rev (packed_members rt (info @ [LF]) license release_notes (sbom @ [LF]) binary)"
  have d: "rt_decode_build rt (info @ [LF]) = Inr (build_information p (rt_digest rt binary), [LF])"
      "rt_decode_spdx rt (sbom @ [LF]) = Inr (bill_of_materials rt p (rt_digest rt binary), [LF])"
      "rt_decode_next rt [LF] = DecodedEnd"
    using docs digests info sbom by (auto simp: documents_read_back_def)
  have v: "matches release_version_pattern (po_version p)" "matches git_object_pattern (po_commit p)"
      "matches git_object_pattern (po_tree p)" "matches go_version_pattern (po_go_version p)"
    using valid by (auto simp: validate_package_options_def problem_free)
  have b: "build_matches rt (build_information p (rt_digest rt binary)) (package_base p) binary"
    using v p by (simp add: build_matches_def build_information_def package_base_def signable_def)
  have s: "sbom_matches (bill_of_materials rt p (rt_digest rt binary)) (bu_binary_sha256 (build_information p (rt_digest rt binary)))"
    by (simp add: sbom_matches_def bill_of_materials_def build_information_def)
  have len: "length ?members = length unsigned_package_members" "package_base p \<noteq> []"
    by (simp_all add: packed_members_def unsigned_package_members_def package_base_def)
  show ?thesis
    using len b s d by (simp add: validate_unsigned_package_def member_data_packed decode_strict_def require_json_eof_def
        member_sums_def)
qed

subsection \<open>Extraction on a host without faults\<close>

lemma quiet_extract_members:
  assumes "quiet_host h" and root: "plain_part root" "root \<noteq> ''..''"
  shows "distinct names \<Longrightarrow> list_all (\<lambda>n. plain_part n \<and> n \<noteq> ''..'') names \<Longrightarrow>
    \<forall>n\<in>set names. w_files w (resolve h (path_join out root) @ separator # n) = None \<Longrightarrow>
    \<exists>w'. extract_members h (path_join out root) members names w = (None, w')"
proof (induction names arbitrary: w)
  case (Cons n ns)
  let ?key = "resolve h (path_join out root)"
  have k: "resolve h (path_join (path_join out root) n) = ?key @ separator # n"
    by (rule package_keys(2) [OF root]) (use Cons.prems(2) in auto)
  obtain w1 where one: "write_exclusive h (path_join (path_join out root) n) (member_data members n)
      (the (map_of unsigned_package_members n)) w = (None, w1)" "w_files w1 = (w_files w)(?key @ separator # n
        \<mapsto> RegularFile (the (map_of unsigned_package_members n)) (member_data members n))"
    using quiet_write_exclusive [OF assms(1), of w "path_join (path_join out root) n" "member_data members n"
        "the (map_of unsigned_package_members n)"] Cons.prems(3) k by auto
  have "\<exists>w'. extract_members h (path_join out root) members ns w1 = (None, w')"
    by (rule Cons.IH) (use Cons.prems one(2) in auto)
  then show ?case using one(1) by auto
qed simp

lemma quiet_extract_package:
  assumes quiet: "quiet_host h" and root: "plain_part root" "root \<noteq> ''..''" and range: "visits_members rt"
    and out: "w_files w (resolve h out) = Some (Directory perm names)"
    and free: "\<forall>k. below (resolve h (path_join out root)) k \<longrightarrow> w_files w k = None"
  shows "\<exists>w'. extract_package rt h out root members w = (Inr (path_join out root), w')"
proof -
  let ?p = "path_join out root" and ?names = "rt_range rt (map fst unsigned_package_members)"
  obtain w1 where l: "lstat h out w = (Inr (Directory perm names), w1)" "w_files w1 = w_files w"
    using quiet out by (auto simp: quiet_calls)
  have "w_files w1 (resolve h ?p) = None" using free l(2) by simp
  then obtain w2 where m: "make_directory h ?p 448 w1 = (None, w2)"
      "w_files w2 = (w_files w1)(resolve h ?p \<mapsto> Directory 448 [])"
    using quiet by (auto simp: make_directory_def quiet_host_def)
  have "\<exists>w'. extract_members h ?p members ?names w2 = (None, w')"
    by (rule quiet_extract_members [OF quiet root _ visits_members_plain [OF range]])
      (use range free l(2) m(2) in \<open>auto simp: visits_members_def\<close>)
  then show ?thesis using l(1) m(1) by (auto simp: extract_package_def Let_def)
qed

lemma quiet_approved_archive:
  assumes "quiet_host h" and "w_files w (resolve h path) = Some (RegularFile perm archive)"
    and "archive \<noteq> []" "length archive \<le> maximum_native_archive"
    and "matches digest_pattern (rt_digest rt archive)"
  shows "\<exists>w'. approved_archive rt h path (rt_digest rt archive) w = (Inr archive, w')"
proof -
  obtain w1 where l: "lstat h path w = (Inr (RegularFile perm archive), w1)" "w_files w1 = w_files w"
    using assms(1,2) by (auto simp: quiet_calls)
  obtain w2 where r: "read_file h path w1 = (Inr archive, w2)"
    using quiet_read_file [OF assms(1), of w1 path perm archive] assms(2) l(2) by auto
  show ?thesis using l(1) r assms(3-5) by (simp add: approved_archive_def unsuitable_def)
qed

lemma extract_packed:
  fixes rt binary info license release_notes sbom
  defines "members \<equiv> rev (packed_members rt (info @ [LF]) license release_notes (sbom @ [LF]) binary)"
  assumes quiet: "quiet_host h"
    and laws: "archives_read_back rt" "documents_read_back rt p" "visits_members rt" "\<forall>s. matches digest_pattern (rt_digest rt s)"
    and p: "signable p" "validate_package_options rt p = None"
    and docs: "rt_encode_build rt (build_information p (rt_digest rt binary)) = Inr info"
      "rt_encode_spdx rt (bill_of_materials rt p (rt_digest rt binary)) = Inr sbom"
    and small: "length binary + length license + length release_notes \<le> 100000000"
    and archive: "archive = packed_archive rt p (archive_members rt (info @ [LF]) license release_notes (sbom @ [LF]) binary)"
      "w_files w (resolve h archive_path) = Some (RegularFile mode archive)"
    and out: "w_files w (resolve h out) = Some (Directory perm names)"
    and free: "\<forall>k. below (resolve h (path_join out (package_base p))) k \<longrightarrow> w_files w k = None"
  shows "\<exists>w2. extract_verified_macos_package rt is_print h archive_path (rt_digest rt archive) out w
        = (Inr (path_join out (package_base p)), w2)
      \<and> extracted_files (resolve h (path_join out (package_base p))) members (w_files w2)
      \<and> changes_only (insert (resolve h (path_join out (package_base p)))
          (member_keys (resolve h (path_join out (package_base p))) (map fst unsigned_package_members))) (w_files w) (w_files w2)"
proof -
  have plain: "plain_part (package_base p)" "package_base p \<noteq> ''..''"
    using package_base_ok [OF p(2)] p(1) by (auto simp: signable_def)
  have size: "length (info @ [LF]) \<le> 1000001" "length (sbom @ [LF]) \<le> 1000001"
    using laws(2,4) docs by (auto simp: documents_read_back_def)
  note r = read_packed [OF laws(1,4) p(2,1) small size, folded archive(1) members_def]
  obtain w2 where a: "approved_archive rt h archive_path (rt_digest rt archive) w = (Inr archive, w2)"
    using quiet_approved_archive [OF quiet archive(2) r(2,3)] laws(4) by blast
  have same: "w_files w2 = w_files w" using approved_archive_same [OF a] .
  have v: "validate_unsigned_package rt members (package_base p) = None"
    unfolding members_def by (rule validate_packed [OF p(2,1) laws(2,4) docs])
  obtain w3 where x: "extract_package rt h out (package_base p) members w2 = (Inr (path_join out (package_base p)), w3)"
    using quiet_extract_package [OF quiet plain laws(3), of w2 out perm names members] out free same by auto
  show ?thesis
    using a r(1) v x extract_package_change [OF x plain laws(3)] same
    by (simp add: extract_verified_macos_package_def)
qed

subsection \<open>Packaging on a host without faults\<close>

lemma quiet_write_members:
  "quiet_host h \<Longrightarrow> \<forall>m\<in>set ms. rt_header_fault rt (root @ ''/'' @ am_name m) = None \<Longrightarrow>
   \<exists>w'. write_members rt h root ms w = (None, w') \<and> w_files w' = w_files w"
proof (induction ms arbitrary: w)
  case (Cons m ms)
  have call: "plain_call h v = (None, tick v)" for v using Cons.prems(1) by (simp add: plain_call_def quiet_host_def)
  obtain w' where "write_members rt h root ms (tick (tick w)) = (None, w')" "w_files w' = w_files w"
    using Cons.IH [of "tick (tick w)"] Cons.prems by auto
  then show ?case using Cons.prems(2) call by simp
qed simp

lemma quiet_write_archive:
  assumes "quiet_host h" and "w_files w (resolve h path) = None"
    and "\<forall>m\<in>set ms. rt_header_fault rt (root @ ''/'' @ am_name m) = None"
  shows "\<exists>w'. write_archive rt h path root ms modified w = (None, w')
    \<and> w_files w' = (w_files w)(resolve h path \<mapsto>
        RegularFile 292 (rt_archive rt modified (map (\<lambda>m. (root @ ''/'' @ am_name m, m)) ms)))"
proof -
  obtain w1 where one: "create_exclusive h path 384 w = (None, w1)" "w_files w1 = (w_files w)(resolve h path \<mapsto> RegularFile 384 [])"
    using assms(1,2) by (simp add: create_exclusive_def quiet_host_def)
  obtain w2 where two: "write_members rt h root ms w1 = (None, w2)" "w_files w2 = w_files w1"
    using quiet_write_members [OF assms(1,3)] by blast
  have call: "plain_call h v = (None, tick v)" for v using assms(1) by (simp add: plain_call_def quiet_host_def)
  show ?thesis
    using assms(1) one two call
    by (simp add: write_archive_def fill_archive_def Let_def then_call_def labelled_def write_open_def change_file_def quiet_host_def)
qed

lemma quiet_read_input:
  assumes "quiet_host h" and "w_files w (resolve h path) = Some (RegularFile perm content)"
  shows "\<exists>w'. read_input h what path w = (Inr content, w') \<and> w_files w' = w_files w"
  using quiet_read_file [OF assms] by (auto simp: read_input_def)

lemma quiet_write_package:
  assumes quiet: "quiet_host h" and out: "w_files w (resolve h (po_output_directory p)) = Some (Directory perm names)"
    and path: "path = path_join (po_output_directory p) (package_base p @ ''.tar.gz'')" "plain_part (package_base p)"
    and free: "w_files w (resolve h path) = None" "w_files w (resolve h (path @ ''.sha256'')) = None"
    and names: "\<forall>m\<in>set members. rt_header_fault rt (package_base p @ ''/'' @ am_name m) = None"
  shows "\<exists>w' sums. write_package rt h p members w = (Inr (path, rt_digest rt (packed_archive rt p members)), w')
    \<and> w_files w' = (w_files w)(resolve h path \<mapsto> RegularFile 292 (packed_archive rt p members),
        resolve h (path @ ''.sha256'') \<mapsto> RegularFile 292 sums)"
proof -
  have one: "make_directories h (po_output_directory p) 493 w = (None, tick w)"
    using quiet out by (simp add: make_directories_def quiet_host_def numeral_eq_Suc)
  obtain w2 where two: "write_archive rt h path (package_base p) members (po_source_date_epoch p) (tick w) = (None, w2)"
      "w_files w2 = (w_files w)(resolve h path \<mapsto> RegularFile 292 (packed_archive rt p members))"
    using quiet_write_archive [OF quiet _ names, of "tick w" path "po_source_date_epoch p"] free(1) by (auto simp: packed_archive_def)
  obtain w3 where three: "read_input h ''completed archive'' path w2 = (Inr (packed_archive rt p members), w3)" "w_files w3 = w_files w2"
    using quiet_read_input [OF quiet, of w2 path 292] two(2) by auto
  let ?sums = "checksum_line rt (path_base path) (packed_archive rt p members) @ [LF]"
  have "w_files w3 (resolve h (path @ ''.sha256'')) = None"
    using free three(2) two(2) archive_path_keys [OF path(2,1), of h] by simp
  then obtain w4 where "write_exclusive h (path @ ''.sha256'') ?sums 292 w3 = (None, w4)"
      "w_files w4 = (w_files w3)(resolve h (path @ ''.sha256'') \<mapsto> RegularFile 292 ?sums)"
    using quiet_write_exclusive [OF quiet] by blast
  then show ?thesis using one two three
    by (intro exI [of _ w4] exI [of _ ?sums]) (simp add: write_package_def Let_def path(1) [symmetric])
qed

subsection \<open>The round trip\<close>

text \<open>
  C21: What is packed is what is extracted. Take a release that is packaged successfully, whatever the host
  does meanwhile, for the platform that is signed, with inputs small enough. If the archive and the digest
  that packaging returned are given to extraction on a host without faults, with an output directory that
  has nothing under the name of the package, extraction succeeds: the package root is the one the version
  names, binary, license and release notes are there byte by byte with their modes, the checksum file lists
  the members, and nothing but these files changed.
\<close>

theorem package_extract_roundtrip:
  assumes quiet: "quiet_host h"
    and laws: "archives_read_back rt" "documents_read_back rt p" "visits_members rt" "\<forall>s. matches digest_pattern (rt_digest rt s)"
    and p: "signable p"
    and packaged: "package_release rt g p w = (Inr (archive_path, archive_digest), w1)"
    and keys: "resolve g = resolve h"
    and inputs: "w_files w (resolve h (po_binary_path p)) = Some (RegularFile bp binary)"
      "w_files w (resolve h (po_license_path p)) = Some (RegularFile lp license)"
      "w_files w (resolve h (po_release_notes p)) = Some (RegularFile np release_notes)"
      "length binary + length license + length release_notes \<le> 100000000"
    and out: "w_files w1 (resolve h out) = Some (Directory perm names)"
    and free: "\<forall>k. below (resolve h (path_join out (package_base p))) k \<longrightarrow> w_files w1 k = None"
  shows "\<exists>w2 key. extract_verified_macos_package rt is_print h archive_path archive_digest out w1
        = (Inr (path_join out (package_base p)), w2)
      \<and> key = resolve h (path_join out (package_base p))
      \<and> w_files w2 (key @ ''/himesan'') = Some (RegularFile 365 binary)
      \<and> w_files w2 (key @ ''/LICENSE'') = Some (RegularFile 292 license)
      \<and> w_files w2 (key @ ''/RELEASE.md'') = Some (RegularFile 292 release_notes)
      \<and> changes_only (insert key (member_keys key (map fst unsigned_package_members))) (w_files w1) (w_files w2)"
proof -
  have plain: "plain_part (package_base p)" if "validate_package_options rt p = None"
    using package_base_ok [OF that] p by (auto simp: signable_def)
  obtain info sbom where pk: "validate_package_options rt p = None"
      "rt_encode_build rt (build_information p (rt_digest rt binary)) = Inr info"
      "rt_encode_spdx rt (bill_of_materials rt p (rt_digest rt binary)) = Inr sbom"
    and ar: "archive_digest = rt_digest rt (packed_archive rt p (archive_members rt (info @ [LF]) license release_notes (sbom @ [LF]) binary))"
      "w_files w1 (resolve h archive_path)
         = Some (RegularFile 292 (packed_archive rt p (archive_members rt (info @ [LF]) license release_notes (sbom @ [LF]) binary)))"
    using package_release_Inr [OF packaged _ inputs(1-3) [folded keys]] plain keys by auto
  obtain w2 where x: "extract_verified_macos_package rt is_print h archive_path archive_digest out w1
        = (Inr (path_join out (package_base p)), w2)"
      "extracted_files (resolve h (path_join out (package_base p)))
         (rev (packed_members rt (info @ [LF]) license release_notes (sbom @ [LF]) binary)) (w_files w2)"
      "changes_only (insert (resolve h (path_join out (package_base p)))
          (member_keys (resolve h (path_join out (package_base p))) (map fst unsigned_package_members))) (w_files w1) (w_files w2)"
    using extract_packed [OF quiet laws p pk inputs(4) refl ar(2) out free] unfolding ar(1) by blast
  have "(''himesan'', 365) \<in> set unsigned_package_members" "(''LICENSE'', 292) \<in> set unsigned_package_members"
      "(''RELEASE.md'', 292) \<in> set unsigned_package_members" by (simp_all add: unsigned_package_members_def)
  from this [THEN bspec [OF x(2) [unfolded extracted_files_def]]] show ?thesis
    using x(1,3) by (simp add: member_data_packed)
qed

end
