(* ===== verification/Release_Receipts.thy ===== *)
theory Release_Receipts
  imports Release_Native Release_Roundtrip
begin

section \<open>What verified receipts and evidence mean\<close>

subsection \<open>One lane\<close>

text \<open>
  A verified lane: its directory holds the receipt and its checksum and nothing else, the checksum is that of
  the receipt, the receipt is one of this source, platform, toolchain and runner, complete, with every gate
  once, completed recently, and the summary repeats what it says.
\<close>

definition lane_verified ::
  "release_tools \<Rightarrow> 'd host \<Rightarrow> files \<Rightarrow> bytes \<Rightarrow> native_expectation \<Rightarrow> bytes \<Rightarrow> native_lane \<Rightarrow> lane_summary \<Rightarrow> bool" where
  "lane_verified rt h fs directory expected generated lane summary \<longleftrightarrow>
     (\<exists>perm contents mode sums r dir.
        dir = path_join directory (nl_directory lane)
      \<and> fs (resolve h (path_join dir receipt_name)) = Some (RegularFile perm contents)
      \<and> 0 < length contents \<and> length contents \<le> maximum_evidence_bytes
      \<and> fs (resolve h (path_join dir receipt_name @ ''.sha256'')) = Some (RegularFile mode sums)
      \<and> sums = checksum_line rt receipt_name contents @ [LF]
      \<and> decode_receipt rt contents = Inr r
      \<and> re_schema_version r = receipt_schema \<and> re_repository r = ne_repository expected
      \<and> re_commit r = ne_commit expected \<and> re_tree r = ne_tree expected
      \<and> re_goos r = nl_goos lane \<and> re_goarch r = nl_goarch lane
      \<and> re_go_version r = nl_go_version lane \<and> re_runner_name r = nl_runner lane
      \<and> distinct (re_successful_gates r) \<and> set required_native_gates \<subseteq> set (re_successful_gates r)
      \<and> re_generated_digest r = generated
      \<and> (\<exists>t completed. rt_parse_time rt (re_completed_at r) = Inr completed
           \<and> completed \<le> rt_now rt t + five_minutes \<and> rt_now rt t - completed \<le> native_receipt_maximum_age)
      \<and> summary = \<lparr>ls_platform = nl_goos lane @ ''/'' @ nl_goarch lane, ls_go_version = nl_go_version lane,
           ls_runner_version = re_runner_version r, ls_artifact_sha256 = re_unsigned_artifact_sha r,
           ls_receipt_sha256 = rt_digest rt contents, ls_completed_at = re_completed_at r\<rparr>)"

lemma duplicate_gate_None: "duplicate_gate seen gates = None \<longleftrightarrow> distinct gates \<and> set gates \<inter> set seen = {}"
  by (induction seen gates rule: duplicate_gate.induct) auto

lemma require_native_gates_None:
  "require_native_gates is_print gates = None \<longleftrightarrow> distinct gates \<and> set required_native_gates \<subseteq> set gates"
proof -
  have "duplicate_gate [] gates = None \<longleftrightarrow> distinct gates" by (simp add: duplicate_gate_None)
  moreover have "find (\<lambda>gate. gate \<notin> set gates) required_native_gates = None \<longleftrightarrow> set required_native_gates \<subseteq> set gates"
    by (auto simp: find_None_iff)
  ultimately show ?thesis by (auto simp: require_native_gates_def split: option.splits)
qed

lemma check_receipt_None:
  assumes "check_receipt rt is_print now expected lane r = None"
  shows "re_schema_version r = receipt_schema \<and> re_repository r = ne_repository expected
      \<and> re_commit r = ne_commit expected \<and> re_tree r = ne_tree expected
      \<and> re_goos r = nl_goos lane \<and> re_goarch r = nl_goarch lane
      \<and> re_go_version r = nl_go_version lane \<and> re_runner_name r = nl_runner lane
      \<and> distinct (re_successful_gates r) \<and> set required_native_gates \<subseteq> set (re_successful_gates r)
      \<and> (\<exists>completed. rt_parse_time rt (re_completed_at r) = Inr completed
           \<and> completed \<le> now + five_minutes \<and> now - completed \<le> native_receipt_maximum_age)"
  using assms
  by (auto simp: check_receipt_def problem_free require_native_gates_None split: sum.splits)

lemma read_native_lane_Inr:
  assumes "read_native_lane rt h directory w = (Inr (r, d), w')"
  shows "w_files w' = w_files w
    \<and> (\<exists>perm contents mode. w_files w (resolve h (path_join directory receipt_name)) = Some (RegularFile perm contents)
        \<and> 0 < length contents \<and> length contents \<le> maximum_evidence_bytes
        \<and> w_files w (resolve h (path_join directory receipt_name @ ''.sha256''))
            = Some (RegularFile mode (checksum_line rt receipt_name contents @ [LF]))
        \<and> decode_receipt rt contents = Inr r \<and> d = rt_digest rt contents)"
proof -
  let ?path = "path_join directory receipt_name"
  obtain a w1 where a: "lstat h directory w = (a, w1)" by fastforce
  obtain b w2 where b: "read_dir h directory w1 = (b, w2)" by fastforce
  obtain c w3 where c: "read_regular_file h ?path maximum_evidence_bytes w2 = (c, w3)" by fastforce
  obtain e w4 where e: "read_regular_file h (?path @ ''.sha256'') 512 w3 = (e, w4)" by fastforce
  obtain contents sums where ok: "c = Inr contents" "contents \<noteq> []" "e = Inr sums" "sums = checksum_line rt receipt_name contents @ [LF]"
      "decode_receipt rt contents = Inr r" "d = rt_digest rt contents" "w' = w4"
    using assms a b c e by (cases a; cases b; cases c; cases e) (auto simp: read_native_lane_def Let_def split: if_splits sum.splits)
  have same: "w_files w2 = w_files w" using lstat_files [of h directory w] read_dir_files [of h directory w1] a b by simp
  show ?thesis
    using read_regular_file_Inr [OF c [unfolded ok(1)]] read_regular_file_Inr [OF e [unfolded ok(3)]] same ok by auto
qed

lemma validated_digest: "decode_receipt rt contents = Inr r \<Longrightarrow> matches digest_pattern (re_generated_digest r)"
  by (auto simp: decode_receipt_def validate_receipt_def problem_free split: sum.splits option.splits)

lemma verify_lanes_Inr:
  "verify_lanes rt is_print h directory expected lanes generated w = (Inr (final, summaries), w') \<Longrightarrow>
   w_files w' = w_files w \<and> (generated \<noteq> [] \<longrightarrow> final = generated)
   \<and> list_all2 (lane_verified rt h (w_files w) directory expected final) lanes summaries"
proof (induction lanes arbitrary: generated w summaries)
  case (Cons lane lanes)
  obtain a w1 where a: "read_native_lane rt h (path_join directory (nl_directory lane)) w = (a, w1)" by fastforce
  then obtain r d where ok: "a = Inr (r, d)" "check_receipt rt is_print (rt_now rt (w_clock w1)) expected lane r = None"
      "generated = [] \<or> generated = re_generated_digest r"
    using Cons.prems by (auto split: sum.splits option.splits if_splits)
  note lane = read_native_lane_Inr [OF a [unfolded ok(1)]] check_receipt_None [OF ok(2)]
  have "re_generated_digest r \<noteq> []" using lane(1) validated_digest [of rt _ r] by (auto simp: digest_pattern_def)
  then obtain rest where tail: "verify_lanes rt is_print h directory expected lanes (re_generated_digest r) w1 = (Inr (final, rest), w')"
      "summaries = \<lparr>ls_platform = nl_goos lane @ ''/'' @ nl_goarch lane, ls_go_version = nl_go_version lane,
           ls_runner_version = re_runner_version r, ls_artifact_sha256 = re_unsigned_artifact_sha r,
           ls_receipt_sha256 = d, ls_completed_at = re_completed_at r\<rparr> # rest"
    using Cons.prems a ok by (auto split: sum.splits prod.splits if_splits)
  have final: "final = re_generated_digest r" using Cons.IH [OF tail(1)] \<open>re_generated_digest r \<noteq> []\<close> by simp
  have "lane_verified rt h (w_files w) directory expected final lane (hd summaries)"
    using lane tail(2) final unfolding lane_verified_def by auto
  then show ?case using Cons.IH [OF tail(1)] lane(1) tail(2) ok(3) final by auto
qed simp

lemma equal_strings_eq: "equal_strings as bs \<longleftrightarrow> as = bs"
  by (induction as bs rule: equal_strings.induct) auto

lemma validate_native_directory_None:
  assumes "validate_native_directory h directory w = (None, w')"
  shows "w_files w' = w_files w \<and> (\<exists>perm names. w_files w (resolve h directory) = Some (Directory perm names)
      \<and> sort (filter (\<lambda>n. w_files w (resolve h (path_join directory n)) \<noteq> None) names) = sort (map nl_directory required_native_lanes))"
proof -
  obtain a w1 where a: "lstat h directory w = (a, w1)" by fastforce
  obtain b w2 where b: "read_dir h directory w1 = (b, w2)" by fastforce
  obtain entries where ok: "b = Inr entries" "sort entries = sort (map nl_directory required_native_lanes)" "w' = w2"
    using assms a b by (cases a; cases b) (auto simp: validate_native_directory_def equal_strings_eq Let_def split: if_splits)
  have same: "w_files w1 = w_files w" "w_files w2 = w_files w1"
    using lstat_files [of h directory w] read_dir_files [of h directory w1] a b by simp_all
  have "\<exists>perm names. w_files w1 (resolve h directory) = Some (Directory perm names)
      \<and> entries = sort (filter (\<lambda>n. w_files w1 (resolve h (path_join directory n)) \<noteq> None) names)"
    using b ok(1) by (auto simp: read_dir_def split: option.splits fs_entry.splits)
  then show ?thesis using ok same by (auto simp: sorted_sort_id)
qed


subsection \<open>Sealed evidence\<close>

text \<open>
  The documents as they are found: bounded, not empty, text without NUL bytes that has a heading. Their
  files in the order of their names, each with the digest of what it holds.
\<close>

definition evidence_text :: "bytes \<Rightarrow> bool" where
  "evidence_text contents \<longleftrightarrow> contents \<noteq> [] \<and> length contents \<le> maximum_evidence_bytes
     \<and> valid_utf8 contents \<and> CHR 0x00 \<notin> set contents \<and> index_of ''# '' contents \<noteq> None"

definition evidence_present :: "'d host \<Rightarrow> files \<Rightarrow> bytes \<Rightarrow> (bytes \<Rightarrow> bytes) \<Rightarrow> bool" where
  \<comment> \<open>the contents by the names\<close>
  "evidence_present h fs directory contents \<longleftrightarrow>
     (\<exists>perm names. fs (resolve h directory) = Some (Directory perm names))
   \<and> (\<forall>name\<in>set required_evidence_files. evidence_text (contents name)
        \<and> (\<exists>perm. fs (resolve h (path_join directory name)) = Some (RegularFile perm (contents name))))"

definition evidence_digests :: "release_tools \<Rightarrow> (bytes \<Rightarrow> bytes) \<Rightarrow> evidence_file list" where
  "evidence_digests rt contents =
     map (\<lambda>name. \<lparr>ef_path = name, ef_sha256 = rt_digest rt (contents name)\<rparr>) required_evidence_files"

lemma required_sorted: "sort_key ef_path (evidence_digests rt contents) = evidence_digests rt contents"
  by (simp add: evidence_digests_def required_evidence_files_def)

lemma read_evidence_file_Inr:
  assumes "read_evidence_file h path manifest w = (Inr contents, w')"
  shows "w_files w' = w_files w \<and> contents \<noteq> [] \<and> length contents \<le> maximum_evidence_bytes
    \<and> (\<exists>perm. w_files w (resolve h path) = Some (RegularFile perm contents))"
proof -
  obtain r w1 where l: "lstat h path w = (r, w1)" by fastforce
  obtain s w2 where f: "read_file h path w1 = (s, w2)" by fastforce
  obtain info where info: "r = Inr info" "s = Inr contents" "w' = w2"
      "(case info of RegularFile perm content \<Rightarrow> content \<noteq> [] \<and> length content \<le> maximum_evidence_bytes | _ \<Rightarrow> False)"
    using assms l f by (cases r; cases s) (auto simp: read_evidence_file_def split: if_splits fs_entry.splits)
  have e: "w_files w (resolve h path) = Some info" using lstat_Inr l info(1) by blast
  have same: "w_files w1 = w_files w" "w_files w2 = w_files w1" using l f by blast+
  obtain perm c where c: "info = RegularFile perm c" using info(4) by (cases info) auto
  then have "contents = c" using read_file_content [OF f [unfolded info(2)]] e same by simp
  then show ?thesis using c info e same by simp
qed

lemma inspect_named_files_Inr:
  "inspect_named_files rt h directory names w = (Inr files, w') \<Longrightarrow>
   w_files w' = w_files w \<and> (\<exists>cs. length cs = length names
     \<and> files = map2 (\<lambda>name c. \<lparr>ef_path = name, ef_sha256 = rt_digest rt c\<rparr>) names cs
     \<and> list_all2 (\<lambda>name c. evidence_text c
          \<and> (\<exists>perm. w_files w (resolve h (path_join directory name)) = Some (RegularFile perm c))) names cs)"
proof (induction names arbitrary: w files)
  case (Cons name names)
  obtain r w1 where r: "read_evidence_file h (path_join directory name) False w = (r, w1)" by fastforce
  obtain q w2 where q: "inspect_named_files rt h directory names w1 = (q, w2)" by fastforce
  obtain c rest where ok: "r = Inr c" "q = Inr rest" "w' = w2" "valid_utf8 c" "CHR 0x00 \<notin> set c" "index_of ''# '' c \<noteq> None"
      "files = \<lparr>ef_path = name, ef_sha256 = rt_digest rt c\<rparr> # rest"
    using Cons.prems r q by (cases r; cases q) (auto split: if_splits)
  note f = read_evidence_file_Inr [OF r [unfolded ok(1)]]
  obtain cs where cs: "length cs = length names"
      "rest = map2 (\<lambda>name c. \<lparr>ef_path = name, ef_sha256 = rt_digest rt c\<rparr>) names cs"
      "list_all2 (\<lambda>name c. evidence_text c
          \<and> (\<exists>perm. w_files w1 (resolve h (path_join directory name)) = Some (RegularFile perm c))) names cs"
    using Cons.IH [OF q [unfolded ok(2), folded ok(3)]] by blast
  have "w_files w' = w_files w1" using Cons.IH [OF q [unfolded ok(2), folded ok(3)]] by blast
  then show ?case using f ok cs by (intro conjI exI [of _ "c # cs"]) (auto simp: evidence_text_def)
qed simp

lemma quiet_read_evidence_file:
  assumes "quiet_host h" and "w_files w (resolve h path) = Some (RegularFile perm c)" and "c \<noteq> []" "length c \<le> maximum_evidence_bytes"
  shows "\<exists>w'. read_evidence_file h path manifest w = (Inr c, w') \<and> w_files w' = w_files w \<and> w_clock w \<le> w_clock w'"
  using assms by (simp add: read_evidence_file_def quiet_calls unsuitable_def read_file_def quiet_host_def numeral_eq_Suc tick_def)

lemma quiet_inspect_named_files:
  assumes "quiet_host h"
  shows "\<forall>name\<in>set names. evidence_text (contents name)
      \<and> (\<exists>perm. w_files w (resolve h (path_join directory name)) = Some (RegularFile perm (contents name))) \<Longrightarrow>
    \<exists>w'. inspect_named_files rt h directory names w
        = (Inr (map (\<lambda>name. \<lparr>ef_path = name, ef_sha256 = rt_digest rt (contents name)\<rparr>) names), w')
      \<and> w_files w' = w_files w"
proof (induction names arbitrary: w)
  case (Cons name names)
  obtain perm where e: "evidence_text (contents name)" "w_files w (resolve h (path_join directory name)) = Some (RegularFile perm (contents name))"
    using Cons.prems by auto
  obtain w1 where one: "read_evidence_file h (path_join directory name) False w = (Inr (contents name), w1)" "w_files w1 = w_files w"
    using quiet_read_evidence_file [OF assms e(2)] e(1) by (auto simp: evidence_text_def)
  obtain w2 where "inspect_named_files rt h directory names w1
        = (Inr (map (\<lambda>name. \<lparr>ef_path = name, ef_sha256 = rt_digest rt (contents name)\<rparr>) names), w2)" "w_files w2 = w_files w1"
    using Cons.IH [of w1] Cons.prems one(2) by auto
  then show ?case using one e(1) by (auto simp: evidence_text_def)
qed simp

lemma quiet_inspect_evidence_files:
  assumes "quiet_host h" and "evidence_present h (w_files w) directory contents"
  shows "\<exists>w'. inspect_evidence_files rt h directory w = (Inr (evidence_digests rt contents), w') \<and> w_files w' = w_files w"
proof -
  obtain perm names where d: "w_files w (resolve h directory) = Some (Directory perm names)"
    using assms(2) by (auto simp: evidence_present_def)
  have l: "lstat h directory w = (Inr (Directory perm names), tick w)" using d by (simp add: quiet_calls [OF assms(1)])
  obtain w' where "inspect_named_files rt h directory required_evidence_files (tick w) = (Inr (evidence_digests rt contents), w')"
      "w_files w' = w_files w"
    using quiet_inspect_named_files [OF assms(1), of required_evidence_files contents "tick w" directory rt] assms(2)
    by (auto simp: evidence_present_def evidence_digests_def)
  then show ?thesis using l by (simp add: inspect_evidence_files_def required_sorted)
qed

lemma inspect_evidence_files_Inr:
  assumes "inspect_evidence_files rt h directory w = (Inr files, w')" and "evidence_present h (w_files w) directory contents"
  shows "files = evidence_digests rt contents \<and> w_files w' = w_files w"
proof -
  obtain r w1 where r: "lstat h directory w = (r, w1)" by fastforce
  then obtain q where q: "inspect_named_files rt h directory required_evidence_files w1 = (Inr q, w')" "files = sort_key ef_path q"
    using assms(1) by (cases r) (auto simp: inspect_evidence_files_def split: if_splits sum.splits prod.splits)
  have same: "w_files w1 = w_files w" using r by blast
  obtain cs where cs: "length cs = length required_evidence_files"
      "q = map2 (\<lambda>name c. \<lparr>ef_path = name, ef_sha256 = rt_digest rt c\<rparr>) required_evidence_files cs"
      "list_all2 (\<lambda>name c. evidence_text c
          \<and> (\<exists>perm. w_files w (resolve h (path_join directory name)) = Some (RegularFile perm c))) required_evidence_files cs"
      "w_files w' = w_files w"
    using inspect_named_files_Inr [OF q(1)] same by auto
  have "cs = map contents required_evidence_files"
  proof (rule nth_equalityI)
    fix i
    assume i: "i < length cs"
    then have "required_evidence_files ! i \<in> set required_evidence_files" using cs(1) by simp
    then obtain perm where "w_files w (resolve h (path_join directory (required_evidence_files ! i)))
        = Some (RegularFile perm (contents (required_evidence_files ! i)))"
      using assms(2) unfolding evidence_present_def by blast
    then show "cs ! i = map contents required_evidence_files ! i"
      using list_all2_nthD2 [OF cs(3) i] i cs(1) by auto
  qed (simp add: cs(1))
  then have "q = evidence_digests rt contents" using cs(2) by (simp add: evidence_digests_def map2_map_map zip_map2 split_def zip_same_conv_map)
  then show ?thesis using q(2) cs(4) by (simp add: required_sorted)
qed

lemma compare_files_None: "length as = length bs \<Longrightarrow> compare_files as bs = None \<longleftrightarrow> as = bs"
  by (induction as bs rule: compare_files.induct) auto

definition sealed_manifest :: "evidence_identity \<Rightarrow> evidence_file list \<Rightarrow> evidence_manifest" where
  "sealed_manifest identity files =
     \<lparr>em_schema_version = evidence_schema, em_repository = ei_repository identity, em_version = ei_version identity,
      em_commit = ei_commit identity, em_tree = ei_tree identity, em_review_status = ''reviewed'',
      em_reviewed_by = ei_reviewed_by identity, em_reviewed_at = ei_reviewed_at identity, em_files = files\<rparr>"

lemma write_evidence_manifest_Inr:
  assumes "write_evidence_manifest rt h directory identity w = (Inr d, w')" and "evidence_present h (w_files w) directory contents"
  shows "validate_evidence_identity rt (rt_now rt (w_clock w)) identity True = None
    \<and> (\<exists>c. rt_encode_manifest rt (sealed_manifest identity (evidence_digests rt contents)) = Inr c
        \<and> w_files w (resolve h (path_join directory evidence_manifest_name)) = None
        \<and> w_files w' (resolve h (path_join directory evidence_manifest_name)) = Some (RegularFile 292 (c @ [LF])))"
proof -
  have v: "validate_evidence_identity rt (rt_now rt (w_clock w)) identity True = None"
    using assms(1) by (auto simp: write_evidence_manifest_def split: option.splits)
  obtain r w1 where r: "inspect_evidence_files rt h directory w = (r, w1)" by fastforce
  then obtain files where files: "r = Inr files" using assms(1) v by (cases r) (auto simp: write_evidence_manifest_def)
  note i = inspect_evidence_files_Inr [OF r [unfolded files] assms(2)]
  obtain c where c: "rt_encode_manifest rt (sealed_manifest identity files) = Inr c"
    using assms(1) v r files by (auto simp: write_evidence_manifest_def indented_json_def sealed_manifest_def split: sum.splits)
  have "write_exclusive h (path_join directory evidence_manifest_name) (c @ [LF]) 292 w1 = (None, w')"
    using assms(1) v r files c
    by (auto simp: write_evidence_manifest_def indented_json_def sealed_manifest_def split: option.splits prod.splits)
  from write_exclusive_change [OF this] show ?thesis using v c i by simp
qed

text \<open>The encoder and the decoder of the manifest of these documents, as documented, and within the size allowed.\<close>

definition manifest_reads_back :: "release_tools \<Rightarrow> evidence_identity \<Rightarrow> (bytes \<Rightarrow> bytes) \<Rightarrow> bool" where
  "manifest_reads_back rt identity contents \<longleftrightarrow>
     (\<forall>c. rt_encode_manifest rt (sealed_manifest identity (evidence_digests rt contents)) = Inr c \<longrightarrow>
        length c < maximum_evidence_bytes
      \<and> rt_decode_manifest rt (c @ [LF]) = Inr (sealed_manifest identity (evidence_digests rt contents), [LF])
      \<and> rt_decode_next rt [LF] = DecodedEnd)"

definition same_candidate :: "evidence_identity \<Rightarrow> evidence_identity \<Rightarrow> bool" where
  "same_candidate a b \<longleftrightarrow> ei_repository a = ei_repository b \<and> ei_version a = ei_version b
     \<and> ei_commit a = ei_commit b \<and> ei_tree a = ei_tree b"

lemma validate_identity_later:
  "validate_evidence_identity rt now identity True = None \<Longrightarrow> now \<le> later \<Longrightarrow>
   validate_evidence_identity rt later identity True = None"
  by (auto simp: validate_evidence_identity_def problem_free split: sum.splits)

lemma validate_identity_expected:
  "validate_evidence_identity rt now identity True = None \<Longrightarrow> same_candidate expected identity \<Longrightarrow>
   validate_evidence_identity rt later expected False = None"
  by (auto simp: validate_evidence_identity_def problem_free same_candidate_def)

lemma check_sealed_manifest:
  assumes "validate_evidence_identity rt now identity True = None"
  shows "check_manifest rt is_print now expected (sealed_manifest identity files) = None \<longleftrightarrow> same_candidate identity expected"
proof -
  have "manifest_identity (sealed_manifest identity files) = identity" by (simp add: manifest_identity_def sealed_manifest_def)
  then show ?thesis using assms
    by (simp add: check_manifest_def problem_free same_candidate_def) (simp add: sealed_manifest_def)
qed

text \<open>
  C23: The seal on the release evidence holds. Let the documents be sealed for a candidate, whatever the host
  does meanwhile. Later, on a host without faults where the manifest is as it was written and the
  documents are there in some state, verification for the same candidate succeeds exactly if
  every required document has the digest it had when it was sealed; for another repository, version,
  commit or tree it fails.
\<close>

theorem evidence_seal_detects_change:
  assumes sealed: "write_evidence_manifest rt g directory identity w = (Inr d, w1)" and keys: "resolve g = resolve h"
    and before: "evidence_present h (w_files w) directory contents"
    and codec: "manifest_reads_back rt identity contents"
    and time: "mono (rt_now rt)" "w_clock w \<le> w_clock v"
    and quiet: "quiet_host h"
    and kept: "w_files v (resolve h (path_join directory evidence_manifest_name))
        = w_files w1 (resolve h (path_join directory evidence_manifest_name))"
    and after: "evidence_present h (w_files v) directory now_contents"
  shows "fst (verify_evidence_manifest rt is_print h directory expected v) = None
    \<longleftrightarrow> same_candidate identity expected
      \<and> (\<forall>name\<in>set required_evidence_files. rt_digest rt (now_contents name) = rt_digest rt (contents name))"
proof -
  have "evidence_present g (w_files w) directory contents" using before keys by (simp add: evidence_present_def)
  from write_evidence_manifest_Inr [OF sealed this] obtain c where c:
      "validate_evidence_identity rt (rt_now rt (w_clock w)) identity True = None"
      "rt_encode_manifest rt (sealed_manifest identity (evidence_digests rt contents)) = Inr c"
      "w_files v (resolve h (path_join directory evidence_manifest_name)) = Some (RegularFile 292 (c @ [LF]))"
    using kept keys by auto
  have law: "length (c @ [LF]) \<le> maximum_evidence_bytes"
      "decode_strict rt (rt_decode_manifest rt (c @ [LF])) = Inr (sealed_manifest identity (evidence_digests rt contents))"
    using codec c(2) by (auto simp: manifest_reads_back_def decode_strict_def require_json_eof_def)
  obtain v1 where r: "read_evidence_file h (path_join directory evidence_manifest_name) True v = (Inr (c @ [LF]), v1)"
      "w_files v1 = w_files v" "w_clock v \<le> w_clock v1"
    using quiet_read_evidence_file [OF quiet c(3)] law(1) by auto
  have "rt_now rt (w_clock w) \<le> rt_now rt (w_clock v1)" using time r(3) by (simp add: monoD)
  note check = check_sealed_manifest [OF validate_identity_later [OF c(1) this]]
  obtain v2 where i: "inspect_evidence_files rt h directory v1 = (Inr (evidence_digests rt now_contents), v2)"
    using quiet_inspect_evidence_files [OF quiet, of v1 directory now_contents rt] after r(2) by auto
  have len: "length (evidence_digests rt contents) = length (evidence_digests rt now_contents)" by (simp add: evidence_digests_def)
  have same: "evidence_digests rt contents = evidence_digests rt now_contents
      \<longleftrightarrow> (\<forall>name\<in>set required_evidence_files. rt_digest rt (now_contents name) = rt_digest rt (contents name))"
    by (auto simp: evidence_digests_def)
  have files: "em_files (sealed_manifest identity (evidence_digests rt contents)) = evidence_digests rt contents"
    by (simp add: sealed_manifest_def)
  have expected: "same_candidate identity expected \<Longrightarrow> validate_evidence_identity rt (rt_now rt (w_clock v)) expected False = None"
    using validate_identity_expected [OF c(1)] by (simp add: same_candidate_def)
  show ?thesis
    using expected r(1) law(2) check [of is_print expected "evidence_digests rt contents"] i compare_files_None [OF len] same files len
    by (auto simp: verify_evidence_manifest_def split: option.split)
qed

end
