(* ===== verification/Release_Samples.thy ===== *)
theory Release_Samples
  imports Release_Receipts
begin

section \<open>The release tools at work: examples\<close>

text \<open>
  Libraries simple enough to compute with that satisfy the laws (a digest, codecs for the documents, archives
  that are read back), a release, and the facts about the tools applied to it.
\<close>

subsection \<open>Libraries that read back what they write\<close>

fun put_field :: "bytes \<Rightarrow> bytes" where
  "put_field [] = [CHR 0x00]"
| "put_field (b # s) = CHR 0x01 # b # put_field s"

fun take_field :: "bytes \<Rightarrow> bytes \<times> bytes" where
  "take_field (c # b # s) = (if c = CHR 0x01 then (case take_field s of (f, r) \<Rightarrow> (b # f, r)) else ([], b # s))"
| "take_field s = ([], [])"

lemma take_put_field [simp]: "take_field (put_field s @ r) = (s, r)"
proof (induction s)
  case Nil
  then show ?case by (cases r) simp_all
qed simp

definition put_item :: "bytes \<times> archive_member \<Rightarrow> bytes" where
  "put_item item = (case item of (name, m) \<Rightarrow>
     put_field name @ put_field (replicate (am_mode m) (CHR ''.'')) @ put_field (am_data m))"

fun take_items :: "nat \<Rightarrow> bytes \<Rightarrow> tar_item list" where
  "take_items 0 s = []"
| "take_items (Suc n) s =
     (if s = [] then []
      else (case take_field s of (name, s) \<Rightarrow> case take_field s of (mode, s) \<Rightarrow> case take_field s of (data, s) \<Rightarrow>
        member_item (name, \<lparr>am_name = [], am_mode = length mode, am_data = data\<rparr>) # take_items n s))"

lemma length_put_field: "length (put_field s) = 2 * length s + 1"
  by (induction s) simp_all

lemma take_put_items: "length items \<le> n \<Longrightarrow> take_items n (concat (map put_item items)) = map member_item items"
proof (induction n arbitrary: items)
  case (Suc n)
  show ?case
  proof (cases items)
    case (Cons i more_items)
    obtain name m where i: "i = (name, m)" by fastforce
    have "put_field name \<noteq> []" by (cases name) simp_all
    then show ?thesis using Suc Cons i by (simp add: put_item_def member_item_def)
  qed simp
qed simp

definition sample_release_tools :: release_tools where
  "sample_release_tools =
     \<lparr>rt_digest = (\<lambda>s. replicate 64 (CHR ''a'')),
      rt_encode_build = (\<lambda>b. Inr (bu_binary_sha256 b)),
      rt_decode_build = (\<lambda>c. Inr (\<lparr>bu_schema_version = 1, bu_version = ''v1.0.0'', bu_commit = replicate 40 (CHR ''a''),
        bu_tree = replicate 40 (CHR ''b''), bu_go_version = ''go1.26.7'', bu_goos = ''darwin'', bu_goarch = ''arm64'',
        bu_binary_sha256 = butlast c, bu_unsigned_binary_sha256 = [], bu_unsigned_archive_sha256 = [],
        bu_signing_identifier = []\<rparr>, [LF])),
      rt_encode_spdx = (\<lambda>d. Inr (sc_value (hd (sp_checksums (hd (sd_packages d)))))),
      rt_decode_spdx = (\<lambda>c. Inr (\<lparr>sd_spdx_version = ''SPDX-2.3'', sd_data_license = ''CC0-1.0'',
        sd_spdx_id = ''SPDXRef-DOCUMENT'', sd_name = ''himesan-v1.0.0-darwin-arm64'',
        sd_document_namespace = ''https://sandwichhime.com/spdx/himesan/v1.0.0/'' @ replicate 40 (CHR ''a'') @ ''/darwin-arm64'',
        sd_created = ''2026-01-01T00:00:00Z'', sd_creators = [''Organization: Gamertan''],
        sd_packages = [\<lparr>sp_name = ''himesan'', sp_spdx_id = ''SPDXRef-Package-himesan'', sp_version_info = ''v1.0.0'',
          sp_download_location = ''NOASSERTION'', sp_files_analyzed = False, sp_license_concluded = ''AGPL-3.0-only'',
          sp_license_declared = ''AGPL-3.0-only'',
          sp_checksums = [\<lparr>sc_algorithm = ''SHA256'', sc_value = butlast c\<rparr>]\<rparr>]\<rparr>, [LF])),
      rt_encode_receipt = (\<lambda>r. Inr (re_goos r)), rt_decode_receipt = (\<lambda>c. Inl ''not JSON''),
      rt_encode_manifest = (\<lambda>m. Inr ''{}''), rt_decode_manifest = (\<lambda>c. Inl ''not JSON''),
      rt_encode_signing = (\<lambda>s. Inr ''{}''),
      rt_decode_next = (\<lambda>s. DecodedEnd),
      rt_parse_time = (\<lambda>s. Inr 0), rt_format_time = (\<lambda>t. ''2026-01-01T00:00:00Z''), rt_now = (\<lambda>t. 0),
      rt_header_fault = (\<lambda>name. None),
      rt_archive = (\<lambda>modified items. CHR ''A'' # concat (map put_item items)),
      rt_gunzip = (\<lambda>s. if s = [] then Inl ''unexpected EOF'' else Inr (tl s, None, None)),
      rt_untar = (\<lambda>s fault. take_items (length s) s),
      rt_range = (\<lambda>names. names)\<rparr>"

definition sample_package :: package_options where
  "sample_package =
     \<lparr>po_version = ''v1.0.0'', po_commit = replicate 40 (CHR ''a''), po_tree = replicate 40 (CHR ''b''),
      po_go_version = ''go1.26.7'', po_goos = ''darwin'', po_goarch = ''arm64'', po_binary_path = ''/b'', po_license_path = ''/l'',
      po_release_notes = ''/n'', po_output_directory = ''/o'', po_source_date_epoch = 1\<rparr>"

definition sample_release_files :: files where
  "sample_release_files = [''/b'' \<mapsto> RegularFile 493 ''binary'', ''/l'' \<mapsto> RegularFile 420 ''terms'', ''/n'' \<mapsto> RegularFile 420 ''notes'',
     ''/o'' \<mapsto> Directory 493 [], ''/x'' \<mapsto> Directory 493 []]"

lemma concat_items_length:
  "(\<forall>(name, m)\<in>set items. length name \<le> 100 \<and> am_mode m < 512) \<Longrightarrow>
   length (concat (map put_item items)) \<le> 2 * (\<Sum>(name, m)\<leftarrow>items. length (am_data m) + 1023) \<and> length items \<le> length (concat (map put_item items))"
  by (induction items) (auto simp: put_item_def length_put_field)

lemma sample_archives: "archives_read_back sample_release_tools"
proof -
  have "rt_archive sample_release_tools modified items \<noteq> [] \<and> length (rt_archive sample_release_tools modified items) \<le> maximum_native_archive
     \<and> (\<exists>stream. rt_gunzip sample_release_tools (rt_archive sample_release_tools modified items) = Inr (stream, None, None)
          \<and> length stream \<le> maximum_native_archive \<and> rt_untar sample_release_tools stream None = map member_item items)"
    if s: "small_archive modified items" for modified items
  proof -
    have l: "length (concat (map put_item items)) \<le> 2 * (\<Sum>(name, m)\<leftarrow>items. length (am_data m) + 1023)"
        "length items \<le> length (concat (map put_item items))"
      using concat_items_length [of items] s by (auto simp: small_archive_def)
    have "2 * (\<Sum>(name, m)\<leftarrow>items. length (am_data m) + 1023) + 2048 \<le> maximum_native_archive"
      using s unfolding small_archive_def by linarith
    then show ?thesis using l take_put_items [OF l(2)] by (auto simp: sample_release_tools_def)
  qed
  then show ?thesis by (simp add: archives_read_back_def)
qed

lemma sample_patterns:
  "matches digest_pattern (replicate 64 (CHR ''a''))" "matches git_object_pattern (replicate 40 (CHR ''a''))"
  "matches git_object_pattern (replicate 40 (CHR ''b''))" "matches release_version_pattern ''v1.0.0''"
  "matches go_version_pattern ''go1.26.7''" "matches platform_pattern ''darwin''" "matches platform_pattern ''arm64''"
proof -
  have hex: "lower_hex (CHR ''a'')" "lower_hex (CHR ''b'')" by (simp_all add: lower_hex_def)
  then show "matches digest_pattern (replicate 64 (CHR ''a''))" by (simp add: digest_pattern_def list_all_iff)
  have "matches git_object_pattern (replicate 40 b)" if "lower_hex b" for b
  proof -
    have "replicate 40 b = replicate 40 b @ []" "matches (Times 40 (Class lower_hex)) (replicate 40 b)"
      using that by (simp_all add: list_all_iff)
    moreover have "matches (At_most 24 (Class lower_hex)) []" by simp
    ultimately show ?thesis unfolding git_object_pattern_def matches_Sequence by blast
  qed
  then show "matches git_object_pattern (replicate 40 (CHR ''a''))" "matches git_object_pattern (replicate 40 (CHR ''b''))"
    using hex by blast+
  show "matches release_version_pattern ''v1.0.0''" "matches go_version_pattern ''go1.26.7''"
    by (simp_all add: go_eval release_version_pattern_def tagged_compiler_version_pattern_def number_pattern_def
        go_version_pattern_def three_numbers_def is_digit_def)
  show "matches platform_pattern ''darwin''" "matches platform_pattern ''arm64''"
    by (simp_all add: platform_pattern_def platform_char_def is_digit_def)
qed

lemma sample_laws:
  "documents_read_back sample_release_tools sample_package" "visits_members sample_release_tools"
  "\<forall>s. matches digest_pattern (rt_digest sample_release_tools s)" "signable sample_package" "quiet_host sample_host"
proof -
  have len: "length d = 64" if "matches digest_pattern d" for d using that by (simp add: digest_pattern_def)
  show "documents_read_back sample_release_tools sample_package"
    using len by (auto simp: documents_read_back_def sample_release_tools_def sample_package_def build_information_def bill_of_materials_def)
  show "visits_members sample_release_tools" by (simp add: visits_members_def sample_release_tools_def unsigned_package_members_def)
  show "\<forall>s. matches digest_pattern (rt_digest sample_release_tools s)" using sample_patterns(1) by (simp add: sample_release_tools_def)
  show "signable sample_package" by (simp add: signable_def sample_package_def)
  show "quiet_host sample_host" by (simp add: quiet_host_def sample_host_def)
qed

lemma sample_package_valid: "validate_package_options sample_release_tools sample_package = None"
proof -
  have "first_blank sample_release_tools
      [(''version'', ''v1.0.0''), (''commit'', replicate 40 (CHR ''a'')), (''tree'', replicate 40 (CHR ''b'')), (''go version'', ''go1.26.7''),
       (''GOOS'', ''darwin''), (''GOARCH'', ''arm64''), (''binary'', ''/b''), (''license'', ''/l''), (''release notes'', ''/n''),
       (''output directory'', ''/o'')] = None"
    by (simp add: first_blank_def sample_release_tools_def problem_free go_eval)
  then show ?thesis
    using sample_patterns(2-) by (simp add: validate_package_options_def problem_free sample_package_def del: replicate.simps replicate_numeral)
qed

definition sample_release_world :: world where
  "sample_release_world = \<lparr>w_files = sample_release_files, w_clock = 0\<rparr>"

abbreviation sample_archive_path :: bytes where "sample_archive_path \<equiv> ''/o/himesan-1.0.0-darwin-arm64.tar.gz''"

lemma sample_package_run:
  "\<exists>w1 archive sums. package_release sample_release_tools sample_host sample_package sample_release_world
      = (Inr (sample_archive_path, replicate 64 (CHR ''a'')), w1)
    \<and> w_files w1 = sample_release_files(sample_archive_path \<mapsto> RegularFile 292 archive,
        ''/o/himesan-1.0.0-darwin-arm64.tar.gz.sha256'' \<mapsto> RegularFile 292 sums)"
proof -
  note quiet = sample_laws(5)
  have base: "package_base sample_package = ''himesan-1.0.0-darwin-arm64''" by (simp add: sample_package_def package_base_def go_eval)
  have path: "sample_archive_path = path_join (po_output_directory sample_package) (package_base sample_package @ ''.tar.gz'')"
    unfolding base by (simp add: sample_package_def go_eval)
  have plain: "plain_part (package_base sample_package)" unfolding base by (simp add: plain_part_def)
  have keys: "resolve sample_host sample_archive_path = sample_archive_path"
      "resolve sample_host (sample_archive_path @ ''.sha256'') = ''/o/himesan-1.0.0-darwin-arm64.tar.gz.sha256''"
      "resolve sample_host ''/b'' = ''/b''" "resolve sample_host ''/l'' = ''/l''" "resolve sample_host ''/n'' = ''/n''"
      "resolve sample_host ''/o'' = ''/o''"
    by (simp_all add: sample_host_def go_eval)
  have paths: "po_binary_path sample_package = ''/b''" "po_license_path sample_package = ''/l''"
      "po_release_notes sample_package = ''/n''" "po_output_directory sample_package = ''/o''" by (simp_all add: sample_package_def)
  have files: "w_files sample_release_world = sample_release_files" by (simp add: sample_release_world_def)
  obtain w1 where one: "read_input sample_host ''binary'' ''/b'' sample_release_world = (Inr ''binary'', w1)" "w_files w1 = sample_release_files"
    using quiet_read_input [OF quiet, of sample_release_world "''/b''" 493 "''binary''"] files keys by (auto simp: sample_release_files_def)
  obtain w2 where two: "read_input sample_host ''license'' ''/l'' w1 = (Inr ''terms'', w2)" "w_files w2 = sample_release_files"
    using quiet_read_input [OF quiet, of w1 "''/l''" 420 "''terms''"] one keys by (auto simp: sample_release_files_def)
  obtain w3 where three: "read_input sample_host ''release notes'' ''/n'' w2 = (Inr ''notes'', w3)" "w_files w3 = sample_release_files"
    using quiet_read_input [OF quiet, of w2 "''/n''" 420 "''notes''"] two keys by (auto simp: sample_release_files_def)
  let ?d = "rt_digest sample_release_tools ''binary''"
  obtain info sbom where docs: "rt_encode_build sample_release_tools (build_information sample_package ?d) = Inr info"
      "rt_encode_spdx sample_release_tools (bill_of_materials sample_release_tools sample_package ?d) = Inr sbom" by (simp add: sample_release_tools_def)
  let ?ms = "archive_members sample_release_tools (info @ [LF]) ''terms'' ''notes'' (sbom @ [LF]) ''binary''"
  have free: "w_files w3 (resolve sample_host sample_archive_path) = None"
      "w_files w3 (resolve sample_host (sample_archive_path @ ''.sha256'')) = None"
      "w_files w3 (resolve sample_host (po_output_directory sample_package)) = Some (Directory 493 [])"
    using three(2) unfolding keys paths by (simp_all add: sample_release_files_def)
  have names: "\<forall>m\<in>set ?ms. rt_header_fault sample_release_tools (package_base sample_package @ ''/'' @ am_name m) = None"
    by (simp add: sample_release_tools_def)
  obtain w4 sums where four: "write_package sample_release_tools sample_host sample_package ?ms w3
        = (Inr (sample_archive_path, rt_digest sample_release_tools (packed_archive sample_release_tools sample_package ?ms)), w4)"
      "w_files w4 = (w_files w3)(resolve sample_host sample_archive_path \<mapsto> RegularFile 292 (packed_archive sample_release_tools sample_package ?ms),
        resolve sample_host (sample_archive_path @ ''.sha256'') \<mapsto> RegularFile 292 sums)"
    using quiet_write_package [OF quiet free(3) path plain free(1,2) names] by blast
  have digest: "rt_digest sample_release_tools s = replicate 64 (CHR ''a'')" for s by (simp add: sample_release_tools_def)
  have "package_release sample_release_tools sample_host sample_package sample_release_world
      = (Inr (sample_archive_path, replicate 64 (CHR ''a'')), w4)"
    using sample_package_valid one(1) two(1) three(1) docs four(1)
    by (simp add: package_release_def paths Let_def indented_json_def digest del: replicate.simps replicate_numeral)
  then show ?thesis using four(2) unfolding keys three(2) by blast
qed

theorem package_extract_roundtrip_witness:
  "\<exists>w1 w2. package_release sample_release_tools sample_host sample_package sample_release_world
      = (Inr (sample_archive_path, replicate 64 (CHR ''a'')), w1)
    \<and> extract_verified_macos_package sample_release_tools (\<lambda>r. True) sample_host sample_archive_path (replicate 64 (CHR ''a'')) ''/x'' w1
        = (Inr ''/x/himesan-1.0.0-darwin-arm64'', w2)
    \<and> w_files w2 ''/x/himesan-1.0.0-darwin-arm64/himesan'' = Some (RegularFile 365 ''binary'')"
proof -
  obtain w1 archive sums where run: "package_release sample_release_tools sample_host sample_package sample_release_world
      = (Inr (sample_archive_path, replicate 64 (CHR ''a'')), w1)"
    and fs: "w_files w1 = sample_release_files(sample_archive_path \<mapsto> RegularFile 292 archive,
        ''/o/himesan-1.0.0-darwin-arm64.tar.gz.sha256'' \<mapsto> RegularFile 292 sums)"
    using sample_package_run by blast
  have base: "package_base sample_package = ''himesan-1.0.0-darwin-arm64''" by (simp add: sample_package_def package_base_def go_eval)
  have out: "path_join ''/x'' ''himesan-1.0.0-darwin-arm64'' = ''/x/himesan-1.0.0-darwin-arm64''" by (simp add: go_eval)
  have keys: "resolve sample_host ''/x'' = ''/x''"
      "resolve sample_host ''/x/himesan-1.0.0-darwin-arm64'' = ''/x/himesan-1.0.0-darwin-arm64''"
      "resolve sample_host ''/b'' = ''/b''" "resolve sample_host ''/l'' = ''/l''" "resolve sample_host ''/n'' = ''/n''"
    by (simp_all add: sample_host_def go_eval)
  have paths: "po_binary_path sample_package = ''/b''" "po_license_path sample_package = ''/l''"
      "po_release_notes sample_package = ''/n''" by (simp_all add: sample_package_def)
  have inputs: "w_files sample_release_world (resolve sample_host (po_binary_path sample_package)) = Some (RegularFile 493 ''binary'')"
      "w_files sample_release_world (resolve sample_host (po_license_path sample_package)) = Some (RegularFile 420 ''terms'')"
      "w_files sample_release_world (resolve sample_host (po_release_notes sample_package)) = Some (RegularFile 420 ''notes'')"
    by (simp_all add: paths keys sample_release_world_def sample_release_files_def)
  have x: "w_files w1 (resolve sample_host ''/x'') = Some (Directory 493 [])" by (simp add: fs keys sample_release_files_def)
  have free: "\<forall>k. below (resolve sample_host (path_join ''/x'' (package_base sample_package))) k \<longrightarrow> w_files w1 k = None"
    unfolding base out keys by (auto simp: fs sample_release_files_def below_def)
  have small: "length ''binary'' + length ''terms'' + length ''notes'' \<le> (100000000 :: nat)" by simp
  show ?thesis
    using package_extract_roundtrip [OF sample_laws(5) sample_archives sample_laws(1-4) run refl inputs small x free, of "\<lambda>r. True"]
      run unfolding base out keys by auto
qed

text \<open>The archive of the release as it lies there, extracted into a directory of its own.\<close>

lemma sample_extraction:
  "\<exists>w archive w2. w_files w ''/a'' = Some (RegularFile 292 archive)
    \<and> extract_verified_macos_package sample_release_tools (\<lambda>r. True) sample_host ''/a'' (replicate 64 (CHR ''a'')) ''/x'' w
        = (Inr ''/x/himesan-1.0.0-darwin-arm64'', w2)"
proof -
  let ?d = "rt_digest sample_release_tools ''binary''"
  obtain info sbom where docs: "rt_encode_build sample_release_tools (build_information sample_package ?d) = Inr info"
      "rt_encode_spdx sample_release_tools (bill_of_materials sample_release_tools sample_package ?d) = Inr sbom" by (simp add: sample_release_tools_def)
  let ?archive = "packed_archive sample_release_tools sample_package
      (archive_members sample_release_tools (info @ [LF]) ''terms'' ''notes'' (sbom @ [LF]) ''binary'')"
  let ?w = "\<lparr>w_files = [''/a'' \<mapsto> RegularFile 292 ?archive, ''/x'' \<mapsto> Directory 493 []], w_clock = 0\<rparr>"
  have base: "package_base sample_package = ''himesan-1.0.0-darwin-arm64''" by (simp add: sample_package_def package_base_def go_eval)
  have out: "path_join ''/x'' ''himesan-1.0.0-darwin-arm64'' = ''/x/himesan-1.0.0-darwin-arm64''" by (simp add: go_eval)
  have keys: "resolve sample_host ''/x'' = ''/x''" "resolve sample_host ''/a'' = ''/a''"
      "resolve sample_host ''/x/himesan-1.0.0-darwin-arm64'' = ''/x/himesan-1.0.0-darwin-arm64''"
    by (simp_all add: sample_host_def go_eval)
  have digest: "rt_digest sample_release_tools ?archive = replicate 64 (CHR ''a'')" by (simp add: sample_release_tools_def)
  have small: "length ''binary'' + length ''terms'' + length ''notes'' \<le> (100000000 :: nat)" by simp
  have there: "w_files ?w (resolve sample_host ''/a'') = Some (RegularFile 292 ?archive)"
      "w_files ?w (resolve sample_host ''/x'') = Some (Directory 493 [])" by (simp_all add: keys)
  have free: "\<forall>k. below (resolve sample_host (path_join ''/x'' (package_base sample_package))) k \<longrightarrow> w_files ?w k = None"
    unfolding base out keys by (auto simp: below_def)
  obtain w2 where "extract_verified_macos_package sample_release_tools (\<lambda>r. True) sample_host ''/a'' (rt_digest sample_release_tools ?archive) ''/x'' ?w
      = (Inr (path_join ''/x'' (package_base sample_package)), w2)"
    using extract_packed [OF sample_laws(5) sample_archives sample_laws(1-4) sample_package_valid docs small refl there free] by blast
  then show ?thesis using there(1) unfolding digest base out keys by blast
qed

theorem extracted_package_safe_witness:
  "\<exists>w members w2. extract_verified_macos_package sample_release_tools (\<lambda>r. True) sample_host ''/a'' (replicate 64 (CHR ''a'')) ''/x'' w
        = (Inr ''/x/himesan-1.0.0-darwin-arm64'', w2)
    \<and> extracted_files ''/x/himesan-1.0.0-darwin-arm64'' members (w_files w2)
    \<and> w_files w2 ''/x/other'' = w_files w ''/x/other''"
proof -
  obtain w w2 where run: "extract_verified_macos_package sample_release_tools (\<lambda>r. True) sample_host ''/a'' (replicate 64 (CHR ''a'')) ''/x'' w
        = (Inr ''/x/himesan-1.0.0-darwin-arm64'', w2)"
    using sample_extraction by blast
  have key: "resolve sample_host ''/x/himesan-1.0.0-darwin-arm64'' = ''/x/himesan-1.0.0-darwin-arm64''"
    by (simp add: sample_host_def go_eval)
  have success: "\<exists>members. extracted_files (resolve sample_host q) members (w_files v')
      \<and> changes_only (insert (resolve sample_host q) (member_keys (resolve sample_host q) (map fst unsigned_package_members)))
          (w_files v) (w_files v')"
    if "extract_verified_macos_package sample_release_tools (\<lambda>r. True) sample_host archive_path d out v = (Inr q, v')" for archive_path d out v q v'
    using extracted_package_safe [OF that sample_laws(2)] by auto
  then obtain members where m: "extracted_files ''/x/himesan-1.0.0-darwin-arm64'' members (w_files w2)"
      "changes_only (insert ''/x/himesan-1.0.0-darwin-arm64''
         (member_keys ''/x/himesan-1.0.0-darwin-arm64'' (map fst unsigned_package_members))) (w_files w) (w_files w2)"
    using success [OF run] unfolding key by blast
  have "''/x/other'' \<notin> insert ''/x/himesan-1.0.0-darwin-arm64''
      (member_keys ''/x/himesan-1.0.0-darwin-arm64'' (map fst unsigned_package_members))"
    by (auto simp: member_keys_def)
  then have "w_files w2 ''/x/other'' = w_files w ''/x/other''" using m(2) by (simp add: changes_only_def)
  then show ?thesis using run m(1) by blast
qed

subsection \<open>Evidence\<close>

definition sample_identity :: evidence_identity where
  "sample_identity = \<lparr>ei_repository = ''r'', ei_version = ''v1.0.0'', ei_commit = replicate 40 (CHR ''a''),
     ei_tree = replicate 40 (CHR ''b''), ei_reviewed_by = ''n'', ei_reviewed_at = ''t''\<rparr>"

definition evidence_tools :: release_tools where
  "evidence_tools = sample_release_tools\<lparr>rt_digest := \<lambda>s. s, rt_decode_manifest := \<lambda>s. Inr (sealed_manifest sample_identity
     (map (\<lambda>name. \<lparr>ef_path = name, ef_sha256 = ''# a''\<rparr>) required_evidence_files), [LF])\<rparr>"

definition evidence_files_of :: "(bytes \<Rightarrow> bytes) \<Rightarrow> files" where
  "evidence_files_of contents =
     map_of ((''/e'', Directory 493 []) # map (\<lambda>name. (''/e/'' @ name, RegularFile 420 (contents name))) required_evidence_files)"

lemma evidence_keys:
  assumes "plain_part name" "name \<noteq> ''..''"
  shows "resolve sample_host (path_join ''/e'' name) = ''/e/'' @ name"
proof -
  have "path_join ''/'' ''e'' = ''/e''" "resolve sample_host ''/e'' = ''/e''" by (simp_all add: sample_host_def go_eval)
  then show ?thesis using package_keys(2) [of "''e''" name sample_host "''/''"] assms by (simp add: plain_part_def)
qed

lemma evidence_files_present:
  assumes "\<forall>name\<in>set required_evidence_files. contents name \<in> {''# a'', ''# b''}"
    and "\<forall>k. k \<noteq> ''/e/'' @ evidence_manifest_name \<longrightarrow> fs k = evidence_files_of contents k"
  shows "evidence_present sample_host fs ''/e'' contents"
proof -
  have names: "plain_part name \<and> name \<noteq> ''..''" "''/e/'' @ name \<noteq> ''/e/'' @ evidence_manifest_name"
    if "name \<in> set required_evidence_files" for name
    using that by (auto simp: required_evidence_files_def plain_part_def evidence_manifest_name_def)
  have "evidence_files_of contents (''/e/'' @ name) = Some (RegularFile 420 (contents name))"
    if "name \<in> set required_evidence_files" for name
    using that by (auto simp: required_evidence_files_def evidence_files_of_def)
  then have "fs (resolve sample_host (path_join ''/e'' name)) = Some (RegularFile 420 (contents name))"
    if "name \<in> set required_evidence_files" for name
    using that names evidence_keys assms(2) by (metis (no_types, lifting))
  moreover have "fs (resolve sample_host ''/e'') = Some (Directory 493 [])"
  proof -
    have "resolve sample_host ''/e'' = ''/e''" by (simp add: sample_host_def go_eval)
    then show ?thesis using assms(2) by (simp add: evidence_files_of_def evidence_manifest_name_def)
  qed
  moreover have "evidence_text s" if "s \<in> {''# a'', ''# b''}" for s
    using that by (auto simp: evidence_text_def maximum_evidence_bytes_def go_eval)
  ultimately show ?thesis using assms(1) unfolding evidence_present_def by blast
qed

lemma sample_identity_valid: "validate_evidence_identity evidence_tools now sample_identity True = None" if "0 \<le> now"
proof -
  have "one_line ''r''" "one_line ''n''" by (simp_all add: one_line_def go_eval)
  then show ?thesis using sample_patterns(2-4) that
    by (simp add: validate_evidence_identity_def problem_free sample_identity_def evidence_tools_def sample_release_tools_def five_minutes_def
        del: replicate.simps replicate_numeral)
qed

definition sealed_world :: world where
  "sealed_world = \<lparr>w_files = evidence_files_of (\<lambda>name. ''# a''), w_clock = 0\<rparr>"

lemma sample_seal:
  "\<exists>d w1. write_evidence_manifest evidence_tools sample_host ''/e'' sample_identity sealed_world = (Inr d, w1)
    \<and> (\<forall>k. k \<noteq> ''/e/'' @ evidence_manifest_name \<longrightarrow> w_files w1 k = evidence_files_of (\<lambda>name. ''# a'') k)"
proof -
  have present: "evidence_present sample_host (w_files sealed_world) ''/e'' (\<lambda>name. ''# a'')"
    by (rule evidence_files_present) (simp_all add: sealed_world_def)
  obtain w1 where i: "inspect_evidence_files evidence_tools sample_host ''/e'' sealed_world
      = (Inr (evidence_digests evidence_tools (\<lambda>name. ''# a'')), w1)" "w_files w1 = w_files sealed_world"
    using quiet_inspect_evidence_files [OF sample_laws(5) present] by blast
  have valid: "validate_evidence_identity evidence_tools (rt_now evidence_tools (w_clock sealed_world)) sample_identity True = None"
    by (rule sample_identity_valid) (simp add: evidence_tools_def sample_release_tools_def)
  have encode: "rt_encode_manifest evidence_tools m = Inr ''{}''" for m by (simp add: evidence_tools_def sample_release_tools_def)
  have key: "resolve sample_host (path_join ''/e'' evidence_manifest_name) = ''/e/'' @ evidence_manifest_name"
    by (rule evidence_keys) (simp_all add: plain_part_def evidence_manifest_name_def)
  have free: "w_files w1 (resolve sample_host (path_join ''/e'' evidence_manifest_name)) = None"
    unfolding key i(2) by (simp add: sealed_world_def evidence_files_of_def evidence_manifest_name_def required_evidence_files_def)
  obtain w2 where x: "write_exclusive sample_host (path_join ''/e'' evidence_manifest_name) (''{}'' @ [LF]) 292 w1 = (None, w2)"
      "w_files w2 = (w_files w1)(''/e/'' @ evidence_manifest_name \<mapsto> RegularFile 292 (''{}'' @ [LF]))"
    using quiet_write_exclusive [OF sample_laws(5) free] unfolding key by blast
  then show ?thesis using i valid encode
    by (simp add: write_evidence_manifest_def indented_json_def sealed_world_def)
qed

theorem evidence_seal_detects_change_witness:
  "\<exists>w1 fs. (\<exists>d. write_evidence_manifest evidence_tools sample_host ''/e'' sample_identity sealed_world = (Inr d, w1))
    \<and> fst (verify_evidence_manifest evidence_tools (\<lambda>r. True) sample_host ''/e'' sample_identity w1) = None
    \<and> fst (verify_evidence_manifest evidence_tools (\<lambda>r. True) sample_host ''/e'' sample_identity (w1\<lparr>w_files := fs\<rparr>)) \<noteq> None"
proof -
  obtain d w1 where seal: "write_evidence_manifest evidence_tools sample_host ''/e'' sample_identity sealed_world = (Inr d, w1)"
    and fs: "\<forall>k. k \<noteq> ''/e/'' @ evidence_manifest_name \<longrightarrow> w_files w1 k = evidence_files_of (\<lambda>name. ''# a'') k"
    using sample_seal by blast
  let ?key = "''/e/'' @ evidence_manifest_name"
  let ?changed = "\<lambda>name. if name = ''security.md'' then ''# b'' else ''# a''"
  let ?fs = "(evidence_files_of ?changed)(?key := w_files w1 ?key)"
  have before: "evidence_present sample_host (w_files sealed_world) ''/e'' (\<lambda>name. ''# a'')"
    by (rule evidence_files_present) (simp_all add: sealed_world_def)
  have kept: "evidence_present sample_host (w_files w1) ''/e'' (\<lambda>name. ''# a'')"
    by (rule evidence_files_present) (simp_all add: fs)
  have changed: "evidence_present sample_host (w_files (w1\<lparr>w_files := ?fs\<rparr>)) ''/e'' ?changed"
    by (rule evidence_files_present) simp_all
  have codec: "manifest_reads_back evidence_tools sample_identity (\<lambda>name. ''# a'')"
    by (simp add: manifest_reads_back_def evidence_tools_def sample_release_tools_def evidence_digests_def maximum_evidence_bytes_def)
  have mono: "mono (rt_now evidence_tools)" by (simp add: mono_def evidence_tools_def sample_release_tools_def)
  have start: "w_clock sealed_world = 0" by (simp add: sealed_world_def)
  have key: "resolve sample_host (path_join ''/e'' evidence_manifest_name) = ?key"
    by (rule evidence_keys) (simp_all add: plain_part_def evidence_manifest_name_def)
  have digest: "rt_digest evidence_tools s = s" for s by (simp add: evidence_tools_def)
  have one: "''security.md'' \<in> set required_evidence_files" by (simp add: required_evidence_files_def)
  have "fst (verify_evidence_manifest evidence_tools (\<lambda>r. True) sample_host ''/e'' sample_identity w1) = None"
    using evidence_seal_detects_change [OF seal refl before codec mono _ sample_laws(5) refl kept, of "\<lambda>r. True" sample_identity] start
    by (simp add: same_candidate_def)
  moreover have "w_files (w1\<lparr>w_files := ?fs\<rparr>) (resolve sample_host (path_join ''/e'' evidence_manifest_name))
      = w_files w1 (resolve sample_host (path_join ''/e'' evidence_manifest_name))" by (simp add: key)
  then have "fst (verify_evidence_manifest evidence_tools (\<lambda>r. True) sample_host ''/e'' sample_identity (w1\<lparr>w_files := ?fs\<rparr>)) \<noteq> None"
    using evidence_seal_detects_change [OF seal refl before codec mono _ sample_laws(5) _ changed, of "\<lambda>r. True" sample_identity] start one
    by (auto simp: digest)
  ultimately show ?thesis using seal by blast
qed

subsection \<open>Native receipts\<close>

definition sample_receipt :: "native_lane \<Rightarrow> receipt" where
  "sample_receipt lane = \<lparr>re_schema_version = receipt_schema, re_repository = ''r'', re_commit = replicate 40 (CHR ''a''),
     re_tree = replicate 40 (CHR ''b''), re_goos = nl_goos lane, re_goarch = nl_goarch lane, re_go_version = nl_go_version lane,
     re_runner_version = ''v1.0.0'', re_runner_name = nl_runner lane, re_generated_digest = replicate 64 (CHR ''a''),
     re_unsigned_artifact_sha = replicate 64 (CHR ''a''), re_successful_gates = required_native_gates, re_completed_at = ''t''\<rparr>"

text \<open>A receipt is written as the name of its lane.\<close>

definition receipt_tools :: release_tools where
  "receipt_tools = sample_release_tools\<lparr>rt_decode_receipt := \<lambda>s. (case find (\<lambda>l. nl_directory l = s) required_native_lanes of
     Some lane \<Rightarrow> Inr (sample_receipt lane, []) | None \<Rightarrow> Inl ''not JSON'')\<rparr>"

definition lane_files :: "native_lane \<Rightarrow> (bytes \<times> fs_entry) list" where
  "lane_files lane = [(''/e/'' @ nl_directory lane, Directory 493 [receipt_name, receipt_name @ ''.sha256'']),
     (''/e/'' @ nl_directory lane @ ''/'' @ receipt_name, RegularFile 292 (nl_directory lane)),
     (''/e/'' @ nl_directory lane @ ''/'' @ receipt_name @ ''.sha256'',
      RegularFile 292 (checksum_line receipt_tools receipt_name (nl_directory lane) @ [LF]))]"

definition receipts_world :: world where
  "receipts_world = \<lparr>w_files = map_of ((''/e'', Directory 493 (map nl_directory required_native_lanes))
     # concat (map lane_files required_native_lanes)), w_clock = 0\<rparr>"

definition sample_expectation :: native_expectation where
  "sample_expectation = \<lparr>ne_repository = ''r'', ne_commit = replicate 40 (CHR ''a''), ne_tree = replicate 40 (CHR ''b'')\<rparr>"

lemma lane_entries:
  assumes "lane \<in> set required_native_lanes"
  shows "w_files receipts_world (''/e/'' @ nl_directory lane) = Some (Directory 493 [receipt_name, receipt_name @ ''.sha256''])"
    and "w_files receipts_world (''/e/'' @ nl_directory lane @ ''/'' @ receipt_name) = Some (RegularFile 292 (nl_directory lane))"
    and "w_files receipts_world (''/e/'' @ nl_directory lane @ ''/'' @ receipt_name @ ''.sha256'')
      = Some (RegularFile 292 (checksum_line receipt_tools receipt_name (nl_directory lane) @ [LF]))"
  using assms by (auto simp: receipts_world_def lane_files_def required_native_lanes_def receipt_name_def)

lemma lane_paths:
  assumes "lane \<in> set required_native_lanes"
  shows "resolve sample_host (path_join ''/e'' (nl_directory lane)) = ''/e/'' @ nl_directory lane"
    and "resolve sample_host (path_join (path_join ''/e'' (nl_directory lane)) receipt_name) = ''/e/'' @ nl_directory lane @ ''/'' @ receipt_name"
    and "resolve sample_host (path_join (path_join ''/e'' (nl_directory lane)) (receipt_name @ ''.sha256''))
      = ''/e/'' @ nl_directory lane @ ''/'' @ receipt_name @ ''.sha256''"
    and "path_join (path_join ''/e'' (nl_directory lane)) (receipt_name @ ''.sha256'')
      = path_join (path_join ''/e'' (nl_directory lane)) receipt_name @ ''.sha256''"
proof -
  have lane: "plain_part (nl_directory lane)" "nl_directory lane \<noteq> ''..''"
    using assms by (auto simp: required_native_lanes_def plain_part_def)
  have names: "plain_part receipt_name" "receipt_name \<noteq> ''..''" "plain_part (receipt_name @ ''.sha256'')" "receipt_name @ ''.sha256'' \<noteq> ''..''"
    by (simp_all add: plain_part_def receipt_name_def)
  show "resolve sample_host (path_join ''/e'' (nl_directory lane)) = ''/e/'' @ nl_directory lane"
    using evidence_keys [OF lane] .
  then show "resolve sample_host (path_join (path_join ''/e'' (nl_directory lane)) receipt_name) = ''/e/'' @ nl_directory lane @ ''/'' @ receipt_name"
      "resolve sample_host (path_join (path_join ''/e'' (nl_directory lane)) (receipt_name @ ''.sha256''))
      = ''/e/'' @ nl_directory lane @ ''/'' @ receipt_name @ ''.sha256''"
    using package_keys(2) [OF lane names(1,2), of sample_host "''/e''"]
      package_keys(2) [OF lane names(3,4), of sample_host "''/e''"] by simp_all
  show "path_join (path_join ''/e'' (nl_directory lane)) (receipt_name @ ''.sha256'')
      = path_join (path_join ''/e'' (nl_directory lane)) receipt_name @ ''.sha256''"
    using package_keys(1) [OF lane names(1,2)] package_keys(1) [OF lane names(3,4)] by simp
qed

lemma sample_receipt_valid:
  assumes "lane \<in> set required_native_lanes"
  shows "decode_receipt receipt_tools (nl_directory lane) = Inr (sample_receipt lane)"
    and "check_receipt receipt_tools is_print 0 sample_expectation lane (sample_receipt lane) = None"
proof -
  have words: "nl_goos lane = ''darwin'' \<or> nl_goos lane = ''linux''" "nl_goarch lane = ''arm64'' \<or> nl_goarch lane = ''amd64''"
      "nl_go_version lane = ''go1.26.7'' \<or> nl_go_version lane = ''go1.27.0''"
      "nl_runner lane = ''macbook-air-himesan-darwin-arm64'' \<or> nl_runner lane = ''cliff-himesan-linux-amd64''"
    using assms by (auto simp: required_native_lanes_def)
  have platform: "matches platform_pattern ''linux''" "matches platform_pattern ''amd64''"
    by (simp_all add: platform_pattern_def platform_char_def is_digit_def)
  have go: "matches go_version_pattern ''go1.27.0''"
    by (simp add: go_eval go_version_pattern_def three_numbers_def number_pattern_def is_digit_def)
  have spaces: "trim_space ''darwin'' \<noteq> []" "trim_space ''linux'' \<noteq> []" "trim_space ''arm64'' \<noteq> []" "trim_space ''amd64'' \<noteq> []"
      "trim_space ''go1.26.7'' \<noteq> []" "trim_space ''go1.27.0'' \<noteq> []" "trim_space ''macbook-air-himesan-darwin-arm64'' \<noteq> []"
      "trim_space ''cliff-himesan-linux-amd64'' \<noteq> []" by (simp_all add: go_eval)
  have text_parts: "trim_space (nl_goos lane) \<noteq> []" "trim_space (nl_goarch lane) \<noteq> []" "trim_space (nl_go_version lane) \<noteq> []"
      "trim_space (nl_runner lane) \<noteq> []" "matches go_version_pattern (nl_go_version lane)"
      "matches platform_pattern (nl_goos lane)" "matches platform_pattern (nl_goarch lane)"
    using words spaces platform go sample_patterns(5-7) by metis+
  have blank: "trim_space ''r'' \<noteq> []" "trim_space ''v1.0.0'' \<noteq> []" "trim_space ''t'' \<noteq> []"
      "trim_space (replicate 40 (CHR ''a'')) \<noteq> []" "trim_space (replicate 40 (CHR ''b'')) \<noteq> []"
      "trim_space (replicate 64 (CHR ''a'')) \<noteq> []" by (simp_all add: go_eval)
  have "validate_receipt receipt_tools (sample_receipt lane) = None"
    using text_parts blank sample_patterns(1-3)
    by (simp add: validate_receipt_def problem_free first_blank_def sample_receipt_def receipt_tools_def sample_release_tools_def
        required_native_gates_def del: replicate.simps replicate_numeral)
  moreover have "find (\<lambda>l. nl_directory l = nl_directory lane) required_native_lanes = Some lane"
    using assms unfolding required_native_lanes_def set_simps insert_iff by (elim disjE) simp_all
  ultimately show "decode_receipt receipt_tools (nl_directory lane) = Inr (sample_receipt lane)"
    by (simp add: decode_receipt_def decode_strict_def receipt_tools_def sample_release_tools_def require_json_eof_def)
  have "require_native_gates is_print required_native_gates = None"
    by (simp add: require_native_gates_None required_native_gates_def)
  moreover have "matches runner_version_pattern ''v1.0.0''"
    by (simp add: go_eval runner_version_pattern_def three_numbers_def number_pattern_def is_digit_def)
  ultimately show "check_receipt receipt_tools is_print 0 sample_expectation lane (sample_receipt lane) = None"
    using sample_patterns(1) by (simp add: check_receipt_def problem_free sample_receipt_def sample_expectation_def receipt_tools_def
        sample_release_tools_def five_minutes_def native_receipt_maximum_age_def del: replicate.simps replicate_numeral)
qed

lemma quiet_read_regular_file:
  assumes "quiet_host h" and "w_files w (resolve h path) = Some (RegularFile perm c)" and "length c \<le> maximum"
  shows "\<exists>w'. read_regular_file h path maximum w = (Inr c, w') \<and> w_files w' = w_files w"
  using assms by (simp add: read_regular_file_def quiet_calls unsuitable_def read_file_def quiet_host_def numeral_eq_Suc tick_def)

lemma sample_lane_read:
  assumes lane: "lane \<in> set required_native_lanes" and fs: "w_files w = w_files receipts_world"
  shows "\<exists>w'. read_native_lane receipt_tools sample_host (path_join ''/e'' (nl_directory lane)) w
      = (Inr (sample_receipt lane, replicate 64 (CHR ''a'')), w') \<and> w_files w' = w_files receipts_world"
proof -
  let ?dir = "path_join ''/e'' (nl_directory lane)"
  note e = lane_entries [OF lane] and k = lane_paths [OF lane]
  have digest: "rt_digest receipt_tools s = replicate 64 (CHR ''a'')" for s by (simp add: receipt_tools_def sample_release_tools_def)
  have l: "lstat sample_host ?dir w = (Inr (Directory 493 [receipt_name, receipt_name @ ''.sha256'']), tick w)"
    using e(1) fs k(1) by (simp add: quiet_calls [OF sample_laws(5)])
  have sorted: "sort [receipt_name, receipt_name @ ''.sha256''] = [receipt_name, receipt_name @ ''.sha256'']"
    by (simp add: receipt_name_def)
  have r: "read_dir sample_host ?dir (tick w) = (Inr [receipt_name, receipt_name @ ''.sha256''], tick (tick w))"
    using e fs k sorted by (simp add: quiet_calls [OF sample_laws(5)])
  have small: "length (nl_directory lane) \<le> maximum_evidence_bytes" "nl_directory lane \<noteq> []"
      "length (checksum_line receipt_tools receipt_name (nl_directory lane) @ [LF]) \<le> 512"
    using lane by (auto simp: required_native_lanes_def maximum_evidence_bytes_def checksum_line_def digest receipt_name_def)
  obtain w1 where one: "read_regular_file sample_host (path_join ?dir receipt_name) maximum_evidence_bytes (tick (tick w))
      = (Inr (nl_directory lane), w1)" "w_files w1 = w_files receipts_world"
    using quiet_read_regular_file [OF sample_laws(5), of "tick (tick w)" "path_join ?dir receipt_name" 292] e(2) k(2) fs small(1) by auto
  obtain w2 where two: "read_regular_file sample_host (path_join ?dir receipt_name @ ''.sha256'') 512 w1
      = (Inr (checksum_line receipt_tools receipt_name (nl_directory lane) @ [LF]), w2)" "w_files w2 = w_files receipts_world"
    using quiet_read_regular_file [OF sample_laws(5), of w1 "path_join ?dir receipt_name @ ''.sha256''" 292 _ 512] e(3) k(3,4) one(2) small(3)
    by auto
  show ?thesis
    using l r one(1) two small(2) sample_receipt_valid(1) [OF lane]
    by (simp add: read_native_lane_def Let_def digest del: replicate.simps replicate_numeral)
qed

lemma sample_lanes_verified:
  "set lanes \<subseteq> set required_native_lanes \<Longrightarrow> generated \<in> {[], replicate 64 (CHR ''a'')} \<Longrightarrow> w_files w = w_files receipts_world \<Longrightarrow>
   \<exists>final summaries w'. verify_lanes receipt_tools is_print sample_host ''/e'' sample_expectation lanes generated w
     = (Inr (final, summaries), w')"
proof (induction lanes arbitrary: generated w)
  case (Cons lane lanes)
  have lane: "lane \<in> set required_native_lanes" using Cons.prems(1) by simp
  obtain w1 where one: "read_native_lane receipt_tools sample_host (path_join ''/e'' (nl_directory lane)) w
      = (Inr (sample_receipt lane, replicate 64 (CHR ''a'')), w1)" "w_files w1 = w_files receipts_world"
    using sample_lane_read [OF lane Cons.prems(3)] by blast
  have now: "rt_now receipt_tools t = 0" for t by (simp add: receipt_tools_def sample_release_tools_def)
  have generated: "re_generated_digest (sample_receipt lane) = replicate 64 (CHR ''a'')" by (simp add: sample_receipt_def)
  obtain final summaries w2 where "verify_lanes receipt_tools is_print sample_host ''/e'' sample_expectation lanes
      (replicate 64 (CHR ''a'')) w1 = (Inr (final, summaries), w2)"
    using Cons.IH [of "replicate 64 (CHR ''a'')" w1] Cons.prems(1) one(2) by auto
  then show ?case using one(1) sample_receipt_valid(2) [OF lane] now generated Cons.prems(2)
    by (auto simp del: replicate.simps replicate_numeral)
qed simp


end
