(* ===== verification/Operation_Results.thy ===== *)
theory Operation_Results
  imports Output_Files
begin

section \<open>Generate and Check are correct\<close>

text \<open>
  What the two operations promise: Generate writes only what it compiled, where it may, or nothing at
  all; it succeeds when nothing stands in its way; Check tells fresh, stale, missing and foreign
  outputs apart and writes nothing.
\<close>

subsection \<open>What compileOperation compiles\<close>

lemma module_loop_files: "w_files (snd (module_loop h absolute fuel dir w)) = w_files w"
  by (induction h absolute fuel dir w rule: module_loop.induct)
    (auto simp: Let_def split: prod.split option.split dest: lstat_same)

lemma module_path_files: "w_files (snd (module_relative_source_path h path w)) = w_files w"
proof (cases "absolute_path h path")
  case (Inr a)
  obtain m w1 where m: "module_loop h a (length a + 1) (path_dir a) w = (m, w1)" by fastforce
  then have "w_files w1 = w_files w" using module_loop_files [of h a "length a + 1" "path_dir a" w] by simp
  then show ?thesis using Inr m by (simp add: module_relative_source_path_def split: option.split)
qed (simp add: module_relative_source_path_def)

definition compiled_from :: "'d host \<Rightarrow> backend_env \<Rightarrow> files \<Rightarrow> compiled_file \<Rightarrow> bool" where
  \<comment> \<open>the result of compiling the content of its source, with the permissions of the source\<close>
  "compiled_from h env fs c =
     (\<exists>perm content mapping ds c'. entry_of h fs (compiled_source_path c) = Some (RegularFile perm content)
        \<and> compile_with_mapping env (compiled_source_path c) content mapping = (Some c', ds)
        \<and> c = c'\<lparr>compiled_source_mode := perm mod 512\<rparr>)"

lemma compile_with_mapping_path:
  "compile_with_mapping env p content mapping = (Some c, ds) \<Longrightarrow>
   compiled_source_path c = p \<and> compiled_output_path c = p @ ''.go''"
  by (auto simp: compile_with_mapping_def compile_file_def Let_def split: prod.splits option.splits if_splits)

lemma compile_source_ok:
  assumes run: "compile_source h env p w = ((out, ds), w')" and clean: "path_clean p = p"
  shows "w_files w' = w_files w"
    and "out = Some c \<Longrightarrow> compiled_source_path c = p \<and> compiled_output_path c = p @ ''.go''
      \<and> compiled_from h env (w_files w) c"
proof -
  obtain l w1 where l: "lstat h p w = (l, w1)" by fastforce
  obtain q w2 where q: "read_file h p w1 = (q, w2)" by fastforce
  obtain mp w3 where mp: "module_relative_source_path h p w2 = (mp, w3)" by fastforce
  have files: "w_files w1 = w_files w" "w_files w2 = w_files w" "w_files w3 = w_files w"
    using lstat_same [OF l] read_file_same [OF q] module_path_files [of h p w2] mp by auto
  show "w_files w' = w_files w"
    using run l q mp files by (auto simp: compile_source_def split: sum.splits if_splits prod.splits)
  assume out: "out = Some c"
  obtain entry where entry: "l = Inr entry" "\<not> unsuitable entry"
    using run l out by (auto simp: compile_source_def split: sum.splits if_splits)
  obtain perm content where regular: "entry = RegularFile perm content"
    using entry(2) by (cases entry) (auto simp: unsuitable_def)
  have here: "entry_of h (w_files w) p = Some (RegularFile perm content)"
    using lstat_Inr [OF l [unfolded entry(1)]] regular by simp
  obtain x where x: "q = Inr x" using run l q entry out by (auto simp: compile_source_def split: sum.splits)
  have "x = content" using read_file_content [OF q [unfolded x]] here files by simp
  then obtain c' ds' where c': "compile_with_mapping env p content mp = (Some c', ds')"
      "c = c'\<lparr>compiled_source_mode := perm mod 512\<rparr>"
    using run l q mp entry out x clean regular by (auto simp: compile_source_def split: prod.splits)
  then show "compiled_source_path c = p \<and> compiled_output_path c = p @ ''.go'' \<and> compiled_from h env (w_files w) c"
    using compile_with_mapping_path [OF c'(1)] here by (auto simp: compiled_from_def)
qed

definition clean_source :: "bytes \<Rightarrow> bool" where
  \<comment> \<open>the form of every path discovery finds\<close>
  "clean_source p = (path_clean p = p \<and> (\<exists>b. base_end b p))"

lemma source_output_key: "clean_source p \<Longrightarrow> resolve h (p @ ''.go'') = resolve h p @ ''.go''"
  by (auto simp: clean_source_def intro!: resolve_append)

lemma compile_sources_ok:
  "compile_sources h env ps w = ((outs, ds), w') \<Longrightarrow> list_all clean_source ps \<Longrightarrow> distinct (map (resolve h) ps) \<Longrightarrow>
   w_files w' = w_files w \<and> compiled_source_path ` set outs \<subseteq> set ps
   \<and> (\<forall>c\<in>set outs. compiled_output_path c = compiled_source_path c @ ''.go'' \<and> compiled_from h env (w_files w) c)
   \<and> distinct (map (\<lambda>c. resolve h (compiled_source_path c)) outs)"
proof (induction ps arbitrary: outs ds w w')
  case (Cons p ps)
  obtain x w1 where x: "ctx_err h w = (x, w1)" by fastforce
  have files1: "w_files w1 = w_files w" using ctx_err_files [of h w] x by simp
  show ?case
  proof (cases x)
    case (Some e)
    then show ?thesis using Cons.prems(1) x files1 by auto
  next
    case None
    obtain out ds1 w2 where c: "compile_source h env p w1 = ((out, ds1), w2)" by (metis prod_cases3 prod.collapse)
    obtain outs' ds2 w3 where cs: "compile_sources h env ps w2 = ((outs', ds2), w3)" by (metis prod_cases3 prod.collapse)
    have r: "outs = (case out of None \<Rightarrow> outs' | Some c \<Rightarrow> c # outs')" "w' = w3"
      using Cons.prems(1) x None c cs by auto
    have p: "path_clean p = p" using Cons.prems(2) by (simp add: clean_source_def)
    note one = compile_source_ok [OF c p, unfolded files1]
    note rest = Cons.IH [OF cs] 
    show ?thesis
      using r one rest Cons.prems(2,3) by (cases out) (auto simp: image_subset_iff image_iff)
  qed
qed simp

lemma requested_clean: "requested_source h fs q p \<Longrightarrow> clean_source p"
proof -
  assume req: "requested_source h fs q p"
  have ext: "path_ext b = ''.sando'' \<Longrightarrow> \<exists>c. base_end c b" for b
    by (erule path_ext_base_end) simp
  show "clean_source p"
  proof (cases "p = path_clean q \<and> path_ext p = ''.sando''")
    case True
    then show ?thesis using ext [of p] by (auto simp: clean_source_def)
  next
    case False
    then obtain dir name where p: "p = path_join dir name" "path_ext name = ''.sando''"
      using req by (auto simp: requested_source_def walk_source_def listed_def split: if_splits)
    obtain b where b: "base_end b name" using ext [OF p(2)] by blast
    then have "name \<noteq> []" by (auto simp: base_end_def plain_part_def)
    then have "path_clean p = p" using p(1) by (simp add: path_join_def)
    then show ?thesis using base_end_join [OF b, of dir] p(1) by (auto simp: clean_source_def)
  qed
qed

lemma distinct_map_sort_key [simp]: "distinct (map f (sort_key g xs)) = distinct (map f xs)"
  by (simp add: distinct_map)

lemma sort_key_map_result:
  "sort_key result_source_path (map new_file_result cs) = map new_file_result (sort_key compiled_source_path cs)"
proof -
  have "insort_key result_source_path (new_file_result c) (map new_file_result xs)
      = map new_file_result (insort_key compiled_source_path c xs)" for c xs
    by (induction xs) (simp_all add: new_file_result_def)
  then show ?thesis by (induction cs) simp_all
qed

lemma compile_operation_ok:
  assumes run: "compile_operation h env parse paths w = ((compiled, r), w1)"
  shows "w_files w1 = w_files w" and "separate_outputs h compiled"
    and "\<forall>c\<in>set compiled. compiled_from h env (w_files w) c \<and> compiled_output_path c = compiled_source_path c @ ''.go''
      \<and> (\<exists>q\<in>set (if paths = [] then [''.''] else paths). requested_source h (w_files w) q (compiled_source_path c))"
    and "op_files r = map new_file_result compiled" and "op_changed r = 0" "op_unchanged r = 0" "op_stale r = 0" "op_missing r = 0"
    and "sorted (map compiled_source_path compiled)"
proof -
  obtain found fds w2 where d: "discover h paths w = ((found, fds), w2)" by (metis prod_cases3 prod.collapse)
  note disc = discover_result [OF d [unfolded discover_def]]
  obtain outs ds w3 where c: "compile_sources h env found w2 = ((outs, ds), w3)" by (metis prod_cases3 prod.collapse)
  have clean: "list_all clean_source found" using disc requested_clean by (auto simp: list_all_iff)
  have cs: "w_files w3 = w_files w2 \<and> compiled_source_path ` set outs \<subseteq> set found
   \<and> (\<forall>c\<in>set outs. compiled_output_path c = compiled_source_path c @ ''.go'' \<and> compiled_from h env (w_files w2) c)
   \<and> distinct (map (\<lambda>c. resolve h (compiled_source_path c)) outs)"
    by (rule compile_sources_ok [OF c clean]) (use disc in blast)
  have parts: "compiled = sort_key compiled_source_path outs" "w1 = w3"
    "r = \<lparr>op_files = sort_key result_source_path (map new_file_result outs),
              op_diagnostics = sort_diagnostics (fds @ ds @ detect_component_cycles parse outs),
              op_discovered = length found, op_changed = 0, op_unchanged = 0, op_stale = 0, op_missing = 0\<rparr>"
    using run d c by (auto simp: compile_operation_def)
  show "w_files w1 = w_files w" using parts cs disc by simp
  have key: "output_key h c = resolve h (compiled_source_path c) @ ''.go''" if "c \<in> set outs" for c
  proof -
    have "clean_source (compiled_source_path c)" using that cs clean by (auto simp: list_all_iff)
    then show ?thesis using source_output_key that cs by auto
  qed
  have "map (output_key h) outs = map (\<lambda>c. resolve h (compiled_source_path c) @ ''.go'') outs"
    using key by (rule map_cong [OF refl])
  moreover have "distinct (map (\<lambda>c. resolve h (compiled_source_path c) @ ''.go'') outs)"
    using cs by (auto simp: distinct_map inj_on_def)
  ultimately have "distinct (map (output_key h) outs)" by (simp only:)
  then show "separate_outputs h compiled"
    using key parts(1) by (simp add: separate_outputs_def)
  show "\<forall>c\<in>set compiled. compiled_from h env (w_files w) c \<and> compiled_output_path c = compiled_source_path c @ ''.go''
      \<and> (\<exists>q\<in>set (if paths = [] then [''.''] else paths). requested_source h (w_files w) q (compiled_source_path c))"
    using cs disc parts(1) by (auto simp: image_subset_iff)
  show "op_files r = map new_file_result compiled" "op_changed r = 0" "op_unchanged r = 0" "op_stale r = 0" "op_missing r = 0"
    using parts sort_key_map_result by simp_all
  show "sorted (map compiled_source_path compiled)" using parts(1) by simp
qed

lemma generate_compiled_ok:
  assumes run: "generate_compiled h compiled r0 w = (r, w')" and sep: "separate_outputs h compiled"
  shows "(\<exists>c\<in>set compiled. \<not> owned_or_absent (w_files w (output_key h c))) \<or> has_errors (op_diagnostics r0) \<Longrightarrow>
      w_files w' = w_files w \<and> has_errors (op_diagnostics r)"
    and "generate_effect h compiled (has_errors (op_diagnostics r)) (w_files w) (w_files w')"
    and "\<not> has_errors (op_diagnostics r) \<Longrightarrow>
      (\<forall>c\<in>set compiled. fresh_output c (w_files w' (output_key h c)))
      \<and> op_changed r + op_unchanged r = op_changed r0 + op_unchanged r0 + length compiled"
proof -
  obtain ds w1 where v: "validate_outputs h compiled w = (ds, w1)" by fastforce
  note valid = validate_outputs_ok [OF v]
  define r1 where "r1 = sort_result (r0\<lparr>op_diagnostics := op_diagnostics r0 @ ds\<rparr>)"
  have r1: "has_errors (op_diagnostics r1) = (has_errors (op_diagnostics r0) \<or> has_errors ds)"
      "op_changed r1 = op_changed r0" "op_unchanged r1 = op_unchanged r0"
    by (simp_all add: r1_def sort_result_def)
  obtain r2 w2 where o: "write_outputs h 0 compiled r1 w1 = (r2, w2)" by fastforce
  consider "has_errors (op_diagnostics r0)" "r = r0" "w' = w"
    | "\<not> has_errors (op_diagnostics r0)" "has_errors ds" "r = r1" "w' = w1"
    | "\<not> has_errors (op_diagnostics r0)" "\<not> has_errors ds" "r = sort_result r2" "w' = w2"
    using run v o r1 by (auto simp: generate_compiled_def Let_def r1_def [symmetric] split: if_splits)
  note cases = this
  have wrote: "\<not> has_errors (op_diagnostics r0) \<Longrightarrow> \<not> has_errors ds \<Longrightarrow>
      (op_diagnostics r2 = op_diagnostics r1 \<and> generate_effect h compiled False (w_files w) (w_files w2)
      \<and> (\<forall>c\<in>set compiled. fresh_output c (w_files w2 (output_key h c)))
      \<and> op_changed r2 + op_unchanged r2 = op_changed r1 + op_unchanged r1 + length compiled)
   \<or> (\<exists>d. is_error d \<and> op_diagnostics r2 = op_diagnostics r1 @ [d]
        \<and> generate_effect h compiled True (w_files w) (w_files w2))"
    using write_outputs_ok [OF o sep] valid by simp
  show "(\<exists>c\<in>set compiled. \<not> owned_or_absent (w_files w (output_key h c))) \<or> has_errors (op_diagnostics r0) \<Longrightarrow>
      w_files w' = w_files w \<and> has_errors (op_diagnostics r)"
    using cases valid r1 by (cases rule: cases) auto
  show "generate_effect h compiled (has_errors (op_diagnostics r)) (w_files w) (w_files w')"
    by (cases rule: cases) (use valid wrote r1 effect_refl in \<open>auto simp: sort_result_def\<close>)
  show "(\<forall>c\<in>set compiled. fresh_output c (w_files w' (output_key h c)))
      \<and> op_changed r + op_unchanged r = op_changed r0 + op_unchanged r0 + length compiled"
    if "\<not> has_errors (op_diagnostics r)"
    using that by (cases rule: cases) (use wrote r1 in \<open>auto simp: sort_result_def\<close>)
qed

lemma error_from_None: "error_from_diagnostics ds = None \<longleftrightarrow> \<not> has_errors ds"
  by (simp add: error_from_diagnostics_def)

lemma generate_parts:
  assumes "compile_operation h env parse paths w = ((compiled, r0), w0)"
    and "generate h env parse paths w = ((r, err), w')"
  shows "generate_compiled h compiled r0 w0 = (r, w')" and "(err = None) = (\<not> has_errors (op_diagnostics r))"
  using assms by (auto simp: generate_def error_from_None split: prod.splits)

subsection \<open>Generate on a quiet host\<close>

definition no_temporaries :: "'d host \<Rightarrow> compiled_file list \<Rightarrow> files \<Rightarrow> bool" where
  "no_temporaries h cs fs = (\<forall>c\<in>set cs. \<forall>n. fs (resolve h (temporary_name (path_dir (compiled_output_path c)) n)) = None)"

lemma quiet_read_output:
  assumes "quiet_host h" and "owned_or_absent (w_files w (resolve h path))"
  shows "read_file h path w = (case w_files w (resolve h path) of
      Some (RegularFile perm content) \<Rightarrow> Inr content | _ \<Rightarrow> Inl (no_such_file ''open'' path), tick w)"
  using assms(1) by (cases rule: owned_cases [OF assms(2)])
    (auto simp: quiet_host_def read_file_def numeral_eq_Suc)

lemma quiet_write_output:
  assumes quiet: "quiet_host h" and owned: "owned_or_absent (w_files w (output_key h c))"
    and o: "last (output_key h c) = CHR ''o''" and temps: "no_temporaries h [c] (w_files w)"
  shows "\<exists>w'. write_output h c w = (fresh_output c (w_files w (output_key h c)), None, w')"
proof -
  let ?path = "compiled_output_path c"
  have fresh: "(case fst (read_file h ?path w) of Inl e \<Rightarrow> False | Inr existing \<Rightarrow> generated_code_equal existing (compiled_code c))
      = fresh_output c (w_files w (output_key h c))"
    using owned by (cases rule: owned_cases) (simp_all add: quiet_read_output [OF quiet owned] fresh_output_def)
  obtain mode w2 where m: "output_mode h c (snd (read_file h ?path w)) = (mode, w2)" by fastforce
  have files: "w_files w2 = w_files w"
    using output_mode_ok(1) [OF m] owned by (simp add: read_file_files)
  have "fresh_temp h ?path w2" using temps files by (simp add: fresh_temp_def no_temporaries_def)
  moreover have "resolve h (temporary_name (path_dir ?path) (host_random h (w_clock w2))) \<noteq> resolve h ?path"
    using o temporary_last [of h "path_dir ?path" "host_random h (w_clock w2)"] by auto
  moreover have "\<not> (\<exists>entry. entry_of h (w_files w2) ?path = Some entry \<and> is_directory entry)"
    using owned files by (auto simp: owned_or_absent_def split: option.splits fs_entry.splits)
  ultimately have "fst (atomic_write h ?path (compiled_code c) mode w2) = None"
    by (rule quiet_atomic_write [OF quiet])
  then obtain w3 where "atomic_write h ?path (compiled_code c) mode w2 = (None, w3)"
    by (cases "atomic_write h ?path (compiled_code c) mode w2") auto
  then show ?thesis
    using m fresh by (auto simp: write_output_def split: prod.split)
qed

definition stale_outputs :: "'d host \<Rightarrow> files \<Rightarrow> compiled_file list \<Rightarrow> compiled_file list" where
  \<comment> \<open>the files whose output is absent or differs\<close>
  "stale_outputs h fs cs = filter (\<lambda>c. \<not> fresh_output c (fs (output_key h c))) cs"

lemma quiet_write_outputs:
  assumes quiet: "quiet_host h"
  shows "write_outputs h i cs r w = (r', w') \<Longrightarrow> separate_outputs h cs \<Longrightarrow>
   \<forall>c\<in>set cs. owned_or_absent (w_files w (output_key h c)) \<Longrightarrow> no_temporaries h cs (w_files w) \<Longrightarrow>
   op_diagnostics r' = op_diagnostics r
   \<and> op_changed r' = op_changed r + length (stale_outputs h (w_files w) cs)
   \<and> length (op_files r') = length (op_files r)
   \<and> (\<forall>j<length (op_files r). result_changed (op_files r' ! j) =
        (if i \<le> j \<and> j < i + length cs
         then \<not> fresh_output (cs ! (j - i)) (w_files w (output_key h (cs ! (j - i))))
         else result_changed (op_files r ! j)))"
proof (induction cs arbitrary: i r w)
  case Nil
  have "\<not> (i \<le> j \<and> j < i)" for j by simp
  then show ?case using Nil by (auto simp: stale_outputs_def)
next
  case (Cons c cs)
  let ?k = "output_key h c" and ?w = "tick w"
  let ?new = "\<not> fresh_output c (w_files w ?k)"
  have sep: "separate_outputs h cs" "last ?k = CHR ''o''" "\<forall>c'\<in>set cs. output_key h c' \<noteq> ?k"
    using Cons.prems(2) by (auto simp: separate_outputs_def image_iff)
  have owned: "owned_or_absent (w_files ?w ?k)" using Cons.prems(3) by simp
  have temps: "no_temporaries h [c] (w_files ?w)" using Cons.prems(4) by (simp add: no_temporaries_def)
  obtain w2 where o: "write_output h c ?w = (\<not> ?new, None, w2)"
    using quiet_write_output [OF quiet owned sep(2) temps] by auto
  have first: "w_files w2 = w_files w
      \<or> (\<exists>e. replaced_output c (w_files w ?k) (Some e) \<and> w_files w2 = (w_files w)(?k \<mapsto> e))"
    using write_output_ok [OF o owned sep(2)] by (cases ?new) auto
  have same: "w_files w2 (output_key h c') = w_files w (output_key h c')" if "c' \<in> set cs" for c'
    using first sep(3) that by auto
  have owned': "\<forall>c'\<in>set cs. owned_or_absent (w_files w2 (output_key h c'))"
    using same Cons.prems(3) by simp
  have temps': "no_temporaries h cs (w_files w2)"
    unfolding no_temporaries_def
  proof (intro ballI allI)
    fix c' n
    assume c': "c' \<in> set cs"
    let ?t = "resolve h (temporary_name (path_dir (compiled_output_path c')) n)"
    have "?t \<noteq> ?k" using sep(2) temporary_last [of h "path_dir (compiled_output_path c')" n] by auto
    then show "w_files w2 ?t = None"
      using first Cons.prems(4) c' by (auto simp: no_temporaries_def)
  qed
  define r2 where "r2 = (if ?new
      then r\<lparr>op_files := (op_files r)[i := (op_files r ! i)\<lparr>result_changed := True\<rparr>], op_changed := op_changed r + 1\<rparr>
      else r\<lparr>op_files := (op_files r)[i := (op_files r ! i)\<lparr>result_changed := False\<rparr>], op_unchanged := op_unchanged r + 1\<rparr>)"
  have rest: "write_outputs h (Suc i) cs r2 w2 = (r', w')"
    using Cons.prems(1) o by (cases ?new) (simp_all add: quiet_calls(2) [OF quiet] r2_def)
  have r2: "op_diagnostics r2 = op_diagnostics r" "op_changed r2 = op_changed r + (if ?new then 1 else 0)"
    "length (op_files r2) = length (op_files r)"
    "\<And>j. j < length (op_files r) \<Longrightarrow> result_changed (op_files r2 ! j) = (if j = i then ?new else result_changed (op_files r ! j))"
    by (auto simp: r2_def nth_list_update)
  have stale: "stale_outputs h (w_files w2) cs = stale_outputs h (w_files w) cs"
    using same by (auto simp: stale_outputs_def intro!: filter_cong)
  have fresh: "fresh_output c' (w_files w2 (output_key h c')) = fresh_output c' (w_files w (output_key h c'))"
    if "c' \<in> set cs" for c' using same [OF that] by simp
  note ih = Cons.IH [OF rest sep(1) owned' temps']
  have "result_changed (op_files r' ! j) =
        (if i \<le> j \<and> j < i + length (c # cs)
         then \<not> fresh_output ((c # cs) ! (j - i)) (w_files w (output_key h ((c # cs) ! (j - i))))
         else result_changed (op_files r ! j))" if j: "j < length (op_files r)" for j
  proof -
    consider "j < i" | "j = i" | "i < j" "j < i + length (c # cs)" | "i + length (c # cs) \<le> j" by linarith
    then show ?thesis
    proof cases
      case 3
      then have "cs ! (j - Suc i) \<in> set cs" "(c # cs) ! (j - i) = cs ! (j - Suc i)"
        by (auto simp: nth_Cons')
      then show ?thesis using ih r2 j 3 fresh by auto
    qed (use ih r2 j in auto)
  qed
  then show ?case using ih r2 stale by (auto simp: stale_outputs_def)
qed

lemma quiet_validate_outputs:
  assumes quiet: "quiet_host h"
  shows "\<forall>c\<in>set cs. owned_or_absent (w_files w (output_key h c)) \<Longrightarrow> fst (validate_outputs h cs w) = []"
proof (induction cs arbitrary: w)
  case (Cons c cs)
  have owned: "owned_or_absent (w_files w (output_key h c))" using Cons.prems by simp
  then have one: "fst (validate_output h c w) = []"
  proof (cases rule: owned_cases)
    case 1
    then show ?thesis by (simp add: validate_output_def Let_def quiet_calls(1) [OF quiet] no_such_file_def)
  next
    case (2 perm content)
    then have "fst (read_file h (compiled_output_path c) (tick w)) = Inr content"
      using quiet_read_output [OF quiet, of "tick w"] owned by simp
    then show ?thesis
      using 2 by (auto simp: validate_output_def Let_def quiet_calls(1) [OF quiet] unsuitable_def split: sum.splits prod.splits)
  qed
  have "w_files (snd (validate_output h c w)) = w_files w"
    using validate_output_ok(1) [of h c w] by (metis prod.collapse)
  then show ?case using Cons one by (auto split: prod.split) (metis fst_conv snd_conv)+
qed simp

subsection \<open>Check\<close>

lemma check_content_files: "w_files (snd (check_content h c w)) = w_files w"
  using read_file_files [of h "compiled_output_path c" w]
  by (auto simp: check_content_def Let_def split: prod.split sum.split)

lemma check_output_files: "w_files (snd (check_output h c w)) = w_files w"
  using lstat_files [of h "compiled_output_path c" w] check_content_files [of h c "snd (lstat h (compiled_output_path c) w)"]
  by (auto simp: check_output_def Let_def split: prod.split sum.split)

lemma check_outputs_files: "w_files (snd (check_outputs h i cs r w)) = w_files w"
proof (induction cs arbitrary: i r w)
  case (Cons c cs)
  then show ?case
    using ctx_err_files [of h w] check_output_files [of h c] by (auto split: prod.split option.split) (metis snd_conv)+
qed simp

definition expected_status :: "compiled_file \<Rightarrow> fs_entry option \<Rightarrow> output_status" where
  \<comment> \<open>what Check must say of an output\<close>
  "expected_status c e =
     (let problem = file_problem (compiled_output_path c) in
      case e of
        None \<Rightarrow> StatusMissing (problem ''HIM2201'' ''generated output is missing; run himesan generate'')
      | Some (RegularFile perm content) \<Rightarrow>
          (if generated_code_equal content (compiled_code c) then StatusFresh
           else if has_prefix (generated_prefix @ [LF]) content
           then StatusStale (problem ''HIM2204'' ''generated output is stale; run himesan generate'')
           else StatusStale (problem ''HIM2203'' ''expected output exists but is not owned by Hime-san''))
      | Some _ \<Rightarrow> StatusProblem (problem ''HIM2205'' ''generated output is a symlink or non-regular file''))"

lemma quiet_check_output:
  assumes quiet: "quiet_host h"
  shows "fst (check_output h c w) = expected_status c (w_files w (output_key h c))"
proof -
  have fault: "host_fault h t = None" for t using quiet by (simp add: quiet_host_def)
  show ?thesis
    by (cases "w_files w (output_key h c)"; cases "the (w_files w (output_key h c))")
      (simp_all add: check_output_def check_content_def expected_status_def Let_def lstat_def read_file_def fault
        no_such_file_def unsuitable_def numeral_eq_Suc)
qed

fun status_diagnostics :: "output_status \<Rightarrow> diagnostic list" where
  "status_diagnostics StatusFresh = []"
| "status_diagnostics (StatusMissing d) = [d]"
| "status_diagnostics (StatusStale d) = [d]"
| "status_diagnostics (StatusProblem d) = [d]"

fun is_missing :: "output_status \<Rightarrow> bool" where
  "is_missing (StatusMissing d) = True"
| "is_missing _ = False"

fun is_stale :: "output_status \<Rightarrow> bool" where
  "is_stale (StatusStale d) = True"
| "is_stale _ = False"

lemma quiet_check_outputs:
  assumes quiet: "quiet_host h"
  shows "check_outputs h i cs r w = (r', w') \<Longrightarrow>
   ss = map (\<lambda>c. expected_status c (w_files w (output_key h c))) cs \<Longrightarrow>
   op_diagnostics r' = op_diagnostics r @ concat (map status_diagnostics ss)
   \<and> op_unchanged r' = op_unchanged r + length (filter ((=) StatusFresh) ss)
   \<and> op_missing r' = op_missing r + length (filter is_missing ss)
   \<and> op_stale r' = op_stale r + length (filter is_stale ss)"
proof (induction cs arbitrary: i r w ss)
  case (Cons c cs)
  let ?s = "expected_status c (w_files w (output_key h c))"
  let ?ss = "map (\<lambda>c. expected_status c (w_files w (output_key h c))) cs"
  obtain w2 where o: "check_output h c (tick w) = (?s, w2)"
    using quiet_check_output [OF quiet, of c "tick w"] by (cases "check_output h c (tick w)") simp
  have files: "w_files w2 = w_files w" using check_output_files [of h c "tick w"] o by simp
  have rest: "check_outputs h (Suc i) cs (record_status i ?s r) w2 = (r', w')"
    using Cons.prems(1) o by (simp add: quiet_calls(2) [OF quiet])
  have ss: "?ss = map (\<lambda>c. expected_status c (w_files w2 (output_key h c))) cs" using files by simp
  show ?case
    using Cons.IH [OF rest ss] Cons.prems(2) by (cases ?s) (simp_all add: record_status_def)
qed simp

lemma expected_fresh: "expected_status c e = StatusFresh \<longleftrightarrow> fresh_output c e"
  by (auto simp: expected_status_def fresh_output_def Let_def split: option.splits fs_entry.splits)

lemma expected_errors: "has_errors (status_diagnostics (expected_status c e)) \<longleftrightarrow> expected_status c e \<noteq> StatusFresh"
  by (auto simp: expected_status_def Let_def split: option.splits fs_entry.splits)

lemma has_errors_concat: "has_errors (concat dss) \<longleftrightarrow> (\<exists>ds\<in>set dss. has_errors ds)"
  by (induction dss) simp_all

lemma check_parts:
  assumes "compile_operation h env parse paths w = ((compiled, r0), w0)"
    and "check h env parse paths w = ((r, err), w')"
  shows "check_compiled h compiled r0 w0 = (r, w')" and "(err = None) = (\<not> has_errors (op_diagnostics r))"
  using assms by (auto simp: check_def error_from_None split: prod.splits)

lemma check_compiled_files: "w_files (snd (check_compiled h cs r w)) = w_files w"
  using check_outputs_files [of h 0 cs r w] by (auto simp: check_compiled_def split: prod.split)

lemma quiet_check_compiled:
  assumes quiet: "quiet_host h" and run: "check_compiled h cs r0 w = (r, w')" and ok: "\<not> has_errors (op_diagnostics r0)"
    and ss: "ss = map (\<lambda>c. expected_status c (w_files w (output_key h c))) cs"
  shows "has_errors (op_diagnostics r) = (\<exists>c\<in>set cs. \<not> fresh_output c (w_files w (output_key h c)))"
    and "mset (op_diagnostics r) = mset (op_diagnostics r0) + mset (concat (map status_diagnostics ss))"
    and "op_unchanged r = op_unchanged r0 + length (filter ((=) StatusFresh) ss)"
    and "op_missing r = op_missing r0 + length (filter is_missing ss)"
    and "op_stale r = op_stale r0 + length (filter is_stale ss)"
proof -
  obtain r1 w1 where o: "check_outputs h 0 cs r0 w = (r1, w1)" by fastforce
  have r: "r = sort_result r1" using run o ok by (simp add: check_compiled_def)
  note told = quiet_check_outputs [OF quiet o ss]
  have errors: "has_errors (concat (map status_diagnostics ss)) = (\<exists>c\<in>set cs. \<not> fresh_output c (w_files w (output_key h c)))"
    by (auto simp: has_errors_concat ss expected_errors expected_fresh)
  then show "has_errors (op_diagnostics r) = (\<exists>c\<in>set cs. \<not> fresh_output c (w_files w (output_key h c)))"
    using told r ok by (simp add: sort_result_def)
  show "mset (op_diagnostics r) = mset (op_diagnostics r0) + mset (concat (map status_diagnostics ss))"
    "op_unchanged r = op_unchanged r0 + length (filter ((=) StatusFresh) ss)"
    "op_missing r = op_missing r0 + length (filter is_missing ss)"
    "op_stale r = op_stale r0 + length (filter is_stale ss)"
    using told r by (simp_all add: sort_result_def)
qed

lemma quiet_generate:
  assumes "quiet_host h" and "compile_operation h env parse paths w = ((compiled, r0), w0)"
    and "\<not> has_errors (op_diagnostics r0)" and "\<forall>c\<in>set compiled. owned_or_absent (w_files w (output_key h c))"
    and "no_temporaries h compiled (w_files w)"
    and "generate h env parse paths w = ((r, err), w')"
  shows "err = None \<and> op_changed r = length (stale_outputs h (w_files w) compiled)
    \<and> map result_changed (op_files r) = map (\<lambda>c. \<not> fresh_output c (w_files w (output_key h c))) compiled"
proof -
  note comp = compile_operation_ok [OF assms(2)]
  note run = generate_parts [OF assms(2,6)]
  obtain w1 where v: "validate_outputs h compiled w0 = ([], w1)"
    using quiet_validate_outputs [OF assms(1), of compiled w0] assms(4) comp(1) by (cases "validate_outputs h compiled w0") auto
  define r1 where "r1 = sort_result r0"
  obtain r2 w2 where o: "write_outputs h 0 compiled r1 w1 = (r2, w2)" by fastforce
  have files1: "w_files w1 = w_files w" using validate_outputs_ok [OF v] comp(1) by simp
  have r: "r = sort_result r2" "w' = w2"
    using run(1) v o assms(3) by (auto simp: generate_compiled_def r1_def sort_result_def Let_def)
  have wrote: "op_diagnostics r2 = op_diagnostics r1
   \<and> op_changed r2 = op_changed r1 + length (stale_outputs h (w_files w1) compiled)
   \<and> length (op_files r2) = length (op_files r1)
   \<and> (\<forall>j<length (op_files r1). result_changed (op_files r2 ! j) =
        (if 0 \<le> j \<and> j < 0 + length compiled
         then \<not> fresh_output (compiled ! (j - 0)) (w_files w1 (output_key h (compiled ! (j - 0))))
         else result_changed (op_files r1 ! j)))"
    by (rule quiet_write_outputs [OF assms(1) o comp(2)]) (use assms(4,5) files1 in simp_all)
  have r1: "op_files r1 = map new_file_result compiled" "op_changed r1 = 0" "\<not> has_errors (op_diagnostics r1)"
    using comp assms(3) by (simp_all add: r1_def sort_result_def)
  have "map result_changed (op_files r2) = map (\<lambda>c. \<not> fresh_output c (w_files w (output_key h c))) compiled"
    by (rule nth_equalityI) (use wrote r1(1) files1 in auto)
  moreover have "err = None" using run(2) wrote r1(3) r by (simp add: sort_result_def)
  ultimately show ?thesis using wrote r1 r files1 by (simp add: sort_result_def)
qed

lemma generate_result:
  assumes "compile_operation h env parse paths w = ((compiled, r0), w0)"
    and "generate h env parse paths w = ((r, err), w')"
  shows "generate_effect h compiled (err \<noteq> None) (w_files w) (w_files w')"
    and "has_errors (op_diagnostics r0) \<or> (\<exists>c\<in>set compiled. \<not> owned_or_absent (w_files w (output_key h c)))
        \<Longrightarrow> w_files w' = w_files w \<and> err \<noteq> None"
    and "err = None \<Longrightarrow> (\<forall>c\<in>set compiled. fresh_output c (w_files w' (output_key h c)))
        \<and> op_changed r + op_unchanged r = length compiled"
proof -
  note comp = compile_operation_ok [OF assms(1)]
  note run = generate_parts [OF assms]
  note gen = generate_compiled_ok [OF run(1) comp(2), unfolded comp(1)]
  show "generate_effect h compiled (err \<noteq> None) (w_files w) (w_files w')"
    using gen(2) run(2) by (cases err) auto
  show "has_errors (op_diagnostics r0) \<or> (\<exists>c\<in>set compiled. \<not> owned_or_absent (w_files w (output_key h c)))
        \<Longrightarrow> w_files w' = w_files w \<and> err \<noteq> None"
    using gen(1) run(2) by auto
  show "err = None \<Longrightarrow> (\<forall>c\<in>set compiled. fresh_output c (w_files w' (output_key h c)))
        \<and> op_changed r + op_unchanged r = length compiled"
    using gen(3) run(2) comp by simp
qed

subsection \<open>The nearest module\<close>

text \<open>The directories above a file, by how many of its elements they keep, the longest first.\<close>

definition module_at :: "'d host \<Rightarrow> files \<Rightarrow> bytes list \<Rightarrow> bool" where
  "module_at h fs dirs =
     (case entry_of h fs (path_join (rooted_path dirs) ''go.mod'') of Some (RegularFile perm content) \<Rightarrow> True | _ \<Rightarrow> False)"

fun nearest_module :: "'d host \<Rightarrow> files \<Rightarrow> bytes list \<Rightarrow> nat \<Rightarrow> nat option" where
  "nearest_module h fs dirs 0 = (if module_at h fs [] then Some 0 else None)"
| "nearest_module h fs dirs (Suc n) =
     (if module_at h fs (take (Suc n) dirs) then Some (Suc n) else nearest_module h fs dirs n)"

lemma nearest_module_iff:
  "nearest_module h fs dirs n = Some m \<longleftrightarrow>
   m \<le> n \<and> module_at h fs (take m dirs) \<and> (\<forall>k. m < k \<and> k \<le> n \<longrightarrow> \<not> module_at h fs (take k dirs))"
  "nearest_module h fs dirs n = None \<longleftrightarrow> (\<forall>k\<le>n. \<not> module_at h fs (take k dirs))"
proof (induction n)
  case (Suc n)
  have "m \<le> n \<Longrightarrow> m < Suc n" by simp
  with Suc show "nearest_module h fs dirs (Suc n) = Some m \<longleftrightarrow>
      m \<le> Suc n \<and> module_at h fs (take m dirs) \<and> (\<forall>k. m < k \<and> k \<le> Suc n \<longrightarrow> \<not> module_at h fs (take k dirs))"
    by (auto simp: le_Suc_eq)
  show "nearest_module h fs dirs (Suc n) = None \<longleftrightarrow> (\<forall>k\<le>Suc n. \<not> module_at h fs (take k dirs))"
    using Suc by (auto simp: le_Suc_eq)
qed auto

lemma quiet_module_loop:
  assumes quiet: "quiet_host h" and plain: "plain_parts (dirs @ [leaf])"
  shows "n \<le> length dirs \<Longrightarrow> n < fuel \<Longrightarrow>
   fst (module_loop h (rooted_path (dirs @ [leaf])) fuel (rooted_path (take n dirs)) w)
   = Some (map_option (\<lambda>m. join_with ''/'' (drop m dirs @ [leaf])) (nearest_module h (w_files w) dirs n))"
proof (induction n arbitrary: fuel w)
  case 0
  then obtain f where f: "fuel = Suc f" by (cases fuel) auto
  have "path_rel (rooted_path []) (rooted_path (dirs @ [leaf])) = Some (join_with ''/'' (dirs @ [leaf]))"
    using path_rel_rooted [of "[]" "dirs @ [leaf]"] plain by simp
  then show ?case
    by (auto simp: f quiet_calls(1) [OF quiet] path_dir_root module_at_def Let_def split: option.split fs_entry.split)
next
  case (Suc n)
  then obtain f where f: "fuel = Suc f" by (cases fuel) auto
  let ?dir = "take (Suc n) dirs"
  have split: "dirs = ?dir @ drop (Suc n) dirs" by simp
  have rel: "path_rel (rooted_path ?dir) (rooted_path (dirs @ [leaf]))
      = Some (join_with ''/'' (drop (Suc n) dirs @ [leaf]))"
    using path_rel_rooted [of ?dir "drop (Suc n) dirs @ [leaf]"] plain by (simp flip: append_assoc)
  have snoc: "?dir = take n dirs @ [dirs ! n]" using Suc.prems(1) by (simp add: take_Suc_conv_app_nth)
  have plain': "plain_parts ?dir" using plain split plain_parts_append by metis
  then have up: "path_dir (rooted_path ?dir) = rooted_path (take n dirs)"
    unfolding snoc by (rule path_dir_rooted)
  have other: "rooted_path (take n dirs) \<noteq> rooted_path ?dir"
  proof
    assume same: "rooted_path (take n dirs) = rooted_path ?dir"
    have all: "list_all plain_part (take n dirs)" "list_all plain_part ?dir"
      using plain' unfolding snoc by (simp_all add: plain_parts_def)
    have "split_on separator (rooted_path (take n dirs)) = split_on separator (rooted_path ?dir)" using same by simp
    then show False
      unfolding split_rooted [OF all(1)] split_rooted [OF all(2)] using all(2) snoc by (auto simp: plain_part_def split: if_splits)
  qed
  have ih: "fst (module_loop h (rooted_path (dirs @ [leaf])) f (rooted_path (take n dirs)) (tick w))
      = Some (map_option (\<lambda>m. join_with ''/'' (drop m dirs @ [leaf])) (nearest_module h (w_files w) dirs n))"
    using Suc.IH [of f "tick w"] Suc.prems f by simp
  show ?case
    using ih rel up other
    by (auto simp: f quiet_calls(1) [OF quiet] module_at_def Let_def split: option.split fs_entry.split)
qed

subsection \<open>An example\<close>

text \<open>A directory with one component that has not been generated yet.\<close>

definition sample_project :: world where
  "sample_project = \<lparr>w_files = [''/d'' \<mapsto> Directory 493 [''a.sando'', ''a.sando.go''],
     ''/d/a.sando'' \<mapsto> RegularFile 420 sample_template], w_clock = 0\<rparr>"

lemma sample_quiet: "quiet_host sample_host"
  by (simp add: quiet_host_def sample_host_def)

lemma sample_project_discovery:
  "\<exists>w. discover sample_host [] sample_project = (([''a.sando''], []), w) \<and> w_files w = w_files sample_project"
  by (simp add: sample_host_def sample_project_def go_eval)

lemma sample_module_path:
  "w_files w = w_files sample_project \<Longrightarrow>
   fst (module_relative_source_path sample_host ''a.sando'' w) = ''a.sando''"
  by (simp add: sample_host_def sample_project_def go_eval)

lemma sample_entries:
  "resolve sample_host ''a.sando'' = ''/d/a.sando''" "resolve sample_host ''a.sando.go'' = ''/d/a.sando.go''"
  "path_clean ''a.sando'' = ''a.sando''"
  "w_files sample_project ''/d/a.sando'' = Some (RegularFile 420 sample_template)"
  "w_files sample_project ''/d/a.sando.go'' = None"
  by (simp_all add: sample_host_def sample_project_def go_eval)

lemma follow_forty: "fs path = Some (RegularFile perm content) \<Longrightarrow> follow 40 fs path = Some (RegularFile perm content)"
  by (simp add: numeral_eq_Suc)

lemma sample_operation:
  "\<exists>c r w0. compile_operation sample_host sample_backend (\<lambda>_. None) [] sample_project = (([c], r), w0)
     \<and> compiled_output_path c = ''a.sando.go'' \<and> compiled_component c = ''A'' \<and> \<not> has_errors (op_diagnostics r)"
proof -
  obtain w where d: "discover sample_host [] sample_project = (([''a.sando''], []), w)" "w_files w = w_files sample_project"
    using sample_project_discovery by blast
  obtain code digest where c: "compile_with_mapping sample_backend ''a.sando'' sample_template ''a.sando''
     = (Some \<lparr>compiled_source_path = ''a.sando'', compiled_output_path = ''a.sando.go'', compiled_package = ''p'',
         compiled_component = ''A'', compiled_digest = digest, compiled_code = code,
         compiled_source = Some (sample_parsed ContextHTMLText), compiled_source_mode = 0\<rparr>, [])"
    using sample_compiled by blast
  have fault: "host_fault sample_host t = None" for t by (simp add: sample_host_def)
  let ?w = "tick (tick (tick w))"
  obtain w2 where m: "module_relative_source_path sample_host ''a.sando'' ?w = (''a.sando'', w2)"
    using sample_module_path [of ?w] d(2) by (cases "module_relative_source_path sample_host ''a.sando'' ?w") simp
  have s: "compile_source sample_host sample_backend ''a.sando'' (tick w)
      = ((Some \<lparr>compiled_source_path = ''a.sando'', compiled_output_path = ''a.sando.go'', compiled_package = ''p'',
         compiled_component = ''A'', compiled_digest = digest, compiled_code = code,
         compiled_source = Some (sample_parsed ContextHTMLText), compiled_source_mode = 420\<rparr>, []), w2)"
    using d(2) m by (simp add: compile_source_def lstat_def read_file_def fault sample_entries c unsuitable_def follow_forty)
  show ?thesis
    using d s
    by (simp add: compile_operation_def quiet_calls(2) [OF sample_quiet])
       (simp add: go_eval sample_parsed_def)
qed

lemma sample_generate:
  "\<exists>c r0 w0 r w'. compile_operation sample_host sample_backend (\<lambda>_. None) [] sample_project = (([c], r0), w0)
     \<and> \<not> has_errors (op_diagnostics r0) \<and> output_key sample_host c = ''/d/a.sando.go''
     \<and> owned_or_absent (w_files sample_project (output_key sample_host c))
     \<and> no_temporaries sample_host [c] (w_files sample_project)
     \<and> generate sample_host sample_backend (\<lambda>_. None) [] sample_project = ((r, None), w')"
proof -
  obtain c r0 w0 where op: "compile_operation sample_host sample_backend (\<lambda>_. None) [] sample_project = (([c], r0), w0)"
      "compiled_output_path c = ''a.sando.go''" "\<not> has_errors (op_diagnostics r0)"
    using sample_operation by blast
  obtain r err w' where g: "generate sample_host sample_backend (\<lambda>_. None) [] sample_project = ((r, err), w')"
    by (metis prod_cases3 prod.collapse)
  have owned: "\<forall>c\<in>set [c]. owned_or_absent (w_files sample_project (output_key sample_host c))"
    by (simp add: op(2) sample_entries owned_or_absent_def)
  have absent: "k \<notin> {''/d'', ''/d/a.sando''} \<Longrightarrow> w_files sample_project k = None" for k
    by (simp add: sample_project_def)
  have temps: "no_temporaries sample_host [c] (w_files sample_project)"
    unfolding no_temporaries_def
  proof (intro ballI allI absent)
    fix c' n
    show "resolve sample_host (temporary_name (path_dir (compiled_output_path c')) n) \<notin> {''/d'', ''/d/a.sando''}"
      using temporary_last [of sample_host "path_dir (compiled_output_path c')" n] by auto
  qed
  have "err = None" using quiet_generate [OF sample_quiet op(1,3) owned temps g] by simp
  then show ?thesis using op g owned temps by (auto simp: sample_entries)
qed

subsection \<open>Properties\<close>

text \<open>
  C2: Generate writes only what it compiled, only where it may, or nothing at all. In every run,
  whatever system call fails and whenever it is canceled: each compiled file is the compilation of
  the content its source has (with the permissions of the source); an entry of the file system that
  differs afterwards is either the output of a compiled file, which was absent or a regular file with
  the ownership marker and now holds exactly the generated code, with the permissions it had or
  (if new) those of the source without execution, or a new temporary file left by a run that reports
  an error. If compilation reports an error, or one output is a link, a non-regular or a foreign file,
  no entry changes and an error is returned.
\<close>
theorem generate_safe:
  assumes "compile_operation h env parse paths w = ((compiled, r0), w0)"
    and "generate h env parse paths w = ((r, err), w')"
  shows "(\<forall>c\<in>set compiled. compiled_from h env (w_files w) c)
    \<and> generate_effect h compiled (err \<noteq> None) (w_files w) (w_files w')
    \<and> (has_errors (op_diagnostics r0) \<or> (\<exists>c\<in>set compiled. \<not> owned_or_absent (w_files w (output_key h c)))
        \<longrightarrow> w_files w' = w_files w \<and> err \<noteq> None)"
  using generate_result [OF assms] compile_operation_ok(3) [OF assms(1)] by auto

theorem generate_safe_witness:
  "\<exists>c r w'. generate sample_host sample_backend (\<lambda>_. None) [] sample_project = ((r, None), w')
     \<and> generate_effect sample_host [c] False (w_files sample_project) (w_files w')"
proof -
  obtain c r0 w0 r w' where op: "compile_operation sample_host sample_backend (\<lambda>_. None) [] sample_project = (([c], r0), w0)"
    and g: "generate sample_host sample_backend (\<lambda>_. None) [] sample_project = ((r, None), w')"
    using sample_generate by blast
  show ?thesis using generate_safe [OF op g] g by auto
qed

text \<open>
  A Generate that reports no error leaves every output fresh: a regular file whose content is the
  generated code, up to the version line. Every compiled file is counted as changed or unchanged.
\<close>
theorem generate_complete:
  assumes "compile_operation h env parse paths w = ((compiled, r0), w0)"
    and "generate h env parse paths w = ((r, None), w')"
  shows "(\<forall>c\<in>set compiled. fresh_output c (w_files w' (output_key h c)))
    \<and> op_changed r + op_unchanged r = length compiled"
  using generate_result(3) [OF assms] by simp

theorem generate_complete_witness:
  "\<exists>c r w'. generate sample_host sample_backend (\<lambda>_. None) [] sample_project = ((r, None), w')
     \<and> fresh_output c (w_files w' ''/d/a.sando.go'')"
proof -
  obtain c r0 w0 r w' where op: "compile_operation sample_host sample_backend (\<lambda>_. None) [] sample_project = (([c], r0), w0)"
    and g: "generate sample_host sample_backend (\<lambda>_. None) [] sample_project = ((r, None), w')"
    and k: "output_key sample_host c = ''/d/a.sando.go''"
    using sample_generate by blast
  show ?thesis using generate_complete [OF op g] g k by auto
qed

text \<open>
  C14: Generate gets done what it can. When no call fails, the sources compile, every output is absent
  or owned, and no file has the name of a temporary one, Generate returns no error, and reports as
  changed exactly the files whose output was absent or not fresh before.
\<close>
theorem generate_succeeds:
  assumes "quiet_host h" and "compile_operation h env parse paths w = ((compiled, r0), w0)"
    and "\<not> has_errors (op_diagnostics r0)" and "\<forall>c\<in>set compiled. owned_or_absent (w_files w (output_key h c))"
    and "no_temporaries h compiled (w_files w)"
    and "generate h env parse paths w = ((r, err), w')"
  shows "err = None \<and> op_changed r = length (stale_outputs h (w_files w) compiled)
    \<and> map result_changed (op_files r) = map (\<lambda>c. \<not> fresh_output c (w_files w (output_key h c))) compiled"
  by (rule quiet_generate [OF assms])

theorem generate_succeeds_witness:
  "\<exists>r w'. generate sample_host sample_backend (\<lambda>_. None) [] sample_project = ((r, None), w')
     \<and> op_changed r = 1 \<and> map result_changed (op_files r) = [True]"
proof -
  obtain c r0 w0 r w' where op: "compile_operation sample_host sample_backend (\<lambda>_. None) [] sample_project = (([c], r0), w0)"
      "\<not> has_errors (op_diagnostics r0)" "output_key sample_host c = ''/d/a.sando.go''"
      "\<forall>c\<in>set [c]. owned_or_absent (w_files sample_project (output_key sample_host c))"
      "no_temporaries sample_host [c] (w_files sample_project)"
    and g: "generate sample_host sample_backend (\<lambda>_. None) [] sample_project = ((r, None), w')"
    using sample_generate by auto
  show ?thesis
    using generate_succeeds [OF sample_quiet op(1,2,4,5) g] g op(3)
    by (simp add: stale_outputs_def fresh_output_def sample_entries)
qed

text \<open>
  C7: Check writes nothing, and on a host without faults says of every output what is the case. It
  returns no error exactly when every output is fresh; it counts the fresh, the missing (absent) and
  the stale (a regular file with other content, owned or not), and adds exactly one diagnostic for
  each output that is not fresh, a link or non-regular file included.
\<close>
theorem check_exact:
  assumes "quiet_host h" and "compile_operation h env parse paths w = ((compiled, r0), w0)"
    and "\<not> has_errors (op_diagnostics r0)" and "check h env parse paths w = ((r, err), w')"
  defines "statuses \<equiv> map (\<lambda>c. expected_status c (w_files w (output_key h c))) compiled"
  shows "w_files w' = w_files w
    \<and> (err = None) = (\<forall>c\<in>set compiled. fresh_output c (w_files w (output_key h c)))
    \<and> op_unchanged r = length (filter ((=) StatusFresh) statuses)
    \<and> op_missing r = length (filter is_missing statuses)
    \<and> op_stale r = length (filter is_stale statuses)
    \<and> mset (op_diagnostics r) = mset (op_diagnostics r0) + mset (concat (map status_diagnostics statuses))"
proof -
  note comp = compile_operation_ok [OF assms(2)]
  note run = check_parts [OF assms(2,4)]
  note quiet = quiet_check_compiled [OF assms(1) run(1) assms(3) refl, unfolded comp(1)]
  show ?thesis
    using quiet run(2) comp check_compiled_files [of h compiled r0 w0] run(1) by (simp add: statuses_def)
qed

theorem check_exact_witness:
  "\<exists>r e w'. check sample_host sample_backend (\<lambda>_. None) [] sample_project = ((r, Some e), w')
     \<and> op_missing r = 1 \<and> op_stale r = 0"
proof -
  obtain c r0 w0 where op: "compile_operation sample_host sample_backend (\<lambda>_. None) [] sample_project = (([c], r0), w0)"
      "\<not> has_errors (op_diagnostics r0)" and k: "output_key sample_host c = ''/d/a.sando.go''"
    using sample_generate by blast
  obtain r err w' where ch: "check sample_host sample_backend (\<lambda>_. None) [] sample_project = ((r, err), w')"
    by (metis prod_cases3 prod.collapse)
  note exact = check_exact [OF sample_quiet op ch]
  have "expected_status c None = StatusMissing (file_problem (compiled_output_path c) ''HIM2201'' ''generated output is missing; run himesan generate'')"
    by (simp add: expected_status_def)
  then show ?thesis using exact ch k by (auto simp: sample_entries fresh_output_def)
qed

text \<open>
  The path in line directives is the path from the module. For a source whose absolute path is
  \<open>/dirs/leaf\<close>, when no call fails, \<open>moduleRelativeSourcePath\<close> gives the path from the nearest
  directory above it that has a regular \<open>go.mod\<close>, and only the name of the file when there is none.
\<close>
theorem module_path_nearest:
  assumes "quiet_host h" and "resolve h path = rooted_path (dirs @ [leaf])" and "plain_parts (dirs @ [leaf])"
  shows "(\<forall>m\<le>length dirs. module_at h (w_files w) (take m dirs)
        \<and> (\<forall>k. m < k \<and> k \<le> length dirs \<longrightarrow> \<not> module_at h (w_files w) (take k dirs))
        \<longrightarrow> fst (module_relative_source_path h path w) = join_with ''/'' (drop m dirs @ [leaf]))
    \<and> ((\<forall>m\<le>length dirs. \<not> module_at h (w_files w) (take m dirs))
        \<longrightarrow> fst (module_relative_source_path h path w) = path_base path)"
proof -
  let ?a = "rooted_path (dirs @ [leaf])" and ?near = "nearest_module h (w_files w) dirs (length dirs)"
  have "length (dirs @ [leaf]) \<le> length (join_with ''/'' (dirs @ [leaf])) + 1"
    using parts_size_length [of "dirs @ [leaf]"] join_size [of "dirs @ [leaf]"] by simp
  then have fuel: "length dirs < length ?a + 1" by (simp add: rooted_path_def)
  obtain r w' where loop: "module_loop h ?a (length ?a + 1) (path_dir ?a) w = (r, w')" by fastforce
  have "r = Some (map_option (\<lambda>m. join_with ''/'' (drop m dirs @ [leaf])) ?near)"
    using quiet_module_loop [OF assms(1,3), of "length dirs" "length ?a + 1" w] fuel loop path_dir_rooted [OF assms(3)] by simp
  then have "fst (module_relative_source_path h path w)
      = (case ?near of Some m \<Rightarrow> join_with ''/'' (drop m dirs @ [leaf]) | None \<Rightarrow> path_base path)"
    using loop assms(2) by (simp add: module_relative_source_path_def quiet_calls(3) [OF assms(1)] split: option.split)
  then show ?thesis
    using nearest_module_iff(1) [of h "w_files w" dirs "length dirs", THEN iffD2]
      nearest_module_iff(2) [of h "w_files w" dirs "length dirs", THEN iffD2] by auto
qed

theorem module_path_nearest_witness:
  "fst (module_relative_source_path sample_host ''v/b.sando'' sample_world) = ''b.sando''"
proof -
  have root: "resolve sample_host ''v/b.sando'' = rooted_path ([''d'', ''v''] @ [''b.sando''])"
    by (simp add: sample_host_def rooted_path_def go_eval)
  have near: "module_at sample_host (w_files sample_world) (take 2 [''d'', ''v''])"
    by (simp add: module_at_def sample_host_def sample_world_def rooted_path_def go_eval)
  have plain: "plain_parts ([''d'', ''v''] @ [''b.sando''])"
    by (simp add: plain_parts_def plain_part_def)
  show ?thesis
    using module_path_nearest [OF sample_quiet root plain, THEN conjunct1, rule_format, of 2 sample_world] near by simp
qed

end
