(* ===== verification/Release_Finalization.thy ===== *)
theory Release_Finalization
  imports Release_Samples Operation_Results
begin

section \<open>The finalized distribution is consistent\<close>

text \<open>
  What finalization leaves when it succeeds, on any host: documents that all name the digest of the signed
  binary, checksums of what is there, and the other members as they were.
\<close>

subsection \<open>Keys by their last element\<close>

lemma base_end_unique: "base_end a p \<Longrightarrow> base_end b p \<Longrightarrow> a = b"
  using base_end_parts [of a p] base_end_parts [of b p] by auto

definition member_key :: "'d host \<Rightarrow> bytes \<Rightarrow> bytes \<Rightarrow> bytes" where
  "member_key h directory name = resolve h (path_join directory name)"

lemma member_key_end: "plain_part n \<Longrightarrow> n \<noteq> ''..'' \<Longrightarrow> base_end n (member_key h directory n)"
  unfolding member_key_def by (intro base_end_resolve base_end_join) (simp add: base_end_def)

lemma member_key_inj:
  "plain_part n \<Longrightarrow> n \<noteq> ''..'' \<Longrightarrow> plain_part m \<Longrightarrow> m \<noteq> ''..'' \<Longrightarrow>
   member_key h directory n = member_key h directory m \<longleftrightarrow> n = m"
  using member_key_end base_end_unique by metis

lemma release_temporary_end: "base_end (''.himesan-release-'' @ show_nat k) (release_temporary dir k)"
  by (auto simp: base_end_def plain_part_def release_temporary_def show_nat_no_separator has_suffix_iff)

definition temporary_key :: "'d host \<Rightarrow> bytes \<Rightarrow> bool" where
  "temporary_key h key \<longleftrightarrow> (\<exists>dir k. key = resolve h (release_temporary dir k))"

text \<open>The names the finalization deals with; none of them is the name of a temporary file.\<close>

definition signed_names :: "bytes list" where
  "signed_names = ''SHA256SUMS'' # signed_checksum_names"

lemma signed_names_plain: "n \<in> set signed_names \<Longrightarrow> plain_part n \<and> n \<noteq> ''..''"
  by (auto simp: signed_names_def signed_checksum_names_def plain_part_def)

lemma member_not_temporary: "n \<in> set signed_names \<Longrightarrow> \<not> temporary_key h (member_key h directory n)"
proof
  assume n: "n \<in> set signed_names" and "temporary_key h (member_key h directory n)"
  then obtain dir k where "member_key h directory n = resolve h (release_temporary dir k)" by (auto simp: temporary_key_def)
  then have "n = ''.himesan-release-'' @ show_nat k"
    using base_end_unique member_key_end signed_names_plain [OF n] base_end_resolve [OF release_temporary_end] by metis
  then show False using n by (auto simp: signed_names_def signed_checksum_names_def)
qed

subsection \<open>Replacing a file\<close>

lemma replace_regular_file_None:
  assumes run: "replace_regular_file h path contents mode w = (None, w')" and "\<not> temporary_key h (resolve h path)"
  shows "w_files w' (resolve h path) = Some (RegularFile mode contents)
    \<and> (\<forall>key. key \<noteq> resolve h path \<longrightarrow> \<not> temporary_key h key \<longrightarrow> w_files w' key = w_files w key)"
proof -
  obtain l w1 where l: "lstat h path w = (l, w1)" by fastforce
  let ?temp = "release_temporary (path_dir path) (host_random h (w_clock w1))"
  obtain c w2 where c: "create_exclusive h ?temp 384 w1 = (c, w2)" by fastforce
  obtain f w3 where f: "fill_file h ?temp 384 contents mode w2 = (f, w3)" by fastforce
  obtain r w4 where r: "rename_file h ?temp path w3 = (r, w4)" by fastforce
  have ok: "c = None \<and> f = None \<and> r = None \<and> w' = w4"
    using run l c f r
    by (cases l; cases c; cases f; cases r) (simp_all add: replace_regular_file_def create_release_temp_def Let_def split: if_splits)
  have temp: "temporary_key h (resolve h ?temp)" by (auto simp: temporary_key_def)
  have files: "changes_only {resolve h ?temp} (w_files w) (w_files w3)"
    using calls_change(1) [OF c] fill_file_change [OF f] lstat_same [OF l] changes_only_trans by metis
  have "w_files w4 = (w_files w3)(resolve h path := w_files w3 (resolve h ?temp), resolve h ?temp := None)"
    using r ok by (auto simp: rename_file_def split: option.splits fs_entry.splits)
  moreover have "w_files w3 (resolve h ?temp) = Some (RegularFile mode contents)" using fill_file_change [OF f] ok by simp
  ultimately show ?thesis using files temp assms(2) ok by (auto simp: changes_only_def)
qed

lemma replace_member:
  assumes "replace_regular_file h (path_join directory n) contents mode w = (None, w')" and n: "n \<in> set signed_names"
  shows "w_files w' (member_key h directory n) = Some (RegularFile mode contents)
    \<and> (\<forall>m\<in>set signed_names. m \<noteq> n \<longrightarrow> w_files w' (member_key h directory m) = w_files w (member_key h directory m))"
  using replace_regular_file_None [OF assms(1)] member_not_temporary [of _ h directory] n
    member_key_inj [of _ n h directory] signed_names_plain
  by (fold member_key_def) blast

lemma write_member:
  assumes "write_exclusive h (path_join directory n) contents mode w = (None, w')" and n: "n \<in> set signed_names"
  shows "w_files w' (member_key h directory n) = Some (RegularFile mode contents)
    \<and> (\<forall>m\<in>set signed_names. m \<noteq> n \<longrightarrow> w_files w' (member_key h directory m) = w_files w (member_key h directory m))"
proof -
  have "member_key h directory m \<noteq> member_key h directory n" if "m \<in> set signed_names" "m \<noteq> n" for m
    using member_key_inj [of m n h directory] signed_names_plain n that by blast
  then show ?thesis using write_exclusive_change [OF assms(1)] by (auto simp: changes_only_def member_key_def)
qed

subsection \<open>The parts\<close>

text \<open>A member that is a regular file with these contents.\<close>

definition member_at :: "'d host \<Rightarrow> bytes \<Rightarrow> files \<Rightarrow> bytes \<Rightarrow> bytes \<Rightarrow> bool" where
  "member_at h directory fs name contents \<longleftrightarrow> (\<exists>perm. fs (member_key h directory name) = Some (RegularFile perm contents))"

lemma inspect_members_None:
  "inspect_members h directory names w = (None, w') \<Longrightarrow>
   w_files w' = w_files w \<and> (\<forall>n\<in>set names. \<exists>c. member_at h directory (w_files w) n c)"
proof (induction names arbitrary: w)
  case (Cons n ns)
  obtain r w1 where r: "read_regular_file h (path_join directory n) maximum_native_archive w = (r, w1)" by fastforce
  then obtain c where c: "r = Inr c" "inspect_members h directory ns w1 = (None, w')" using Cons.prems by (cases r) auto
  note f = read_regular_file_Inr [OF r [unfolded c(1)]]
  show ?case using f Cons.IH [OF c(2)] by (auto simp: member_at_def member_key_def)
qed simp

lemma read_member_contents:
  assumes "read_file h (path_join directory n) w = (Inr x, w')" and "member_at h directory (w_files w) n c"
  shows "x = c \<and> w_files w' = w_files w"
  using assms(2) read_file_content [OF assms(1)] read_file_same [OF assms(1)] by (auto simp: member_at_def member_key_def)

lemma read_input_member:
  assumes "read_input h what (path_join directory n) w = (Inr x, w')" and "member_at h directory (w_files w) n c"
  shows "x = c \<and> w_files w' = w_files w"
  using assms(2) read_input_Inr [OF assms(1)] by (auto simp: member_at_def member_key_def)

lemma prepare_signed_Inr:
  assumes run: "prepare_signed rt h s w = (Inr d, w')"
    and members: "member_at h (so_directory s) (w_files w) ''BUILDINFO.json'' build_text"
      "member_at h (so_directory s) (w_files w) ''himesan'' binary" "member_at h (so_directory s) (w_files w) ''SBOM.spdx.json'' sbom_text"
  shows "w_files w' = w_files w \<and> (\<exists>build sbom. decode_strict rt (rt_decode_build rt build_text) = Inr build
    \<and> decode_strict rt (rt_decode_spdx rt sbom_text) = Inr sbom
    \<and> bu_schema_version build = 1 \<and> rt_digest rt binary \<noteq> bu_binary_sha256 build
    \<and> sbom_matches sbom (bu_binary_sha256 build)
    \<and> indented_json (rt_encode_build rt (signed_build s build (rt_digest rt binary))) = Inr (sg_build d)
    \<and> encode_signed_documents rt s build sbom (rt_digest rt binary) = Inr (sg_sbom d, sg_signing d))"
proof -
  obtain x w1 where x: "read_input h ''unsigned build information'' (path_join (so_directory s) ''BUILDINFO.json'') w = (x, w1)" by fastforce
  then obtain bt where bt: "x = Inr bt" using run by (cases x) (auto simp: prepare_signed_def)
  note one = read_input_member [OF x [unfolded bt] members(1)]
  then obtain build where build: "decode_strict rt (rt_decode_build rt build_text) = Inr build" "bu_schema_version build = 1"
    using run x bt by (auto simp: prepare_signed_def split: sum.splits if_splits)
  obtain y w2 where y: "read_input h ''signed binary'' (path_join (so_directory s) ''himesan'') w1 = (y, w2)" by fastforce
  then obtain bin where bin: "y = Inr bin" using run x bt one build by (cases y) (auto simp: prepare_signed_def split: if_splits)
  have two: "bin = binary \<and> w_files w2 = w_files w1" using read_input_member [OF y [unfolded bin]] members(2) one by simp
  obtain z w3 where z: "read_input h ''unsigned SBOM'' (path_join (so_directory s) ''SBOM.spdx.json'') w2 = (z, w3)" by fastforce
  obtain info where info: "indented_json (rt_encode_build rt (signed_build s build (rt_digest rt binary))) = Inr info"
      "rt_digest rt binary \<noteq> bu_binary_sha256 build"
    using run x bt one build y bin two by (auto simp: prepare_signed_def Let_def split: sum.splits if_splits)
  then obtain st where st: "z = Inr st"
    using run x bt one build y bin two z by (cases z) (auto simp: prepare_signed_def Let_def split: if_splits)
  have three: "st = sbom_text \<and> w_files w3 = w_files w2" using read_input_member [OF z [unfolded st]] members(3) one two by simp
  then obtain sbom documents where docs: "decode_strict rt (rt_decode_spdx rt sbom_text) = Inr sbom" "sbom_matches sbom (bu_binary_sha256 build)"
      "encode_signed_documents rt s build sbom (rt_digest rt binary) = Inr documents"
      "d = \<lparr>sg_build = info, sg_sbom = fst documents, sg_signing = snd documents\<rparr>" "w' = w3"
    using run x bt one build y bin two z st info by (auto simp: prepare_signed_def Let_def split: sum.splits if_splits prod.splits)
  then show ?thesis using one two three build info by auto
qed

lemma signed_checksums_Inr:
  "signed_checksums rt h directory names w = (Inr lines, w') \<Longrightarrow> \<forall>n\<in>set names. member_at h directory (w_files w) n (c n) \<Longrightarrow>
   w_files w' = w_files w \<and> lines = map (\<lambda>n. checksum_line rt n (c n)) names"
proof (induction names arbitrary: w lines)
  case (Cons n ns)
  obtain x w1 where x: "read_file h (path_join directory n) w = (x, w1)" by fastforce
  obtain y w2 where y: "signed_checksums rt h directory ns w1 = (y, w2)" by fastforce
  obtain cx rest where ok: "x = Inr cx" "y = Inr rest" "w2 = w'" "lines = checksum_line rt n cx # rest"
    using Cons.prems(1) x y by (cases x; cases y) auto
  have one: "cx = c n \<and> w_files w1 = w_files w" using read_member_contents [OF x [unfolded ok(1)], of "c n"] Cons.prems(2) by simp
  show ?case using Cons.IH [OF y [unfolded ok(2,3)]] Cons.prems(2) one ok(4) by simp
qed simp

text \<open>The documents written, and the checksums of what is there.\<close>

definition finalized_documents :: "release_tools \<Rightarrow> 'd host \<Rightarrow> bytes \<Rightarrow> signed_documents \<Rightarrow> files \<Rightarrow> files \<Rightarrow> bool" where
  "finalized_documents rt h directory d fs fs' \<longleftrightarrow>
     fs' (member_key h directory ''BUILDINFO.json'') = Some (RegularFile 292 (sg_build d))
   \<and> fs' (member_key h directory ''SBOM.spdx.json'') = Some (RegularFile 292 (sg_sbom d))
   \<and> fs' (member_key h directory ''SIGNING.json'') = Some (RegularFile 292 (sg_signing d))
   \<and> fs (member_key h directory ''SIGNING.json'') = None
   \<and> (\<forall>n\<in>{''LICENSE'', ''RELEASE.md'', ''himesan''}. fs' (member_key h directory n) = fs (member_key h directory n))
   \<and> (\<exists>c. (\<forall>n\<in>set signed_checksum_names. member_at h directory fs' n (c n))
        \<and> fs' (member_key h directory ''SHA256SUMS'')
            = Some (RegularFile 292 (join_with [LF] (map (\<lambda>n. checksum_line rt n (c n)) signed_checksum_names) @ [LF])))"

lemma write_signed_None:
  assumes run: "write_signed rt h directory d w = (None, w')"
    and members: "\<forall>n\<in>{''LICENSE'', ''RELEASE.md'', ''himesan''}. \<exists>c. member_at h directory (w_files w) n c"
  shows "finalized_documents rt h directory d (w_files w) (w_files w')"
proof -
  let ?key = "member_key h directory"
  obtain w1 where one: "replace_regular_file h (path_join directory ''BUILDINFO.json'') (sg_build d) 292 w = (None, w1)"
    using run by (auto simp: write_signed_def then_call_None labelled_None)
  obtain w2 where two: "replace_regular_file h (path_join directory ''SBOM.spdx.json'') (sg_sbom d) 292 w1 = (None, w2)"
    using run one by (auto simp: write_signed_def then_call_None labelled_None)
  obtain w3 where three: "write_exclusive h (path_join directory ''SIGNING.json'') (sg_signing d) 292 w2 = (None, w3)"
    using run one two by (auto simp: write_signed_def then_call_None labelled_None)
  obtain q w4 where q: "signed_checksums rt h directory signed_checksum_names w3 = (q, w4)" by fastforce
  then obtain lines where lines: "q = Inr lines"
      "replace_regular_file h (path_join directory ''SHA256SUMS'') (join_with [LF] lines @ [LF]) 292 w4 = (None, w')"
    using run one two three by (cases q) (auto simp: write_signed_def then_call_None labelled_None)
  have names: "set signed_names = {''SHA256SUMS'', ''BUILDINFO.json'', ''LICENSE'', ''RELEASE.md'', ''SBOM.spdx.json'', ''SIGNING.json'', ''himesan''}"
    by (auto simp: signed_names_def signed_checksum_names_def)
  have ins: "''BUILDINFO.json'' \<in> set signed_names" "''SBOM.spdx.json'' \<in> set signed_names"
      "''SIGNING.json'' \<in> set signed_names" "''SHA256SUMS'' \<in> set signed_names" by (simp_all add: names)
  have a: "w_files w1 (?key ''BUILDINFO.json'') = Some (RegularFile 292 (sg_build d))"
      "\<And>m. m \<in> set signed_names \<Longrightarrow> m \<noteq> ''BUILDINFO.json'' \<Longrightarrow> w_files w1 (?key m) = w_files w (?key m)"
    using replace_member [OF one ins(1)] by blast+
  have b: "w_files w2 (?key ''SBOM.spdx.json'') = Some (RegularFile 292 (sg_sbom d))"
      "\<And>m. m \<in> set signed_names \<Longrightarrow> m \<noteq> ''SBOM.spdx.json'' \<Longrightarrow> w_files w2 (?key m) = w_files w1 (?key m)"
    using replace_member [OF two ins(2)] by blast+
  have c: "w_files w3 (?key ''SIGNING.json'') = Some (RegularFile 292 (sg_signing d))"
      "\<And>m. m \<in> set signed_names \<Longrightarrow> m \<noteq> ''SIGNING.json'' \<Longrightarrow> w_files w3 (?key m) = w_files w2 (?key m)"
    by (rule conjunct1 [OF write_member [OF three ins(3)]]) (rule conjunct2 [OF write_member [OF three ins(3)], rule_format])
  have new: "w_files w2 (?key ''SIGNING.json'') = None"
    using write_exclusive_change [OF three] by (simp add: member_key_def)
  have differ: "''SIGNING.json'' \<noteq> ''BUILDINFO.json''" "''SIGNING.json'' \<noteq> ''SBOM.spdx.json''"
      "''BUILDINFO.json'' \<noteq> ''SBOM.spdx.json''" "''BUILDINFO.json'' \<noteq> ''SIGNING.json''" "''SBOM.spdx.json'' \<noteq> ''SIGNING.json''" by simp_all
  have kept: "w_files w3 (?key n) = w_files w (?key n)" if "n \<in> {''LICENSE'', ''RELEASE.md'', ''himesan''}" for n
  proof -
    have n: "n \<in> set signed_names" "n \<noteq> ''BUILDINFO.json''" "n \<noteq> ''SBOM.spdx.json''" "n \<noteq> ''SIGNING.json''"
      using that unfolding names by auto
    show ?thesis using a(2) [OF n(1,2)] b(2) [OF n(1,3)] c(2) [OF n(1,4)] by simp
  qed
  have at: "w_files w3 (?key ''BUILDINFO.json'') = Some (RegularFile 292 (sg_build d))"
      "w_files w3 (?key ''SBOM.spdx.json'') = Some (RegularFile 292 (sg_sbom d))" "w_files w (?key ''SIGNING.json'') = None"
    using a(1) a(2) [OF ins(3) differ(1)] b(1) b(2) [OF ins(1) differ(3)] b(2) [OF ins(3) differ(2)] new
      c(2) [OF ins(1) differ(4)] c(2) [OF ins(2) differ(5)] by simp_all
  have "\<exists>x. member_at h directory (w_files w3) n x" if "n \<in> set signed_checksum_names" for n
  proof -
    have "n \<in> {''LICENSE'', ''RELEASE.md'', ''himesan''} \<or> n = ''BUILDINFO.json'' \<or> n = ''SBOM.spdx.json'' \<or> n = ''SIGNING.json''"
      using that by (auto simp: signed_checksum_names_def)
    then show ?thesis using members kept [of n] at c(1) unfolding member_at_def by metis
  qed
  then obtain contents where contents: "\<forall>n\<in>set signed_checksum_names. member_at h directory (w_files w3) n (contents n)" by metis
  have sums: "w_files w4 = w_files w3" "lines = map (\<lambda>n. checksum_line rt n (contents n)) signed_checksum_names"
    using signed_checksums_Inr [OF q [unfolded lines(1)] contents] by blast+
  have e: "w_files w' (?key ''SHA256SUMS'') = Some (RegularFile 292 (join_with [LF] lines @ [LF]))"
      "\<And>m. m \<in> set signed_names \<Longrightarrow> m \<noteq> ''SHA256SUMS'' \<Longrightarrow> w_files w' (?key m) = w_files w3 (?key m)"
    using replace_member [OF lines(2) ins(4)] unfolding sums(1) by blast+
  have others: "w_files w' (?key n) = w_files w3 (?key n)" if "n \<in> set signed_checksum_names" for n
  proof -
    have "n \<in> set signed_names" "n \<noteq> ''SHA256SUMS''" using that by (auto simp: signed_names_def signed_checksum_names_def)
    then show ?thesis by (rule e(2))
  qed
  have mem: "''BUILDINFO.json'' \<in> set signed_checksum_names" "''SBOM.spdx.json'' \<in> set signed_checksum_names"
      "''SIGNING.json'' \<in> set signed_checksum_names" "\<forall>n\<in>{''LICENSE'', ''RELEASE.md'', ''himesan''}. n \<in> set signed_checksum_names"
    by (simp_all add: signed_checksum_names_def)
  have "\<forall>n\<in>set signed_checksum_names. member_at h directory (w_files w') n (contents n)"
    using contents others unfolding member_at_def by simp
  moreover have "w_files w' (?key n) = w_files w (?key n)" if "n \<in> {''LICENSE'', ''RELEASE.md'', ''himesan''}" for n
    using others [OF bspec [OF mem(4) that]] kept [OF that] by simp
  ultimately show ?thesis
    unfolding finalized_documents_def
    using at c(1) others [OF mem(1)] others [OF mem(2)] others [OF mem(3)] e(1) [unfolded sums(2)]
    by (intro conjI exI [of _ contents] ballI) simp_all
qed

text \<open>
  C24: A finalized distribution is consistent. If finalization succeeds, whatever the host does, the binary in
  the directory differs from the one the build information named, all documents it writes name the
  digest of that binary: the build information of the signed build, the bill of materials and the signing
  record, which was not there before. Binary, license and release notes are as they were, and the checksum
  file has the line of each of the six files with the digest of what the file now holds.
\<close>

theorem finalized_distribution_consistent:
  assumes "finalize_signed_macos_distribution rt h s w = (None, w')" and "visits_members rt"
  shows "\<exists>binary build_text sbom_text build sbom d.
      member_at h (so_directory s) (w_files w) ''himesan'' binary
    \<and> member_at h (so_directory s) (w_files w) ''BUILDINFO.json'' build_text
    \<and> member_at h (so_directory s) (w_files w) ''SBOM.spdx.json'' sbom_text
    \<and> decode_strict rt (rt_decode_build rt build_text) = Inr build \<and> bu_schema_version build = 1
    \<and> decode_strict rt (rt_decode_spdx rt sbom_text) = Inr sbom \<and> sbom_matches sbom (bu_binary_sha256 build)
    \<and> rt_digest rt binary \<noteq> bu_binary_sha256 build
    \<and> indented_json (rt_encode_build rt (signed_build s build (rt_digest rt binary))) = Inr (sg_build d)
    \<and> encode_signed_documents rt s build sbom (rt_digest rt binary) = Inr (sg_sbom d, sg_signing d)
    \<and> sbom_matches (signed_sbom sbom (rt_digest rt binary)) (rt_digest rt binary)
    \<and> finalized_documents rt h (so_directory s) d (w_files w) (w_files w')"
proof -
  let ?names = "rt_range rt (map fst unsigned_package_members)"
  obtain a w1 where a: "inspect_members h (so_directory s) ?names w = (a, w1)" by fastforce
  obtain p w2 where p: "prepare_signed rt h s w1 = (p, w2)" by fastforce
  obtain d where ok: "a = None" "p = Inr d" "write_signed rt h (so_directory s) d w2 = (None, w')"
    using assms(1) a p by (cases a; cases p) (auto simp: finalize_signed_macos_distribution_def split: option.splits)
  have six: "set ?names = {''BUILDINFO.json'', ''LICENSE'', ''RELEASE.md'', ''SBOM.spdx.json'', ''SHA256SUMS'', ''himesan''}"
    using assms(2) by (auto simp: visits_members_def unsigned_package_members_def)
  have there: "w_files w1 = w_files w" "\<And>n. n \<in> set ?names \<Longrightarrow> \<exists>c. member_at h (so_directory s) (w_files w) n c"
    using inspect_members_None [OF a [unfolded ok(1)]] by blast+
  obtain binary build_text sbom_text where m: "member_at h (so_directory s) (w_files w) ''himesan'' binary"
      "member_at h (so_directory s) (w_files w) ''BUILDINFO.json'' build_text"
      "member_at h (so_directory s) (w_files w) ''SBOM.spdx.json'' sbom_text"
    using there(2) [of "''himesan''"] there(2) [of "''BUILDINFO.json''"] there(2) [of "''SBOM.spdx.json''"] unfolding six by auto
  note prepared = prepare_signed_Inr [OF p [unfolded ok(2)]]
  obtain build sbom where b: "w_files w2 = w_files w" "decode_strict rt (rt_decode_build rt build_text) = Inr build"
      "decode_strict rt (rt_decode_spdx rt sbom_text) = Inr sbom" "bu_schema_version build = 1"
      "rt_digest rt binary \<noteq> bu_binary_sha256 build" "sbom_matches sbom (bu_binary_sha256 build)"
      "indented_json (rt_encode_build rt (signed_build s build (rt_digest rt binary))) = Inr (sg_build d)"
      "encode_signed_documents rt s build sbom (rt_digest rt binary) = Inr (sg_sbom d, sg_signing d)"
    using prepared [of build_text binary sbom_text] m there(1) by auto
  have "sbom_matches (signed_sbom sbom (rt_digest rt binary)) (rt_digest rt binary)"
    using b(6) by (auto simp: sbom_matches_def signed_sbom_def split: list.splits)
  moreover have "\<forall>n\<in>{''LICENSE'', ''RELEASE.md'', ''himesan''}. \<exists>c. member_at h (so_directory s) (w_files w2) n c"
    using there(2) b(1) unfolding six by auto
  from write_signed_None [OF ok(3) this] have "finalized_documents rt h (so_directory s) d (w_files w) (w_files w')"
    unfolding b(1) .
  ultimately show ?thesis using m b by blast
qed

subsection \<open>An example\<close>

lemma quiet_replace_member:
  assumes quiet: "quiet_host h" and n: "n \<in> set signed_names" and there: "member_at h directory (w_files w) n c"
    and free: "\<forall>key. temporary_key h key \<longrightarrow> w_files w key = None"
  shows "\<exists>w'. replace_regular_file h (path_join directory n) contents mode w = (None, w')
    \<and> w_files w' = (w_files w)(member_key h directory n \<mapsto> RegularFile mode contents)"
proof -
  let ?path = "path_join directory n"
  obtain perm where e: "w_files w (resolve h ?path) = Some (RegularFile perm c)" using there by (auto simp: member_at_def member_key_def)
  let ?temp = "release_temporary (path_dir ?path) (host_random h (w_clock (tick w)))"
  have temp: "w_files w (resolve h ?temp) = None" "resolve h ?temp \<noteq> resolve h ?path"
    using free member_not_temporary [OF n, of h directory] unfolding temporary_key_def member_key_def by (blast, metis)
  have l: "lstat h ?path w = (Inr (RegularFile perm c), tick w)" using e by (simp add: quiet_calls [OF quiet])
  obtain w2 where c: "create_exclusive h ?temp 384 (tick w) = (None, w2)" "w_files w2 = (w_files w)(resolve h ?temp \<mapsto> RegularFile 384 [])"
    using quiet temp(1) by (simp add: create_exclusive_def quiet_host_def)
  obtain w3 where f: "fill_file h ?temp 384 contents mode w2 = (None, w3)"
      "w_files w3 = (w_files w2)(resolve h ?temp \<mapsto> RegularFile mode contents)"
    using quiet by (simp add: fill_file_def write_open_def plain_call_def change_file_def quiet_host_def)
  have "w_files w3 (resolve h ?path) = Some (RegularFile perm c)" using e f(2) c(2) temp(2) by auto
  then obtain w4 where r: "rename_file h ?temp ?path w3 = (None, w4)"
      "w_files w4 = (w_files w3)(resolve h ?path := w_files w3 (resolve h ?temp), resolve h ?temp := None)"
    using quiet by (simp add: rename_file_def quiet_host_def)
  have "w_files w4 = (w_files w)(resolve h ?path \<mapsto> RegularFile mode contents)"
    using r(2) f(2) c(2) temp by (auto simp: fun_eq_iff)
  then show ?thesis using l c(1) f(1) r(1)
    by (simp add: replace_regular_file_def create_release_temp_def unsuitable_def Let_def member_key_def)
qed

lemma quiet_signed_checksums:
  assumes "quiet_host h"
  shows "\<forall>n\<in>set names. \<exists>c. member_at h directory (w_files w) n c \<Longrightarrow>
    \<exists>lines w'. signed_checksums rt h directory names w = (Inr lines, w') \<and> w_files w' = w_files w"
proof (induction names arbitrary: w)
  case (Cons n ns)
  then obtain c w1 where r: "read_file h (path_join directory n) w = (Inr c, w1)" "w_files w1 = w_files w"
    using quiet_read_file [OF assms] by (auto simp: member_at_def member_key_def) metis
  obtain lines w2 where "signed_checksums rt h directory ns w1 = (Inr lines, w2)" "w_files w2 = w_files w1"
    using Cons.IH [of w1] Cons.prems r(2) by auto
  then show ?case using r by auto
qed simp

lemma quiet_write_signed:
  assumes quiet: "quiet_host h" and there: "\<forall>n\<in>set signed_names - {''SIGNING.json''}. \<exists>c. member_at h directory (w_files w) n c"
    and new: "w_files w (member_key h directory ''SIGNING.json'') = None"
    and free: "\<forall>key. temporary_key h key \<longrightarrow> w_files w key = None"
  shows "\<exists>w'. write_signed rt h directory d w = (None, w')"
proof -
  let ?key = "member_key h directory"
  have ins: "''BUILDINFO.json'' \<in> set signed_names" "''SBOM.spdx.json'' \<in> set signed_names"
      "''SIGNING.json'' \<in> set signed_names" "''SHA256SUMS'' \<in> set signed_names"
    by (simp_all add: signed_names_def signed_checksum_names_def)
  have temps: "\<forall>key. temporary_key h key \<longrightarrow> (fs(?key n := e)) key = None"
    if "\<forall>key. temporary_key h key \<longrightarrow> fs key = None" "n \<in> set signed_names" for fs :: files and n e
    using that member_not_temporary [OF that(2), of h directory] by auto
  have keep: "member_at h directory (fs(?key m \<mapsto> RegularFile p x)) n y \<or> (\<exists>z. member_at h directory (fs(?key m \<mapsto> RegularFile p x)) n z)"
    if "member_at h directory fs n y" for fs m n p x y
    using that by (auto simp: member_at_def)
  obtain c1 where m1: "member_at h directory (w_files w) ''BUILDINFO.json'' c1" using there ins(1) by auto
  obtain w1 where one: "replace_regular_file h (path_join directory ''BUILDINFO.json'') (sg_build d) 292 w = (None, w1)"
      "w_files w1 = (w_files w)(?key ''BUILDINFO.json'' \<mapsto> RegularFile 292 (sg_build d))"
    using quiet_replace_member [OF quiet ins(1) m1 free] by blast
  obtain c0 where "member_at h directory (w_files w) ''SBOM.spdx.json'' c0" using there ins(2) by auto
  then obtain c2 where m2: "member_at h directory (w_files w1) ''SBOM.spdx.json'' c2" using keep one(2) by metis
  obtain w2 where two: "replace_regular_file h (path_join directory ''SBOM.spdx.json'') (sg_sbom d) 292 w1 = (None, w2)"
      "w_files w2 = (w_files w1)(?key ''SBOM.spdx.json'' \<mapsto> RegularFile 292 (sg_sbom d))"
    using quiet_replace_member [OF quiet ins(2) m2] temps [OF free ins(1)] one(2) by metis
  have "?key ''SIGNING.json'' \<noteq> ?key ''BUILDINFO.json''" "?key ''SIGNING.json'' \<noteq> ?key ''SBOM.spdx.json''"
    using member_key_inj [of "''SIGNING.json''" _ h directory] by (auto simp: plain_part_def)
  then have "w_files w2 (resolve h (path_join directory ''SIGNING.json'')) = None"
    using new one(2) two(2) by (simp add: member_key_def)
  then obtain w3 where three: "write_exclusive h (path_join directory ''SIGNING.json'') (sg_signing d) 292 w2 = (None, w3)"
      "w_files w3 = (w_files w2)(?key ''SIGNING.json'' \<mapsto> RegularFile 292 (sg_signing d))"
    using quiet_write_exclusive [OF quiet] unfolding member_key_def by blast
  have all: "\<exists>c. member_at h directory (w_files w3) n c" if "n \<in> set signed_names" for n
  proof (cases "n = ''SIGNING.json''")
    case True
    then show ?thesis using three(2) by (auto simp: member_at_def)
  next
    case False
    then have "n \<in> set signed_names - {''SIGNING.json''}" using that by blast
    then obtain c where "member_at h directory (w_files w) n c" using there by blast
    then show ?thesis unfolding three(2) two(2) one(2) using keep by metis
  qed
  obtain lines w4 where four: "signed_checksums rt h directory signed_checksum_names w3 = (Inr lines, w4)" "w_files w4 = w_files w3"
    using quiet_signed_checksums [OF quiet, of signed_checksum_names directory w3 rt] all by (auto simp: signed_names_def)
  obtain c5 where m5: "member_at h directory (w_files w4) ''SHA256SUMS'' c5" using all ins(4) four(2) by auto
  have "\<forall>key. temporary_key h key \<longrightarrow> w_files w4 key = None"
    unfolding four(2) three(2) two(2) one(2) by (intro temps free ins)
  then obtain w5 where "replace_regular_file h (path_join directory ''SHA256SUMS'') (join_with [LF] lines @ [LF]) 292 w4 = (None, w5)"
    using quiet_replace_member [OF quiet ins(4) m5] by blast
  then show ?thesis using one(1) two(1) three(1) four(1) by (simp add: write_signed_def then_call_def labelled_def)
qed

lemma quiet_inspect_members:
  assumes "quiet_host h"
  shows "\<forall>n\<in>set names. \<exists>c. length c \<le> maximum_native_archive \<and> member_at h directory (w_files w) n c \<Longrightarrow>
    \<exists>w'. inspect_members h directory names w = (None, w') \<and> w_files w' = w_files w"
proof (induction names arbitrary: w)
  case (Cons n ns)
  then obtain c perm where c: "length c \<le> maximum_native_archive" "w_files w (resolve h (path_join directory n)) = Some (RegularFile perm c)"
    by (auto simp: member_at_def member_key_def)
  obtain w1 where r: "read_regular_file h (path_join directory n) maximum_native_archive w = (Inr c, w1)" "w_files w1 = w_files w"
    using quiet_read_regular_file [OF assms c(2,1)] by blast
  obtain w2 where "inspect_members h directory ns w1 = (None, w2)" "w_files w2 = w_files w1"
    using Cons.IH [of w1] Cons.prems r(2) by auto
  then show ?case using r by auto
qed simp

definition signing_tools :: release_tools where
  "signing_tools = sample_release_tools\<lparr>rt_digest := \<lambda>s. s\<rparr>"

definition sample_signing :: signing_options where
  "sample_signing = \<lparr>so_directory = ''/e'', so_unsigned_archive_sha256 = replicate 64 (CHR ''a''), so_identity = ''i'',
     so_identifier = ''b'', so_finalized_at = ''t''\<rparr>"

definition unsigned_text :: "bytes \<Rightarrow> bytes" where
  "unsigned_text name =
     (if name = ''BUILDINFO.json'' \<or> name = ''SBOM.spdx.json'' then replicate 64 (CHR ''a'') @ [LF]
      else if name = ''himesan'' then ''signed'' else ''text'')"

definition unsigned_world :: world where
  "unsigned_world = \<lparr>w_files = (\<lambda>key. if key \<in> member_key sample_host ''/e'' ` (set signed_names - {''SIGNING.json''})
       then Some (RegularFile 292 (unsigned_text (the (find (\<lambda>n. member_key sample_host ''/e'' n = key) signed_names)))) else None),
     w_clock = 0\<rparr>"

lemma unsigned_members:
  assumes "n \<in> set signed_names" "n \<noteq> ''SIGNING.json''"
  shows "w_files unsigned_world (member_key sample_host ''/e'' n) = Some (RegularFile 292 (unsigned_text n))"
proof -
  have "(\<lambda>m. member_key sample_host ''/e'' m = member_key sample_host ''/e'' n) m = (m = n)" if "m \<in> set signed_names" for m
    using member_key_inj [of m n sample_host "''/e''"] signed_names_plain that assms(1) by blast
  then have "find (\<lambda>m. member_key sample_host ''/e'' m = member_key sample_host ''/e'' n) signed_names = find (\<lambda>m. m = n) signed_names"
    by (intro find_cong) simp_all
  moreover have "find (\<lambda>m. m = n) signed_names = Some n" using assms(1) by (auto simp: signed_names_def signed_checksum_names_def)
  ultimately show ?thesis using assms by (simp add: unsigned_world_def)
qed

theorem finalized_distribution_consistent_witness:
  "\<exists>w' d. finalize_signed_macos_distribution signing_tools sample_host sample_signing unsigned_world = (None, w')
    \<and> finalized_documents signing_tools sample_host ''/e'' d (w_files unsigned_world) (w_files w')"
proof -
  note quiet = sample_laws(5)
  let ?w = unsigned_world
  have dir: "so_directory sample_signing = ''/e''" by (simp add: sample_signing_def)
  have range: "visits_members signing_tools" using sample_laws(2) by (simp add: visits_members_def signing_tools_def)
  have there: "member_at sample_host ''/e'' (w_files ?w) n (unsigned_text n)" if "n \<in> set signed_names" "n \<noteq> ''SIGNING.json''" for n
    using unsigned_members [OF that] by (auto simp: member_at_def)
  have names: "set (rt_range signing_tools (map fst unsigned_package_members)) \<subseteq> set signed_names - {''SIGNING.json''}"
    by (auto simp: signing_tools_def sample_release_tools_def unsigned_package_members_def signed_names_def signed_checksum_names_def)
  have small: "length (unsigned_text n) \<le> maximum_native_archive" for n
    by (simp add: unsigned_text_def maximum_native_archive_def)
  have all: "\<forall>n\<in>set (rt_range signing_tools (map fst unsigned_package_members)).
      \<exists>c. length c \<le> maximum_native_archive \<and> member_at sample_host ''/e'' (w_files ?w) n c"
    using names there small by blast
  obtain w1 where one: "inspect_members sample_host ''/e'' (rt_range signing_tools (map fst unsigned_package_members)) ?w = (None, w1)"
      "w_files w1 = w_files ?w"
    using quiet_inspect_members [OF quiet all] by blast
  have read: "\<exists>v'. read_input sample_host what (path_join ''/e'' n) v = (Inr (unsigned_text n), v') \<and> w_files v' = w_files ?w"
    if "w_files v = w_files ?w" "n \<in> set signed_names" "n \<noteq> ''SIGNING.json''" for what n v
    using quiet_read_input [OF quiet, of v "path_join ''/e'' n" 292 "unsigned_text n" what] unsigned_members [OF that(2,3)] that(1)
    by (simp add: member_key_def)
  have ins: "''BUILDINFO.json'' \<in> set signed_names" "''SBOM.spdx.json'' \<in> set signed_names" "''himesan'' \<in> set signed_names"
    by (simp_all add: signed_names_def signed_checksum_names_def)
  obtain w2 where two: "read_input sample_host ''unsigned build information'' (path_join ''/e'' ''BUILDINFO.json'') w1
      = (Inr (replicate 64 (CHR ''a'') @ [LF]), w2)" "w_files w2 = w_files ?w"
    using read [OF one(2) ins(1)] by (auto simp: unsigned_text_def simp del: replicate.simps replicate_numeral)
  obtain w3 where three: "read_input sample_host ''signed binary'' (path_join ''/e'' ''himesan'') w2 = (Inr ''signed'', w3)" "w_files w3 = w_files ?w"
    using read [OF two(2) ins(3)] by (auto simp: unsigned_text_def)
  obtain w4 where four: "read_input sample_host ''unsigned SBOM'' (path_join ''/e'' ''SBOM.spdx.json'') w3
      = (Inr (replicate 64 (CHR ''a'') @ [LF]), w4)" "w_files w4 = w_files ?w"
    using read [OF three(2) ins(2)] by (auto simp: unsigned_text_def simp del: replicate.simps replicate_numeral)
  have changed: "''signed'' \<noteq> replicate 64 (CHR ''a'')"
  proof
    assume "''signed'' = replicate 64 (CHR ''a'')"
    then have "length ''signed'' = 64" by (simp only: length_replicate)
    then show False by simp
  qed
  obtain d where p: "prepare_signed signing_tools sample_host sample_signing w1 = (Inr d, w4)"
    using two(1) three(1) four(1) changed sample_patterns(1)
    by (simp add: prepare_signed_def dir decode_strict_def require_json_eof_def signing_tools_def sample_release_tools_def indented_json_def
        sbom_matches_def encode_signed_documents_def Let_def del: replicate.simps replicate_numeral)
  have free: "\<forall>key. temporary_key sample_host key \<longrightarrow> w_files w4 key = None"
    unfolding four(2) using member_not_temporary by (auto simp: unsigned_world_def)
  have new: "w_files w4 (member_key sample_host ''/e'' ''SIGNING.json'') = None"
    unfolding four(2) using member_key_inj [of "''SIGNING.json''" _ sample_host "''/e''"] signed_names_plain
    by (auto simp: unsigned_world_def plain_part_def)
  obtain w5 where "write_signed signing_tools sample_host ''/e'' d w4 = (None, w5)"
    using quiet_write_signed [OF quiet _ new free, of signing_tools d] there four(2) by auto
  then have run: "finalize_signed_macos_distribution signing_tools sample_host sample_signing ?w = (None, w5)"
    using one(1) p sample_patterns(1)
    by (simp add: finalize_signed_macos_distribution_def dir validate_signing_options_def problem_free)
      (simp add: sample_signing_def one_line_def signing_tools_def sample_release_tools_def go_eval del: replicate.simps replicate_numeral)
  then show ?thesis using finalized_distribution_consistent [OF run range] unfolding dir by blast
qed

subsection \<open>The digest of generated files\<close>

text \<open>
  \<open>DigestFiles\<close> hashes names and contents closed by NUL bytes. A file whose contents hold a NUL byte can
  therefore pass for several files, whatever the digest function is.
\<close>

lemma digest_files_ambiguous:
  "fst (digest_files rt sample_host [''/a'']
      \<lparr>w_files = [''/a'' \<mapsto> RegularFile 420 (''x'' @ [CHR 0x00] @ ''/b'' @ [CHR 0x00] @ ''y'')], w_clock = 0\<rparr>)
   = fst (digest_files rt sample_host [''/a'', ''/b'']
      \<lparr>w_files = [''/a'' \<mapsto> RegularFile 420 ''x'', ''/b'' \<mapsto> RegularFile 420 ''y''], w_clock = 0\<rparr>)"
  by (simp add: digest_files_def sample_host_def follow_forty go_eval)

text \<open>
  A version with a leading zero in a numeric identifier is not a semantic version, and the compiler does not
  take it for a release; the packaging pattern accepts it.
\<close>

lemma release_version_leading_zero:
  "matches release_version_pattern ''v1.0.0-01'' \<and> \<not> is_tagged_compiler_version ''v1.0.0-01''"
proof -
  have accepted: "matches tagged_compiler_version_pattern ''v1.0.0-01''"
    by (simp add: go_eval tagged_compiler_version_pattern_def number_pattern_def prerelease_pattern_def identifier_char_def is_digit_def)
  have prerelease: "tagged_prerelease ''v1.0.0-01'' = Some ''01''"
    unfolding tagged_prerelease_def if_not_P [OF not_not [THEN iffD2, OF accepted]] by (simp add: go_eval)
  have "\<not> is_tagged_compiler_version ''v1.0.0-01''"
    by (simp add: is_tagged_compiler_version_def prerelease all_decimal_def is_digit_def go_eval)
  then show ?thesis using accepted by (simp only: release_version_pattern_def simp_thms)
qed

end
