(* ===== verification/Go_Flags.thy ===== *)
theory Go_Flags
  imports Go_Net Go_Literals
begin

section \<open>Command line flags: Go's flag package\<close>

text \<open>
  \<open>FlagSet.Parse\<close> with \<open>ContinueOnError\<close> for the kinds of flags the two commands define, and the
  conversions of \<open>strconv\<close> behind them. A set flag is kept with its name in the order of the arguments,
  so that the last one counts and a repeatable flag gives a list.
\<close>

subsection \<open>Numbers and truth values: strconv\<close>

definition parse_bool :: "bytes \<Rightarrow> bool option" where
  "parse_bool s =
     (if s \<in> set [''1'', ''t'', ''T'', ''TRUE'', ''true'', ''True''] then Some True
      else if s \<in> set [''0'', ''f'', ''F'', ''FALSE'', ''false'', ''False''] then Some False else None)"

definition digit_value :: "byte \<Rightarrow> nat option" where
  "digit_value b =
     (if is_digit b then Some (code b - 48)
      else (let l = ascii_lower b in if 97 \<le> code l \<and> code l \<le> 122 then Some (code l - 87) else None))"

text \<open>The digits of a number in a base; underscores are passed over.\<close>

fun base_digits :: "nat \<Rightarrow> bytes \<Rightarrow> nat \<Rightarrow> bytes + nat" where
  "base_digits base [] n = Inr n"
| "base_digits base (b # s) n =
     (if b = CHR ''_'' then base_digits base s n
      else (case digit_value b of
          None \<Rightarrow> Inl ''parse error''
        | Some d \<Rightarrow>
            (if base \<le> d then Inl ''parse error''
             else if 2 ^ 64 \<le> n * base + d then Inl ''value out of range''
             else base_digits base s (n * base + d))))"

text \<open>Base prefixes of base 0: \<open>0b\<close>, \<open>0o\<close>, \<open>0x\<close> and the old octal \<open>0\<close>.\<close>

definition number_base :: "bytes \<Rightarrow> nat \<times> bytes" where
  "number_base s =
     (if has_prefix ''0'' s then
        (if 3 \<le> length s \<and> ascii_lower (s ! 1) = CHR ''b'' then (2, drop 2 s)
         else if 3 \<le> length s \<and> ascii_lower (s ! 1) = CHR ''o'' then (8, drop 2 s)
         else if 3 \<le> length s \<and> ascii_lower (s ! 1) = CHR ''x'' then (16, drop 2 s)
         else (8, drop 1 s))
      else (10, s))"

text \<open>An underscore stands between digits, or between the prefix and a digit; what was seen before.\<close>

datatype underscore_seen = SeenStart | SeenDigit | SeenUnderscore | SeenOther

fun underscores_from :: "bool \<Rightarrow> underscore_seen \<Rightarrow> bytes \<Rightarrow> bool" where
  "underscores_from hexadecimal seen [] = (seen \<noteq> SeenUnderscore)"
| "underscores_from hexadecimal seen (b # s) =
     (if is_digit b \<or> (hexadecimal \<and> 97 \<le> code (ascii_lower b) \<and> code (ascii_lower b) \<le> 102)
      then underscores_from hexadecimal SeenDigit s
      else if b = CHR ''_'' then (seen = SeenDigit \<and> underscores_from hexadecimal SeenUnderscore s)
      else seen \<noteq> SeenUnderscore \<and> underscores_from hexadecimal SeenOther s)"

definition underscores_ok :: "bytes \<Rightarrow> bool" where
  "underscores_ok s =
     (if 2 \<le> length s \<and> s ! 0 = CHR ''0'' \<and> ascii_lower (s ! 1) \<in> set ''box''
      then underscores_from (ascii_lower (s ! 1) = CHR ''x'') SeenDigit (drop 2 s)
      else underscores_from False SeenStart s)"

text \<open>\<open>ParseInt(s, 0, 64)\<close> with the two errors \<open>flag\<close> makes of it.\<close>

definition parse_int64 :: "bytes \<Rightarrow> bytes + int" where
  "parse_int64 s =
     (let negative = has_prefix ''-'' s; magnitude = (if negative \<or> has_prefix ''+'' s then drop 1 s else s) in
      if magnitude = [] then Inl ''parse error''
      else (case number_base magnitude of (base, digits) \<Rightarrow>
        (case base_digits base digits 0 of
           Inl e \<Rightarrow> Inl e
         | Inr n \<Rightarrow>
             (if CHR ''_'' \<in> set digits \<and> \<not> underscores_ok magnitude then Inl ''parse error''
              else if n < 2 ^ 63 \<or> negative \<and> n = 2 ^ 63 then Inr (if negative then - int n else int n)
              else Inl ''value out of range''))))"

subsection \<open>Flags\<close>

text \<open>A flag of the last kind has a type of the program, whose \<open>Set\<close> may object to a value.\<close>

datatype flag_kind = BoolFlag | TextFlag | IntegerFlag | CheckedFlag "bytes \<Rightarrow> bytes option"

datatype flag_value = FlagBool bool | FlagText bytes | FlagInteger int

fun set_flag :: "flag_kind \<Rightarrow> bytes \<Rightarrow> bytes + flag_value" where
  "set_flag BoolFlag s = (case parse_bool s of None \<Rightarrow> Inl ''parse error'' | Some b \<Rightarrow> Inr (FlagBool b))"
| "set_flag TextFlag s = Inr (FlagText s)"
| "set_flag IntegerFlag s = (case parse_int64 s of Inl e \<Rightarrow> Inl e | Inr i \<Rightarrow> Inr (FlagInteger i))"
| "set_flag (CheckedFlag objection) s = (case objection s of Some e \<Rightarrow> Inl e | None \<Rightarrow> Inr (FlagText s))"

datatype flag_word = NoFlag | FlagsEnd | BadFlag | FlagWord bytes "bytes option"

definition flag_word_of :: "bytes \<Rightarrow> flag_word" where
  "flag_word_of s =
     (if length s < 2 \<or> s ! 0 \<noteq> CHR ''-'' then NoFlag
      else if s = ''--'' then FlagsEnd
      else (let name = (if s ! 1 = CHR ''-'' then drop 2 s else drop 1 s) in
        if name ! 0 = CHR ''-'' \<or> name ! 0 = CHR ''='' then BadFlag
        else (case cut_at (CHR ''='') name of
            None \<Rightarrow> FlagWord name None
          | Some (before, value) \<Rightarrow> FlagWord before (Some value))))"

datatype flag_outcome = FlagsParsed "(bytes \<times> flag_value) list" "bytes list" | FlagsHelp | FlagsWrong bytes

text \<open>A value that is refused: a truth value and another are reported differently.\<close>

definition refused_value :: "(nat \<Rightarrow> bool) \<Rightarrow> flag_kind \<Rightarrow> bytes \<Rightarrow> bytes \<Rightarrow> bytes \<Rightarrow> bytes" where
  "refused_value is_print kind name value e =
     (if kind = BoolFlag then ''invalid boolean value '' @ go_quote is_print value @ '' for -'' @ name @ '': '' @ e
      else ''invalid value '' @ go_quote is_print value @ '' for flag -'' @ name @ '': '' @ e)"

fun parse_flags ::
  "(nat \<Rightarrow> bool) \<Rightarrow> (bytes \<times> flag_kind) list \<Rightarrow> (bytes \<times> flag_value) list \<Rightarrow> bytes list \<Rightarrow> flag_outcome" where
  \<comment> \<open>the flags set so far, and the arguments that are left\<close>
  "parse_flags is_print formal vs [] = FlagsParsed vs []"
| "parse_flags is_print formal vs (s # args) =
     (case flag_word_of s of
        NoFlag \<Rightarrow> FlagsParsed vs (s # args)
      | FlagsEnd \<Rightarrow> FlagsParsed vs args
      | BadFlag \<Rightarrow> FlagsWrong (''bad flag syntax: '' @ s)
      | FlagWord name given \<Rightarrow>
          (case map_of formal name of
             None \<Rightarrow> (if name = ''help'' \<or> name = ''h'' then FlagsHelp
                 else FlagsWrong (''flag provided but not defined: -'' @ name))
           | Some kind \<Rightarrow>
               (case (if given = None \<and> kind = BoolFlag then Some ''true'' else given) of
                  Some value \<Rightarrow>
                    (case set_flag kind value of
                       Inl e \<Rightarrow> FlagsWrong (refused_value is_print kind name value e)
                     | Inr v \<Rightarrow> parse_flags is_print formal (vs @ [(name, v)]) args)
                | None \<Rightarrow>
                    (case args of
                       [] \<Rightarrow> FlagsWrong (''flag needs an argument: -'' @ name)
                     | value # rest \<Rightarrow>
                         (case set_flag kind value of
                            Inl e \<Rightarrow> FlagsWrong (refused_value is_print kind name value e)
                          | Inr v \<Rightarrow> parse_flags is_print formal (vs @ [(name, v)]) rest)))))"

declare parse_flags.simps [simp del, go_eval]

subsection \<open>Reading the flags\<close>

definition last_setting :: "(bytes \<times> flag_value) list \<Rightarrow> bytes \<Rightarrow> flag_value option" where
  "last_setting vs name = map_of (rev vs) name"

definition flag_bool :: "(bytes \<times> flag_value) list \<Rightarrow> bytes \<Rightarrow> bool" where
  "flag_bool vs name = (last_setting vs name = Some (FlagBool True))"

definition flag_text :: "(bytes \<times> flag_value) list \<Rightarrow> bytes \<Rightarrow> bytes \<Rightarrow> bytes" where
  "flag_text vs name fallback = (case last_setting vs name of Some (FlagText s) \<Rightarrow> s | _ \<Rightarrow> fallback)"

definition flag_integer :: "(bytes \<times> flag_value) list \<Rightarrow> bytes \<Rightarrow> int" where
  "flag_integer vs name = (case last_setting vs name of Some (FlagInteger i) \<Rightarrow> i | _ \<Rightarrow> 0)"

definition flag_list :: "(bytes \<times> flag_value) list \<Rightarrow> bytes \<Rightarrow> bytes list" where
  "flag_list vs name = concat (map (\<lambda>(n, v). if n = name then (case v of FlagText s \<Rightarrow> [s] | _ \<Rightarrow> []) else []) vs)"

declare parse_bool_def [go_eval] digit_value_def [go_eval] number_base_def [go_eval] underscores_ok_def [go_eval]
  parse_int64_def [go_eval] flag_word_of_def [go_eval] refused_value_def [go_eval] last_setting_def [go_eval]
  flag_bool_def [go_eval] flag_text_def [go_eval] flag_integer_def [go_eval] flag_list_def [go_eval]

end
