(* ===== verification/Release_Command.thy ===== *)
theory Release_Command
  imports Go_Flags Release_Native Release_Macos
begin

section \<open>The release command: cmd/himesan-release/main.go\<close>

text \<open>
  The subcommands with their flags, the values they put into the options of internal/releaseartifact, and
  what is printed. Parameters beyond the tools of that package are the usage texts of the flag package and
  the JSON encoders of the answers, which fail when standard output does.
\<close>

record release_env =
  rl_tools :: release_tools
  rl_is_print :: "nat \<Rightarrow> bool"
  rl_json_summary :: "receipt_summary \<Rightarrow> bytes + bytes"
  rl_json_package :: "bytes \<Rightarrow> bytes \<Rightarrow> bytes + bytes"
  rl_json_texts :: "(bytes \<times> bytes) list \<Rightarrow> bytes + bytes"
  rl_json_valid :: "bytes \<Rightarrow> bytes list \<Rightarrow> bytes + bytes"

text \<open>A command gives an error, or what it printed.\<close>

type_synonym release_answer = "(bytes + bytes) \<times> world"

text \<open>The common start: the flags, or the error that ends the command; asking for help is one.\<close>

definition with_flags ::
  "release_env \<Rightarrow> (bytes \<times> flag_kind) list \<Rightarrow> bytes list \<Rightarrow> ((bytes \<times> flag_value) list \<Rightarrow> release_answer) \<Rightarrow> world \<Rightarrow>
   release_answer" where
  "with_flags env formal args command w =
     (case parse_flags (rl_is_print env) formal [] args of
        FlagsHelp \<Rightarrow> (Inl ''flag: help requested'', w)
      | FlagsWrong e \<Rightarrow> (Inl e, w)
      | FlagsParsed vs rest \<Rightarrow> command vs)"

definition text_flags :: "bytes list \<Rightarrow> (bytes \<times> flag_kind) list" where
  "text_flags names = map (\<lambda>name. (name, TextFlag)) names"

abbreviation given :: "(bytes \<times> flag_value) list \<Rightarrow> bytes \<Rightarrow> bytes" where
  "given vs name \<equiv> flag_text vs name []"

definition run_verify_native :: "release_env \<Rightarrow> 'd host \<Rightarrow> bytes list \<Rightarrow> world \<Rightarrow> release_answer" where
  "run_verify_native env h args w = with_flags env (text_flags [''directory'', ''repository'', ''commit'', ''tree'']) args (\<lambda>vs.
     (case verify_native_receipt_set (rl_tools env) (rl_is_print env) h (given vs ''directory'')
          \<lparr>ne_repository = given vs ''repository'', ne_commit = given vs ''commit'', ne_tree = given vs ''tree''\<rparr> w of
        (Inl e, w) \<Rightarrow> (Inl e, w)
      | (Inr summary, w) \<Rightarrow> (rl_json_summary env summary, w))) w"

definition run_extract_macos :: "release_env \<Rightarrow> 'd host \<Rightarrow> bytes list \<Rightarrow> world \<Rightarrow> release_answer" where
  "run_extract_macos env h args w = with_flags env (text_flags [''archive'', ''sha256'', ''output'']) args (\<lambda>vs.
     (case extract_verified_macos_package (rl_tools env) (rl_is_print env) h (given vs ''archive'') (given vs ''sha256'')
          (given vs ''output'') w of
        (Inl e, w) \<Rightarrow> (Inl e, w)
      | (Inr root, w) \<Rightarrow>
          (rl_json_texts env [(''root'', root), (''unsigned_archive_sha256'', given vs ''sha256'')], w))) w"

definition run_finalize_macos :: "release_env \<Rightarrow> 'd host \<Rightarrow> bytes list \<Rightarrow> world \<Rightarrow> release_answer" where
  "run_finalize_macos env h args w =
     with_flags env (text_flags [''directory'', ''unsigned-archive-sha256'', ''identity'', ''identifier'', ''finalized-at'']) args (\<lambda>vs.
     (case finalize_signed_macos_distribution (rl_tools env) h
          \<lparr>so_directory = given vs ''directory'', so_unsigned_archive_sha256 = given vs ''unsigned-archive-sha256'',
           so_identity = given vs ''identity'', so_identifier = given vs ''identifier'', so_finalized_at = given vs ''finalized-at''\<rparr> w of
        (Some e, w) \<Rightarrow> (Inl e, w)
      | (None, w) \<Rightarrow> (rl_json_valid env (given vs ''directory'') [], w))) w"

text \<open>The flags of the identity of evidence, with those of the review or without.\<close>

definition evidence_identity_flags :: "bool \<Rightarrow> bytes list" where
  "evidence_identity_flags review =
     [''repository'', ''version'', ''commit'', ''tree''] @ (if review then [''reviewed-by'', ''reviewed-at''] else [])"

definition evidence_identity_of :: "(bytes \<times> flag_value) list \<Rightarrow> evidence_identity" where
  "evidence_identity_of vs =
     \<lparr>ei_repository = given vs ''repository'', ei_version = given vs ''version'', ei_commit = given vs ''commit'',
      ei_tree = given vs ''tree'', ei_reviewed_by = given vs ''reviewed-by'', ei_reviewed_at = given vs ''reviewed-at''\<rparr>"

definition run_evidence_manifest :: "release_env \<Rightarrow> 'd host \<Rightarrow> bytes list \<Rightarrow> world \<Rightarrow> release_answer" where
  "run_evidence_manifest env h args w =
     with_flags env (text_flags (''directory'' # evidence_identity_flags True)) args (\<lambda>vs.
     (case write_evidence_manifest (rl_tools env) h (given vs ''directory'') (evidence_identity_of vs) w of
        (Inl e, w) \<Rightarrow> (Inl e, w)
      | (Inr checksum, w) \<Rightarrow>
          (rl_json_texts env [(''manifest'', path_join (given vs ''directory'') evidence_manifest_name), (''sha256'', checksum)], w))) w"

definition run_verify_evidence :: "release_env \<Rightarrow> 'd host \<Rightarrow> bytes list \<Rightarrow> world \<Rightarrow> release_answer" where
  "run_verify_evidence env h args w =
     with_flags env (text_flags (''directory'' # evidence_identity_flags False)) args (\<lambda>vs.
     (case verify_evidence_manifest (rl_tools env) (rl_is_print env) h (given vs ''directory'') (evidence_identity_of vs) w of
        (Some e, w) \<Rightarrow> (Inl e, w)
      | (None, w) \<Rightarrow> (rl_json_valid env [] required_evidence_files, w))) w"

definition package_flags :: "(bytes \<times> flag_kind) list" where
  "package_flags = text_flags [''version'', ''commit'', ''tree'', ''go-version'', ''goos'', ''goarch'', ''binary'', ''license'',
     ''release-notes'', ''output''] @ [(''source-date-epoch'', IntegerFlag)]"

definition package_options_of :: "(bytes \<times> flag_value) list \<Rightarrow> package_options" where
  "package_options_of vs =
     \<lparr>po_version = given vs ''version'', po_commit = given vs ''commit'', po_tree = given vs ''tree'',
      po_go_version = given vs ''go-version'', po_goos = given vs ''goos'', po_goarch = given vs ''goarch'',
      po_binary_path = given vs ''binary'', po_license_path = flag_text vs ''license'' ''LICENSE'',
      po_release_notes = flag_text vs ''release-notes'' ''RELEASE.md'', po_output_directory = given vs ''output'',
      po_source_date_epoch = flag_integer vs ''source-date-epoch''\<rparr>"

definition run_package :: "release_env \<Rightarrow> 'd host \<Rightarrow> bytes list \<Rightarrow> world \<Rightarrow> release_answer" where
  "run_package env h args w = with_flags env package_flags args (\<lambda>vs.
     (case package_release (rl_tools env) h (package_options_of vs) w of
        (Inl e, w) \<Rightarrow> (Inl e, w)
      | (Inr (archive, checksum), w) \<Rightarrow> (rl_json_package env archive checksum, w))) w"

text \<open>The items of a list with commas, without blanks around them and without empty ones.\<close>

definition split_list :: "bytes \<Rightarrow> bytes list" where
  "split_list list_text = filter (\<lambda>item. item \<noteq> []) (map trim_space (split_on (CHR '','') list_text))"

definition receipt_flags :: "(bytes \<times> flag_kind) list" where
  "receipt_flags = text_flags [''output'', ''repository'', ''commit'', ''tree'', ''goos'', ''goarch'', ''go-version'',
     ''runner-version'', ''runner-name'', ''artifact-sha256'', ''completed-at'', ''gates'', ''generated-files'']"

definition receipt_of :: "(bytes \<times> flag_value) list \<Rightarrow> bytes \<Rightarrow> receipt" where
  "receipt_of vs generated_digest =
     \<lparr>re_schema_version = [], re_repository = given vs ''repository'', re_commit = given vs ''commit'', re_tree = given vs ''tree'',
      re_goos = given vs ''goos'', re_goarch = given vs ''goarch'', re_go_version = given vs ''go-version'',
      re_runner_version = given vs ''runner-version'', re_runner_name = given vs ''runner-name'',
      re_generated_digest = generated_digest, re_unsigned_artifact_sha = given vs ''artifact-sha256'',
      re_successful_gates = split_list (given vs ''gates''), re_completed_at = given vs ''completed-at''\<rparr>"

definition run_receipt :: "release_env \<Rightarrow> 'd host \<Rightarrow> bytes list \<Rightarrow> world \<Rightarrow> release_answer" where
  "run_receipt env h args w = with_flags env receipt_flags args (\<lambda>vs.
     (if given vs ''output'' = [] then (Inl ''output is required'', w)
      else (case digest_files (rl_tools env) h (split_list (given vs ''generated-files'')) w of
          (Inl e, w) \<Rightarrow> (Inl e, w)
        | (Inr generated_digest, w) \<Rightarrow>
            (case write_receipt (rl_tools env) h (given vs ''output'') (receipt_of vs generated_digest) w of
               (Inl e, w) \<Rightarrow> (Inl e, w)
             | (Inr checksum, w) \<Rightarrow> (rl_json_texts env [(''receipt'', given vs ''output''), (''sha256'', checksum)], w))))) w"

definition run_release :: "release_env \<Rightarrow> 'd host \<Rightarrow> bytes list \<Rightarrow> world \<Rightarrow> release_answer" where
  "run_release env h args w =
     (case args of
        [] \<Rightarrow> (Inl (''usage: himesan-release <package|receipt|evidence-manifest|verify-evidence|verify-native|''
            @ ''extract-macos|finalize-macos> [options]''), w)
      | command # args \<Rightarrow>
          (if command = ''package'' then run_package env h args w
           else if command = ''receipt'' then run_receipt env h args w
           else if command = ''evidence-manifest'' then run_evidence_manifest env h args w
           else if command = ''verify-evidence'' then run_verify_evidence env h args w
           else if command = ''verify-native'' then run_verify_native env h args w
           else if command = ''extract-macos'' then run_extract_macos env h args w
           else if command = ''finalize-macos'' then run_finalize_macos env h args w
           else (Inl (''unknown command '' @ go_quote (rl_is_print env) command), w)))"

text \<open>The exit status and what \<open>main\<close> prints to standard error beside the flag package.\<close>

definition release_main :: "release_env \<Rightarrow> 'd host \<Rightarrow> bytes list \<Rightarrow> world \<Rightarrow> (nat \<times> bytes) \<times> world" where
  "release_main env h args w =
     (case run_release env h args w of
        (Inl e, w) \<Rightarrow> ((1, ''himesan-release: '' @ e @ [LF]), w)
      | (Inr printed, w) \<Rightarrow> ((0, []), w))"

subsection \<open>Verification changes nothing\<close>

lemma read_dir_same: "read_dir h path w = (r, w') \<Longrightarrow> w_files w' = w_files w"
  using read_dir_files [of h path w] by simp

lemma read_regular_file_same: "read_regular_file h path maximum w = (r, w') \<Longrightarrow> w_files w' = w_files w"
  by (auto simp: read_regular_file_def split: sum.splits prod.splits if_splits) (metis lstat_same read_file_same)+

lemma read_evidence_file_same: "read_evidence_file h path manifest w = (r, w') \<Longrightarrow> w_files w' = w_files w"
  by (auto simp: read_evidence_file_def split: sum.splits prod.splits if_splits) (metis lstat_same read_file_same)+

lemma inspect_named_files_same: "inspect_named_files rt h directory names w = (r, w') \<Longrightarrow> w_files w' = w_files w"
proof (induction names arbitrary: r w)
  case (Cons name names)
  obtain x w1 where x: "read_evidence_file h (path_join directory name) False w = (x, w1)" by fastforce
  obtain y w2 where y: "inspect_named_files rt h directory names w1 = (y, w2)" by fastforce
  have "w' = w1 \<or> w' = w2" using Cons.prems x y by (cases x; cases y) (auto split: if_splits)
  then show ?case using read_evidence_file_same [OF x] Cons.IH y by auto
qed simp

lemma inspect_evidence_files_same: "inspect_evidence_files rt h directory w = (r, w') \<Longrightarrow> w_files w' = w_files w"
  by (auto simp: inspect_evidence_files_def split: sum.splits prod.splits if_splits)
    (metis lstat_same inspect_named_files_same)+

lemma verify_evidence_manifest_same:
  assumes "verify_evidence_manifest rt is_print h directory expected w = (r, w')"
  shows "w_files w' = w_files w"
proof -
  obtain x w1 where x: "read_evidence_file h (path_join directory evidence_manifest_name) True w = (x, w1)" by fastforce
  obtain y w2 where y: "inspect_evidence_files rt h directory w1 = (y, w2)" by fastforce
  have "w' = w \<or> w' = w1 \<or> w' = w2"
    using assms x y by (cases x; cases y) (auto simp: verify_evidence_manifest_def split: sum.splits option.splits if_splits)
  then show ?thesis using read_evidence_file_same [OF x] inspect_evidence_files_same [OF y] by auto
qed

lemma validate_native_directory_same: "validate_native_directory h directory w = (r, w') \<Longrightarrow> w_files w' = w_files w"
  by (auto simp: validate_native_directory_def Let_def split: sum.splits prod.splits if_splits) (metis lstat_same read_dir_same)+

lemma read_native_lane_same:
  assumes "read_native_lane rt h directory w = (r, w')"
  shows "w_files w' = w_files w"
proof -
  let ?path = "path_join directory receipt_name"
  obtain a w1 where a: "lstat h directory w = (a, w1)" by fastforce
  obtain b w2 where b: "read_dir h directory w1 = (b, w2)" by fastforce
  obtain c w3 where c: "read_regular_file h ?path maximum_evidence_bytes w2 = (c, w3)" by fastforce
  obtain e w4 where e: "read_regular_file h (?path @ ''.sha256'') 512 w3 = (e, w4)" by fastforce
  have "w' \<in> {w1, w2, w3, w4}"
    using assms a b c e by (cases a; cases b; cases c; cases e) (auto simp: read_native_lane_def Let_def split: if_splits sum.splits)
  then show ?thesis
    using lstat_same [OF a] read_dir_same [OF b] read_regular_file_same [OF c] read_regular_file_same [OF e] by auto
qed

lemma verify_lanes_same:
  "verify_lanes rt is_print h directory expected lanes generated w = (r, w') \<Longrightarrow> w_files w' = w_files w"
proof (induction lanes arbitrary: generated w r)
  case (Cons lane lanes)
  obtain a w1 where a: "read_native_lane rt h (path_join directory (nl_directory lane)) w = (a, w1)" by fastforce
  have "w' = w1 \<or> (\<exists>g x. verify_lanes rt is_print h directory expected lanes g w1 = (x, w'))"
    using Cons.prems a by (auto split: sum.splits option.splits prod.splits if_splits)
  then show ?case using read_native_lane_same [OF a] Cons.IH by auto
qed simp

lemma verify_native_receipt_set_same:
  "verify_native_receipt_set rt is_print h directory expected w = (r, w') \<Longrightarrow> w_files w' = w_files w"
  by (auto simp: verify_native_receipt_set_def split: sum.splits prod.splits option.splits if_splits)
    (metis validate_native_directory_same verify_lanes_same)+

text \<open>The subcommands that verify change no file, and succeed only if what they verify does.\<close>

lemma verifying_commands_read:
  assumes "command \<in> {''verify-evidence'', ''verify-native''}" and "run_release env h (command # args) w = (r, w')"
  shows "w_files w' = w_files w"
  using assms
  by (auto simp: run_release_def run_verify_evidence_def run_verify_native_def with_flags_def
      split: flag_outcome.splits sum.splits prod.splits option.splits
      dest: verify_native_receipt_set_same verify_evidence_manifest_same)

end
