(* ===== verification/Dev_Csp.thy ===== *)
theory Dev_Csp
  imports Go_Net Html_Urls
begin

section \<open>Content security policies: addCSPSource of internal/devserver/proxy.go\<close>

text \<open>
  The proxy adds a script to the page, so the page's own policy has to allow it. Here are the rewriting
  of one policy, the reading of a policy by a browser (the first directive of a name counts, names
  without regard to case), and the theorem that the rewriting grants the one source and nothing else.
\<close>

subsection \<open>The code\<close>

definition csp_none :: bytes where
  \<comment> \<open>the source expression none, in quotes\<close>
  "csp_none = CHR 0x27 # ''none'' @ [CHR 0x27]"

definition without_csp_none :: "bytes list \<Rightarrow> bytes list" where
  "without_csp_none sources = filter (\<lambda>source. \<not> equal_fold_ascii source csp_none) sources"

text \<open>
  The loop over the directives: those behind, those ahead, the sources of the fallback when it was
  seen. \<open>Inl\<close> is an early return.
\<close>

fun csp_loop :: "bytes \<Rightarrow> bytes \<Rightarrow> bytes \<Rightarrow> bytes list \<Rightarrow> bytes list \<Rightarrow> bytes list option \<Rightarrow> bytes + bytes list option" where
  "csp_loop directive source fallback before [] seen = Inr seen"
| "csp_loop directive source fallback before (raw # parts) seen =
     (let fields = string_fields raw in
      if fields = [] then csp_loop directive source fallback (before @ [raw]) parts seen
      else
        (let seen = (if seen = None \<and> equal_fold_ascii (hd fields) fallback then Some (tl fields) else seen) in
         if \<not> equal_fold_ascii (hd fields) directive
         then csp_loop directive source fallback (before @ [raw]) parts seen
         else if source \<in> set (tl fields) then Inl (join_with '';'' (before @ raw # parts))
         else
           (let current = without_csp_none (tl fields);
                part = hd fields @ (if current \<noteq> [] then '' '' @ join_with '' '' current else []) @ '' '' @ source
            in Inl (join_with '';'' (before @ part # parts)))))"

definition add_csp_source :: "bytes \<Rightarrow> bytes \<Rightarrow> bytes \<Rightarrow> bytes \<Rightarrow> bytes" where
  "add_csp_source policy directive source fallback =
     (case csp_loop directive source fallback [] (split_on (CHR '';'') policy) None of
        Inl rewritten \<Rightarrow> rewritten
      | Inr None \<Rightarrow> policy
      | Inr (Some sources) \<Rightarrow>
          (let retained = without_csp_none sources;
               addition = directive @ (if retained \<noteq> [] then '' '' @ join_with '' '' retained else []) @ '' '' @ source
           in if trim_space policy = [] then addition
              else if has_suffix '';'' (trim_space policy) then policy @ '' '' @ addition
              else policy @ ''; '' @ addition))"

declare csp_none_def [go_eval] without_csp_none_def [go_eval] add_csp_source_def [go_eval]

subsection \<open>How a browser reads a policy\<close>

definition csp_find :: "bytes list \<Rightarrow> bytes \<Rightarrow> bytes list option" where
  "csp_find parts name =
     map_option tl (find (\<lambda>fields. fields \<noteq> [] \<and> equal_fold_ascii (hd fields) name) (map string_fields parts))"

definition csp_sources :: "bytes \<Rightarrow> bytes \<Rightarrow> bytes list option" where
  "csp_sources policy name = csp_find (split_on (CHR '';'') policy) name"

declare csp_find_def [go_eval] csp_sources_def [go_eval]

subsection \<open>Words of ASCII text\<close>

definition space_byte :: "byte \<Rightarrow> bool" where [byte_class]:
  "space_byte b = (9 \<le> code b \<and> code b \<le> 13 \<or> code b = 32)"

fun byte_fields :: "bytes \<Rightarrow> bytes \<Rightarrow> bytes list" where
  "byte_fields [] word = (if word = [] then [] else [word])"
| "byte_fields (b # s) word =
     (if space_byte b then (if word = [] then [] else [word]) @ byte_fields s [] else byte_fields s (word @ [b]))"

lemma string_fields_ascii: "list_all is_ascii s \<Longrightarrow> string_fields s = byte_fields s []"
proof -
  assume ascii: "list_all is_ascii s"
  have "fields_of (map (\<lambda>b. (code b, [b])) s) word = byte_fields s word" for word
    using ascii by (induction s arbitrary: word) (auto simp: is_space_rune_def space_byte_def is_ascii_def)
  then show ?thesis using ascii_chunks [OF ascii, of "[]"] by (simp add: string_fields_def)
qed

lemma byte_fields_space:
  "space_byte b \<Longrightarrow> byte_fields (s @ b # t) word = byte_fields s word @ byte_fields t []"
  by (induction s arbitrary: word) auto

lemma byte_fields_word: "\<forall>b\<in>set s. \<not> space_byte b \<Longrightarrow> byte_fields s word = (if word @ s = [] then [] else [word @ s])"
  by (induction s arbitrary: word) auto

definition csp_word :: "bytes \<Rightarrow> bool" where
  "csp_word w = (w \<noteq> [] \<and> (\<forall>b\<in>set w. \<not> space_byte b \<and> is_ascii b \<and> b \<noteq> CHR '';''))"

declare csp_word_def [go_eval] space_byte_def [go_eval]

lemma join_with_Cons: "join_with sep (p # ps) = (if ps = [] then p else p @ sep @ join_with sep ps)"
  by (cases ps) simp_all

lemma byte_fields_words:
  "w \<in> set (byte_fields s word) \<Longrightarrow> list_all (\<lambda>b. is_ascii b \<and> b \<noteq> CHR '';'') s \<Longrightarrow>
   list_all (\<lambda>b. \<not> space_byte b \<and> is_ascii b \<and> b \<noteq> CHR '';'') word \<Longrightarrow> csp_word w"
proof (induction s arbitrary: word)
  case Nil
  then show ?case by (simp add: csp_word_def list_all_iff split: if_splits)
next
  case (Cons b s)
  have here: "w = word \<Longrightarrow> word \<noteq> [] \<Longrightarrow> csp_word w" using Cons.prems(3) by (simp add: csp_word_def list_all_iff)
  show ?case
  proof (cases "space_byte b")
    case True
    then show ?thesis using Cons.prems Cons.IH [of "[]"] here by (auto split: if_splits)
  next
    case False
    then show ?thesis using Cons.prems Cons.IH [of "word @ [b]"] by simp
  qed
qed

lemma byte_fields_join: "list_all csp_word ws \<Longrightarrow> byte_fields (join_with '' '' ws) [] = ws"
proof (induction ws)
  case (Cons w ws)
  have "space_byte (CHR '' '')" by (simp add: space_byte_def)
  then have "byte_fields (w @ CHR '' '' # join_with '' '' ws) [] = byte_fields w [] @ byte_fields (join_with '' '' ws) []"
    by (rule byte_fields_space)
  moreover have "byte_fields w [] = [w]" using byte_fields_word [of w "[]"] Cons.prems by (simp add: csp_word_def)
  ultimately show ?case using Cons by (simp add: join_with_Cons)
qed simp

lemma join_words_plain:
  "list_all csp_word ws \<Longrightarrow> list_all (\<lambda>b. is_ascii b \<and> b \<noteq> CHR '';'') (join_with '' '' ws)"
proof (induction ws)
  case (Cons w ws)
  then show ?case by (auto simp: join_with_Cons csp_word_def list_all_iff is_ascii_def)
qed simp

lemma join_words_semicolon: "list_all csp_word ws \<Longrightarrow> CHR '';'' \<notin> set (join_with '' '' ws)"
  using join_words_plain by (auto simp: list_all_iff)

lemma fields_of_words: "list_all csp_word ws \<Longrightarrow> string_fields (join_with '' '' ws) = ws"
  using join_words_plain [of ws] by (simp add: string_fields_ascii byte_fields_join list_all_iff)

lemma join_with_append:
  "us \<noteq> [] \<Longrightarrow> vs \<noteq> [] \<Longrightarrow> join_with sep (us @ vs) = join_with sep us @ sep @ join_with sep vs"
  by (induction us) (auto simp: join_with_Cons)

lemma split_on_join_with:
  "ps \<noteq> [] \<Longrightarrow> \<forall>p\<in>set ps. b \<notin> set p \<Longrightarrow> split_on b (join_with [b] ps) = ps"
  by (induction ps) (auto simp: join_with_Cons split_on_single split_on_append)

lemma split_on_concat: "split_on b (s @ b # t) = split_on b s @ split_on b t"
proof (induction s)
  case (Cons c s)
  then show ?case by (cases "split_on b s") auto
qed simp

lemma equal_fold_of_ascii:
  "list_all is_ascii s \<Longrightarrow> equal_fold_ascii s name \<longleftrightarrow> map ascii_lower s = map ascii_lower name"
proof -
  assume ascii: "list_all is_ascii s"
  have fold: "fold_rune (code b) = code (ascii_lower b)" if "is_ascii b" for b
    using that by (auto simp: fold_rune_def code_ascii_lower is_ascii_def)
  have inj: "inj_on (code :: byte \<Rightarrow> nat) UNIV" by (simp add: inj_on_def)
  have "map fold_rune (runes s) = map code (map ascii_lower s)"
    using ascii_chunks [OF ascii, of "[]"] ascii fold by (simp add: runes_def list_all_iff)
  then show ?thesis
    using inj_map_eq_map [OF inj, of "map ascii_lower s" "map ascii_lower name"]
    by (simp add: equal_fold_ascii_def comp_def)
qed


subsection \<open>What the rewriting grants\<close>

definition csp_parts :: "bytes list \<Rightarrow> bool" where
  \<comment> \<open>the parts of an ASCII policy\<close>
  "csp_parts parts = list_all (list_all (\<lambda>b. is_ascii b \<and> b \<noteq> CHR '';'')) parts"

definition has_name :: "bytes \<Rightarrow> bytes \<Rightarrow> bool" where
  "has_name raw name = (string_fields raw \<noteq> [] \<and> equal_fold_ascii (hd (string_fields raw)) name)"

lemma csp_find_Nil [simp]: "csp_find [] name = None"
  by (simp add: csp_find_def)

lemma csp_find_Cons: "csp_find (raw # parts) name =
  (if has_name raw name then Some (tl (string_fields raw)) else csp_find parts name)"
  by (simp add: csp_find_def has_name_def)

lemma csp_find_append: "csp_find (us @ vs) name = (case csp_find us name of None \<Rightarrow> csp_find vs name | Some s \<Rightarrow> Some s)"
  by (induction us) (auto simp: csp_find_Cons)

lemma csp_find_absent: "csp_find parts name = None \<longleftrightarrow> list_all (\<lambda>raw. \<not> has_name raw name) parts"
  by (induction parts) (auto simp: csp_find_Cons)

lemma csp_find_member: "csp_find parts name = Some sources \<Longrightarrow> \<exists>raw\<in>set parts. sources = tl (string_fields raw)"
  by (induction parts) (auto simp: csp_find_Cons split: if_splits)

lemma csp_loop_result:
  "case csp_loop directive source fallback before parts seen of
     Inr s \<Rightarrow> csp_find parts directive = None
       \<and> s = (case seen of Some x \<Rightarrow> Some x | None \<Rightarrow> csp_find parts fallback)
   | Inl rewritten \<Rightarrow> (\<exists>us raw vs part. parts = us @ raw # vs \<and> csp_find us directive = None \<and> has_name raw directive
       \<and> rewritten = join_with '';'' (before @ us @ part # vs)
       \<and> (if source \<in> set (tl (string_fields raw)) then part = raw
          else part = join_with '' '' (hd (string_fields raw) # without_csp_none (tl (string_fields raw)) @ [source])))"
proof (induction parts arbitrary: before seen)
  case Nil
  then show ?case by (simp split: option.split)
next
  case (Cons raw parts)
  let ?fields = "string_fields raw"
  show ?case
  proof (cases "has_name raw directive")
    case True
    then have name: "?fields \<noteq> []" "equal_fold_ascii (hd ?fields) directive" by (simp_all add: has_name_def)
    have part: "hd ?fields @ (if xs \<noteq> [] then '' '' @ join_with '' '' xs else []) @ '' '' @ source
        = join_with '' '' (hd ?fields # xs @ [source])" for xs
      by (simp add: join_with_Cons join_with_append)
    define new where "new = (if source \<in> set (tl ?fields) then raw
      else join_with '' '' (hd ?fields # without_csp_none (tl ?fields) @ [source]))"
    have run: "csp_loop directive source fallback before (raw # parts) seen = Inl (join_with '';'' (before @ new # parts))"
      using name part by (simp add: new_def Let_def)
    show ?thesis
      unfolding run sum.case
      by (rule exI [of _ "[]"], rule exI [of _ raw], rule exI [of _ parts], rule exI [of _ new])
         (use True in \<open>simp add: new_def\<close>)
  next
    case False
    define seen' where "seen' = (if ?fields \<noteq> [] \<and> seen = None \<and> equal_fold_ascii (hd ?fields) fallback
      then Some (tl ?fields) else seen)"
    have step: "csp_loop directive source fallback before (raw # parts) seen
        = csp_loop directive source fallback (before @ [raw]) parts seen'"
      using False by (auto simp: has_name_def seen'_def Let_def)
    have seen: "(case seen' of Some x \<Rightarrow> Some x | None \<Rightarrow> csp_find parts fallback)
        = (case seen of Some x \<Rightarrow> Some x | None \<Rightarrow> csp_find (raw # parts) fallback)"
      by (auto simp: seen'_def csp_find_Cons has_name_def split: option.splits)
    show ?thesis
    proof (cases "csp_loop directive source fallback (before @ [raw]) parts seen'")
      case (Inr s)
      with Cons.IH [of "before @ [raw]" seen'] show ?thesis
        unfolding step Inr using False by (simp only: sum.case seen) (simp add: csp_find_Cons [of raw parts directive])
    next
      case (Inl rewritten)
      with Cons.IH [of "before @ [raw]" seen'] obtain us raw' vs part where
        found: "parts = us @ raw' # vs" "csp_find us directive = None" "has_name raw' directive"
          "rewritten = join_with '';'' ((before @ [raw]) @ us @ part # vs)"
          "if source \<in> set (tl (string_fields raw')) then part = raw'
           else part = join_with '' '' (hd (string_fields raw') # without_csp_none (tl (string_fields raw')) @ [source])"
        by auto
      have "csp_find (raw # us) directive = None" using False found(2) by (simp add: csp_find_Cons)
      then show ?thesis unfolding step Inl sum.case
        using found by (intro exI [of _ "raw # us"] exI [of _ raw'] exI [of _ vs] exI [of _ part]) simp
    qed
  qed
qed


text \<open>The words of an ASCII part, put together again.\<close>

lemma fields_are_words: "list_all (\<lambda>b. is_ascii b \<and> b \<noteq> CHR '';'') raw \<Longrightarrow> list_all csp_word (string_fields raw)"
proof -
  assume raw: "list_all (\<lambda>b. is_ascii b \<and> b \<noteq> CHR '';'') raw"
  then have "list_all is_ascii raw" by (simp add: list_all_iff)
  then have "string_fields raw = byte_fields raw []" by (rule string_fields_ascii)
  with raw show ?thesis using byte_fields_words [of _ raw "[]"] by (simp add: list_all_iff)
qed

lemma words_without_none: "list_all csp_word ws \<Longrightarrow> list_all csp_word (without_csp_none ws)"
  by (simp add: without_csp_none_def list_all_iff)

lemma has_name_words:
  "list_all csp_word (w # ws) \<Longrightarrow> has_name (join_with '' '' (w # ws)) name \<longleftrightarrow> equal_fold_ascii w name"
  using fields_of_words [of "w # ws"] by (simp add: has_name_def)

lemma equal_fold_word: "csp_word w \<Longrightarrow> equal_fold_ascii w name \<longleftrightarrow> map ascii_lower w = map ascii_lower name"
  by (rule equal_fold_of_ascii) (simp add: csp_word_def list_all_iff)

lemma split_policy_plain:
  "list_all is_ascii policy \<Longrightarrow> p \<in> set (split_on (CHR '';'') policy) \<Longrightarrow> list_all (\<lambda>b. is_ascii b \<and> b \<noteq> CHR '';'') p"
proof -
  assume ascii: "list_all is_ascii policy" and p: "p \<in> set (split_on (CHR '';'') policy)"
  have "set p \<subseteq> set policy" using p
  proof (induction policy arbitrary: p)
    case (Cons c s)
    then show ?case by (auto split: if_splits list.splits) blast
  qed simp
  moreover have "CHR '';'' \<notin> set p" using p by (rule split_on_no_sep)
  ultimately show ?thesis using ascii by (auto simp: list_all_iff)
qed

lemma trim_chunks_split:
  "\<exists>a b. cs = a @ trim_chunks f cs @ b \<and> list_all (\<lambda>c. f (fst c)) a \<and> list_all (\<lambda>c. f (fst c)) b"
proof -
  let ?P = "\<lambda>c. f (fst c)"
  let ?d = "dropWhile ?P cs"
  have "?d = rev (dropWhile ?P (rev ?d)) @ rev (takeWhile ?P (rev ?d))"
    by (metis rev_append rev_rev_ident takeWhile_dropWhile_id)
  then have "cs = takeWhile ?P cs @ rev (dropWhile ?P (rev ?d)) @ rev (takeWhile ?P (rev ?d))"
    by (metis takeWhile_dropWhile_id)
  then have "cs = takeWhile ?P cs @ trim_chunks f cs @ rev (takeWhile ?P (rev ?d))"
    by (simp add: trim_chunks_def trim_left_chunks_def)
  moreover have "list_all ?P (takeWhile ?P xs)" for xs by (auto simp: list_all_iff dest: set_takeWhileD)
  moreover have "list_all ?P (rev (takeWhile ?P xs))" for xs by (auto simp: list_all_iff dest: set_takeWhileD)
  ultimately show ?thesis by blast
qed

lemma trim_space_ascii:
  "list_all is_ascii s \<Longrightarrow> \<exists>a b. s = a @ trim_space s @ b \<and> list_all space_byte a \<and> list_all space_byte b"
proof -
  assume ascii: "list_all is_ascii s"
  let ?cs = "map (\<lambda>b. (code b, [b])) s"
  have chunks: "utf8_chunks s = ?cs" using ascii_chunks [OF ascii, of "[]"] by simp
  obtain a b where ab: "?cs = a @ trim_chunks is_space_rune ?cs @ b"
      and blank: "list_all (\<lambda>c. is_space_rune (fst c)) a" "list_all (\<lambda>c. is_space_rune (fst c)) b"
    using trim_chunks_split [of ?cs is_space_rune] by blast
  have space: "list_all space_byte (concat (map snd x))"
    if "set x \<subseteq> set ?cs" "list_all (\<lambda>c. is_space_rune (fst c)) x" for x
    using that ascii by (fastforce simp: list_all_iff is_space_rune_def space_byte_def is_ascii_def)
  have "set ?cs = set a \<union> (set (trim_chunks is_space_rune ?cs) \<union> set b)"
    using arg_cong [OF ab, of set] by (simp only: set_append)
  then have parts: "set a \<subseteq> set ?cs" "set b \<subseteq> set ?cs" by blast+
  have "s = concat (map snd ?cs)" by (simp add: comp_def)
  also have "\<dots> = concat (map snd a) @ trim_space s @ concat (map snd b)"
    by (subst ab) (simp add: trim_space_def trim_func_def chunks)
  finally show ?thesis using space [OF parts(1) blank(1)] space [OF parts(2) blank(2)] by blast
qed

lemma byte_fields_blank: "list_all space_byte a \<Longrightarrow> byte_fields (a @ s) [] = byte_fields s []"
  by (induction a) auto

lemma blank_ascii: "list_all space_byte a \<Longrightarrow> list_all (\<lambda>b. is_ascii b \<and> b \<noteq> CHR '';'') a"
  by (auto simp: list_all_iff space_byte_def is_ascii_def)

lemma fields_blank: "list_all space_byte a \<Longrightarrow> list_all is_ascii s \<Longrightarrow> string_fields (a @ s) = string_fields s"
proof -
  assume "list_all space_byte a" "list_all is_ascii s"
  moreover from this have "list_all is_ascii (a @ s)" using blank_ascii [of a] by (auto simp: list_all_iff)
  ultimately show ?thesis by (simp only: string_fields_ascii byte_fields_blank)
qed

lemma csp_find_blank: "list_all space_byte a \<Longrightarrow> csp_find [a] name = None"
  using fields_blank [of a "[]"] by (simp add: csp_find_Cons has_name_def string_fields_def)

text \<open>A directive added at the end.\<close>

lemma csp_added_parts:
  assumes ascii: "list_all is_ascii policy" and found: "csp_find (split_on (CHR '';'') policy) fallback \<noteq> None"
    and plain: "list_all (\<lambda>b. is_ascii b \<and> b \<noteq> CHR '';'') addition"
  defines "result \<equiv> (if trim_space policy = [] then addition
      else if has_suffix '';'' (trim_space policy) then policy @ '' '' @ addition else policy @ ''; '' @ addition)"
  shows "csp_find (split_on (CHR '';'') result) name =
    (case csp_find (split_on (CHR '';'') policy) name of Some s \<Rightarrow> Some s | None \<Rightarrow> csp_find [addition] name)"
proof -
  obtain a b where ab: "policy = a @ trim_space policy @ b" and blank: "list_all space_byte a" "list_all space_byte b"
    using trim_space_ascii [OF ascii] by blast
  have semicolon: "CHR '';'' \<notin> set x" if "list_all space_byte x" for x
    using blank_ascii [OF that] by (auto simp: list_all_iff)
  have addition: "list_all is_ascii addition" "CHR '';'' \<notin> set addition" using plain by (auto simp: list_all_iff)
  have behind: "csp_find [x @ CHR '' '' # addition] name = csp_find [addition] name" if "list_all space_byte x" for x
    using fields_blank [of "x @ '' ''" addition] that addition by (simp add: csp_find_Cons has_name_def space_byte_def)
  have nonempty: "trim_space policy \<noteq> []"
  proof
    assume "trim_space policy = []"
    then have "policy = a @ b" using ab by simp
    moreover have "list_all space_byte (a @ b)" using blank by simp
    ultimately have "split_on (CHR '';'') policy = [policy]" "csp_find [policy] fallback = None"
      using semicolon by (simp add: split_on_single, metis csp_find_blank)
    with found show False by simp
  qed
  show ?thesis
  proof (cases "has_suffix '';'' (trim_space policy)")
    case True
    then obtain t where t: "trim_space policy = t @ '';''" by (auto simp: has_suffix_iff)
    then have p: "policy = (a @ t) @ CHR '';'' # b" using ab by simp
    have "result = (a @ t) @ CHR '';'' # (b @ CHR '' '' # addition)"
      using True nonempty p unfolding result_def by simp
    then have "split_on (CHR '';'') result = split_on (CHR '';'') (a @ t) @ [b @ CHR '' '' # addition]"
      using addition semicolon [OF blank(2)] by (simp only: split_on_concat) (simp add: split_on_single)
    moreover have "split_on (CHR '';'') policy = split_on (CHR '';'') (a @ t) @ [b]"
      unfolding p split_on_concat using semicolon [OF blank(2)] by (simp add: split_on_single)
    ultimately show ?thesis
      using behind [OF blank(2)] csp_find_blank [OF blank(2)] by (simp add: csp_find_append split: option.split)
  next
    case False
    have "result = policy @ CHR '';'' # (CHR '' '' # addition)" using False nonempty by (simp add: result_def)
    then have "split_on (CHR '';'') result = split_on (CHR '';'') policy @ [CHR '' '' # addition]"
      using addition by (simp only: split_on_concat) (simp add: split_on_single)
    then show ?thesis using behind [of "[]"] by (simp add: csp_find_append split: option.split)
  qed
qed

text \<open>
  C25: Rewriting a policy grants exactly the one source. As a browser reads an ASCII policy (the first
  directive of a name counts), the directive afterwards allows what it allowed before, or what its
  fallback allowed when it was absent, without \<open>'none'\<close> and with the source added; it stays absent
  when nothing restricted the resource; and every other directive allows what it allowed before.
\<close>
theorem csp_source_added:
  assumes "list_all is_ascii policy" and "csp_word directive" and "csp_word source"
  shows "csp_sources (add_csp_source policy directive source fallback) directive =
      (case csp_sources policy directive of
         Some sources \<Rightarrow> Some (if source \<in> set sources then sources else without_csp_none sources @ [source])
       | None \<Rightarrow> map_option (\<lambda>sources. without_csp_none sources @ [source]) (csp_sources policy fallback))
    \<and> (\<forall>other. map ascii_lower other \<noteq> map ascii_lower directive \<longrightarrow>
         csp_sources (add_csp_source policy directive source fallback) other = csp_sources policy other)"
proof -
  let ?parts = "split_on (CHR '';'') policy"
  note loop = csp_loop_result [where directive = directive and source = source and fallback = fallback
      and before = "[]" and parts = ?parts and seen = None]
  have plain: "\<forall>p\<in>set ?parts. list_all (\<lambda>b. is_ascii b \<and> b \<noteq> CHR '';'') p"
    using split_policy_plain [OF assms(1)] by blast
  show ?thesis
  proof (cases "csp_loop directive source fallback [] ?parts None")
    case (Inl rewritten)
    then obtain us raw vs part where found: "?parts = us @ raw # vs" "csp_find us directive = None" "has_name raw directive"
        "rewritten = join_with '';'' (us @ part # vs)"
        "if source \<in> set (tl (string_fields raw)) then part = raw
         else part = join_with '' '' (hd (string_fields raw) # without_csp_none (tl (string_fields raw)) @ [source])"
      using loop by auto
    have raw: "list_all (\<lambda>b. is_ascii b \<and> b \<noteq> CHR '';'') raw" using plain found(1) by simp
    let ?new = "hd (string_fields raw) # without_csp_none (tl (string_fields raw)) @ [source]"
    obtain w ws where ws: "string_fields raw = w # ws" using found(3) by (auto simp: has_name_def neq_Nil_conv)
    have words: "list_all csp_word (w # ws)" using fields_are_words [OF raw] ws by simp
    have new: "list_all csp_word ?new" using words words_without_none [of ws] assms(3) ws by simp
    have part_words: "string_fields part = (if source \<in> set ws then w # ws else w # without_csp_none ws @ [source])"
      using found(5) fields_of_words [OF new] ws by (auto split: if_splits)
    have "CHR '';'' \<notin> set part"
      using found(5) raw join_words_semicolon [OF new] by (auto simp: list_all_iff split: if_splits)
    then have "\<forall>p\<in>set (us @ part # vs). CHR '';'' \<notin> set p" using plain found(1) by (auto simp: list_all_iff)
    then have "split_on (CHR '';'') (add_csp_source policy directive source fallback) = us @ part # vs"
      using split_on_join_with [of "us @ part # vs" "CHR '';''"] by (simp add: add_csp_source_def Inl found(4))
    moreover have "has_name part name = has_name raw name" for name
      using part_words ws by (simp add: has_name_def)
    moreover have "\<not> has_name raw other" if "map ascii_lower other \<noteq> map ascii_lower directive" for other
      using found(3) words that equal_fold_word [of w] by (simp add: has_name_def ws)
    ultimately show ?thesis
      using found(2,3) by (simp add: csp_sources_def found(1) csp_find_append csp_find_Cons part_words ws split: option.split)
  next
    case (Inr seen)
    then have absent: "csp_find ?parts directive = None" and seen: "seen = csp_find ?parts fallback"
      using loop by simp_all
    show ?thesis
    proof (cases seen)
      case None
      then show ?thesis using absent seen Inr by (simp add: csp_sources_def add_csp_source_def)
    next
      case (Some sources)
      let ?words = "directive # without_csp_none sources @ [source]"
      obtain raw where "raw \<in> set ?parts" "sources = tl (string_fields raw)"
        using seen Some csp_find_member [of ?parts fallback sources] by auto
      then have "list_all csp_word sources"
        using plain fields_are_words [of raw] by (cases "string_fields raw") auto
      then have words: "list_all csp_word ?words" using assms(2,3) words_without_none by simp
      have addition: "directive @ (if xs \<noteq> [] then '' '' @ join_with '' '' xs else []) @ '' '' @ source
          = join_with '' '' (directive # xs @ [source])" for xs
        by (simp add: join_with_Cons join_with_append)
      have fallback: "csp_find ?parts fallback \<noteq> None" using seen Some by (metis option.distinct(1))
      note parts = csp_added_parts [OF assms(1) fallback join_words_plain [OF words]]
      have "csp_sources (add_csp_source policy directive source fallback) name =
          (case csp_sources policy name of Some s \<Rightarrow> Some s | None \<Rightarrow> csp_find [join_with '' '' ?words] name)" for name
        using parts [of name] unfolding add_csp_source_def Inr Some sum.case option.case Let_def addition csp_sources_def .
      moreover have "csp_find [join_with '' '' ?words] name =
          (if map ascii_lower directive = map ascii_lower name then Some (without_csp_none sources @ [source]) else None)" for name
        using has_name_words [OF words] fields_of_words [OF words] equal_fold_word [OF assms(2)] by (simp add: csp_find_Cons)
      moreover have "csp_find ?parts fallback = Some sources" using seen Some by simp
      ultimately show ?thesis using absent by (auto simp: csp_sources_def split: option.splits)
    qed
  qed
qed


theorem csp_source_added_witness:
  "csp_sources (add_csp_source (''img-src *; default-src '' @ csp_none @ '';'') ''script-src'' ''x'' ''default-src'')
    ''script-src'' = Some [''x'']"
proof -
  let ?policy = "''img-src *; default-src '' @ csp_none @ '';''"
  have "list_all is_ascii ?policy" "csp_word ''script-src''" "csp_word ''x''" by (simp_all add: go_eval)
  note added = csp_source_added [OF this, of "''default-src''"]
  have "csp_sources ?policy ''script-src'' = None" "csp_sources ?policy ''default-src'' = Some [csp_none]"
    by (simp_all add: go_eval)
  moreover have "without_csp_none [csp_none] = []" by (simp add: go_eval)
  ultimately show ?thesis using added by simp
qed

end
