(* ===== verification/Dev_Proxy.thy ===== *)
theory Dev_Proxy
  imports Dev_Csp Dev_Config
begin

section \<open>The development proxy: internal/devserver/proxy.go\<close>

text \<open>
  The proxy answers only requests that name a loopback authority with its own port, hands them to the
  application, and adds the reload client to the HTML documents that come back. Parsing of URLs and of
  media types, the transport and the Unicode table of lower case are parameters; so is the digest of the
  client.
\<close>

subsection \<open>The client\<close>

definition max_injectable_html :: nat where "max_injectable_html = 16777216"

definition reload_client :: bytes where \<open>reload_client =
    ''(function(){var id="__himesan_overlay";function show(e){var d=document.getElementById(id'' @
    '');if(!d){d=document.createElement("dialog");d.id=id;var b=document.createElement("button'' @
    ''");b.textContent="Close";b.addEventListener("click",function(){d.close()});var p=documen'' @
    ''t.createElement("pre");d.appendChild(b);d.appendChild(p);document.body.appendChild(d)}va'' @
    ''r p=d.querySelector("pre"),xs=e.diagnostics||[];p.textContent=(e.phase?e.phase+": ":"")+'' @
    ''(e.message||"Hime-san could not reload")+(xs.length?"'' @
    [CHR 0x5C] @
    ''n'' @
    [CHR 0x5C] @
    ''n"+xs.map(function(x){return (x.path||"")+(x.line?":"+x.line+(x.column?":"+x.column:""):'' @
    ''"")+(x.code?" ["+x.code+"]":"")+" "+x.message}).join("'' @
    [CHR 0x5C] @
    ''n"):"");if(!d.open)d.showModal()}var s=new EventSource("/__himesan/events");s.addEventLi'' @
    ''stener("reload",function(){location.reload()});s.addEventListener("diagnostic",function('' @
    ''e){try{show(JSON.parse(e.data))}catch(_){show({message:e.data})}})})();''\<close>

definition reload_client_tag :: bytes where
  "reload_client_tag = ''<script data-himesan-reload>'' @ reload_client @ ''</script>''"

definition make_reload_client_hash :: "(bytes \<Rightarrow> bytes) \<Rightarrow> bytes" where
  \<comment> \<open>\<open>digest\<close> is the base64 text of the SHA-256 digest\<close>
  "make_reload_client_hash digest = CHR 0x27 # ''sha256-'' @ digest reload_client @ [CHR 0x27]"

subsection \<open>Requests\<close>

record parsed_url =
  url_scheme :: bytes
  url_opaque :: bytes
  url_user :: bool
  url_host :: bytes
  url_path :: bytes
  url_raw_path :: bytes
  url_raw_query :: bytes
  url_fragment :: bytes
  url_force_query :: bool

record http_request =
  rq_method :: bytes
  rq_host :: bytes
  rq_path :: bytes
  rq_header :: http_header

record dev_proxy =
  px_target :: "parsed_url option"
  px_authority :: "int option"

definition new_development_proxy :: dev_proxy where
  "new_development_proxy = \<lparr>px_target = None, px_authority = None\<rparr>"

definition canonical_loopback_authority :: "(nat \<Rightarrow> nat) \<Rightarrow> bytes \<Rightarrow> int \<Rightarrow> bytes option" where
  "canonical_loopback_authority ucl authority required_port =
     (if authority = [] \<or> trim_space authority \<noteq> authority then None
      else
        (case (case split_host_port authority of
             Inr (host, raw_port) \<Rightarrow> Some (host, raw_port)
           | Inl _ \<Rightarrow>
               (if required_port \<noteq> 80 then None
                else Some (if has_prefix ''['' authority \<and> has_suffix '']'' authority
                           then take (length authority - 2) (drop 1 authority) else authority, ''80''))) of
           None \<Rightarrow> None
         | Some (host, raw_port) \<Rightarrow>
             (if go_atoi raw_port \<noteq> Some required_port then None
              else
                (let normalized_host = to_lower ucl host in
                 if normalized_host = ''localhost'' \<or> normalized_host = ''localhost.''
                 then Some (''localhost:'' @ show_int required_port)
                 else (case parse_ip host of
                     Some ip \<Rightarrow>
                       (if is_loopback ip then Some (loopback_string ip @ '':'' @ show_int required_port) else None)
                   | None \<Rightarrow> None)))))"

definition canonical_http_origin ::
  "(nat \<Rightarrow> nat) \<Rightarrow> (bytes \<Rightarrow> parsed_url option) \<Rightarrow> bytes \<Rightarrow> int \<Rightarrow> bytes option" where
  "canonical_http_origin ucl parse_url raw port =
     (if raw = [] \<or> trim_space raw \<noteq> raw then None
      else (case parse_url raw of
          None \<Rightarrow> None
        | Some origin \<Rightarrow>
            (if \<not> equal_fold_ascii (url_scheme origin) ''http'' \<or> url_host origin = [] \<or> url_user origin
                \<or> url_opaque origin \<noteq> [] \<or> url_path origin \<noteq> [] \<or> url_raw_path origin \<noteq> []
                \<or> url_raw_query origin \<noteq> [] \<or> url_fragment origin \<noteq> [] \<or> url_force_query origin
             then None
             else canonical_loopback_authority ucl (url_host origin) port)))"

definition cross_origin_denied :: "nat \<times> bytes" where
  "cross_origin_denied = (403, ''cross-origin development proxy request denied'')"

definition validate_request ::
  "(nat \<Rightarrow> nat) \<Rightarrow> (bytes \<Rightarrow> parsed_url option) \<Rightarrow> dev_proxy \<Rightarrow> http_request \<Rightarrow> nat \<times> bytes" where
  "validate_request ucl parse_url d r =
     (case px_authority d of
        None \<Rightarrow> (503, ''Hime-san development proxy is not ready'')
      | Some port \<Rightarrow>
          (case canonical_loopback_authority ucl (rq_host r) port of
             None \<Rightarrow> (421, ''Hime-san development proxy requires a loopback Host authority'')
           | Some request_authority \<Rightarrow>
               (let sites = header_values (rq_header r) ''Sec-Fetch-Site'';
                    origins = header_values (rq_header r) ''Origin'' in
                if length sites > 1 then cross_origin_denied
                else if length sites = 1
                   \<and> to_lower ucl (trim_space (sites ! 0)) \<notin> set [[], ''none'', ''same-origin''] then cross_origin_denied
                else if length origins > 1 then cross_origin_denied
                else if length origins = 1
                   \<and> canonical_http_origin ucl parse_url (origins ! 0) port \<noteq> Some request_authority
                then cross_origin_denied
                else (0, []))))"

subsection \<open>Answers\<close>

record http_reply =
  rp_status :: nat
  rp_header :: http_header
  rp_body :: bytes

definition http_error :: "http_header \<Rightarrow> bytes \<Rightarrow> nat \<Rightarrow> http_reply" where
  \<comment> \<open>\<open>http.Error\<close>\<close>
  "http_error h message status =
     \<lparr>rp_status = status,
      rp_header = header_set ''X-Content-Type-Options'' ''nosniff''
        (header_set ''Content-Type'' ''text/plain; charset=utf-8'' (header_del ''Content-Length'' h)),
      rp_body = message @ [LF]\<rparr>"

definition serve_waiting_page :: "bytes \<Rightarrow> http_header \<Rightarrow> http_reply" where
  "serve_waiting_page hash h =
     (let body = ''<!doctype html><html><body><h1>Hime-san is waiting for a healthy application build.</h1>''
            @ reload_client_tag @ ''</body></html>'';
          policy = ''default-src '' @ csp_none @ ''; script-src '' @ hash @ ''; connect-src '' @ CHR 0x27 # ''self'' @ [CHR 0x27]
      in \<lparr>rp_status = 503,
          rp_header = header_set ''X-Content-Type-Options'' ''nosniff'' (header_set ''Referrer-Policy'' ''no-referrer''
            (header_set ''Content-Length'' (show_nat (length body)) (header_set ''Cache-Control'' ''no-store''
            (header_set ''Content-Security-Policy'' policy (header_set ''Content-Type'' ''text/html; charset=utf-8'' h))))),
          rp_body = body\<rparr>)"

definition events_path :: bytes where "events_path = ''/__himesan/events''"

text \<open>The request the reverse proxy sends on: the rewriting of URL and forwarding headers is its own.\<close>

definition rewrite_request ::
  "(parsed_url \<Rightarrow> http_request \<Rightarrow> http_request) \<Rightarrow> (http_request \<Rightarrow> http_request) \<Rightarrow> parsed_url option \<Rightarrow>
   http_request \<Rightarrow> http_request" where
  "rewrite_request set_url set_x_forwarded target request =
     (case target of
        None \<Rightarrow> request
      | Some target \<Rightarrow>
          (let request = set_x_forwarded (set_url target request) in
           request\<lparr>rq_header := header_set ''Cache-Control'' ''no-cache'' (header_del ''If-None-Match''
             (header_del ''If-Modified-Since'' (header_set ''Accept-Encoding'' ''identity'' (rq_header request))))\<rparr>))"

datatype proxy_answer =
    Answered http_reply
  | EventStream
  | Forwarded parsed_url

definition serve_http ::
  "(nat \<Rightarrow> nat) \<Rightarrow> (bytes \<Rightarrow> parsed_url option) \<Rightarrow> bytes \<Rightarrow> dev_proxy \<Rightarrow> http_request \<Rightarrow> proxy_answer" where
  "serve_http ucl parse_url hash d r =
     (case validate_request ucl parse_url d r of (status, message) \<Rightarrow>
        if status \<noteq> 0
        then Answered (http_error (header_set ''X-Content-Type-Options'' ''nosniff''
               (header_set ''Referrer-Policy'' ''no-referrer'' (header_set ''Cache-Control'' ''no-store'' Map.empty)))
               message status)
        else if rq_path r = events_path then EventStream
        else (case px_target d of
            None \<Rightarrow> Answered (serve_waiting_page hash Map.empty)
          | Some target \<Rightarrow> Forwarded target))"

subsection \<open>The selected application\<close>

definition set_authority :: "(nat \<Rightarrow> bool) \<Rightarrow> bytes \<Rightarrow> dev_proxy \<Rightarrow> bytes option \<times> dev_proxy" where
  "set_authority is_print address d =
     (case validate_loopback_address is_print address of
        Some e \<Rightarrow> (Some (''development proxy authority '' @ go_quote is_print address @ '': '' @ e), d)
      | None \<Rightarrow>
          (case split_host_port address of
             Inl e \<Rightarrow> (Some (''split development proxy authority: '' @ e), d)
           | Inr (_, raw_port) \<Rightarrow>
               (case go_atoi raw_port of
                  None \<Rightarrow> (Some (''parse development proxy port: strconv.Atoi: parsing '' @ go_quote is_print raw_port
                    @ '': invalid syntax''), d)
                | Some port \<Rightarrow> (None, d\<lparr>px_authority := Some port\<rparr>))))"

definition set_target ::
  "(nat \<Rightarrow> bool) \<Rightarrow> (bytes \<Rightarrow> bytes + parsed_url) \<Rightarrow> bytes \<Rightarrow> dev_proxy \<Rightarrow> bytes option \<times> dev_proxy" where
  "set_target is_print parse_url address d =
     (case validate_loopback_address is_print address of
        Some e \<Rightarrow> (Some (''development upstream '' @ go_quote is_print address @ '': '' @ e), d)
      | None \<Rightarrow>
          (case parse_url (''http://'' @ address) of
             Inl e \<Rightarrow> (Some (''parse development upstream: '' @ e), d)
           | Inr target \<Rightarrow> (None, d\<lparr>px_target := Some target\<rparr>)))"

text \<open>The compare-and-swap succeeds, because the supervisor alone sets the target.\<close>

definition clear_target :: "bytes \<Rightarrow> dev_proxy \<Rightarrow> bool \<times> dev_proxy" where
  "clear_target address d =
     (case px_target d of
        None \<Rightarrow> (False, d)
      | Some target \<Rightarrow> (if url_host target \<noteq> address then (False, d) else (True, d\<lparr>px_target := None\<rparr>)))"

subsection \<open>Responses\<close>

text \<open>A body gives its content, then the end or an error; closing it may fail.\<close>

record http_body =
  bd_content :: bytes
  bd_error :: "bytes option"
  bd_close_error :: "bytes option"

record http_response =
  rs_status :: nat
  rs_request :: "http_request option"
  rs_header :: http_header
  rs_body :: "http_body option"
  rs_length :: int

definition memory_body :: "bytes \<Rightarrow> http_body" where
  "memory_body contents = \<lparr>bd_content = contents, bd_error = None, bd_close_error = None\<rparr>"

definition disable_development_caching :: "http_response \<Rightarrow> http_response" where
  "disable_development_caching response = response\<lparr>rs_header :=
     header_del ''Last-Modified'' (header_del ''ETag'' (header_set ''Expires'' ''0''
       (header_set ''Pragma'' ''no-cache'' (header_set ''Cache-Control'' ''no-store'' (rs_header response)))))\<rparr>"

definition eligible_html_response :: "(bytes \<Rightarrow> bytes \<times> bool) \<Rightarrow> (nat \<Rightarrow> nat) \<Rightarrow> http_response \<Rightarrow> bool" where
  \<comment> \<open>\<open>mime\<close> parses a media type: the type, and whether there was an error\<close>
  "eligible_html_response mime ucl response =
     (case rs_request response of
        None \<Rightarrow> False
      | Some request \<Rightarrow>
          (let h = rs_header response;
               (media_type, err) = mime (header_get h ''Content-Type'');
               encoding = trim_space (header_get h ''Content-Encoding'');
               raw_disposition = trim_space (header_get h ''Content-Disposition'');
               (disposition, disposition_err) = mime raw_disposition;
               destination = trim_space (header_get (rq_header request) ''Sec-Fetch-Dest'')
           in rs_status response = 200 \<and> rs_body response \<noteq> None \<and> rq_method request \<noteq> ''HEAD''
              \<and> \<not> err \<and> equal_fold_ascii media_type ''text/html''
              \<and> (encoding = [] \<or> equal_fold_ascii encoding ''identity'')
              \<and> \<not> (equal_fold_ascii disposition ''attachment''
                   \<or> disposition_err \<and> has_prefix ''attachment'' (to_lower ucl raw_disposition))
              \<and> list_all (\<lambda>name. trim_space (header_get (rq_header request) name) = [])
                   [''HX-Request'', ''Turbo-Frame'', ''X-PJAX'', ''X-Requested-With'']
              \<and> \<not> equal_fold_ascii (header_get h ''X-Himesan-Fragment'') ''true''
              \<and> (destination = [] \<or> equal_fold_ascii destination ''document'')))"

definition has_html_token_prefix :: "bytes \<Rightarrow> bytes \<Rightarrow> bool" where
  "has_html_token_prefix contents prefx =
     (has_prefix prefx contents \<and> length contents \<noteq> length prefx
      \<and> contents ! length prefx \<in> set [CHR ''>'', CHR ''/'', CHR '' '', CHR 0x09, CR, LF, CHR 0x0C])"

lemma length_trim_space: "length (trim_space s) \<le> length s"
proof -
  obtain a b where "utf8_chunks s = a @ trim_chunks is_space_rune (utf8_chunks s) @ b"
    using trim_chunks_split [of "utf8_chunks s" is_space_rune] by blast
  then have "concat (map snd (utf8_chunks s)) = concat (map snd a) @ trim_space s @ concat (map snd b)"
    unfolding trim_space_def trim_func_def by (metis concat_append map_append)
  then have "s = concat (map snd a) @ trim_space s @ concat (map snd b)" by simp
  from arg_cong [OF this, of length] show ?thesis by simp
qed

text \<open>The comments in front of the document; \<open>None\<close> when one does not end.\<close>

function skip_comments :: "bytes \<Rightarrow> bytes option" where
  "skip_comments remaining =
     (if \<not> has_prefix ''<!--'' remaining then Some remaining
      else (case index_of ''-->'' (drop 4 remaining) of
          None \<Rightarrow> None
        | Some e \<Rightarrow> skip_comments (trim_space (drop (4 + e + 3) remaining))))"
  by pat_completeness auto
termination skip_comments
proof (relation "measure length", goal_cases)
  case (2 remaining e)
  have "length (trim_space (drop (4 + e + 3) remaining)) \<le> length (drop (4 + e + 3) remaining)"
    by (rule length_trim_space)
  moreover have "remaining \<noteq> []" using 2 by auto
  ultimately show ?case by (cases remaining) simp_all
qed simp

declare skip_comments.simps [simp del]

definition is_full_html_document :: "(nat \<Rightarrow> nat) \<Rightarrow> bytes \<Rightarrow> bool" where
  "is_full_html_document ucl contents =
     (case skip_comments (trim_space (trim_prefix [CHR 0xEF, CHR 0xBB, CHR 0xBF] (trim_space contents))) of
        None \<Rightarrow> False
      | Some remaining \<Rightarrow>
          (let lower = to_lower ucl remaining in
           has_html_token_prefix lower ''<!doctype html'' \<or> has_html_token_prefix lower ''<html''))"

text \<open>
  The place of the client is searched in the lower-case text and used as an index into the contents;
  slicing past the end is a panic, \<open>None\<close> here.
\<close>

definition insert_reload_client :: "(nat \<Rightarrow> nat) \<Rightarrow> bytes \<Rightarrow> bytes option" where
  "insert_reload_client ucl contents =
     (let lower = to_lower ucl contents;
          position = (case last_index_of ''</body>'' lower of
              Some p \<Rightarrow> p
            | None \<Rightarrow> (case last_index_of ''</html>'' lower of Some p \<Rightarrow> p | None \<Rightarrow> length contents))
      in if length contents < position then None
         else Some (take position contents @ reload_client_tag @ drop position contents))"

definition adjust_policy :: "bytes \<Rightarrow> bytes \<Rightarrow> bytes" where
  "adjust_policy hash policy =
     add_csp_source
       (add_csp_source (add_csp_source policy ''script-src'' hash ''default-src'') ''script-src-elem'' hash ''script-src'')
       ''connect-src'' (CHR 0x27 # ''self'' @ [CHR 0x27]) ''default-src''"

definition adjust_csp :: "bytes \<Rightarrow> bytes \<Rightarrow> http_header \<Rightarrow> http_header" where
  "adjust_csp hash name h =
     (let policies = header_values h name in
      if policies = [] then h
      else foldl (\<lambda>h policy. header_add name (adjust_policy hash policy) h) (header_del name h) policies)"

datatype injection =
    Injected http_response
  | InjectFailed bytes
  | InjectPanic

definition inject_development_client ::
  "(bytes \<Rightarrow> bytes \<times> bool) \<Rightarrow> (nat \<Rightarrow> nat) \<Rightarrow> bytes \<Rightarrow> http_response \<Rightarrow> injection" where
  "inject_development_client mime ucl hash response =
     (let response = disable_development_caching response in
      if \<not> eligible_html_response mime ucl response then Injected response
      else (case rs_body response of
          None \<Rightarrow> Injected response
        | Some body \<Rightarrow>
            (let prefx = take (max_injectable_html + 1) (bd_content body);
                 finish = (\<lambda>contents r. r\<lparr>rs_body := Some (memory_body contents), rs_length := int (length contents),
                    rs_header := header_set ''Content-Length'' (show_nat (length contents)) (rs_header r)\<rparr>) in
             if length prefx > max_injectable_html
             then Injected (response\<lparr>rs_body := Some (body\<lparr>bd_content := prefx @ drop (max_injectable_html + 1) (bd_content body)\<rparr>)\<rparr>)
             else (case bd_error body of
                 Some e \<Rightarrow> InjectFailed (''read HTML for development reload injection: '' @ e)
               | None \<Rightarrow>
                   (case bd_close_error body of
                      Some e \<Rightarrow> InjectFailed (''close upstream HTML response: '' @ e)
                    | None \<Rightarrow>
                        (if \<not> is_full_html_document ucl prefx then Injected (finish prefx response)
                         else (case insert_reload_client ucl prefx of
                             None \<Rightarrow> InjectPanic
                           | Some contents \<Rightarrow>
                               (let r = finish contents response in
                                Injected (r\<lparr>rs_header :=
                                  adjust_csp hash ''Content-Security-Policy-Report-Only''
                                    (adjust_csp hash ''Content-Security-Policy''
                                      (header_del ''Last-Modified'' (header_del ''ETag'' (rs_header r))))\<rparr>)))))))))"

end
