(* ===== verification/Dev_Events.thy ===== *)
theory Dev_Events
  imports Go_Net Sando_Runtime "HOL-Library.Sublist" Dev_Proxy
begin

section \<open>Development events: internal/devserver/events.go\<close>

text \<open>
  The hub keeps one buffered channel per browser. A channel is named by its place in the list of all
  channels made, so that a closed one stays observable. Publishing and the reader of a channel are not
  excluded from each other: the schedule says how many events a reader takes between the three attempts
  of the publisher.
\<close>

subsection \<open>The hub\<close>

record dev_diagnostic =
  dd_path :: bytes
  dd_line :: int
  dd_column :: int
  dd_code :: bytes
  dd_message :: bytes
  dd_severity :: bytes

record dev_event =
  ev_type :: bytes
  ev_phase :: bytes
  ev_message :: bytes
  ev_diagnostics :: "dev_diagnostic list"
  ev_at :: nat

record event_channel =
  ch_queue :: "dev_event list"
  ch_closed :: bool

record event_hub =
  hb_channels :: "event_channel list"
  hb_subscribers :: "nat list"
  hb_latest :: "dev_event option"
  hb_closed :: bool

definition new_event_hub :: event_hub where
  "new_event_hub = \<lparr>hb_channels = [], hb_subscribers = [], hb_latest = None, hb_closed = False\<rparr>"

definition channel_capacity :: nat where "channel_capacity = 8"

text \<open>A send that does not wait: \<open>None\<close> is the panic of a closed channel.\<close>

definition try_send :: "dev_event \<Rightarrow> event_channel \<Rightarrow> (bool \<times> event_channel) option" where
  "try_send event ch =
     (if ch_closed ch then None
      else if length (ch_queue ch) < channel_capacity then Some (True, ch\<lparr>ch_queue := ch_queue ch @ [event]\<rparr>)
      else Some (False, ch))"

definition taken :: "nat \<Rightarrow> event_channel \<Rightarrow> event_channel" where
  "taken n ch = ch\<lparr>ch_queue := drop n (ch_queue ch)\<rparr>"

definition offer :: "dev_event \<Rightarrow> nat \<times> nat \<Rightarrow> event_channel \<Rightarrow> event_channel option" where
  "offer event schedule ch =
     (case try_send event ch of
        None \<Rightarrow> None
      | Some (True, ch) \<Rightarrow> Some ch
      | Some (False, ch) \<Rightarrow>
          (let ch = taken 1 (taken (fst schedule) ch) in
           map_option snd (try_send event (taken (snd schedule) ch))))"

fun offer_all :: "dev_event \<Rightarrow> (nat \<Rightarrow> nat \<times> nat) \<Rightarrow> nat list \<Rightarrow> event_channel list \<Rightarrow> event_channel list option" where
  "offer_all event schedule [] chs = Some chs"
| "offer_all event schedule (i # subscribers) chs =
     (case offer event (schedule i) (chs ! i) of
        None \<Rightarrow> None
      | Some ch \<Rightarrow> offer_all event schedule subscribers (chs[i := ch]))"

definition publish :: "nat \<Rightarrow> (nat \<Rightarrow> nat \<times> nat) \<Rightarrow> dev_event \<Rightarrow> event_hub \<Rightarrow> event_hub option" where
  "publish now schedule event h =
     (let event = (if ev_at event = 0 then event\<lparr>ev_at := now\<rparr> else event) in
      if hb_closed h then Some h
      else
        (let h = h\<lparr>hb_latest := (if ev_type event = ''diagnostic'' then Some event
                   else if ev_type event = ''reload'' then None else hb_latest h)\<rparr> in
         map_option (\<lambda>chs. h\<lparr>hb_channels := chs\<rparr>) (offer_all event schedule (hb_subscribers h) (hb_channels h))))"

definition subscribe :: "event_hub \<Rightarrow> nat \<times> event_hub" where
  "subscribe h =
     (let k = length (hb_channels h) in
      if hb_closed h then (k, h\<lparr>hb_channels := hb_channels h @ [\<lparr>ch_queue = [], ch_closed = True\<rparr>]\<rparr>)
      else (k, h\<lparr>hb_channels := hb_channels h
                    @ [\<lparr>ch_queue = (case hb_latest h of Some e \<Rightarrow> [e] | None \<Rightarrow> []), ch_closed = False\<rparr>],
                  hb_subscribers := k # hb_subscribers h\<rparr>))"

definition close_channel :: "nat \<Rightarrow> event_hub \<Rightarrow> event_hub option" where
  \<comment> \<open>closing a closed channel panics\<close>
  "close_channel k h =
     (if ch_closed (hb_channels h ! k) then None
      else Some (h\<lparr>hb_channels := (hb_channels h)[k := (hb_channels h ! k)\<lparr>ch_closed := True\<rparr>]\<rparr>))"

definition unsubscribe :: "nat \<Rightarrow> event_hub \<Rightarrow> event_hub option" where
  "unsubscribe k h =
     (if k \<in> set (hb_subscribers h)
      then close_channel k (h\<lparr>hb_subscribers := removeAll k (hb_subscribers h)\<rparr>)
      else Some h)"

fun close_all :: "nat list \<Rightarrow> event_hub \<Rightarrow> event_hub option" where
  "close_all [] h = Some h"
| "close_all (k # ids) h =
     (case close_channel k h of
        None \<Rightarrow> None
      | Some h \<Rightarrow> close_all ids (h\<lparr>hb_subscribers := removeAll k (hb_subscribers h)\<rparr>))"

definition close_hub :: "event_hub \<Rightarrow> event_hub option" where
  "close_hub h =
     (if hb_closed h then Some h else close_all (hb_subscribers h) (h\<lparr>hb_closed := True\<rparr>))"

text \<open>The reader takes the next event, when there is one.\<close>

definition receive :: "nat \<Rightarrow> event_hub \<Rightarrow> event_hub" where
  "receive k h = h\<lparr>hb_channels := (hb_channels h)[k := taken 1 (hb_channels h ! k)]\<rparr>"

subsection \<open>The event stream\<close>

definition write_sse :: "('w, 'e) writer \<Rightarrow> (dev_event \<Rightarrow> bytes + bytes) \<Rightarrow> 'w \<Rightarrow> dev_event \<Rightarrow> bool \<times> 'w" where
  \<comment> \<open>whether it succeeded; \<open>marshal\<close> is the JSON encoder\<close>
  "write_sse w marshal st event =
     (case marshal event of
        Inl e \<Rightarrow> (False, st)
      | Inr payload \<Rightarrow>
          (case writer_write w st (''event: '' @ ev_type event @ [LF]) of
             (_, Some e, st) \<Rightarrow> (False, st)
           | (_, None, st) \<Rightarrow>
               (case writer_write w st (''data: '' @ payload @ [LF, LF]) of (_, e, st) \<Rightarrow> (e = None, st))))"

datatype stream_input = RequestDone | Update dev_event | UpdatesClosed | Heartbeat

text \<open>The loop over what the select statement chooses, until a return.\<close>

fun stream_loop :: "('w, 'e) writer \<Rightarrow> (dev_event \<Rightarrow> bytes + bytes) \<Rightarrow> stream_input list \<Rightarrow> 'w \<Rightarrow> 'w" where
  "stream_loop w marshal [] st = st"
| "stream_loop w marshal (RequestDone # inputs) st = st"
| "stream_loop w marshal (UpdatesClosed # inputs) st = st"
| "stream_loop w marshal (Update event # inputs) st =
     (case write_sse w marshal st event of (ok, st) \<Rightarrow> if ok then stream_loop w marshal inputs st else st)"
| "stream_loop w marshal (Heartbeat # inputs) st =
     (case writer_write w st ('': heartbeat'' @ [LF, LF]) of
        (_, Some e, st) \<Rightarrow> st
      | (_, None, st) \<Rightarrow> stream_loop w marshal inputs st)"

definition stream_header :: http_header where
  "stream_header = header_set ''X-Accel-Buffering'' ''no'' (header_set ''Connection'' ''keep-alive''
     (header_set ''Cache-Control'' ''no-store'' (header_set ''Content-Type'' ''text/event-stream; charset=utf-8'' Map.empty)))"

definition ready_event :: "nat \<Rightarrow> dev_event" where
  "ready_event now = \<lparr>ev_type = ''ready'', ev_phase = [], ev_message = [], ev_diagnostics = [], ev_at = now\<rparr>"

text \<open>The handler: an error reply, or the header of the stream and the state of the writer at its end.\<close>

definition serve_events ::
  "('w, 'e) writer \<Rightarrow> (dev_event \<Rightarrow> bytes + bytes) \<Rightarrow> bool \<Rightarrow> nat \<Rightarrow> bytes \<Rightarrow> stream_input list \<Rightarrow> 'w \<Rightarrow>
   http_reply + (http_header \<times> 'w)" where
  "serve_events w marshal flusher now meth inputs st =
     (if meth \<noteq> ''GET'' then Inl (http_error (header_set ''Allow'' ''GET'' Map.empty) ''method not allowed'' 405)
      else if \<not> flusher then Inl (http_error Map.empty ''streaming is unavailable'' 500)
      else (case write_sse w marshal st (ready_event now) of
          (ok, st) \<Rightarrow> Inr (stream_header, if ok then stream_loop w marshal inputs st else st)))"

end
