(* ===== verification/Dev_Watch.thy ===== *)
theory Dev_Watch
  imports Dev_Config Host_Files
begin

section \<open>Watching the project: internal/devserver/watch.go\<close>

text \<open>
  The roots that are watched, the snapshot of the watched files (a walk over the modelled file system
  with the callback of \<open>takeSnapshot\<close>) and the comparison of snapshots. The modification time of a file
  is a parameter, because the file system of the compiler has none. The lemmas show what a snapshot can
  hold: regular files that are development sources, and never generated output.
\<close>

subsection \<open>Roots\<close>

record watch_root =
  wr_path :: bytes
  wr_all_regular :: bool

fun add_source_roots :: "bytes \<Rightarrow> bytes list \<Rightarrow> watch_root list \<times> bytes list \<Rightarrow> watch_root list \<times> bytes list" where
  "add_source_roots root_dir [] acc = acc"
| "add_source_roots root_dir (root # more_roots) (roots, seen) =
     (let path = resolve_project_path root_dir root in
      add_source_roots root_dir more_roots
        (if path \<in> set seen then (roots, seen)
         else (roots @ [\<lparr>wr_path = path, wr_all_regular = False\<rparr>], path # seen)))"

fun add_watch_roots :: "bytes \<Rightarrow> bytes list \<Rightarrow> watch_root list \<times> bytes list \<Rightarrow> watch_root list \<times> bytes list" where
  "add_watch_roots root_dir [] acc = acc"
| "add_watch_roots root_dir (root # more_roots) (roots, seen) =
     (let path = resolve_project_path root_dir root in
      add_watch_roots root_dir more_roots
        (if path \<in> set seen
         then (map (\<lambda>r. if wr_path r = path then r\<lparr>wr_all_regular := True\<rparr> else r) roots, seen)
         else (roots @ [\<lparr>wr_path = path, wr_all_regular = True\<rparr>], path # seen)))"

definition make_watch_roots :: "bytes \<Rightarrow> dev_config \<Rightarrow> watch_root list" where
  "make_watch_roots root_dir cfg =
     (let root_dir = path_clean root_dir in
      fst (add_watch_roots root_dir (cf_additional_watch_roots cfg)
        (add_source_roots root_dir (cf_source_roots cfg)
          ([\<lparr>wr_path = root_dir, wr_all_regular = False\<rparr>], [root_dir]))))"

subsection \<open>Snapshots\<close>

record fingerprint =
  fp_length :: nat
  fp_mode :: nat
  fp_mod_time :: nat

type_synonym snapshot = "bytes \<rightharpoonup> fingerprint"

definition should_skip_watch_directory :: "bytes \<Rightarrow> bool" where
  "should_skip_watch_directory name =
     (name \<in> set [''.git'', ''.hg'', ''.svn'', ''.himesan'', ''node_modules'', ''vendor''])"

definition is_development_source :: "(nat \<Rightarrow> nat) \<Rightarrow> bytes \<Rightarrow> bool" where
  "is_development_source ucl path =
     (let name = path_base path in
      if has_suffix ''.sando.go'' (to_lower ucl name) then False
      else if name \<in> set [''go.mod'', ''go.sum'', ''go.work'', ''go.work.sum'', ''himesan.json''] then True
      else (let extension = to_lower ucl (path_ext name) in extension = ''.go'' \<or> extension = ''.sando''))"

record watch_state =
  ws_world :: world
  ws_snapshot :: snapshot
  ws_problems :: "bytes list"

definition watch_problem :: "bytes \<Rightarrow> bytes \<Rightarrow> watch_state \<Rightarrow> watch_state" where
  "watch_problem path problem st = st\<lparr>ws_problems := ws_problems st @ [''watch '' @ path @ '': '' @ problem]\<rparr>"

definition take_fingerprint ::
  "'d host \<Rightarrow> (world \<Rightarrow> bytes \<Rightarrow> nat) \<Rightarrow> bytes \<Rightarrow> watch_state \<Rightarrow> watch_state" where
  "take_fingerprint h mod_time path st =
     (case lstat h path (ws_world st) of
        (Inl e, w) \<Rightarrow> watch_problem path (os_error_text e) (st\<lparr>ws_world := w\<rparr>)
      | (Inr (RegularFile perm content), w) \<Rightarrow>
          st\<lparr>ws_world := w, ws_snapshot := (ws_snapshot st)(path \<mapsto>
            \<lparr>fp_length = length content, fp_mode = perm, fp_mod_time = mod_time (ws_world st) path\<rparr>)\<rparr>
      | (Inr _, w) \<Rightarrow> st\<lparr>ws_world := w\<rparr>)"

text \<open>The callback of the walk: whether to skip the directory, and the new state.\<close>

definition watch_entry ::
  "(nat \<Rightarrow> nat) \<Rightarrow> 'd host \<Rightarrow> (world \<Rightarrow> bytes \<Rightarrow> nat) \<Rightarrow> watch_root \<Rightarrow> bytes \<Rightarrow> bytes \<Rightarrow> fs_entry option \<Rightarrow>
   os_error option \<Rightarrow> watch_state \<Rightarrow> bool \<times> watch_state" where
  "watch_entry ucl h mod_time root path name entry err st =
     (case err of
        Some e \<Rightarrow> (case entry of Some d \<Rightarrow> is_directory d | None \<Rightarrow> False, watch_problem path (os_error_text e) st)
      | None \<Rightarrow>
          (case entry of
             None \<Rightarrow> (False, st)
           | Some entry \<Rightarrow>
               (if path \<noteq> wr_path root \<and> is_directory entry
                then
                  (if should_skip_watch_directory name then (True, st)
                   else if wr_all_regular root then (False, st)
                   else (case stat h (path_join path ''go.mod'') (ws_world st) of
                       (Inr _, w) \<Rightarrow> (True, st\<lparr>ws_world := w\<rparr>)
                     | (Inl _, w) \<Rightarrow> (False, st\<lparr>ws_world := w\<rparr>)))
                else if is_symlink entry \<or> is_directory entry then (False, st)
                else if has_suffix ''.sando.go'' (to_lower ucl name) then (False, st)
                else if \<not> wr_all_regular root \<and> \<not> is_development_source ucl path then (False, st)
                else (False, take_fingerprint h mod_time path st))))"

text \<open>
  \<open>filepath.WalkDir\<close> with this callback: the entry, then the names of a directory in order. A skip
  of a directory ends it. Out of fuel, \<open>ReadDir\<close> refuses the path.
\<close>

fun watch_walk ::
  "(nat \<Rightarrow> nat) \<Rightarrow> 'd host \<Rightarrow> (world \<Rightarrow> bytes \<Rightarrow> nat) \<Rightarrow> watch_root \<Rightarrow> nat \<Rightarrow> bytes \<Rightarrow> bytes \<Rightarrow> fs_entry \<Rightarrow> watch_state \<Rightarrow>
   watch_state" where
  "watch_walk ucl h mod_time root 0 path name entry st =
     (case watch_entry ucl h mod_time root path name (Some entry) None st of
        (True, st) \<Rightarrow> st
      | (False, st) \<Rightarrow>
          (if \<not> is_directory entry then st
           else snd (watch_entry ucl h mod_time root path name (Some entry) (Some (OsFailure ''file name too long'')) st)))"
| "watch_walk ucl h mod_time root (Suc fuel) path name entry st =
     (case watch_entry ucl h mod_time root path name (Some entry) None st of
        (True, st) \<Rightarrow> st
      | (False, st) \<Rightarrow>
          (if \<not> is_directory entry then st
           else (case read_dir h path (ws_world st) of
               (Inl e, w) \<Rightarrow> snd (watch_entry ucl h mod_time root path name (Some entry) (Some e) (st\<lparr>ws_world := w\<rparr>))
             | (Inr names, w) \<Rightarrow>
                 foldl (\<lambda>st n. case entry_of h (w_files (ws_world st)) (path_join path n) of
                     None \<Rightarrow> st
                   | Some entry \<Rightarrow> watch_walk ucl h mod_time root fuel (path_join path n) n entry st)
                   (st\<lparr>ws_world := w\<rparr>) names)))"

definition watch_tree ::
  "(nat \<Rightarrow> nat) \<Rightarrow> 'd host \<Rightarrow> (world \<Rightarrow> bytes \<Rightarrow> nat) \<Rightarrow> watch_root \<Rightarrow> watch_state \<Rightarrow> watch_state" where
  "watch_tree ucl h mod_time root st =
     (case lstat h (wr_path root) (ws_world st) of
        (Inl e, w) \<Rightarrow> watch_problem (wr_path root) (os_error_text e) (st\<lparr>ws_world := w\<rparr>)
      | (Inr entry, w) \<Rightarrow>
          (if is_symlink entry
           then watch_problem (wr_path root) ''symbolic-link roots are not followed'' (st\<lparr>ws_world := w\<rparr>)
           else (case lstat h (wr_path root) w of
               (Inl e, w) \<Rightarrow> snd (watch_entry ucl h mod_time root (wr_path root) [] None (Some e) (st\<lparr>ws_world := w\<rparr>))
             | (Inr entry, w) \<Rightarrow>
                 watch_walk ucl h mod_time root 4096 (wr_path root) (path_base (wr_path root)) entry (st\<lparr>ws_world := w\<rparr>))))"

definition take_snapshot ::
  "(nat \<Rightarrow> nat) \<Rightarrow> 'd host \<Rightarrow> (world \<Rightarrow> bytes \<Rightarrow> nat) \<Rightarrow> watch_root list \<Rightarrow> world \<Rightarrow> snapshot \<times> bytes list \<times> world" where
  \<comment> \<open>the snapshot, the problems that are joined into one error, and the world\<close>
  "take_snapshot ucl h mod_time roots w =
     (let st = foldl (\<lambda>st root. watch_tree ucl h mod_time root st)
            \<lparr>ws_world = w, ws_snapshot = Map.empty, ws_problems = []\<rparr> roots
      in (ws_snapshot st, ws_problems st, ws_world st))"

text \<open>The error that \<open>errors.Join\<close> makes of the problems; none is no error.\<close>

definition joined_error :: "bytes list \<Rightarrow> bytes option" where
  "joined_error problems = (if problems = [] then None else Some (join_with [LF] problems))"

text \<open>Snapshots are finite maps; the comparison goes over the paths of the left one.\<close>

definition snapshots_equal :: "snapshot \<Rightarrow> snapshot \<Rightarrow> bool" where
  "snapshots_equal left right =
     (card (dom left) = card (dom right) \<and> (\<forall>path \<in> dom left. right path = left path))"

subsection \<open>What a snapshot holds\<close>

definition watched :: "(nat \<Rightarrow> nat) \<Rightarrow> 'd host \<Rightarrow> files \<Rightarrow> watch_root list \<Rightarrow> bytes \<Rightarrow> bool" where
  "watched ucl h fs roots path =
     ((\<exists>perm content. entry_of h fs path = Some (RegularFile perm content))
      \<and> ((\<exists>root\<in>set roots. wr_all_regular root) \<or> is_development_source ucl path))"

definition snapshot_ok :: "(nat \<Rightarrow> nat) \<Rightarrow> 'd host \<Rightarrow> files \<Rightarrow> watch_root list \<Rightarrow> watch_state \<Rightarrow> bool" where
  "snapshot_ok ucl h fs roots st =
     (w_files (ws_world st) = fs \<and> finite (dom (ws_snapshot st))
      \<and> (\<forall>path \<in> dom (ws_snapshot st). watched ucl h fs roots path))"

lemma snapshots_equal_iff:
  assumes "finite (dom left)" and "finite (dom right)"
  shows "snapshots_equal left right \<longleftrightarrow> left = right"
proof
  assume eq: "snapshots_equal left right"
  then have sub: "dom left \<subseteq> dom right" by (force simp: snapshots_equal_def)
  have "card (dom left) = card (dom right)" using eq by (simp add: snapshots_equal_def)
  then have "dom left = dom right" using card_subset_eq [OF assms(2) sub] by simp
  with eq show "left = right" by (intro map_le_antisym) (auto simp: snapshots_equal_def map_le_def)
qed (simp add: snapshots_equal_def)

lemma call_keeps:
  "lstat h path w = (r, w') \<Longrightarrow> w_files w' = w_files w" "stat h path w = (s, w') \<Longrightarrow> w_files w' = w_files w"
  "read_dir h path w = (t, w') \<Longrightarrow> w_files w' = w_files w"
  by (auto simp: lstat_def stat_def read_dir_def tick_def split: option.splits fs_entry.splits)

lemma lstat_entry: "lstat h path w = (Inr entry, w') \<Longrightarrow> entry_of h (w_files w) path = Some entry"
  by (auto simp: lstat_def split: option.splits)

lemma watch_problem_ok: "snapshot_ok ucl h fs roots st \<Longrightarrow> snapshot_ok ucl h fs roots (watch_problem path e st)"
  by (simp add: snapshot_ok_def watch_problem_def)

lemma world_ok: "snapshot_ok ucl h fs roots st \<Longrightarrow> w_files w = w_files (ws_world st) \<Longrightarrow> snapshot_ok ucl h fs roots (st\<lparr>ws_world := w\<rparr>)"
  by (simp add: snapshot_ok_def)

lemma take_fingerprint_ok:
  assumes ok: "snapshot_ok ucl h fs roots st"
    and "(\<exists>root\<in>set roots. wr_all_regular root) \<or> is_development_source ucl path"
  shows "snapshot_ok ucl h fs roots (take_fingerprint h mod_time path st)"
proof -
  obtain r w where call: "lstat h path (ws_world st) = (r, w)" by fastforce
  note same = call_keeps(1) [OF call]
  show ?thesis
  proof (cases r)
    case (Inl e)
    then show ?thesis using call watch_problem_ok [OF world_ok [OF ok same]] by (simp add: take_fingerprint_def)
  next
    case (Inr entry)
    have here: "entry_of h fs path = Some entry" using lstat_entry [of h path] call Inr ok by (auto simp: snapshot_ok_def)
    show ?thesis
    proof (cases entry)
      case (RegularFile perm content)
      then have "watched ucl h fs roots path" using here assms(2) by (auto simp: watched_def)
      then show ?thesis using call Inr RegularFile ok same by (simp add: take_fingerprint_def snapshot_ok_def)
    qed (use call Inr world_ok [OF ok same] in \<open>simp_all add: take_fingerprint_def\<close>)
  qed
qed

lemma watch_entry_ok:
  assumes ok: "snapshot_ok ucl h fs roots st" and root: "root \<in> set roots"
  shows "snapshot_ok ucl h fs roots (snd (watch_entry ucl h mod_time root path name entry err st))"
proof -
  have go_mod: "snapshot_ok ucl h fs roots (snd (case stat h p (ws_world st) of
      (Inr _, w) \<Rightarrow> (True, st\<lparr>ws_world := w\<rparr>) | (Inl _, w) \<Rightarrow> (False, st\<lparr>ws_world := w\<rparr>)))" for p
  proof -
    obtain r w where call: "stat h p (ws_world st) = (r, w)" by fastforce
    show ?thesis using world_ok [OF ok call_keeps(2) [OF call]] by (cases r) (simp_all add: call)
  qed
  have taken: "snapshot_ok ucl h fs roots (take_fingerprint h mod_time path st)"
    if "\<not> (\<not> wr_all_regular root \<and> \<not> is_development_source ucl path)"
    using that root by (intro take_fingerprint_ok [OF ok]) blast
  show ?thesis
  proof (cases err)
    case (Some e)
    then show ?thesis using watch_problem_ok [OF ok] by (simp add: watch_entry_def)
  next
    case None
    show ?thesis
    proof (cases entry)
      case None
      then show ?thesis using \<open>err = None\<close> ok by (simp add: watch_entry_def)
    next
      case (Some d)
      show ?thesis
        unfolding watch_entry_def \<open>err = None\<close> Some option.case
        using ok go_mod taken by (auto split: if_splits)
    qed
  qed
qed

lemma watch_walk_ok:
  "snapshot_ok ucl h fs roots st \<Longrightarrow> root \<in> set roots \<Longrightarrow>
   snapshot_ok ucl h fs roots (watch_walk ucl h mod_time root fuel path name entry st)"
proof (induction fuel arbitrary: path name entry st)
  case 0
  obtain skip st1 where v: "watch_entry ucl h mod_time root path name (Some entry) None st = (skip, st1)" by fastforce
  then have "snapshot_ok ucl h fs roots st1" using watch_entry_ok [OF 0] by (metis snd_conv)
  from watch_entry_ok [OF this 0(2)] this show ?case using v by (cases skip) simp_all
next
  case (Suc fuel)
  obtain skip st1 where v: "watch_entry ucl h mod_time root path name (Some entry) None st = (skip, st1)" by fastforce
  then have ok: "snapshot_ok ucl h fs roots st1" using watch_entry_ok [OF Suc.prems] by (metis snd_conv)
  obtain r w where call: "read_dir h path (ws_world st1) = (r, w)" by fastforce
  note ok' = world_ok [OF ok call_keeps(3) [OF call]]
  have names: "snapshot_ok ucl h fs roots (foldl (\<lambda>st n. case entry_of h (w_files (ws_world st)) (path_join path n) of
        None \<Rightarrow> st | Some entry \<Rightarrow> watch_walk ucl h mod_time root fuel (path_join path n) n entry st) st2 ns)"
    if "snapshot_ok ucl h fs roots st2" for st2 ns
    using that by (induction ns arbitrary: st2) (use Suc.IH Suc.prems(2) in \<open>auto split: option.split\<close>)
  show ?case
    using v ok ok' call names [OF ok'] watch_entry_ok [OF ok' Suc.prems(2)]
    by (cases skip; cases r) simp_all
qed

lemma take_snapshot_sound:
  assumes "take_snapshot ucl h mod_time roots w = (snapshot, problems, w')"
  shows "finite (dom snapshot) \<and> (\<forall>path \<in> dom snapshot. watched ucl h (w_files w) roots path) \<and> w_files w' = w_files w"
proof -
  have tree: "snapshot_ok ucl h fs roots (watch_tree ucl h mod_time root st)"
    if ok: "snapshot_ok ucl h fs roots st" and root: "root \<in> set roots" for fs root st
  proof -
    obtain r w1 where first: "lstat h (wr_path root) (ws_world st) = (r, w1)" by fastforce
    obtain r' w2 where again: "lstat h (wr_path root) w1 = (r', w2)" by fastforce
    have same: "w_files w1 = w_files (ws_world st)" "w_files w2 = w_files (ws_world st)"
      using call_keeps(1) [OF first] call_keeps(1) [OF again] by simp_all
    show ?thesis
      using first again watch_problem_ok [OF world_ok [OF ok same(1)]] watch_entry_ok [OF world_ok [OF ok same(2)] root]
        watch_walk_ok [OF world_ok [OF ok same(2)] root]
      by (auto simp: watch_tree_def split: sum.split)
  qed
  have "snapshot_ok ucl h fs roots (foldl (\<lambda>st root. watch_tree ucl h mod_time root st) st rs)"
    if "snapshot_ok ucl h fs roots st" "set rs \<subseteq> set roots" for fs st rs
    using that by (induction rs arbitrary: st) (auto intro: tree)
  from this [of "w_files w" "\<lparr>ws_world = w, ws_snapshot = Map.empty, ws_problems = []\<rparr>" roots]
  show ?thesis using assms by (auto simp: take_snapshot_def snapshot_ok_def Let_def)
qed

end
