(* ===== verification/Dev_Process.thy ===== *)
theory Dev_Process
  imports Dev_Events Dev_Watch
begin

section \<open>Candidate processes: internal/devserver/process.go\<close>

text \<open>
  The supervisor asks the system at ticks of a clock; the answers are a parameter, so every failure at
  every moment is covered. A process is live from its start until it is known to have exited or its
  group was sent the signal to kill. Here are starting and stopping, and the texts of build output that
  are kept.
\<close>

datatype stop_error = ProcessDone | ExitStatus bytes | OtherStop bytes

fun stop_error_text :: "stop_error \<Rightarrow> bytes" where
  "stop_error_text ProcessDone = ''os: process already finished''"
| "stop_error_text (ExitStatus t) = t"
| "stop_error_text (OtherStop t) = t"

datatype poll_answer = RequestFault bytes | PollFailed bytes | PollStatus nat bytes

datatype poll_choice = CandidateExited | StartupOver | PollAgain

text \<open>The answers: errors are their texts, \<open>None\<close> is no error.\<close>

record sup_host =
  sh_generate :: "nat \<Rightarrow> bytes option"
  sh_create_temp :: "nat \<Rightarrow> bytes + bytes"
  sh_close :: "nat \<Rightarrow> bytes option"
  sh_remove :: "nat \<Rightarrow> bytes option"
  sh_build :: "nat \<Rightarrow> bytes list \<times> bytes option"
  sh_listen :: "nat \<Rightarrow> bytes + bytes"
  sh_start :: "nat \<Rightarrow> bytes option"
  sh_attach :: "nat \<Rightarrow> bytes option"
  sh_exited :: "nat \<Rightarrow> bool"
  sh_in_time :: "nat \<Rightarrow> bool"
  sh_terminate :: "nat \<Rightarrow> bytes option"
  sh_kill :: "nat \<Rightarrow> stop_error option"
  sh_result :: "nat \<Rightarrow> stop_error option"
  sh_polls :: "nat \<Rightarrow> (poll_answer \<times> poll_choice) list"
  sh_now :: "nat \<Rightarrow> nat"

record sup_world =
  sw_clock :: nat
  sw_started :: nat
  sw_live :: "nat list"
  sw_binaries :: "bytes list"

record candidate =
  cp_address :: bytes
  cp_binary :: bytes
  cp_process :: nat

definition sup_tick :: "sup_world \<Rightarrow> sup_world" where
  "sup_tick w = w\<lparr>sw_clock := sw_clock w + 1\<rparr>"

subsection \<open>Processes\<close>

definition remove_binary :: "sup_host \<Rightarrow> bytes \<Rightarrow> sup_world \<Rightarrow> bytes option \<times> sup_world" where
  "remove_binary h path w =
     (case sh_remove h (sw_clock w) of
        Some e \<Rightarrow> (Some e, sup_tick w)
      | None \<Rightarrow> (None, sup_tick (w\<lparr>sw_binaries := removeAll path (sw_binaries w)\<rparr>)))"

definition process_gone :: "nat \<Rightarrow> sup_world \<Rightarrow> sup_world" where
  "process_gone p w = w\<lparr>sw_live := removeAll p (sw_live w)\<rparr>"

definition kill_process :: "sup_host \<Rightarrow> nat \<Rightarrow> sup_world \<Rightarrow> stop_error option \<times> sup_world" where
  "kill_process h p w =
     (case sh_kill h (sw_clock w) of
        Some e \<Rightarrow> (Some e, sup_tick w)
      | None \<Rightarrow> (None, sup_tick (process_gone p w)))"

definition acceptable_stop_error :: "stop_error option \<Rightarrow> stop_error option" where
  "acceptable_stop_error err =
     (case err of
        None \<Rightarrow> None
      | Some ProcessDone \<Rightarrow> None
      | Some (ExitStatus t) \<Rightarrow> None
      | Some (OtherStop t) \<Rightarrow> Some (OtherStop t))"

definition cleanup_process_tree :: "sup_host \<Rightarrow> candidate \<Rightarrow> sup_world \<Rightarrow> stop_error option \<times> sup_world" where
  "cleanup_process_tree h c w =
     (case kill_process h (cp_process c) w of (e, w) \<Rightarrow> (acceptable_stop_error e, w))"

definition start_managed_process :: "sup_host \<Rightarrow> bytes \<Rightarrow> bytes \<Rightarrow> sup_world \<Rightarrow> (bytes + candidate) \<times> sup_world" where
  "start_managed_process h address binary_path w =
     (case sh_start h (sw_clock w) of
        Some e \<Rightarrow> (Inl e, sup_tick w)
      | None \<Rightarrow>
          (let p = sw_started w;
               w = sup_tick (w\<lparr>sw_started := p + 1, sw_live := p # sw_live w\<rparr>) in
           case sh_attach h (sw_clock w) of
             Some e \<Rightarrow>
               (case kill_process h p (sup_tick w) of
                  (_, w) \<Rightarrow> (Inl (''attach managed process tree: '' @ e), process_gone p w))
           | None \<Rightarrow> (Inr \<lparr>cp_address = address, cp_binary = binary_path, cp_process = p\<rparr>, sup_tick w)))"

text \<open>Stopping: the errors that are joined, and the binary removed at the end in every case.\<close>

definition stop_candidate :: "sup_host \<Rightarrow> candidate \<Rightarrow> sup_world \<Rightarrow> stop_error option list \<times> sup_world" where
  "stop_candidate h c w =
     (let p = cp_process c;
          finish = (\<lambda>errs w. case cleanup_process_tree h c w of (e, w) \<Rightarrow> (errs @ [e], w));
          exited = (\<lambda>errs w. finish (errs @ [acceptable_stop_error (sh_result h (sw_clock w))]) (process_gone p (sup_tick w)));
          (errs, w) =
            (if sh_exited h (sw_clock w) then exited [] (sup_tick w)
             else
               (let w = sup_tick w;
                    w = (case sh_terminate h (sw_clock w) of
                        None \<Rightarrow> sup_tick w
                      | Some e \<Rightarrow> snd (kill_process h p (sup_tick w)))
                in if sh_in_time h (sw_clock w) then exited [] (sup_tick w)
                   else (case kill_process h p (sup_tick w) of
                       (kill_err, w) \<Rightarrow>
                         (let errs = [Some (OtherStop ''context deadline exceeded''), kill_err] in
                          if sh_in_time h (sw_clock w) then exited errs (sup_tick w)
                          else finish errs (sup_tick w)))))
      in (errs, if cp_binary c \<noteq> [] then snd (remove_binary h (cp_binary c) w) else w))"

subsection \<open>Kept output\<close>

definition max_diagnostic_output :: nat where "max_diagnostic_output = 65536"

definition truncation_note :: bytes where
  "truncation_note = LF # [CHR 0xE2, CHR 0x80, CHR 0xA6] @ '' diagnostic output truncated''"

definition truncate_diagnostic :: "bytes \<Rightarrow> bytes" where
  "truncate_diagnostic message =
     (let message = trim_space message in
      if length message \<le> max_diagnostic_output then message
      else to_valid_utf8 (take max_diagnostic_output message) replacement_char @ truncation_note)"

record limited_buffer =
  lb_buffer :: bytes
  lb_truncated :: bool

definition empty_buffer :: limited_buffer where
  "empty_buffer = \<lparr>lb_buffer = [], lb_truncated = False\<rparr>"

definition buffer_write :: "bytes \<Rightarrow> limited_buffer \<Rightarrow> nat \<times> limited_buffer" where
  "buffer_write contents b =
     (let original_length = length contents;
          remaining = int max_diagnostic_output - int (length (lb_buffer b));
          written = (if remaining > 0
             then (if int (length contents) > remaining then take (nat remaining) contents else contents) else []);
          b = b\<lparr>lb_buffer := lb_buffer b @ written\<rparr>
      in (original_length, if original_length > length written then b\<lparr>lb_truncated := True\<rparr> else b))"

definition buffer_string :: "limited_buffer \<Rightarrow> bytes" where
  "buffer_string b =
     trim_space (to_valid_utf8 (lb_buffer b) replacement_char) @ (if lb_truncated b then truncation_note else [])"

definition write_chunks :: "bytes list \<Rightarrow> limited_buffer \<Rightarrow> limited_buffer" where
  "write_chunks chunks b = foldl (\<lambda>b chunk. snd (buffer_write chunk b)) b chunks"

lemma write_chunks_exact:
  "lb_buffer (write_chunks chunks empty_buffer) = take max_diagnostic_output (concat chunks)
    \<and> (lb_truncated (write_chunks chunks empty_buffer) \<longleftrightarrow> max_diagnostic_output < length (concat chunks))"
proof (induction chunks rule: rev_induct)
  case Nil
  then show ?case by (simp add: write_chunks_def empty_buffer_def)
next
  case (snoc chunk chunks)
  let ?b = "write_chunks chunks empty_buffer"
  have step: "write_chunks (chunks @ [chunk]) empty_buffer = snd (buffer_write chunk ?b)" by (simp add: write_chunks_def)
  show ?case
  proof (cases "length (concat chunks) < max_diagnostic_output")
    case True
    then show ?thesis using snoc unfolding step by (auto simp: buffer_write_def Let_def nat_diff_distrib' take_all)
  next
    case False
    then show ?thesis using snoc unfolding step by (auto simp: buffer_write_def Let_def)
  qed
qed

subsection \<open>What a stop leaves\<close>

text \<open>The calls that failed so far.\<close>

definition kill_failures :: "sup_host \<Rightarrow> sup_world \<Rightarrow> nat" where
  "kill_failures h w = card {t. t < sw_clock w \<and> sh_kill h t \<noteq> None}"

definition remove_failures :: "sup_host \<Rightarrow> sup_world \<Rightarrow> nat" where
  "remove_failures h w = card {t. t < sw_clock w \<and> sh_remove h t \<noteq> None}"

lemma count_mono: "a \<le> b \<Longrightarrow> card {t. t < a \<and> P t} \<le> card {t. t < (b :: nat) \<and> P t}"
  by (intro card_mono) auto

lemma count_strict:
  assumes "a \<le> t" "t < b" "P t"
  shows "card {t. t < a \<and> P t} < card {t. t < (b :: nat) \<and> P t}"
proof (rule psubset_card_mono)
  have "t \<in> {t. t < b \<and> P t}" "t \<notin> {t. t < a \<and> P t}" using assms by simp_all
  moreover have "{t. t < a \<and> P t} \<subseteq> {t. t < b \<and> P t}" using assms(1,2) by auto
  ultimately show "{t. t < a \<and> P t} \<subset> {t. t < b \<and> P t}" by blast
qed simp

lemma failures_mono:
  "sw_clock w \<le> sw_clock w' \<Longrightarrow> kill_failures h w \<le> kill_failures h w' \<and> remove_failures h w \<le> remove_failures h w'"
  by (simp add: kill_failures_def remove_failures_def count_mono)

text \<open>
  Whatever fails, a stop takes nothing away but the candidate and its binary; and if either is left, a
  call that should have taken it away failed.
\<close>

lemma kill_process_effect:
  assumes "w' = snd (kill_process h p w)"
  shows "sw_clock w' = sw_clock w + 1" "sw_binaries w' = sw_binaries w" "sw_started w' = sw_started w"
    "set (sw_live w') \<subseteq> set (sw_live w)" "set (sw_live w) - {p} \<subseteq> set (sw_live w')"
    "p \<in> set (sw_live w') \<Longrightarrow> sh_kill h (sw_clock w) \<noteq> None"
  using assms by (auto simp: kill_process_def process_gone_def sup_tick_def split: option.splits)

lemma remove_binary_effect:
  assumes "w' = snd (remove_binary h path w)"
  shows "sw_clock w' = sw_clock w + 1" "sw_live w' = sw_live w" "sw_started w' = sw_started w"
    "set (sw_binaries w') \<subseteq> set (sw_binaries w)" "set (sw_binaries w) - {path} \<subseteq> set (sw_binaries w')"
    "path \<in> set (sw_binaries w') \<Longrightarrow> sh_remove h (sw_clock w) \<noteq> None"
  using assms by (auto simp: remove_binary_def sup_tick_def split: option.splits)

lemma stop_candidate_last:
  "\<exists>w1. snd (stop_candidate h c w) =
      (let w2 = snd (kill_process h (cp_process c) w1)
       in if cp_binary c \<noteq> [] then snd (remove_binary h (cp_binary c) w2) else w2)
    \<and> sw_clock w \<le> sw_clock w1 \<and> sw_started w1 = sw_started w \<and> sw_binaries w1 = sw_binaries w
    \<and> set (sw_live w1) \<subseteq> set (sw_live w) \<and> set (sw_live w) - {cp_process c} \<subseteq> set (sw_live w1)"
proof -
  let ?p = "cp_process c"
  define good :: "sup_world \<Rightarrow> bool" where "good w1 = (sw_clock w \<le> sw_clock w1 \<and> sw_started w1 = sw_started w \<and> sw_binaries w1 = sw_binaries w
    \<and> set (sw_live w1) \<subseteq> set (sw_live w) \<and> set (sw_live w) - {?p} \<subseteq> set (sw_live w1))" for w1
  have tick: "good w1 \<Longrightarrow> good (sup_tick w1)" for w1 by (auto simp: good_def sup_tick_def)
  have gone: "good w1 \<Longrightarrow> good (process_gone ?p w1)" for w1 by (auto simp: good_def process_gone_def)
  have kill: "good w1 \<Longrightarrow> good (snd (kill_process h ?p w1))" for w1
    using kill_process_effect [where h = h and p = ?p and w = w1, OF refl] by (auto simp: good_def)
  have start: "good w" by (simp add: good_def)
  define last_calls where "last_calls w1 = (let w2 = snd (kill_process h ?p w1)
      in if cp_binary c \<noteq> [] then snd (remove_binary h (cp_binary c) w2) else w2)" for w1
  have final: "good w1 \<Longrightarrow> \<exists>w2. last_calls w1 = last_calls w2 \<and> good w2" for w1 by blast
  define w1 where "w1 = (case sh_terminate h (sw_clock (sup_tick w)) of
      None \<Rightarrow> sup_tick (sup_tick w) | Some e \<Rightarrow> snd (kill_process h ?p (sup_tick (sup_tick w))))"
  define w2 where "w2 = snd (kill_process h ?p (sup_tick w1))"
  have good: "good w1" "good w2" by (auto simp: w1_def w2_def intro!: kill tick start split: option.split)
  have "snd (stop_candidate h c w) =
      (if sh_exited h (sw_clock w) then last_calls (process_gone ?p (sup_tick (sup_tick w)))
       else if sh_in_time h (sw_clock w1) then last_calls (process_gone ?p (sup_tick (sup_tick w1)))
       else if sh_in_time h (sw_clock w2) then last_calls (process_gone ?p (sup_tick (sup_tick w2)))
       else last_calls (sup_tick w2))"
    by (simp add: stop_candidate_def Let_def cleanup_process_tree_def last_calls_def case_prod_beta w1_def [symmetric] w2_def [symmetric])
  moreover have "good (process_gone ?p (sup_tick (sup_tick w)))" "good (process_gone ?p (sup_tick (sup_tick w1)))"
      "good (process_gone ?p (sup_tick (sup_tick w2)))" "good (sup_tick w2)"
    using good start by (simp_all add: tick gone)
  ultimately have "\<exists>w1. snd (stop_candidate h c w) = last_calls w1 \<and> good w1" by (auto split: if_splits)
  then show ?thesis by (simp add: good_def last_calls_def)
qed

lemma stop_candidate_effect:
  assumes "w' = snd (stop_candidate h c w)"
  shows "sw_clock w \<le> sw_clock w'" "sw_started w' = sw_started w"
    "set (sw_live w') \<subseteq> set (sw_live w)" "set (sw_live w) - {cp_process c} \<subseteq> set (sw_live w')"
    "set (sw_binaries w') \<subseteq> set (sw_binaries w)"
    "cp_process c \<in> set (sw_live w') \<Longrightarrow> kill_failures h w < kill_failures h w'"
    "cp_binary c \<in> set (sw_binaries w') \<Longrightarrow> cp_binary c \<noteq> [] \<Longrightarrow> remove_failures h w < remove_failures h w'"
proof -
  obtain w1 where w1: "w' = (let w2 = snd (kill_process h (cp_process c) w1)
       in if cp_binary c \<noteq> [] then snd (remove_binary h (cp_binary c) w2) else w2)"
    and good: "sw_clock w \<le> sw_clock w1" "sw_started w1 = sw_started w" "sw_binaries w1 = sw_binaries w"
      "set (sw_live w1) \<subseteq> set (sw_live w)" "set (sw_live w) - {cp_process c} \<subseteq> set (sw_live w1)"
    using stop_candidate_last assms by blast
  note killed = kill_process_effect [where h = h and p = "cp_process c" and w = w1, OF refl]
  note removed = remove_binary_effect [where h = h and path = "cp_binary c" and w = "snd (kill_process h (cp_process c) w1)", OF refl]
  show "sw_clock w \<le> sw_clock w'" "sw_started w' = sw_started w"
    "set (sw_live w') \<subseteq> set (sw_live w)" "set (sw_live w) - {cp_process c} \<subseteq> set (sw_live w')"
    "set (sw_binaries w') \<subseteq> set (sw_binaries w)"
    using good killed removed by (auto simp: w1 Let_def)
  show "kill_failures h w < kill_failures h w'" if "cp_process c \<in> set (sw_live w')"
    unfolding kill_failures_def using that good(1) killed(1,6) removed(1,2)
    by (intro count_strict [where t = "sw_clock w1"]) (auto simp: w1 Let_def split: if_splits)
  show "remove_failures h w < remove_failures h w'" if "cp_binary c \<in> set (sw_binaries w')" "cp_binary c \<noteq> []"
    unfolding remove_failures_def using that good(1) killed(1) removed(1,6)
    by (intro count_strict [where t = "sw_clock w1 + 1"]) (auto simp: w1 Let_def)
qed

end
