(* ===== verification/Dev_Supervisor.thy ===== *)
theory Dev_Supervisor
  imports Dev_Process Dev_Proxy
begin

section \<open>The supervisor: internal/devserver/supervisor.go\<close>

text \<open>
  The supervisor owns the proxy, the current application and the candidates it builds. Its loop is a
  function of what the select statement chooses; the events it emits are listed in order, each is
  published to the hub and given to the callback of the options.
\<close>

subsection \<open>Options\<close>

datatype output_target = NoWriter | Discard | OutputWriter nat

record http_client =
  hc_proxy :: bool
  hc_timeout :: nat
  hc_follow_redirects :: bool

record sup_options =
  op_root_dir :: bytes
  op_config :: dev_config
  op_generate :: bool
  op_output :: output_target
  op_error_output :: output_target
  op_go_command :: bytes
  op_cache_dir :: bytes
  op_poll_interval :: int
  op_debounce :: int
  op_build_timeout :: int
  op_startup_timeout :: int
  op_shutdown_timeout :: int
  op_http_client :: "http_client option"

definition millisecond :: int where "millisecond = 1000000"

definition apply_option_defaults :: "sup_options \<Rightarrow> sup_options" where
  "apply_option_defaults options =
     (let positive = (\<lambda>d v. if v \<le> 0 then d else v);
          client = (case op_http_client options of
              None \<Rightarrow> \<lparr>hc_proxy = False, hc_timeout = nat (1000 * millisecond), hc_follow_redirects = True\<rparr>
            | Some c \<Rightarrow> c)
      in options\<lparr>
        op_output := (if op_output options = NoWriter then Discard else op_output options),
        op_error_output := (if op_error_output options = NoWriter then Discard else op_error_output options),
        op_go_command := (if op_go_command options = [] then ''go'' else op_go_command options),
        op_poll_interval := positive (250 * millisecond) (op_poll_interval options),
        op_debounce := positive (150 * millisecond) (op_debounce options),
        op_build_timeout := positive (120000 * millisecond) (op_build_timeout options),
        op_startup_timeout := positive (10000 * millisecond) (op_startup_timeout options),
        op_shutdown_timeout := positive (5000 * millisecond) (op_shutdown_timeout options),
        op_http_client := Some (client\<lparr>hc_follow_redirects := False\<rparr>)\<rparr>)"

text \<open>\<open>New\<close>: the cache directory of the user and the hexadecimal digest of the key are parameters.\<close>

definition new_supervisor ::
  "(nat \<Rightarrow> bool) \<Rightarrow> 'd host \<Rightarrow> bytes + bytes \<Rightarrow> (bytes \<Rightarrow> bytes) \<Rightarrow> sup_options \<Rightarrow> world \<Rightarrow>
   bytes + (sup_options \<times> bytes \<times> bytes)" where
  \<comment> \<open>the options, the root and the cache directory\<close>
  "new_supervisor is_print h user_cache digest options w =
     (case validate_config is_print (op_config options) of
        Some e \<Rightarrow> Inl (''development config: '' @ e)
      | None \<Rightarrow>
          (if \<not> op_generate options then Inl ''development generate hook is required''
           else
             (case (if op_root_dir options = []
                    then (case host_getwd_error h of Some e \<Rightarrow> Inl (''get project directory: '' @ e) | None \<Rightarrow> Inr (host_dir h))
                    else Inr (op_root_dir options)) of
                Inl e \<Rightarrow> Inl e
              | Inr root_dir \<Rightarrow>
                  (case absolute_path h root_dir of
                     Inl e \<Rightarrow> Inl (''resolve project directory: '' @ e)
                   | Inr root_dir \<Rightarrow>
                       (case stat h root_dir w of
                          (Inl e, w) \<Rightarrow> Inl (''inspect project directory: '' @ os_error_text e)
                        | (Inr entry, w) \<Rightarrow>
                            (if \<not> is_directory entry
                             then Inl (''project root '' @ go_quote is_print root_dir @ '' is not a directory'')
                             else
                               (let options = apply_option_defaults options;
                                    cache = (if op_cache_dir options = []
                                      then (case user_cache of
                                          Inl e \<Rightarrow> Inl (''locate user cache directory: '' @ e)
                                        | Inr dir \<Rightarrow>
                                            Inr (path_join (path_join (path_join dir ''himesan'') ''dev'')
                                              (digest (root_dir @ CHR 0x00 # cf_go_package (op_config options)))))
                                      else if is_rooted (op_cache_dir options) then Inr (op_cache_dir options)
                                      else Inr (path_join root_dir (op_cache_dir options)))
                                in case cache of Inl e \<Rightarrow> Inl e | Inr dir \<Rightarrow> Inr (options, root_dir, path_clean dir))))))))"

subsection \<open>Candidates\<close>

definition replace_environment :: "bytes list \<Rightarrow> bytes \<Rightarrow> bytes \<Rightarrow> bytes list" where
  \<comment> \<open>on a system other than Windows\<close>
  "replace_environment environment name value =
     filter (\<lambda>item. \<not> (case cut_at (CHR ''='') item of Some (item_name, _) \<Rightarrow> item_name = name | None \<Rightarrow> False)) environment
     @ [name @ ''='' @ value]"

definition build_binary :: "sup_host \<Rightarrow> sup_world \<Rightarrow> (bytes + bytes) \<times> sup_world" where
  "build_binary h w =
     (case sh_create_temp h (sw_clock w) of
        Inl e \<Rightarrow> (Inl (''reserve candidate binary: '' @ e), sup_tick w)
      | Inr path \<Rightarrow>
          (let w = sup_tick (w\<lparr>sw_binaries := path # sw_binaries w\<rparr>) in
           case sh_close h (sw_clock w) of
             Some e \<Rightarrow> (Inl (''close candidate placeholder: '' @ e), snd (remove_binary h path (sup_tick w)))
           | None \<Rightarrow>
               (case remove_binary h path (sup_tick w) of
                  (Some e, w) \<Rightarrow> (Inl (''prepare candidate binary: '' @ e), w)
                | (None, w) \<Rightarrow>
                    (case sh_build h (sw_clock w) of
                       (chunks, err) \<Rightarrow>
                         (let w = sup_tick (w\<lparr>sw_binaries := path # sw_binaries w\<rparr>) in
                          case err of
                            None \<Rightarrow> (Inr path, w)
                          | Some e \<Rightarrow>
                              (let message = buffer_string (write_chunks chunks empty_buffer) in
                               (Inl (''go build failed: '' @ (if message = [] then e else message)),
                                snd (remove_binary h path w))))))))"

definition unused_loopback_address :: "sup_host \<Rightarrow> sup_world \<Rightarrow> (bytes + bytes) \<times> sup_world" where
  "unused_loopback_address h w =
     (case sh_listen h (sw_clock w) of
        Inl e \<Rightarrow> (Inl (''reserve candidate address: '' @ e), sup_tick w)
      | Inr address \<Rightarrow>
          (let w = sup_tick w in
           case sh_close h (sw_clock w) of
             Some e \<Rightarrow> (Inl (''release candidate address: '' @ e), sup_tick w)
           | None \<Rightarrow> (Inr address, sup_tick w)))"

text \<open>
  The health check over what each request answers and the select statement then chooses, with the last
  error and the result of the candidate when it exited. The list ends at the latest with the end of the
  startup time.
\<close>

fun wait_until_healthy :: "stop_error option \<Rightarrow> bytes option \<Rightarrow> (poll_answer \<times> poll_choice) list \<Rightarrow> bytes option" where
  "wait_until_healthy result last_error [] =
     Some (''candidate did not become healthy: '' @ (case last_error of Some e \<Rightarrow> e | None \<Rightarrow> ''context deadline exceeded''))"
| "wait_until_healthy result last_error ((answer, choice) # polls) =
     (case answer of
        RequestFault e \<Rightarrow> Some (''create health request: '' @ e)
      | _ \<Rightarrow>
          (let failure = (case answer of
               PollStatus n status \<Rightarrow> (if 200 \<le> n \<and> n < 400 then None else Some (''health endpoint returned '' @ status))
             | PollFailed e \<Rightarrow> Some e
             | RequestFault e \<Rightarrow> Some e) in
           case failure of
             None \<Rightarrow> None
           | Some e \<Rightarrow>
               (case choice of
                  CandidateExited \<Rightarrow>
                    (case result of
                       None \<Rightarrow> Some ''candidate exited before becoming healthy''
                     | Some err \<Rightarrow> Some (''candidate exited before becoming healthy: '' @ stop_error_text err))
                | StartupOver \<Rightarrow> Some (''candidate did not become healthy: '' @ e)
                | PollAgain \<Rightarrow> wait_until_healthy result (Some e) polls)))"

definition start_and_check :: "sup_host \<Rightarrow> bytes \<Rightarrow> sup_world \<Rightarrow> (bytes + candidate) \<times> sup_world" where
  "start_and_check h binary_path w =
     (case unused_loopback_address h w of
        (Inl e, w) \<Rightarrow> (Inl e, w)
      | (Inr address, w) \<Rightarrow>
          (case start_managed_process h address binary_path w of
             (Inl e, w) \<Rightarrow> (Inl (''start candidate: '' @ e), w)
           | (Inr candidate, w) \<Rightarrow>
               (case wait_until_healthy (sh_result h (sw_clock w)) None (sh_polls h (sw_clock w)) of
                  Some e \<Rightarrow> (Inl e, snd (stop_candidate h candidate (sup_tick w)))
                | None \<Rightarrow> (Inr candidate, sup_tick w))))"

subsection \<open>State and events\<close>

record supervisor =
  su_proxy :: dev_proxy
  su_current :: "candidate option"
  su_watching :: "nat option"
  su_events :: "dev_event list"
  su_snapshot :: snapshot
  su_pending :: bool
  su_changed_at :: int
  su_watch_error :: bytes
  su_world :: sup_world

definition emit :: "sup_host \<Rightarrow> dev_event \<Rightarrow> supervisor \<Rightarrow> supervisor" where
  "emit h event s =
     (let event = (if ev_at event = 0 then event\<lparr>ev_at := sh_now h (sw_clock (su_world s))\<rparr> else event) in
      s\<lparr>su_events := su_events s @ [event], su_world := sup_tick (su_world s)\<rparr>)"

definition report :: "sup_host \<Rightarrow> (bytes \<Rightarrow> dev_diagnostic list) \<Rightarrow> bytes \<Rightarrow> bytes \<Rightarrow> supervisor \<Rightarrow> supervisor" where
  "report h map_diagnostics phase err s =
     emit h \<lparr>ev_type = ''diagnostic'', ev_phase = phase, ev_message = truncate_diagnostic err,
       ev_diagnostics = map_diagnostics err, ev_at = 0\<rparr> s"

definition build_healthy_candidate ::
  "sup_host \<Rightarrow> (bytes \<Rightarrow> dev_diagnostic list) \<Rightarrow> supervisor \<Rightarrow> candidate option \<times> supervisor" where
  "build_healthy_candidate h map_diagnostics s =
     (let w = su_world s in
      case sh_generate h (sw_clock w) of
        Some e \<Rightarrow> (None, report h map_diagnostics ''generate'' e (s\<lparr>su_world := sup_tick w\<rparr>))
      | None \<Rightarrow>
          (case build_binary h (sup_tick w) of
             (Inl e, w) \<Rightarrow> (None, report h map_diagnostics ''build'' e (s\<lparr>su_world := w\<rparr>))
           | (Inr path, w) \<Rightarrow>
               (case start_and_check h path w of
                  (Inl e, w) \<Rightarrow>
                    (None, report h map_diagnostics ''startup'' e (s\<lparr>su_world := snd (remove_binary h path w)\<rparr>))
                | (Inr candidate, w) \<Rightarrow> (Some candidate, s\<lparr>su_world := w\<rparr>))))"

definition activate_candidate ::
  "(nat \<Rightarrow> bool) \<Rightarrow> (bytes \<Rightarrow> bytes + parsed_url) \<Rightarrow> sup_host \<Rightarrow> (bytes \<Rightarrow> dev_diagnostic list) \<Rightarrow>
   candidate \<Rightarrow> candidate option \<Rightarrow> supervisor \<Rightarrow> candidate option \<times> supervisor" where
  "activate_candidate is_print parse_url h map_diagnostics candidate previous s =
     (case set_target is_print parse_url (cp_address candidate) (su_proxy s) of
        (Some e, _) \<Rightarrow>
          (let s = report h map_diagnostics ''proxy'' e s in
           (previous, s\<lparr>su_world := snd (stop_candidate h candidate (su_world s))\<rparr>))
      | (None, proxy) \<Rightarrow>
          (let s = emit h \<lparr>ev_type = ''reload'', ev_phase = ''serve'', ev_message = ''healthy application activated'',
                 ev_diagnostics = [], ev_at = 0\<rparr> (s\<lparr>su_proxy := proxy\<rparr>) in
           (Some candidate,
            case previous of None \<Rightarrow> s | Some p \<Rightarrow> s\<lparr>su_world := snd (stop_candidate h p (su_world s))\<rparr>)))"

text \<open>A new build, and the application that is current after it.\<close>

definition build_and_activate ::
  "(nat \<Rightarrow> bool) \<Rightarrow> (bytes \<Rightarrow> bytes + parsed_url) \<Rightarrow> sup_host \<Rightarrow> (bytes \<Rightarrow> dev_diagnostic list) \<Rightarrow> supervisor \<Rightarrow> supervisor" where
  "build_and_activate is_print parse_url h map_diagnostics s =
     (case build_healthy_candidate h map_diagnostics s of
        (None, s) \<Rightarrow> s
      | (Some candidate, s) \<Rightarrow>
          (case activate_candidate is_print parse_url h map_diagnostics candidate (su_current s) s of
             (current, s) \<Rightarrow> s\<lparr>su_current := current, su_watching := map_option cp_process current\<rparr>))"

subsection \<open>The loop\<close>

datatype loop_input =
    StopRequested
  | CurrentExited
  | ServerStopped "bytes option"
  | WatchTick int snapshot "bytes list"

datatype loop_end = LoopReturns "bytes option"

definition current_exited ::
  "sup_host \<Rightarrow> (bytes \<Rightarrow> dev_diagnostic list) \<Rightarrow> supervisor \<Rightarrow> supervisor" where
  "current_exited h map_diagnostics s =
     (let exited = su_current s; s = s\<lparr>su_current := None, su_watching := None\<rparr> in
      case exited of
        None \<Rightarrow> s
      | Some c \<Rightarrow>
          (let s = s\<lparr>su_proxy := snd (clear_target (cp_address c) (su_proxy s))\<rparr>;
               err = ''application exited'' @ (case sh_result h (sw_clock (su_world s)) of
                 None \<Rightarrow> [] | Some e \<Rightarrow> '': '' @ stop_error_text e);
               w = process_gone (cp_process c) (sup_tick (su_world s));
               w = snd (cleanup_process_tree h c w);
               w = snd (remove_binary h (cp_binary c) w)
           in report h map_diagnostics ''run'' err (s\<lparr>su_world := w\<rparr>)))"

definition watch_tick ::
  "(nat \<Rightarrow> bool) \<Rightarrow> (bytes \<Rightarrow> bytes + parsed_url) \<Rightarrow> sup_host \<Rightarrow> (bytes \<Rightarrow> dev_diagnostic list) \<Rightarrow> int \<Rightarrow>
   int \<Rightarrow> snapshot \<Rightarrow> bytes list \<Rightarrow> supervisor \<Rightarrow> supervisor" where
  "watch_tick is_print parse_url h map_diagnostics debounce now next_snapshot problems s =
     (let watch_error = (case joined_error problems of None \<Rightarrow> [] | Some e \<Rightarrow> e);
          s = (if watch_error \<noteq> [] \<and> watch_error \<noteq> su_watch_error s
               then report h map_diagnostics ''watch'' watch_error s else s);
          s = s\<lparr>su_watch_error := watch_error\<rparr>;
          s = (if \<not> snapshots_equal (su_snapshot s) next_snapshot
               then s\<lparr>su_snapshot := next_snapshot, su_pending := True, su_changed_at := now\<rparr> else s)
      in if su_pending s \<and> debounce \<le> now - su_changed_at s
         then build_and_activate is_print parse_url h map_diagnostics (s\<lparr>su_pending := False\<rparr>)
         else s)"

fun loop_step ::
  "(nat \<Rightarrow> bool) \<Rightarrow> (bytes \<Rightarrow> bytes + parsed_url) \<Rightarrow> sup_host \<Rightarrow> (bytes \<Rightarrow> dev_diagnostic list) \<Rightarrow> int \<Rightarrow>
   loop_input \<Rightarrow> supervisor \<Rightarrow> loop_end option \<times> supervisor" where
  "loop_step is_print parse_url h map_diagnostics debounce StopRequested s = (Some (LoopReturns None), s)"
| "loop_step is_print parse_url h map_diagnostics debounce CurrentExited s =
     (None, if su_watching s = None then s else current_exited h map_diagnostics s)"
| "loop_step is_print parse_url h map_diagnostics debounce (ServerStopped err) s =
     (Some (LoopReturns (map_option (\<lambda>e. ''development proxy: '' @ e) err)), s)"
| "loop_step is_print parse_url h map_diagnostics debounce (WatchTick now next_snapshot problems) s =
     (None, watch_tick is_print parse_url h map_diagnostics debounce now next_snapshot problems s)"

fun run_loop ::
  "(nat \<Rightarrow> bool) \<Rightarrow> (bytes \<Rightarrow> bytes + parsed_url) \<Rightarrow> sup_host \<Rightarrow> (bytes \<Rightarrow> dev_diagnostic list) \<Rightarrow> int \<Rightarrow>
   loop_input list \<Rightarrow> supervisor \<Rightarrow> loop_end option \<times> supervisor" where
  "run_loop is_print parse_url h map_diagnostics debounce [] s = (None, s)"
| "run_loop is_print parse_url h map_diagnostics debounce (input # inputs) s =
     (case loop_step is_print parse_url h map_diagnostics debounce input s of
        (Some e, s) \<Rightarrow> (Some e, s)
      | (None, s) \<Rightarrow> run_loop is_print parse_url h map_diagnostics debounce inputs s)"

text \<open>What is deferred: the current application is stopped.\<close>

definition shut_down :: "sup_host \<Rightarrow> supervisor \<Rightarrow> supervisor" where
  "shut_down h s =
     (case su_current s of
        None \<Rightarrow> s
      | Some c \<Rightarrow> s\<lparr>su_world := snd (stop_candidate h c (su_world s))\<rparr>)"

text \<open>
  \<open>Run\<close> up to the loop: the answers of the system to making the cache directory, securing it and
  listening, and the first snapshot, which is taken after the first build.
\<close>

definition run_start ::
  "(nat \<Rightarrow> bool) \<Rightarrow> (bytes \<Rightarrow> bytes + parsed_url) \<Rightarrow> sup_host \<Rightarrow> (bytes \<Rightarrow> dev_diagnostic list) \<Rightarrow> bool \<Rightarrow>
   bytes option \<Rightarrow> bytes option \<Rightarrow> bytes + bytes \<Rightarrow> snapshot \<Rightarrow> bytes list \<Rightarrow> sup_world \<Rightarrow> bytes + supervisor" where
  "run_start is_print parse_url h map_diagnostics running mkdir_error chmod_error listen first_snapshot problems w =
     (if running then Inl ''development supervisor may only be run once''
      else (case (mkdir_error, chmod_error, listen) of
          (Some e, _, _) \<Rightarrow> Inl (''create development cache: '' @ e)
        | (None, Some e, _) \<Rightarrow> Inl (''secure development cache: '' @ e)
        | (None, None, Inl e) \<Rightarrow> Inl (''listen on development proxy: '' @ e)
        | (None, None, Inr address) \<Rightarrow>
            (case set_authority is_print address new_development_proxy of
               (Some e, _) \<Rightarrow> Inl e
             | (None, proxy) \<Rightarrow>
                 (let s = \<lparr>su_proxy = proxy, su_current = None, su_watching = None, su_events = [],
                        su_snapshot = Map.empty, su_pending = False, su_changed_at = 0, su_watch_error = [],
                        su_world = w\<rparr>;
                      s = emit h \<lparr>ev_type = ''ready'', ev_phase = ''proxy'', ev_message = ''http://'' @ address,
                        ev_diagnostics = [], ev_at = 0\<rparr> s;
                      s = build_and_activate is_print parse_url h map_diagnostics s;
                      s = s\<lparr>su_snapshot := first_snapshot\<rparr>
                  in Inr (case joined_error problems of
                       None \<Rightarrow> s
                     | Some e \<Rightarrow> report h map_diagnostics ''watch'' e (s\<lparr>su_watch_error := e\<rparr>))))))"

definition supervisor_run ::
  "(nat \<Rightarrow> bool) \<Rightarrow> (bytes \<Rightarrow> bytes + parsed_url) \<Rightarrow> sup_host \<Rightarrow> (bytes \<Rightarrow> dev_diagnostic list) \<Rightarrow> int \<Rightarrow> bool \<Rightarrow>
   bytes option \<Rightarrow> bytes option \<Rightarrow> bytes + bytes \<Rightarrow> snapshot \<Rightarrow> bytes list \<Rightarrow> loop_input list \<Rightarrow> sup_world \<Rightarrow>
   bytes + (loop_end option \<times> supervisor)" where
  "supervisor_run is_print parse_url h map_diagnostics debounce running mkdir_error chmod_error listen first_snapshot
       problems inputs w =
     (case run_start is_print parse_url h map_diagnostics running mkdir_error chmod_error listen first_snapshot problems w of
        Inl e \<Rightarrow> Inl e
      | Inr s \<Rightarrow>
          (case run_loop is_print parse_url h map_diagnostics debounce inputs s of
             (None, s) \<Rightarrow> Inr (None, s)
           | (Some e, s) \<Rightarrow> Inr (Some e, shut_down h s)))"

end
