(* ===== verification/Command_Line.thy ===== *)
theory Command_Line
  imports Go_Flags Operation_Results Dev_Supervisor Compiler_Version
begin

section \<open>The command line: cmd/himesan/main.go\<close>

text \<open>
  The dispatch of the arguments, the flags of every command, what is printed on which stream, and the exit
  status. Parameters of the environment are the JSON encoders, the usage texts the flag package prints, the
  Go version, what serving the language server returned, and the run of the supervisor with its options.
\<close>

text \<open>What was written to the standard streams.\<close>

record console =
  co_out :: bytes
  co_err :: bytes

definition to_out :: "bytes \<Rightarrow> console \<Rightarrow> console" where
  "to_out s c = c\<lparr>co_out := co_out c @ s\<rparr>"

definition to_err :: "bytes \<Rightarrow> console \<Rightarrow> console" where
  "to_err s c = c\<lparr>co_err := co_err c @ s\<rparr>"

definition silent :: console where "silent = \<lparr>co_out = [], co_err = []\<rparr>"

record command_env =
  ce_is_print :: "nat \<Rightarrow> bool"
  ce_usage :: "bytes \<Rightarrow> bytes"
  ce_host :: fs_host
  ce_backend :: backend_env
  ce_parse :: "bytes \<Rightarrow> go_expr option"
  ce_json_result :: "bytes \<Rightarrow> bool \<Rightarrow> operation_result \<Rightarrow> bytes + bytes"
  ce_json_version :: "bytes \<Rightarrow> bytes \<Rightarrow> bytes \<Rightarrow> bytes list \<Rightarrow> bytes + bytes"
  ce_compiler_version :: bytes
  ce_go_version :: bytes
  ce_lsp :: "bytes option \<times> console"
  ce_decode_config :: "dev_config \<Rightarrow> bytes \<Rightarrow> bytes + (dev_config \<times> bytes)"
  ce_decode_next :: "bytes \<Rightarrow> decoded_next"
  ce_user_cache :: "bytes + bytes"
  ce_digest :: "bytes \<Rightarrow> bytes"
  ce_supervise :: "sup_options \<Rightarrow> bytes \<Rightarrow> bytes \<Rightarrow> bytes list \<Rightarrow> world \<Rightarrow> (bytes option \<times> console) \<times> world"

subsection \<open>Help\<close>

definition help_text :: bytes where
  "help_text = concat (map (\<lambda>line. line @ [LF])
     [''Sandwich Hime / Hime-san '' @ [CHR 0xE2, CHR 0x80, CHR 0x94] @ '' HTML-first typed components for Go'',
      [],
      ''Usage:'',
      ''  himesan generate [--json] [paths...]  generate adjacent .sando.go files'',
      ''  himesan gen [--json] [paths...]       alias for generate'',
      ''  himesan check [--json] [paths...]     validate sources and committed output without writes'',
      ''  himesan bless [--json] [paths...]     friendly read-only alias for check'',
      ''  himesan dev [flags] [package] [-- app-args...]  run the loopback last-good supervisor'',
      ''  himesan lsp --stdio                  run the read-only language server'',
      ''  himesan version [--json]              print compiler and runtime ABI versions'',
      [],
      ''Templates use .sando; .san remains exclusively San language source.''])"

text \<open>What the flag package prints when it refuses the arguments, or is asked for help.\<close>

definition refused_flags :: "command_env \<Rightarrow> bytes \<Rightarrow> bytes \<Rightarrow> console" where
  "refused_flags env name e = to_err (e @ [LF] @ ce_usage env name) silent"

definition asked_help :: "command_env \<Rightarrow> bytes \<Rightarrow> console" where
  "asked_help env name = to_err (ce_usage env name) silent"

subsection \<open>Generate and check\<close>

fun print_diagnostics :: "diagnostic list \<Rightarrow> console \<Rightarrow> console" where
  "print_diagnostics [] c = c"
| "print_diagnostics (d # ds) c = print_diagnostics ds (to_err (diag_severity d @ '': '' @ diagnostic_text d @ [LF]) c)"

definition operation_summary :: "bytes \<Rightarrow> operation_result \<Rightarrow> bytes" where
  "operation_summary command r =
     (if command = ''generate'' then
        ''generated '' @ show_nat (op_changed r) @ '', unchanged '' @ show_nat (op_unchanged r) @ '' (''
          @ show_nat (op_discovered r) @ '' .sando files)''
      else if command = ''bless'' then
        ''blessed: generated output is current and valid ('' @ show_nat (op_discovered r) @ '' files checked, no writes)''
      else ''checked '' @ show_nat (op_discovered r) @ '' .sando files: '' @ show_nat (op_unchanged r) @ '' current'') @ [LF]"

definition report_operation :: "command_env \<Rightarrow> bytes \<Rightarrow> bool \<Rightarrow> operation_result \<Rightarrow> diagnostic list option \<Rightarrow> nat \<times> console" where
  "report_operation env command json_output result err =
     (let status = (if err \<noteq> None then 1 else 0) in
      if json_output then
        (case ce_json_result env command (err = None) result of
           Inl e \<Rightarrow> (2, to_err (''himesan: encode JSON result: '' @ e @ [LF]) silent)
         | Inr encoded \<Rightarrow> (status, to_out encoded silent))
      else
        (let c = print_diagnostics (op_diagnostics result) silent
         in (status, if err = None then to_out (operation_summary command result) c else c)))"

definition run_compiler_command ::
  "command_env \<Rightarrow> bytes \<Rightarrow> bytes list \<Rightarrow> (bytes list \<Rightarrow> world \<Rightarrow> (operation_result \<times> diagnostic list option) \<times> world) \<Rightarrow>
   world \<Rightarrow> (nat \<times> console) \<times> world" where
  "run_compiler_command env command args operation w =
     (case parse_flags (ce_is_print env) [(''json'', BoolFlag)] [] args of
        FlagsHelp \<Rightarrow> ((0, asked_help env command), w)
      | FlagsWrong e \<Rightarrow> ((2, refused_flags env command e), w)
      | FlagsParsed vs paths \<Rightarrow>
          (case operation paths w of ((result, err), w) \<Rightarrow>
             (report_operation env command (flag_bool vs ''json'') result err, w)))"

subsection \<open>Version and the language server\<close>

definition run_version :: "command_env \<Rightarrow> bytes list \<Rightarrow> nat \<times> console" where
  "run_version env args =
     (case parse_flags (ce_is_print env) [(''json'', BoolFlag)] [] args of
        FlagsHelp \<Rightarrow> (0, asked_help env ''version'')
      | FlagsWrong e \<Rightarrow> (2, refused_flags env ''version'' e)
      | FlagsParsed vs rest \<Rightarrow>
          (if rest \<noteq> [] then (2, to_err (''himesan version does not accept positional arguments'' @ [LF]) silent)
           else if flag_bool vs ''json'' then
             (case ce_json_version env (ce_compiler_version env) version_runtime_abi (ce_go_version env) [''lsp-stdio''] of
                Inl e \<Rightarrow> (2, to_err (''himesan: encode version: '' @ e @ [LF]) silent)
              | Inr encoded \<Rightarrow> (0, to_out encoded silent))
           else (0, to_out (''himesan '' @ ce_compiler_version env @ '' (runtime ABI '' @ version_runtime_abi @ '', ''
             @ ce_go_version env @ '')'' @ [LF]) silent)))"

definition run_lsp :: "command_env \<Rightarrow> bytes list \<Rightarrow> nat \<times> console" where
  "run_lsp env args =
     (case parse_flags (ce_is_print env) [(''stdio'', BoolFlag)] [] args of
        FlagsHelp \<Rightarrow> (0, asked_help env ''lsp'')
      | FlagsWrong e \<Rightarrow> (2, refused_flags env ''lsp'' e)
      | FlagsParsed vs rest \<Rightarrow>
          (if \<not> flag_bool vs ''stdio'' \<or> rest \<noteq> []
           then (2, to_err (''himesan lsp requires exactly --stdio'' @ [LF]) silent)
           else (case ce_lsp env of
               (Some e, c) \<Rightarrow> (1, to_err (''himesan lsp: '' @ e @ [LF]) c)
             | (None, c) \<Rightarrow> (0, c))))"

subsection \<open>The development supervisor\<close>

definition string_list_set :: "bytes \<Rightarrow> bytes option" where
  "string_list_set value_text = (if trim_space value_text = [] then Some ''value must not be empty'' else None)"

definition development_flags :: "(bytes \<times> flag_kind) list" where
  "development_flags =
     [(''config'', TextFlag), (''proxy'', TextFlag), (''listen-env'', TextFlag), (''health'', TextFlag),
      (''source'', CheckedFlag string_list_set), (''watch'', CheckedFlag string_list_set)]"

text \<open>The arguments of the application: those after the first \<open>--\<close>, if there is one.\<close>

fun split_app_args :: "bytes list \<Rightarrow> bytes list \<times> bytes list option" where
  "split_app_args [] = ([], None)"
| "split_app_args (s # args) =
     (if s = ''--'' then ([], Some args)
      else (case split_app_args args of (before, after) \<Rightarrow> (s # before, after)))"

definition load_development_config ::
  "command_env \<Rightarrow> bytes \<Rightarrow> world \<Rightarrow> (bytes + (bytes \<times> dev_config)) \<times> world" where
  "load_development_config env requested w =
     (let h = ce_host env in
      case host_getwd_error h of
        Some e \<Rightarrow> (Inl (''get working directory: '' @ e), w)
      | None \<Rightarrow>
          (let (found, w) =
               (if requested \<noteq> [] then (Inr requested, w)
                else (let candidate = path_join (host_dir h) ''himesan.json'' in
                  case stat h candidate w of
                    (Inr entry, w) \<Rightarrow> (Inr candidate, w)
                  | (Inl e, w) \<Rightarrow> (if is_not_exist e then Inr [] else Inl (''inspect himesan.json: '' @ os_error_text e), w)))
           in case found of
             Inl e \<Rightarrow> (Inl e, w)
           | Inr path \<Rightarrow>
               (if path = [] then (Inr (host_dir h, default_config), w)
                else (case absolute_path h path of
                    Inl e \<Rightarrow> (Inl (''resolve config: '' @ e), w)
                  | Inr absolute \<Rightarrow>
                      (case read_file h absolute w of (contents, w) \<Rightarrow>
                         (case load_config (\<lambda>path. case contents of Inl e \<Rightarrow> Inl (os_error_text e) | Inr c \<Rightarrow> Inr c)
                             (ce_decode_config env) (ce_decode_next env) (ce_is_print env) absolute of
                            Inl e \<Rightarrow> (Inl e, w)
                          | Inr cfg \<Rightarrow> (Inr (path_dir absolute, cfg), w)))))))"

definition override :: "bytes \<Rightarrow> bytes \<Rightarrow> bytes" where
  "override given configured = (if given \<noteq> [] then given else configured)"

definition configure ::
  "(bytes \<times> flag_value) list \<Rightarrow> bytes list \<Rightarrow> bytes list option \<Rightarrow> dev_config \<Rightarrow> dev_config" where
  "configure vs rest app_args cfg =
     cfg\<lparr>cf_go_package := (case rest of [package] \<Rightarrow> package | _ \<Rightarrow> cf_go_package cfg),
       cf_source_roots := (if flag_list vs ''source'' \<noteq> [] then flag_list vs ''source'' else cf_source_roots cfg),
       cf_additional_watch_roots := (if flag_list vs ''watch'' \<noteq> [] then flag_list vs ''watch'' else cf_additional_watch_roots cfg),
       cf_proxy_address := override (flag_text vs ''proxy'' []) (cf_proxy_address cfg),
       cf_listen_address_env := override (flag_text vs ''listen-env'' []) (cf_listen_address_env cfg),
       cf_health_path := override (flag_text vs ''health'' []) (cf_health_path cfg),
       cf_app_args := (case app_args of Some given \<Rightarrow> given | None \<Rightarrow> cf_app_args cfg)\<rparr>"

definition resolve_paths :: "bytes \<Rightarrow> bytes list \<Rightarrow> bytes list" where
  "resolve_paths root paths =
     map (\<lambda>path. if is_rooted path then path_clean path else path_join root (path_clean path)) paths"

definition map_development_diagnostics :: "diagnostic list option \<Rightarrow> dev_diagnostic list" where
  "map_development_diagnostics err =
     (case err of
        None \<Rightarrow> []
      | Some ds \<Rightarrow> map (\<lambda>d. \<lparr>dd_path = diag_path d, dd_line = int (diag_line d), dd_column = int (diag_column d),
          dd_code = diag_code d, dd_message = diag_message d, dd_severity = diag_severity d\<rparr>) ds)"

text \<open>The generate hook: the warnings are printed, the error is handed on.\<close>

definition development_generate ::
  "command_env \<Rightarrow> bytes list \<Rightarrow> world \<Rightarrow> (diagnostic list option \<times> console) \<times> world" where
  "development_generate env sources w =
     (case generate (ce_host env) (ce_backend env) (ce_parse env) sources w of ((result, err), w) \<Rightarrow>
        ((err, to_err (concat (map (\<lambda>d. ''warning: '' @ diagnostic_text d @ [LF])
            (filter (\<lambda>d. diag_severity d = severity_warning) (op_diagnostics result)))) silent), w))"

text \<open>The event callback.\<close>

definition print_event :: "dev_event \<Rightarrow> console \<Rightarrow> console" where
  "print_event ev c =
     (if ev_type ev = ''ready'' then to_out (''himesan dev: '' @ ev_message ev @ [LF]) c
      else if ev_type ev = ''reload'' then to_out (''himesan dev: healthy candidate activated'' @ [LF]) c
      else if ev_type ev = ''diagnostic'' then to_err (''himesan dev ['' @ ev_phase ev @ '']: '' @ ev_message ev @ [LF]) c
      else c)"

definition development_options :: "bytes \<Rightarrow> dev_config \<Rightarrow> sup_options" where
  "development_options root_dir cfg =
     \<lparr>op_root_dir = root_dir, op_config = cfg, op_generate = True, op_output = OutputWriter 1, op_error_output = OutputWriter 2,
      op_go_command = [], op_cache_dir = [], op_poll_interval = 0, op_debounce = 0, op_build_timeout = 0,
      op_startup_timeout = 0, op_shutdown_timeout = 0, op_http_client = None\<rparr>"

definition dev_failure :: "nat \<Rightarrow> bytes \<Rightarrow> console \<Rightarrow> nat \<times> console" where
  "dev_failure status e c = (status, to_err (''himesan dev: '' @ e @ [LF]) c)"

definition start_supervisor :: "command_env \<Rightarrow> bytes \<Rightarrow> dev_config \<Rightarrow> world \<Rightarrow> (nat \<times> console) \<times> world" where
  "start_supervisor env root_dir cfg w =
     (case new_supervisor (ce_is_print env) (ce_host env) (ce_user_cache env) (ce_digest env)
          (development_options root_dir cfg) w of
        Inl e \<Rightarrow> (dev_failure 1 e silent, w)
      | Inr (options, root, cache) \<Rightarrow>
          (case ce_supervise env options root cache (resolve_paths root_dir (cf_source_roots cfg)) w of
             ((Some e, c), w) \<Rightarrow> (dev_failure 1 e c, w)
           | ((None, c), w) \<Rightarrow> ((0, c), w)))"

definition run_dev :: "command_env \<Rightarrow> bytes list \<Rightarrow> world \<Rightarrow> (nat \<times> console) \<times> world" where
  "run_dev env args w =
     (case split_app_args args of (command_args, app_args) \<Rightarrow>
        (case parse_flags (ce_is_print env) development_flags [] command_args of
           FlagsHelp \<Rightarrow> ((0, asked_help env ''dev''), w)
         | FlagsWrong e \<Rightarrow> ((2, refused_flags env ''dev'' e), w)
         | FlagsParsed vs rest \<Rightarrow>
             (if 1 < length rest
              then ((2, to_err (''himesan dev accepts at most one Go package before --'' @ [LF]) silent), w)
              else (case load_development_config env (flag_text vs ''config'' []) w of
                  (Inl e, w) \<Rightarrow> (dev_failure 1 e silent, w)
                | (Inr (root_dir, cfg), w) \<Rightarrow>
                    (let cfg = configure vs rest app_args cfg in
                     case validate_config (ce_is_print env) cfg of
                       Some e \<Rightarrow> (dev_failure 2 e silent, w)
                     | None \<Rightarrow> start_supervisor env root_dir cfg w)))))"

subsection \<open>Dispatch\<close>

definition run_command :: "command_env \<Rightarrow> bytes list \<Rightarrow> world \<Rightarrow> (nat \<times> console) \<times> world" where
  "run_command env args w =
     (case args of
        [] \<Rightarrow> ((0, to_out help_text silent), w)
      | command # args \<Rightarrow>
          (if command = ''generate'' \<or> command = ''gen''
           then run_compiler_command env ''generate'' args (generate (ce_host env) (ce_backend env) (ce_parse env)) w
           else if command = ''check'' \<or> command = ''bless''
           then run_compiler_command env command args (check (ce_host env) (ce_backend env) (ce_parse env)) w
           else if command = ''dev'' then run_dev env args w
           else if command = ''lsp'' then (run_lsp env args, w)
           else if command = ''version'' then (run_version env args, w)
           else if command = ''help'' \<or> command = ''-h'' \<or> command = ''--help'' then ((0, to_out help_text silent), w)
           else ((2, to_err (''himesan: unknown command '' @ go_quote (ce_is_print env) command @ [LF, LF] @ help_text) silent), w)))"

declare to_out_def [go_eval] to_err_def [go_eval] silent_def [go_eval]

end
