(* ===== verification/Command_Results.thy ===== *)
theory Command_Results
  imports Command_Line
begin

section \<open>What the exit status of the commands means\<close>

lemma report_status:
  assumes "report_operation env command json r err = (status, c)"
  shows "status \<le> 2" and "status = 0 \<Longrightarrow> err = None"
    and "json \<Longrightarrow> ce_json_result env command (err = None) r \<in> range Inr \<Longrightarrow> (status = 0) = (err = None)"
    and "\<not> json \<Longrightarrow> (status = 0) = (err = None)"
  using assms by (auto simp: report_operation_def Let_def split: sum.splits if_splits)

lemma check_files: "check h env parse paths w = (r, w') \<Longrightarrow> w_files w' = w_files w"
proof -
  assume run: "check h env parse paths w = (r, w')"
  obtain compiled r0 w0 where c: "compile_operation h env parse paths w = ((compiled, r0), w0)" by (metis prod_cases3 prod.collapse)
  have "w_files w' = w_files (snd (check_compiled h compiled r0 w0))"
    using run c by (auto simp: check_def split: prod.splits)
  then show ?thesis using check_compiled_files [of h compiled r0 w0] compile_operation_ok(1) [OF c] by simp
qed

lemma run_compiler_command_files:
  assumes "run_compiler_command env command args operation w = (r, w')"
    and "\<And>paths x v v'. operation paths v = (x, v') \<Longrightarrow> w_files v' = w_files v"
  shows "w_files w' = w_files w \<and> fst r \<le> 2"
  using assms report_status(1) by (auto simp: run_compiler_command_def split: flag_outcome.splits prod.splits) (metis prod.collapse)+

lemma run_command_reads:
  assumes run: "run_command env args w = (r, w')" and args: "take 1 args \<notin> {[''generate''], [''gen''], [''dev'']}"
  shows "w_files w' = w_files w"
proof (cases args)
  case (Cons command rest)
  have checked: "w_files w' = w_files w"
    if "run_compiler_command env command rest (check (ce_host env) (ce_backend env) (ce_parse env)) w = (r, w')"
    using run_compiler_command_files [OF that] check_files by blast
  show ?thesis using run args Cons checked by (auto simp: run_command_def split: if_splits)
qed (use run in \<open>simp add: run_command_def\<close>)

text \<open>A compiler command whose arguments are accepted, and what it compiles.\<close>

lemma compiler_command_status:
  assumes "run_compiler_command env command args operation w = ((status, c), w')"
    and "parse_flags (ce_is_print env) [(''json'', BoolFlag)] [] args = FlagsParsed vs paths"
    and "flag_bool vs ''json'' \<longrightarrow> (\<forall>ok r. ce_json_result env command ok r \<in> range Inr)"
  obtains result err where "operation paths w = ((result, err), w')" "(status = 0) = (err = None)"
proof -
  obtain result err v where o: "operation paths w = ((result, err), v)" by (metis prod_cases3 prod.collapse)
  then have r: "report_operation env command (flag_bool vs ''json'') result err = (status, c)" "v = w'"
    using assms(1,2) by (simp_all add: run_compiler_command_def)
  show ?thesis using that [OF o [unfolded r(2)]] report_status(3,4) [OF r(1)] assms(3) by blast
qed

lemma quiet_check_status:
  assumes quiet: "quiet_host h" and op: "compile_operation h env parse paths w = ((compiled, r0), w0)"
    and run: "check h env parse paths w = ((r, err), w')"
  shows "err = None \<longleftrightarrow> \<not> has_errors (op_diagnostics r0) \<and> (\<forall>c\<in>set compiled. fresh_output c (w_files w (output_key h c)))"
proof -
  note parts = check_parts [OF op run]
  show ?thesis
  proof (cases "has_errors (op_diagnostics r0)")
    case True
    then show ?thesis using parts by (simp add: check_compiled_def)
  next
    case False
    then show ?thesis using quiet_check_compiled(1) [OF quiet parts(1) False refl] parts(2) compile_operation_ok(1) [OF op] by simp
  qed
qed

text \<open>
  C11: The exit status of the compiler commands means what it says. Whatever the arguments, only
  \<open>generate\<close>, its alias and the development command may change a file. Let the flags of a compiler
  command be accepted, the JSON encoder work if it is asked for, and let the named paths compile to some files.
  A \<open>generate\<close> that exits with 0 has left every output fresh; with another status it may have replaced
  some outputs it owns and have left a temporary file, and nothing else. A \<open>check\<close> or \<open>bless\<close> on a host without faults exits with 0
  exactly if there are no errors in the sources and every output is fresh.
\<close>

theorem command_status:
  assumes run: "run_command env (command # args) w = ((status, c), w')"
    and accepted: "parse_flags (ce_is_print env) [(''json'', BoolFlag)] [] args = FlagsParsed vs paths"
    and encoder: "flag_bool vs ''json'' \<longrightarrow> (\<forall>name ok r. ce_json_result env name ok r \<in> range Inr)"
    and op: "compile_operation (ce_host env) (ce_backend env) (ce_parse env) paths w = ((compiled, r0), w0)"
  shows "(command \<notin> {''generate'', ''gen'', ''dev''} \<longrightarrow> w_files w' = w_files w)
    \<and> (command \<in> {''generate'', ''gen''} \<longrightarrow>
         generate_effect (ce_host env) compiled (status \<noteq> 0) (w_files w) (w_files w')
       \<and> (status = 0 \<longrightarrow> (\<forall>c\<in>set compiled. fresh_output c (w_files w' (output_key (ce_host env) c)))))
    \<and> (command \<in> {''check'', ''bless''} \<and> quiet_host (ce_host env) \<longrightarrow>
         (status = 0 \<longleftrightarrow> \<not> has_errors (op_diagnostics r0)
            \<and> (\<forall>c\<in>set compiled. fresh_output c (w_files w (output_key (ce_host env) c)))))"
proof (intro conjI impI)
  assume "command \<notin> {''generate'', ''gen'', ''dev''}"
  then show "w_files w' = w_files w" using run_command_reads [OF run] by simp
next
  assume "command \<in> {''generate'', ''gen''}"
  then have "run_compiler_command env ''generate'' args (generate (ce_host env) (ce_backend env) (ce_parse env)) w = ((status, c), w')"
    using run by (auto simp: run_command_def)
  from compiler_command_status [OF this accepted] encoder obtain result err
    where g: "generate (ce_host env) (ce_backend env) (ce_parse env) paths w = ((result, err), w')" "(status = 0) = (err = None)" by blast
  show "generate_effect (ce_host env) compiled (status \<noteq> 0) (w_files w) (w_files w')"
    using generate_result(1) [OF op g(1)] g(2) by simp
  show "\<forall>c\<in>set compiled. fresh_output c (w_files w' (output_key (ce_host env) c))" if "status = 0"
    using generate_result(3) [OF op g(1)] g(2) that by simp
next
  assume k: "command \<in> {''check'', ''bless''} \<and> quiet_host (ce_host env)"
  then have "run_compiler_command env command args (check (ce_host env) (ce_backend env) (ce_parse env)) w = ((status, c), w')"
    using run by (auto simp: run_command_def)
  from compiler_command_status [OF this accepted] encoder obtain result err
    where g: "check (ce_host env) (ce_backend env) (ce_parse env) paths w = ((result, err), w')" "(status = 0) = (err = None)" by blast
  show "status = 0 \<longleftrightarrow> \<not> has_errors (op_diagnostics r0)
            \<and> (\<forall>c\<in>set compiled. fresh_output c (w_files w (output_key (ce_host env) c)))"
    using quiet_check_status [OF _ op g(1)] k g(2) by blast
qed

definition sample_env :: command_env where
  "sample_env = \<lparr>ce_is_print = (\<lambda>r. True), ce_usage = (\<lambda>name. ''Usage of '' @ name @ '':''), ce_host = sample_host,
     ce_backend = sample_backend, ce_parse = (\<lambda>s. None), ce_json_result = (\<lambda>name ok r. Inr ''{}''),
     ce_json_version = (\<lambda>c abi g features. Inr ''{}''), ce_compiler_version = ''v1.0.0'', ce_go_version = ''go1.26.7'',
     ce_lsp = (None, silent), ce_decode_config = (\<lambda>cfg s. Inl ''not JSON''), ce_decode_next = (\<lambda>s. DecodedEnd),
     ce_user_cache = Inr ''/cache'', ce_digest = (\<lambda>s. ''d''),
     ce_supervise = (\<lambda>options root cache sources w. ((None, silent), w))\<rparr>"

theorem command_status_witness:
  "\<exists>c console w'. run_command sample_env [''generate''] sample_project = ((0, console), w')
     \<and> fresh_output c (w_files w' ''/d/a.sando.go'')"
proof -
  obtain c r0 w0 r w' where op: "compile_operation sample_host sample_backend (\<lambda>_. None) [] sample_project = (([c], r0), w0)"
    and k: "output_key sample_host c = ''/d/a.sando.go''"
    and g: "generate sample_host sample_backend (\<lambda>_. None) [] sample_project = ((r, None), w')"
    using sample_generate by blast
  have env: "ce_host sample_env = sample_host" "ce_backend sample_env = sample_backend" "ce_parse sample_env = (\<lambda>_. None)"
    by (simp_all add: sample_env_def)
  have none: "parse_flags (ce_is_print sample_env) [(''json'', BoolFlag)] [] [] = FlagsParsed [] []" by (simp add: go_eval)
  have quiet: "\<not> flag_bool [] ''json''" by (simp add: go_eval)
  obtain console where run: "run_command sample_env [''generate''] sample_project = ((0, console), w')"
    using g none quiet by (simp add: run_command_def run_compiler_command_def report_operation_def env Let_def)
  have op': "compile_operation (ce_host sample_env) (ce_backend sample_env) (ce_parse sample_env) [] sample_project = (([c], r0), w0)"
    using op by (simp add: env)
  have "fresh_output c (w_files w' (output_key (ce_host sample_env) c))"
    using command_status [OF run none _ op'] quiet by auto
  then show ?thesis using run k env by auto
qed

end
