(* ===== verification/Regeneration.thy ===== *)
theory Regeneration
  imports "Operation_Results"
begin

section \<open>What Generate wrote, Check accepts\<close>

text \<open>
  A whole Check after a Generate: discovery walks over the outputs that were written, the sources are
  compiled again, and the outputs compared. Two file systems that differ in outputs beside their sources
  only are explored with the same result; so the second run compiles what the first compiled.
\<close>

subsection \<open>File systems that differ in outputs\<close>

definition outputs_added :: "files \<Rightarrow> files \<Rightarrow> bool" where
  "outputs_added fs fs' =
     (\<forall>k. fs' k = fs k
        \<or> (\<exists>s. k = s @ ''.go'' \<and> has_suffix ''.sando'' s \<and> (\<exists>perm content. fs s = Some (RegularFile perm content))
             \<and> owned_or_absent (fs k) \<and> (\<exists>perm content. fs' k = Some (RegularFile perm content))))"

lemma added_other:
  assumes "outputs_added fs fs'" and "\<not> has_suffix ''.sando.go'' k"
  shows "fs' k = fs k"
proof -
  have "has_suffix ''.sando.go'' (s @ ''.go'')" if "has_suffix ''.sando'' s" for s
    using that by (auto simp: has_suffix_iff)
  then show ?thesis using assms unfolding outputs_added_def by metis
qed

text \<open>An entry that was there is there, as the same or as another regular file.\<close>

definition like_entry :: "fs_entry \<Rightarrow> fs_entry \<Rightarrow> bool" where
  "like_entry e e' = (e' = e \<or> is_regular e \<and> is_regular e')"

lemma added_entry:
  assumes "outputs_added fs fs'" and "fs k = Some e"
  shows "\<exists>e'. fs' k = Some e' \<and> like_entry e e'"
proof (cases "fs' k = fs k")
  case True
  then show ?thesis using assms(2) by (auto simp: like_entry_def)
next
  case False
  then obtain perm content where new: "owned_or_absent (fs k)" "fs' k = Some (RegularFile perm content)"
    using assms(1) unfolding outputs_added_def by blast
  then show ?thesis using assms(2) by (cases rule: owned_cases) (auto simp: like_entry_def)
qed

lemma like_kinds:
  assumes "like_entry e e'"
  shows "is_regular e' = is_regular e" "is_directory e' = is_directory e" "is_symlink e' = is_symlink e"
proof -
  have same: "is_regular x \<Longrightarrow> \<not> is_directory x \<and> \<not> is_symlink x" for x by (cases x) simp_all
  show "is_regular e' = is_regular e" "is_directory e' = is_directory e" "is_symlink e' = is_symlink e"
    using assms same [of e] same [of e'] unfolding like_entry_def by blast+
qed

lemma like_directory: "like_entry e e' \<Longrightarrow> is_directory e \<Longrightarrow> e' = e"
  by (cases e) (auto simp: like_entry_def)

lemma added_new:
  assumes "outputs_added fs fs'" and "fs k = None" and "fs' k = Some e'"
  shows "is_regular e' \<and> has_suffix ''.sando.go'' k"
proof -
  have "has_suffix ''.sando.go'' k" using added_other [OF assms(1)] assms(2,3) by fastforce
  moreover have "fs' k \<noteq> fs k" using assms(2,3) by simp
  then obtain perm content where "fs' k = Some (RegularFile perm content)"
    using assms(1) unfolding outputs_added_def by blast
  ultimately show ?thesis using assms(3) by simp
qed

lemma added_changed:
  assumes "outputs_added fs fs'" and "fs' (s @ ''.go'') \<noteq> fs (s @ ''.go'')"
  shows "\<exists>perm content. fs s = Some (RegularFile perm content)"
proof -
  obtain s' where "s @ ''.go'' = s' @ ''.go''" "\<exists>perm content. fs s' = Some (RegularFile perm content)"
    using assms unfolding outputs_added_def by blast
  then show ?thesis by simp
qed

lemma added_source: "outputs_added fs fs' \<Longrightarrow> has_suffix ''.sando'' k \<Longrightarrow> fs' k = fs k"
proof (erule added_other)
  assume "has_suffix ''.sando'' k"
  then obtain t where k: "k = t @ ''.sando''" by (auto simp: has_suffix_iff)
  show "\<not> has_suffix ''.sando.go'' k"
    unfolding k has_suffix_def has_prefix_iff by simp
qed

subsection \<open>Paths and keys\<close>

lemma key_ending:
  assumes "has_suffix e name" and "separator \<notin> set e" "2 < length e"
  shows "\<exists>c. base_end c name \<and> has_suffix e c"
proof -
  obtain t where t: "name = t @ e" using assms(1) by (auto simp: has_suffix_iff)
  define l where "l = rev (takeWhile (\<lambda>b. b \<noteq> separator) (rev t))"
  define d where "d = rev (dropWhile (\<lambda>b. b \<noteq> separator) (rev t))"
  have tl: "t = d @ l" unfolding l_def d_def by (metis rev_append rev_rev_ident takeWhile_dropWhile_id)
  have l: "separator \<notin> set l" unfolding l_def by (auto dest: set_takeWhileD)
  have d: "d = [] \<or> (\<exists>a. d = a @ [separator])"
  proof (cases "dropWhile (\<lambda>b. b \<noteq> separator) (rev t)")
    case Nil
    then show ?thesis by (simp add: d_def)
  next
    case (Cons x xs)
    then have "x = separator" using hd_dropWhile [of "\<lambda>b. b \<noteq> separator" "rev t"] by simp
    then show ?thesis using Cons by (simp add: d_def)
  qed
  have "2 < length (l @ e)" using assms(3) by simp
  then have "l @ e \<noteq> ''.''" "l @ e \<noteq> ''..''" "l @ e \<noteq> []" by (auto simp del: length_append)
  then have "base_end (l @ e) name"
    using d l assms(2) by (auto simp: base_end_def plain_part_def t tl)
  then show ?thesis by (auto simp: has_suffix_iff)
qed

lemma base_end_suffix: "base_end c p \<Longrightarrow> has_suffix e c \<Longrightarrow> has_suffix e p"
  by (auto simp: base_end_def has_suffix_iff)

lemma name_key:
  assumes "has_suffix e name" and "separator \<notin> set e" "2 < length e"
  shows "has_suffix e (resolve h (path_join dir name))"
proof -
  obtain c where c: "base_end c name" "has_suffix e c" using key_ending [OF assms] by blast
  show ?thesis by (rule base_end_suffix [OF base_end_resolve [OF base_end_join [OF c(1)]] c(2)])
qed

lemma path_key:
  assumes "has_suffix e p" and "separator \<notin> set e" "2 < length e"
  shows "has_suffix e (resolve h p)"
proof -
  obtain c where c: "base_end c p" "has_suffix e c" using key_ending [OF assms] by blast
  show ?thesis by (rule base_end_suffix [OF base_end_resolve [OF c(1)] c(2)])
qed

lemma path_ext_suffix: "path_ext p = e \<Longrightarrow> has_suffix e p"
proof -
  define b where "b = rev (takeWhile (\<lambda>b. b \<noteq> separator) (rev p))"
  have "has_suffix b p"
    unfolding b_def has_suffix_iff by (metis rev_append rev_rev_ident takeWhile_dropWhile_id)
  moreover have "path_ext p = e \<Longrightarrow> has_suffix e b"
    unfolding path_ext_def b_def [symmetric] Let_def has_suffix_iff
    by (auto split: option.splits) (metis append_take_drop_id)
  moreover assume "path_ext p = e"
  ultimately obtain u v where "p = u @ b" "b = v @ e" by (auto simp: has_suffix_iff)
  then show "has_suffix e p" by (simp add: has_suffix_iff)
qed

text \<open>The markers of a boundary are not outputs.\<close>

lemma marker_key:
  assumes "m \<in> {''.git'', ''.hg'', ''.svn'', ''go.mod''}"
  shows "\<not> has_suffix ''.sando.go'' (resolve h (path_join dir m))"
proof -
  have "base_end m m" using assms by (auto simp: base_end_def plain_part_def)
  then have "last (resolve h (path_join dir m)) = last m"
    using base_end_last [OF base_end_resolve [OF base_end_join]] by blast
  then show ?thesis using assms by (auto simp: has_suffix_iff)
qed

subsection \<open>The walk finds the same\<close>

definition same_project :: "fs_host \<Rightarrow> fs_host \<Rightarrow> files \<Rightarrow> files \<Rightarrow> bool" where
  "same_project h h' fs fs' =
     (quiet_host h \<and> quiet_host h' \<and> host_dir h' = host_dir h \<and> host_system h' = host_system h \<and> outputs_added fs fs')"

definition alike :: "fs_host \<Rightarrow> files \<Rightarrow> files \<Rightarrow> walk_state \<Rightarrow> walk_state \<Rightarrow> bool" where
  \<comment> \<open>two states of the walk with the same results, over the two file systems\<close>
  "alike h fs fs' st st' =
     (walk_ok h fs (\<lambda>p. True) st \<and> w_files (wk_world st') = fs'
      \<and> wk_found st' = wk_found st \<and> wk_diagnostics st' = wk_diagnostics st)"

lemma project_parts:
  assumes "same_project h h' fs fs'"
  shows "quiet_host h" "quiet_host h'" "resolve h' path = resolve h path" "host_system h' = host_system h" "outputs_added fs fs'"
  using assms by (simp_all add: same_project_def resolve_def)

lemma alike_files: "alike h fs fs' st st' \<Longrightarrow> w_files (wk_world st) = fs \<and> w_files (wk_world st') = fs'"
  by (simp add: alike_def walk_ok_def)

lemma alike_world:
  "alike h fs fs' st st' \<Longrightarrow> w_files w = fs \<Longrightarrow> w_files w' = fs' \<Longrightarrow> alike h fs fs' (st\<lparr>wk_world := w\<rparr>) (st'\<lparr>wk_world := w'\<rparr>)"
  by (simp add: alike_def walk_ok_def)

lemma alike_add: "alike h fs fs' st st' \<Longrightarrow> alike h fs fs' (add_diagnostic d st) (add_diagnostic d st')"
  by (simp add: alike_def add_diagnostic_def walk_ok_def)

lemma alike_source:
  assumes "same_project h h' fs fs'" and "alike h fs fs' st st'"
  shows "alike h fs fs' (add_source h path st) (add_source h' path st')"
  using assms walk_ok_source [of h fs "\<lambda>p. True" st path]
  by (simp add: alike_def add_source_def quiet_calls(3) [OF project_parts(1)] quiet_calls(3) [OF project_parts(2)]
      project_parts(3))

lemma alike_tick: "alike h fs fs' st st' \<Longrightarrow> alike h fs fs' (st\<lparr>wk_world := tick (wk_world st)\<rparr>) (st'\<lparr>wk_world := tick (wk_world st')\<rparr>)"
  by (rule alike_world) (simp_all add: alike_files)

text \<open>A call of \<open>Lstat\<close> on both sides.\<close>

lemma project_lstat:
  assumes "same_project h h' fs fs'" and "w_files w = fs" "w_files w' = fs'"
  shows "lstat h path w = (case fs (resolve h path) of None \<Rightarrow> Inl (no_such_file ''lstat'' path) | Some e \<Rightarrow> Inr e, tick w)"
    and "lstat h' path w' = (case fs' (resolve h path) of None \<Rightarrow> Inl (no_such_file ''lstat'' path) | Some e \<Rightarrow> Inr e, tick w')"
  using assms by (simp_all add: quiet_calls(1) [OF project_parts(1)] quiet_calls(1) [OF project_parts(2)] project_parts(3))

lemma alike_markers:
  assumes project: "same_project h h' fs fs'"
  shows "set ms \<subseteq> {''.git'', ''.hg'', ''.svn''} \<Longrightarrow> alike h fs fs' st st' \<Longrightarrow> check_markers h path ms st = (sig, st1) \<Longrightarrow>
   \<exists>st1'. check_markers h' path ms st' = (sig, st1') \<and> alike h fs fs' st1 st1'"
proof (induction ms arbitrary: st st')
  case Nil
  then show ?case by auto
next
  case (Cons m ms)
  have same: "fs' (resolve h (path_join path m)) = fs (resolve h (path_join path m))"
    by (rule added_other [OF project_parts(5) [OF project]]) (use Cons.prems(1) marker_key [of m h path] in auto)
  note files = alike_files [OF Cons.prems(2)]
  note calls = project_lstat [OF project conjunct1 [OF files] conjunct2 [OF files], of "path_join path m"]
  show ?case
    using Cons.IH [OF _ alike_tick [OF Cons.prems(2)]] Cons.prems alike_tick [OF Cons.prems(2)]
    by (auto simp: calls same no_such_file_def split: option.splits)
qed

lemma alike_directory:
  assumes project: "same_project h h' fs fs'" and alike: "alike h fs fs' st st'" and entry: "fs (resolve h path) = Some e" "fs' (resolve h path) = Some e"
    and run: "check_directory h root path st = (sig, st1)"
  shows "\<exists>st1'. check_directory h' root path st' = (sig, st1') \<and> alike h fs fs' st1 st1'"
proof -
  note files = alike_files [OF alike]
  note here = project_lstat [OF project conjunct1 [OF files] conjunct2 [OF files], of path]
  note alike1 = alike_tick [OF alike]
  show ?thesis
  proof (cases "same_filesystem (host_system h root) (host_system h path)")
    case False
    then show ?thesis
      using run alike_add [OF alike1] by (auto simp: check_directory_def here entry Let_def project_parts(4) [OF project])
  next
    case True
    obtain s st2 where m: "check_markers h path [''.git'', ''.hg'', ''.svn''] (st\<lparr>wk_world := tick (wk_world st)\<rparr>) = (s, st2)" by fastforce
    obtain st2' where m': "check_markers h' path [''.git'', ''.hg'', ''.svn''] (st'\<lparr>wk_world := tick (wk_world st')\<rparr>) = (s, st2')"
        "alike h fs fs' st2 st2'"
      using alike_markers [OF project _ alike1 m] by auto
    have same: "fs' (resolve h (path_join path ''go.mod'')) = fs (resolve h (path_join path ''go.mod''))"
      by (rule added_other [OF project_parts(5) [OF project]]) (rule marker_key, simp)
    note files2 = alike_files [OF m'(2)]
    note calls = project_lstat [OF project conjunct1 [OF files2] conjunct2 [OF files2], of "path_join path ''go.mod''"]
    have "\<exists>st1'. check_module h' path st2' = (x, st1') \<and> alike h fs fs' y st1'" if "check_module h path st2 = (x, y)" for x y
      using that alike_tick [OF m'(2)] alike_add [OF alike_tick [OF m'(2)]]
      by (auto simp: check_module_def calls same Let_def no_such_file_def split: option.splits)
    then show ?thesis
      using run m m' True by (cases s) (auto simp: check_directory_def here entry Let_def project_parts(4) [OF project])
  qed
qed

text \<open>The inspection of a possible output depends on its content and on the entry beside it only.\<close>

definition output_verdict :: "bytes \<Rightarrow> bytes \<Rightarrow> fs_entry option \<Rightarrow> diagnostic option" where
  "output_verdict path content source =
     (if take (length (generated_prefix @ [LF])) content \<noteq> generated_prefix @ [LF] then None
      else (case source of
          Some entry \<Rightarrow> (if is_regular entry then None
             else Some (file_problem path ''HIM2014'' ''owned generated output is orphaned because its adjacent .sando source is not a regular file; review and remove the output explicitly''))
        | None \<Rightarrow> Some (file_problem path ''HIM2014'' ''owned generated output is orphaned because its adjacent .sando source is missing; review and remove the output explicitly'')))"

lemma quiet_inspect:
  assumes quiet: "quiet_host h" and entry: "w_files w (resolve h (p @ ''.go'')) = Some (RegularFile perm content)"
  shows "\<exists>w'. inspect_owned_generated_output h (p @ ''.go'') w
      = (output_verdict (p @ ''.go'') content (w_files w (resolve h p)), w') \<and> w_files w' = w_files w"
proof -
  have read: "read_file h (p @ ''.go'') w = (Inr content, tick w)"
    using quiet entry by (simp add: read_file_def quiet_host_def follow_forty)
  have short: "length content < length m \<Longrightarrow> take (length m) content \<noteq> m" for m :: bytes by auto
  have marker: "has_generated_marker h (p @ ''.go'') w
      = (Inr (take (length (generated_prefix @ [LF])) content = generated_prefix @ [LF]), tick w)"
    unfolding has_generated_marker_def read Let_def using short [of "generated_prefix @ [LF]"] by simp
  have symlink: "is_regular e \<Longrightarrow> \<not> is_symlink e" for e by (cases e) simp_all
  show ?thesis
    unfolding inspect_owned_generated_output_def marker output_verdict_def
    by (auto simp: quiet_calls(1) [OF quiet] no_such_file_def symlink trim_suffix_append split: option.split)
qed

lemma alike_generated:
  assumes project: "same_project h h' fs fs'" and alike: "alike h fs fs' st st'"
    and path: "path = path_join dir name" "has_suffix ''.sando.go'' name"
    and new: "fs' (resolve h path) = Some e'" and entry: "fs (resolve h path) = None \<or> fs (resolve h path) = Some e \<and> like_entry e e'"
  shows "alike h fs fs' (if fs (resolve h path) = None then st else visit_generated h path st) (visit_generated h' path st')"
proof -
  note files = alike_files [OF alike]
  note added = project_parts(5) [OF project] and same = project_parts(3) [OF project]
  note here = project_lstat [OF project conjunct1 [OF files] conjunct2 [OF files], of path]
  note alike1 = alike_tick [OF alike]
  obtain c where c: "base_end c name" "has_suffix ''.sando.go'' c" using key_ending [OF path(2)] by auto
  then obtain x where x: "c = x @ ''.sando.go''" by (auto simp: has_suffix_iff)
  have end_path: "base_end c path" using base_end_join [OF c(1)] path(1) by simp
  obtain p where p: "path = p @ ''.go''" "base_end (x @ ''.sando'') p"
  proof -
    have "plain_part (x @ ''.sando'')" "x @ ''.sando'' \<noteq> ''..''"
      using c(1) by (auto simp: base_end_def plain_part_def x append_eq_Cons_conv)
    then show ?thesis
      using end_path that [of "x @ ''.sando''"] that [of "a @ separator # x @ ''.sando''" for a]
      by (auto simp: base_end_def x)
  qed
  have key: "resolve h path = resolve h p @ ''.go''"
    unfolding p(1) by (rule resolve_append [OF p(2)]) auto
  have source: "fs' (resolve h p) = fs (resolve h p)"
    by (rule added_source [OF added]) (rule base_end_suffix [OF base_end_resolve [OF p(2)]], simp add: has_suffix_iff)
  have changed: "\<exists>perm content. fs (resolve h p) = Some (RegularFile perm content)" if "fs' (resolve h path) \<noteq> fs (resolve h path)"
    using added_changed [OF added] that unfolding key by blast
  have verdict: "quiet_host k \<Longrightarrow> resolve k = resolve h \<Longrightarrow> w_files w (resolve h path) = Some (RegularFile perm content) \<Longrightarrow>
      w_files w (resolve h p) = fs (resolve h p) \<Longrightarrow>
      \<exists>w'. inspect_owned_generated_output k path w = (output_verdict path content (fs (resolve h p)), w') \<and> w_files w' = w_files w"
    for k w perm content
    using quiet_inspect [of k w p perm content] unfolding p(1) by simp
  have resolves: "resolve h' = resolve h" using same by (rule ext)
  show ?thesis
  proof (cases "is_regular e'")
    case False
    then have "fs (resolve h path) = Some e" "e = e'" "\<not> is_regular e"
      using entry added_new [OF added _ new] by (auto simp: like_entry_def)
    then show ?thesis using alike1 new False by (simp add: visit_generated_def here)
  next
    case True
    then obtain perm' content' where e': "e' = RegularFile perm' content'" by (cases e') auto
    obtain w2 where w2: "inspect_owned_generated_output h' path (tick (wk_world st'))
        = (output_verdict path content' (fs (resolve h p)), w2)" "w_files w2 = fs'"
      using verdict [OF project_parts(2) [OF project] resolves, of "tick (wk_world st')"] new e' files source by auto
    show ?thesis
    proof (cases "fs (resolve h path)")
      case None
      then obtain q d where "fs (resolve h p) = Some (RegularFile q d)" using changed new by auto
      then have "output_verdict path content' (fs (resolve h p)) = None" by (simp add: output_verdict_def)
      then show ?thesis
        using None w2 alike files new e' by (simp add: visit_generated_def here alike_def)
    next
      case (Some e0)
      then obtain perm content where e: "e0 = RegularFile perm content"
        using entry True like_kinds(1) [of e e'] by (cases e0) auto
      obtain w1 where w1: "inspect_owned_generated_output h path (tick (wk_world st))
          = (output_verdict path content (fs (resolve h p)), w1)" "w_files w1 = fs"
        using verdict [OF project_parts(1) [OF project] refl, of "tick (wk_world st)"] Some e files by auto
      have "output_verdict path content' (fs (resolve h p)) = output_verdict path content (fs (resolve h p))"
        using changed new Some e e' by (cases "fs' (resolve h path) = fs (resolve h path)") (auto simp: output_verdict_def)
      then show ?thesis
        using alike_world [OF alike w1(2) w2(2)] alike_add [OF alike_world [OF alike w1(2) w2(2)]] w1 w2 Some e e' new
        by (simp add: visit_generated_def here split: option.split)
    qed
  qed
qed

lemma alike_visit_source:
  assumes project: "same_project h h' fs fs'" and alike: "alike h fs fs' st st'"
    and entry: "fs (resolve h path) = Some e" "fs' (resolve h path) = Some e'" "like_entry e e'"
  shows "alike h fs fs' (visit_source h path st) (visit_source h' path st')"
proof -
  note files = alike_files [OF alike]
  note here = project_lstat [OF project conjunct1 [OF files] conjunct2 [OF files], of path]
  show ?thesis
    using alike_tick [OF alike] alike_source [OF project alike_tick [OF alike]] entry like_kinds(1) [OF entry(3)]
    by (simp add: visit_source_def here)
qed

lemma alike_entry:
  assumes project: "same_project h h' fs fs'" and alike: "alike h fs fs' st st'"
    and placed: "is_directory e \<or> path = path_join dir name"
    and entry: "fs (resolve h path) = Some e" "fs' (resolve h path) = Some e'" "like_entry e e'"
    and run: "visit_entry h inspect root path name e err st = (sig, st1)"
  shows "\<exists>st1'. visit_entry h' inspect root path name e' err st' = (sig, st1') \<and> alike h fs fs' st1 st1'"
proof -
  note alike1 = alike_tick [OF alike] and kinds = like_kinds [OF entry(3)]
  have ctx: "ctx_err h (wk_world st) = (None, tick (wk_world st))" "ctx_err h' (wk_world st') = (None, tick (wk_world st'))"
    using quiet_calls(2) [OF project_parts(1) [OF project]] quiet_calls(2) [OF project_parts(2) [OF project]] by auto
  show ?thesis
  proof (cases err)
    case (Some x)
    then show ?thesis using run alike_add [OF alike1] kinds by (auto simp: visit_entry_def ctx Let_def)
  next
    case None
    show ?thesis
    proof (cases "is_directory e")
      case True
      then have "e' = e" "\<not> is_symlink e" using like_directory [OF entry(3)] by (cases e; simp)+
      then show ?thesis
        using run None True alike1 alike_directory [OF project alike1 entry(1)] entry
        by (auto simp: visit_entry_def ctx Let_def split: if_splits)
    next
      case False
      then have path: "path = path_join dir name" using placed by simp
      have generated: "alike h fs fs' (visit_generated h path (st\<lparr>wk_world := tick (wk_world st)\<rparr>))
          (visit_generated h' path (st'\<lparr>wk_world := tick (wk_world st')\<rparr>))" if "has_suffix ''.sando.go'' name"
        using alike_generated [OF project alike1 path that entry(2), of e] entry by simp
      show ?thesis
        using run None False kinds alike1 generated alike_visit_source [OF project alike1 entry]
        by (auto simp: visit_entry_def ctx Let_def split: if_splits)
    qed
  qed
qed

lemma alike_new:
  assumes project: "same_project h h' fs fs'" and alike: "alike h fs fs' st st'"
    and path: "path = path_join dir name" and entry: "fs (resolve h path) = None" "fs' (resolve h path) = Some e'"
  shows "\<exists>st1'. walk_dir h' inspect root fuel path name e' st' = (WalkOn, st1') \<and> alike h fs fs' st st1'"
proof -
  have e': "is_regular e'" "has_suffix ''.sando.go'' (resolve h path)"
    using added_new [OF project_parts(5) [OF project] entry] by auto
  then have kinds: "\<not> is_directory e'" "\<not> is_symlink e'" by (cases e'; simp)+
  have ext: "path_ext name \<noteq> ''.sando''"
  proof
    assume "path_ext name = ''.sando''"
    then have "has_suffix ''.sando'' (resolve h path)"
      unfolding path by (intro name_key path_ext_suffix) auto
    then have "fs' (resolve h path) = fs (resolve h path)" by (rule added_source [OF project_parts(5) [OF project]])
    then show False using entry by simp
  qed
  have alike1: "alike h fs fs' st (st'\<lparr>wk_world := tick (wk_world st')\<rparr>)"
    using alike by (simp add: alike_def)
  have "alike h fs fs' st (visit_generated h' path (st'\<lparr>wk_world := tick (wk_world st')\<rparr>))" if "has_suffix ''.sando.go'' name"
    using alike_generated [OF project alike1 path that entry(2), of e'] entry(1) by simp
  then show ?thesis
    using kinds ext alike1 quiet_calls(2) [OF project_parts(2) [OF project]]
    by (simp add: walk_dir.simps visit_entry_def Let_def)
qed

lemma sort_names: "sort (filter P ns) = filter P (sort (ns :: bytes list))"
  by (simp add: filter_sort)

lemma alike_names:
  assumes project: "same_project h h' fs fs'"
    and below: "\<And>name e e' st st' sig st1. alike h fs fs' st st' \<Longrightarrow> fs (resolve h (path_join path name)) = Some e \<Longrightarrow>
      fs' (resolve h (path_join path name)) = Some e' \<Longrightarrow> like_entry e e' \<Longrightarrow>
      walk_dir h inspect root fuel (path_join path name) name e st = (sig, st1) \<Longrightarrow>
      \<exists>st1'. walk_dir h' inspect root fuel (path_join path name) name e' st' = (sig, st1') \<and> alike h fs fs' st1 st1'"
  shows "alike h fs fs' st st' \<Longrightarrow>
   walk_names h inspect root fuel path (filter (\<lambda>n. fs (resolve h (path_join path n)) \<noteq> None) ns) st = (sig, st1) \<Longrightarrow>
   \<exists>st1'. walk_names h' inspect root fuel path (filter (\<lambda>n. fs' (resolve h (path_join path n)) \<noteq> None) ns) st' = (sig, st1')
     \<and> alike h fs fs' st1 st1'"
proof (induction ns arbitrary: st st')
  case Nil
  then show ?case by simp
next
  case (Cons n ns)
  let ?k = "resolve h (path_join path n)"
  note files = alike_files [OF Cons.prems(1)] and same = project_parts(3) [OF project]
  show ?case
  proof (cases "fs ?k")
    case None
    show ?thesis
    proof (cases "fs' ?k")
      case None
      then show ?thesis using Cons \<open>fs ?k = None\<close> by simp
    next
      case (Some e')
      obtain st2 where "walk_dir h' inspect root fuel (path_join path n) n e' st' = (WalkOn, st2)" "alike h fs fs' st st2"
        using alike_new [OF project Cons.prems(1) refl None Some] by blast
      then show ?thesis using Cons.IH [of st st2] Cons.prems(2) None Some files same by simp
    qed
  next
    case (Some e)
    obtain e' where e': "fs' ?k = Some e'" "like_entry e e'"
      using added_entry [OF project_parts(5) [OF project] Some] by blast
    obtain s st2 where w: "walk_dir h inspect root fuel (path_join path n) n e st = (s, st2)" by fastforce
    obtain st2' where w': "walk_dir h' inspect root fuel (path_join path n) n e' st' = (s, st2')" "alike h fs fs' st2 st2'"
      using below [OF Cons.prems(1) Some e' w] by blast
    show ?thesis
      using Cons.IH [OF w'(2)] Cons.prems(2) Some e' w w' files same by (cases s) auto
  qed
qed

lemma alike_walk:
  assumes project: "same_project h h' fs fs'"
  shows "alike h fs fs' st st' \<Longrightarrow> is_directory e \<or> path = path_join dir name \<Longrightarrow> fs (resolve h path) = Some e \<Longrightarrow>
      fs' (resolve h path) = Some e' \<Longrightarrow> like_entry e e' \<Longrightarrow> walk_dir h inspect root fuel path name e st = (sig, st1) \<Longrightarrow>
      \<exists>st1'. walk_dir h' inspect root fuel path name e' st' = (sig, st1') \<and> alike h fs fs' st1 st1'"
proof (induction fuel arbitrary: path dir name e e' st st' sig st1)
  case 0
  obtain s st2 where v: "visit_entry h inspect root path name e None st = (s, st2)" by fastforce
  obtain st2' where v': "visit_entry h' inspect root path name e' None st' = (s, st2')" "alike h fs fs' st2 st2'"
    using alike_entry [OF project 0(1-5) v] by blast
  obtain s3 st3 where t: "visit_entry h inspect root path name e (Some (OsFailure ''file name too long'')) st2 = (s3, st3)" by fastforce
  obtain st3' where t': "visit_entry h' inspect root path name e' (Some (OsFailure ''file name too long'')) st2' = (s3, st3')"
      "alike h fs fs' st3 st3'"
    using alike_entry [OF project v'(2) 0(2-5) t] by blast
  show ?case
    using 0(6) v v' t t' like_kinds(2) [OF 0(5)] by (cases s) (auto simp: walk_dir.simps split: if_splits)
next
  case (Suc fuel)
  obtain s st2 where v: "visit_entry h inspect root path name e None st = (s, st2)" by fastforce
  obtain st2' where v': "visit_entry h' inspect root path name e' None st' = (s, st2')" "alike h fs fs' st2 st2'"
    using alike_entry [OF project Suc.prems(1-5) v] by blast
  show ?case
  proof (cases "s = WalkOn \<and> is_directory e")
    case False
    then show ?thesis
      using Suc.prems(6) v v' like_kinds(2) [OF Suc.prems(5)] by (cases s) (auto simp: walk_dir.simps split: if_splits)
  next
    case True
    then obtain perm ns where e: "e = Directory perm ns" "e' = Directory perm ns"
      using like_directory [OF Suc.prems(5)] by (cases e) auto
    note files = alike_files [OF v'(2)] and same = project_parts(3) [OF project]
    have names: "walk_names h inspect root fuel path (filter (\<lambda>n. fs (resolve h (path_join path n)) \<noteq> None) (sort ns))
        (st2\<lparr>wk_world := tick (wk_world st2)\<rparr>) = (sig, st1)"
      using Suc.prems(6) v True e files Suc.prems(3)
      by (simp add: walk_dir.simps quiet_calls(4) [OF project_parts(1) [OF project]] sort_names del: walk_names.simps)
    have below: "\<exists>y'. walk_dir h' inspect root fuel (path_join path n) n a' x' = (sig', y') \<and> alike h fs fs' y y'"
      if "alike h fs fs' x x'" "fs (resolve h (path_join path n)) = Some a" "fs' (resolve h (path_join path n)) = Some a'"
        "like_entry a a'" "walk_dir h inspect root fuel (path_join path n) n a x = (sig', y)" for n a a' x x' sig' y
      by (rule Suc.IH [OF that(1) disjI2 [OF refl] that(2-5)])
    have "\<exists>st1'. walk_names h' inspect root fuel path (filter (\<lambda>n. fs' (resolve h (path_join path n)) \<noteq> None) (sort ns))
        (st2'\<lparr>wk_world := tick (wk_world st2')\<rparr>) = (sig, st1') \<and> alike h fs fs' st1 st1'"
      by (rule alike_names [OF project _ alike_tick [OF v'(2)] names]) (rule below; assumption)
    then show ?thesis
      using v' True e files Suc.prems(4) same
      by (simp add: walk_dir.simps quiet_calls(4) [OF project_parts(2) [OF project]] sort_names del: walk_names.simps)
  qed
qed

subsection \<open>Errors stay\<close>

definition failing :: "walk_state \<Rightarrow> bool" where
  "failing st = has_errors (wk_diagnostics st)"

lemma failing_world [simp]: "failing (st\<lparr>wk_world := w\<rparr>) = failing st"
  by (simp add: failing_def)

lemma failing_add [simp]: "failing (add_diagnostic d st) = (failing st \<or> is_error d)"
  by (simp add: failing_def add_diagnostic_def)

lemma failing_source: "failing st \<Longrightarrow> failing (add_source h path st)"
  by (simp add: add_source_def failing_def add_diagnostic_def split: sum.split)

lemma markers_failing: "check_markers h path ms st = (sig, st') \<Longrightarrow> failing st \<Longrightarrow> failing st'"
  by (induction h path ms st rule: check_markers.induct) (auto split: prod.splits sum.splits if_splits)

lemma directory_failing: "check_directory h root path st = (sig, st') \<Longrightarrow> failing st \<Longrightarrow> failing st'"
  by (auto simp: check_directory_def check_module_def Let_def split: prod.splits sum.splits if_splits walk_signal.splits
      dest: markers_failing [OF _ failing_world [THEN iffD2]])

lemma visit_failing: "visit_entry h inspect root path name entry err st = (sig, st') \<Longrightarrow> failing st \<Longrightarrow> failing st'"
  by (auto simp: visit_entry_def visit_generated_def visit_source_def Let_def failing_source
      split: prod.splits option.splits if_splits sum.splits dest: directory_failing [OF _ failing_world [THEN iffD2]])

lemma walk_failing:
  shows "walk_dir h inspect root fuel path name entry st = (sig, st') \<Longrightarrow> failing st \<Longrightarrow> failing st'"
    and "walk_names h inspect root fuel path names st = (sig, st') \<Longrightarrow> failing st \<Longrightarrow> failing st'"
proof (induction h inspect root fuel path name entry st and h inspect root fuel path names st
    arbitrary: sig st' and sig st' rule: walk_dir_walk_names.induct)
  case (1 h inspect root fuel path name entry st)
  then show ?case
    by (simp add: walk_dir.simps Let_def split: prod.splits walk_signal.splits if_splits nat.splits sum.splits)
      (auto dest: visit_failing intro: visit_failing [OF _ failing_world [THEN iffD2]])
next
  case (2 h inspect root fuel path st)
  then show ?case by simp
next
  case (3 h inspect root fuel path n ns st)
  then show ?case by (auto split: prod.splits walk_signal.splits option.splits)
qed

lemma tree_failing: "walk_tree h inspect root st = (sig, st') \<Longrightarrow> failing st \<Longrightarrow> failing st'"
  by (auto simp: walk_tree_def Let_def split: prod.splits sum.splits if_splits
      intro: visit_failing [OF _ failing_world [THEN iffD2]] walk_failing(1) [OF _ failing_world [THEN iffD2]])

lemma path_failing: "failing st \<Longrightarrow> failing (discover_path h inspect q st)"
  by (auto simp: discover_path_def Let_def failing_source split: prod.splits sum.splits option.splits
      dest: tree_failing [OF _ failing_world [THEN iffD2]])

lemma paths_failing: "failing st \<Longrightarrow> failing (discover_paths h inspect qs st)"
  by (induction h inspect qs st rule: discover_paths.induct) (auto simp: path_failing split: prod.splits option.splits)

subsection \<open>Discovery finds the same\<close>

lemma alike_symlinks:
  assumes project: "same_project h h' fs fs'"
  shows "symlink_loop h current cs w = (Inr [], w1) \<Longrightarrow> w_files w = fs \<Longrightarrow> w_files w' = fs' \<Longrightarrow>
   \<exists>w1'. symlink_loop h' current cs w' = (Inr [], w1') \<and> w_files w1' = fs'"
proof (induction cs arbitrary: current w w')
  case Nil
  then show ?case by simp
next
  case (Cons c cs)
  let ?p = "path_join current c"
  show ?case
  proof (cases "c = []")
    case True
    then show ?thesis using Cons by simp
  next
    case False
    note calls = project_lstat [OF project Cons.prems(2,3), of ?p]
    obtain e where e: "fs (resolve h ?p) = Some e"
      using Cons.prems(1) False by (auto simp: calls Let_def split: option.splits)
    obtain e' where e': "fs' (resolve h ?p) = Some e'" "like_entry e e'"
      using added_entry [OF project_parts(5) [OF project] e] by blast
    have "is_symlink e = False"
    proof (rule ccontr)
      assume "is_symlink e \<noteq> False"
      then have "?p = []" using Cons.prems(1) False e by (auto simp: calls Let_def)
      then show False using False path_clean_nonempty by (simp add: path_join_def split: if_splits)
    qed
    then show ?thesis
      using Cons.IH [of ?p "tick w" "tick w'"] Cons.prems False e e' like_kinds(3) [OF e'(2)] by (auto simp: calls Let_def)
  qed
qed

lemma alike_tree:
  assumes project: "same_project h h' fs fs'" and alike: "alike h fs fs' st st'"
    and entry: "fs (resolve h root) = Some e" "is_directory e" and run: "walk_tree h inspect root st = (sig, st1)"
  shows "\<exists>st1'. walk_tree h' inspect root st' = (sig, st1') \<and> alike h fs fs' st1 st1'"
proof -
  note files = alike_files [OF alike]
  note here = project_lstat [OF project conjunct1 [OF files] conjunct2 [OF files], of root]
  obtain e' where e': "fs' (resolve h root) = Some e'" "like_entry e e'"
    using added_entry [OF project_parts(5) [OF project] entry(1)] by blast
  obtain s st2 where w: "walk_dir h inspect root 4096 root (path_base root) e (st\<lparr>wk_world := tick (wk_world st)\<rparr>) = (s, st2)"
    by fastforce
  obtain st2' where "walk_dir h' inspect root 4096 root (path_base root) e' (st'\<lparr>wk_world := tick (wk_world st')\<rparr>) = (s, st2')"
      "alike h fs fs' st2 st2'"
    using alike_walk [OF project alike_tick [OF alike] disjI1 [OF entry(2)] entry(1) e' w] by blast
  then show ?thesis using run w entry e' by (auto simp: walk_tree_def here Let_def)
qed

lemma alike_path:
  assumes project: "same_project h h' fs fs'" and alike: "alike h fs fs' st st'"
    and ok: "\<not> failing (discover_path h inspect q st)"
  shows "alike h fs fs' (discover_path h inspect q st) (discover_path h' inspect q st')"
proof -
  let ?clean = "path_clean q"
  note files = alike_files [OF alike]
  obtain r w where f: "first_symlink_component h ?clean (wk_world st) = (r, w)" by fastforce
  have r: "r = Inr []"
    using ok f by (auto simp: discover_path_def Let_def split: sum.splits if_splits)
  have w: "w_files w = fs" using first_symlink_ok [OF f] files by auto
  obtain w' where w': "first_symlink_component h' ?clean (wk_world st') = (Inr [], w')" "w_files w' = fs'"
    using alike_symlinks [OF project, of "''/''" _ "wk_world st" w "wk_world st'"] f r files
    by (auto simp: first_symlink_component_def quiet_calls(3) [OF project_parts(1) [OF project]]
        quiet_calls(3) [OF project_parts(2) [OF project]] project_parts(3) [OF project])
  note here = project_lstat [OF project w w'(2), of ?clean]
  have alike1: "alike h fs fs' (st\<lparr>wk_world := tick w\<rparr>) (st'\<lparr>wk_world := tick w'\<rparr>)"
    by (rule alike_world [OF alike]) (simp_all add: w w')
  obtain e where e: "fs (resolve h ?clean) = Some e" "\<not> is_symlink e"
    using ok f r by (auto simp: discover_path_def Let_def here split: option.splits if_splits)
  obtain e' where e': "fs' (resolve h ?clean) = Some e'" "like_entry e e'"
    using added_entry [OF project_parts(5) [OF project] e(1)] by blast
  note kinds = like_kinds [OF e'(2)]
  show ?thesis
  proof (cases "is_directory e")
    case False
    then have "path_ext ?clean = ''.sando''"
      using ok f r e by (auto simp: discover_path_def Let_def here split: if_splits)
    then show ?thesis
      using f r w' e e' kinds False alike_source [OF project alike1] by (simp add: discover_path_def Let_def here)
  next
    case True
    obtain s st2 where t: "walk_tree h inspect ?clean (st\<lparr>wk_world := tick w\<rparr>) = (s, st2)" by fastforce
    obtain st2' where t': "walk_tree h' inspect ?clean (st'\<lparr>wk_world := tick w'\<rparr>) = (s, st2')" "alike h fs fs' st2 st2'"
      using alike_tree [OF project alike1 e(1) True t] by blast
    show ?thesis
      using f r w' e e' kinds True t t' alike_tick [OF t'(2)]
      by (simp add: discover_path_def Let_def here quiet_calls(2) [OF project_parts(1) [OF project]]
          quiet_calls(2) [OF project_parts(2) [OF project]])
  qed
qed

lemma alike_paths:
  assumes project: "same_project h h' fs fs'"
  shows "alike h fs fs' st st' \<Longrightarrow> \<not> failing (discover_paths h inspect qs st) \<Longrightarrow>
   alike h fs fs' (discover_paths h inspect qs st) (discover_paths h' inspect qs st')"
proof (induction qs arbitrary: st st')
  case (Cons q qs)
  let ?st = "discover_path h inspect q (st\<lparr>wk_world := tick (wk_world st)\<rparr>)"
  have rest: "\<not> failing (discover_paths h inspect qs ?st)"
    using Cons.prems(2) by (simp add: quiet_calls(2) [OF project_parts(1) [OF project]])
  then have "\<not> failing ?st" using paths_failing by blast
  then have "alike h fs fs' ?st (discover_path h' inspect q (st'\<lparr>wk_world := tick (wk_world st')\<rparr>))"
    by (rule alike_path [OF project alike_tick [OF Cons.prems(1)]])
  then show ?case
    using Cons.IH [OF _ rest] by (simp add: quiet_calls(2) [OF project_parts(1) [OF project]]
        quiet_calls(2) [OF project_parts(2) [OF project]])
qed simp

lemma discover_same:
  assumes project: "same_project h h' (w_files w) fs'" and w': "w_files w' = fs'"
    and run: "discover h paths w = ((found, ds), w1)" and ok: "\<not> has_errors ds"
  shows "\<exists>w1'. discover h' paths w' = ((found, ds), w1') \<and> w_files w1' = fs'"
proof -
  let ?paths = "if paths = [] then [''.''] else paths"
  define st where "st = discover_paths h True ?paths \<lparr>wk_world = w, wk_found = [], wk_diagnostics = []\<rparr>"
  define st' where "st' = discover_paths h' True ?paths \<lparr>wk_world = w', wk_found = [], wk_diagnostics = []\<rparr>"
  have absolutes: "absolute_or_empty h' = absolute_or_empty h"
    by (rule ext) (simp add: absolute_or_empty_def quiet_calls(3) [OF project_parts(1) [OF project]]
        quiet_calls(3) [OF project_parts(2) [OF project]] project_parts(3) [OF project])
  have ds: "ds = sort_diagnostics (wk_diagnostics st)"
    using run by (auto simp: discover_def discover_with_options_def Let_def st_def)
  then have "\<not> failing st" using ok by (simp add: failing_def)
  then have "alike h (w_files w) fs' st st'"
    unfolding st_def st'_def by (intro alike_paths [OF project]) (simp_all add: alike_def walk_ok_def w')
  then show ?thesis
    using run absolutes by (auto simp: discover_def discover_with_options_def Let_def st_def [symmetric] st'_def [symmetric] alike_def)
qed

subsection \<open>The sources compile to the same\<close>

lemma same_module_loop:
  assumes project: "same_project h h' fs fs'"
  shows "w_files w = fs \<Longrightarrow> w_files w' = fs' \<Longrightarrow> fst (module_loop h' a fuel dir w') = fst (module_loop h a fuel dir w)"
proof (induction fuel arbitrary: dir w w')
  case (Suc fuel)
  have same: "fs' (resolve h (path_join dir ''go.mod'')) = fs (resolve h (path_join dir ''go.mod''))"
    by (rule added_other [OF project_parts(5) [OF project]]) (rule marker_key, simp)
  show ?case
    using Suc.IH [of "tick w" "tick w'" "path_dir dir"] Suc.prems
    by (auto simp: project_lstat [OF project Suc.prems] same Let_def split: option.split)
qed simp

lemma same_module_path:
  assumes project: "same_project h h' fs fs'" and "w_files w = fs" "w_files w' = fs'"
  shows "fst (module_relative_source_path h' path w') = fst (module_relative_source_path h path w)"
proof -
  let ?a = "resolve h path"
  obtain x w1 where x: "module_loop h ?a (length ?a + 1) (path_dir ?a) w = (x, w1)" by fastforce
  obtain w1' where "module_loop h' ?a (length ?a + 1) (path_dir ?a) w' = (x, w1')"
    using same_module_loop [OF assms, of ?a "length ?a + 1" "path_dir ?a"] x
    by (cases "module_loop h' ?a (length ?a + 1) (path_dir ?a) w'") simp
  then show ?thesis
    using x by (simp add: module_relative_source_path_def quiet_calls(3) [OF project_parts(1) [OF project]]
        quiet_calls(3) [OF project_parts(2) [OF project]] project_parts(3) [OF project] split: option.split)
qed

lemma same_compile_source:
  assumes project: "same_project h h' fs fs'" and files: "w_files w = fs" "w_files w' = fs'" and source: "has_suffix ''.sando'' p"
  shows "fst (compile_source h' env p w') = fst (compile_source h env p w)"
proof -
  have same: "fs' (resolve h p) = fs (resolve h p)"
    by (rule added_source [OF project_parts(5) [OF project]]) (rule path_key [OF source], auto)
  note here = project_lstat [OF project files, of p]
  show ?thesis
  proof (cases "fs (resolve h p)")
    case None
    then show ?thesis by (simp add: compile_source_def here same)
  next
    case (Some e)
    show ?thesis
    proof (cases e)
      case (RegularFile perm content)
      have read: "read_file h p (tick w) = (Inr content, tick (tick w))" "read_file h' p (tick w') = (Inr content, tick (tick w'))"
        using project files Some RegularFile same project_parts(3) [OF project]
        by (simp_all add: read_file_def same_project_def quiet_host_def follow_forty)
      obtain m w1 where m: "module_relative_source_path h p (tick (tick w)) = (m, w1)" by fastforce
      obtain w1' where "module_relative_source_path h' p (tick (tick w')) = (m, w1')"
        using same_module_path [OF project, of "tick (tick w)" "tick (tick w')" p] files m
        by (cases "module_relative_source_path h' p (tick (tick w'))") simp
      then show ?thesis
        using Some RegularFile m by (simp add: compile_source_def here same read split: prod.split)
    qed (simp_all add: compile_source_def here same Some unsuitable_def)
  qed
qed

lemma compile_source_files: "w_files (snd (compile_source h env p w)) = w_files w"
proof -
  obtain l w1 where l: "lstat h p w = (l, w1)" by fastforce
  obtain q w2 where q: "read_file h p w1 = (q, w2)" by fastforce
  obtain mp w3 where mp: "module_relative_source_path h p w2 = (mp, w3)" by fastforce
  have "w_files w1 = w_files w" "w_files w2 = w_files w" "w_files w3 = w_files w"
    using lstat_same [OF l] read_file_same [OF q] module_path_files [of h p w2] mp by auto
  then show ?thesis using l q mp by (auto simp: compile_source_def split: sum.splits if_splits prod.splits)
qed

lemma same_compile_sources:
  assumes project: "same_project h h' fs fs'"
  shows "w_files w = fs \<Longrightarrow> w_files w' = fs' \<Longrightarrow> list_all (has_suffix ''.sando'') ps \<Longrightarrow>
   fst (compile_sources h' env ps w') = fst (compile_sources h env ps w)"
proof (induction ps arbitrary: w w')
  case (Cons p ps)
  obtain out ds w1 where c: "compile_source h env p (tick w) = ((out, ds), w1)" by (metis prod_cases3 prod.collapse)
  obtain w1' where c': "compile_source h' env p (tick w') = ((out, ds), w1')"
    using same_compile_source [OF project, of "tick w" "tick w'" p env] Cons.prems c
    by (cases "compile_source h' env p (tick w')") simp
  have "w_files w1 = fs" "w_files w1' = fs'"
    using compile_source_files [of h env p "tick w"] compile_source_files [of h' env p "tick w'"] c c' Cons.prems by simp_all
  then have rest: "fst (compile_sources h' env ps w1') = fst (compile_sources h env ps w1)"
    using Cons.IH Cons.prems(3) by simp
  obtain outs ds2 w2 where r: "compile_sources h env ps w1 = ((outs, ds2), w2)" by (metis prod_cases3 prod.collapse)
  obtain w2' where "compile_sources h' env ps w1' = ((outs, ds2), w2')"
    using rest r by (cases "compile_sources h' env ps w1'") simp
  then show ?case
    using c c' r by (simp add: quiet_calls(2) [OF project_parts(1) [OF project]] quiet_calls(2) [OF project_parts(2) [OF project]])
qed simp

lemma requested_suffix: "requested_source h fs q p \<Longrightarrow> has_suffix ''.sando'' p"
proof -
  assume req: "requested_source h fs q p"
  show ?thesis
  proof (cases "p = path_clean q \<and> path_ext p = ''.sando''")
    case True
    then show ?thesis using path_ext_suffix by blast
  next
    case False
    then obtain dir name where p: "p = path_join dir name" "path_ext name = ''.sando''"
      using req by (auto simp: requested_source_def walk_source_def listed_def split: if_splits)
    obtain c where c: "base_end c name" "has_suffix ''.sando'' c"
      using key_ending [OF path_ext_suffix [OF p(2)]] by auto
    show ?thesis unfolding p(1) by (rule base_end_suffix [OF base_end_join [OF c(1)] c(2)])
  qed
qed

lemma same_operation:
  assumes project: "same_project h h' (w_files w) fs'" and w': "w_files w' = fs'"
    and run: "compile_operation h env parse paths w = (result, w1)" and ok: "\<not> has_errors (op_diagnostics (snd result))"
  shows "\<exists>w1'. compile_operation h' env parse paths w' = (result, w1') \<and> w_files w1' = fs'"
proof -
  obtain found fds w2 where d: "discover h paths w = ((found, fds), w2)" by (metis prod_cases3 prod.collapse)
  obtain outs ds w3 where c: "compile_sources h env found w2 = ((outs, ds), w3)" by (metis prod_cases3 prod.collapse)
  have "\<not> has_errors fds" using run ok d c by (auto simp: compile_operation_def)
  then obtain w2' where d': "discover h' paths w' = ((found, fds), w2')" "w_files w2' = fs'"
    using discover_same [OF project w' d] by blast
  note disc = discover_result [OF d [unfolded discover_def]]
  have "list_all (has_suffix ''.sando'') found" using disc requested_suffix by (auto simp: list_all_iff)
  then have "fst (compile_sources h' env found w2') = (outs, ds)"
    using same_compile_sources [OF project _ d'(2), of w2 found env] disc c by simp
  then obtain w3' where "compile_sources h' env found w2' = ((outs, ds), w3')"
    by (cases "compile_sources h' env found w2'") simp
  then have op: "compile_operation h' env parse paths w' = (result, w3')"
    using run d c d' by (auto simp: compile_operation_def)
  then have "w_files w3' = fs'" using compile_operation_ok(1) [of h' env parse paths w'] w' by (metis prod.collapse)
  then show ?thesis using op by blast
qed

subsection \<open>The property\<close>

text \<open>The two loops change the flags of the file results only.\<close>

lemma map_update_same: "f (g (xs ! i)) = f (xs ! i) \<Longrightarrow> map f (xs[i := g (xs ! i)]) = map f xs"
  by (cases "i < length xs") (simp_all add: map_update list_update_same_conv list_update_beyond)

lemma write_outputs_paths:
  "map result_source_path (op_files (fst (write_outputs h i cs r w))) = map result_source_path (op_files r)"
proof (induction cs arbitrary: i r w)
  case (Cons c cs)
  have flags: "map result_source_path ((op_files r)[i := (op_files r ! i)\<lparr>result_changed := b\<rparr>]) = map result_source_path (op_files r)"
    for b by (rule map_update_same [where g = "\<lambda>x. x\<lparr>result_changed := b\<rparr>"]) simp
  show ?case by (auto simp: Cons.IH flags split: prod.split option.split bool.split)
qed simp

lemma check_outputs_paths:
  "map result_source_path (op_files (fst (check_outputs h i cs r w))) = map result_source_path (op_files r)"
proof (induction cs arbitrary: i r w)
  case (Cons c cs)
  have "map result_source_path ((op_files r)[i := (op_files r ! i)\<lparr>result_missing := b\<rparr>]) = map result_source_path (op_files r)"
    "map result_source_path ((op_files r)[i := (op_files r ! i)\<lparr>result_stale := b\<rparr>]) = map result_source_path (op_files r)"
    for b
    using map_update_same [where g = "\<lambda>x. x\<lparr>result_missing := b\<rparr>" and f = result_source_path]
      map_update_same [where g = "\<lambda>x. x\<lparr>result_stale := b\<rparr>" and f = result_source_path] by simp_all
  then have "map result_source_path (op_files (record_status i s r)) = map result_source_path (op_files r)" for s
    by (cases s) (simp_all add: record_status_def)
  then show ?case by (auto simp: Cons.IH split: prod.split option.split)
qed simp

lemma generate_paths:
  assumes "compile_operation h env parse paths w = ((compiled, r0), w0)" and "generate h env parse paths w = ((r, err), w')"
  shows "map result_source_path (op_files r) = map result_source_path (op_files r0)"
proof -
  have "map result_source_path (op_files (fst (generate_compiled h compiled r0 w0))) = map result_source_path (op_files r0)"
    using write_outputs_paths [of h 0 compiled] by (auto simp: generate_compiled_def sort_result_def Let_def split: prod.split) (metis fst_conv operation_result.select_convs(1) operation_result.surjective operation_result.update_convs(2))
  then show ?thesis using generate_parts [OF assms] by simp
qed

lemma check_paths:
  assumes "compile_operation h env parse paths w = ((compiled, r0), w0)" and "check h env parse paths w = ((r, err), w')"
  shows "map result_source_path (op_files r) = map result_source_path (op_files r0)"
proof -
  have "map result_source_path (op_files (fst (check_compiled h compiled r0 w0))) = map result_source_path (op_files r0)"
    using check_outputs_paths [of h 0 compiled r0 w0] by (auto simp: check_compiled_def sort_result_def split: prod.split)
  then show ?thesis using check_parts [OF assms] by simp
qed

lemma generated_project:
  assumes op: "compile_operation h env parse paths w = ((compiled, r0), w0)"
    and run: "generate h env parse paths w = ((r, None), w')"
  shows "outputs_added (w_files w) (w_files w')"
  unfolding outputs_added_def
proof (intro allI disjCI)
  fix k
  note comp = compile_operation_ok [OF op] and gen = generate_result [OF op run]
  assume "\<not> (\<exists>s. k = s @ ''.go'' \<and> has_suffix ''.sando'' s \<and> (\<exists>perm content. w_files w s = Some (RegularFile perm content))
      \<and> owned_or_absent (w_files w k) \<and> (\<exists>perm content. w_files w' k = Some (RegularFile perm content)))"
  moreover have "w_files w' k = w_files w k \<or> (\<exists>c\<in>set compiled. k = output_key h c \<and> replaced_output c (w_files w k) (w_files w' k))"
    using gen(1) by (auto simp: generate_effect_def)
  moreover have "\<exists>s. k = s @ ''.go'' \<and> has_suffix ''.sando'' s \<and> (\<exists>perm content. w_files w s = Some (RegularFile perm content))
      \<and> owned_or_absent (w_files w k) \<and> (\<exists>perm content. w_files w' k = Some (RegularFile perm content))"
    if c: "c \<in> set compiled" "k = output_key h c" "replaced_output c (w_files w k) (w_files w' k)" for c
  proof -
    obtain q where q: "requested_source h (w_files w) q (compiled_source_path c)" and made: "compiled_from h env (w_files w) c"
      and path: "compiled_output_path c = compiled_source_path c @ ''.go''"
      using comp(3) c(1) by auto
    have "k = resolve h (compiled_source_path c) @ ''.go''"
      using source_output_key [OF requested_clean [OF q]] c(2) path by simp
    moreover have "has_suffix ''.sando'' (resolve h (compiled_source_path c))"
      by (rule path_key [OF requested_suffix [OF q]]) auto
    moreover have "owned_or_absent (w_files w k)" using gen(2) c by auto
    ultimately show ?thesis using made c(3) by (auto simp: compiled_from_def replaced_output_def)
  qed
  ultimately show "w_files w' k = w_files w k" by blast
qed

text \<open>
  C26: What Generate wrote, Check accepts. When no call fails, a Check of the same paths after a Generate
  that returned no error, on the files as Generate left them, returns no error either: its discovery finds
  the same sources although their outputs are there now (and takes none of them for an orphan), every
  source compiles to the same code, and every output counts as unchanged, none as missing or stale. The
  files stay as they are.
\<close>
theorem generate_then_check:
  assumes "quiet_host h" and "generate h env parse paths w = ((r, None), w')"
    and "quiet_host h'" and "host_dir h' = host_dir h" and "host_system h' = host_system h"
    and "w_files w1 = w_files w'" and "check h' env parse paths w1 = ((r2, err), w2)"
  shows "err = None \<and> map result_source_path (op_files r2) = map result_source_path (op_files r)
    \<and> op_unchanged r2 = length (op_files r2) \<and> op_missing r2 = 0 \<and> op_stale r2 = 0
    \<and> w_files w2 = w_files w'"
proof -
  obtain compiled r0 w0 where op: "compile_operation h env parse paths w = ((compiled, r0), w0)" by (metis prod_cases3 prod.collapse)
  note gen = generate_result [OF op assms(2)]
  have project: "same_project h h' (w_files w) (w_files w')"
    using generated_project [OF op assms(2)] assms by (simp add: same_project_def)
  have ok: "\<not> has_errors (op_diagnostics r0)" using gen(2) by blast
  then obtain w3 where op2: "compile_operation h' env parse paths w1 = ((compiled, r0), w3)" "w_files w3 = w_files w'"
    using same_operation [OF project assms(6) op] by auto
  note comp = compile_operation_ok [OF op] and run = check_parts [OF op2(1) assms(7)]
  note quiet = quiet_check_compiled [OF assms(3) run(1) ok refl]
  have fresh: "fresh_output c (w_files w3 (output_key h' c))" if "c \<in> set compiled" for c
    using gen(3) that op2(2) by (simp add: project_parts(3) [OF project])
  let ?ss = "map (\<lambda>c. expected_status c (w_files w3 (output_key h' c))) compiled"
  have all: "?ss = replicate (length compiled) StatusFresh"
    using fresh by (simp add: expected_fresh map_replicate_const [symmetric])
  have "err = None" using run(2) quiet(1) fresh by simp
  moreover have "op_unchanged r2 = length compiled \<and> op_missing r2 = 0 \<and> op_stale r2 = 0"
    using quiet(3-5) comp(5-8) unfolding all by simp
  moreover have "w_files w2 = w_files w'" using check_compiled_files [of h' compiled r0 w3] run(1) op2(2) by simp
  moreover have "map result_source_path (op_files r2) = map result_source_path (op_files r)"
    using generate_paths [OF op assms(2)] check_paths [OF op2(1) assms(7)] by simp
  moreover from this have "length (op_files r2) = length compiled"
    using generate_paths [OF op assms(2)] comp(4) by (metis length_map)
  ultimately show ?thesis by simp
qed

theorem generate_then_check_witness:
  "\<exists>r w' r2 w2. generate sample_host sample_backend (\<lambda>_. None) [] sample_project = ((r, None), w')
     \<and> check sample_host sample_backend (\<lambda>_. None) [] w' = ((r2, None), w2)
     \<and> op_unchanged r2 = 1 \<and> op_missing r2 = 0 \<and> op_stale r2 = 0"
proof -
  obtain c r0 w0 r w' where op: "compile_operation sample_host sample_backend (\<lambda>_. None) [] sample_project = (([c], r0), w0)"
    and g: "generate sample_host sample_backend (\<lambda>_. None) [] sample_project = ((r, None), w')"
    using sample_generate by blast
  obtain r2 err w2 where ch: "check sample_host sample_backend (\<lambda>_. None) [] w' = ((r2, err), w2)" by (metis prod_cases3 prod.collapse)
  note same = generate_then_check [OF sample_quiet g sample_quiet refl refl refl ch]
  have "length (op_files r2) = 1"
    using same generate_paths [OF op g] compile_operation_ok(4) [OF op] by (metis length_map length_Cons list.size(3) One_nat_def)
  then show ?thesis using same g ch by simp
qed

end
