(* ===== verification/Lsp_Positions.thy ===== *)
theory Lsp_Positions
  imports Source_Positions Diagnostics
begin
section \<open>Positions of the language server: internal/lsp/workspace.go\<close>

text \<open>
  The protocol counts lines and UTF-16 code units from zero, the compiler bytes. Here are the three
  conversions and the range of a diagnostic, and that they fit together: offsets and positions are
  inverse to each other, and a diagnostic is shown at the place the compiler found it.
\<close>

record lsp_position =
  lp_line :: int
  lp_character :: int

record lsp_range =
  lr_start :: lsp_position
  lr_end :: lsp_position

record lsp_diagnostic =
  ld_range :: lsp_range
  ld_severity :: nat
  ld_code :: bytes
  ld_source :: bytes
  ld_message :: bytes

definition utf16_units :: "nat \<Rightarrow> nat" where
  \<comment> \<open>\<open>len(utf16.Encode([]rune{r}))\<close>\<close>
  "utf16_units r = (if 65536 \<le> r \<and> r < 1114112 then 2 else 1)"

lemma decode_rune_positive: "(r, width) = decode_rune (b # s) \<Longrightarrow> 0 < width"
  using decode_rune_size_pos [of "b # s"] by (metis list.distinct(1) snd_conv)

text \<open>The loop of \<open>offsetToPosition\<close>: how far the offset is ahead, the text from the index on.\<close>

function offset_loop :: "nat \<Rightarrow> bytes \<Rightarrow> nat \<Rightarrow> nat \<Rightarrow> nat \<times> nat" where
  "offset_loop ahead [] line character = (line, character)"
| "offset_loop ahead (b # s) line character =
     (if ahead = 0 then (line, character)
      else if b = LF then offset_loop (ahead - 1) s (line + 1) 0
      else (case decode_rune (b # s) of (r, width) \<Rightarrow>
        if r = rune_error \<and> width = 1 then offset_loop (ahead - 1) s line (character + 1)
        else offset_loop (ahead - width) (drop width (b # s)) line (character + utf16_units r)))"
  by pat_completeness auto
termination offset_loop
  by (relation "measure (\<lambda>(ahead, s, line, character). length s)") (auto dest: decode_rune_positive)

declare offset_loop.simps(2) [simp del]

definition clamp_offset :: "bytes \<Rightarrow> int \<Rightarrow> nat" where
  "clamp_offset content offset = nat (min (max offset 0) (int (length content)))"

definition offset_to_position :: "bytes \<Rightarrow> int \<Rightarrow> lsp_position" where
  "offset_to_position content offset =
     (case offset_loop (clamp_offset content offset) content 0 0 of (line, character) \<Rightarrow>
        \<lparr>lp_line = int line, lp_character = int character\<rparr>)"

text \<open>\<open>positionToOffset\<close>: to the start of the line (lines left, text left, index), then along it.\<close>

fun find_line :: "nat \<Rightarrow> bytes \<Rightarrow> nat \<Rightarrow> nat \<times> bytes \<times> nat" where
  "find_line 0 s start = (0, s, start)"
| "find_line (Suc n) [] start = (Suc n, [], start)"
| "find_line (Suc n) (b # s) start = find_line (if b = LF then n else Suc n) s (start + 1)"

text \<open>The loop over the line: \<open>Inl\<close> is a return in it, \<open>Inr\<close> the units at its end.\<close>

function unit_loop :: "nat \<Rightarrow> nat \<Rightarrow> bytes \<Rightarrow> nat \<Rightarrow> nat option + nat" where
  "unit_loop wanted units [] index = Inr units"
| "unit_loop wanted units (b # s) index =
     (if b = LF then Inr units
      else if units = wanted then Inl (Some index)
      else (case decode_rune (b # s) of (r, width) \<Rightarrow>
        let units' = (if r = rune_error \<and> width = 1 then units + 1 else units + utf16_units r);
            step = (if r = rune_error \<and> width = 1 then 1 else width)
        in if wanted < units' then Inl None
           else unit_loop wanted units' (drop step (b # s)) (index + step)))"
  by pat_completeness auto
termination unit_loop
  by (relation "measure (\<lambda>(wanted, units, s, index). length s)") (auto dest: decode_rune_positive)

declare unit_loop.simps(2) [simp del]

definition position_to_offset :: "bytes \<Rightarrow> lsp_position \<Rightarrow> nat option" where
  \<comment> \<open>\<open>None\<close> is the result \<open>false\<close>\<close>
  "position_to_offset content position =
     (if lp_line position < 0 \<or> lp_character position < 0 then None
      else (case find_line (nat (lp_line position)) content 0 of (missing, rest, start) \<Rightarrow>
        if missing \<noteq> 0 then None
        else (case unit_loop (nat (lp_character position)) 0 rest start of
            Inl result \<Rightarrow> result
          | Inr units \<Rightarrow>
              (if units = nat (lp_character position)
               then Some (start + length (takeWhile (\<lambda>b. b \<noteq> LF) rest)) else None))))"

text \<open>\<open>compilerPositionOffset\<close>; \<open>None\<close> is the early return of the length.\<close>

fun skip_lines :: "nat \<Rightarrow> bytes \<Rightarrow> nat option" where
  "skip_lines 0 s = Some 0"
| "skip_lines (Suc n) s =
     (if s = [] then Some 0
      else (case index_byte LF s of
          None \<Rightarrow> None
        | Some newline \<Rightarrow> map_option ((+) (newline + 1)) (skip_lines n (drop (newline + 1) s))))"

definition compiler_position_offset :: "bytes \<Rightarrow> nat \<Rightarrow> nat \<Rightarrow> nat" where
  "compiler_position_offset content line column =
     (case skip_lines (max line 1 - 1) content of
        None \<Rightarrow> length content
      | Some start \<Rightarrow> min (start + max column 1 - 1) (length content))"

definition rune_end :: "bytes \<Rightarrow> nat \<Rightarrow> nat" where
  \<comment> \<open>\<open>runeEnd\<close>, and the same steps in \<open>diagnosticToLSP\<close>\<close>
  "rune_end content offset =
     (if length content \<le> offset then length content
      else offset + max 1 (snd (decode_rune (drop offset content))))"

definition diagnostic_to_lsp :: "bytes \<Rightarrow> diagnostic \<Rightarrow> lsp_diagnostic" where
  "diagnostic_to_lsp content d =
     (let start = compiler_position_offset content (diag_line d) (diag_column d);
          stop = (if start < length content then start + max 1 (snd (decode_rune (drop start content))) else start)
      in \<lparr>ld_range = \<lparr>lr_start = offset_to_position content (int start), lr_end = offset_to_position content (int stop)\<rparr>,
          ld_severity = (if diag_severity d = severity_warning then 2 else 1),
          ld_code = diag_code d, ld_source = ''himesan'', ld_message = diag_message d\<rparr>)"

declare utf16_units_def [go_eval] offset_loop.simps(2) [go_eval] clamp_offset_def [go_eval]
  offset_to_position_def [go_eval] unit_loop.simps(2) [go_eval] position_to_offset_def [go_eval]
  compiler_position_offset_def [go_eval] rune_end_def [go_eval] diagnostic_to_lsp_def [go_eval]

subsection \<open>Positions and offsets are inverse\<close>

lemma rune_induct [case_names Nil newline rune]:
  assumes "P []" and "\<And>s. P s \<Longrightarrow> P (LF # s)"
    and "\<And>b s r width. b \<noteq> LF \<Longrightarrow> decode_rune (b # s) = (r, width) \<Longrightarrow> 0 < width \<Longrightarrow>
      P (drop width (b # s)) \<Longrightarrow> P (b # s)"
  shows "P s"
proof (induction "length s" arbitrary: s rule: less_induct)
  case less
  show ?case
  proof (cases s)
    case Nil
    then show ?thesis using assms(1) by simp
  next
    case (Cons b t)
    obtain r width where d: "decode_rune (b # t) = (r, width)" by fastforce
    have w: "0 < width" using decode_rune_positive [OF d [symmetric]] .
    show ?thesis
    proof (cases "b = LF")
      case True
      then show ?thesis using assms(2) [of t] less [of t] Cons by simp
    next
      case False
      have "P (drop width (b # t))" by (rule less) (use w Cons in simp)
      then show ?thesis using assms(3) [OF False d w] Cons by simp
    qed
  qed
qed

lemma utf16_units_pos [simp]: "0 < utf16_units r"
  by (simp add: utf16_units_def)

lemma utf16_units_error [simp]: "utf16_units rune_error = 1"
  by (simp add: utf16_units_def rune_error_def)

lemma offset_loop_done [simp]: "offset_loop 0 s line character = (line, character)"
  by (cases s) (simp_all add: offset_loop.simps)

lemma offset_loop_newline: "0 < ahead \<Longrightarrow> offset_loop ahead (LF # s) line character = offset_loop (ahead - 1) s (line + 1) 0"
  by (simp add: offset_loop.simps)

lemma offset_loop_rune:
  "0 < ahead \<Longrightarrow> b \<noteq> LF \<Longrightarrow> decode_rune (b # s) = (r, width) \<Longrightarrow>
   offset_loop ahead (b # s) line character
   = offset_loop (ahead - width) (drop width (b # s)) line (character + utf16_units r)"
  by (auto simp: offset_loop.simps)

text \<open>The ends of runes, and the search for a position among them.\<close>

inductive boundary :: "bytes \<Rightarrow> nat \<Rightarrow> bool" where
  boundary_start: "boundary s 0"
| boundary_rune: "decode_rune (b # s) = (r, width) \<Longrightarrow> boundary (drop width (b # s)) k \<Longrightarrow> boundary (b # s) (width + k)"

lemma decode_LF [simp]: "decode_rune (LF # s) = (10, 1)"
  by simp

lemma boundary_newline: "boundary (LF # s) k \<longleftrightarrow> k = 0 \<or> (\<exists>j. k = Suc j \<and> boundary s j)"
proof
  assume "boundary (LF # s) k"
  then show "k = 0 \<or> (\<exists>j. k = Suc j \<and> boundary s j)" by cases auto
next
  assume "k = 0 \<or> (\<exists>j. k = Suc j \<and> boundary s j)"
  then show "boundary (LF # s) k"
    using boundary_start boundary_rune [of LF s 10 1] by auto
qed

lemma boundary_Cons:
  "decode_rune (b # s) = (r, width) \<Longrightarrow>
   boundary (b # s) k \<longleftrightarrow> k = 0 \<or> (\<exists>j. k = width + j \<and> boundary (drop width (b # s)) j)"
  by (auto intro: boundary_start boundary_rune elim: boundary.cases)

lemma boundary_Nil [simp]: "boundary [] k \<longleftrightarrow> k = 0"
  by (auto intro: boundary_start elim: boundary.cases)

lemma boundary_length: "boundary s k \<Longrightarrow> k \<le> length s"
proof (induction rule: boundary.induct)
  case (boundary_rune b s r width k)
  have "width \<le> length (b # s)" using decode_rune_size_le [of "b # s"] boundary_rune.hyps(1) by simp
  then show ?case using boundary_rune.IH by simp
qed simp

text \<open>Every offset has a position, that of the end of the rune it is in.\<close>

lemma offset_loop_boundary:
  "n \<le> length s \<Longrightarrow> \<exists>k. boundary s k \<and> n \<le> k \<and> k < n + 4 \<and> offset_loop n s line character = offset_loop k s line character"
proof (induction s arbitrary: n line character rule: rune_induct)
  case Nil
  then show ?case by simp
next
  case (newline s)
  show ?case
  proof (cases n)
    case 0
    then show ?thesis using boundary_start by (intro exI [of _ 0]) simp
  next
    case (Suc m)
    then obtain k where k: "boundary s k" "m \<le> k" "k < m + 4" "offset_loop m s (line + 1) 0 = offset_loop k s (line + 1) 0"
      using newline.IH [of m "line + 1" 0] newline.prems by auto
    then show ?thesis
      using Suc by (intro exI [of _ "Suc k"]) (simp add: boundary_newline offset_loop_newline)
  qed
next
  case (rune b s r width)
  have width: "width \<le> 4" "width \<le> length (b # s)"
    using decode_rune_size_le4 [of "b # s"] decode_rune_size_le [of "b # s"] rune.hyps by simp_all
  show ?case
  proof (cases "n = 0")
    case True
    then show ?thesis using boundary_start by (intro exI [of _ 0]) simp
  next
    case False
    have "n - width \<le> length (drop width (b # s))" using rune.prems by simp
    then obtain k where k: "boundary (drop width (b # s)) k" "n - width \<le> k" "k < n - width + 4"
        "offset_loop (n - width) (drop width (b # s)) line (character + utf16_units r)
         = offset_loop k (drop width (b # s)) line (character + utf16_units r)"
      using rune.IH [of "n - width" line "character + utf16_units r"] by auto
    show ?thesis
    proof (cases "width \<le> n")
      case True
      then show ?thesis
        using k False rune.hyps
        by (intro exI [of _ "width + k"]) (auto simp: boundary_Cons offset_loop_rune)
    next
      case shorter: False
      then have "k = 0 \<or> 0 < k" "offset_loop 0 (drop width (b # s)) line (character + utf16_units r)
          = offset_loop k (drop width (b # s)) line (character + utf16_units r)" using k by auto
      then show ?thesis
        using False shorter rune.hyps width boundary_start
        by (intro exI [of _ width]) (auto simp: boundary_Cons offset_loop_rune intro!: exI [of _ 0])
    qed
  qed
qed

text \<open>Positions grow along the text.\<close>

lemma offset_loop_grows:
  "boundary s k \<Longrightarrow> offset_loop k s line character = (line', character') \<Longrightarrow>
   line < line' \<or> line = line' \<and> (if k = 0 then character = character' else character < character')"
proof (induction s arbitrary: k line character rule: rune_induct)
  case Nil
  then show ?case by simp
next
  case (newline s)
  show ?case
  proof (cases k)
    case 0
    then show ?thesis using newline.prems by simp
  next
    case (Suc j)
    then have "boundary s j" "offset_loop j s (line + 1) 0 = (line', character')"
      using newline.prems by (simp_all add: boundary_newline offset_loop_newline)
    from newline.IH [OF this] have "line < line'" by (cases "line + 1 = line'") auto
    then show ?thesis by blast
  qed
next
  case (rune b s r width)
  show ?case
  proof (cases "k = 0")
    case True
    then show ?thesis using rune.prems by simp
  next
    case False
    then obtain j where j: "k = width + j" "boundary (drop width (b # s)) j"
      using rune.prems(1) unfolding boundary_Cons [OF rune.hyps(2)] by auto
    have "offset_loop j (drop width (b # s)) line (character + utf16_units r) = (line', character')"
      using rune.prems(2) j(1) rune.hyps False by (simp add: offset_loop_rune)
    from rune.IH [OF j(2) this] show ?thesis
      using False utf16_units_pos [of r] by (auto split: if_splits)
  qed
qed

lemma rune_no_newline:
  "b \<noteq> LF \<Longrightarrow> decode_rune (b # s) = (r, width) \<Longrightarrow> LF \<notin> set (take width (b # s))"
  by (auto simp: decode_rune_def second_lo_def second_hi_def is_cont_def split: list.splits if_splits)

lemma find_line_skip: "LF \<notin> set c \<Longrightarrow> find_line (Suc n) (c @ s) start = find_line (Suc n) s (start + length c)"
  by (induction c arbitrary: start) auto

lemma find_line_rune:
  assumes "b \<noteq> LF" and "decode_rune (b # s) = (r, width)"
  shows "find_line (Suc n) (b # s) start = find_line (Suc n) (drop width (b # s)) (start + width)"
proof -
  have "width \<le> length (b # s)" using decode_rune_size_le [of "b # s"] assms(2) by simp
  then have "length (take width (b # s)) = width" by simp
  then show ?thesis
    using find_line_skip [OF rune_no_newline [OF assms], of n "drop width (b # s)" start] by (metis append_take_drop_id)
qed

lemma takeWhile_rune:
  assumes "b \<noteq> LF" and "decode_rune (b # s) = (r, width)"
  shows "length (takeWhile (\<lambda>x. x \<noteq> LF) (b # s)) = width + length (takeWhile (\<lambda>x. x \<noteq> LF) (drop width (b # s)))"
proof -
  have "width \<le> length (b # s)" using decode_rune_size_le [of "b # s"] assms(2) by simp
  then have len: "length (take width (b # s)) = width" by simp
  have "takeWhile (\<lambda>x. x \<noteq> LF) (take width (b # s) @ drop width (b # s))
      = take width (b # s) @ takeWhile (\<lambda>x. x \<noteq> LF) (drop width (b # s))"
    using rune_no_newline [OF assms] by (intro takeWhile_append2) auto
  then show ?thesis using len by simp
qed

text \<open>Two steps of an offset one after the other.\<close>

lemma boundary_step:
  "boundary s m \<Longrightarrow> boundary (drop m s) k \<Longrightarrow>
   boundary s (m + k) \<and> offset_loop (m + k) s line character
     = (case offset_loop m s line character of (l, c) \<Rightarrow> offset_loop k (drop m s) l c)"
proof (induction s arbitrary: m line character rule: rune_induct)
  case Nil
  then show ?case by simp
next
  case (newline s)
  then show ?case by (cases m) (auto simp: boundary_newline offset_loop_newline)
next
  case (rune b s r width)
  show ?case
  proof (cases "m = 0")
    case True
    then show ?thesis using rune.prems by simp
  next
    case False
    then obtain j where j: "m = width + j" "boundary (drop width (b # s)) j"
      using rune.prems(1) unfolding boundary_Cons [OF rune.hyps(2)] by auto
    have "boundary (drop j (drop width (b # s))) k" using rune.prems(2) j(1) by (simp add: add.commute)
    note ih = rune.IH [OF j(2) this, of line "character + utf16_units r"]
    have "boundary (b # s) (width + (j + k))" using ih rune.hyps(2) by (intro boundary_rune) auto
    then show ?thesis
      using ih j(1) rune.hyps False
      by (simp add: offset_loop_rune add.assoc add.commute [of width])
  qed
qed

text \<open>The start of the line a position is on, and the way along the line.\<close>

lemma find_line_reaches:
  "boundary s k \<Longrightarrow> offset_loop k s l c = (l + n, character) \<Longrightarrow>
   \<exists>m. find_line n s index = (0, drop m s, index + m) \<and> m \<le> k \<and> boundary (drop m s) (k - m)
     \<and> offset_loop (k - m) (drop m s) (l + n) (if n = 0 then c else 0) = (l + n, character)"
proof (induction s arbitrary: k l c n index rule: rune_induct)
  case Nil
  then show ?case by (cases n) auto
next
  case (newline s)
  show ?case
  proof (cases n)
    case 0
    then show ?thesis using newline.prems by (intro exI [of _ 0]) simp
  next
    case (Suc n')
    then obtain j where j: "k = Suc j" "boundary s j" "offset_loop j s (l + 1) 0 = (l + 1 + n', character)"
      using newline.prems by (cases k) (auto simp: boundary_newline offset_loop_newline)
    obtain m where "find_line n' s (index + 1) = (0, drop m s, index + 1 + m) \<and> m \<le> j \<and> boundary (drop m s) (j - m)
        \<and> offset_loop (j - m) (drop m s) (l + 1 + n') 0 = (l + 1 + n', character)"
      using newline.IH [OF j(2,3), of "index + 1"] by (auto split: if_splits)
    then show ?thesis using Suc j(1) by (intro exI [of _ "Suc m"]) simp
  qed
next
  case (rune b s r width)
  show ?case
  proof (cases n)
    case 0
    then show ?thesis using rune.prems by (intro exI [of _ 0]) simp
  next
    case (Suc n')
    then have "k \<noteq> 0" using rune.prems(2) by (cases "k = 0") simp_all
    then obtain j where j: "k = width + j" "boundary (drop width (b # s)) j"
      using rune.prems(1) unfolding boundary_Cons [OF rune.hyps(2)] by auto
    have o: "offset_loop j (drop width (b # s)) l (c + utf16_units r) = (l + n, character)"
      using rune.prems(2) j(1) rune.hyps by (simp add: offset_loop_rune)
    obtain m where m: "find_line n (drop width (b # s)) (index + width) = (0, drop m (drop width (b # s)), index + width + m)"
        "m \<le> j" "boundary (drop m (drop width (b # s))) (j - m)"
        "offset_loop (j - m) (drop m (drop width (b # s))) (l + n) 0 = (l + n, character)"
      using rune.IH [OF j(2) o, of "index + width"] Suc by auto
    have "find_line n (b # s) index = (0, drop (width + m) (b # s), index + (width + m))"
      using m(1) find_line_rune [OF rune.hyps(1,2)] Suc by (simp add: add.commute add.left_commute)
    then show ?thesis
      using m j(1) Suc by (intro exI [of _ "width + m"]) (simp add: add.commute)
  qed
qed

lemma unit_loop_rune:
  "b \<noteq> LF \<Longrightarrow> units \<noteq> wanted \<Longrightarrow> decode_rune (b # s) = (r, width) \<Longrightarrow>
   unit_loop wanted units (b # s) index
   = (if wanted < units + utf16_units r then Inl None
      else unit_loop wanted (units + utf16_units r) (drop width (b # s)) (index + width))"
  by (auto simp: unit_loop.simps Let_def)

lemma unit_loop_reaches:
  "boundary s k \<Longrightarrow> offset_loop k s l c = (l, wanted) \<Longrightarrow>
   unit_loop wanted c s index = Inl (Some (index + k))
   \<or> unit_loop wanted c s index = Inr wanted \<and> k = length (takeWhile (\<lambda>b. b \<noteq> LF) s)"
proof (induction s arbitrary: k c index rule: rune_induct)
  case Nil
  then show ?case by simp
next
  case (newline s)
  have "k = 0"
  proof (cases k)
    case (Suc j)
    then have "boundary s j" "offset_loop j s (l + 1) 0 = (l, wanted)"
      using newline.prems by (simp_all add: boundary_newline offset_loop_newline)
    from offset_loop_grows [OF this] show ?thesis by auto
  qed
  then show ?case using newline.prems by (simp add: unit_loop.simps)
next
  case (rune b s r width)
  show ?case
  proof (cases "k = 0")
    case True
    then show ?thesis using rune.prems rune.hyps by (simp add: unit_loop.simps)
  next
    case False
    then obtain j where j: "k = width + j" "boundary (drop width (b # s)) j"
      using rune.prems(1) unfolding boundary_Cons [OF rune.hyps(2)] by auto
    have o: "offset_loop j (drop width (b # s)) l (c + utf16_units r) = (l, wanted)"
      using rune.prems(2) j(1) rune.hyps by (simp add: offset_loop_rune)
    have le: "c + utf16_units r \<le> wanted"
      using offset_loop_grows [OF j(2) o] by (auto split: if_splits)
    then have "c \<noteq> wanted" using utf16_units_pos [of r] by linarith
    then have step: "unit_loop wanted c (b # s) index
        = unit_loop wanted (c + utf16_units r) (drop width (b # s)) (index + width)"
      using unit_loop_rune [OF rune.hyps(1) _ rune.hyps(2)] le by simp
    show ?thesis
      using rune.IH [OF j(2) o, of "index + width"] takeWhile_rune [OF rune.hyps(1,2)] j(1)
      unfolding step by (auto simp: add.assoc)
  qed
qed

lemma find_line_sound:
  "find_line n s index = (0, rest, start) \<Longrightarrow>
   \<exists>m. start = index + m \<and> rest = drop m s \<and> boundary s m
     \<and> offset_loop m s l c = (l + n, if n = 0 then c else 0)"
proof (induction s arbitrary: l c n index rule: rune_induct)
  case Nil
  then show ?case by (cases n) auto
next
  case (newline s)
  show ?case
  proof (cases n)
    case 0
    then show ?thesis using newline.prems boundary_start by (intro exI [of _ 0]) simp
  next
    case (Suc n')
    then have "find_line n' s (index + 1) = (0, rest, start)" using newline.prems by simp
    from newline.IH [OF this, of "l + 1" 0] obtain m where
        "start = index + 1 + m \<and> rest = drop m s \<and> boundary s m \<and> offset_loop m s (l + 1) 0 = (l + 1 + n', 0)"
      by (auto split: if_splits)
    then show ?thesis using Suc by (intro exI [of _ "Suc m"]) (simp add: boundary_newline offset_loop_newline)
  qed
next
  case (rune b s r width)
  show ?case
  proof (cases n)
    case 0
    then show ?thesis using rune.prems boundary_start by (intro exI [of _ 0]) simp
  next
    case (Suc n')
    then have "find_line n (drop width (b # s)) (index + width) = (0, rest, start)"
      using rune.prems find_line_rune [OF rune.hyps(1,2)] by simp
    from rune.IH [OF this, of l "c + utf16_units r"] obtain m where
        "start = index + width + m" "rest = drop m (drop width (b # s))" "boundary (drop width (b # s)) m"
        "offset_loop m (drop width (b # s)) l (c + utf16_units r) = (l + n, 0)"
      using Suc by auto
    then show ?thesis
      using Suc rune.hyps by (intro exI [of _ "width + m"])
        (simp add: boundary_Cons offset_loop_rune add.commute)
  qed
qed

lemma unit_loop_sound:
  "unit_loop wanted c s index = Inl (Some i) \<Longrightarrow>
     \<exists>k. i = index + k \<and> boundary s k \<and> offset_loop k s l c = (l, wanted)"
  "unit_loop wanted c s index = Inr u \<Longrightarrow>
     boundary s (length (takeWhile (\<lambda>b. b \<noteq> LF) s))
     \<and> offset_loop (length (takeWhile (\<lambda>b. b \<noteq> LF) s)) s l c = (l, u)"
proof (induction s arbitrary: c index rule: rune_induct)
  case Nil
  { case 1 then show ?case by simp next case 2 then show ?case by simp }
next
  case (newline s)
  { case 1 then show ?case by (simp add: unit_loop.simps)
  next case 2 then show ?case by (simp add: unit_loop.simps boundary_start) }
next
  case (rune b s r width)
  {
    case 1
    show ?case
    proof (cases "c = wanted")
      case True
      then have "i = index" using 1 rune.hyps(1) by (simp add: unit_loop.simps)
      then show ?thesis using True boundary_start by (intro exI [of _ 0]) simp
    next
      case False
      then have "unit_loop wanted (c + utf16_units r) (drop width (b # s)) (index + width) = Inl (Some i)"
        using 1 unit_loop_rune [OF rune.hyps(1) _ rune.hyps(2)] by (simp split: if_splits)
      from rune.IH(1) [OF this] obtain k where "i = index + width + k" "boundary (drop width (b # s)) k"
          "offset_loop k (drop width (b # s)) l (c + utf16_units r) = (l, wanted)" by auto
      then show ?thesis
        using rune.hyps by (intro exI [of _ "width + k"]) (simp add: boundary_Cons offset_loop_rune)
    qed
  next
    case 2
    then have "c \<noteq> wanted" using rune.hyps(1) by (auto simp: unit_loop.simps)
    then have "unit_loop wanted (c + utf16_units r) (drop width (b # s)) (index + width) = Inr u"
      using 2 unit_loop_rune [OF rune.hyps(1) _ rune.hyps(2)] by (simp split: if_splits)
    from rune.IH(2) [OF this] show ?case
      using rune.hyps takeWhile_rune [OF rune.hyps(1,2)] by (simp add: boundary_Cons offset_loop_rune)
  }
qed

lemma position_to_offset_sound:
  assumes "position_to_offset content p = Some n"
  shows "boundary content n \<and> offset_loop n content 0 0 = (nat (lp_line p), nat (lp_character p))
    \<and> 0 \<le> lp_line p \<and> 0 \<le> lp_character p"
proof -
  let ?L = "nat (lp_line p)" and ?C = "nat (lp_character p)"
  obtain missing rest start where f: "find_line ?L content 0 = (missing, rest, start)" by (metis prod_cases3)
  have sign: "0 \<le> lp_line p \<and> 0 \<le> lp_character p" and zero: "missing = 0"
    using assms f by (auto simp: position_to_offset_def split: if_splits)
  obtain m where m: "start = m" "rest = drop m content" "boundary content m" "offset_loop m content 0 0 = (?L, 0)"
    using find_line_sound [OF f [unfolded zero], of 0 0] by auto
  have "\<exists>k. n = m + k \<and> boundary rest k \<and> offset_loop k rest ?L 0 = (?L, ?C)"
  proof (cases "unit_loop ?C 0 rest start")
    case (Inl res)
    then have "res = Some n" using assms f zero by (simp add: position_to_offset_def split: if_splits)
    then show ?thesis using unit_loop_sound(1) [of ?C 0 rest start n ?L] Inl m(1) by auto
  next
    case (Inr u)
    then have "u = ?C" "n = start + length (takeWhile (\<lambda>b. b \<noteq> LF) rest)"
      using assms f zero by (auto simp: position_to_offset_def split: if_splits)
    then show ?thesis using unit_loop_sound(2) [OF Inr, of ?L] m(1) by auto
  qed
  then obtain k where k: "n = m + k" "boundary rest k" "offset_loop k rest ?L 0 = (?L, ?C)" by blast
  show ?thesis using boundary_step [OF m(3), of k 0 0] k m sign by simp
qed

lemma position_to_offset_complete:
  assumes "boundary content n" and "offset_loop n content 0 0 = (line, character)"
  shows "position_to_offset content \<lparr>lp_line = int line, lp_character = int character\<rparr> = Some n"
proof -
  obtain m where m: "find_line line content 0 = (0, drop m content, m)" "m \<le> n" "boundary (drop m content) (n - m)"
      "offset_loop (n - m) (drop m content) line 0 = (line, character)"
    using find_line_reaches [OF assms(1), of 0 0 line character 0] assms(2) by auto
  show ?thesis
    using unit_loop_reaches [OF m(3,4), of m] m(1,2) by (auto simp: position_to_offset_def)
qed

lemma offset_to_position_loop:
  "offset_to_position content off = \<lparr>lp_line = int line, lp_character = int character\<rparr>
   \<longleftrightarrow> offset_loop (clamp_offset content off) content 0 0 = (line, character)"
  by (auto simp: offset_to_position_def split: prod.split)

text \<open>
  C20: Offsets and protocol positions are inverse to each other. Every offset (clamped to the document)
  has a position, and that position leads back to the end of the rune the offset is in: to the
  offset itself when it is between two runes. Conversely, a position that is accepted leads to an
  offset inside the document, between two runes, whose position it is; a position inside a surrogate
  pair, behind the end of its line or behind the last line is refused.
\<close>
theorem lsp_positions_inverse:
  "(\<exists>n. position_to_offset content (offset_to_position content off) = Some n
      \<and> boundary content n \<and> clamp_offset content off \<le> n \<and> n < clamp_offset content off + 4 \<and> n \<le> length content
      \<and> (boundary content (clamp_offset content off) \<longrightarrow> n = clamp_offset content off))
   \<and> (position_to_offset content p = Some m) = (boundary content m \<and> offset_to_position content (int m) = p)"
proof -
  let ?n = "clamp_offset content off"
  obtain line character where o: "offset_loop ?n content 0 0 = (line, character)" by fastforce
  have le: "?n \<le> length content" by (simp add: clamp_offset_def)
  obtain k where k: "boundary content k" "?n \<le> k" "k < ?n + 4" "offset_loop k content 0 0 = (line, character)"
    using offset_loop_boundary [OF le, of 0 0] o by auto
  have there: "\<exists>n. position_to_offset content (offset_to_position content off) = Some n
      \<and> boundary content n \<and> ?n \<le> n \<and> n < ?n + 4 \<and> n \<le> length content \<and> (boundary content ?n \<longrightarrow> n = ?n)"
  proof (cases "boundary content ?n")
    case True
    then show ?thesis
      using position_to_offset_complete [OF True o] o le by (auto simp: offset_to_position_def)
  next
    case False
    then show ?thesis
      using position_to_offset_complete [OF k(1,4)] o k boundary_length [OF k(1)] by (auto simp: offset_to_position_def)
  qed
  have "position_to_offset content p = Some m \<longleftrightarrow> boundary content m \<and> offset_to_position content (int m) = p"
  proof
    assume some: "position_to_offset content p = Some m"
    note sound = position_to_offset_sound [OF some]
    have "clamp_offset content (int m) = m"
      using boundary_length sound by (fastforce simp: clamp_offset_def)
    then show "boundary content m \<and> offset_to_position content (int m) = p"
      using sound by (simp add: offset_to_position_def)
  next
    assume inv: "boundary content m \<and> offset_to_position content (int m) = p"
    then have "clamp_offset content (int m) = m"
      using boundary_length by (fastforce simp: clamp_offset_def)
    then show "position_to_offset content p = Some m"
      using inv position_to_offset_complete [of content m] by (auto simp: offset_to_position_def split: prod.splits)
  qed
  with there show ?thesis by simp
qed

text \<open>Bytes e2 82 ac are one rune of one unit, f0 9f 8d a3 one rune of two.\<close>

definition sample_line :: bytes where
  "sample_line = [CHR ''a'', LF, CHR 0xE2, CHR 0x82, CHR 0xAC, CHR 0xF0, CHR 0x9F, CHR 0x8D, CHR 0xA3, CHR ''b'']"

theorem lsp_positions_inverse_witness:
  "boundary sample_line 9 \<and> position_to_offset sample_line \<lparr>lp_line = 1, lp_character = 3\<rparr> = Some 9
   \<and> position_to_offset sample_line \<lparr>lp_line = 1, lp_character = 2\<rparr> = None"
proof -
  have "offset_to_position sample_line 9 = \<lparr>lp_line = 1, lp_character = 3\<rparr>" "clamp_offset sample_line 9 = 9"
    by (simp_all add: sample_line_def decode_rune_def second_lo_def second_hi_def is_cont_def go_eval)
  moreover have "position_to_offset sample_line \<lparr>lp_line = 1, lp_character = 2\<rparr> = None"
    by (simp add: sample_line_def decode_rune_def second_lo_def second_hi_def is_cont_def go_eval)
  moreover have "position_to_offset sample_line \<lparr>lp_line = 1, lp_character = 3\<rparr> = Some 9"
    by (simp add: sample_line_def decode_rune_def second_lo_def second_hi_def is_cont_def go_eval)
  ultimately show ?thesis
    using lsp_positions_inverse [of sample_line 9 "\<lparr>lp_line = 1, lp_character = 3\<rparr>" 9] by auto
qed

subsection \<open>Diagnostics are shown where the compiler found them\<close>

lemma line_start_append: "line_start (a @ LF # p) = length a + 1 + line_start p"
proof -
  have "takeWhile (\<lambda>b. b \<noteq> LF) (rev p @ LF # rev a) = takeWhile (\<lambda>b. b \<noteq> LF) (rev p)"
  proof (cases "LF \<in> set p")
    case True
    then show ?thesis using takeWhile_append1 [of LF "rev p" "\<lambda>b. b \<noteq> LF"] by simp
  next
    case False
    then have all: "\<And>b. b \<in> set (rev p) \<Longrightarrow> b \<noteq> LF" by auto
    have "takeWhile (\<lambda>b. b \<noteq> LF) (rev p @ x) = rev p @ takeWhile (\<lambda>b. b \<noteq> LF) x" for x
      by (rule takeWhile_append2) (rule all)
    from this [of "LF # rev a"] this [of "[]"] show ?thesis by (simp only: takeWhile.simps append_Nil2 simp_thms if_False)
  qed
  moreover have "length (takeWhile (\<lambda>b. b \<noteq> LF) (rev p)) \<le> length p" by (metis length_rev length_takeWhile_le)
  ultimately show ?thesis by (simp add: line_start_def)
qed

lemma line_start_none: "LF \<notin> set p \<Longrightarrow> line_start p = 0"
proof -
  assume "LF \<notin> set p"
  then have "\<forall>b\<in>set (rev p). b \<noteq> LF" by auto
  then have "takeWhile (\<lambda>b. b \<noteq> LF) (rev p) = rev p" by (simp only: takeWhile_eq_all_conv)
  then show ?thesis unfolding line_start_def by (simp only: length_rev diff_self_eq_0)
qed

lemma skip_lines_start: "skip_lines (count_list p LF) (p @ s) = Some (line_start p)"
proof (induction "length p" arbitrary: p rule: less_induct)
  case less
  show ?case
  proof (cases "LF \<in> set p")
    case False
    then show ?thesis by (simp add: line_start_none)
  next
    case True
    then obtain a q where p: "p = a @ LF # q" "LF \<notin> set a" by (meson split_list_first)
    have "count_list p LF = Suc (count_list q LF)" using p by simp
    moreover have "index_byte LF (p @ s) = Some (length a)"
      using index_byte_append_notin [OF p(2), of "q @ s"] p(1) by simp
    moreover have "skip_lines (count_list q LF) (q @ s) = Some (line_start q)" using less [of q] p(1) by simp
    ultimately show ?thesis using p(1) by (simp add: line_start_append)
  qed
qed

lemma compiler_offset_byte_position:
  "i \<le> length s \<Longrightarrow> compiler_position_offset s (byte_line (take i s)) (byte_column (take i s)) = i"
  using skip_lines_start [of "take i s" "drop i s"] length_takeWhile_le [of "\<lambda>b. b \<noteq> LF" "rev (take i s)"]
  by (simp add: compiler_position_offset_def byte_line_def byte_column_def line_start_def)

text \<open>
  C35: A diagnostic is shown in the editor where the compiler found it. For a diagnostic the compiler
  makes at any offset of a document, the range published for it starts at the protocol position of
  exactly that offset and ends behind the rune there (at the end of the document it is empty): no
  byte column is mistaken for a character, on any line, in any encoding.
\<close>
theorem diagnostic_shown_in_place:
  "lr_start (ld_range (diagnostic_to_lsp content
       (new_diagnostic path (position_at (new_position_table content) off) dcode message)))
     = offset_to_position content off
   \<and> lr_end (ld_range (diagnostic_to_lsp content
       (new_diagnostic path (position_at (new_position_table content) off) dcode message)))
     = offset_to_position content (int (rune_end content (clamp_offset content off)))"
proof -
  let ?i = "clamp_offset content off"
  have i: "?i \<le> length content" and int_i: "int ?i = max 0 (min (int (length content)) off)"
    by (auto simp: clamp_offset_def)
  have "position_at (new_position_table content) off
      = \<lparr>pos_offset = ?i, pos_line = byte_line (take ?i content), pos_column = byte_column (take ?i content)\<rparr>"
    using position_at_inside [OF i] position_at_clamp [of content off] int_i by simp
  then have start: "compiler_position_offset content
      (diag_line (new_diagnostic path (position_at (new_position_table content) off) dcode message))
      (diag_column (new_diagnostic path (position_at (new_position_table content) off) dcode message)) = ?i"
    using compiler_offset_byte_position [OF i] by (simp add: new_diagnostic_def)
  have same: "offset_to_position content (int ?i) = offset_to_position content off"
    using i by (simp add: offset_to_position_def clamp_offset_def)
  show ?thesis
    unfolding diagnostic_to_lsp_def Let_def start using same i by (simp add: rune_end_def)
qed

end
