(* ===== verification/Lsp_Workspace.thy ===== *)
theory Lsp_Workspace
  imports Lsp_Positions Source_Analysis Discovery Go_Net
begin

section \<open>The workspace of the language server: internal/lsp/workspace.go\<close>

text \<open>
  Documents and their analyses as the server keeps them, the components a document can call, the paths
  an editor may edit, and the building of a new snapshot from the project and the texts that are open.
  A Go map is a list of keys and values without a key twice, in the order a range over it takes;
  parsing and printing of URLs are parameters.
\<close>

definition max_document_bytes :: nat where "max_document_bytes = 16777216"
definition max_workspace_bytes :: nat where "max_workspace_bytes = 67108864"
definition max_workspace_files :: nat where "max_workspace_files = 10000"

record lsp_document =
  dc_uri :: bytes
  dc_path :: bytes
  dc_text :: bytes
  dc_version :: int
  dc_open :: bool

record workspace_snapshot =
  sn_documents :: "(bytes \<times> lsp_document) list"
  sn_analyses :: "(bytes \<times> document_analysis) list"
  sn_module_root :: bytes
  sn_module_path :: bytes

definition empty_snapshot :: workspace_snapshot where
  "empty_snapshot = \<lparr>sn_documents = [], sn_analyses = [], sn_module_root = [], sn_module_path = []\<rparr>"

subsection \<open>Paths\<close>

definition within_root :: "bytes \<Rightarrow> bytes \<Rightarrow> bool" where
  "within_root root path =
     (case path_rel (path_clean root) (path_clean path) of
        None \<Rightarrow> False
      | Some relative \<Rightarrow> relative \<noteq> ''..'' \<and> \<not> has_prefix ''../'' relative \<and> \<not> is_rooted relative)"

text \<open>The loop over the elements of the relative path: the current path, and the elements left.\<close>

fun editor_parts :: "'d host \<Rightarrow> bytes \<Rightarrow> bytes \<Rightarrow> bytes list \<Rightarrow> world \<Rightarrow> bool \<times> world" where
  "editor_parts h root current [] w = (True, w)"
| "editor_parts h root current (part # parts) w =
     (if part = [] \<or> part = ''.'' then editor_parts h root current parts w
      else if parts \<noteq> [] \<and> part \<in> set [''.git'', ''.hg'', ''.svn'', ''vendor''] then (False, w)
      else
        (let current = path_join current part in
         case lstat h current w of
           (r, w) \<Rightarrow>
             (if (case r of Inr entry \<Rightarrow> is_symlink entry | Inl e \<Rightarrow> \<not> is_not_exist e) then (False, w)
              else if parts \<noteq> [] \<and> current \<noteq> path_clean root
              then (case lstat h (path_join current ''go.mod'') w of
                  (Inr _, w) \<Rightarrow> (False, w)
                | (Inl e, w) \<Rightarrow> (if \<not> is_not_exist e then (False, w) else editor_parts h root current parts w))
              else editor_parts h root current parts w)))"

definition editor_path_allowed :: "'d host \<Rightarrow> bytes \<Rightarrow> bytes \<Rightarrow> world \<Rightarrow> bool \<times> world" where
  "editor_path_allowed h root path w =
     (if path_ext path \<noteq> ''.sando'' \<or> \<not> within_root root path then (False, w)
      else (case path_rel (path_clean root) (path_clean path) of
          None \<Rightarrow> (False, w)
        | Some relative \<Rightarrow> editor_parts h root (path_clean root) (split_on separator relative) w))"

record file_url =
  fu_scheme :: bytes
  fu_host :: bytes
  fu_escaped_path :: bytes

record url_tools =
  ut_parse :: "bytes \<Rightarrow> file_url option"
  ut_unescape :: "bytes \<Rightarrow> bytes option"
  ut_print :: "bytes \<Rightarrow> bytes"

definition file_uri_to_path :: "url_tools \<Rightarrow> 'd host \<Rightarrow> bytes \<Rightarrow> bytes option" where
  "file_uri_to_path ut h value =
     (case ut_parse ut value of
        None \<Rightarrow> None
      | Some parsed \<Rightarrow>
          (if fu_scheme parsed \<noteq> ''file'' \<or> fu_host parsed \<noteq> [] \<and> fu_host parsed \<noteq> ''localhost'' then None
           else (case ut_unescape ut (fu_escaped_path parsed) of
               None \<Rightarrow> None
             | Some path \<Rightarrow> (case absolute_path h path of Inl e \<Rightarrow> None | Inr absolute \<Rightarrow> Some (path_clean absolute)))))"

definition path_to_uri :: "url_tools \<Rightarrow> 'd host \<Rightarrow> bytes \<Rightarrow> bytes" where
  "path_to_uri ut h path = ut_print ut (case absolute_path h path of Inr a \<Rightarrow> a | Inl e \<Rightarrow> path_clean path)"

subsection \<open>The module and the components that can be called\<close>

fun module_line :: "bytes list \<Rightarrow> bytes option" where
  "module_line [] = None"
| "module_line (line # rest) =
     (let fields = string_fields (trim_space line) in
      if length fields = 2 \<and> fields ! 0 = ''module'' then Some (fields ! 1) else module_line rest)"

definition module_identity :: "'d host \<Rightarrow> bytes \<Rightarrow> world \<Rightarrow> (bytes \<times> bytes) \<times> world" where
  "module_identity h root w =
     (case read_file h (path_join root ''go.mod'') w of
        (Inl e, w) \<Rightarrow> (([], []), w)
      | (Inr content, w) \<Rightarrow>
          (if 1048576 < length content then (([], []), w)
           else (case module_line (split_on LF content) of
               None \<Rightarrow> (([], []), w)
             | Some m \<Rightarrow> ((path_clean root, m), w))))"

definition package_import_path :: "workspace_snapshot \<Rightarrow> bytes \<Rightarrow> bytes" where
  "package_import_path sn directory =
     (if sn_module_root sn = [] \<or> sn_module_path sn = [] \<or> \<not> within_root (sn_module_root sn) directory then []
      else (case path_rel (sn_module_root sn) directory of
          None \<Rightarrow> sn_module_path sn
        | Some relative \<Rightarrow>
            (if relative = ''.'' then sn_module_path sn
             else trim_suffix ''/'' (sn_module_path sn) @ ''/'' @ relative)))"

record component_target =
  ct_qualifier :: bytes
  ct_name :: bytes
  ct_signature :: bytes
  ct_path :: bytes
  ct_analysis :: document_analysis

definition target_label :: "component_target \<Rightarrow> bytes" where
  "target_label t = (if ct_qualifier t = [] then ct_name t else ct_qualifier t @ ''.'' @ ct_name t)"

definition targets_of :: "workspace_snapshot \<Rightarrow> bytes \<Rightarrow> document_analysis \<Rightarrow> bytes \<times> document_analysis \<Rightarrow> component_target list" where
  "targets_of sn path analysis = (\<lambda>(target_path, target).
     if da_component target = [] then []
     else
       (let directory = path_dir target_path;
            make = (\<lambda>qualifier. \<lparr>ct_qualifier = qualifier, ct_name = da_component target,
              ct_signature = da_signature target, ct_path = target_path, ct_analysis = target\<rparr>) in
        if directory = path_dir path \<and> da_package target = da_package analysis then [make []]
        else
          (let import_path = package_import_path sn directory in
           map (\<lambda>i. make (if ai_alias i = [] then da_package target else ai_alias i))
             (filter (\<lambda>i. \<not> (ai_path i \<noteq> import_path \<or> ai_alias i = ''_'' \<or> ai_alias i = ''.'')) (da_imports analysis)))))"

definition components_for :: "workspace_snapshot \<Rightarrow> bytes \<Rightarrow> document_analysis \<Rightarrow> component_target list" where
  "components_for sn path analysis = sort_key target_label (concat (map (targets_of sn path analysis) (sn_analyses sn)))"

definition snapshot_document ::
  "url_tools \<Rightarrow> 'd host \<Rightarrow> workspace_snapshot \<Rightarrow> bytes \<Rightarrow> (lsp_document \<times> document_analysis) option" where
  "snapshot_document ut h sn uri =
     (case file_uri_to_path ut h uri of
        None \<Rightarrow> None
      | Some path \<Rightarrow>
          (case map_of (sn_documents sn) path of
             None \<Rightarrow> None
           | Some item \<Rightarrow>
               Some (item, case map_of (sn_analyses sn) path of Some a \<Rightarrow> a | None \<Rightarrow> empty_analysis [])))"

subsection \<open>Indexing\<close>

datatype index_error = Canceled bytes | WorkspaceError bytes

definition put :: "'k \<Rightarrow> 'v \<Rightarrow> ('k \<times> 'v) list \<Rightarrow> ('k \<times> 'v) list" where
  "put k v m = AList.update k v m"

definition too_many_files :: index_error where
  "too_many_files = WorkspaceError (''workspace contains more than '' @ show_nat max_workspace_files @ '' .sando files'')"

definition too_many_bytes :: index_error where
  "too_many_bytes = WorkspaceError (''workspace .sando sources exceed '' @ show_nat max_workspace_bytes @ '' bytes'')"

text \<open>One discovered path: the documents and the total of their bytes. A file that is read is small enough.\<close>

definition read_document :: "fs_host \<Rightarrow> bytes \<Rightarrow> world \<Rightarrow> bytes option \<times> world" where
  "read_document h absolute w =
     (case lstat h absolute w of
        (Inl e, w) \<Rightarrow> (None, w)
      | (Inr entry, w) \<Rightarrow>
          (if (case entry of RegularFile perm content \<Rightarrow> max_document_bytes < length content | _ \<Rightarrow> True) then (None, w)
           else (case read_file h absolute w of
               (Inl e, w) \<Rightarrow> (None, w)
             | (Inr content, w) \<Rightarrow> (if max_document_bytes < length content then None else Some content, w))))"

definition index_path ::
  "url_tools \<Rightarrow> fs_host \<Rightarrow> (bytes \<times> lsp_document) list \<Rightarrow> bytes \<Rightarrow> (bytes \<times> lsp_document) list \<Rightarrow> nat \<Rightarrow> world \<Rightarrow>
   (index_error + ((bytes \<times> lsp_document) list \<times> nat)) \<times> world" where
  "index_path ut h overlays path documents amount w =
     (case absolute_path h path of
        Inl e \<Rightarrow> (Inr (documents, amount), w)
      | Inr absolute \<Rightarrow>
          (let absolute = path_clean absolute in
           case map_of overlays absolute of
             Some overlay \<Rightarrow> (Inr (put absolute overlay documents, amount + length (dc_text overlay)), w)
           | None \<Rightarrow>
               (case read_document h absolute w of
                  (None, w) \<Rightarrow> (Inr (documents, amount), w)
                | (Some content, w) \<Rightarrow>
                    (let item = \<lparr>dc_uri = path_to_uri ut h absolute, dc_path = absolute, dc_text = content,
                           dc_version = 0, dc_open = False\<rparr>;
                         amount = amount + length content in
                     if max_workspace_bytes < amount then (Inl too_many_bytes, w)
                     else (Inr (put absolute item documents, amount), w)))))"

fun index_paths ::
  "url_tools \<Rightarrow> fs_host \<Rightarrow> (bytes \<times> lsp_document) list \<Rightarrow> bytes list \<Rightarrow> (bytes \<times> lsp_document) list \<Rightarrow> nat \<Rightarrow> world \<Rightarrow>
   (index_error + ((bytes \<times> lsp_document) list \<times> nat)) \<times> world" where
  "index_paths ut h overlays [] documents amount w = (Inr (documents, amount), w)"
| "index_paths ut h overlays (path # paths) documents amount w =
     (case index_path ut h overlays path documents amount w of
        (Inl e, w) \<Rightarrow> (Inl e, w)
      | (Inr (documents, amount), w) \<Rightarrow> index_paths ut h overlays paths documents amount w)"

text \<open>The texts that are open but were not discovered.\<close>

fun index_overlays ::
  "'d host \<Rightarrow> bytes \<Rightarrow> (bytes \<times> lsp_document) list \<Rightarrow> (bytes \<times> lsp_document) list \<Rightarrow> nat \<Rightarrow> world \<Rightarrow>
   ((bytes \<times> lsp_document) list \<times> nat) \<times> world" where
  "index_overlays h root [] documents amount w = ((documents, amount), w)"
| "index_overlays h root ((path, overlay) # overlays) documents amount w =
     (if map_of documents path \<noteq> None \<or> \<not> dc_open overlay then index_overlays h root overlays documents amount w
      else (case editor_path_allowed h root path w of
          (False, w) \<Rightarrow> index_overlays h root overlays documents amount w
        | (True, w) \<Rightarrow>
            index_overlays h root overlays (put path overlay documents) (amount + length (dc_text overlay)) w))"

record index_env =
  ie_urls :: url_tools
  ie_backend :: backend_env
  ie_parse_expr :: "bytes \<Rightarrow> go_expr option"
  ie_canceled :: "nat \<Rightarrow> bytes option"

text \<open>
  \<open>reindex\<close> up to the new snapshot, with the number of diagnostics of discovery. The context is asked
  by the host during discovery and by \<open>ie_canceled\<close> during the analysis and behind it.
\<close>

definition build_snapshot ::
  "index_env \<Rightarrow> fs_host \<Rightarrow> bytes \<Rightarrow> (bytes \<times> lsp_document) list \<Rightarrow> world \<Rightarrow>
   (index_error + (workspace_snapshot \<times> nat)) \<times> world" where
  "build_snapshot env h root overlays w =
     (case discover_sources h [root] w of
        ((paths, diagnostics), w) \<Rightarrow>
          (case ctx_err h w of
             (Some e, w) \<Rightarrow> (Inl (Canceled e), w)
           | (None, w) \<Rightarrow>
               (if max_workspace_files < length paths then (Inl too_many_files, w)
                else (case index_paths (ie_urls env) h overlays paths [] 0 w of
                    (Inl e, w) \<Rightarrow> (Inl e, w)
                  | (Inr (documents, amount), w) \<Rightarrow>
                      (case index_overlays h root overlays documents amount w of
                         ((documents, amount), w) \<Rightarrow>
                           (if max_workspace_files < length documents then (Inl too_many_files, w)
                            else if max_workspace_bytes < amount then (Inl too_many_bytes, w)
                            else
                              (let inputs = map (\<lambda>(k, item). \<lparr>input_path = dc_path item, input_source = dc_text item\<rparr>) documents;
                                   analysed = analyze_sources (ie_backend env) (ie_parse_expr env) (ie_canceled env) inputs in
                               case ie_canceled env (length inputs) of
                                 Some e \<Rightarrow> (Inl (Canceled e), w)
                               | None \<Rightarrow>
                                   (case module_identity h root w of
                                      ((module_root, module_path), w) \<Rightarrow>
                                        (Inr (\<lparr>sn_documents = documents,
                                           sn_analyses = foldl (\<lambda>m a. put (path_clean (da_path a)) a m) [] analysed,
                                           sn_module_root = module_root, sn_module_path = module_path\<rparr>, length diagnostics), w)))))))))"

text \<open>What is published after the snapshot is stored: for every path, old or new, its diagnostics.\<close>

record published =
  pb_uri :: bytes
  pb_diagnostics :: "lsp_diagnostic list"

definition publications ::
  "url_tools \<Rightarrow> 'd host \<Rightarrow> workspace_snapshot \<Rightarrow> workspace_snapshot \<Rightarrow> published list" where
  "publications ut h previous sn =
     map (\<lambda>path. case map_of (sn_documents sn) path of
         None \<Rightarrow> \<lparr>pb_uri = path_to_uri ut h path, pb_diagnostics = []\<rparr>
       | Some item \<Rightarrow>
           \<lparr>pb_uri = dc_uri item,
            pb_diagnostics = map (diagnostic_to_lsp (dc_text item))
              (case map_of (sn_analyses sn) path of Some a \<Rightarrow> da_diagnostics a | None \<Rightarrow> [])\<rparr>)
       (sort (remdups (map fst (sn_documents previous) @ map fst (sn_documents sn))))"

subsection \<open>The limits of a snapshot\<close>

definition documents_ok :: "(bytes \<times> lsp_document) list \<Rightarrow> nat \<Rightarrow> bool" where
  "documents_ok documents amount =
     (distinct (map fst documents) \<and> (\<forall>(k, d) \<in> set documents. dc_path d = k \<and> length (dc_text d) \<le> max_document_bytes)
      \<and> sum_list (map (\<lambda>(k, d). length (dc_text d)) documents) \<le> amount)"

definition overlays_ok :: "(bytes \<times> lsp_document) list \<Rightarrow> bool" where
  "overlays_ok overlays = (\<forall>(k, d) \<in> set overlays. dc_path d = k \<and> length (dc_text d) \<le> max_document_bytes)"

lemma sum_put: "sum_list (map (\<lambda>(k, d). length (dc_text d)) (put k d m))
    \<le> sum_list (map (\<lambda>(k, d). length (dc_text d)) m) + length (dc_text d)"
  by (induction m) (auto simp: put_def)

lemma set_put: "distinct (map fst m) \<Longrightarrow> set (put k v m) \<subseteq> insert (k, v) (set m)"
  by (induction m) (auto simp: put_def)

lemma put_ok:
  assumes "documents_ok documents amount" and "dc_path d = k" and "length (dc_text d) \<le> max_document_bytes"
  shows "documents_ok (put k d documents) (amount + length (dc_text d))"
proof -
  have distinct: "distinct (map fst documents)" using assms(1) by (simp add: documents_ok_def)
  then have "distinct (map fst (put k d documents))" by (simp add: put_def distinct_update)
  moreover have "\<forall>(k, d) \<in> set (put k d documents). dc_path d = k \<and> length (dc_text d) \<le> max_document_bytes"
    using set_put [OF distinct, of k d] assms by (auto simp: documents_ok_def)
  moreover have "sum_list (map (\<lambda>(k, d). length (dc_text d)) (put k d documents)) \<le> amount + length (dc_text d)"
    using sum_put [of k d documents] assms(1) by (simp add: documents_ok_def)
  ultimately show ?thesis by (simp add: documents_ok_def)
qed

lemma read_document_small: "read_document h path w = (Some content, w') \<Longrightarrow> length content \<le> max_document_bytes"
  by (auto simp: read_document_def split: prod.splits sum.splits if_splits)

lemma index_path_ok:
  assumes "overlays_ok overlays" and "documents_ok documents amount"
    and "index_path ut h overlays path documents amount w = (Inr (documents', amount'), w')"
  shows "documents_ok documents' amount'"
proof (cases "absolute_path h path")
  case (Inl e)
  then show ?thesis using assms by (simp add: index_path_def)
next
  case (Inr a)
  let ?a = "path_clean a"
  show ?thesis
  proof (cases "map_of overlays ?a")
    case (Some overlay)
    then have "dc_path overlay = ?a" "length (dc_text overlay) \<le> max_document_bytes"
      using assms(1) by (auto simp: overlays_ok_def dest: map_of_SomeD)
    from put_ok [OF assms(2) this] show ?thesis using assms(3) Inr Some by (simp add: index_path_def)
  next
    case None
    obtain r w1 where r: "read_document h ?a w = (r, w1)" by fastforce
    show ?thesis
    proof (cases r)
      case None
      then show ?thesis using assms Inr \<open>map_of overlays ?a = None\<close> r by (simp add: index_path_def)
    next
      case (Some content)
      let ?d = "\<lparr>dc_uri = path_to_uri ut h ?a, dc_path = ?a, dc_text = content, dc_version = 0, dc_open = False\<rparr>"
      have "documents_ok (put ?a ?d documents) (amount + length (dc_text ?d))"
        by (rule put_ok [OF assms(2)]) (use read_document_small r Some in auto)
      then show ?thesis
        using assms(3) Inr None r Some by (simp add: index_path_def Let_def split: if_splits)
    qed
  qed
qed

lemma index_paths_ok:
  "overlays_ok overlays \<Longrightarrow> documents_ok documents amount \<Longrightarrow>
   index_paths ut h overlays paths documents amount w = (Inr (documents', amount'), w') \<Longrightarrow> documents_ok documents' amount'"
proof (induction paths arbitrary: documents amount w)
  case (Cons path paths)
  obtain r w1 where r: "index_path ut h overlays path documents amount w = (r, w1)" by fastforce
  then obtain documents1 amount1 where "r = Inr (documents1, amount1)" using Cons.prems(3) by (cases r) auto
  then have "documents_ok documents1 amount1" using index_path_ok [OF Cons.prems(1,2)] r by blast
  then show ?case using Cons.IH [OF Cons.prems(1)] Cons.prems(3) r \<open>r = _\<close> by simp
qed simp

lemma index_overlays_ok:
  "overlays_ok overlays \<Longrightarrow> documents_ok documents amount \<Longrightarrow>
   index_overlays h root overlays documents amount w = ((documents', amount'), w') \<Longrightarrow> documents_ok documents' amount'"
proof (induction overlays arbitrary: documents amount w)
  case (Cons entry overlays)
  obtain k d where entry: "entry = (k, d)" by fastforce
  have rest: "overlays_ok overlays" "dc_path d = k" "length (dc_text d) \<le> max_document_bytes"
    using Cons.prems(1) entry by (simp_all add: overlays_ok_def)
  note added = put_ok [OF Cons.prems(2) rest(2,3)]
  obtain allowed w1 where allowed: "editor_path_allowed h root k w = (allowed, w1)" by fastforce
  show ?case
    using Cons.IH [OF rest(1) Cons.prems(2)] Cons.IH [OF rest(1) added] Cons.prems(3) entry allowed
    by (cases allowed) (auto split: if_splits)
qed simp

definition snapshot_limits :: "workspace_snapshot \<Rightarrow> bool" where
  "snapshot_limits sn =
     (length (sn_documents sn) \<le> max_workspace_files \<and> documents_ok (sn_documents sn) max_workspace_bytes)"

lemma build_snapshot_limits:
  assumes "overlays_ok overlays" and "build_snapshot env h root overlays w = (Inr (sn, n), w')"
  shows "snapshot_limits sn"
proof -
  obtain paths diagnostics w1 where d: "discover_sources h [root] w = ((paths, diagnostics), w1)" by (metis prod.exhaust)
  obtain c w2 where c: "ctx_err h w1 = (c, w2)" by fastforce
  then have "c = None" "length paths \<le> max_workspace_files"
    using assms(2) d by (auto simp: build_snapshot_def split: option.splits if_splits)
  obtain r w3 where p: "index_paths (ie_urls env) h overlays paths [] 0 w2 = (r, w3)" by fastforce
  then obtain documents amount where r: "r = Inr (documents, amount)"
    using assms(2) d c \<open>c = None\<close> by (cases r) (auto simp: build_snapshot_def split: if_splits)
  have "documents_ok [] 0" by (simp add: documents_ok_def)
  then have first: "documents_ok documents amount" using index_paths_ok [OF assms(1)] p r by blast
  obtain documents' amount' w4 where o: "index_overlays h root overlays documents amount w3 = ((documents', amount'), w4)"
    by (metis prod.exhaust)
  have ok: "documents_ok documents' amount'" by (rule index_overlays_ok [OF assms(1) first o])
  have "length documents' \<le> max_workspace_files" "amount' \<le> max_workspace_bytes" "sn_documents sn = documents'"
    using assms(2) d c p o \<open>c = None\<close> r by (auto simp: build_snapshot_def Let_def split: option.splits if_splits prod.splits)
  then show ?thesis using ok by (auto simp: snapshot_limits_def documents_ok_def)
qed

end
