(* ===== verification/Lsp_Features.thy ===== *)
theory Lsp_Features
  imports Lsp_Workspace
begin

section \<open>Editor features: internal/lsp/features.go\<close>

text \<open>
  Completion, hover, definition and symbols, as functions of a snapshot. \<open>is_letter\<close> and \<open>is_digit_rune\<close>
  are the Unicode classes of letters and digits.
\<close>

subsection \<open>Results\<close>

record completion_item =
  ci_label :: bytes
  ci_kind :: nat
  ci_detail :: bytes
  ci_documentation :: bytes
  ci_insert_text :: bytes
  ci_insert_format :: nat
  ci_sort_text :: bytes

record hover_result =
  hv_value :: bytes
  hv_range :: "lsp_range option"

record lsp_location =
  lo_uri :: bytes
  lo_range :: lsp_range

record symbol_part =
  sp_name :: bytes
  sp_detail :: bytes
  sp_kind :: nat
  sp_range :: lsp_range
  sp_selection :: lsp_range

record document_symbol =
  ds_symbol :: symbol_part
  ds_children :: "symbol_part list"

datatype completion_answer = NoCompletions | Completions "completion_item list"

subsection \<open>References\<close>

definition identifier_byte :: "byte \<Rightarrow> bool" where
  "identifier_byte b =
     (b = CHR ''_'' \<or> 97 \<le> code b \<and> code b \<le> 122 \<or> 65 \<le> code b \<and> code b \<le> 90 \<or> 48 \<le> code b \<and> code b \<le> 57)"

definition reference_byte :: "byte \<Rightarrow> bool" where
  "reference_byte b = (identifier_byte b \<or> b = CHR ''.'')"

record letter_tables =
  lt_letter :: "nat \<Rightarrow> bool"
  lt_digit :: "nat \<Rightarrow> bool"

definition valid_identifier :: "letter_tables \<Rightarrow> bytes \<Rightarrow> bool" where
  "valid_identifier lt value =
     (case runes value of
        [] \<Rightarrow> False
      | r # rs \<Rightarrow>
          (r = 95 \<or> lt_letter lt r) \<and> list_all (\<lambda>r. r = 95 \<or> lt_letter lt r \<or> lt_digit lt r) rs)"

text \<open>The loop that moves the cursor back to a reference.\<close>

fun back_to_reference :: "bytes \<Rightarrow> nat \<Rightarrow> nat" where
  "back_to_reference s 0 = 0"
| "back_to_reference s (Suc c) =
     (if Suc c < length s \<and> \<not> reference_byte (s ! Suc c) then back_to_reference s c else Suc c)"

definition reference_at :: "letter_tables \<Rightarrow> bytes \<Rightarrow> int \<Rightarrow> bytes \<times> bytes" where
  "reference_at lt expression cursor =
     (let n = length expression;
          cursor = nat (min (max cursor 0) (int n));
          cursor = (if cursor = n \<and> 0 < cursor then cursor - 1 else cursor);
          cursor = back_to_reference expression cursor;
          start = cursor - length (takeWhile reference_byte (rev (take cursor expression)));
          finish = cursor + length (takeWhile reference_byte (drop cursor expression));
          reference = trim_right ''.'' (trim_left ''.'' (drop start (take finish expression)))
      in case split_on (CHR ''.'') reference of
           [name] \<Rightarrow> (if valid_identifier lt name then ([], name) else ([], []))
         | [qualifier, name] \<Rightarrow>
             (if valid_identifier lt qualifier \<and> valid_identifier lt name then (qualifier, name) else ([], []))
         | _ \<Rightarrow> ([], []))"

definition resolve_component ::
  "workspace_snapshot \<Rightarrow> bytes \<Rightarrow> document_analysis \<Rightarrow> bytes \<Rightarrow> bytes \<Rightarrow> component_target option" where
  "resolve_component sn path analysis qualifier name =
     find (\<lambda>t. ct_qualifier t = qualifier \<and> ct_name t = name) (components_for sn path analysis)"

subsection \<open>Completion\<close>

definition ellipsis :: bytes where "ellipsis = [CHR 0xE2, CHR 0x80, CHR 0xA6]"

definition tag_item :: "bytes \<Rightarrow> bytes \<Rightarrow> bytes \<Rightarrow> bytes \<Rightarrow> completion_item" where
  "tag_item label detail insert_text sort_text =
     \<lparr>ci_label = label, ci_kind = 15, ci_detail = detail, ci_documentation = [], ci_insert_text = insert_text,
      ci_insert_format = 2, ci_sort_text = sort_text\<rparr>"

definition tag_completions :: "completion_item list" where
  "tag_completions =
     [tag_item ''<?sando go'' ''component file header''
        (''<?sando go'' @ LF # ''package ${1:views}'' @ LF # ''func ${2:Component}(${3:})'' @ LF # ''?>'') ''0-header'',
      tag_item (''<? '' @ ellipsis @ '' ?>'') ''Go statement'' ''<? ${1:if condition {} } ?>'' ''0-statement'',
      tag_item (''<?= '' @ ellipsis @ '' ?>'') ''contextually escaped expression'' ''<?= ${1:value} ?>'' ''0-expression'',
      tag_item (''<?~ '' @ ellipsis @ '' ?>'') ''typed component composition'' ''<?~ ${1:Component()} ?>'' ''0-component'',
      tag_item (''<?# '' @ ellipsis @ '' ?>'') ''Hime-san template comment'' ''<?# ${1:comment} ?>'' ''0-comment'']"

definition component_item :: "component_target \<Rightarrow> completion_item" where
  "component_item target =
     \<lparr>ci_label = target_label target, ci_kind = 3, ci_detail = ct_signature target,
      ci_documentation = ''Typed `.sando` component. Hime-san emits an ordinary Go constructor.'',
      ci_insert_text = target_label target, ci_insert_format = 1, ci_sort_text = ''1-'' @ target_label target\<rparr>"

definition completions ::
  "url_tools \<Rightarrow> 'd host \<Rightarrow> workspace_snapshot \<Rightarrow> workspace_snapshot \<Rightarrow> bytes \<Rightarrow> lsp_position \<Rightarrow> completion_answer" where
  \<comment> \<open>the snapshot is read twice, for the document and for the components\<close>
  "completions ut h sn sn' uri position =
     (case snapshot_document ut h sn uri of
        None \<Rightarrow> NoCompletions
      | Some (doc, analysis) \<Rightarrow>
          (case position_to_offset (dc_text doc) position of
             None \<Rightarrow> NoCompletions
           | Some offset \<Rightarrow>
               (let before = take offset (dc_text doc) in
                case last_index_of ''<?'' before of
                  None \<Rightarrow> Completions tag_completions
                | Some opening \<Rightarrow>
                    (if (case last_index_of ''?>'' before of None \<Rightarrow> True | Some closing \<Rightarrow> closing < opening)
                        \<and> has_prefix ''<?~'' (drop opening before)
                     then
                       (let typed = trim_space (drop (opening + 3) before) in
                        Completions (map component_item
                          (filter (\<lambda>t. typed = [] \<or> has_prefix typed (target_label t))
                            (components_for sn' (dc_path doc) analysis))))
                     else Completions tag_completions))))"

subsection \<open>Hover\<close>

definition tag_documentation :: "bytes \<Rightarrow> bytes option" where
  "tag_documentation marker =
     (if marker = ''<?sando'' then Some (''**`<?sando go '' @ ellipsis @ '' ?>`** declares the Go package, imports, and one typed component signature. It must be the first non-whitespace content.'')
      else if marker = ''<?~'' then Some (''**`<?~ '' @ ellipsis @ '' ?>`** composes a typed `sando.Component` at an HTML content boundary. It is not template inheritance.'')
      else if marker = ''<?='' then Some (''**`<?= '' @ ellipsis @ '' ?>`** renders an expression through the helper selected by Hime-san'' @ CHR 0x27 # ''s inferred HTML output context.'')
      else if marker = ''<?#'' then Some (''**`<?# '' @ ellipsis @ '' ?>`** is a Hime-san comment. It emits no bytes and cannot change HTML parser state.'')
      else if marker = ''<?'' then Some (''**`<? '' @ ellipsis @ '' ?>`** contains Go statements and is valid only at an HTML content boundary.'')
      else None)"

definition enclosing_tag :: "bytes \<Rightarrow> nat \<Rightarrow> (bytes \<times> nat \<times> nat) option" where
  "enclosing_tag content offset =
     (if length content < offset then None
      else (case last_index_of ''<?'' (take offset content) of
          None \<Rightarrow> None
        | Some opening \<Rightarrow>
            (case index_of ''?>'' (drop opening content) of
               None \<Rightarrow> None
             | Some close_relative \<Rightarrow>
                 (if opening + close_relative + 2 < offset then None
                  else
                    (let finish = opening + close_relative + 2;
                         tag = drop opening (take finish content);
                         marker = (case find (\<lambda>candidate. has_prefix candidate tag) [''<?sando'', ''<?~'', ''<?='', ''<?#''] of
                             Some m \<Rightarrow> m | None \<Rightarrow> ''<?'')
                     in Some (marker, opening, finish))))))"

definition region_kind_text :: "region_kind \<Rightarrow> bytes" where
  "region_kind_text k =
     (case k of AnalysisStatement \<Rightarrow> ''statement'' | AnalysisExpression \<Rightarrow> ''expression''
      | AnalysisComponent \<Rightarrow> ''component'' | AnalysisComment \<Rightarrow> ''comment'')"

definition region_covers :: "analysis_region \<Rightarrow> nat \<Rightarrow> bool" where
  "region_covers region offset =
     (\<not> (offset < region_offset region \<or> region_offset region + region_length region < offset))"

definition contains_text :: "bytes \<Rightarrow> bytes \<Rightarrow> bool" where
  "contains_text needle s = (index_of needle s \<noteq> None)"

definition region_hover :: "analysis_region \<Rightarrow> bytes" where
  "region_hover region =
     ''**Hime-san '' @ region_kind_text (region_kind region) @ '' region**'' @ LF # LF # ''Output context: `''
     @ context_string (region_context region) @ ''`.''
     @ (if region_context region = ContextJS \<or> region_context region = ContextCSS \<or> contains_text ''Trust'' (region_text region)
        then LF # LF # ''Trusted output is an explicit security capability; audit its provenance and parser-state effects.''
        else [])"

definition component_hover :: "component_target \<Rightarrow> bytes" where
  "component_hover target =
     ''```go'' @ LF # ct_signature target @ LF # ''```'' @ LF # LF
     # ''Typed component composition. Handwritten `sando.Component` values are trusted output capabilities.''"

definition hover ::
  "url_tools \<Rightarrow> 'd host \<Rightarrow> letter_tables \<Rightarrow> workspace_snapshot \<Rightarrow> bytes \<Rightarrow> lsp_position \<Rightarrow>
   hover_result option" where
  "hover ut h lt sn uri position =
     (case snapshot_document ut h sn uri of
        None \<Rightarrow> None
      | Some (doc, analysis) \<Rightarrow>
          (case position_to_offset (dc_text doc) position of
             None \<Rightarrow> None
           | Some offset \<Rightarrow>
               (case find (\<lambda>region. region_covers region offset) (da_regions analysis) of
                  Some region \<Rightarrow>
                    (let plain = Some \<lparr>hv_value = region_hover region, hv_range = None\<rparr> in
                     if region_kind region = AnalysisComponent
                     then (case reference_at lt (region_text region) (int offset - int (region_offset region)) of
                         (qualifier, name) \<Rightarrow>
                           (if name = [] then plain
                            else (case resolve_component sn (dc_path doc) analysis qualifier name of
                                Some target \<Rightarrow> Some \<lparr>hv_value = component_hover target, hv_range = None\<rparr>
                              | None \<Rightarrow> plain)))
                     else plain)
                | None \<Rightarrow>
                    (case enclosing_tag (dc_text doc) offset of
                       None \<Rightarrow> None
                     | Some (marker, start, finish) \<Rightarrow>
                         map_option (\<lambda>t. \<lparr>hv_value = t, hv_range = Some
                             \<lparr>lr_start = offset_to_position (dc_text doc) (int start),
                              lr_end = offset_to_position (dc_text doc) (int finish)\<rparr>\<rparr>)
                           (tag_documentation marker)))))"

subsection \<open>Definition and symbols\<close>

definition find_definition ::
  "url_tools \<Rightarrow> 'd host \<Rightarrow> letter_tables \<Rightarrow> workspace_snapshot \<Rightarrow> bytes \<Rightarrow> lsp_position \<Rightarrow> lsp_location option" where
  "find_definition ut h lt sn uri position =
     (case snapshot_document ut h sn uri of
        None \<Rightarrow> None
      | Some (doc, analysis) \<Rightarrow>
          (case position_to_offset (dc_text doc) position of
             None \<Rightarrow> None
           | Some offset \<Rightarrow>
               (case find (\<lambda>region. region_kind region = AnalysisComponent \<and> region_covers region offset) (da_regions analysis) of
                  None \<Rightarrow> None
                | Some region \<Rightarrow>
                    (case reference_at lt (region_text region) (int offset - int (region_offset region)) of
                       (qualifier, name) \<Rightarrow>
                         (if name = [] then None
                          else (case resolve_component sn (dc_path doc) analysis qualifier name of
                              None \<Rightarrow> None
                            | Some target \<Rightarrow>
                                (case map_of (sn_documents sn) (ct_path target) of
                                   None \<Rightarrow> None
                                 | Some target_doc \<Rightarrow>
                                     (let start = da_offset (ct_analysis target);
                                          finish = start + length (da_signature (ct_analysis target))
                                      in Some \<lparr>lo_uri = dc_uri target_doc, lo_range =
                                           \<lparr>lr_start = offset_to_position (dc_text target_doc) (int start),
                                            lr_end = offset_to_position (dc_text target_doc) (int finish)\<rparr>\<rparr>))))))))"

definition region_symbol ::
  "letter_tables \<Rightarrow> bytes \<Rightarrow> nat \<Rightarrow> analysis_region \<Rightarrow> symbol_part" where
  "region_symbol lt content i region =
     (let name = (case reference_at lt (region_text region) 0 of
            (_, component_name) \<Rightarrow>
              (if region_kind region = AnalysisComponent \<and> component_name \<noteq> [] then ''component '' @ component_name
               else region_kind_text (region_kind region) @ '' '' @ show_nat (i + 1)));
          range_value = \<lparr>lr_start = offset_to_position content (int (region_offset region)),
            lr_end = offset_to_position content (int (region_offset region + region_length region))\<rparr>
      in \<lparr>sp_name = name, sp_detail = context_string (region_context region), sp_kind = 13, sp_range = range_value,
          sp_selection = range_value\<rparr>)"

definition document_symbols ::
  "url_tools \<Rightarrow> 'd host \<Rightarrow> letter_tables \<Rightarrow> workspace_snapshot \<Rightarrow> bytes \<Rightarrow> document_symbol list" where
  "document_symbols ut h lt sn uri =
     (case snapshot_document ut h sn uri of
        None \<Rightarrow> []
      | Some (doc, analysis) \<Rightarrow>
          (if da_component analysis = [] then []
           else
             (let content = dc_text doc;
                  at = (\<lambda>offset. offset_to_position content (int offset))
              in [\<lparr>ds_symbol =
                     \<lparr>sp_name = da_component analysis, sp_detail = da_signature analysis, sp_kind = 12,
                      sp_range = \<lparr>lr_start = \<lparr>lp_line = 0, lp_character = 0\<rparr>, lr_end = at (length content)\<rparr>,
                      sp_selection = \<lparr>lr_start = at (da_offset analysis),
                        lr_end = at (da_offset analysis + length (da_component analysis))\<rparr>\<rparr>,
                   ds_children = map (\<lambda>(i, region). region_symbol lt content i region)
                     (enumerate 0 (da_regions analysis))\<rparr>])))"

end
