(* ===== verification/Lsp_Frames.thy ===== *)
theory Lsp_Frames
  imports Sando_Runtime Html_Urls Go_Net
begin

section \<open>Frames of the language server: internal/lsp/protocol.go\<close>

text \<open>
  Messages on stdin and stdout are framed by a \<open>Content-Length\<close> header. The input is the list of the
  bytes that are still to come; its end is the end of the file. The payload is the JSON text, whose
  encoder and decoder are Go's.
\<close>

definition max_message_bytes :: nat where "max_message_bytes = 16777216"
definition max_header_bytes :: nat where "max_header_bytes = 65536"
definition max_header_lines :: nat where "max_header_lines = 64"

datatype frame_error = FrameEOF | FrameUnexpectedEOF | FrameFault bytes

text \<open>The loop over the header lines: the length found so far, bytes and lines read, the input left.\<close>

function read_headers :: "nat option \<Rightarrow> nat \<Rightarrow> nat \<Rightarrow> bytes \<Rightarrow> (frame_error + nat option) \<times> bytes" where
  "read_headers content_length header_bytes header_lines s =
     (case index_byte LF s of
        None \<Rightarrow> (Inl FrameEOF, [])
      | Some i \<Rightarrow>
          (let line = take (i + 1) s; rest = drop (i + 1) s;
               header_bytes = header_bytes + length line; header_lines = header_lines + 1 in
           if max_header_bytes < header_bytes \<or> max_header_lines < header_lines
           then (Inl (FrameFault ''LSP headers exceed configured limits''), rest)
           else if 8192 < length line then (Inl (FrameFault ''LSP header line exceeds 8 KiB''), rest)
           else
             (let line = trim_suffix [CR] (trim_suffix [LF] line) in
              if line = [] then (Inr content_length, rest)
              else (case cut_at (CHR '':'') line of
                  None \<Rightarrow> (Inl (FrameFault ''malformed LSP header''), rest)
                | Some (name, value) \<Rightarrow>
                    (if equal_fold_ascii (trim_space name) ''Content-Length''
                     then (if content_length \<noteq> None
                           then (Inl (FrameFault ''duplicate Content-Length header''), rest)
                           else (case go_atoi (trim_space value) of
                               Some n \<Rightarrow>
                                 (if n < 0 \<or> int max_message_bytes < n
                                  then (Inl (FrameFault ''invalid or excessive Content-Length''), rest)
                                  else read_headers (Some (nat n)) header_bytes header_lines rest)
                             | None \<Rightarrow> (Inl (FrameFault ''invalid or excessive Content-Length''), rest)))
                     else read_headers content_length header_bytes header_lines rest)))))"
  by pat_completeness auto
termination read_headers
  by (relation "measure (\<lambda>(l, b, n, s). length s)") (auto dest!: index_byte_Some)

declare read_headers.simps [simp del]

definition read_frame :: "bytes \<Rightarrow> (frame_error + bytes) \<times> bytes" where
  "read_frame s =
     (case read_headers None 0 0 s of
        (Inl e, rest) \<Rightarrow> (Inl e, rest)
      | (Inr None, rest) \<Rightarrow> (Inl (FrameFault ''missing Content-Length header''), rest)
      | (Inr (Some n), rest) \<Rightarrow>
          (if length rest < n
           then (Inl (if rest = [] then FrameEOF else FrameUnexpectedEOF), [])
           else (Inr (take n rest), drop n rest)))"

definition frame_bytes :: "bytes \<Rightarrow> bytes" where
  "frame_bytes payload = ''Content-Length: '' @ show_nat (length payload) @ [CR, LF, CR, LF] @ payload"

definition write_frame :: "('w, 'e) writer \<Rightarrow> 'w \<Rightarrow> bytes \<Rightarrow> 'e render_error option \<times> 'w" where
  \<comment> \<open>the payload marshalled, the writer present\<close>
  "write_frame w st payload =
     (case writer_write w st (frame_bytes payload) of
        (n, Some e, st) \<Rightarrow> (Some (WriterError e), st)
      | (n, None, st) \<Rightarrow>
          (if n \<noteq> int (length (frame_bytes payload)) then (Some ErrShortWrite, st) else (None, st)))"

declare max_message_bytes_def [go_eval] max_header_bytes_def [go_eval] max_header_lines_def [go_eval]
  read_headers.simps [go_eval] read_frame_def [go_eval]
  frame_bytes_def [go_eval] write_frame_def [go_eval]

subsection \<open>What is written is read back\<close>

lemma trim_space_number: "trim_space (CHR '' '' # show_nat n) = show_nat n"
proof -
  have digits: "list_all is_ascii (show_nat n)" using show_nat_digits [of _ n] by (force simp: list_all_iff is_ascii_def)
  let ?cs = "map (\<lambda>b. (code b, [b])) (show_nat n)"
  have chunks: "utf8_chunks (CHR '' '' # show_nat n) = (32, '' '') # ?cs"
    using ascii_chunks [OF digits, of "[]"] by simp
  have no_space: "\<not> is_space_rune (fst c)" if "c \<in> set ?cs" for c
    using that show_nat_digits [of _ n] by (fastforce simp: is_space_rune_def)
  have left: "dropWhile (\<lambda>c. is_space_rune (fst c)) xs = xs" if "set xs \<subseteq> set ?cs" for xs
    using that no_space by (cases xs) auto
  have "trim_chunks is_space_rune ((32, '' '') # ?cs) = ?cs"
    using left [of ?cs] left [of "rev ?cs"] by (simp add: trim_chunks_def trim_left_chunks_def is_space_rune_def)
  then show ?thesis by (simp add: trim_space_def trim_func_def chunks comp_def)
qed

text \<open>One header line within the limits.\<close>

lemma read_headers_line:
  assumes "LF \<notin> set line" and "header_bytes + length line < max_header_bytes" and "header_lines < max_header_lines"
    and "length line < 8192"
  shows "read_headers content_length header_bytes header_lines (line @ LF # rest) =
    (let line' = trim_suffix [CR] line; bytes' = header_bytes + (length line + 1); lines' = header_lines + 1 in
     if line' = [] then (Inr content_length, rest)
     else (case cut_at (CHR '':'') line' of
         None \<Rightarrow> (Inl (FrameFault ''malformed LSP header''), rest)
       | Some (name, value) \<Rightarrow>
           (if equal_fold_ascii (trim_space name) ''Content-Length''
            then (if content_length \<noteq> None then (Inl (FrameFault ''duplicate Content-Length header''), rest)
                  else (case go_atoi (trim_space value) of
                      Some n \<Rightarrow>
                        (if n < 0 \<or> int max_message_bytes < n
                         then (Inl (FrameFault ''invalid or excessive Content-Length''), rest)
                         else read_headers (Some (nat n)) bytes' lines' rest)
                    | None \<Rightarrow> (Inl (FrameFault ''invalid or excessive Content-Length''), rest)))
            else read_headers content_length bytes' lines' rest)))"
proof -
  have parts: "index_byte LF (line @ LF # rest) = Some (length line)"
      "take (length line + 1) (line @ LF # rest) = line @ [LF]" "drop (length line + 1) (line @ LF # rest) = rest"
    using index_byte_append_notin [OF assms(1)] by simp_all
  have len: "length (line @ [LF]) = length line + 1" by simp
  have ok: "\<not> (max_header_bytes < header_bytes + (length line + 1) \<or> max_header_lines < header_lines + 1)"
      "\<not> 8192 < length line + 1"
    using assms by simp_all
  show ?thesis
    by (subst read_headers.simps) (simp only: parts len ok option.case Let_def if_False trim_suffix_append)
qed

lemma read_headers_frame:
  assumes "length payload \<le> max_message_bytes"
  shows "read_headers None 0 0 (frame_bytes payload @ rest) = (Inr (Some (length payload)), payload @ rest)"
proof -
  let ?n = "show_nat (length payload)"
  let ?header = "''Content-Length: '' @ ?n"
  have n: "length payload < 10 ^ Suc 7" using assms by (simp add: max_message_bytes_def)
  define line where "line = ?header @ [CR]"
  have size: "length line \<le> 25" using length_show_nat [OF n] by (simp add: line_def)
  have no_lf: "LF \<notin> set line" using show_nat_digits [of LF "length payload"] by (auto simp: line_def)
  have frame: "frame_bytes payload @ rest = line @ LF # [CR] @ LF # payload @ rest"
    by (simp add: frame_bytes_def line_def)
  have trimmed: "trim_suffix [CR] line = ?header" unfolding line_def by (rule trim_suffix_append)
  have cut: "cut_at (CHR '':'') ?header = Some (''Content-Length'', CHR '' '' # ?n)" by (simp add: cut_at_def)
  have name: "equal_fold_ascii (trim_space ''Content-Length'') ''Content-Length''" by (simp add: go_eval)
  have atoi: "go_atoi (trim_space (CHR '' '' # ?n)) = Some (int (length payload))"
    unfolding trim_space_number by (rule go_atoi_number) (use assms in \<open>simp add: max_message_bytes_def\<close>)
  have empty: "trim_suffix [CR] [CR] = []" using trim_suffix_append [of "[CR]" "[]"] by simp
  have lone: "LF \<notin> set [CR]" by simp
  have limits: "0 + length line < max_header_bytes" "0 < max_header_lines" "length line < 8192"
      "0 + (length line + 1) + length [CR] < max_header_bytes" "0 + 1 < max_header_lines" "length [CR] < 8192"
    using size by (simp_all add: max_header_bytes_def max_header_lines_def)
  have one: "None = None" "(Some (int (length payload)) \<noteq> None) = True"
      "(int (length payload) < 0 \<or> int max_message_bytes < int (length payload)) = False" "?header \<noteq> []"
    using assms by simp_all
  have "read_headers None 0 0 (line @ LF # [CR] @ LF # payload @ rest)
      = read_headers (Some (length payload)) (0 + (length line + 1)) (0 + 1) ([CR] @ LF # payload @ rest)"
    unfolding read_headers_line [OF no_lf limits(1-3)] trimmed Let_def
    by (simp only: cut name atoi one(3,4) option.case prod.case if_False if_True simp_thms nat_int)
  also have "\<dots> = (Inr (Some (length payload)), payload @ rest)"
    unfolding read_headers_line [OF lone limits(4-6)] empty Let_def by (simp only: simp_thms if_True)
  finally show ?thesis unfolding frame .
qed

text \<open>
  A framed message is read back, whatever follows it: for every payload up to the limit of 16 MiB
  the reader returns exactly the payload and leaves exactly the rest of the input.
\<close>
theorem frame_read_back:
  assumes "length payload \<le> max_message_bytes"
  shows "read_frame (frame_bytes payload @ rest) = (Inr payload, rest)"
  using read_headers_frame [OF assms] by (simp add: read_frame_def)

theorem frame_read_back_witness:
  "read_frame (frame_bytes ''{}'' @ frame_bytes ''[]'') = (Inr ''{}'', frame_bytes ''[]'')"
  by (rule frame_read_back) (simp add: max_message_bytes_def)

subsection \<open>The limits hold\<close>

lemma read_headers_step:
  assumes "read_headers content_length hb hl s = (Inr r, rest)" and "index_byte LF s = Some i"
    and "line = take (i + 1) s" and "tail = drop (i + 1) s"
  shows "hb + length line \<le> max_header_bytes \<and> hl + 1 \<le> max_header_lines
    \<and> (r = content_length \<and> rest = tail
       \<or> (\<exists>l. (l = content_length \<or> (\<exists>n. l = Some n \<and> n \<le> max_message_bytes))
            \<and> read_headers l (hb + length line) (hl + 1) tail = (Inr r, rest)))"
proof -
  note run = assms(1) [unfolded read_headers.simps [of content_length hb hl s] assms(2) option.case Let_def
      assms(3,4) [symmetric]]
  have limits: "hb + length line \<le> max_header_bytes" "hl + 1 \<le> max_header_lines"
    using run by (simp_all split: if_split_asm)
  moreover have "\<not> 8192 < length line" using run limits by (simp split: if_split_asm)
  moreover have "\<not> (max_header_bytes < hb + length line \<or> max_header_lines < hl + 1)" using limits by simp
  ultimately have run: "(let line' = trim_suffix [CR] (trim_suffix [LF] line) in
      if line' = [] then (Inr content_length, tail)
      else case cut_at (CHR '':'') line' of
          None \<Rightarrow> (Inl (FrameFault ''malformed LSP header''), tail)
        | Some (name, value) \<Rightarrow>
            (if equal_fold_ascii (trim_space name) ''Content-Length''
             then (if content_length \<noteq> None then (Inl (FrameFault ''duplicate Content-Length header''), tail)
                   else (case go_atoi (trim_space value) of
                       Some n \<Rightarrow>
                         (if n < 0 \<or> int max_message_bytes < n
                          then (Inl (FrameFault ''invalid or excessive Content-Length''), tail)
                          else read_headers (Some (nat n)) (hb + length line) (hl + 1) tail)
                     | None \<Rightarrow> (Inl (FrameFault ''invalid or excessive Content-Length''), tail)))
             else read_headers content_length (hb + length line) (hl + 1) tail)) = (Inr r, rest)"
    using run by (simp only: if_False Let_def)
  have fault: "(Inl e, tail) \<noteq> (Inr r, rest)" for e :: frame_error by simp
  have small: "\<not> (n < 0 \<or> int max_message_bytes < n) \<Longrightarrow> nat n \<le> max_message_bytes" for n by (simp add: nat_le_iff)
  show ?thesis
  proof (cases "trim_suffix [CR] (trim_suffix [LF] line) = []")
    case True
    then show ?thesis using run limits by (simp add: Let_def)
  next
    case False
    then show ?thesis using run limits fault small
      by (simp only: Let_def if_False) (auto split: option.splits prod.splits if_split_asm)
  qed
qed

lemma read_headers_bounds:
  "read_headers content_length hb hl s = (Inr r, rest) \<Longrightarrow> (\<forall>n. content_length = Some n \<longrightarrow> n \<le> max_message_bytes) \<Longrightarrow>
   (\<forall>n. r = Some n \<longrightarrow> n \<le> max_message_bytes)
   \<and> (\<exists>header. s = header @ rest \<and> hb + length header \<le> max_header_bytes
        \<and> hl + count_list header LF \<le> max_header_lines)"
proof (induction s arbitrary: content_length hb hl rule: length_induct)
  case (1 s)
  obtain i where i: "index_byte LF s = Some i"
    using "1.prems"(1) by (cases "index_byte LF s") (simp_all add: read_headers.simps [of content_length hb hl s])
  define line where "line = take (i + 1) s"
  define tail where "tail = drop (i + 1) s"
  have s: "s = line @ tail" by (simp add: line_def tail_def)
  note at = index_byte_Some [OF i]
  then have "line = take i s @ [LF]" by (simp add: line_def take_Suc_conv_app_nth)
  then have one: "count_list line LF = 1" using at by (simp add: count_list_0_iff)
  have shorter: "length tail < length s" using at by (simp add: tail_def) linarith
  note step = read_headers_step [OF "1.prems"(1) i line_def tail_def]
  then have limits: "hb + length line \<le> max_header_bytes" "hl + 1 \<le> max_header_lines" by simp_all
  from step consider "r = content_length" "rest = tail"
    | l where "l = content_length \<or> (\<exists>n. l = Some n \<and> n \<le> max_message_bytes)"
        "read_headers l (hb + length line) (hl + 1) tail = (Inr r, rest)" by blast
  then show ?case
  proof cases
    case 1
    then show ?thesis using "1.prems"(2) limits s one by auto
  next
    case (2 l)
    then have "\<forall>n. l = Some n \<longrightarrow> n \<le> max_message_bytes" using "1.prems"(2) by auto
    then obtain header where "\<forall>n. r = Some n \<longrightarrow> n \<le> max_message_bytes" "tail = header @ rest"
        "hb + length line + length header \<le> max_header_bytes" "hl + 1 + count_list header LF \<le> max_header_lines"
      using "1.IH" shorter 2(2) by blast
    then show ?thesis using s one by (intro conjI exI [of _ "line @ header"]) simp_all
  qed
qed

text \<open>
  C32: Whatever arrives on the input, a message that the reader accepts consists of a header of at most
  64 KiB and at most 64 lines, and of a payload of at most 16 MiB: the payload and the rest that is
  left are exactly the bytes that follow the header.
\<close>
theorem frame_limits:
  assumes "read_frame s = (Inr payload, rest)"
  shows "\<exists>header. s = header @ payload @ rest \<and> length header \<le> 65536 \<and> count_list header LF \<le> 64
    \<and> length payload \<le> 16777216"
proof -
  obtain n body where headers: "read_headers None 0 0 s = (Inr (Some n), body)"
      and "payload = take n body" "rest = drop n body" "n \<le> length body"
    using assms by (auto simp: read_frame_def split: prod.splits sum.splits option.splits if_splits)
  then show ?thesis
    using read_headers_bounds [OF headers] by (auto simp: max_message_bytes_def max_header_bytes_def max_header_lines_def)
qed

theorem frame_limits_witness:
  "\<exists>header. frame_bytes ''{}'' @ ''next'' = header @ ''{}'' @ ''next'' \<and> length header \<le> 65536
     \<and> count_list header LF \<le> 64 \<and> length ''{}'' \<le> 16777216"
proof (rule frame_limits)
  have "length ''{}'' \<le> max_message_bytes" by (simp add: max_message_bytes_def)
  from read_headers_frame [OF this, of "''next''"]
  show "read_frame (frame_bytes ''{}'' @ ''next'') = (Inr ''{}'', ''next'')" by (simp add: read_frame_def)
qed

end
