(* ===== verification/Lsp_Server.thy ===== *)
theory Lsp_Server
  imports Lsp_Features Lsp_Frames "HOL-Library.Word"
begin

section \<open>The language server: internal/lsp/server.go\<close>

text \<open>
  The server as a machine: the main loop reads a frame, a request runs beside it and is answered in one
  step, a timer starts a run of the indexer, and a run builds a snapshot, stores it and publishes its
  diagnostics one by one. Each is an action, and actions come in any order. Decoding JSON is a
  parameter, writing to the client succeeds.
\<close>

subsection \<open>Messages\<close>

record rpc_message =
  rm_version :: bytes
  rm_id :: bytes
  rm_method :: bytes
  rm_params :: bytes

datatype json_kind = JsonString | JsonNumber bool | JsonOther

record initialize_params =
  ip_root_uri :: bytes
  ip_root_path :: bytes
  ip_folders :: "bytes list"

text \<open>
  The decoders; \<open>None\<close> is an error. A number says whether it is integral; a change says for every edit
  whether it has a range, and its text.
\<close>

record lsp_codec =
  lc_message :: "bytes \<Rightarrow> rpc_message option"
  lc_kind :: "bytes \<Rightarrow> json_kind option"
  lc_initialize :: "bytes \<Rightarrow> initialize_params option"
  lc_position :: "bytes \<Rightarrow> (bytes \<times> lsp_position) option"
  lc_symbol :: "bytes \<Rightarrow> bytes option"
  lc_cancel :: "bytes \<Rightarrow> bytes option"
  lc_open :: "bytes \<Rightarrow> (bytes \<times> int \<times> bytes) option"
  lc_change :: "bytes \<Rightarrow> (bytes \<times> int \<times> (bool \<times> bytes) list) option"
  lc_save :: "bytes \<Rightarrow> (bytes \<times> bytes option) option"
  lc_close :: "bytes \<Rightarrow> bytes option"

record lsp_env =
  le_codec :: lsp_codec
  le_index :: index_env
  le_letters :: letter_tables
  le_lower :: "nat \<Rightarrow> nat"
  le_host :: fs_host
  le_eval_symlinks :: "world \<Rightarrow> bytes \<Rightarrow> bytes option"

record rpc_error =
  er_code :: int
  er_message :: bytes

definition err_parse :: int where "err_parse = -32700"
definition err_invalid_request :: int where "err_invalid_request = -32600"
definition err_method_not_found :: int where "err_method_not_found = -32601"
definition err_invalid_params :: int where "err_invalid_params = -32602"
definition err_request_cancelled :: int where "err_request_cancelled = -32800"

definition rpc_fault :: "int \<Rightarrow> bytes \<Rightarrow> rpc_error" where
  "rpc_fault n message = \<lparr>er_code = n, er_message = message\<rparr>"

definition valid_request_id :: "lsp_codec \<Rightarrow> bytes \<Rightarrow> bool" where
  "valid_request_id lc k =
     (if k = [] then True
      else (case lc_kind lc k of
          Some JsonString \<Rightarrow> True
        | Some (JsonNumber integral) \<Rightarrow> integral
        | _ \<Rightarrow> False))"

definition response_id :: "bytes \<Rightarrow> bytes" where
  "response_id k = (if k = [] then ''null'' else k)"

datatype lsp_result =
    NullResult
  | Capabilities
  | CompletionResult completion_answer
  | HoverResult hover_result
  | LocationResult lsp_location
  | SymbolsResult "document_symbol list"

text \<open>What is written: the answer to a frame or to the request of a number, or published diagnostics.\<close>

datatype lsp_output =
    FrameAnswer bytes rpc_error
  | RequestAnswer nat bytes "rpc_error + lsp_result"
  | Publication published

subsection \<open>State\<close>

record lsp_request =
  lr_serial :: nat
  lr_message :: rpc_message
  lr_canceled :: bool

datatype run_phase =
    RunStarted
  | RunReady workspace_snapshot nat
  | RunPublishing "published list" nat nat

record index_run =
  ir_serial :: nat
  ir_generation :: "64 word"
  ir_canceled :: bool
  ir_phase :: run_phase

record lsp_server =
  sv_input :: bytes
  sv_returned :: "bytes option option"
  sv_root :: bytes
  sv_initialized :: bool
  sv_shutdown :: bool
  sv_overlays :: "(bytes \<times> lsp_document) list"
  sv_snapshot :: workspace_snapshot
  sv_generation :: "64 word"
  sv_timers :: "64 word list"
  sv_cancel :: "nat option"
  sv_runs :: "index_run list"
  sv_run_count :: nat
  sv_pending :: "lsp_request list"
  sv_requests :: "(bytes \<times> nat) list"
  sv_request_count :: nat
  sv_output :: "lsp_output list"
  sv_log :: "(bytes \<times> nat) list"
  sv_world :: world

definition new_server :: "bytes \<Rightarrow> world \<Rightarrow> lsp_server" where
  "new_server input w = \<lparr>sv_input = input, sv_returned = None, sv_root = [], sv_initialized = False, sv_shutdown = False,
     sv_overlays = [], sv_snapshot = empty_snapshot, sv_generation = 0, sv_timers = [], sv_cancel = None, sv_runs = [],
     sv_run_count = 0, sv_pending = [], sv_requests = [], sv_request_count = 0, sv_output = [], sv_log = [], sv_world = w\<rparr>"

definition send_output :: "lsp_output \<Rightarrow> lsp_server \<Rightarrow> lsp_server" where
  "send_output out s = s\<lparr>sv_output := sv_output s @ [out]\<rparr>"

definition log_line :: "bytes \<Rightarrow> nat \<Rightarrow> lsp_server \<Rightarrow> lsp_server" where
  "log_line message n s = s\<lparr>sv_log := sv_log s @ [(message, n)]\<rparr>"

definition cancel_run :: "nat option \<Rightarrow> lsp_server \<Rightarrow> lsp_server" where
  "cancel_run serial s = s\<lparr>sv_runs :=
     map (\<lambda>r. if Some (ir_serial r) = serial then r\<lparr>ir_canceled := True\<rparr> else r) (sv_runs s)\<rparr>"

text \<open>
  \<open>scheduleReindex\<close>: the run before is canceled; a timer that was stopped is one that does not fire,
  and one that fires too late finds another generation.
\<close>

definition schedule_reindex :: "lsp_server \<Rightarrow> lsp_server" where
  "schedule_reindex s =
     (let s = cancel_run (sv_cancel s) s; generation = sv_generation s + 1 in
      s\<lparr>sv_generation := generation, sv_timers := sv_timers s @ [generation]\<rparr>)"

subsection \<open>Notifications\<close>

definition update_overlay :: "lsp_env \<Rightarrow> bytes \<Rightarrow> int \<Rightarrow> bytes \<Rightarrow> bool \<Rightarrow> lsp_server \<Rightarrow> lsp_server" where
  "update_overlay env uri version content open_flag s =
     (if max_document_bytes < length content \<or> \<not> has_suffix ''.sando'' (to_lower (le_lower env) uri) then s
      else (case file_uri_to_path (ie_urls (le_index env)) (le_host env) uri of
          None \<Rightarrow> s
        | Some path \<Rightarrow>
            (case editor_path_allowed (le_host env) (sv_root s) path (sv_world s) of
               (False, w) \<Rightarrow> s\<lparr>sv_world := w\<rparr>
             | (True, w) \<Rightarrow>
                 (let version = (case map_of (sv_overlays s) path of
                        Some previous \<Rightarrow> (if version < 0 then dc_version previous else version) | None \<Rightarrow> version)
                  in s\<lparr>sv_world := w, sv_overlays := put path
                       \<lparr>dc_uri = uri, dc_path = path, dc_text = content, dc_version = version, dc_open = open_flag\<rparr>
                       (sv_overlays s)\<rparr>))))"

definition cancel_request :: "bytes \<Rightarrow> lsp_server \<Rightarrow> lsp_server" where
  "cancel_request k s =
     (case map_of (sv_requests s) k of
        None \<Rightarrow> s
      | Some serial \<Rightarrow> s\<lparr>sv_pending :=
          map (\<lambda>p. if lr_serial p = serial then p\<lparr>lr_canceled := True\<rparr> else p) (sv_pending s)\<rparr>)"

definition handle_notification :: "lsp_env \<Rightarrow> bytes \<Rightarrow> bytes \<Rightarrow> lsp_server \<Rightarrow> lsp_server" where
  "handle_notification env meth params s =
     (let lc = le_codec env in
      if meth = ''initialized'' then schedule_reindex s
      else if meth = ''$/cancelRequest'' then (case lc_cancel lc params of Some k \<Rightarrow> cancel_request k s | None \<Rightarrow> s)
      else if meth = ''textDocument/didOpen''
      then (case lc_open lc params of
          Some (uri, version, content) \<Rightarrow> schedule_reindex (update_overlay env uri version content True s)
        | None \<Rightarrow> s)
      else if meth = ''textDocument/didChange''
      then (case lc_change lc params of
          Some (uri, version, changes) \<Rightarrow>
            (if changes = [] then s
             else (case last changes of (has_range, content) \<Rightarrow>
               if has_range then s else schedule_reindex (update_overlay env uri version content True s)))
        | None \<Rightarrow> s)
      else if meth = ''textDocument/didSave''
      then (case lc_save lc params of
          Some (uri, content) \<Rightarrow>
            schedule_reindex (case content of Some c \<Rightarrow> update_overlay env uri (-1) c True s | None \<Rightarrow> s)
        | None \<Rightarrow> s)
      else if meth = ''textDocument/didClose''
      then (case lc_close lc params of
          Some uri \<Rightarrow>
            (case file_uri_to_path (ie_urls (le_index env)) (le_host env) uri of
               Some path \<Rightarrow> schedule_reindex (s\<lparr>sv_overlays := filter (\<lambda>(k, d). k \<noteq> path) (sv_overlays s)\<rparr>)
             | None \<Rightarrow> s)
        | None \<Rightarrow> s)
      else if meth = ''workspace/didChangeWatchedFiles'' then schedule_reindex s
      else s)"

subsection \<open>Requests\<close>

definition initialize_root :: "lsp_env \<Rightarrow> initialize_params \<Rightarrow> bytes option" where
  "initialize_root env p =
     (let h = le_host env; root_uri = (case ip_folders p of [uri] \<Rightarrow> uri | _ \<Rightarrow> ip_root_uri p) in
      if root_uri \<noteq> [] then file_uri_to_path (ie_urls (le_index env)) h root_uri
      else if ip_root_path p \<noteq> [] then (case absolute_path h (ip_root_path p) of Inr a \<Rightarrow> Some a | Inl e \<Rightarrow> None)
      else (case host_getwd_error h of None \<Rightarrow> Some (host_dir h) | Some e \<Rightarrow> None))"

definition initialize :: "lsp_env \<Rightarrow> bytes \<Rightarrow> lsp_server \<Rightarrow> (rpc_error + lsp_result) \<times> lsp_server" where
  "initialize env params s =
     (case lc_initialize (le_codec env) params of
        None \<Rightarrow> (Inl (rpc_fault err_invalid_params ''invalid initialize parameters''), s)
      | Some p \<Rightarrow>
          (if 1 < length (ip_folders p)
           then (Inl (rpc_fault err_invalid_params ''Hime-san accepts one workspace folder per language-server process''), s)
           else (case initialize_root env p of
               None \<Rightarrow> (Inl (rpc_fault err_invalid_params ''workspace root is not a local filesystem path''), s)
             | Some root \<Rightarrow>
                 (case lstat (le_host env) root (sv_world s) of (r, w) \<Rightarrow>
                    (let s = s\<lparr>sv_world := w\<rparr> in
                     if (case r of Inr entry \<Rightarrow> \<not> is_directory entry | Inl e \<Rightarrow> True)
                     then (Inl (rpc_fault err_invalid_params ''workspace root must be an existing non-symlink directory''), s)
                     else if (case le_eval_symlinks env w root of
                         None \<Rightarrow> True | Some evaluated \<Rightarrow> path_clean evaluated \<noteq> path_clean root)
                     then (Inl (rpc_fault err_invalid_params ''workspace roots reached through symlinks are not supported''), s)
                     else if sv_initialized s
                     then (Inl (rpc_fault err_invalid_request ''initialize may be sent only once''), s)
                     else (Inr Capabilities, s\<lparr>sv_root := path_clean root, sv_initialized := True\<rparr>))))))"

definition feature_request :: "lsp_env \<Rightarrow> bytes \<Rightarrow> bytes \<Rightarrow> workspace_snapshot \<Rightarrow> rpc_error + lsp_result" where
  "feature_request env meth params sn =
     (let lc = le_codec env; ut = ie_urls (le_index env); h = le_host env; lt = le_letters env in
      if meth = ''textDocument/completion''
      then (case lc_position lc params of
          None \<Rightarrow> Inl (rpc_fault err_invalid_params ''invalid completion parameters'')
        | Some (uri, position) \<Rightarrow> Inr (CompletionResult (completions ut h sn sn uri position)))
      else if meth = ''textDocument/hover''
      then (case lc_position lc params of
          None \<Rightarrow> Inl (rpc_fault err_invalid_params ''invalid hover parameters'')
        | Some (uri, position) \<Rightarrow>
            Inr (case hover ut h lt sn uri position of Some r \<Rightarrow> HoverResult r | None \<Rightarrow> NullResult))
      else if meth = ''textDocument/definition''
      then (case lc_position lc params of
          None \<Rightarrow> Inl (rpc_fault err_invalid_params ''invalid definition parameters'')
        | Some (uri, position) \<Rightarrow>
            Inr (case find_definition ut h lt sn uri position of Some l \<Rightarrow> LocationResult l | None \<Rightarrow> NullResult))
      else if meth = ''textDocument/documentSymbol''
      then (case lc_symbol lc params of
          None \<Rightarrow> Inl (rpc_fault err_invalid_params ''invalid document-symbol parameters'')
        | Some uri \<Rightarrow> Inr (SymbolsResult (document_symbols ut h lt sn uri)))
      else Inl (rpc_fault err_method_not_found ''method not supported''))"

definition handle_request ::
  "lsp_env \<Rightarrow> bool \<Rightarrow> bytes \<Rightarrow> bytes \<Rightarrow> lsp_server \<Rightarrow> (rpc_error + lsp_result) \<times> lsp_server" where
  "handle_request env canceled meth params s =
     (if meth = ''initialize'' then initialize env params s
      else if meth = ''shutdown'' then (Inr NullResult, (cancel_run (sv_cancel s) s)\<lparr>sv_shutdown := True\<rparr>)
      else if \<not> (sv_initialized s \<and> \<not> sv_shutdown s)
      then (Inl (rpc_fault err_invalid_request ''language server is not initialized''), s)
      else if canceled then (Inl (rpc_fault err_request_cancelled ''request canceled''), s)
      else (feature_request env meth params (sv_snapshot s), s))"

definition start_request :: "rpc_message \<Rightarrow> lsp_server \<Rightarrow> lsp_server" where
  "start_request message s =
     (let serial = sv_request_count s in
      s\<lparr>sv_request_count := serial + 1, sv_requests := put (rm_id message) serial (sv_requests s),
        sv_pending := sv_pending s @ [\<lparr>lr_serial = serial, lr_message = message, lr_canceled = False\<rparr>]\<rparr>)"

text \<open>A request that runs to its end: handled, forgotten, answered.\<close>

definition serve_request :: "lsp_env \<Rightarrow> nat \<Rightarrow> lsp_server \<Rightarrow> lsp_server" where
  "serve_request env serial s =
     (case find (\<lambda>p. lr_serial p = serial) (sv_pending s) of
        None \<Rightarrow> s
      | Some p \<Rightarrow>
          (let message = lr_message p; canceled = lr_canceled p \<or> sv_returned s \<noteq> None in
           case handle_request env canceled (rm_method message) (rm_params message) s of
             (r, s) \<Rightarrow>
               (let r = (case r of
                      Inr result \<Rightarrow> (if canceled then Inl (rpc_fault err_request_cancelled ''request canceled'') else r)
                    | Inl e \<Rightarrow> r)
                in send_output (RequestAnswer serial (response_id (rm_id message)) r)
                     (s\<lparr>sv_pending := filter (\<lambda>p. lr_serial p \<noteq> serial) (sv_pending s),
                        sv_requests := filter (\<lambda>(k, n). k \<noteq> rm_id message) (sv_requests s)\<rparr>))))"

subsection \<open>The main loop\<close>

definition return_run :: "bytes option \<Rightarrow> lsp_server \<Rightarrow> lsp_server" where
  \<comment> \<open>the deferred function: everything is canceled, what runs is waited for\<close>
  "return_run err s =
     (s\<lparr>sv_returned := Some err, sv_generation := sv_generation s + 1,
        sv_runs := map (\<lambda>r. r\<lparr>ir_canceled := True\<rparr>) (sv_runs s),
        sv_pending := map (\<lambda>p. p\<lparr>lr_canceled := True\<rparr>) (sv_pending s)\<rparr>)"

definition handle_payload :: "lsp_env \<Rightarrow> bytes \<Rightarrow> lsp_server \<Rightarrow> lsp_server" where
  "handle_payload env payload s =
     (case lc_message (le_codec env) payload of
        None \<Rightarrow> send_output (FrameAnswer ''null'' (rpc_fault err_parse ''invalid JSON'')) s
      | Some m \<Rightarrow>
          (if rm_version m \<noteq> ''2.0'' \<or> rm_method m = [] \<or> \<not> valid_request_id (le_codec env) (rm_id m)
           then send_output (FrameAnswer (response_id (rm_id m)) (rpc_fault err_invalid_request ''invalid JSON-RPC request'')) s
           else if rm_id m = []
           then (if rm_method m = ''exit'' then return_run None s else handle_notification env (rm_method m) (rm_params m) s)
           else start_request m s))"

definition frame_fault_text :: "frame_error \<Rightarrow> bytes" where
  "frame_fault_text e = (case e of FrameEOF \<Rightarrow> ''EOF'' | FrameUnexpectedEOF \<Rightarrow> ''unexpected EOF'' | FrameFault t \<Rightarrow> t)"

definition read_message :: "lsp_env \<Rightarrow> lsp_server \<Rightarrow> lsp_server" where
  "read_message env s =
     (case read_frame (sv_input s) of
        (Inl e, rest) \<Rightarrow>
          return_run (if e = FrameEOF then None else Some (''read LSP frame: '' @ frame_fault_text e)) (s\<lparr>sv_input := rest\<rparr>)
      | (Inr payload, rest) \<Rightarrow> handle_payload env payload (s\<lparr>sv_input := rest\<rparr>))"

subsection \<open>Runs of the indexer\<close>

definition fire_timer :: "64 word \<Rightarrow> lsp_server \<Rightarrow> lsp_server" where
  "fire_timer generation s =
     (if generation \<notin> set (sv_timers s) then s
      else
        (let s = s\<lparr>sv_timers := remove1 generation (sv_timers s)\<rparr> in
         if sv_generation s \<noteq> generation then s
         else s\<lparr>sv_run_count := sv_run_count s + 1, sv_cancel := Some (sv_run_count s),
                sv_runs := sv_runs s @ [\<lparr>ir_serial = sv_run_count s, ir_generation = generation,
                  ir_canceled = (sv_returned s \<noteq> None), ir_phase = RunStarted\<rparr>]\<rparr>))"

definition end_run :: "index_run \<Rightarrow> lsp_server \<Rightarrow> lsp_server" where
  "end_run r s =
     s\<lparr>sv_runs := filter (\<lambda>x. ir_serial x \<noteq> ir_serial r) (sv_runs s),
       sv_cancel := (if sv_generation s = ir_generation r then None else sv_cancel s)\<rparr>"

definition set_phase :: "nat \<Rightarrow> run_phase \<Rightarrow> lsp_server \<Rightarrow> lsp_server" where
  "set_phase serial phase s =
     s\<lparr>sv_runs := map (\<lambda>r. if ir_serial r = serial then r\<lparr>ir_phase := phase\<rparr> else r) (sv_runs s)\<rparr>"

definition ask_context :: "bool \<Rightarrow> nat \<Rightarrow> bytes option" where
  "ask_context canceled t = (if canceled then Some ''context canceled'' else None)"

text \<open>One step of a run: build, store, publish one, end.\<close>

definition step_run :: "lsp_env \<Rightarrow> nat \<Rightarrow> lsp_server \<Rightarrow> lsp_server" where
  "step_run env serial s =
     (case find (\<lambda>r. ir_serial r = serial) (sv_runs s) of
        None \<Rightarrow> s
      | Some r \<Rightarrow>
          (case ir_phase r of
             RunStarted \<Rightarrow>
               (if sv_root s = [] then end_run r s
                else
                  (let canceled = ask_context (ir_canceled r) in
                   case build_snapshot ((le_index env)\<lparr>ie_canceled := canceled\<rparr>) ((le_host env)\<lparr>host_ctx := canceled\<rparr>)
                       (sv_root s) (sv_overlays s) (sv_world s) of
                     (Inl (Canceled e), w) \<Rightarrow> end_run r (s\<lparr>sv_world := w\<rparr>)
                   | (Inl (WorkspaceError e), w) \<Rightarrow> log_line ''analysis failed'' 1 (end_run r (s\<lparr>sv_world := w\<rparr>))
                   | (Inr (sn, n), w) \<Rightarrow> set_phase serial (RunReady sn n) (s\<lparr>sv_world := w\<rparr>)))
           | RunReady sn n \<Rightarrow>
               set_phase serial
                 (RunPublishing (publications (ie_urls (le_index env)) (le_host env) (sv_snapshot s) sn) n
                    (length (sn_documents sn)))
                 (s\<lparr>sv_snapshot := sn\<rparr>)
           | RunPublishing [] n m \<Rightarrow>
               end_run r (log_line ''analysis completed'' m
                 (if n \<noteq> 0 then log_line ''workspace discovery reported boundary diagnostics'' n s else s))
           | RunPublishing (p # ps) n m \<Rightarrow> set_phase serial (RunPublishing ps n m) (send_output (Publication p) s)))"

subsection \<open>All histories\<close>

datatype lsp_action = ReadMessage | ServeRequest nat | FireTimer "64 word" | StepRun nat

fun lsp_step :: "lsp_env \<Rightarrow> lsp_action \<Rightarrow> lsp_server \<Rightarrow> lsp_server" where
  "lsp_step env ReadMessage s = (if sv_returned s \<noteq> None then s else read_message env s)"
| "lsp_step env (ServeRequest serial) s = serve_request env serial s"
| "lsp_step env (FireTimer generation) s = fire_timer generation s"
| "lsp_step env (StepRun serial) s = step_run env serial s"

definition run_server :: "lsp_env \<Rightarrow> lsp_action list \<Rightarrow> lsp_server \<Rightarrow> lsp_server" where
  "run_server env actions s = foldl (\<lambda>s a. lsp_step env a s) s actions"

end
