(* ===== verification/Lsp_Histories.thy ===== *)
theory Lsp_Histories
  imports Lsp_Server
begin

section \<open>The requests of the language server in every history\<close>

text \<open>
  The main loop, the requests, the timers and the runs of the indexer act in any order; whatever the
  order, every request is answered exactly once, with the id it came with.
\<close>

subsection \<open>Requests\<close>

definition answer_of :: "lsp_output \<Rightarrow> (nat \<times> bytes \<times> (rpc_error + lsp_result)) option" where
  "answer_of out = (case out of RequestAnswer n k r \<Rightarrow> Some (n, k, r) | _ \<Rightarrow> None)"

definition answers :: "lsp_server \<Rightarrow> (nat \<times> bytes \<times> (rpc_error + lsp_result)) list" where
  "answers s = List.map_filter answer_of (sv_output s)"

definition waiting :: "lsp_server \<Rightarrow> (nat \<times> bytes) list" where
  "waiting s = map (\<lambda>p. (lr_serial p, rm_id (lr_message p))) (sv_pending s)"

definition same_requests :: "lsp_server \<Rightarrow> lsp_server \<Rightarrow> bool" where
  "same_requests s s' =
     (sv_request_count s' = sv_request_count s \<and> waiting s' = waiting s \<and> answers s' = answers s)"

lemma same_requests_refl [simp]: "same_requests s s" by (simp add: same_requests_def)

lemma same_requests_trans: "same_requests s s' \<Longrightarrow> same_requests s' s'' \<Longrightarrow> same_requests s s''"
  by (simp add: same_requests_def)

lemma same_requests_ops [simp]:
  "same_requests s (cancel_run c s)" "same_requests s (schedule_reindex s)" "same_requests s (end_run r s)"
  "same_requests s (set_phase n phase s)" "same_requests s (log_line m n s)" "same_requests s (fire_timer g s)"
  "same_requests s (cancel_request k s)"
  by (simp_all add: same_requests_def cancel_run_def schedule_reindex_def end_run_def set_phase_def log_line_def
      fire_timer_def cancel_request_def waiting_def answers_def Let_def comp_def split: option.split)

lemma same_requests_update [simp]:
  "same_requests s (s\<lparr>sv_world := w\<rparr>)" "same_requests s (s\<lparr>sv_overlays := m\<rparr>)" "same_requests s (s\<lparr>sv_input := i\<rparr>)"
  "same_requests s (s\<lparr>sv_snapshot := sn\<rparr>)" "same_requests s (s\<lparr>sv_shutdown := b\<rparr>)"
  by (simp_all add: same_requests_def waiting_def answers_def)

lemma same_requests_overlay: "same_requests s (update_overlay env uri version content b s)"
  by (auto simp: update_overlay_def Let_def same_requests_def waiting_def answers_def split: option.split prod.split bool.split)

lemma same_requests_schedule: "same_requests s s' \<Longrightarrow> same_requests s (schedule_reindex s')"
  by (rule same_requests_trans [OF _ same_requests_ops(2)])

lemma same_requests_notification: "same_requests s (handle_notification env m p s)"
  by (simp add: handle_notification_def Let_def same_requests_schedule same_requests_overlay split: option.split prod.split)

lemma same_requests_return: "same_requests s (return_run e s)"
  by (simp add: same_requests_def return_run_def waiting_def answers_def comp_def)

lemma same_requests_write: "answer_of out = None \<Longrightarrow> same_requests s (send_output out s)"
  by (simp add: same_requests_def send_output_def waiting_def answers_def List.map_filter_def)

lemma same_requests_initialize: "same_requests s (snd (initialize env p s))"
  by (auto simp: initialize_def Let_def same_requests_def waiting_def answers_def split: option.split prod.split)

lemma same_requests_handle: "same_requests s (snd (handle_request env canceled m p s))"
  by (simp add: handle_request_def same_requests_initialize)
     (simp add: same_requests_def waiting_def answers_def cancel_run_def)

lemma same_requests_run: "same_requests s (step_run env n s)"
proof -
  have ended: "same_requests s s' \<Longrightarrow> same_requests s (end_run r s')" for r s'
    by (rule same_requests_trans [OF _ same_requests_ops(3)])
  have logged: "same_requests s s' \<Longrightarrow> same_requests s (log_line l k s')" for l k s'
    by (rule same_requests_trans [OF _ same_requests_ops(5)])
  have moved: "same_requests s s' \<Longrightarrow> same_requests s (set_phase k phase s')" for k phase s'
    by (rule same_requests_trans [OF _ same_requests_ops(4)])
  show ?thesis
    by (auto simp: step_run_def ended logged moved same_requests_write answer_of_def Let_def
        split: option.split run_phase.split sum.split index_error.split prod.split list.split)
qed

text \<open>The requests read so far, by their ids; the position in the list is the serial number.\<close>

definition request_read :: "lsp_env \<Rightarrow> lsp_server \<Rightarrow> bytes list" where
  "request_read env s =
     (if sv_returned s \<noteq> None then []
      else (case fst (read_frame (sv_input s)) of
          Inl e \<Rightarrow> []
        | Inr payload \<Rightarrow>
            (case lc_message (le_codec env) payload of
               None \<Rightarrow> []
             | Some m \<Rightarrow>
                 (if rm_version m \<noteq> ''2.0'' \<or> rm_method m = [] \<or> \<not> valid_request_id (le_codec env) (rm_id m) \<or> rm_id m = []
                  then [] else [rm_id m]))))"

fun requests_read :: "lsp_env \<Rightarrow> lsp_action list \<Rightarrow> lsp_server \<Rightarrow> bytes list" where
  "requests_read env [] s = []"
| "requests_read env (a # actions) s =
     (if a = ReadMessage then request_read env s else []) @ requests_read env actions (lsp_step env a s)"

definition numbered :: "bytes list \<Rightarrow> lsp_server \<Rightarrow> bool" where
  "numbered ids s =
     (sv_request_count s = length ids
      \<and> distinct (map fst (answers s) @ map fst (waiting s))
      \<and> set (map fst (answers s) @ map fst (waiting s)) = {..<length ids}
      \<and> (\<forall>(n, k) \<in> set (waiting s). k = ids ! n)
      \<and> (\<forall>(n, k, r) \<in> set (answers s). k = response_id (ids ! n)))"

lemma numbered_same: "same_requests s s' \<Longrightarrow> numbered ids s \<Longrightarrow> numbered ids s'"
  by (simp add: numbered_def same_requests_def)

lemma numberedD:
  assumes "numbered ids s"
  shows "sv_request_count s = length ids" "distinct (map fst (answers s))" "distinct (map fst (waiting s))"
    "set (map fst (answers s)) \<inter> set (map fst (waiting s)) = {}"
    "set (map fst (answers s)) \<union> set (map fst (waiting s)) = {..<length ids}"
    "(n, k) \<in> set (waiting s) \<Longrightarrow> k = ids ! n" "(n, k, r) \<in> set (answers s) \<Longrightarrow> k = response_id (ids ! n)"
  using assms unfolding numbered_def by auto

lemma numbered_below:
  assumes "numbered ids s"
  shows "p \<in> set (waiting s) \<Longrightarrow> fst p < length ids" "q \<in> set (answers s) \<Longrightarrow> fst q < length ids"
  using numberedD(5) [OF assms] by (metis UnI1 UnI2 image_eqI lessThan_iff list.set_map)+

lemma start_request_moves:
  "waiting (start_request m s) = waiting s @ [(sv_request_count s, rm_id m)]"
  "answers (start_request m s) = answers s" "sv_request_count (start_request m s) = Suc (sv_request_count s)"
  by (simp_all add: start_request_def Let_def waiting_def answers_def)

lemma numbered_start:
  assumes "numbered ids s"
  shows "numbered (ids @ [rm_id m]) (start_request m s)"
proof -
  note old = numberedD [OF assms] and below = numbered_below [OF assms]
  have set: "set (map fst (answers s) @ map fst (waiting s)) = {..<length ids}"
    and dist: "distinct (map fst (answers s) @ map fst (waiting s))"
    using assms unfolding numbered_def by blast+
  have all: "map fst (answers (start_request m s)) @ map fst (waiting (start_request m s))
      = (map fst (answers s) @ map fst (waiting s)) @ [length ids]"
    by (simp add: start_request_moves old(1))
  have "distinct ((map fst (answers s) @ map fst (waiting s)) @ [length ids])"
    unfolding distinct_append [of _ "[length ids]"] set using dist by simp
  moreover have "set ((map fst (answers s) @ map fst (waiting s)) @ [length ids]) = {..<length (ids @ [rm_id m])}"
    unfolding set_append [of _ "[length ids]"] set by (simp add: lessThan_Suc)
  moreover have "k = (ids @ [rm_id m]) ! n" if m: "(n, k) \<in> set (waiting (start_request m s))" for n k
    using m old(6) [of n k] below(1) [of "(n, k)"] by (auto simp: start_request_moves old(1) nth_append)
  moreover have "k = response_id ((ids @ [rm_id m]) ! n)" if m: "(n, k, r) \<in> set (answers (start_request m s))" for n k r
    using m old(7) [of n k r] below(2) [of "(n, k, r)"] by (auto simp: start_request_moves nth_append)
  moreover have "sv_request_count (start_request m s) = length (ids @ [rm_id m])"
    by (simp add: start_request_moves old(1))
  ultimately show ?thesis unfolding numbered_def all by blast
qed

lemma waiting_find:
  assumes "find (\<lambda>p. lr_serial p = n) (sv_pending s) = Some p"
  shows "(n, rm_id (lr_message p)) \<in> set (waiting s)"
  using assms by (force simp: waiting_def find_Some_iff in_set_conv_nth)

lemma serve_request_moves:
  assumes "find (\<lambda>p. lr_serial p = n) (sv_pending s) = Some p"
  obtains r where "answers (serve_request env n s) = answers s @ [(n, response_id (rm_id (lr_message p)), r)]"
    "waiting (serve_request env n s) = filter (\<lambda>x. fst x \<noteq> n) (waiting s)"
    "sv_request_count (serve_request env n s) = sv_request_count s"
proof -
  let ?h = "handle_request env (lr_canceled p \<or> sv_returned s \<noteq> None) (rm_method (lr_message p)) (rm_params (lr_message p)) s"
  obtain r s1 where h: "?h = (r, s1)" by fastforce
  have same: "same_requests s s1" using same_requests_handle [of s env] h by (metis snd_conv)
  have w: "map (\<lambda>p. (lr_serial p, rm_id (lr_message p))) (filter (\<lambda>p. lr_serial p \<noteq> n) ps)
      = filter (\<lambda>x. fst x \<noteq> n) (map (\<lambda>p. (lr_serial p, rm_id (lr_message p))) ps)" for ps
    by (induction ps) auto
  show ?thesis
    by (rule that; use same h assms w [of "sv_pending s1"] in
        \<open>simp add: serve_request_def Let_def send_output_def answers_def answer_of_def waiting_def same_requests_def
          List.map_filter_def\<close>)
qed

lemma numbered_serve:
  assumes "numbered ids s"
  shows "numbered ids (serve_request env n s)"
proof (cases "find (\<lambda>p. lr_serial p = n) (sv_pending s)")
  case None
  then show ?thesis using assms by (simp add: serve_request_def)
next
  case (Some p)
  let ?k = "rm_id (lr_message p)"
  from serve_request_moves [OF Some, of env] obtain r where
    moved: "answers (serve_request env n s) = answers s @ [(n, response_id ?k, r)]"
      "waiting (serve_request env n s) = filter (\<lambda>x. fst x \<noteq> n) (waiting s)"
      "sv_request_count (serve_request env n s) = sv_request_count s" by blast
  have member: "(n, ?k) \<in> set (waiting s)" by (rule waiting_find [OF Some])
  note old = numberedD [OF assms]
  have "n \<in> set (map fst (waiting s))" using member by force
  then have fresh: "n \<notin> set (map fst (answers s))" using old(4) by blast
  have left: "map fst (filter (\<lambda>x. fst x \<noteq> n) (waiting s)) = filter (\<lambda>k. k \<noteq> n) (map fst (waiting s))"
    by (simp add: filter_map comp_def)
  have all: "map fst (answers (serve_request env n s)) @ map fst (waiting (serve_request env n s))
      = (map fst (answers s) @ [n]) @ filter (\<lambda>k. k \<noteq> n) (map fst (waiting s))"
    by (simp add: moved left)
  have "distinct ((map fst (answers s) @ [n]) @ filter (\<lambda>k. k \<noteq> n) (map fst (waiting s)))"
    using fresh old(2,3,4) by (simp only: distinct_append) auto
  moreover have "set ((map fst (answers s) @ [n]) @ filter (\<lambda>k. k \<noteq> n) (map fst (waiting s))) = {..<length ids}"
    using old(5) \<open>n \<in> _\<close> by (simp only: set_append set_filter) auto
  moreover have "x = ids ! i" if m: "(i, x) \<in> set (waiting (serve_request env n s))" for i x
    using m old(6) [of i x] by (simp add: moved)
  moreover have "x = response_id (ids ! i)" if m: "(i, x, y) \<in> set (answers (serve_request env n s))" for i x y
    using m old(7) [of i x y] old(6) [OF member] by (auto simp: moved)
  moreover have "sv_request_count (serve_request env n s) = length ids" by (simp add: moved old(1))
  ultimately show ?thesis unfolding numbered_def all by blast
qed

lemma numbered_read:
  assumes "numbered ids s"
  shows "numbered (ids @ request_read env s) (lsp_step env ReadMessage s)"
proof (cases "sv_returned s")
  case (Some e)
  then show ?thesis using assms by (simp add: request_read_def)
next
  case None
  obtain r rest where frame: "read_frame (sv_input s) = (r, rest)" by fastforce
  let ?s = "s\<lparr>sv_input := rest\<rparr>"
  have start: "numbered ids ?s" by (rule numbered_same [OF _ assms]) simp
  show ?thesis
  proof (cases r)
    case (Inl e)
    then have "lsp_step env ReadMessage s = return_run (if e = FrameEOF then None else Some (''read LSP frame: '' @ frame_fault_text e)) ?s"
      using None frame by (simp add: read_message_def)
    then show ?thesis
      using numbered_same [OF same_requests_return start] None frame Inl by (simp add: request_read_def)
  next
    case (Inr payload)
    then have step: "lsp_step env ReadMessage s = handle_payload env payload ?s"
      using None frame by (simp add: read_message_def)
    have written: "numbered ids (send_output (FrameAnswer k e) ?s)" for k e
      by (rule numbered_same [OF same_requests_write start]) (simp add: answer_of_def)
    show ?thesis
      using written numbered_same [OF same_requests_return start] numbered_same [OF same_requests_notification start]
        numbered_start [OF start] None frame Inr
      unfolding step by (auto simp: request_read_def handle_payload_def split: option.split)
  qed
qed

lemma numbered_step:
  assumes "numbered ids s"
  shows "numbered (ids @ (if a = ReadMessage then request_read env s else [])) (lsp_step env a s)"
proof (cases a)
  case ReadMessage
  then show ?thesis using numbered_read [OF assms] by simp
next
  case (ServeRequest n)
  then show ?thesis using numbered_serve [OF assms] by simp
next
  case (FireTimer g)
  then show ?thesis using numbered_same [OF same_requests_ops(6) assms] by simp
next
  case (StepRun n)
  then show ?thesis using numbered_same [OF same_requests_run assms] by simp
qed

lemma run_server_simps [simp]:
  "run_server env [] s = s" "run_server env (a # actions) s = run_server env actions (lsp_step env a s)"
  "run_server env (xs @ ys) s = run_server env ys (run_server env xs s)"
  by (simp_all add: run_server_def)

lemma numbered_run: "numbered ids s \<Longrightarrow> numbered (ids @ requests_read env actions s) (run_server env actions s)"
proof (induction actions arbitrary: ids s)
  case (Cons a actions)
  then show ?case using Cons.IH [OF numbered_step [OF Cons.prems, of a env]] by simp
qed simp

lemma numbered_new: "numbered [] (new_server input w)"
  by (simp add: numbered_def new_server_def waiting_def answers_def List.map_filter_def)

text \<open>Serving all that wait leaves nothing waiting.\<close>

lemma serve_waiting:
  "fst ` set (waiting s) \<subseteq> set serials \<Longrightarrow> waiting (run_server env (map ServeRequest serials) s) = []"
proof (induction serials arbitrary: s)
  case (Cons n serials)
  have "waiting (serve_request env n s) = filter (\<lambda>x. fst x \<noteq> n) (waiting s)"
  proof (cases "find (\<lambda>p. lr_serial p = n) (sv_pending s)")
    case None
    then have "filter (\<lambda>x. fst x \<noteq> n) (waiting s) = waiting s"
      by (auto simp: find_None_iff waiting_def intro!: filter_True)
    then show ?thesis using None by (simp add: serve_request_def)
  next
    case (Some p)
    then show ?thesis using serve_request_moves [OF Some] by metis
  qed
  then have "fst ` set (waiting (serve_request env n s)) \<subseteq> set serials" using Cons.prems by auto
  then show ?case using Cons.IH by simp
qed simp

lemma serving_reads_nothing [simp]: "requests_read env (map ServeRequest serials) s = []"
  by (induction serials arbitrary: s) simp_all

lemma requests_read_append [simp]:
  "requests_read env (xs @ ys) s = requests_read env xs s @ requests_read env ys (run_server env xs s)"
  by (induction xs arbitrary: s) simp_all

lemma sort_serials: "distinct xs \<Longrightarrow> set xs = {..<n} \<Longrightarrow> sort xs = [0..<n]"
  by (rule sorted_distinct_set_unique) (simp_all only: sorted_sort distinct_sort set_sort sorted_upt distinct_upt atLeast_upt)

lemma numbered_sort: "numbered ids s \<Longrightarrow> sort (map fst (answers s) @ map fst (waiting s)) = [0..<length ids]"
  unfolding numbered_def by (rule sort_serials) blast+

lemma numbered_ids:
  "numbered ids s \<Longrightarrow> map (\<lambda>(n, k, r). k) (answers s) = map (\<lambda>(n, k, r). response_id (ids ! n)) (answers s)"
proof (rule map_cong [OF refl])
  fix x
  assume "numbered ids s" and "x \<in> set (answers s)"
  then show "(case x of (n, k, r) \<Rightarrow> k) = (case x of (n, k, r) \<Rightarrow> response_id (ids ! n))"
    using numberedD(7) [of ids s "fst x" "fst (snd x)" "snd (snd x)"] by (cases x) simp
qed

subsection \<open>Property\<close>

text \<open>
  C6: whatever the client sends and however the loop, the requests, the timers and the runs of the
  indexer interleave: the requests answered and the requests waiting are those read, each once; every
  answer carries the id of its request; and when those that wait are served, every request read has
  exactly one answer.
\<close>

theorem requests_answered_once:
  fixes env :: lsp_env and actions :: "lsp_action list" and input :: bytes and w :: world
  defines "start \<equiv> new_server input w"
  defines "s \<equiv> run_server env actions start" and "ids \<equiv> requests_read env actions start"
  defines "served \<equiv> run_server env (actions @ map ServeRequest (map fst (waiting s))) start"
  shows "sort (map fst (answers s) @ map fst (waiting s)) = [0..<length ids]
    \<and> map (\<lambda>(n, k, r). k) (answers s) = map (\<lambda>(n, k, r). response_id (ids ! n)) (answers s)
    \<and> waiting served = [] \<and> sort (map fst (answers served)) = [0..<length ids]
    \<and> map (\<lambda>(n, k, r). k) (answers served) = map (\<lambda>(n, k, r). response_id (ids ! n)) (answers served)"
proof -
  have now: "numbered ids s" using numbered_run [OF numbered_new, of env actions input w] by (simp add: s_def ids_def start_def)
  have later: "numbered ids served"
    using numbered_run [OF now, of env "map ServeRequest (map fst (waiting s))"] by (simp add: served_def s_def del: map_map)
  have all: "waiting served = []"
    using serve_waiting [of s "map fst (waiting s)" env] by (simp add: served_def s_def del: map_map)
  show ?thesis
    using numbered_sort [OF now] numbered_sort [OF later] numbered_ids [OF now] numbered_ids [OF later] all by simp
qed

end
