(* ===== verification/Lsp_Boundary.thy ===== *)
theory Lsp_Boundary
  imports Lsp_Histories
begin

section \<open>The workspace boundary of the language server\<close>

text \<open>
  What the editor sends is kept only for template files under the workspace root, within the limits, in
  every history; the root is set once. Containment is stated by the characters of the cleaned paths.
\<close>

subsection \<open>Containment\<close>

definition under :: "bytes \<Rightarrow> bytes \<Rightarrow> bool" where
  "under root path =
     (path_clean path = path_clean root
      \<or> has_prefix (if path_clean root = ''/'' then ''/'' else path_clean root @ ''/'') (path_clean path))"

lemma clean_rooted_parts:
  assumes "is_rooted p"
  obtains ps where "plain_parts ps" "path_clean p = rooted_path ps"
proof -
  let ?ps = "clean_parts True [] (split_on separator p)"
  have ok: "list_all plain_part ?ps" "parents_first True ?ps"
    using clean_parts_ok [of "split_on separator p" "[]" True] split_on_no_sep [of _ separator p]
    by (auto simp: list_all_iff)
  have "''..'' \<notin> set ?ps" using ok(2) by (cases ?ps) (auto split: if_splits)
  then show ?thesis using that [of ?ps] ok assms by (simp add: plain_parts_def path_clean_def rooted_path_def Let_def)
qed

lemma rel_strip_prefix:
  "list_all plain_part ps \<Longrightarrow> list_all plain_part qs \<Longrightarrow>
   rel_strip (join_with ''/'' ps) (join_with ''/'' qs) = ([], t, d) \<Longrightarrow> \<exists>rs. qs = ps @ rs"
proof (induction ps arbitrary: qs)
  case (Cons p ps)
  have p: "separator \<notin> set p" using Cons.prems(1) by (simp add: plain_part_def)
  have ne: "join_with ''/'' (p # ps) \<noteq> []" using Cons.prems(1) join_plain_nonempty [of "p # ps"] by simp
  show ?case
  proof (cases qs)
    case Nil
    then show ?thesis using Cons.prems(3) ne by (simp add: rel_strip.simps [of _ "[]"] del: join_with.simps(2-))
  next
    case (Cons q qs')
    have q: "separator \<notin> set q" using Cons.prems(2) Cons by (simp add: plain_part_def)
    have ne': "join_with ''/'' (q # qs') \<noteq> []" using Cons.prems(2) Cons join_plain_nonempty [of "q # qs'"] by simp
    have step: "rel_strip (join_with ''/'' (p # ps)) (join_with ''/'' (q # qs'))
        = (if p = q then rel_strip (join_with ''/'' ps) (join_with ''/'' qs')
           else (join_with ''/'' (p # ps), join_with ''/'' (q # qs'), True))"
      using ne ne' takeWhile_join [OF p, of ps] takeWhile_join [OF q, of qs'] drop_join [of p ps] drop_join [of q qs']
      by (subst rel_strip.simps) (auto simp: Let_def simp del: join_with.simps)
    have same: "p = q" using Cons.prems(3) Cons step ne by (auto simp del: join_with.simps split: if_splits)
    then have "rel_strip (join_with ''/'' ps) (join_with ''/'' qs') = ([], t, d)" using Cons.prems(3) Cons step by simp
    from Cons.IH [OF _ _ this] Cons.prems(1,2) Cons same show ?thesis by auto
  qed
qed simp

lemma parent_relative:
  assumes "relative = concat (replicate n ''../'') @ ''..'' @ (if t = [] then [] else separator # t)"
  shows "relative = ''..'' \<or> has_prefix ''../'' relative"
  using assms by (cases n) (auto simp: has_prefix_iff)

lemma rooted_path_append: "rooted_path (ps @ q # qs) = (if ps = [] then ''/'' else rooted_path ps @ ''/'') @ join_with ''/'' (q # qs)"
proof (induction ps)
  case (Cons a ps)
  then show ?case by (cases ps) (simp_all add: rooted_path_def)
qed (simp add: rooted_path_def)

lemma within_root_under:
  assumes "is_rooted path" and "within_root root path"
  shows "under root path"
proof -
  obtain qs where qs: "plain_parts qs" "path_clean path = rooted_path qs" by (rule clean_rooted_parts [OF assms(1)])
  have rooted: "is_rooted (path_clean root)" if "path_clean path \<noteq> path_clean root"
  proof -
    have targ: "is_rooted (path_clean (path_clean path))" using path_clean_rooted [OF assms(1)] by simp
    have "path_rel (path_clean root) (path_clean path) \<noteq> None" using assms(2) by (auto simp: within_root_def split: option.splits)
    then have "is_rooted (if path_clean root = ''.'' then [] else path_clean root)"
      using that targ by (simp add: path_rel_def Let_def split: if_splits)
    then show ?thesis by (simp add: is_rooted_def split: if_splits)
  qed
  show ?thesis
  proof (cases "path_clean path = path_clean root")
    case True
    then show ?thesis by (simp add: under_def)
  next
    case False
    obtain ps where ps: "plain_parts ps" "path_clean (path_clean root) = rooted_path ps"
      by (rule clean_rooted_parts [OF rooted [OF False]])
    have root: "path_clean root = rooted_path ps" using ps(2) by simp
    obtain b t d where strip: "rel_strip (rooted_path ps) (rooted_path qs) = (b, t, d)" by (metis prod.exhaust)
    have strip': "rel_strip (join_with ''/'' ps) (join_with ''/'' qs) = (b, t, d)"
      using strip by (subst (asm) rel_strip.simps) (simp add: rooted_path_def Let_def)
    have dot: "rooted_path ps \<noteq> ''.''" by (simp add: rooted_path_def)
    have "b = []"
    proof (rule ccontr)
      assume b: "b \<noteq> []"
      obtain relative where r: "path_rel (rooted_path ps) (rooted_path qs) = Some relative"
        "relative \<noteq> ''..''" "\<not> has_prefix ''../'' relative"
        using assms(2) qs root by (auto simp: within_root_def split: option.splits)
      have "relative = concat (replicate (length (filter (\<lambda>c. c = separator) b)) ''../'') @ ''..''
          @ (if t = [] then [] else separator # t)"
        using r(1) b strip dot False root qs ps(1) by (auto simp: path_rel_def Let_def clean_rooted split: if_splits)
      from parent_relative [OF this] r(2,3) show False by blast
    qed
    then obtain rs where "qs = ps @ rs"
      using rel_strip_prefix [of ps qs t d] strip' ps(1) qs(1) by (auto simp: plain_parts_def)
    moreover have "rs \<noteq> []" using False root qs \<open>qs = ps @ rs\<close> by auto
    ultimately obtain r rs' where "qs = ps @ r # rs'" by (cases rs) auto
    moreover have "rooted_path ps = ''/'' \<longleftrightarrow> ps = []"
      using join_plain_nonempty [of ps] ps(1) by (auto simp: rooted_path_def plain_parts_def)
    ultimately show ?thesis using root qs by (auto simp: under_def rooted_path_append has_prefix_iff)
  qed
qed

subsection \<open>What is kept\<close>

definition text_kept :: "bytes \<Rightarrow> bytes \<times> lsp_document \<Rightarrow> bool" where
  "text_kept root = (\<lambda>(k, d). dc_path d = k \<and> is_rooted k \<and> path_ext k = ''.sando'' \<and> within_root root k
     \<and> length (dc_text d) \<le> max_document_bytes)"

definition run_kept :: "index_run \<Rightarrow> bool" where
  "run_kept r = (case ir_phase r of RunReady sn n \<Rightarrow> snapshot_limits sn | _ \<Rightarrow> True)"

definition texts_bounded :: "lsp_server \<Rightarrow> bool" where
  "texts_bounded s =
     ((sv_initialized s \<longleftrightarrow> sv_root s \<noteq> [])
      \<and> distinct (map fst (sv_overlays s)) \<and> list_all (text_kept (sv_root s)) (sv_overlays s)
      \<and> snapshot_limits (sv_snapshot s) \<and> list_all run_kept (sv_runs s))"

text \<open>The part of the state the boundary is about, and the root.\<close>

definition same_texts :: "lsp_server \<Rightarrow> lsp_server \<Rightarrow> bool" where
  "same_texts s s' =
     (sv_initialized s' = sv_initialized s \<and> sv_root s' = sv_root s \<and> sv_overlays s' = sv_overlays s
      \<and> sv_snapshot s' = sv_snapshot s \<and> (list_all run_kept (sv_runs s) \<longrightarrow> list_all run_kept (sv_runs s')))"

lemma same_texts_boundary: "same_texts s s' \<Longrightarrow> texts_bounded s \<Longrightarrow> texts_bounded s'"
  by (simp add: same_texts_def texts_bounded_def)

lemma same_texts_refl [simp]: "same_texts s s" by (simp add: same_texts_def)

lemma same_texts_trans: "same_texts s s' \<Longrightarrow> same_texts s' s'' \<Longrightarrow> same_texts s s''"
  by (simp add: same_texts_def)

lemma same_texts_ops [simp]:
  "same_texts s (cancel_run c s)" "same_texts s (schedule_reindex s)" "same_texts s (end_run r s)"
  "same_texts s (log_line l n s)" "same_texts s (fire_timer g s)"
  "same_texts s (cancel_request k s)" "same_texts s (send_output out s)" "same_texts s (return_run e s)"
  "same_texts s (start_request m s)"
  by (auto simp: same_texts_def cancel_run_def schedule_reindex_def end_run_def log_line_def run_kept_def
      fire_timer_def cancel_request_def send_output_def return_run_def start_request_def Let_def list_all_iff
      split: option.split)

lemma same_texts_update [simp]:
  "same_texts s (s\<lparr>sv_world := w\<rparr>)" "same_texts s (s\<lparr>sv_input := i\<rparr>)" "same_texts s (s\<lparr>sv_shutdown := b\<rparr>)"
  "same_texts s (s\<lparr>sv_pending := ps, sv_requests := rs\<rparr>)"
  by (simp_all add: same_texts_def)

lemma same_texts_phase: "(\<And>r. run_kept (r\<lparr>ir_phase := phase\<rparr>)) \<Longrightarrow> same_texts s (set_phase n phase s)"
  by (auto simp: same_texts_def set_phase_def list_all_iff)

subsection \<open>Texts from the editor\<close>

lemma editor_path_within: "editor_path_allowed h root path w = (True, w') \<Longrightarrow> path_ext path = ''.sando'' \<and> within_root root path"
  by (auto simp: editor_path_allowed_def split: if_splits)

lemma uri_path_rooted:
  assumes "is_rooted (host_dir h)" and "file_uri_to_path ut h uri = Some path"
  shows "is_rooted path"
proof -
  have "is_rooted (resolve h p)" for p
    using assms(1) path_clean_rooted [of p] path_clean_rooted [of "host_dir h @ ''/'' @ p"] path_clean_rooted [of "host_dir h"]
    by (auto simp: resolve_def path_abs_def path_join_def is_rooted_Cons)
  then show ?thesis
    using assms(2) path_clean_rooted
    by (auto simp: file_uri_to_path_def absolute_path_def split: option.splits if_splits sum.splits)
qed

lemma update_overlay_boundary:
  assumes "is_rooted (host_dir (le_host env))" and "texts_bounded s"
  shows "texts_bounded (update_overlay env uri version content b s)"
proof (cases "max_document_bytes < length content \<or> \<not> has_suffix ''.sando'' (to_lower (le_lower env) uri)
    \<or> file_uri_to_path (ie_urls (le_index env)) (le_host env) uri = None")
  case True
  then show ?thesis using assms(2) by (auto simp: update_overlay_def)
next
  case False
  then obtain path where path: "file_uri_to_path (ie_urls (le_index env)) (le_host env) uri = Some path" by blast
  have rooted: "is_rooted path" by (rule uri_path_rooted [OF assms(1) path])
  obtain allowed w where allowed: "editor_path_allowed (le_host env) (sv_root s) path (sv_world s) = (allowed, w)" by fastforce
  show ?thesis
  proof (cases allowed)
    case False
    then have "update_overlay env uri version content b s = s \<or> update_overlay env uri version content b s = s\<lparr>sv_world := w\<rparr>"
      using path allowed by (simp add: update_overlay_def)
    then show ?thesis using assms(2) same_texts_boundary [OF same_texts_update(1) assms(2), of w] by (elim disjE) simp_all
  next
    case True
    define version' where "version' = (case map_of (sv_overlays s) path of
        Some previous \<Rightarrow> (if version < 0 then dc_version previous else version) | None \<Rightarrow> version)"
    define d where "d = \<lparr>dc_uri = uri, dc_path = path, dc_text = content, dc_version = version', dc_open = b\<rparr>"
    have kept: "text_kept (sv_root s) (path, d)"
      using editor_path_within [of "le_host env" "sv_root s" path "sv_world s" w] allowed True rooted False by (simp add: text_kept_def d_def)
    have up: "update_overlay env uri version content b s = s\<lparr>sv_world := w, sv_overlays := put path d (sv_overlays s)\<rparr>"
      using False path allowed True by (simp add: update_overlay_def d_def version'_def Let_def)
    have dist: "distinct (map fst (sv_overlays s))" using assms(2) by (simp add: texts_bounded_def)
    have "list_all (text_kept (sv_root s)) (put path d (sv_overlays s))"
      using set_put [OF dist, of path d] kept assms(2) by (auto simp: texts_bounded_def list_all_iff)
    moreover have "distinct (map fst (put path d (sv_overlays s)))" using dist by (simp add: put_def distinct_update)
    ultimately show ?thesis using assms(2) by (simp add: up texts_bounded_def)
  qed
qed

lemma drop_overlay_boundary: "texts_bounded s \<Longrightarrow> texts_bounded (s\<lparr>sv_overlays := filter (\<lambda>(k, d). k \<noteq> path) (sv_overlays s)\<rparr>)"
  by (auto simp: texts_bounded_def list_all_iff distinct_map inj_on_def)

lemma notification_boundary:
  assumes "is_rooted (host_dir (le_host env))" and "texts_bounded s"
  shows "texts_bounded (handle_notification env m p s)"
proof -
  note kept = assms(2) update_overlay_boundary [OF assms] drop_overlay_boundary [OF assms(2)]
  have scheduled: "texts_bounded s' \<Longrightarrow> texts_bounded (schedule_reindex s')" for s'
    by (rule same_texts_boundary [OF same_texts_ops(2)])
  have canceled: "texts_bounded (cancel_request k s)" for k by (rule same_texts_boundary [OF same_texts_ops(6) assms(2)])
  show ?thesis
    by (auto simp: handle_notification_def Let_def kept scheduled canceled split: option.split prod.split)
qed

subsection \<open>The root\<close>

lemma no_root_no_texts: "texts_bounded s \<Longrightarrow> sv_root s = [] \<Longrightarrow> sv_overlays s = []"
proof -
  assume b: "texts_bounded s" and root: "sv_root s = []"
  have "\<not> text_kept [] x" for x
  proof
    assume "text_kept [] x"
    then have rooted: "is_rooted (fst x)" and within: "within_root [] (fst x)"
      by (simp_all add: text_kept_def split: prod.splits)
    obtain qs where qs: "plain_parts qs" "path_clean (fst x) = rooted_path qs" by (rule clean_rooted_parts [OF rooted])
    have dot: "path_clean [] = ''.''" by (simp add: go_eval)
    have "rooted_path qs \<noteq> ''.''" by (simp add: rooted_path_def)
    moreover have "path_clean ''.'' = ''.''" by (simp add: go_eval)
    ultimately have "path_rel ''.'' (rooted_path qs) = None"
      using clean_rooted [OF qs(1)] by (simp add: path_rel_def Let_def) (simp add: is_rooted_def)
    then show False using within qs(2) dot by (simp add: within_root_def)
  qed
  then show ?thesis using b root by (cases "sv_overlays s") (auto simp: texts_bounded_def)
qed

lemma initialize_kept:
  assumes "P s" and "\<And>w. P (s\<lparr>sv_world := w\<rparr>)"
    and "\<And>w root. \<not> sv_initialized s \<Longrightarrow> P (s\<lparr>sv_world := w, sv_root := path_clean root, sv_initialized := True\<rparr>)"
  shows "P (snd (initialize env p s))"
proof (cases "lc_initialize (le_codec env) p")
  case (Some q)
  show ?thesis
  proof (cases "1 < length (ip_folders q) \<or> initialize_root env q = None")
    case True
    then show ?thesis using Some assms(1) by (auto simp: initialize_def)
  next
    case False
    then obtain root where root: "initialize_root env q = Some root" by blast
    obtain r w where r: "lstat (le_host env) root (sv_world s) = (r, w)" by fastforce
    show ?thesis using Some False root r assms by (simp add: initialize_def Let_def)
  qed
qed (use assms(1) in \<open>simp add: initialize_def\<close>)

lemma initialize_boundary:
  assumes "texts_bounded s"
  shows "texts_bounded (snd (initialize env p s))"
proof -
  have world: "texts_bounded (s\<lparr>sv_world := w\<rparr>)" for w by (rule same_texts_boundary [OF same_texts_update(1) assms])
  have rooted: "texts_bounded (s\<lparr>sv_world := w, sv_root := path_clean root, sv_initialized := True\<rparr>)"
    if n: "\<not> sv_initialized s" for w root
  proof -
    have "sv_root s = []" using n assms by (simp add: texts_bounded_def)
    then show ?thesis using no_root_no_texts [OF assms] assms by (simp add: texts_bounded_def)
  qed
  show ?thesis by (rule initialize_kept) (simp_all add: assms world rooted)
qed

subsection \<open>Every step\<close>

lemma handle_request_boundary: "texts_bounded s \<Longrightarrow> texts_bounded (snd (handle_request env canceled m p s))"
  using initialize_boundary [of s env p]
    same_texts_boundary [OF same_texts_trans [OF same_texts_ops(1) [of s "sv_cancel s"] same_texts_update(3)], of True]
  by (simp add: handle_request_def)

lemma serve_request_boundary:
  assumes "texts_bounded s"
  shows "texts_bounded (serve_request env n s)"
proof (cases "find (\<lambda>p. lr_serial p = n) (sv_pending s)")
  case (Some p)
  let ?h = "handle_request env (lr_canceled p \<or> sv_returned s \<noteq> None) (rm_method (lr_message p)) (rm_params (lr_message p)) s"
  obtain r s1 where h: "?h = (r, s1)" by fastforce
  have "texts_bounded s1" using handle_request_boundary [OF assms, of env] h by (metis snd_conv)
  then have "texts_bounded (send_output out (s1\<lparr>sv_pending := ps, sv_requests := rs\<rparr>))" for out ps rs
    by (rule same_texts_boundary [OF same_texts_trans [OF same_texts_update(4) same_texts_ops(7)]])
  then show ?thesis using Some h by (simp add: serve_request_def Let_def)
qed (use assms in \<open>simp add: serve_request_def\<close>)

lemma read_message_boundary:
  assumes "is_rooted (host_dir (le_host env))" and "texts_bounded s"
  shows "texts_bounded (read_message env s)"
proof -
  obtain r rest where frame: "read_frame (sv_input s) = (r, rest)" by fastforce
  have start: "texts_bounded (s\<lparr>sv_input := rest\<rparr>)" by (rule same_texts_boundary [OF same_texts_update(2) assms(2)])
  note kept = notification_boundary [OF assms(1) start] same_texts_boundary [OF same_texts_ops(7) start]
    same_texts_boundary [OF same_texts_ops(8) start] same_texts_boundary [OF same_texts_ops(9) start]
  show ?thesis
    using frame kept by (cases r) (auto simp: read_message_def handle_payload_def split: option.split)
qed

lemma step_run_boundary:
  assumes "texts_bounded s"
  shows "texts_bounded (step_run env n s)"
proof (cases "find (\<lambda>r. ir_serial r = n) (sv_runs s)")
  case None
  then show ?thesis using assms by (simp add: step_run_def)
next
  case (Some r)
  have ended: "texts_bounded s' \<Longrightarrow> texts_bounded (end_run r s')" and logged: "texts_bounded s' \<Longrightarrow> texts_bounded (log_line l k s')"
    and written: "texts_bounded s' \<Longrightarrow> texts_bounded (send_output out s')"
    and moved: "(\<And>r. run_kept (r\<lparr>ir_phase := phase\<rparr>)) \<Longrightarrow> texts_bounded s' \<Longrightarrow> texts_bounded (set_phase n phase s')"
    for s' l k out phase
    by (erule same_texts_boundary [rotated]; simp add: same_texts_phase)+
  have world: "texts_bounded (s\<lparr>sv_world := w\<rparr>)" for w by (rule same_texts_boundary [OF same_texts_update(1) assms])
  have publishing: "run_kept (r\<lparr>ir_phase := RunPublishing ps k m\<rparr>)" for r ps k m by (simp add: run_kept_def)
  show ?thesis
  proof (cases "ir_phase r")
    case RunStarted
    let ?c = "ask_context (ir_canceled r)"
    let ?b = "build_snapshot ((le_index env)\<lparr>ie_canceled := ?c\<rparr>) ((le_host env)\<lparr>host_ctx := ?c\<rparr>) (sv_root s) (sv_overlays s) (sv_world s)"
    obtain res w where b: "?b = (res, w)" by fastforce
    have overlays: "overlays_ok (sv_overlays s)"
      using assms by (auto simp: texts_bounded_def overlays_ok_def list_all_iff text_kept_def)
    have ready: "texts_bounded (set_phase n (RunReady sn k) (s\<lparr>sv_world := w\<rparr>))" if res: "res = Inr (sn, k)" for sn k
      using build_snapshot_limits [OF overlays, of _ _ _ _ sn k w] b res
      by (intro moved world) (simp add: run_kept_def)
    show ?thesis
      using Some RunStarted b ended [OF assms] ended [OF world] logged [OF ended [OF world]] ready
      by (auto simp: step_run_def Let_def split: sum.split index_error.split prod.split)
  next
    case (RunReady sn k)
    have "r \<in> set (sv_runs s)" using Some by (auto simp: find_Some_iff in_set_conv_nth)
    then have "snapshot_limits sn" using assms RunReady by (auto simp: texts_bounded_def list_all_iff run_kept_def)
    then have "texts_bounded (s\<lparr>sv_snapshot := sn\<rparr>)" using assms by (simp add: texts_bounded_def)
    then show ?thesis using Some RunReady moved [OF publishing] by (simp add: step_run_def)
  next
    case (RunPublishing ps k m)
    show ?thesis
      using Some RunPublishing ended [OF logged [OF assms]] ended [OF logged [OF logged [OF assms]]]
        moved [OF publishing written [OF assms]]
      by (cases ps) (simp_all add: step_run_def)
  qed
qed

lemma lsp_step_boundary: "is_rooted (host_dir (le_host env)) \<Longrightarrow> texts_bounded s \<Longrightarrow> texts_bounded (lsp_step env a s)"
  using read_message_boundary serve_request_boundary step_run_boundary same_texts_boundary [OF same_texts_ops(5)]
  by (cases a) simp_all

interpretation lsp_texts: action_invariant "lsp_step env" "\<lambda>s. is_rooted (host_dir (le_host env)) \<longrightarrow> texts_bounded s"
  by unfold_locales (simp add: lsp_step_boundary)

lemma run_boundary: "is_rooted (host_dir (le_host env)) \<Longrightarrow> texts_bounded s \<Longrightarrow> texts_bounded (run_server env actions s)"
  using lsp_texts.run_keeps [of env s actions] by (simp add: run_server_def)

lemma new_boundary: "texts_bounded (new_server input w)"
  by (simp add: texts_bounded_def new_server_def snapshot_limits_def empty_snapshot_def documents_ok_def)

text \<open>Once set the root stays.\<close>

definition root_stays :: "lsp_server \<Rightarrow> lsp_server \<Rightarrow> bool" where
  "root_stays s s' = (sv_initialized s \<longrightarrow> sv_initialized s' \<and> sv_root s' = sv_root s)"

lemma root_stays_trans: "root_stays s s' \<Longrightarrow> root_stays s' s'' \<Longrightarrow> root_stays s s''"
  by (simp add: root_stays_def)

lemma root_stays_same: "same_texts s s' \<Longrightarrow> root_stays s s'"
  by (simp add: root_stays_def same_texts_def)

lemma root_stays_notification: "root_stays s (handle_notification env m p s)"
proof -
  have overlay: "root_stays s (update_overlay env uri version content b s)" for uri version content b
    by (auto simp: update_overlay_def root_stays_def Let_def split: option.split prod.split bool.split)
  have dropped: "root_stays s (s\<lparr>sv_overlays := os\<rparr>)" for os by (simp add: root_stays_def)
  have refl: "root_stays s s" and canceled: "root_stays s (cancel_request k s)" for k
    by (rule root_stays_same; simp)+
  have scheduled: "root_stays s s' \<Longrightarrow> root_stays s (schedule_reindex s')" for s'
    by (rule root_stays_trans [OF _ root_stays_same [OF same_texts_ops(2)]])
  show ?thesis
    by (simp add: handle_notification_def Let_def refl overlay dropped canceled scheduled split: option.split prod.split)
qed

lemma root_stays_step: "root_stays s (lsp_step env a s)"
proof (cases a)
  case ReadMessage
  obtain r rest where frame: "read_frame (sv_input s) = (r, rest)" by fastforce
  have input: "root_stays s (s\<lparr>sv_input := rest\<rparr>)" by (rule root_stays_same) simp
  note kept = root_stays_trans [OF input root_stays_notification]
    root_stays_trans [OF input root_stays_same [OF same_texts_ops(7)]]
    root_stays_trans [OF input root_stays_same [OF same_texts_ops(8)]]
    root_stays_trans [OF input root_stays_same [OF same_texts_ops(9)]] root_stays_same [OF same_texts_refl]
  show ?thesis
    using frame kept ReadMessage by (cases r) (simp_all add: read_message_def handle_payload_def split: option.split)
next
  case (ServeRequest n)
  have initialized: "root_stays s (snd (initialize env p s))" for p
    by (rule initialize_kept [where P = "root_stays s"]) (simp_all add: root_stays_def)
  have handled: "root_stays s (snd (handle_request env c m p s))" for c m p
    using initialized by (simp add: handle_request_def) (simp add: root_stays_def cancel_run_def)
  show ?thesis
  proof (cases "find (\<lambda>p. lr_serial p = n) (sv_pending s)")
    case (Some p)
    obtain r s1 where h: "handle_request env (lr_canceled p \<or> sv_returned s \<noteq> None) (rm_method (lr_message p))
        (rm_params (lr_message p)) s = (r, s1)" by fastforce
    then have "root_stays s s1" using handled by (metis snd_conv)
    then show ?thesis using ServeRequest Some h by (simp add: serve_request_def Let_def send_output_def root_stays_def)
  qed (use ServeRequest in \<open>simp add: serve_request_def root_stays_def\<close>)
next
  case (FireTimer g)
  then show ?thesis using root_stays_same by simp
next
  case (StepRun n)
  have "sv_initialized (step_run env n s) = sv_initialized s" "sv_root (step_run env n s) = sv_root s"
    by (simp_all add: step_run_def end_run_def log_line_def set_phase_def send_output_def Let_def
        split: option.split run_phase.split sum.split index_error.split prod.split list.split)
  then show ?thesis using StepRun by (simp add: root_stays_def)
qed

interpretation lsp_root: action_relation "lsp_step env" root_stays
  by unfold_locales (simp add: root_stays_def, erule (1) root_stays_trans, rule root_stays_step)

lemma root_stays_run: "root_stays s (run_server env actions s)"
  unfolding run_server_def by (rule lsp_root.run_related)

subsection \<open>Property\<close>

text \<open>
  C5: whatever the client sends and in whatever order the server acts, the texts it keeps for the editor
  are of template files under the workspace root, each once, under its own path and at most 16 MiB long;
  a stored snapshot has at most 10000 documents of at most 64 MiB together; there is a root exactly when
  the server is initialized, and it never changes afterwards.
\<close>

theorem server_stays_in_workspace:
  fixes env :: lsp_env and actions later :: "lsp_action list" and input :: bytes and w :: world
  assumes "is_rooted (host_dir (le_host env))"
  defines "s \<equiv> run_server env actions (new_server input w)"
  shows "(\<forall>(k, d) \<in> set (sv_overlays s). dc_path d = k \<and> path_ext k = ''.sando'' \<and> under (sv_root s) k
        \<and> length (dc_text d) \<le> 16777216)
    \<and> distinct (map fst (sv_overlays s))
    \<and> length (sn_documents (sv_snapshot s)) \<le> 10000
    \<and> sum_list (map (\<lambda>(k, d). length (dc_text d)) (sn_documents (sv_snapshot s))) \<le> 67108864
    \<and> (sv_initialized s \<longleftrightarrow> sv_root s \<noteq> [])
    \<and> (sv_initialized s \<longrightarrow> sv_root (run_server env later s) = sv_root s)"
proof -
  have b: "texts_bounded s" using run_boundary [OF assms(1) new_boundary] by (simp add: s_def)
  have "\<forall>(k, d) \<in> set (sv_overlays s). dc_path d = k \<and> path_ext k = ''.sando'' \<and> under (sv_root s) k
      \<and> length (dc_text d) \<le> 16777216"
    using b within_root_under by (auto simp: texts_bounded_def list_all_iff text_kept_def max_document_bytes_def)
  moreover have "sv_initialized s \<longrightarrow> sv_root (run_server env later s) = sv_root s"
    using root_stays_run [of s env later] by (simp add: root_stays_def)
  ultimately show ?thesis
    using b by (simp add: texts_bounded_def snapshot_limits_def documents_ok_def max_workspace_files_def max_workspace_bytes_def)
qed

text \<open>An editor that initializes the server for a directory and opens a template in it.\<close>

definition sample_codec :: lsp_codec where
  "sample_codec =
     \<lparr>lc_message = (\<lambda>m. if m = ''i'' then Some \<lparr>rm_version = ''2.0'', rm_id = ''1'', rm_method = ''initialize'', rm_params = []\<rparr>
        else if m = ''o'' then Some \<lparr>rm_version = ''2.0'', rm_id = [], rm_method = ''textDocument/didOpen'', rm_params = []\<rparr>
        else None),
      lc_kind = (\<lambda>k. Some (JsonNumber True)),
      lc_initialize = (\<lambda>p. Some \<lparr>ip_root_uri = [], ip_root_path = ''/d'', ip_folders = []\<rparr>),
      lc_position = (\<lambda>p. None), lc_symbol = (\<lambda>p. None), lc_cancel = (\<lambda>p. None),
      lc_open = (\<lambda>p. Some (''file:///d/a.sando'', 3, ''hi'')), lc_change = (\<lambda>p. None), lc_save = (\<lambda>p. None),
      lc_close = (\<lambda>p. None)\<rparr>"

definition sample_lsp_env :: lsp_env where
  "sample_lsp_env = \<lparr>le_codec = sample_codec,
     le_index = \<lparr>ie_urls = \<lparr>ut_parse = (\<lambda>u. Some \<lparr>fu_scheme = ''file'', fu_host = [], fu_escaped_path = drop 7 u\<rparr>),
         ut_unescape = Some, ut_print = (\<lambda>p. ''file://'' @ p)\<rparr>,
       ie_backend = sample_backend, ie_parse_expr = (\<lambda>_. None), ie_canceled = (\<lambda>_. None)\<rparr>,
     le_letters = \<lparr>lt_letter = (\<lambda>_. False), lt_digit = (\<lambda>_. False)\<rparr>, le_lower = (\<lambda>r. r), le_host = sample_host,
     le_eval_symlinks = (\<lambda>w p. Some p)\<rparr>"

definition sample_actions :: "lsp_action list" where
  "sample_actions = [ReadMessage, ServeRequest 0, ReadMessage]"

definition sample_input :: bytes where "sample_input = frame_bytes ''i'' @ frame_bytes ''o'' @ []"

lemma sample_frames:
  "read_frame sample_input = (Inr ''i'', frame_bytes ''o'')" "read_frame (frame_bytes ''o'') = (Inr ''o'', [])"
  using read_headers_frame [of "''i''" "frame_bytes ''o'' @ []"] read_headers_frame [of "''o''" "[]"]
  by (simp_all add: read_frame_def sample_input_def max_message_bytes_def)

lemma sample_texts:
  "map fst (sv_overlays (run_server sample_lsp_env sample_actions (new_server sample_input sample_world))) = [''/d/a.sando'']"
  by (simp add: sample_actions_def sample_lsp_env_def sample_codec_def new_server_def read_message_def sample_frames
      handle_payload_def valid_request_id_def start_request_def Let_def serve_request_def handle_request_def
      initialize_def initialize_root_def send_output_def handle_notification_def update_overlay_def
      schedule_reindex_def cancel_run_def file_uri_to_path_def editor_path_allowed_def within_root_def put_def
      max_document_bytes_def response_id_def sample_host_def sample_world_def go_eval
      del: read_frame_def read_headers.simps frame_bytes_def)

theorem server_stays_in_workspace_witness:
  "\<exists>d. sv_overlays (run_server sample_lsp_env sample_actions (new_server sample_input sample_world)) = [(''/d/a.sando'', d)]
     \<and> dc_path d = ''/d/a.sando''
     \<and> under (sv_root (run_server sample_lsp_env sample_actions (new_server sample_input sample_world))) ''/d/a.sando''"
proof -
  have rooted: "is_rooted (host_dir (le_host sample_lsp_env))"
    by (simp add: sample_lsp_env_def sample_host_def is_rooted_def)
  show ?thesis
    using server_stays_in_workspace [OF rooted, where actions = sample_actions and input = sample_input and w = sample_world]
      sample_texts by (auto simp: map_eq_Cons_conv)
qed

end
