(* ===== verification/Dev_Proxy_Safety.thy ===== *)
theory Dev_Proxy_Safety
  imports Dev_Proxy
begin

section \<open>What the development proxy lets through and what it adds\<close>

text \<open>
  Requests reach the application or the event stream only with a loopback authority, and a document
  comes back with the reload client at the last closing tag. The last lemma shows the limit of this: a
  page that is not UTF-8 makes the index of the closing tag run past the page.
\<close>

subsection \<open>Requests\<close>

definition local_host :: "(nat \<Rightarrow> nat) \<Rightarrow> bytes \<Rightarrow> bool" where
  "local_host ucl host =
     (to_lower ucl host = ''localhost'' \<or> to_lower ucl host = ''localhost.''
      \<or> (case parse_ip host of Some ip \<Rightarrow> is_loopback ip | None \<Rightarrow> False))"

definition names_authority :: "bytes \<Rightarrow> bytes \<Rightarrow> int \<Rightarrow> bool" where
  "names_authority authority host port =
     ((\<exists>digits. (authority = host @ CHR '':'' # digits \<or> authority = CHR ''['' # host @ CHR '']'' # CHR '':'' # digits)
        \<and> go_atoi digits = Some port)
      \<or> port = 80 \<and> (authority = host \<or> authority = CHR ''['' # host @ [CHR '']'']))"

lemma bracketed: "has_prefix ''['' a \<Longrightarrow> has_suffix '']'' a \<Longrightarrow>
  a = CHR ''['' # take (length a - 2) (drop 1 a) @ [CHR '']'']"
proof -
  assume "has_prefix ''['' a" "has_suffix '']'' a"
  then obtain s t where "a = ''['' @ s" "a = t @ [CHR '']'']" unfolding has_prefix_iff has_suffix_iff by blast
  then show ?thesis by (cases t) auto
qed

lemma canonical_loopback_names:
  assumes "canonical_loopback_authority ucl authority port = Some key"
  shows "\<exists>host. names_authority authority host port \<and> local_host ucl host"
proof -
  have local: "local_host ucl host"
    if "(let normalized_host = to_lower ucl host in
         if normalized_host = ''localhost'' \<or> normalized_host = ''localhost.'' then Some (''localhost:'' @ show_int port)
         else (case parse_ip host of
             Some ip \<Rightarrow> (if is_loopback ip then Some (loopback_string ip @ '':'' @ show_int port) else None)
           | None \<Rightarrow> None)) = Some key" for host
    using that by (auto simp: local_host_def Let_def split: if_splits option.splits)
  show ?thesis
  proof (cases "split_host_port authority")
    case (Inr parts)
    obtain host digits where parts: "parts = (host, digits)" by (cases parts)
    have "go_atoi digits = Some port" "local_host ucl host"
      using assms local [of host] by (auto simp: canonical_loopback_authority_def Inr parts split: if_splits)
    moreover have "authority = host @ CHR '':'' # digits \<or> authority = CHR ''['' # host @ CHR '']'' # CHR '':'' # digits"
      using split_host_port_parts Inr parts by blast
    ultimately show ?thesis unfolding names_authority_def by blast
  next
    case (Inl e)
    define host where "host = (if has_prefix ''['' authority \<and> has_suffix '']'' authority
      then take (length authority - 2) (drop 1 authority) else authority)"
    have "port = 80" using assms by (auto simp: canonical_loopback_authority_def Inl split: if_splits)
    moreover have "local_host ucl host"
      using assms local [of host] by (auto simp: canonical_loopback_authority_def Inl host_def [symmetric] split: if_splits)
    moreover have "authority = host \<or> authority = CHR ''['' # host @ [CHR '']'']"
      using bracketed [of authority] by (auto simp: host_def)
    ultimately show ?thesis unfolding names_authority_def by blast
  qed
qed

lemma canonical_origin_url:
  assumes "canonical_http_origin ucl parse_url raw port = Some key"
  shows "\<exists>u. parse_url raw = Some u \<and> equal_fold_ascii (url_scheme u) ''http'' \<and> url_path u = [] \<and> \<not> url_user u
    \<and> canonical_loopback_authority ucl (url_host u) port = Some key"
  using assms by (auto simp: canonical_http_origin_def split: if_splits option.splits)

lemma served_request:
  assumes "serve_http ucl parse_url hash d r = EventStream \<or> (\<exists>target. serve_http ucl parse_url hash d r = Forwarded target)"
  shows "\<exists>port key. px_authority d = Some port \<and> canonical_loopback_authority ucl (rq_host r) port = Some key
    \<and> (\<forall>site \<in> set (header_values (rq_header r) ''Sec-Fetch-Site'').
         to_lower ucl (trim_space site) \<in> set [[], ''none'', ''same-origin''])
    \<and> (\<forall>origin \<in> set (header_values (rq_header r) ''Origin'').
         canonical_http_origin ucl parse_url origin port = Some key)"
proof -
  have ok: "fst (validate_request ucl parse_url d r) = 0"
    using assms by (auto simp: serve_http_def split: prod.splits if_splits)
  then obtain port where port: "px_authority d = Some port" by (cases "px_authority d") (auto simp: validate_request_def)
  then obtain key where key: "canonical_loopback_authority ucl (rq_host r) port = Some key"
    using ok by (cases "canonical_loopback_authority ucl (rq_host r) port") (auto simp: validate_request_def)
  have single: "(\<forall>x\<in>set xs. P x)" if "\<not> length xs > 1" "\<not> (length xs = 1 \<and> \<not> P (xs ! 0))" for P and xs :: "bytes list"
    using that by (cases xs) auto
  let ?sites = "header_values (rq_header r) ''Sec-Fetch-Site''"
  let ?origins = "header_values (rq_header r) ''Origin''"
  have "\<not> length ?sites > 1"
      "\<not> (length ?sites = 1 \<and> to_lower ucl (trim_space (?sites ! 0)) \<notin> set [[], ''none'', ''same-origin''])"
      "\<not> length ?origins > 1"
      "\<not> (length ?origins = 1 \<and> canonical_http_origin ucl parse_url (?origins ! 0) port \<noteq> Some key)"
    using ok by (auto simp: validate_request_def port key Let_def cross_origin_denied_def split: if_splits)
  then show ?thesis using port key
    by (intro exI [of _ port] exI [of _ key] conjI single) simp_all
qed

text \<open>
  C17: A request that reaches the application or the event stream names the proxy's own port on a host
  that is \<open>localhost\<close> or a literal loopback address; its \<open>Sec-Fetch-Site\<close> is absent, \<open>none\<close> or
  \<open>same-origin\<close>; and an \<open>Origin\<close>, if there is one, is a plain \<open>http\<close> origin of that authority. Other
  names, which a rebound DNS entry would send, are refused.
\<close>
theorem proxy_serves_local:
  assumes "serve_http ucl parse_url hash d r = EventStream \<or> (\<exists>target. serve_http ucl parse_url hash d r = Forwarded target)"
  shows "\<exists>port host. px_authority d = Some port \<and> names_authority (rq_host r) host port \<and> local_host ucl host
    \<and> (\<forall>site \<in> set (header_values (rq_header r) ''Sec-Fetch-Site'').
         to_lower ucl (trim_space site) \<in> set [[], ''none'', ''same-origin''])
    \<and> (\<forall>origin \<in> set (header_values (rq_header r) ''Origin''). \<exists>u.
         parse_url origin = Some u \<and> equal_fold_ascii (url_scheme u) ''http''
         \<and> canonical_loopback_authority ucl (url_host u) port = canonical_loopback_authority ucl (rq_host r) port)"
proof -
  obtain port key where served: "px_authority d = Some port" "canonical_loopback_authority ucl (rq_host r) port = Some key"
      "\<forall>site \<in> set (header_values (rq_header r) ''Sec-Fetch-Site'').
         to_lower ucl (trim_space site) \<in> set [[], ''none'', ''same-origin'']"
      "\<forall>origin \<in> set (header_values (rq_header r) ''Origin'').
         canonical_http_origin ucl parse_url origin port = Some key"
    using served_request [OF assms] by blast
  obtain host where "names_authority (rq_host r) host port" "local_host ucl host"
    using canonical_loopback_names [OF served(2)] by blast
  then show ?thesis
    using served canonical_origin_url by (intro exI [of _ port] exI [of _ host]) metis
qed

definition sample_request :: http_request where
  "sample_request = \<lparr>rq_method = ''GET'', rq_host = ''127.0.0.1:7331'', rq_path = ''/'',
     rq_header = header_set ''Sec-Fetch-Site'' ''none'' Map.empty\<rparr>"

definition sample_proxy :: dev_proxy where
  "sample_proxy = \<lparr>px_target = Some \<lparr>url_scheme = ''http'', url_opaque = [], url_user = False,
     url_host = ''127.0.0.1:4000'', url_path = [], url_raw_path = [], url_raw_query = [], url_fragment = [],
     url_force_query = False\<rparr>, px_authority = Some 7331\<rparr>"

declare canonical_loopback_authority_def [go_eval] canonical_http_origin_def [go_eval] cross_origin_denied_def [go_eval]
  validate_request_def [go_eval] http_error_def [go_eval] events_path_def [go_eval] serve_http_def [go_eval]
  sample_request_def [go_eval] sample_proxy_def [go_eval]

theorem proxy_serves_local_witness:
  "\<exists>port host. px_authority sample_proxy = Some port \<and> names_authority (rq_host sample_request) host port
    \<and> local_host (\<lambda>r. r) host
    \<and> (\<forall>site \<in> set (header_values (rq_header sample_request) ''Sec-Fetch-Site'').
         to_lower (\<lambda>r. r) (trim_space site) \<in> set [[], ''none'', ''same-origin''])
    \<and> (\<forall>origin \<in> set (header_values (rq_header sample_request) ''Origin''). \<exists>u.
         (\<lambda>s. None :: parsed_url option) origin = Some u \<and> equal_fold_ascii (url_scheme u) ''http''
         \<and> canonical_loopback_authority (\<lambda>r. r) (url_host u) port
           = canonical_loopback_authority (\<lambda>r. r) (rq_host sample_request) port)"
  by (rule proxy_serves_local [of _ _ "[]"]) (simp add: go_eval)

subsection \<open>Documents\<close>

definition insertion_place :: "bytes \<Rightarrow> bytes \<Rightarrow> bool" where
  \<comment> \<open>the text behind the place: the last closing body tag, else the last closing html tag, else the end\<close>
  "insertion_place contents behind =
     (let starts = (\<lambda>tag s. has_prefix tag (map ascii_lower s));
          occurs = (\<lambda>tag s. \<exists>k \<le> length s. starts tag (drop k s)) in
      if occurs ''</body>'' contents
      then starts ''</body>'' behind \<and> \<not> occurs ''</body>'' (drop 1 behind)
      else if occurs ''</html>'' contents
      then starts ''</html>'' behind \<and> \<not> occurs ''</html>'' (drop 1 behind)
      else behind = [])"

lemma last_index_place:
  assumes "last_index_of tag (map ascii_lower s) = Some p" and "tag \<noteq> []"
  shows "p < length s \<and> has_prefix tag (map ascii_lower (drop p s))
    \<and> \<not> (\<exists>k \<le> length (drop 1 (drop p s)). has_prefix tag (map ascii_lower (drop k (drop 1 (drop p s)))))"
proof -
  note at = last_index_of_Some [OF assms(1)]
  then have here: "has_prefix tag (map ascii_lower (drop p s))" by (simp add: drop_map)
  then have "p < length s" using assms(2) by (cases tag; cases "p < length s") auto
  moreover have "\<not> has_prefix tag (map ascii_lower (drop k (drop 1 (drop p s))))" if "k \<le> length (drop 1 (drop p s))" for k
  proof -
    have "p + 1 + k \<le> length (map ascii_lower s)" using that \<open>p < length s\<close> by simp
    then have "\<not> has_prefix tag (drop (p + 1 + k) (map ascii_lower s))"
      using last_index_of_last [OF assms(1), of "p + 1 + k"] by simp
    then show ?thesis by (simp add: drop_map ac_simps)
  qed
  ultimately show ?thesis using here by blast
qed

lemma last_index_absent:
  "last_index_of tag (map ascii_lower s) = None \<Longrightarrow> \<not> (\<exists>k \<le> length s. has_prefix tag (map ascii_lower (drop k s)))"
  using last_index_of_None [of tag "map ascii_lower s"] by (auto simp: drop_map)

lemma insert_reload_client_ascii:
  assumes "list_all is_ascii contents"
  shows "\<exists>before behind. contents = before @ behind \<and> insertion_place contents behind
    \<and> insert_reload_client ucl contents = Some (before @ reload_client_tag @ behind)"
proof -
  define p where "p = (case last_index_of ''</body>'' (map ascii_lower contents) of
      Some p \<Rightarrow> p
    | None \<Rightarrow> (case last_index_of ''</html>'' (map ascii_lower contents) of Some p \<Rightarrow> p | None \<Rightarrow> length contents))"
  have present: "\<exists>k \<le> length contents. has_prefix tag (map ascii_lower (drop k contents))"
    if "last_index_of tag (map ascii_lower contents) = Some q" "tag \<noteq> []" for tag q
    using last_index_place [OF that] by (intro exI [of _ q]) simp
  have place: "insertion_place contents (drop p contents) \<and> p \<le> length contents"
  proof (cases "last_index_of ''</body>'' (map ascii_lower contents)")
    case (Some q)
    then show ?thesis using last_index_place [OF Some] present [OF Some]
      unfolding insertion_place_def Let_def p_def by simp
  next
    case None
    note no_body = last_index_absent [OF None]
    show ?thesis
    proof (cases "last_index_of ''</html>'' (map ascii_lower contents)")
      case (Some q)
      then show ?thesis using last_index_place [OF Some] present [OF Some] no_body
        unfolding insertion_place_def Let_def p_def None by simp
    next
      case none: None
      show ?thesis using no_body last_index_absent [OF none]
        unfolding insertion_place_def Let_def p_def None none by simp
    qed
  qed
  then have "insert_reload_client ucl contents = Some (take p contents @ reload_client_tag @ drop p contents)"
    using assms by (simp add: insert_reload_client_def to_lower_ascii p_def [symmetric] Let_def)
  then show ?thesis using place by (intro exI [of _ "take p contents"] exI [of _ "drop p contents"]) simp
qed

lemma adjust_csp_other:
  "canonical_key True name \<noteq> key \<Longrightarrow> adjust_csp hash name h key = h key"
proof -
  assume other: "canonical_key True name \<noteq> key"
  have "foldl (\<lambda>h policy. header_add name (adjust_policy hash policy) h) h' policies key = h' key" for h' policies
    using other by (induction policies arbitrary: h') (auto simp: header_add_def)
  then show ?thesis using other by (simp add: adjust_csp_def Let_def header_del_def)
qed

lemma header_get_cong: "h (canonical_key True name) = h' (canonical_key True name) \<Longrightarrow> header_get h name = header_get h' name"
  by (simp add: header_get_def header_values_def)

text \<open>
  C36: An ASCII document that is delivered whole comes back with the reload client once, in front of its
  last closing body tag (else its last closing html tag, else at its end), every other byte as it was;
  the length and its header field are those of the new body, and nothing may be cached.
\<close>
theorem reload_client_inserted:
  assumes "eligible_html_response mime ucl (disable_development_caching response)"
    and "rs_body response = Some \<lparr>bd_content = contents, bd_error = None, bd_close_error = None\<rparr>"
    and "length contents \<le> max_injectable_html" and "is_full_html_document ucl contents" and "list_all is_ascii contents"
  shows "\<exists>before behind r. contents = before @ behind \<and> insertion_place contents behind
    \<and> inject_development_client mime ucl hash response = Injected r
    \<and> rs_body r = Some (memory_body (before @ reload_client_tag @ behind))
    \<and> rs_length r = int (length (before @ reload_client_tag @ behind))
    \<and> header_get (rs_header r) ''Content-Length'' = show_nat (length (before @ reload_client_tag @ behind))
    \<and> header_get (rs_header r) ''Cache-Control'' = ''no-store'' \<and> header_values (rs_header r) ''ETag'' = []"
proof -
  obtain before behind where place: "contents = before @ behind" "insertion_place contents behind"
      and inserted: "insert_reload_client ucl contents = Some (before @ reload_client_tag @ behind)"
    using insert_reload_client_ascii [OF assms(5)] by blast
  let ?new = "before @ reload_client_tag @ behind"
  let ?r = "disable_development_caching response"
  let ?h = "header_del ''Last-Modified'' (header_del ''ETag''
    (header_set ''Content-Length'' (show_nat (length ?new)) (rs_header ?r)))"
  let ?csp = "\<lambda>h. adjust_csp hash ''Content-Security-Policy-Report-Only'' (adjust_csp hash ''Content-Security-Policy'' h)"
  have body: "rs_body ?r = rs_body response" by (simp add: disable_development_caching_def)
  have small: "take (max_injectable_html + 1) contents = contents" using assms(3) by simp
  have result: "inject_development_client mime ucl hash response =
      Injected (?r\<lparr>rs_body := Some (memory_body ?new), rs_length := int (length ?new), rs_header := ?csp ?h\<rparr>)"
    using assms(1-4) inserted
    by (simp add: inject_development_client_def body small Let_def)
  have same: "?csp ?h key = ?h key" if "key \<in> {''Content-Length'', ''Cache-Control'', ''Etag''}" for key
    using that by (auto simp: adjust_csp_other ascii_lower_def)
  have keys: "canonical_key True ''Content-Length'' = ''Content-Length''" "canonical_key True ''Cache-Control'' = ''Cache-Control''"
      "canonical_key True ''ETag'' = ''Etag''" "canonical_key True ''Last-Modified'' = ''Last-Modified''"
      "canonical_key True ''Expires'' = ''Expires''" "canonical_key True ''Pragma'' = ''Pragma''"
    by (simp_all add: ascii_lower_def char_of_eq_iff)
  have "?h ''Content-Length'' = Some [show_nat (length ?new)]" "?h ''Cache-Control'' = Some [''no-store'']" "?h ''Etag'' = None"
    unfolding header_set_def header_del_def disable_development_caching_def keys by simp_all
  then have fields: "?csp ?h ''Content-Length'' = Some [show_nat (length ?new)]" "?csp ?h ''Cache-Control'' = Some [''no-store'']"
      "?csp ?h ''Etag'' = None"
    using same by (simp_all only: insert_iff simp_thms)
  let ?res = "?r\<lparr>rs_body := Some (memory_body ?new), rs_length := int (length ?new), rs_header := ?csp ?h\<rparr>"
  have header: "rs_header ?res = ?csp ?h" by simp
  have "rs_body ?res = Some (memory_body ?new)" "rs_length ?res = int (length ?new)" by simp_all
  moreover have "header_get (rs_header ?res) ''Content-Length'' = show_nat (length ?new)"
      "header_get (rs_header ?res) ''Cache-Control'' = ''no-store''" "header_values (rs_header ?res) ''ETag'' = []"
    unfolding header_get_def header_values_def keys header fields by simp_all
  ultimately show ?thesis using place result by blast
qed

definition sample_page :: bytes where "sample_page = ''<html><body>hi</body></html>''"

definition sample_response :: http_response where
  "sample_response = \<lparr>rs_status = 200, rs_request = Some sample_request,
     rs_header = header_set ''Content-Type'' ''text/html'' Map.empty,
     rs_body = Some \<lparr>bd_content = sample_page, bd_error = None, bd_close_error = None\<rparr>, rs_length = -1\<rparr>"

declare disable_development_caching_def [go_eval] eligible_html_response_def [go_eval] has_html_token_prefix_def [go_eval]
  skip_comments.simps [go_eval] is_full_html_document_def [go_eval] sample_page_def [go_eval]
  sample_response_def [go_eval] max_injectable_html_def [go_eval]

theorem reload_client_inserted_witness:
  "\<exists>before behind r. sample_page = before @ behind \<and> insertion_place sample_page behind
    \<and> inject_development_client (\<lambda>s. (s, s = [])) (\<lambda>r. r) [] sample_response = Injected r
    \<and> rs_body r = Some (memory_body (before @ reload_client_tag @ behind))
    \<and> rs_length r = int (length (before @ reload_client_tag @ behind))
    \<and> header_get (rs_header r) ''Content-Length'' = show_nat (length (before @ reload_client_tag @ behind))
    \<and> header_get (rs_header r) ''Cache-Control'' = ''no-store'' \<and> header_values (rs_header r) ''ETag'' = []"
proof (rule reload_client_inserted)
  show "eligible_html_response (\<lambda>s. (s, s = [])) (\<lambda>r. r) (disable_development_caching sample_response)"
    by (simp add: go_eval char_of_eq_iff)
  show "is_full_html_document (\<lambda>r. r) sample_page" by (simp add: go_eval)
qed (simp_all add: go_eval)

lemma last_index_at_end: "tag \<noteq> [] \<Longrightarrow> last_index_of tag (s @ tag) = Some (length s)"
proof (cases "last_index_of tag (s @ tag)")
  case None
  then show ?thesis using last_index_of_None [OF None, of "length s"] has_prefix_append [of tag "[]"] by simp
next
  case (Some i)
  then have "\<not> i < length s"
    using last_index_of_last [OF Some, of "length s"] has_prefix_append [of tag "[]"] by auto
  moreover have "length tag \<le> length (drop i (s @ tag))" "i \<le> length (s @ tag)"
    using last_index_of_Some [OF Some] by (auto simp: has_prefix_iff dest: arg_cong [of _ _ length])
  moreover assume "tag \<noteq> []"
  ultimately have "i = length s" by (cases "i = length s + length tag") auto
  with Some show ?thesis by simp
qed

text \<open>
  The index is that of the lower-case text, in which every byte that is not UTF-8 takes three: four such
  bytes in front of the closing tag are enough for an index past the end, and slicing panics.
\<close>
lemma latin1_page_panics:
  assumes "ucl 65533 = 65533" and "ascii_table ucl" and "4 \<le> n"
  shows "insert_reload_client ucl (replicate n (CHR 0xE9) @ ''</body>'') = None"
proof -
  have first: "utf8_chunks (CHR 0xE9 # b # s) = (rune_error, [CHR 0xE9]) # utf8_chunks (b # s)"
    if "\<not> is_cont b" for b s
  proof -
    have "code b < 128 \<or> 191 < code b" using that by (auto simp: is_cont_def)
    then have "decode_rune (CHR 0xE9 # b # s) = (rune_error, 1)"
      by (simp add: decode_rune_def second_lo_def second_hi_def)
    from utf8_chunks_Cons [OF this] show ?thesis by simp
  qed
  have chunks: "utf8_chunks (replicate n (CHR 0xE9) @ ''</body>'') = replicate n (rune_error, [CHR 0xE9]) @ utf8_chunks ''</body>''" for n
  proof (induction n)
    case (Suc n)
    have "\<not> is_cont (CHR 0xE9)" "\<not> is_cont (CHR ''<'')" by (simp_all add: is_cont_def)
    with Suc show ?case using first by (cases n) (simp_all del: utf8_chunks.simps)
  qed simp
  have lower: "to_lower ucl (replicate n (CHR 0xE9) @ ''</body>'') = concat (replicate n replacement_char) @ ''</body>''"
  proof -
    have not_ascii: "\<not> list_all is_ascii (replicate n (CHR 0xE9) @ ''</body>'')" using assms(3) by (cases n) (simp_all add: is_ascii_def)
    have "rune_lower ucl ''</body>'' = ''</body>''"
      using assms(2) by (simp add: rune_lower_ascii_Cons ascii_lower_def)
    moreover have "rune_lower ucl (replicate n (CHR 0xE9) @ ''</body>'') =
        concat (map (\<lambda>r. encode_rune (ucl r)) (map fst (replicate n (rune_error, [CHR 0xE9])))) @ rune_lower ucl ''</body>''"
      unfolding rune_lower_def runes_def chunks map_append concat_append ..
    moreover have "encode_rune (ucl rune_error) = replacement_char"
      using assms(1) by (simp add: rune_error_def encode_rune_def replacement_char_def char_of_eq_iff)
    ultimately have "rune_lower ucl (replicate n (CHR 0xE9) @ ''</body>'') = concat (replicate n replacement_char) @ ''</body>''"
      by simp
    moreover have "to_lower ucl s = rune_lower ucl s" if "\<not> list_all is_ascii s" for s
      using that by (simp add: to_lower_def rune_lower_def)
    ultimately show ?thesis using not_ascii by metis
  qed
  have "length (concat (replicate n replacement_char)) = 3 * n" by (induction n) (simp_all add: replacement_char_def)
  then show ?thesis
    using assms(3) last_index_at_end [of "''</body>''" "concat (replicate n replacement_char)"]
    unfolding insert_reload_client_def lower Let_def by simp
qed

end
