(* ===== verification/Dev_Event_History.thy ===== *)
theory Dev_Event_History
  imports Dev_Events
begin

section \<open>What a browser gets to see of the development events\<close>

text \<open>
  The operations of the hub as steps, with the history of every channel beside them: the events offered
  to it since it subscribed and those its reader took. The invariant of all histories gives that a slow
  reader misses old events only, and never the newest.
\<close>

datatype hub_operation =
    Publish nat "nat \<Rightarrow> nat \<times> nat" dev_event
  | Subscribe
  | Unsubscribe nat
  | CloseHub
  | Receive nat

fun hub_step :: "hub_operation \<Rightarrow> event_hub \<Rightarrow> event_hub option" where
  "hub_step (Publish now schedule event) h = publish now schedule event h"
| "hub_step Subscribe h = Some (snd (subscribe h))"
| "hub_step (Unsubscribe k) h = unsubscribe k h"
| "hub_step CloseHub h = close_hub h"
| "hub_step (Receive k) h = Some (receive k h)"

record hub_history =
  hh_hub :: event_hub
  hh_offered :: "nat \<Rightarrow> dev_event list"
  hh_received :: "nat \<Rightarrow> dev_event list"

definition stamped :: "nat \<Rightarrow> dev_event \<Rightarrow> dev_event" where
  "stamped now event = (if ev_at event = 0 then event\<lparr>ev_at := now\<rparr> else event)"

definition reader_takes :: "nat \<times> nat \<Rightarrow> dev_event list \<Rightarrow> dev_event list" where
  "reader_takes schedule q =
     (if length q < channel_capacity then []
      else take (fst schedule) q @ take (snd schedule) (drop 1 (drop (fst schedule) q)))"

fun offers :: "hub_operation \<Rightarrow> event_hub \<Rightarrow> nat \<Rightarrow> dev_event list" where
  "offers (Publish now schedule event) h k =
     (if \<not> hb_closed h \<and> k \<in> set (hb_subscribers h) then [stamped now event] else [])"
| "offers Subscribe h k =
     (if \<not> hb_closed h \<and> k = length (hb_channels h)
      then (case hb_latest h of Some e \<Rightarrow> [e] | None \<Rightarrow> []) else [])"
| "offers _ h k = []"

fun receipts :: "hub_operation \<Rightarrow> event_hub \<Rightarrow> nat \<Rightarrow> dev_event list" where
  "receipts (Publish now schedule event) h k =
     (if \<not> hb_closed h \<and> k \<in> set (hb_subscribers h)
      then reader_takes (schedule k) (ch_queue (hb_channels h ! k)) else [])"
| "receipts (Receive i) h k =
     (if k = i \<and> k < length (hb_channels h) then take 1 (ch_queue (hb_channels h ! k)) else [])"
| "receipts _ h k = []"

definition history_step :: "hub_operation \<Rightarrow> hub_history \<Rightarrow> hub_history option" where
  "history_step oper s = map_option (\<lambda>h.
     \<lparr>hh_hub = h,
      hh_offered = (\<lambda>k. hh_offered s k @ offers oper (hh_hub s) k),
      hh_received = (\<lambda>k. hh_received s k @ receipts oper (hh_hub s) k)\<rparr>) (hub_step oper (hh_hub s))"

fun run_hub :: "hub_operation list \<Rightarrow> hub_history \<Rightarrow> hub_history option" where
  "run_hub [] s = Some s"
| "run_hub (oper # opers) s = (case history_step oper s of None \<Rightarrow> None | Some s \<Rightarrow> run_hub opers s)"

definition initial_history :: hub_history where
  "initial_history = \<lparr>hh_hub = new_event_hub, hh_offered = (\<lambda>k. []), hh_received = (\<lambda>k. [])\<rparr>"

definition hub_ok :: "event_hub \<Rightarrow> bool" where
  "hub_ok h =
     (distinct (hb_subscribers h)
      \<and> (\<forall>k\<in>set (hb_subscribers h). k < length (hb_channels h) \<and> \<not> ch_closed (hb_channels h ! k))
      \<and> (hb_closed h \<longrightarrow> hb_subscribers h = [])
      \<and> (\<forall>ch\<in>set (hb_channels h). length (ch_queue ch) \<le> channel_capacity))"

definition channel_ok :: "hub_history \<Rightarrow> nat \<Rightarrow> bool" where
  "channel_ok s k =
     (let q = (if k < length (hb_channels (hh_hub s)) then ch_queue (hb_channels (hh_hub s) ! k) else []) in
      subseq (hh_received s k @ q) (hh_offered s k)
      \<and> (hh_offered s k \<noteq> [] \<longrightarrow> hh_received s k @ q \<noteq> [] \<and> last (hh_received s k @ q) = last (hh_offered s k)))"

definition history_ok :: "hub_history \<Rightarrow> bool" where
  "history_ok s = (hub_ok (hh_hub s) \<and> (\<forall>k. channel_ok s k)
     \<and> (\<forall>k \<ge> length (hb_channels (hh_hub s)). hh_offered s k = [] \<and> hh_received s k = []))"

subsection \<open>Publishing\<close>

definition offered_queue :: "dev_event \<Rightarrow> nat \<times> nat \<Rightarrow> dev_event list \<Rightarrow> dev_event list" where
  "offered_queue event schedule q =
     (if length q < channel_capacity then q @ [event]
      else drop (snd schedule) (drop 1 (drop (fst schedule) q)) @ [event])"

lemma offer_open:
  "\<not> ch_closed ch \<Longrightarrow> length (ch_queue ch) \<le> channel_capacity \<Longrightarrow>
   offer event schedule ch = Some (ch\<lparr>ch_queue := offered_queue event schedule (ch_queue ch)\<rparr>)"
  by (auto simp: offer_def try_send_def taken_def offered_queue_def channel_capacity_def Let_def)

lemma offered_queue_length: "length q \<le> channel_capacity \<Longrightarrow> length (offered_queue event schedule q) \<le> channel_capacity"
  by (auto simp: offered_queue_def channel_capacity_def)

lemma offer_all_open:
  "distinct ks \<Longrightarrow> \<forall>k\<in>set ks. k < length chs \<and> \<not> ch_closed (chs ! k) \<Longrightarrow>
   \<forall>ch\<in>set chs. length (ch_queue ch) \<le> channel_capacity \<Longrightarrow>
   \<exists>chs'. offer_all event schedule ks chs = Some chs' \<and> length chs' = length chs
     \<and> (\<forall>k < length chs. chs' ! k = (if k \<in> set ks
          then (chs ! k)\<lparr>ch_queue := offered_queue event (schedule k) (ch_queue (chs ! k))\<rparr> else chs ! k))"
proof (induction ks arbitrary: chs)
  case Nil
  then show ?case by simp
next
  case (Cons k ks)
  define ch where "ch = (chs ! k)\<lparr>ch_queue := offered_queue event (schedule k) (ch_queue (chs ! k))\<rparr>"
  have k: "k < length chs" "\<not> ch_closed (chs ! k)" "length (ch_queue (chs ! k)) \<le> channel_capacity"
    using Cons.prems by auto
  have first: "offer event (schedule k) (chs ! k) = Some ch" unfolding ch_def using k by (intro offer_open)
  have small: "\<forall>ch\<in>set (chs[k := ch]). length (ch_queue ch) \<le> channel_capacity"
    using Cons.prems(3) k(3) offered_queue_length [OF k(3), of event "schedule k"] by (auto simp: ch_def dest!: subsetD [OF set_update_subset_insert])
  have "\<forall>i\<in>set ks. i < length (chs[k := ch]) \<and> \<not> ch_closed (chs[k := ch] ! i)"
    using Cons.prems(1,2) by (auto simp: nth_list_update)
  from Cons.IH [OF _ this small] Cons.prems(1) obtain chs' where
      "offer_all event schedule ks (chs[k := ch]) = Some chs'" "length chs' = length chs"
      "\<forall>i < length chs. chs' ! i = (if i \<in> set ks
          then (chs[k := ch] ! i)\<lparr>ch_queue := offered_queue event (schedule i) (ch_queue (chs[k := ch] ! i))\<rparr>
          else chs[k := ch] ! i)"
    by auto
  then show ?case using first Cons.prems(1) k(1) by (auto simp: ch_def nth_list_update)
qed

text \<open>What is taken and what is left of a full queue is the queue without one event.\<close>

lemma offered_queue_subseq: "subseq (reader_takes schedule q @ offered_queue event schedule q) (q @ [event])"
proof (cases "length q < channel_capacity")
  case True
  then show ?thesis by (simp add: reader_takes_def offered_queue_def)
next
  case False
  let ?rest = "drop (fst schedule) q"
  have "subseq (drop 1 ?rest) ?rest" by (metis append_take_drop_id subseq_drop_many subseq_order.refl)
  then have "subseq (take (fst schedule) q @ drop 1 ?rest @ [event]) (take (fst schedule) q @ ?rest @ [event])"
    by (intro list_emb_append_mono subseq_order.refl)
  then have "subseq (take (fst schedule) q @ drop 1 ?rest @ [event]) (q @ [event])"
    by (metis append.assoc append_take_drop_id)
  moreover have "reader_takes schedule q @ offered_queue event schedule q = take (fst schedule) q @ drop 1 ?rest @ [event]"
  proof -
    have split: "take n x @ drop n x @ y = x @ y" for n and x y :: "dev_event list" by (simp flip: append.assoc)
    show ?thesis using False by (simp only: reader_takes_def offered_queue_def if_False append.assoc split)
  qed
  ultimately show ?thesis by simp
qed

lemma offered_queue_last: "offered_queue event schedule q \<noteq> []" "last (offered_queue event schedule q) = event"
  by (simp_all add: offered_queue_def)

lemma publish_ok:
  assumes "hub_ok h"
  shows "\<exists>h'. publish now schedule event h = Some h' \<and> hub_ok h'
    \<and> length (hb_channels h') = length (hb_channels h)
    \<and> (\<forall>k < length (hb_channels h). hb_channels h' ! k =
         (if \<not> hb_closed h \<and> k \<in> set (hb_subscribers h)
          then (hb_channels h ! k)\<lparr>ch_queue := offered_queue (stamped now event) (schedule k) (ch_queue (hb_channels h ! k))\<rparr>
          else hb_channels h ! k))"
proof (cases "hb_closed h")
  case True
  then show ?thesis using assms by (simp add: publish_def Let_def)
next
  case False
  let ?e = "stamped now event"
  have subs: "distinct (hb_subscribers h)"
      "\<forall>k\<in>set (hb_subscribers h). k < length (hb_channels h) \<and> \<not> ch_closed (hb_channels h ! k)"
      "\<forall>ch\<in>set (hb_channels h). length (ch_queue ch) \<le> channel_capacity"
    using assms by (simp_all add: hub_ok_def)
  obtain chs where chs: "offer_all ?e schedule (hb_subscribers h) (hb_channels h) = Some chs"
      "length chs = length (hb_channels h)"
      "\<forall>k < length (hb_channels h). chs ! k = (if k \<in> set (hb_subscribers h)
          then (hb_channels h ! k)\<lparr>ch_queue := offered_queue ?e (schedule k) (ch_queue (hb_channels h ! k))\<rparr>
          else hb_channels h ! k)"
    using offer_all_open [OF subs] by blast
  let ?latest = "if ev_type ?e = ''diagnostic'' then Some ?e else if ev_type ?e = ''reload'' then None else hb_latest h"
  let ?h = "h\<lparr>hb_latest := ?latest, hb_channels := chs\<rparr>"
  have result: "publish now schedule event h = Some ?h"
    using False chs(1) by (simp add: publish_def stamped_def Let_def)
  have "length (ch_queue ch) \<le> channel_capacity" if member: "ch \<in> set chs" for ch
  proof -
    obtain k where k: "k < length chs" "chs ! k = ch" using member unfolding in_set_conv_nth by blast
    then have small: "length (ch_queue (hb_channels h ! k)) \<le> channel_capacity" using subs(3) chs(2) by simp
    show ?thesis
      using k(1) small offered_queue_length [OF small, of ?e "schedule k"] unfolding k(2) [symmetric] chs(2)
      by (simp add: chs(3))
  qed
  moreover have "k < length chs \<and> \<not> ch_closed (chs ! k)" if "k \<in> set (hb_subscribers h)" for k
  proof -
    have "k < length (hb_channels h)" "\<not> ch_closed (hb_channels h ! k)" using that subs(2) by simp_all
    then show ?thesis using that chs(2) chs(3) [rule_format, of k] by simp
  qed
  ultimately have "hub_ok ?h" using False subs(1) by (simp add: hub_ok_def)
  then show ?thesis using result False chs(2,3) by (intro exI [of _ ?h]) simp
qed

subsection \<open>The other operations\<close>

lemma subscribe_ok: "hub_ok h \<Longrightarrow> hub_ok (snd (subscribe h))"
  by (auto simp: hub_ok_def subscribe_def Let_def nth_append channel_capacity_def split: option.split)

lemma close_channel_open:
  "\<not> ch_closed (hb_channels h ! k) \<Longrightarrow>
   close_channel k h = Some (h\<lparr>hb_channels := (hb_channels h)[k := (hb_channels h ! k)\<lparr>ch_closed := True\<rparr>]\<rparr>)"
  by (simp add: close_channel_def)

definition same_queues :: "event_hub \<Rightarrow> event_hub \<Rightarrow> bool" where
  "same_queues h h' = (map ch_queue (hb_channels h') = map ch_queue (hb_channels h))"

lemma same_queuesD:
  assumes "same_queues h h'"
  shows "length (hb_channels h') = length (hb_channels h)"
    and "k < length (hb_channels h) \<Longrightarrow> ch_queue (hb_channels h' ! k) = ch_queue (hb_channels h ! k)"
proof -
  have "length (map ch_queue (hb_channels h')) = length (map ch_queue (hb_channels h))" using assms by (simp add: same_queues_def)
  then show len: "length (hb_channels h') = length (hb_channels h)" by simp
  show "ch_queue (hb_channels h' ! k) = ch_queue (hb_channels h ! k)" if "k < length (hb_channels h)"
    using arg_cong [OF assms [unfolded same_queues_def], of "\<lambda>xs. xs ! k"] that len by simp
qed

lemma close_step:
  assumes "hub_ok (h\<lparr>hb_closed := False\<rparr>)" and "k \<in> set (hb_subscribers h)"
  shows "\<exists>h'. close_channel k (h\<lparr>hb_subscribers := removeAll k (hb_subscribers h)\<rparr>) = Some h'
    \<and> hub_ok (h'\<lparr>hb_closed := False\<rparr>) \<and> same_queues h h' \<and> hb_subscribers h' = removeAll k (hb_subscribers h)
    \<and> hb_closed h' = hb_closed h"
proof -
  have k: "k < length (hb_channels h)" "\<not> ch_closed (hb_channels h ! k)" using assms by (auto simp: hub_ok_def)
  let ?h = "h\<lparr>hb_subscribers := removeAll k (hb_subscribers h),
      hb_channels := (hb_channels h)[k := (hb_channels h ! k)\<lparr>ch_closed := True\<rparr>]\<rparr>"
  have "close_channel k (h\<lparr>hb_subscribers := removeAll k (hb_subscribers h)\<rparr>) = Some ?h"
    using k by (simp add: close_channel_def)
  moreover have same: "same_queues h ?h"
    using k list_update_id [of "map ch_queue (hb_channels h)" k] by (simp add: same_queues_def map_update)
  have "\<forall>ch\<in>set (hb_channels ?h). length (ch_queue ch) \<le> channel_capacity"
  proof
    fix ch assume "ch \<in> set (hb_channels ?h)"
    then have "ch_queue ch \<in> set (map ch_queue (hb_channels h))"
      using same unfolding same_queues_def by (metis image_eqI list.set_map)
    then show "length (ch_queue ch) \<le> channel_capacity" using assms(1) by (auto simp: hub_ok_def)
  qed
  then have "hub_ok (?h\<lparr>hb_closed := False\<rparr>)"
    using assms(1) by (auto simp: hub_ok_def nth_list_update distinct_removeAll)
  ultimately show ?thesis using same by (intro exI [of _ ?h]) simp
qed

lemma close_channel_subscribers:
  "close_channel k (h\<lparr>hb_subscribers := ks\<rparr>) = map_option (\<lambda>h. h\<lparr>hb_subscribers := ks\<rparr>) (close_channel k h)"
  by (simp add: close_channel_def)

lemma close_all_ok:
  "hub_ok (h\<lparr>hb_closed := False\<rparr>) \<Longrightarrow> set ks = set (hb_subscribers h) \<Longrightarrow> distinct ks \<Longrightarrow>
   \<exists>h'. close_all ks h = Some h' \<and> hub_ok (h'\<lparr>hb_closed := False\<rparr>) \<and> same_queues h h' \<and> hb_subscribers h' = []
     \<and> hb_closed h' = hb_closed h"
proof (induction ks arbitrary: h)
  case Nil
  then show ?case by (simp add: same_queues_def)
next
  case (Cons k ks)
  obtain h1 where h1: "close_channel k (h\<lparr>hb_subscribers := removeAll k (hb_subscribers h)\<rparr>) = Some h1"
      "hub_ok (h1\<lparr>hb_closed := False\<rparr>)" "same_queues h h1" "hb_subscribers h1 = removeAll k (hb_subscribers h)"
      "hb_closed h1 = hb_closed h"
    using close_step [OF Cons.prems(1), of k] Cons.prems(2) by auto
  then obtain h0 where h0: "close_channel k h = Some h0" "h1 = h0\<lparr>hb_subscribers := removeAll k (hb_subscribers h)\<rparr>"
    by (auto simp: close_channel_subscribers)
  then have "h1 = h0\<lparr>hb_subscribers := removeAll k (hb_subscribers h0)\<rparr>"
    by (auto simp: close_channel_def split: if_splits)
  moreover have "set ks = set (hb_subscribers h1)" using Cons.prems(2,3) h1(4) by auto
  then obtain h' where "close_all ks h1 = Some h'" "hub_ok (h'\<lparr>hb_closed := False\<rparr>)" "same_queues h1 h'"
      "hb_subscribers h' = []" "hb_closed h' = hb_closed h1"
    using Cons.IH [OF h1(2)] Cons.prems(3) by auto
  ultimately show ?case using h0(1) h1(3,5) by (intro exI [of _ h']) (simp add: same_queues_def)
qed

lemma unsubscribe_ok:
  assumes "hub_ok h"
  shows "\<exists>h'. unsubscribe k h = Some h' \<and> hub_ok h' \<and> same_queues h h'"
proof (cases "k \<in> set (hb_subscribers h)")
  case True
  then have "\<not> hb_closed h" using assms by (auto simp: hub_ok_def)
  then have same: "h\<lparr>hb_closed := False\<rparr> = h" by simp
  obtain h' where h': "close_channel k (h\<lparr>hb_subscribers := removeAll k (hb_subscribers h)\<rparr>) = Some h'"
      "hub_ok (h'\<lparr>hb_closed := False\<rparr>)" "same_queues h h'" "hb_closed h' = hb_closed h"
    using close_step [OF _ True] assms unfolding same by blast
  have "h'\<lparr>hb_closed := False\<rparr> = h'" using h'(4) \<open>\<not> hb_closed h\<close> by simp
  then show ?thesis using h' True by (simp add: unsubscribe_def)
next
  case False
  then show ?thesis using assms by (simp add: unsubscribe_def same_queues_def)
qed

lemma close_hub_ok:
  assumes "hub_ok h"
  shows "\<exists>h'. close_hub h = Some h' \<and> hub_ok h' \<and> same_queues h h'"
proof (cases "hb_closed h")
  case True
  then show ?thesis using assms by (simp add: close_hub_def same_queues_def)
next
  case False
  let ?h = "h\<lparr>hb_closed := True\<rparr>"
  have distinct: "distinct (hb_subscribers h)" using assms by (simp add: hub_ok_def)
  have "hub_ok (?h\<lparr>hb_closed := False\<rparr>)" using assms False by (simp add: hub_ok_def)
  then obtain h' where h': "close_all (hb_subscribers h) ?h = Some h'" "hub_ok (h'\<lparr>hb_closed := False\<rparr>)"
      "same_queues ?h h'" "hb_subscribers h' = []"
    using close_all_ok [of ?h "hb_subscribers h"] distinct by auto
  then have "hub_ok h'" by (simp add: hub_ok_def)
  then show ?thesis using h' False by (simp add: close_hub_def same_queues_def)
qed

lemma receive_ok: "hub_ok h \<Longrightarrow> hub_ok (receive k h)"
proof (cases "k < length (hb_channels h)")
  case True
  assume ok: "hub_ok h"
  have "length (ch_queue ch) \<le> channel_capacity" if member: "ch \<in> set (hb_channels (receive k h))" for ch
  proof -
    have "ch = taken 1 (hb_channels h ! k) \<or> ch \<in> set (hb_channels h)"
      using member set_update_subset_insert [of "hb_channels h" k] by (auto simp: receive_def)
    moreover have "length (ch_queue (hb_channels h ! k)) \<le> channel_capacity" using ok True by (simp add: hub_ok_def)
    ultimately show ?thesis using ok by (auto simp: hub_ok_def taken_def)
  qed
  moreover have "ch_closed (hb_channels (receive k h) ! i) = ch_closed (hb_channels h ! i)" for i
    using True by (cases "k = i") (simp_all add: receive_def taken_def)
  moreover have "hb_subscribers (receive k h) = hb_subscribers h" "hb_closed (receive k h) = hb_closed h"
      "length (hb_channels (receive k h)) = length (hb_channels h)"
    by (simp_all add: receive_def)
  ultimately show ?thesis using ok by (simp add: hub_ok_def)
next
  case False
  then have "(hb_channels h)[k := x] = hb_channels h" for x by (intro list_update_beyond) simp
  then have "receive k h = h" by (simp add: receive_def)
  moreover assume "hub_ok h"
  ultimately show ?thesis by simp
qed

subsection \<open>All histories\<close>

lemma channel_ok_append:
  assumes "channel_ok s k" and "q = (if k < length (hb_channels (hh_hub s)) then ch_queue (hb_channels (hh_hub s) ! k) else [])"
    and "q' = (if k < length (hb_channels (hh_hub s')) then ch_queue (hb_channels (hh_hub s') ! k) else [])"
    and "hh_offered s' k = hh_offered s k @ fresh" and "hh_received s' k = hh_received s k @ gone"
    and "subseq (gone @ q') (q @ fresh)"
    and "fresh \<noteq> [] \<Longrightarrow> gone @ q' \<noteq> [] \<and> last (gone @ q') = last fresh" and "fresh = [] \<Longrightarrow> gone @ q' = q"
  shows "channel_ok s' k"
proof -
  have old: "subseq (hh_received s k @ q) (hh_offered s k)"
      "hh_offered s k \<noteq> [] \<longrightarrow> hh_received s k @ q \<noteq> [] \<and> last (hh_received s k @ q) = last (hh_offered s k)"
    using assms(1) unfolding channel_ok_def assms(2) Let_def by auto
  have "subseq (hh_received s k @ gone @ q') (hh_received s k @ q @ fresh)"
    by (rule list_emb_append_mono [OF subseq_order.refl assms(6)])
  also have "subseq (hh_received s k @ q @ fresh) (hh_offered s k @ fresh)"
    using list_emb_append_mono [OF old(1) subseq_order.refl [of fresh]] by simp
  finally have "subseq (hh_received s' k @ q') (hh_offered s' k)" by (simp add: assms(4,5))
  moreover have "hh_received s' k @ q' \<noteq> [] \<and> last (hh_received s' k @ q') = last (hh_offered s' k)"
    if "hh_offered s' k \<noteq> []"
  proof (cases "fresh = []")
    case True
    then have "hh_received s' k @ q' = hh_received s k @ q" "hh_offered s' k = hh_offered s k"
      using assms(4,5,8) by simp_all
    then show ?thesis using old(2) that by simp
  next
    case False
    then show ?thesis using assms(4,5,7) by auto
  qed
  ultimately show ?thesis unfolding channel_ok_def assms(3) [symmetric] Let_def by blast
qed

definition queue_at :: "event_hub \<Rightarrow> nat \<Rightarrow> dev_event list" where
  "queue_at h k = (if k < length (hb_channels h) then ch_queue (hb_channels h ! k) else [])"

lemma hub_step_ok:
  assumes "hub_ok h"
  shows "\<exists>h'. hub_step oper h = Some h' \<and> hub_ok h'
    \<and> length (hb_channels h') = length (hb_channels h) + (if oper = Subscribe then 1 else 0)
    \<and> (\<forall>k. subseq (receipts oper h k @ queue_at h' k) (queue_at h k @ offers oper h k)
         \<and> (offers oper h k \<noteq> [] \<longrightarrow> receipts oper h k @ queue_at h' k \<noteq> []
              \<and> last (receipts oper h k @ queue_at h' k) = last (offers oper h k))
         \<and> (offers oper h k = [] \<longrightarrow> receipts oper h k @ queue_at h' k = queue_at h k))"
proof (cases oper)
  case (Publish now schedule event)
  let ?e = "stamped now event"
  obtain h' where h': "publish now schedule event h = Some h'" "hub_ok h'" "length (hb_channels h') = length (hb_channels h)"
      "\<forall>k < length (hb_channels h). hb_channels h' ! k = (if \<not> hb_closed h \<and> k \<in> set (hb_subscribers h)
          then (hb_channels h ! k)\<lparr>ch_queue := offered_queue ?e (schedule k) (ch_queue (hb_channels h ! k))\<rparr>
          else hb_channels h ! k)"
    using publish_ok [OF assms] by blast
  have queue: "queue_at h' k = (if \<not> hb_closed h \<and> k \<in> set (hb_subscribers h)
      then offered_queue ?e (schedule k) (queue_at h k) else queue_at h k)" for k
    using h'(3) h'(4) [rule_format, of k] assms by (auto simp: queue_at_def hub_ok_def)
  have inside: "\<not> hb_closed h \<Longrightarrow> k \<in> set (hb_subscribers h) \<Longrightarrow> k < length (hb_channels h)" for k
    using assms by (simp add: hub_ok_def)
  have taken: "receipts (Publish now schedule event) h k = (if \<not> hb_closed h \<and> k \<in> set (hb_subscribers h)
      then reader_takes (schedule k) (queue_at h k) else [])" for k
    using inside by (simp add: queue_at_def)
  show ?thesis unfolding Publish taken
    using h'(1-3) offered_queue_subseq offered_queue_last
    by (intro exI [of _ h']) (simp add: queue del: receipts.simps)
next
  case Subscribe
  have queue: "queue_at (snd (subscribe h)) k = queue_at h k @ offers Subscribe h k" for k
    by (auto simp: queue_at_def subscribe_def Let_def nth_append split: option.splits)
  moreover have "length (hb_channels (snd (subscribe h))) = length (hb_channels h) + 1"
    by (simp add: subscribe_def Let_def)
  ultimately show ?thesis unfolding Subscribe using subscribe_ok [OF assms] by (simp del: offers.simps)
next
  case (Unsubscribe i)
  then show ?thesis using unsubscribe_ok [OF assms, of i] by (auto simp: queue_at_def same_queuesD)
next
  case CloseHub
  then show ?thesis using close_hub_ok [OF assms] by (auto simp: queue_at_def same_queuesD)
next
  case (Receive i)
  have "receipts (Receive i) h k @ queue_at (receive i h) k = queue_at h k" for k
    by (auto simp: queue_at_def receive_def taken_def nth_list_update)
  then show ?thesis unfolding Receive using receive_ok [OF assms, of i] by (simp add: receive_def del: receipts.simps)
qed

lemma history_step_ok:
  assumes "history_ok s"
  shows "\<exists>s'. history_step oper s = Some s' \<and> history_ok s'"
proof -
  let ?h = "hh_hub s"
  have ok: "hub_ok ?h" using assms by (simp add: history_ok_def)
  obtain h' where h': "hub_step oper ?h = Some h'" "hub_ok h'"
      "length (hb_channels h') = length (hb_channels ?h) + (if oper = Subscribe then 1 else 0)"
      "\<And>k. subseq (receipts oper ?h k @ queue_at h' k) (queue_at ?h k @ offers oper ?h k)"
      "\<And>k. offers oper ?h k \<noteq> [] \<Longrightarrow> receipts oper ?h k @ queue_at h' k \<noteq> []
         \<and> last (receipts oper ?h k @ queue_at h' k) = last (offers oper ?h k)"
      "\<And>k. offers oper ?h k = [] \<Longrightarrow> receipts oper ?h k @ queue_at h' k = queue_at ?h k"
    using hub_step_ok [OF ok, of oper] by blast
  define s' where "s' = \<lparr>hh_hub = h', hh_offered = (\<lambda>k. hh_offered s k @ offers oper ?h k),
      hh_received = (\<lambda>k. hh_received s k @ receipts oper ?h k)\<rparr>"
  have "channel_ok s' k" for k
    by (rule channel_ok_append [where s = s and q = "queue_at ?h k" and q' = "queue_at h' k"
          and fresh = "offers oper ?h k" and gone = "receipts oper ?h k"])
       (use assms h'(4-6) in \<open>simp_all add: s'_def history_ok_def queue_at_def\<close>)
  moreover have "hh_offered s' k = [] \<and> hh_received s' k = []" if "length (hb_channels h') \<le> k" for k
  proof -
    have out: "length (hb_channels ?h) \<le> k" using that h'(3) by simp
    have subs: "k \<notin> set (hb_subscribers ?h)" using ok out by (auto simp: hub_ok_def)
    have "offers oper ?h k = [] \<and> receipts oper ?h k = []"
      using that h'(3) out subs by (cases oper) (auto split: if_splits)
    then show ?thesis using assms out by (simp add: s'_def history_ok_def)
  qed
  ultimately have "history_ok s'" using h'(2) by (simp add: history_ok_def s'_def)
  moreover have "history_step oper s = Some s'" by (simp add: history_step_def h'(1) s'_def)
  ultimately show ?thesis by blast
qed

lemma run_hub_ok: "history_ok s \<Longrightarrow> \<exists>s'. run_hub opers s = Some s' \<and> history_ok s'"
proof (induction opers arbitrary: s)
  case (Cons oper opers)
  then obtain s1 where "history_step oper s = Some s1" "history_ok s1" using history_step_ok by blast
  then show ?case using Cons.IH by simp
qed simp

lemma initial_history_ok: "history_ok initial_history"
  by (simp add: history_ok_def initial_history_def hub_ok_def new_event_hub_def channel_ok_def Let_def)

text \<open>
  C18: Whatever the publishers, browsers and the supervisor do, in whatever order, and however the readers
  run against a publisher: no operation panics (no send on a closed channel, no channel closed twice), no
  queue holds more than eight events, what a browser receives is in order part of what was offered to it,
  and the newest event offered is the last it has received or will receive.
\<close>
theorem browser_sees_newest:
  "\<exists>s. run_hub opers initial_history = Some s
     \<and> (\<forall>k < length (hb_channels (hh_hub s)).
          length (ch_queue (hb_channels (hh_hub s) ! k)) \<le> 8
          \<and> subseq (hh_received s k @ ch_queue (hb_channels (hh_hub s) ! k)) (hh_offered s k)
          \<and> (hh_offered s k = [] \<or>
               last (hh_received s k @ ch_queue (hb_channels (hh_hub s) ! k)) = last (hh_offered s k)))"
proof -
  obtain s where s: "run_hub opers initial_history = Some s" "history_ok s"
    using run_hub_ok [OF initial_history_ok] by blast
  have "length (ch_queue (hb_channels (hh_hub s) ! k)) \<le> 8" if "k < length (hb_channels (hh_hub s))" for k
    using s(2) that by (simp add: history_ok_def hub_ok_def channel_capacity_def)
  moreover have "subseq (hh_received s k @ ch_queue (hb_channels (hh_hub s) ! k)) (hh_offered s k)
      \<and> (hh_offered s k = [] \<or>
           last (hh_received s k @ ch_queue (hb_channels (hh_hub s) ! k)) = last (hh_offered s k))"
    if "k < length (hb_channels (hh_hub s))" for k
  proof -
    have "channel_ok s k" using s(2) by (simp add: history_ok_def)
    then show ?thesis using that by (auto simp: channel_ok_def Let_def)
  qed
  ultimately show ?thesis using s(1) by (intro exI [of _ s]) simp
qed

definition sample_event :: "bytes \<Rightarrow> dev_event" where
  "sample_event kind = \<lparr>ev_type = kind, ev_phase = [], ev_message = [], ev_diagnostics = [], ev_at = 1\<rparr>"

definition sample_operations :: "hub_operation list" where
  "sample_operations = [Publish 1 (\<lambda>k. (0, 0)) (sample_event ''diagnostic''), Subscribe,
     Publish 2 (\<lambda>k. (0, 0)) (sample_event ''reload''), Receive 0]"

theorem browser_sees_newest_witness:
  "\<exists>s. run_hub sample_operations initial_history = Some s
     \<and> hh_offered s 0 = [sample_event ''diagnostic'', sample_event ''reload'']
     \<and> last (hh_received s 0 @ ch_queue (hb_channels (hh_hub s) ! 0)) = sample_event ''reload''"
proof -
  obtain s where s: "run_hub sample_operations initial_history = Some s"
      "\<forall>k < length (hb_channels (hh_hub s)).
          length (ch_queue (hb_channels (hh_hub s) ! k)) \<le> 8
          \<and> subseq (hh_received s k @ ch_queue (hb_channels (hh_hub s) ! k)) (hh_offered s k)
          \<and> (hh_offered s k = [] \<or>
               last (hh_received s k @ ch_queue (hb_channels (hh_hub s) ! k)) = last (hh_offered s k))"
    using browser_sees_newest [of sample_operations] by blast
  have "length (hb_channels (hh_hub s)) = 1 \<and> hh_offered s 0 = [sample_event ''diagnostic'', sample_event ''reload'']"
    using s(1) by (auto simp: sample_operations_def initial_history_def new_event_hub_def history_step_def publish_def
        stamped_def sample_event_def subscribe_def receive_def offer_def try_send_def channel_capacity_def)
  with s show ?thesis by (intro exI [of _ s]) auto
qed

end
