(* ===== verification/Dev_Supervision.thy ===== *)
theory Dev_Supervision
  imports Dev_Supervisor
begin

section \<open>The last healthy application keeps serving\<close>

text \<open>
  The invariant of the supervisor: the proxy hands requests to the current application and to no other,
  the exit that is watched is its exit, and besides it there are no more processes than kills that failed
  and no more binaries than removals that failed. A build that fails changes nothing of this and is
  reported once.
\<close>

text \<open>\<open>CreateTemp\<close> names a file; killing and removing may fail.\<close>

definition names_files :: "sup_host \<Rightarrow> bool" where
  "names_files h = (\<forall>t path. sh_create_temp h t = Inr path \<longrightarrow> path \<noteq> [])"

definition reliable_host :: "sup_host \<Rightarrow> bool" where
  "reliable_host h =
     ((\<forall>t. sh_kill h t = None) \<and> (\<forall>t. sh_remove h t = None) \<and> (\<forall>t path. sh_create_temp h t = Inr path \<longrightarrow> path \<noteq> []))"

definition world_ok :: "sup_host \<Rightarrow> candidate option \<Rightarrow> sup_world \<Rightarrow> bool" where
  "world_ok h current w =
     (card (set (sw_live w) - cp_process ` set_option current) \<le> kill_failures h w
      \<and> card (set (sw_binaries w) - cp_binary ` set_option current) \<le> remove_failures h w
      \<and> (\<forall>p\<in>set (sw_live w). p < sw_started w)
      \<and> (\<forall>c\<in>set_option current. cp_process c < sw_started w \<and> cp_binary c \<noteq> []))"

definition serving :: "supervisor \<Rightarrow> bool" where
  "serving s = (map_option url_host (px_target (su_proxy s)) = map_option cp_address (su_current s))"

definition supervisor_ok :: "sup_host \<Rightarrow> supervisor \<Rightarrow> bool" where
  "supervisor_ok h s =
     (serving s \<and> su_watching s = map_option cp_process (su_current s) \<and> world_ok h (su_current s) (su_world s))"

subsection \<open>Counting what is left\<close>

lemma reliable_failures: "reliable_host h \<Longrightarrow> kill_failures h w = 0 \<and> remove_failures h w = 0"
  by (simp add: reliable_host_def kill_failures_def remove_failures_def)

text \<open>What should be gone and is not costs a failure.\<close>

lemma left_over:
  assumes "card (A - insert x K) \<le> (n :: nat)" and "finite A" and "B \<subseteq> A" and "n \<le> n'" and "x \<in> B \<Longrightarrow> n < n'"
  shows "card (B - K) \<le> n'"
proof (cases "x \<in> B")
  case True
  have "card (B - K) \<le> card (insert x (A - insert x K))"
    by (intro card_mono) (use assms(2,3) in auto)
  also have "\<dots> \<le> Suc (card (A - insert x K))" using assms(2) by (simp add: card_insert_if)
  finally show ?thesis using assms(1,5) True by simp
next
  case False
  have "card (B - K) \<le> card (A - insert x K)" by (intro card_mono) (use assms(2,3) False in auto)
  then show ?thesis using assms(1,4) by simp
qed

lemma left_new:
  assumes "A' \<subseteq> insert x A" and "n \<le> n'" and "x \<in> A' \<Longrightarrow> x \<notin> A \<Longrightarrow> n < (n' :: nat)"
  shows "card (A' - A) + n \<le> n'"
proof (cases "x \<in> A' \<and> x \<notin> A")
  case True
  then have "A' - A = {x}" using assms(1) by blast
  then show ?thesis using assms(3) True by simp
next
  case False
  then have same: "A' - A = {}" using assms(1) by blast
  show ?thesis unfolding same using assms(2) by simp
qed

lemma left_trans:
  assumes "card (A - K) \<le> (n :: nat)" and "card (A' - A) + n \<le> n'" and "finite A" "finite A'"
  shows "card (A' - K) \<le> n'"
proof -
  have "card (A' - K) \<le> card ((A' - A) \<union> (A - K))" by (intro card_mono) (use assms(3,4) in auto)
  also have "\<dots> \<le> card (A' - A) + card (A - K)" by (rule card_Un_le)
  finally show ?thesis using assms(1,2) by simp
qed

subsection \<open>Building\<close>

lemma removed_effect:
  assumes "w' = snd (remove_binary h path w)"
  shows "sw_clock w < sw_clock w'" "sw_live w' = sw_live w" "sw_started w' = sw_started w"
    "set (sw_binaries w') \<subseteq> set (sw_binaries w)"
    "path \<in> set (sw_binaries w') \<Longrightarrow> remove_failures h w < remove_failures h w'"
proof -
  note e = remove_binary_effect [OF assms]
  show "sw_clock w < sw_clock w'" "sw_live w' = sw_live w" "sw_started w' = sw_started w"
    "set (sw_binaries w') \<subseteq> set (sw_binaries w)" using e by simp_all
  show "path \<in> set (sw_binaries w') \<Longrightarrow> remove_failures h w < remove_failures h w'"
    unfolding remove_failures_def using e by (intro count_strict [where t = "sw_clock w"]) auto
qed

lemma build_binary_effect:
  assumes "names_files h" and "build_binary h w = (r, w')"
  shows "sw_clock w \<le> sw_clock w' \<and> sw_live w' = sw_live w \<and> sw_started w' = sw_started w
    \<and> (case r of
         Inl e \<Rightarrow> card (set (sw_binaries w') - set (sw_binaries w)) + remove_failures h w \<le> remove_failures h w'
       | Inr path \<Rightarrow> path \<noteq> [] \<and> set (sw_binaries w') \<subseteq> insert path (set (sw_binaries w)))"
proof (cases "sh_create_temp h (sw_clock w)")
  case (Inl e)
  then show ?thesis using assms(2) failures_mono [of w w' h] by (auto simp: build_binary_def sup_tick_def)
next
  case (Inr path)
  have path: "path \<noteq> []" using assms(1) Inr by (simp add: names_files_def)
  define w1 where "w1 = sup_tick (w\<lparr>sw_binaries := path # sw_binaries w\<rparr>)"
  define w2 where "w2 = snd (remove_binary h path (sup_tick w1))"
  define w3 where "w3 = sup_tick (w2\<lparr>sw_binaries := path # sw_binaries w2\<rparr>)"
  define w4 where "w4 = snd (remove_binary h path w3)"
  note two = removed_effect [OF w2_def] and four = removed_effect [OF w4_def]
  have one: "sw_clock w \<le> sw_clock (sup_tick w1)" "sw_live w1 = sw_live w" "sw_started w1 = sw_started w"
      "sw_binaries (sup_tick w1) = path # sw_binaries w" "sw_live (sup_tick w1) = sw_live w" "sw_started (sup_tick w1) = sw_started w"
    by (simp_all add: w1_def sup_tick_def)
  have three: "sw_clock w3 = sw_clock w2 + 1" "sw_live w3 = sw_live w2" "sw_started w3 = sw_started w2"
      "sw_binaries w3 = path # sw_binaries w2"
    by (simp_all add: w3_def sup_tick_def)
  have spent: "card (set (sw_binaries x) - set (sw_binaries w)) + remove_failures h w \<le> remove_failures h x"
    if "sw_clock w \<le> sw_clock v" "sw_clock v \<le> sw_clock x" "set (sw_binaries x) \<subseteq> insert path (set (sw_binaries w))"
      "path \<in> set (sw_binaries x) \<Longrightarrow> remove_failures h v < remove_failures h x" for v x
    by (rule left_new [OF that(3)]) (use that failures_mono [of w v h] failures_mono [of v x h] in auto)
  consider "r = Inl (''close candidate placeholder: '' @ the (sh_close h (sw_clock w1)))" "w' = w2"
    | e where "r = Inl e" "w' = w2" | "r = Inr path" "w' = w3" | e where "r = Inl e" "w' = w4"
    using assms(2) Inr
    by (cases "remove_binary h path (sup_tick w1)")
      (auto simp: build_binary_def Let_def w1_def [symmetric] w2_def w3_def w4_def split: option.splits prod.splits)
  then show ?thesis
  proof cases
    case 3
    then show ?thesis using path one two three by auto
  next
    case 4
    have "card (set (sw_binaries w4) - set (sw_binaries w)) + remove_failures h w \<le> remove_failures h w4"
      by (rule spent [of w3]) (use one two three four in auto)
    then show ?thesis using 4 one two three four by simp
  qed (use one two spent [of "sup_tick w1" w2] in auto)
qed

lemma start_and_check_effect:
  assumes fresh: "\<forall>p\<in>set (sw_live w). p < sw_started w" and run: "start_and_check h path w = (r, w')"
  shows "sw_clock w \<le> sw_clock w' \<and> sw_started w \<le> sw_started w'
    \<and> (case r of
         Inl e \<Rightarrow> set (sw_live w) \<subseteq> set (sw_live w') \<and> (\<forall>p\<in>set (sw_live w'). p < sw_started w')
           \<and> card (set (sw_live w') - set (sw_live w)) + kill_failures h w \<le> kill_failures h w'
           \<and> set (sw_binaries w') \<subseteq> set (sw_binaries w)
       | Inr c \<Rightarrow> cp_binary c = path \<and> cp_process c = sw_started w \<and> sw_started w < sw_started w'
           \<and> set (sw_live w') = insert (cp_process c) (set (sw_live w)) \<and> sw_binaries w' = sw_binaries w)"
proof -
  obtain a w1 where a: "unused_loopback_address h w = (a, w1)" by fastforce
  then have w1: "sw_live w1 = sw_live w" "sw_started w1 = sw_started w" "sw_binaries w1 = sw_binaries w" "sw_clock w \<le> sw_clock w1"
    by (auto simp: unused_loopback_address_def sup_tick_def Let_def split: sum.splits option.splits)
  show ?thesis
  proof (cases a)
    case (Inl e)
    then show ?thesis using run a w1 fresh failures_mono [of w w1 h] by (auto simp: start_and_check_def)
  next
    case (Inr address)
    obtain b w2 where b: "start_managed_process h address path w1 = (b, w2)" by fastforce
    show ?thesis
    proof (cases b)
      case (Inl e)
      have "sw_started w \<notin> set (sw_live w)" using fresh by auto
      then have "set (sw_live w2) = set (sw_live w)" "sw_binaries w2 = sw_binaries w" "sw_started w \<le> sw_started w2" "sw_clock w \<le> sw_clock w2"
        using b w1 Inl
        by (auto simp: start_managed_process_def kill_process_def process_gone_def sup_tick_def Let_def split: option.splits)
      then show ?thesis using run a b Inr Inl fresh failures_mono [of w w2 h] by (fastforce simp: start_and_check_def)
    next
      case (Inr c)
      then have c: "cp_binary c = path" "cp_process c = sw_started w" "sw_started w2 = sw_started w + 1"
          "sw_live w2 = sw_started w # sw_live w" "sw_binaries w2 = sw_binaries w" "sw_clock w \<le> sw_clock w2"
        using b w1 by (auto simp: start_managed_process_def kill_process_def sup_tick_def Let_def split: option.splits prod.splits)
      define w3 where "w3 = snd (stop_candidate h c (sup_tick w2))"
      note stopped = stop_candidate_effect [OF w3_def]
      have w2: "sw_live (sup_tick w2) = sw_live w2" "sw_binaries (sup_tick w2) = sw_binaries w2" "sw_started (sup_tick w2) = sw_started w2"
          "sw_clock (sup_tick w2) = sw_clock w2 + 1" by (simp_all add: sup_tick_def)
      have live: "set (sw_live w) \<subseteq> set (sw_live w3)" "set (sw_live w3) \<subseteq> insert (cp_process c) (set (sw_live w))"
        using stopped(3,4) fresh c w2 by auto
      have spent: "card (set (sw_live w3) - set (sw_live w)) + kill_failures h w \<le> kill_failures h w3"
        by (rule left_new [OF live(2)])
          (use stopped(1,6) c w2 failures_mono [of w "sup_tick w2" h] failures_mono [of "sup_tick w2" w3 h] in auto)
      have start: "start_and_check h path w =
          (case wait_until_healthy (sh_result h (sw_clock w2)) None (sh_polls h (sw_clock w2)) of
             Some e \<Rightarrow> (Inl e, w3) | None \<Rightarrow> (Inr c, sup_tick w2))"
        unfolding w3_def by (simp add: start_and_check_def a b \<open>a = Inr address\<close> Inr)
      have young: "\<forall>p\<in>set (sw_live w3). p < sw_started w3" using live(2) stopped(2) fresh c w2 by fastforce
      show ?thesis
        using run c w2 stopped(1,2,5) live(1) spent young unfolding start by (auto split: option.splits)
    qed
  qed
qed

lemma report_frame:
  "su_proxy (report h m phase e s) = su_proxy s" "su_current (report h m phase e s) = su_current s"
  "su_watching (report h m phase e s) = su_watching s" "su_pending (report h m phase e s) = su_pending s"
  "sw_live (su_world (report h m phase e s)) = sw_live (su_world s)"
  "sw_binaries (su_world (report h m phase e s)) = sw_binaries (su_world s)"
  "sw_started (su_world (report h m phase e s)) = sw_started (su_world s)"
  "sw_clock (su_world s) \<le> sw_clock (su_world (report h m phase e s))"
  by (simp_all add: report_def emit_def sup_tick_def Let_def)

lemma emit_frame:
  "su_proxy (emit h ev s) = su_proxy s" "su_current (emit h ev s) = su_current s"
  "su_watching (emit h ev s) = su_watching s"
  "sw_live (su_world (emit h ev s)) = sw_live (su_world s)"
  "sw_binaries (su_world (emit h ev s)) = sw_binaries (su_world s)"
  "sw_started (su_world (emit h ev s)) = sw_started (su_world s)"
  "sw_clock (su_world s) \<le> sw_clock (su_world (emit h ev s))"
  by (simp_all add: emit_def sup_tick_def Let_def)

lemma report_event:
  "\<exists>ev. su_events (report h m phase e s) = su_events s @ [ev] \<and> ev_type ev = ''diagnostic'' \<and> ev_phase ev = phase
     \<and> ev_message ev = truncate_diagnostic e"
  by (simp add: report_def emit_def Let_def)

lemma report_failures:
  "kill_failures h (su_world s) \<le> kill_failures h (su_world (report h m phase e s))
   \<and> remove_failures h (su_world s) \<le> remove_failures h (su_world (report h m phase e s))"
  by (rule failures_mono) (simp add: report_frame)

lemma build_healthy_candidate_effect:
  assumes host: "names_files h" and fresh: "\<forall>p\<in>set (sw_live (su_world s)). p < sw_started (su_world s)"
    and run: "build_healthy_candidate h m s = (r, s')"
  shows "su_proxy s' = su_proxy s \<and> su_current s' = su_current s \<and> su_watching s' = su_watching s
    \<and> sw_clock (su_world s) \<le> sw_clock (su_world s') \<and> sw_started (su_world s) \<le> sw_started (su_world s')
    \<and> (case r of
         None \<Rightarrow> set (sw_live (su_world s)) \<subseteq> set (sw_live (su_world s'))
           \<and> (\<forall>p\<in>set (sw_live (su_world s')). p < sw_started (su_world s'))
           \<and> card (set (sw_live (su_world s')) - set (sw_live (su_world s))) + kill_failures h (su_world s) \<le> kill_failures h (su_world s')
           \<and> card (set (sw_binaries (su_world s')) - set (sw_binaries (su_world s))) + remove_failures h (su_world s)
               \<le> remove_failures h (su_world s')
           \<and> (\<exists>ev. su_events s' = su_events s @ [ev] \<and> ev_type ev = ''diagnostic''
                \<and> ev_phase ev \<in> {''generate'', ''build'', ''startup''})
       | Some c \<Rightarrow> cp_binary c \<noteq> [] \<and> cp_process c = sw_started (su_world s)
           \<and> cp_process c < sw_started (su_world s') \<and> su_events s' = su_events s
           \<and> set (sw_live (su_world s')) = insert (cp_process c) (set (sw_live (su_world s)))
           \<and> set (sw_binaries (su_world s')) \<subseteq> insert (cp_binary c) (set (sw_binaries (su_world s))))"
proof (cases "sh_generate h (sw_clock (su_world s))")
  case (Some e)
  let ?s = "s\<lparr>su_world := sup_tick (su_world s)\<rparr>"
  have s': "r = None" "s' = report h m ''generate'' e ?s"
    using run Some by (simp_all add: build_healthy_candidate_def Let_def)
  have clock: "sw_clock (su_world s) \<le> sw_clock (su_world s')"
    using report_frame(8) [of ?s h m "''generate''" e] s' by (simp add: sup_tick_def)
  show ?thesis
    using clock fresh failures_mono [OF clock, of h] report_event [of h m "''generate''" e ?s]
    unfolding s' by (auto simp: report_frame sup_tick_def)
next
  case None
  let ?w = "sup_tick (su_world s)"
  have w: "sw_live ?w = sw_live (su_world s)" "sw_started ?w = sw_started (su_world s)"
      "sw_binaries ?w = sw_binaries (su_world s)" "sw_clock (su_world s) \<le> sw_clock ?w" by (simp_all add: sup_tick_def)
  obtain b w1 where b: "build_binary h ?w = (b, w1)" by fastforce
  note built = build_binary_effect [OF host b] and before = failures_mono [OF w(4), of h]
  show ?thesis
  proof (cases b)
    case (Inl e)
    let ?s = "s\<lparr>su_world := w1\<rparr>"
    have s': "r = None" "s' = report h m ''build'' e ?s"
      using run None b Inl by (simp_all add: build_healthy_candidate_def Let_def)
    have clock: "sw_clock (su_world s) \<le> sw_clock w1" using built w(4) by linarith
    show ?thesis
      using report_event [of h m "''build''" e ?s] report_failures [of h ?s m "''build''" e] report_frame(8) [of ?s h m "''build''" e]
        built before clock fresh failures_mono [OF clock, of h] Inl w
      unfolding s' by (auto simp: report_frame)
  next
    case (Inr path)
    obtain c w2 where c: "start_and_check h path w1 = (c, w2)" by fastforce
    have path: "path \<noteq> []" and fresh1: "\<forall>p\<in>set (sw_live w1). p < sw_started w1"
        and binaries: "set (sw_binaries w1) \<subseteq> insert path (set (sw_binaries (su_world s)))"
        and clock1: "sw_clock (su_world s) \<le> sw_clock w1"
      using built Inr w fresh by auto
    note started = start_and_check_effect [OF fresh1 c]
    show ?thesis
    proof (cases c)
      case (Inl e)
      define w3 where "w3 = snd (remove_binary h path w2)"
      let ?s = "s\<lparr>su_world := w3\<rparr>"
      note removed = removed_effect [OF w3_def]
      have s': "r = None" "s' = report h m ''startup'' e ?s"
        using run None b Inr c Inl by (simp_all add: build_healthy_candidate_def Let_def w3_def)
      have clock: "sw_clock (su_world s) \<le> sw_clock w2" "sw_clock (su_world s) \<le> sw_clock w3"
        using clock1 started removed(1) by linarith+
      have left_binary: "card (set (sw_binaries w3) - set (sw_binaries (su_world s))) + remove_failures h (su_world s) \<le> remove_failures h w3"
        by (rule left_new [where x = path])
          (use binaries started Inl removed(4,5) clock failures_mono [OF clock(1), of h] failures_mono [OF clock(2), of h] in auto)
      have "card (set (sw_live w3) - set (sw_live (su_world s))) + kill_failures h (su_world s) \<le> kill_failures h w3"
        using started Inl built Inr w removed failures_mono [OF clock1, of h] failures_mono [of w2 w3 h] by auto
      then show ?thesis
        using report_event [of h m "''startup''" e ?s] report_failures [of h ?s m "''startup''" e] report_frame(8) [of ?s h m "''startup''" e]
          left_binary clock started Inl built Inr w removed(2,3)
        unfolding s' by (auto simp: report_frame)
    next
      case (Inr cand)
      then have s': "r = Some cand" "s' = s\<lparr>su_world := w2\<rparr>"
        using run None b \<open>b = Inr path\<close> c by (simp_all add: build_healthy_candidate_def Let_def)
      show ?thesis
        unfolding s' using built started Inr w binaries path clock1 \<open>b = Inr path\<close> by auto
    qed
  qed
qed

text \<open>
  C19: A generation, build, start or health check that fails is reported exactly once, as a diagnostic of
  its phase, and changes nothing else: the current application, the proxy and what is watched stay, and
  on a host where killing a process and removing a file work no process of the attempt is left running
  and no binary of it on disk.
\<close>
theorem failed_candidate_harmless:
  assumes "reliable_host h" and "\<forall>p\<in>set (sw_live (su_world s)). p < sw_started (su_world s)"
    and "build_healthy_candidate h map_diagnostics s = (None, s')"
  shows "su_current s' = su_current s \<and> su_proxy s' = su_proxy s \<and> su_watching s' = su_watching s
    \<and> (\<exists>ev. su_events s' = su_events s @ [ev] \<and> ev_type ev = ''diagnostic''
         \<and> ev_phase ev \<in> {''generate'', ''build'', ''startup''})
    \<and> set (sw_live (su_world s')) = set (sw_live (su_world s))
    \<and> set (sw_binaries (su_world s')) \<subseteq> set (sw_binaries (su_world s))"
proof -
  have "names_files h" using assms(1) by (simp add: names_files_def reliable_host_def)
  note built = build_healthy_candidate_effect [OF this assms(2,3)]
  have "set (sw_live (su_world s')) - set (sw_live (su_world s)) = {}"
    "set (sw_binaries (su_world s')) - set (sw_binaries (su_world s)) = {}"
    using built reliable_failures [OF assms(1), of "su_world s'"] by simp_all
  then show ?thesis using built by auto
qed

subsection \<open>The invariant\<close>

definition named_by_host :: "(bytes \<Rightarrow> bytes + parsed_url) \<Rightarrow> bool" where
  \<comment> \<open>the host of the URL of a host and port is that host and port\<close>
  "named_by_host parse_url = (\<forall>address u. parse_url (''http://'' @ address) = Inr u \<longrightarrow> url_host u = address)"

lemma set_target_effect:
  "named_by_host parse_url \<Longrightarrow> set_target is_print parse_url address d = (None, d') \<Longrightarrow>
   map_option url_host (px_target d') = Some address"
  by (auto simp: set_target_def named_by_host_def split: option.splits sum.splits)

text \<open>Stopping a candidate: what may be left is counted without it afterwards.\<close>

lemma stopped_ok:
  assumes live: "card (set (sw_live w) - insert (cp_process c) P) \<le> kill_failures h w"
    and binaries: "card (set (sw_binaries w) - insert (cp_binary c) B) \<le> remove_failures h w"
    and young: "\<forall>p\<in>set (sw_live w). p < sw_started w" and binary: "cp_binary c \<noteq> []" and w': "w' = snd (stop_candidate h c w)"
  shows "card (set (sw_live w') - P) \<le> kill_failures h w' \<and> card (set (sw_binaries w') - B) \<le> remove_failures h w'
    \<and> (\<forall>p\<in>set (sw_live w'). p < sw_started w') \<and> sw_started w' = sw_started w"
proof -
  note stopped = stop_candidate_effect [OF w'] and more = failures_mono [OF stop_candidate_effect(1) [OF w'], of h]
  have "card (set (sw_live w') - P) \<le> kill_failures h w'"
    by (rule left_over [OF live finite_set stopped(3) conjunct1 [OF more] stopped(6)])
  moreover have "card (set (sw_binaries w') - B) \<le> remove_failures h w'"
    by (rule left_over [OF binaries finite_set stopped(5) conjunct2 [OF more] stopped(7)]) (use binary in simp_all)
  ultimately show ?thesis using stopped(2,3) young by auto
qed

lemma activate_candidate_ok:
  assumes names: "named_by_host parse_url"
    and live: "card (set (sw_live (su_world s)) - insert (cp_process c) (cp_process ` set_option previous)) \<le> kill_failures h (su_world s)"
    and binaries: "card (set (sw_binaries (su_world s)) - insert (cp_binary c) (cp_binary ` set_option previous)) \<le> remove_failures h (su_world s)"
    and young: "\<forall>p\<in>set (sw_live (su_world s)). p < sw_started (su_world s)"
    and c: "cp_process c < sw_started (su_world s)" "cp_binary c \<noteq> []"
    and previous: "\<forall>p\<in>set_option previous. cp_process p < sw_started (su_world s) \<and> cp_binary p \<noteq> []"
    and old: "map_option url_host (px_target (su_proxy s)) = map_option cp_address previous"
    and run: "activate_candidate is_print parse_url h m c previous s = (current, s')"
  shows "world_ok h current (su_world s') \<and> map_option url_host (px_target (su_proxy s')) = map_option cp_address current"
proof -
  obtain e d where target: "set_target is_print parse_url (cp_address c) (su_proxy s) = (e, d)" by fastforce
  show ?thesis
  proof (cases e)
    case (Some t)
    let ?s = "report h m ''proxy'' t s"
    have s': "current = previous" "s' = ?s\<lparr>su_world := snd (stop_candidate h c (su_world ?s))\<rparr>"
      using run target Some by (simp_all add: activate_candidate_def Let_def)
    have "card (set (sw_live (su_world s')) - cp_process ` set_option previous) \<le> kill_failures h (su_world s')
      \<and> card (set (sw_binaries (su_world s')) - cp_binary ` set_option previous) \<le> remove_failures h (su_world s')
      \<and> (\<forall>p\<in>set (sw_live (su_world s')). p < sw_started (su_world s')) \<and> sw_started (su_world s') = sw_started (su_world ?s)"
      by (rule stopped_ok [where w = "su_world ?s" and c = c])
        (use live binaries young c(2) report_failures [of h s m "''proxy''" t] s'(2) in \<open>auto simp: report_frame\<close>)
    then show ?thesis using previous old s' by (auto simp: world_ok_def report_frame)
  next
    case None
    let ?s = "emit h \<lparr>ev_type = ''reload'', ev_phase = ''serve'', ev_message = ''healthy application activated'',
        ev_diagnostics = [], ev_at = 0\<rparr> (s\<lparr>su_proxy := d\<rparr>)"
    have serving: "map_option url_host (px_target d) = Some (cp_address c)"
      using set_target_effect [OF names] target None by blast
    have later: "sw_clock (su_world s) \<le> sw_clock (su_world ?s)" using emit_frame(7) [of "s\<lparr>su_proxy := d\<rparr>"] by simp
    note more = failures_mono [OF later, of h]
    show ?thesis
    proof (cases previous)
      case None
      then have s': "current = Some c" "s' = ?s"
        using run target \<open>e = None\<close> by (simp_all add: activate_candidate_def Let_def)
      have "world_ok h (Some c) (su_world ?s)"
        unfolding world_ok_def using live binaries young c None more by (simp add: emit_frame)
      then show ?thesis unfolding s' using serving by (simp add: emit_frame)
    next
      case (Some p)
      then have s': "current = Some c" "s' = ?s\<lparr>su_world := snd (stop_candidate h p (su_world ?s))\<rparr>"
        using run target \<open>e = None\<close> by (simp_all add: activate_candidate_def Let_def)
      have "card (set (sw_live (su_world s')) - {cp_process c}) \<le> kill_failures h (su_world s')
        \<and> card (set (sw_binaries (su_world s')) - {cp_binary c}) \<le> remove_failures h (su_world s')
        \<and> (\<forall>q\<in>set (sw_live (su_world s')). q < sw_started (su_world s')) \<and> sw_started (su_world s') = sw_started (su_world ?s)"
        by (rule stopped_ok [where w = "su_world ?s" and c = p])
          (use live binaries young previous Some more s'(2) in \<open>auto simp: emit_frame insert_commute\<close>)
      then have "world_ok h (Some c) (su_world s')" unfolding world_ok_def using c by (auto simp: emit_frame)
      then show ?thesis unfolding s'(1) using serving by (simp add: s'(2) emit_frame)
    qed
  qed
qed

lemma build_and_activate_ok:
  assumes host: "names_files h" and names: "named_by_host parse_url" and ok: "supervisor_ok h s"
  shows "supervisor_ok h (build_and_activate is_print parse_url h m s)"
proof -
  let ?P = "cp_process ` set_option (su_current s)" and ?B = "cp_binary ` set_option (su_current s)"
  have before: "card (set (sw_live (su_world s)) - ?P) \<le> kill_failures h (su_world s)"
      "card (set (sw_binaries (su_world s)) - ?B) \<le> remove_failures h (su_world s)"
      "\<forall>p\<in>set (sw_live (su_world s)). p < sw_started (su_world s)"
      "\<forall>c\<in>set_option (su_current s). cp_process c < sw_started (su_world s) \<and> cp_binary c \<noteq> []"
    using ok by (auto simp: supervisor_ok_def world_ok_def)
  obtain r s1 where b: "build_healthy_candidate h m s = (r, s1)" by fastforce
  note built = build_healthy_candidate_effect [OF host before(3) b]
  show ?thesis
  proof (cases r)
    case None
    have "card (set (sw_live (su_world s1)) - ?P) \<le> kill_failures h (su_world s1)"
      by (rule left_trans [OF before(1)]) (use built None in simp_all)
    moreover have "card (set (sw_binaries (su_world s1)) - ?B) \<le> remove_failures h (su_world s1)"
      by (rule left_trans [OF before(2)]) (use built None in simp_all)
    moreover have "\<forall>c\<in>set_option (su_current s). cp_process c < sw_started (su_world s1) \<and> cp_binary c \<noteq> []"
      using built before(4) by auto
    ultimately have "world_ok h (su_current s) (su_world s1)"
      unfolding world_ok_def using built None by simp
    then have "supervisor_ok h s1" using built ok by (simp add: supervisor_ok_def serving_def)
    then show ?thesis using b None by (simp add: build_and_activate_def)
  next
    case (Some c)
    obtain current s2 where a: "activate_candidate is_print parse_url h m c (su_current s1) s1 = (current, s2)" by fastforce
    have clock: "sw_clock (su_world s) \<le> sw_clock (su_world s1)" using built by simp
    have current: "su_current s1 = su_current s" using built by simp
    have "world_ok h current (su_world s2) \<and> map_option url_host (px_target (su_proxy s2)) = map_option cp_address current"
    proof (rule activate_candidate_ok [OF names _ _ _ _ _ _ _ a], unfold current)
      have "card (set (sw_live (su_world s1)) - insert (cp_process c) ?P) \<le> card (set (sw_live (su_world s)) - ?P)"
        by (intro card_mono) (use built Some in auto)
      then show "card (set (sw_live (su_world s1)) - insert (cp_process c) ?P) \<le> kill_failures h (su_world s1)"
        using before(1) failures_mono [OF clock, of h] by linarith
      have "card (set (sw_binaries (su_world s1)) - insert (cp_binary c) ?B) \<le> card (set (sw_binaries (su_world s)) - ?B)"
        by (intro card_mono) (use built Some in auto)
      then show "card (set (sw_binaries (su_world s1)) - insert (cp_binary c) ?B) \<le> remove_failures h (su_world s1)"
        using before(2) failures_mono [OF clock, of h] by linarith
    qed (use built Some before(3,4) ok in \<open>fastforce simp: supervisor_ok_def serving_def\<close>)+
    then show ?thesis using b Some a by (simp add: build_and_activate_def supervisor_ok_def serving_def)
  qed
qed

lemma current_exited_ok:
  assumes ok: "supervisor_ok h s"
  shows "supervisor_ok h (current_exited h m s)"
proof (cases "su_current s")
  case None
  then show ?thesis using ok by (simp add: current_exited_def supervisor_ok_def serving_def)
next
  case (Some c)
  define w1 where "w1 = process_gone (cp_process c) (sup_tick (su_world s))"
  define w2 where "w2 = snd (kill_process h (cp_process c) w1)"
  define w3 where "w3 = snd (remove_binary h (cp_binary c) w2)"
  let ?e = "''application exited'' @ (case sh_result h (sw_clock (su_world s)) of None \<Rightarrow> [] | Some e \<Rightarrow> '': '' @ stop_error_text e)"
  let ?s = "s\<lparr>su_current := None, su_watching := None, su_proxy := snd (clear_target (cp_address c) (su_proxy s)), su_world := w3\<rparr>"
  have s': "current_exited h m s = report h m ''run'' ?e ?s"
    by (simp add: current_exited_def Some Let_def cleanup_process_tree_def case_prod_beta w1_def w2_def w3_def)
  have before: "card (set (sw_live (su_world s)) - {cp_process c}) \<le> kill_failures h (su_world s)"
      "card (set (sw_binaries (su_world s)) - insert (cp_binary c) {}) \<le> remove_failures h (su_world s)"
      "\<forall>p\<in>set (sw_live (su_world s)). p < sw_started (su_world s)"
    using ok Some by (auto simp: supervisor_ok_def world_ok_def)
  note killed = kill_process_effect [OF w2_def] and removed = removed_effect [OF w3_def]
  have w1: "sw_clock w1 = sw_clock (su_world s) + 1" "set (sw_live w1) = set (sw_live (su_world s)) - {cp_process c}"
      "sw_binaries w1 = sw_binaries (su_world s)" "sw_started w1 = sw_started (su_world s)"
    by (simp_all add: w1_def process_gone_def sup_tick_def)
  have clock: "sw_clock (su_world s) \<le> sw_clock w2" "sw_clock (su_world s) \<le> sw_clock w3"
    using w1 killed(1) removed(1) by linarith+
  have live: "set (sw_live w3) \<subseteq> set (sw_live (su_world s)) - {cp_process c}" using killed(4) removed(2) w1(2) by auto
  then have "card (set (sw_live w3)) \<le> card (set (sw_live (su_world s)) - {cp_process c})" by (intro card_mono) auto
  then have "card (set (sw_live w3)) \<le> kill_failures h w3" using before(1) failures_mono [OF clock(2), of h] by linarith
  moreover have "card (set (sw_binaries w3) - {}) \<le> remove_failures h w3"
    by (rule left_over [OF before(2) finite_set])
      (use removed(4,5) killed(2) w1(3) failures_mono [OF clock(1), of h] failures_mono [OF clock(2), of h] in auto)
  moreover have "\<forall>p\<in>set (sw_live w3). p < sw_started w3" using live before(3) removed(3) killed(3) w1(4) by auto
  moreover obtain u where "px_target (su_proxy s) = Some u" "url_host u = cp_address c"
    using ok Some by (auto simp: supervisor_ok_def serving_def)
  ultimately show ?thesis
    unfolding s' using report_failures [of h ?s m "''run''" ?e]
    by (simp add: supervisor_ok_def serving_def world_ok_def report_frame clear_target_def)
qed

lemma world_ok_report: "world_ok h c (su_world s) \<Longrightarrow> world_ok h c (su_world (report h m phase e s))"
  using report_failures [of h s m phase e] by (auto simp: world_ok_def report_frame)

lemma supervisor_frame: "supervisor_ok h s \<Longrightarrow> supervisor_ok h (report h m phase e s)"
  "supervisor_ok h (s\<lparr>su_snapshot := x\<rparr>) = supervisor_ok h s" "supervisor_ok h (s\<lparr>su_pending := b\<rparr>) = supervisor_ok h s"
  "supervisor_ok h (s\<lparr>su_changed_at := t\<rparr>) = supervisor_ok h s" "supervisor_ok h (s\<lparr>su_watch_error := we\<rparr>) = supervisor_ok h s"
  using world_ok_report [of h "su_current s" s m phase e] by (simp_all add: supervisor_ok_def serving_def report_frame)

lemma loop_step_ok:
  assumes "names_files h" and "named_by_host parse_url" and "supervisor_ok h s"
  shows "supervisor_ok h (snd (loop_step is_print parse_url h m debounce input s))"
proof (cases input)
  case (WatchTick now snapshot problems)
  then show ?thesis
    using assms build_and_activate_ok [OF assms(1,2)]
    by (simp add: watch_tick_def Let_def supervisor_frame)
qed (use assms current_exited_ok [OF assms(3)] in simp_all)

lemma run_loop_ok:
  assumes "names_files h" and "named_by_host parse_url"
  shows "supervisor_ok h s \<Longrightarrow> supervisor_ok h (snd (run_loop is_print parse_url h m debounce inputs s))"
proof (induction inputs arbitrary: s)
  case (Cons input inputs)
  obtain e s1 where step: "loop_step is_print parse_url h m debounce input s = (e, s1)" by fastforce
  then have "supervisor_ok h s1" using loop_step_ok [OF assms Cons.prems] by (metis snd_conv)
  then show ?case using Cons.IH step by (cases e) simp_all
qed simp

lemma run_start_ok:
  assumes "names_files h" and "named_by_host parse_url" and "sw_live w = []" and "sw_binaries w = []"
    and "run_start is_print parse_url h m running e1 e2 listen snapshot problems w = Inr s"
  shows "supervisor_ok h s"
proof -
  obtain address d where start: "listen = Inr address" "set_authority is_print address new_development_proxy = (None, d)"
    using assms(5) by (auto simp: run_start_def split: if_splits option.splits sum.splits prod.splits)
  define ev where "ev = \<lparr>ev_type = ''ready'', ev_phase = ''proxy'', ev_message = ''http://'' @ address,
      ev_diagnostics = [], ev_at = 0\<rparr>"
  define s0 where "s0 = \<lparr>su_proxy = d, su_current = None, su_watching = None, su_events = [],
      su_snapshot = Map.empty, su_pending = False, su_changed_at = 0, su_watch_error = [], su_world = w\<rparr>"
  have "px_target d = None"
    using start(2) by (auto simp: set_authority_def new_development_proxy_def split: option.splits sum.splits)
  then have "supervisor_ok h (emit h ev s0)"
    using assms(3,4) by (simp add: supervisor_ok_def serving_def world_ok_def emit_frame s0_def)
  then have built: "supervisor_ok h (build_and_activate is_print parse_url h m (emit h ev s0))"
    by (rule build_and_activate_ok [OF assms(1,2)])
  have "s = (let s = (build_and_activate is_print parse_url h m (emit h ev s0))\<lparr>su_snapshot := snapshot\<rparr> in
      case joined_error problems of None \<Rightarrow> s | Some e \<Rightarrow> report h m ''watch'' e (s\<lparr>su_watch_error := e\<rparr>))"
    using assms(5) start
    by (auto simp: run_start_def Let_def ev_def s0_def split: if_splits option.splits)
  with built show ?thesis by (auto simp: Let_def supervisor_frame split: option.split)
qed

text \<open>
  C4: However the supervisor is driven and whatever call fails, kills and removals included: at every
  moment between two turns of the loop the proxy hands requests to the current application and to
  nothing else, the exit that is watched is the exit of that application, and besides it there are at
  most as many processes as kills that have failed and at most as many binaries as removals that have
  failed, so none where these work; once the supervisor has returned the current application is no
  exception. The operating system names temporary files (\<open>CreateTemp\<close>), and the URL of an address has
  the address as its host.
\<close>
theorem supervisor_keeps_one_application:
  assumes "names_files h" and "named_by_host parse_url" and "sw_live w = []" and "sw_binaries w = []"
    and "supervisor_run is_print parse_url h map_diagnostics debounce running mkdir_error chmod_error listen first_snapshot
      problems inputs w = Inr (finished, s)"
  shows "(finished = None \<and> supervisor_ok h s)
    \<or> (finished \<noteq> None \<and> card (set (sw_live (su_world s))) \<le> kill_failures h (su_world s)
         \<and> card (set (sw_binaries (su_world s))) \<le> remove_failures h (su_world s))"
proof -
  obtain s0 where start: "run_start is_print parse_url h map_diagnostics running mkdir_error chmod_error listen first_snapshot
      problems w = Inr s0"
    using assms(5) by (auto simp: supervisor_run_def split: sum.splits)
  obtain e s1 where run: "run_loop is_print parse_url h map_diagnostics debounce inputs s0 = (e, s1)" by fastforce
  have ok: "supervisor_ok h s1"
    using run_loop_ok [OF assms(1,2) run_start_ok [OF assms(1-4) start]] run by (metis snd_conv)
  show ?thesis
  proof (cases e)
    case None
    then show ?thesis using assms(5) start run ok by (simp add: supervisor_run_def)
  next
    case (Some r)
    then have s: "finished = Some r" "s = shut_down h s1" using assms(5) start run by (simp_all add: supervisor_run_def)
    show ?thesis
    proof (cases "su_current s1")
      case None
      then show ?thesis using ok s by (auto simp: shut_down_def supervisor_ok_def world_ok_def)
    next
      case (Some c)
      define w' where "w' = snd (stop_candidate h c (su_world s1))"
      have "card (set (sw_live w') - {}) \<le> kill_failures h w' \<and> card (set (sw_binaries w') - {}) \<le> remove_failures h w'
          \<and> (\<forall>p\<in>set (sw_live w'). p < sw_started w') \<and> sw_started w' = sw_started (su_world s1)"
        by (rule stopped_ok [OF _ _ _ _ w'_def]) (use ok Some in \<open>auto simp: supervisor_ok_def world_ok_def\<close>)
      then show ?thesis using s Some by (simp add: shut_down_def w'_def)
    qed
  qed
qed

text \<open>A host on which everything works, and the addresses of a first run.\<close>

definition sample_sup_host :: sup_host where
  "sample_sup_host = \<lparr>sh_generate = (\<lambda>t. None), sh_create_temp = (\<lambda>t. Inr ''/cache/candidate-1''),
     sh_close = (\<lambda>t. None), sh_remove = (\<lambda>t. None), sh_build = (\<lambda>t. ([], None)),
     sh_listen = (\<lambda>t. Inr ''127.0.0.1:4000''), sh_start = (\<lambda>t. None), sh_attach = (\<lambda>t. None),
     sh_exited = (\<lambda>t. False), sh_in_time = (\<lambda>t. True), sh_terminate = (\<lambda>t. None), sh_kill = (\<lambda>t. None),
     sh_result = (\<lambda>t. None), sh_polls = (\<lambda>t. [(PollStatus 200 ''200 OK'', PollAgain)]), sh_now = (\<lambda>t. t + 1)\<rparr>"

definition sample_parse_url :: "bytes \<Rightarrow> bytes + parsed_url" where
  "sample_parse_url s = Inr \<lparr>url_scheme = ''http'', url_opaque = [], url_user = False, url_host = drop 7 s, url_path = [],
     url_raw_path = [], url_raw_query = [], url_fragment = [], url_force_query = False\<rparr>"

definition sample_sup_world :: sup_world where
  "sample_sup_world = \<lparr>sw_clock = 0, sw_started = 0, sw_live = [], sw_binaries = []\<rparr>"

definition idle_supervisor :: supervisor where
  "idle_supervisor = \<lparr>su_proxy = new_development_proxy, su_current = None, su_watching = None, su_events = [],
     su_snapshot = Map.empty, su_pending = False, su_changed_at = 0, su_watch_error = [], su_world = sample_sup_world\<rparr>"

lemma sample_reliable: "reliable_host sample_sup_host" "named_by_host sample_parse_url"
  by (auto simp: reliable_host_def sample_sup_host_def named_by_host_def sample_parse_url_def)

definition failing_sup_host :: sup_host where
  "failing_sup_host = sample_sup_host\<lparr>sh_generate := (\<lambda>t. Some ''bad template'')\<rparr>"

theorem failed_candidate_harmless_witness:
  "su_current (snd (build_healthy_candidate failing_sup_host (\<lambda>e. []) idle_supervisor)) = None
   \<and> (\<exists>ev. su_events (snd (build_healthy_candidate failing_sup_host (\<lambda>e. []) idle_supervisor)) = [ev]
        \<and> ev_phase ev \<in> {''generate'', ''build'', ''startup''})"
proof -
  have host: "reliable_host failing_sup_host"
    using sample_reliable(1) by (simp add: failing_sup_host_def reliable_host_def)
  have fresh: "\<forall>p\<in>set (sw_live (su_world idle_supervisor)). p < sw_started (su_world idle_supervisor)"
    by (simp add: idle_supervisor_def sample_sup_world_def)
  have run: "build_healthy_candidate failing_sup_host (\<lambda>e. []) idle_supervisor
      = (None, snd (build_healthy_candidate failing_sup_host (\<lambda>e. []) idle_supervisor))"
    by (simp add: build_healthy_candidate_def failing_sup_host_def Let_def)
  have idle: "su_current idle_supervisor = None" "su_events idle_supervisor = []" by (simp_all add: idle_supervisor_def)
  show ?thesis
    using failed_candidate_harmless [OF host fresh run] unfolding idle append_Nil by blast
qed

text \<open>A host that refuses to kill anything and to remove any file.\<close>

definition stubborn_sup_host :: sup_host where
  "stubborn_sup_host = sample_sup_host\<lparr>sh_kill := (\<lambda>t. Some (OtherStop ''operation not permitted'')),
     sh_remove := (\<lambda>t. Some ''operation not permitted'')\<rparr>"

theorem supervisor_keeps_one_application_witness:
  "\<exists>s. supervisor_run (\<lambda>r. True) sample_parse_url stubborn_sup_host (\<lambda>e. []) 0 False None None (Inr ''127.0.0.1:7331'')
      Map.empty [] [CurrentExited] sample_sup_world = Inr (None, s) \<and> supervisor_ok stubborn_sup_host s
      \<and> sw_binaries (su_world s) = [''/cache/candidate-1'']"
proof -
  have port: "set_authority (\<lambda>r. True) ''127.0.0.1:7331'' new_development_proxy
      = (None, new_development_proxy\<lparr>px_authority := Some 7331\<rparr>)"
    by (simp add: set_authority_def go_eval)
  obtain s where run: "supervisor_run (\<lambda>r. True) sample_parse_url stubborn_sup_host (\<lambda>e. []) 0 False None None
      (Inr ''127.0.0.1:7331'') Map.empty [] [CurrentExited] sample_sup_world = Inr (None, s)"
      "sw_binaries (su_world s) = [''/cache/candidate-1'']"
    by (simp add: supervisor_run_def run_start_def port Let_def joined_error_def build_and_activate_def build_healthy_candidate_def
        build_binary_def remove_binary_def stubborn_sup_host_def sample_sup_host_def sample_sup_world_def sup_tick_def emit_def report_def)
  have names: "names_files stubborn_sup_host" by (simp add: names_files_def stubborn_sup_host_def sample_sup_host_def)
  have "sw_live sample_sup_world = []" "sw_binaries sample_sup_world = []" by (simp_all add: sample_sup_world_def)
  from supervisor_keeps_one_application [OF names sample_reliable(2) this run(1)] run show ?thesis by blast
qed

end
