(* ===== verification/Spec2Isabelle.thy ===== *)
theory Spec2Isabelle
  imports Release_Finalization Release_Command Command_Results Compiled_Components Source_Analysis Regeneration Lsp_Boundary Dev_Proxy_Safety
    Dev_Event_History Dev_Supervision
begin

section \<open>A verification library for the Sandwich Hime template compiler\<close>

text \<open>
  Sandwich Hime compiles \<open>.sando\<close> templates (a Go header and HTML with Go tags) to Go source. Its parts are
  the runtime that generated code calls (\<open>sando/\<close>), the compiler (\<open>internal/compiler/\<close>), a development
  server that rebuilds and restarts the application (\<open>internal/devserver/\<close>), a language server
  (\<open>internal/lsp/\<close>), the tools that package and check a release (\<open>internal/releaseartifact/\<close>), the version
  (\<open>internal/version/\<close>) and the two commands (\<open>cmd/himesan/\<close>, \<open>cmd/himesan-release/\<close>). Definitions keep
  the names of the Go functions, in snake case, and follow their branches, errors and early returns. A
  Go string or byte slice is a list of bytes, a struct a record, an error its text or a constructor.

  \<^bold>\<open>Shared library.\<close>
  \<^item> \<open>Hime_Prelude\<close>: the collections of simplification rules, and the interfaces several components
    provide, as locales: \<open>machine_invariant\<close> and \<open>machine_simulation\<close> (machines that read one byte at a time
    and stop at the first error), \<open>action_invariant\<close> and \<open>action_relation\<close> (actions in any order),
    \<open>byte_escape\<close> and \<open>decodable_escape\<close> (byte-wise escaping with its decoder), and \<open>name_supply\<close>. They are
    interpreted on the code: the HTML analyzer (\<open>html\<close>), HTML escaping (\<open>html_esc\<close>), the sanitized
    line directive (\<open>directive\<close>), the choice of identifiers (\<open>go_names\<close>), and the language server
    (\<open>lsp_texts\<close>, \<open>lsp_root\<close>).
  \<^item> \<open>Go_Strings\<close>, \<open>Go_Paths\<close>, \<open>Go_Literals\<close>, \<open>Go_Net\<close>, \<open>Go_Regexp\<close>, \<open>Go_Flags\<close>: what the program uses of
    \<open>strings\<close>, \<open>bytes\<close>, \<open>unicode/utf8\<close>, \<open>html\<close>, \<open>path/filepath\<close>, \<open>strconv\<close>, \<open>net\<close>, \<open>regexp\<close> (derivatives) and \<open>flag\<close>.
  \<^item> \<open>Host_Files\<close>: a file system as a map from paths to entries. Every system call takes one tick of a
    clock, and a function of the tick says whether it fails or the context is canceled there, so a
    statement about all hosts covers a fault or a cancellation at every call. Other programs do not write
    the files meanwhile.

  \<^bold>\<open>Runtime.\<close> \<open>Sando_Runtime\<close> (\<open>write.go\<close>, \<open>trust.go\<close>, \<open>component.go\<close>): \<open>WriteText\<close> to \<open>WriteCSS\<close>, the URL policy
  \<open>canonicalURL\<close>, \<open>Render\<close> and its guards. A writer is a function that may fail or write too little at
  each call. The lemmas show what each helper writes and that it escapes every significant byte.

  \<^bold>\<open>Compiler.\<close>
  \<^item> \<open>Source_Positions\<close>, \<open>Diagnostics\<close>, \<open>Renderer_IR\<close> (\<open>parse.go\<close>, \<open>diagnostic.go\<close>, \<open>model.go\<close>): the data of the
    passes; the sort of diagnostics is a stable sort of the same multiset.
  \<^item> \<open>Template_Lexer\<close>, \<open>Header_Parser\<close> (\<open>parse.go\<close>): cutting a template into text and tags, locating and
    reading the header. The delimiter scan equals a specification over Go's lexical grammar; printing
    tags and cutting them again gives them back.
  \<^item> \<open>Html_Context\<close>, \<open>Html_Entities\<close>, \<open>Html_Tokenizer\<close>, \<open>Html_Urls\<close>, \<open>Html_Analysis\<close> (\<open>context.go\<close>): the analyzer
    that gives every output node its escaping context, one definition per case of its switch, and its
    refinement to a tokenizer without the analyzer's stacks and checks. The tokenizer is that of the
    code, not of the HTML standard: contexts are those the analyzer's own reading of HTML has.
  \<^item> \<open>Go_Backend\<close>, \<open>Compiled_Components\<close> (\<open>backend.go\<close>): imports, names, code of every node, the trust
    audit, freshness; and what ties generated calls to the runtime's helpers. An execution of a compiled
    component is one of the statements printed for its nodes: the text of a call says which function of
    the runtime writes, the Go statements between them which pieces run and how often.
  \<^item> \<open>Component_Cycles\<close>, \<open>Source_Analysis\<close> (\<open>operation.go\<close>, \<open>analysis.go\<close>): the depth-first search for
    static cycles, shown exact, and the analysis for editors, shown to agree with a compilation.
  \<^item> \<open>Discovery\<close> (\<open>discover.go\<close>), \<open>Operations\<close>, \<open>Output_Files\<close>, \<open>Operation_Results\<close>, \<open>Regeneration\<close>
    (\<open>operation.go\<close>, \<open>replace_unix.go\<close>): which sources are found, \<open>Generate\<close> and \<open>Check\<close>. Generate writes only what it
    compiled, where it may, or nothing; Check writes nothing, and a whole Check, discovery included, accepts
    what Generate wrote.

  \<^bold>\<open>Development server.\<close> \<open>Dev_Config\<close>, \<open>Dev_Csp\<close>, \<open>Dev_Proxy\<close>, \<open>Dev_Proxy_Safety\<close>, \<open>Dev_Events\<close>,
  \<open>Dev_Event_History\<close>, \<open>Dev_Watch\<close>, \<open>Dev_Process\<close>, \<open>Dev_Supervisor\<close>, \<open>Dev_Supervision\<close> (\<open>config.go\<close>, \<open>proxy.go\<close>,
  \<open>events.go\<close>, \<open>watch.go\<close>, \<open>process.go\<close>, \<open>process_unix.go\<close>, \<open>supervisor.go\<close>). The supervisor polls the watcher, builds
  a candidate, checks its health, makes it the target of the proxy and stops the one before; its events
  go to the hub. The loop is a function of what each \<open>select\<close> chooses. The proxy answers local authorities
  only and its rewriting of a policy grants one source; a slow browser loses old events, never the
  newest; the application requests go to is the one running, and besides it there are never more
  processes than kills that failed, nor more binaries than removals that failed.

  \<^bold>\<open>Language server.\<close> \<open>Lsp_Frames\<close>, \<open>Lsp_Positions\<close>, \<open>Lsp_Workspace\<close>, \<open>Lsp_Features\<close>, \<open>Lsp_Server\<close>,
  \<open>Lsp_Histories\<close>, \<open>Lsp_Boundary\<close> (\<open>protocol.go\<close>, \<open>workspace.go\<close>, \<open>features.go\<close>, \<open>server.go\<close>). Frames, requests, timers and
  runs of the indexer are actions in any order. In every history a request is answered once, and
  only texts under the workspace root and within the limits are kept.

  \<^bold>\<open>Release tools.\<close> \<open>Release_Files\<close>, \<open>Release_Package\<close> (\<open>artifact.go\<close>), \<open>Release_Evidence\<close> (\<open>evidence.go\<close>),
  \<open>Release_Native\<close> (\<open>native.go\<close>), \<open>Release_Macos\<close> (\<open>macos.go\<close>): packaging, receipts, the sealed evidence, the set
  of native receipts, the approved archive and the signed directory. \<open>Release_Extraction\<close> and
  \<open>Release_Results\<close> show what a successful extraction has checked, \<open>Release_Roundtrip\<close> that a package is
  extracted to what went in, \<open>Release_Receipts\<close> what a verified set of receipts says,
  \<open>Release_Finalization\<close> that the documents of a finalized directory agree. \<open>Release_Samples\<close> holds
  libraries simple enough to compute with, on which the hypotheses are discharged.

  \<^bold>\<open>Version and commands.\<close> \<open>Compiler_Version\<close> (\<open>version.go\<close>); \<open>Command_Line\<close>, \<open>Command_Results\<close>
  (\<open>cmd/himesan/main.go\<close>): dispatch, flags, streams and exit status, down to \<open>Generate\<close> and \<open>Check\<close>;
  \<open>Release_Command\<close> (\<open>cmd/himesan-release/main.go\<close>).

  \<^bold>\<open>Loops and fuel.\<close> Loops are structural recursion or have a measure, with these exceptions. A walk over
  directories has one unit of fuel per level, 4096 of them: Linux allows a path no more bytes than that,
  and without fuel \<open>ReadDir\<close> reports an error, as the system would. The loop over parent directories has the
  length of the path and one, and the path shrinks at each turn. \<open>unique_loop\<close> has a turn for every used name and one
  more, enough by \<open>generated_names_fresh\<close>. Following links ends after 40, the limit of the system.
  Where what is read from outside decides how long a loop runs (frames, polls, choices of a \<open>select\<close>)
  the answers are a list.

  \<^bold>\<open>Parameters.\<close> What is not under the repository is an argument: results of \<open>go/scanner\<close>, \<open>go/parser\<close> and
  \<open>go/printer\<close> (\<open>go_tools\<close>, \<open>backend_env\<close>), entity and Unicode tables (\<open>go_env\<close>), JSON, SHA-256, RFC 3339, gzip
  and tar (\<open>release_tools\<close>, \<open>lsp_codec\<close>), URL and media type parsing, \<open>fmt.Sprint\<close> of application values, the
  answers of the system (\<open>host\<close>, \<open>sup_host\<close>), the order in which a map is ranged over, the usage texts of the
  flag package. What the properties need of them is a hypothesis of the property, and a witness
  instantiates it.

  \<^bold>\<open>Not modelled.\<close> The Windows variants (\<open>process_windows*.go\<close>, \<open>replace_windows.go\<close>, the taskkill arguments
  in \<open>process.go\<close>): they are system calls of another platform and no build contains both. Test support
  (\<open>internal/testpath\<close>). The reverse proxy and transport of \<open>net/http\<close>, the signal handler of the command,
  and the durations of timers, which are choices of the schedule. Data races inside one step: mutexes
  make the modelled steps atomic. Failures of writing to the editor, which the server ignores.
\<close>

end
